(* ===== verification/Prelude.thy ===== *)
theory Prelude
  imports Complex_Main "HOL-Library.Product_Lexorder" "HOL-Library.AList"
begin

text \<open>
  Shared vocabulary of the development: Python exceptions as values, the first-minimum
  selection behind Python's \<open>min(xs, key=f)\<close>, association lists for dictionaries, and the
  polling loop (\<open>while True\<close>: attempt, check the deadline, sleep) that several operations of
  the framework are written with. The lemma collections \<open>py_simps\<close>, \<open>lock_simps\<close> and
  \<open>pool_simps\<close> gather the facts the component proofs rewrite with.
\<close>

named_theorems py_simps \<open>rewrite rules for the Python value and string model\<close>
named_theorems lock_simps \<open>rewrite rules for file locks and their sidecar files\<close>
named_theorems pool_simps \<open>rewrite rules for GPU pools and slots\<close>

subsection \<open>Exceptions\<close>

text \<open>
  The exceptions the modelled code raises or catches, without their message texts.
  \<open>PytestFail\<close> and \<open>PytestSkip\<close> are the exceptions of \<open>pytest.fail\<close> and \<open>pytest.skip\<close>.
\<close>

datatype py_error =
    RuntimeError
  | ValueError
  | KeyError
  | IndexError
  | TypeError
  | AttributeError
  | OSError
  | FileNotFoundError
  | PytestFail
  | PytestExit
  | PytestSkip
  | TimeoutError
  | URLError
  | HTTPError
  | AssertionError
  | TimeoutExpired

text \<open>What \<open>except OSError\<close> catches.\<close>

definition is_os_error :: "py_error \<Rightarrow> bool" where
  "is_os_error e \<longleftrightarrow> e \<in> {OSError, FileNotFoundError, TimeoutError, URLError, HTTPError}"

text \<open>The non-error results of a list of calls, stopping at the first exception.\<close>

fun mapM :: "('a \<Rightarrow> 'e + 'b) \<Rightarrow> 'a list \<Rightarrow> 'e + 'b list" where
  "mapM f [] = Inr []"
| "mapM f (x # xs) =
     (case f x of
        Inl e \<Rightarrow> Inl e
      | Inr y \<Rightarrow> (case mapM f xs of Inl e \<Rightarrow> Inl e | Inr ys \<Rightarrow> Inr (y # ys)))"

text \<open>Going on with the result of a call, unless it raised.\<close>

definition sum_bind :: "'e + 'a \<Rightarrow> ('a \<Rightarrow> 'e + 'b) \<Rightarrow> 'e + 'b" where
  "sum_bind r f = (case r of Inl e \<Rightarrow> Inl e | Inr x \<Rightarrow> f x)"

lemma sum_bind_simps [simp]: "sum_bind (Inl e) f = Inl e" "sum_bind (Inr x) f = f x"
  by (simp_all add: sum_bind_def)

lemma sum_bind_Inr: "sum_bind r f = Inr y \<longleftrightarrow> (\<exists>x. r = Inr x \<and> f x = Inr y)"
  by (cases r) auto

lemma mapM_Inr_length: "mapM f xs = Inr ys \<Longrightarrow> length ys = length xs"
  by (induction xs arbitrary: ys) (auto split: sum.splits)

lemma mapM_Inr_nth:
  "mapM f xs = Inr ys \<Longrightarrow> i < length xs \<Longrightarrow> f (xs ! i) = Inr (ys ! i)"
proof (induction xs arbitrary: ys i)
  case Nil
  then show ?case by simp
next
  case (Cons x xs)
  then show ?case by (cases i) (auto split: sum.splits)
qed

lemma mapM_Inr_all: "mapM f xs = Inr ys \<Longrightarrow> x \<in> set xs \<Longrightarrow> \<exists>y. f x = Inr y \<and> y \<in> set ys"
  by (induction xs arbitrary: ys) (auto split: sum.splits)

lemma mapM_Inr_preimage: "mapM f xs = Inr ys \<Longrightarrow> y \<in> set ys \<Longrightarrow> \<exists>x \<in> set xs. f x = Inr y"
  by (induction xs arbitrary: ys) (auto split: sum.splits)

lemma map_sum_Inr [simp]: "map_sum id f x = Inr y \<longleftrightarrow> (\<exists>z. x = Inr z \<and> y = f z)"
  by (cases x) auto

lemma map_sum_Inl [simp]: "map_sum id f x = Inl e \<longleftrightarrow> x = Inl e"
  by (cases x) auto

subsection \<open>Python's min with a key\<close>

text \<open>\<open>min(xs, key=f)\<close>: the first element whose key is least; \<open>None\<close> for an empty list.\<close>

fun min_by :: "('a \<Rightarrow> 'k::linorder) \<Rightarrow> 'a list \<Rightarrow> 'a option" where
  "min_by f [] = None"
| "min_by f (x # xs) =
     (case min_by f xs of
        None \<Rightarrow> Some x
      | Some y \<Rightarrow> if f x \<le> f y then Some x else Some y)"

lemma min_by_None [simp]: "min_by f xs = None \<longleftrightarrow> xs = []"
  by (cases xs) (auto split: option.splits)

lemma min_by_in: "min_by f xs = Some x \<Longrightarrow> x \<in> set xs"
  by (induction xs arbitrary: x) (auto split: option.splits if_splits)

lemma min_by_least: "min_by f xs = Some x \<Longrightarrow> y \<in> set xs \<Longrightarrow> f x \<le> f y"
proof (induction xs arbitrary: x)
  case Nil
  then show ?case by simp
next
  case (Cons z zs)
  then show ?case
    by (cases "min_by f zs") (auto split: if_splits dest: order_trans)
qed

lemma min_by_Some: "xs \<noteq> [] \<Longrightarrow> \<exists>x. min_by f xs = Some x"
  by (cases "min_by f xs") auto

subsection \<open>Small facts on lists and association lists\<close>

lemma length_filter_strict:
  assumes "\<And>x. x \<in> set xs \<Longrightarrow> Q x \<Longrightarrow> P x" and "y \<in> set xs" and "P y" and "\<not> Q y"
  shows "length (filter Q xs) < length (filter P xs)"
  using assms
proof (induction xs)
  case Nil
  then show ?case by simp
next
  case (Cons z zs)
  have "\<forall>x \<in> set zs. Q x \<longrightarrow> P x"
    using Cons.prems(1) by simp
  then have le: "length (filter Q zs) \<le> length (filter P zs)"
    by (induction zs) auto
  show ?case
  proof (cases "y = z")
    case True
    with Cons.prems le show ?thesis by simp
  next
    case False
    with Cons.prems(2) have "y \<in> set zs" by simp
    with Cons.IH Cons.prems have "length (filter Q zs) < length (filter P zs)" by simp
    with Cons.prems(1) show ?thesis by auto
  qed
qed

lemma map_of_update [simp]: "map_of (AList.update k v xs) = (map_of xs)(k \<mapsto> v)"
  by (rule update_conv')

lemma update_same: "map_of xs k = Some v \<Longrightarrow> AList.update k v xs = xs"
  by (induction xs) (auto split: if_splits)

lemma update_update: "AList.update k v (AList.update k u xs) = AList.update k v xs"
  by (induction xs) auto

text \<open>The dictionary entry a Python \<open>d.get(k)\<close> returns, and the values in insertion order.\<close>

abbreviation dict_get :: "('k \<times> 'v) list \<Rightarrow> 'k \<Rightarrow> 'v option" where
  "dict_get d k \<equiv> map_of d k"

abbreviation dict_set :: "'k \<Rightarrow> 'v \<Rightarrow> ('k \<times> 'v) list \<Rightarrow> ('k \<times> 'v) list" where
  "dict_set k v d \<equiv> AList.update k v d"

subsection \<open>The polling loop\<close>

text \<open>
  \<^verbatim>\<open>
  while True:
      ... attempt; return or raise when it is decided ...
      if time.monotonic() >= deadline: <give up>
      time.sleep(...)
  \<close>
  One iteration is \<open>att\<close>, which returns \<open>Some r\<close> when the loop is left with \<open>r\<close>;
  \<open>expired\<close> is the deadline check and \<open>rest n\<close> what happens during the \<open>n\<close>-th pause,
  including the steps of other threads and processes. \<open>None\<close> as the result of \<open>poll\<close> is a
  loop that never ends; \<open>Some (None, s)\<close> is a loop that gave up at its deadline.
\<close>

partial_function (option) poll ::
  "('s \<Rightarrow> 'r option \<times> 's) \<Rightarrow> ('s \<Rightarrow> bool) \<Rightarrow> (nat \<Rightarrow> 's \<Rightarrow> 's) \<Rightarrow> nat \<Rightarrow> 's
     \<Rightarrow> ('r option \<times> 's) option" where
  "poll att expired rest n s =
     (case att s of
        (Some r, s') \<Rightarrow> Some (Some r, s')
      | (None, s') \<Rightarrow>
          if expired s' then Some (None, s')
          else poll att expired rest (Suc n) (rest n s'))"

declare poll.simps [code]

lemma poll_done: "att s = (Some r, s') \<Longrightarrow> poll att expired rest n s = Some (Some r, s')"
  by (simp add: poll.simps)

lemma poll_expired:
  "att s = (None, s') \<Longrightarrow> expired s' \<Longrightarrow> poll att expired rest n s = Some (None, s')"
  by (simp add: poll.simps)

lemma poll_again:
  "att s = (None, s') \<Longrightarrow> \<not> expired s' \<Longrightarrow>
     poll att expired rest n s = poll att expired rest (Suc n) (rest n s')"
  by (simp add: poll.simps [of att expired rest n s])

text \<open>
  The turns of the loop: \<open>poll_turn att expired rest k s n u\<close> says that the loop that counts its turns from
  \<open>k\<close> and starts in \<open>s\<close> comes to its turn
  number \<open>n\<close> and that this turn starts in the state \<open>u\<close>: every earlier turn failed before the deadline and was
  followed by its pause.
\<close>

inductive poll_turn ::
  "('s \<Rightarrow> 'r option \<times> 's) \<Rightarrow> ('s \<Rightarrow> bool) \<Rightarrow> (nat \<Rightarrow> 's \<Rightarrow> 's) \<Rightarrow> nat \<Rightarrow> 's \<Rightarrow> nat \<Rightarrow> 's \<Rightarrow> bool"
  for att expired rest k s where
  first_turn: "poll_turn att expired rest k s k s"
| next_turn: "poll_turn att expired rest k s n u \<Longrightarrow> att u = (None, u') \<Longrightarrow> \<not> expired u' \<Longrightarrow>
    poll_turn att expired rest k s (Suc n) (rest n u')"

lemma poll_turn_keeps:
  assumes "poll_turn att expired rest k s n u" and "I s"
    and "\<And>n u u'. I u \<Longrightarrow> att u = (None, u') \<Longrightarrow> \<not> expired u' \<Longrightarrow> I (rest n u')"
  shows "I u"
  using assms(1) by induction (auto intro: assms(2,3))

text \<open>The result of the loop is the result of a turn that it came to.\<close>

lemma poll_last_turn:
  assumes ret: "poll att expired rest k s = Some (res, t)"
  shows "\<exists>n u. poll_turn att expired rest k s n u \<and> att u = (res, t) \<and> (res = None \<longrightarrow> expired t)"
proof -
  let ?Q = "\<lambda>p. \<exists>n u. poll_turn att expired rest k s n u \<and> att u = p \<and> (fst p = None \<longrightarrow> expired (snd p))"
  have "att = att \<and> expired = expired \<and> rest = rest \<longrightarrow> poll_turn att expired rest k s k s \<longrightarrow> ?Q (res, t)"
  proof (rule poll.raw_induct [where P = "\<lambda>att' expired' rest' n u p.
        att' = att \<and> expired' = expired \<and> rest' = rest \<longrightarrow> poll_turn att expired rest k s n u \<longrightarrow> ?Q p", OF _ ret])
    fix poll' att' expired' rest' n u p
    assume IH: "\<And>att' expired' rest' n u p. poll' att' expired' rest' n u = Some p \<Longrightarrow>
          att' = att \<and> expired' = expired \<and> rest' = rest \<longrightarrow> poll_turn att expired rest k s n u \<longrightarrow> ?Q p"
      and eq: "(case att' u of
             (Some r, u') \<Rightarrow> Some (Some r, u')
           | (None, u') \<Rightarrow>
               if expired' u' then Some (None, u')
               else poll' att' expired' rest' (Suc n) (rest' n u')) = Some p"
    show "att' = att \<and> expired' = expired \<and> rest' = rest \<longrightarrow> poll_turn att expired rest k s n u \<longrightarrow> ?Q p"
    proof (intro impI, elim conjE)
      assume same: "att' = att" "expired' = expired" "rest' = rest" and turn: "poll_turn att expired rest k s n u"
      obtain o' u' where a: "att u = (o', u')" by (cases "att u")
      show "?Q p"
      proof (cases "o' = None \<and> \<not> expired u'")
        case True
        with a eq same have "poll' att' expired' rest' (Suc n) (rest n u') = Some p" by simp
        moreover from True a turn have "poll_turn att expired rest k s (Suc n) (rest n u')" by (auto intro: next_turn)
        ultimately show ?thesis using IH same by blast
      next
        case False
        have "p = (o', u')"
          using eq False by (cases o') (simp_all add: a same split: if_splits)
        moreover from False have "o' = None \<longrightarrow> expired u'" by blast
        ultimately show ?thesis using a turn by (intro exI [of _ n] exI [of _ u]) simp
      qed
    qed
  qed
  then show ?thesis by (simp add: first_turn)
qed

text \<open>
  Partial correctness: an invariant kept by failed attempts and by pauses holds when the
  last attempt starts, so the result of the loop is the result of an attempt made in a
  state that satisfies it.
\<close>

lemma poll_result:
  assumes ret: "poll att expired rest n s = Some (res, t)"
    and init: "I s"
    and keep: "\<And>n u u'. I u \<Longrightarrow> att u = (None, u') \<Longrightarrow> \<not> expired u' \<Longrightarrow> I (rest n u')"
  shows "\<exists>u. I u \<and> att u = (res, t) \<and> (res = None \<longrightarrow> expired t)"
proof -
  obtain m u where u: "poll_turn att expired rest n s m u" "att u = (res, t) \<and> (res = None \<longrightarrow> expired t)"
    using poll_last_turn [OF ret] by blast
  from u(1) init have "I u" by (rule poll_turn_keeps) (rule keep)
  with u(2) show ?thesis by blast
qed

text \<open>A loop whose every attempt fails and whose deadline is never seen does not return.\<close>

lemma poll_diverges:
  assumes "I s"
    and "\<And>u. I u \<Longrightarrow> \<exists>u'. att u = (None, u') \<and> \<not> expired u' \<and> (\<forall>n. I (rest n u'))"
  shows "poll att expired rest n s = None"
proof (cases "poll att expired rest n s")
  case (Some p)
  obtain res t where p: "p = (res, t)" by (cases p)
  have "\<exists>u. I u \<and> att u = (res, t) \<and> (res = None \<longrightarrow> expired t)"
    by (rule poll_result [where I = I, OF Some [unfolded p] assms(1)]) (use assms(2) in fastforce)
  then show ?thesis using assms(2) by fastforce
qed simp

text \<open>
  The contract of a loop that sleeps: attempts do not turn the clock back, and every pause
  lasts at least \<open>pause\<close> seconds or until the deadline (\<open>time.sleep\<close> suspends for at least its
  argument). Such a loop always returns, whatever happens during its pauses.
\<close>

locale polling =
  fixes att :: "'s \<Rightarrow> 'r option \<times> 's"
    and clock :: "'s \<Rightarrow> rat"
    and deadline :: rat
    and rest :: "nat \<Rightarrow> 's \<Rightarrow> 's"
    and pause :: rat
  assumes pause_pos: "0 < pause"
    and att_clock: "clock s \<le> clock (snd (att s))"
    and rest_clock: "min (clock s + pause) deadline \<le> clock (rest n s)"
begin

lemma returns_within:
  "deadline \<le> clock s + of_nat k * pause \<Longrightarrow>
     \<exists>res t. poll att (\<lambda>s. deadline \<le> clock s) rest n s = Some (res, t)"
proof (induction k arbitrary: n s)
  case 0
  obtain o' s' where a: "att s = (o', s')" by (cases "att s")
  with att_clock [of s] 0 have "deadline \<le> clock s'" by simp
  with a show ?case
    by (cases o') (auto simp: poll_done poll_expired)
next
  case (Suc k)
  obtain o' s' where a: "att s = (o', s')" by (cases "att s")
  show ?case
  proof (cases "o' = None \<and> \<not> deadline \<le> clock s'")
    case True
    have "min (clock s + pause) deadline \<le> clock (rest n s')"
      using att_clock [of s] rest_clock [of s' n] a by simp
    moreover have "0 \<le> of_nat k * pause" using pause_pos by simp
    ultimately have "deadline \<le> clock (rest n s') + of_nat k * pause"
      using Suc.prems by (auto simp: algebra_simps min_def split: if_splits)
    from Suc.IH [OF this] True a show ?thesis by (simp add: poll_again)
  next
    case False
    with a show ?thesis by (cases o') (auto simp: poll_done poll_expired)
  qed
qed

lemma returns: "\<exists>res t. poll att (\<lambda>s. deadline \<le> clock s) rest n s = Some (res, t)"
proof -
  obtain k where "(deadline - clock s) / pause < of_nat k"
    using reals_Archimedean2 by blast
  then have "deadline \<le> clock s + of_nat k * pause"
    using pause_pos by (simp add: divide_less_eq algebra_simps)
  then show ?thesis by (rule returns_within)
qed

lemma gives_up_late:
  assumes "poll att (\<lambda>s. deadline \<le> clock s) rest n s = Some (None, t)"
  shows "deadline \<le> clock t"
  using poll_result [OF assms, where I = "\<lambda>_. True"] by blast

end

text \<open>
  The loops that look at the clock at the top of every turn instead: a turn that does not decide takes at
  least \<open>tick\<close> seconds, and a turn that starts after the deadline decides.
\<close>

locale ticking =
  fixes att :: "'s \<Rightarrow> 'r option \<times> 's"
    and clock :: "'s \<Rightarrow> rat"
    and deadline :: rat
    and tick :: rat
  assumes tick_pos: "0 < tick"
    and late: "deadline \<le> clock s \<Longrightarrow> fst (att s) \<noteq> None"
    and early: "att s = (None, s') \<Longrightarrow> clock s + tick \<le> clock s'"
begin

lemma decides_within:
  "deadline \<le> clock s + of_nat k * tick \<Longrightarrow>
     \<exists>r t. poll att (\<lambda>_. False) (\<lambda>_ s. s) n s = Some (Some r, t)"
proof (induction k arbitrary: n s)
  case 0
  then show ?case using late [of s] by (cases "att s") (auto simp: poll_done)
next
  case (Suc k)
  obtain o' s' where a: "att s = (o', s')" by (cases "att s")
  show ?case
  proof (cases o')
    case None
    with a early have "clock s + tick \<le> clock s'" by blast
    with Suc.prems have "deadline \<le> clock s' + of_nat k * tick" by (simp add: algebra_simps)
    from Suc.IH [OF this] None a show ?thesis by (simp add: poll_again)
  next
    case (Some r)
    with a show ?thesis by (simp add: poll_done)
  qed
qed

lemma decides: "\<exists>r t. poll att (\<lambda>_. False) (\<lambda>_ s. s) n s = Some (Some r, t)"
proof -
  obtain k where "(deadline - clock s) / tick < of_nat k"
    using reals_Archimedean2 by blast
  then have "deadline \<le> clock s + of_nat k * tick"
    using tick_pos by (simp add: divide_less_eq algebra_simps)
  then show ?thesis by (rule decides_within)
qed

end

end
