(* ===== verification/PyStr.thy ===== *)
theory PyStr
  imports Prelude "HOL-Library.Char_ord" "HOL-Library.List_Lexorder"
begin

text \<open>
  The parts of Python's \<open>str\<close> the framework uses. A string is a list of characters with code
  points below 256; case mapping is the one of ASCII letters. Numbers print as Python's
  \<open>str(int)\<close> does, and printing is injective (\<open>show_int_inject\<close>), which is what makes
  lock file names and scheduling group names distinct.
\<close>

subsection \<open>Printing integers\<close>

definition digit_char :: "nat \<Rightarrow> char" where
  "digit_char n = char_of (48 + n)"

definition digit_val :: "char \<Rightarrow> nat" where
  "digit_val c = of_char c - 48"

definition is_digit :: "char \<Rightarrow> bool" where
  "is_digit c \<longleftrightarrow> 48 \<le> (of_char c :: nat) \<and> (of_char c :: nat) \<le> 57"

fun show_nat :: "nat \<Rightarrow> string" where
  "show_nat n = (if n < 10 then [digit_char n] else show_nat (n div 10) @ [digit_char (n mod 10)])"

declare show_nat.simps [simp del]

definition show_int :: "int \<Rightarrow> string" where
  "show_int i = (if i < 0 then CHR ''-'' # show_nat (nat (- i)) else show_nat (nat i))"

definition digits_val :: "string \<Rightarrow> nat" where
  "digits_val s = foldl (\<lambda>a c. 10 * a + digit_val c) 0 s"

lemma digit_val_char: "n < 10 \<Longrightarrow> digit_val (digit_char n) = n"
  by (simp add: digit_val_def digit_char_def)

lemma is_digit_char [simp]: "n < 10 \<Longrightarrow> is_digit (digit_char n)"
  by (simp add: is_digit_def digit_char_def)

lemma digits_val_snoc: "digits_val (s @ [c]) = 10 * digits_val s + digit_val c"
  by (simp add: digits_val_def)

lemma digits_val_show_nat [simp]: "digits_val (show_nat n) = n"
proof (induction n rule: show_nat.induct)
  case (1 n)
  show ?case
  proof (cases "n < 10")
    case True
    then show ?thesis
      by (simp add: show_nat.simps [of n] digits_val_def digit_val_char)
  next
    case False
    with 1 show ?thesis
      by (simp add: show_nat.simps [of n] digits_val_snoc digit_val_char)
  qed
qed

lemma show_nat_digits: "c \<in> set (show_nat n) \<Longrightarrow> is_digit c"
proof (induction n rule: show_nat.induct)
  case (1 n)
  then show ?case
    by (cases "n < 10") (auto simp: show_nat.simps [of n])
qed

lemma show_nat_nonempty [simp]: "show_nat n \<noteq> []"
  by (simp add: show_nat.simps [of n])

lemma show_nat_inject [simp]: "show_nat m = show_nat n \<longleftrightarrow> m = n"
  using digits_val_show_nat by metis

lemma show_int_chars: "c \<in> set (show_int i) \<Longrightarrow> is_digit c \<or> c = CHR ''-''"
  by (auto simp: show_int_def dest: show_nat_digits split: if_splits)

lemma not_digit_minus [simp]: "\<not> is_digit CHR ''-''"
  by (simp add: is_digit_def)

lemma show_int_inject [simp]: "show_int i = show_int j \<longleftrightarrow> i = j"
proof
  assume eq: "show_int i = show_int j"
  have no_minus: "show_nat n \<noteq> CHR ''-'' # s" for n s
    using show_nat_digits [of "CHR ''-''" n] by auto
  from eq show "i = j"
    using no_minus no_minus [symmetric]
    by (auto simp: show_int_def split: if_splits)
qed simp

lemma show_int_nonempty [simp]: "show_int i \<noteq> []"
  by (simp add: show_int_def)

lemma underscore_notin_show_int [simp]: "CHR ''_'' \<notin> set (show_int i)"
  using show_int_chars [of "CHR ''_''" i] by (auto simp: is_digit_def)

lemma underscore_notin_show_nat [simp]: "CHR ''_'' \<notin> set (show_nat n)"
  using show_nat_digits [of "CHR ''_''" n] by (auto simp: is_digit_def)

subsection \<open>Cutting and testing strings\<close>

definition startswith :: "string \<Rightarrow> string \<Rightarrow> bool" where
  "startswith s p \<longleftrightarrow> take (length p) s = p"

definition endswith :: "string \<Rightarrow> string \<Rightarrow> bool" where
  "endswith s p \<longleftrightarrow> length p \<le> length s \<and> drop (length s - length p) s = p"

fun contains_str :: "string \<Rightarrow> string \<Rightarrow> bool" where
  "contains_str p [] = (p = [])"
| "contains_str p (c # s) = (startswith (c # s) p \<or> contains_str p s)"

text \<open>\<open>s.split(sep, 1)\<close> for a one-character separator, \<open>s.split(sep)\<close>, and \<open>sep.join\<close>.\<close>

fun split1 :: "char \<Rightarrow> string \<Rightarrow> string \<times> string option" where
  "split1 x [] = ([], None)"
| "split1 x (c # s) =
     (if c = x then ([], Some s)
      else case split1 x s of (a, b) \<Rightarrow> (c # a, b))"

fun split_on :: "char \<Rightarrow> string \<Rightarrow> string list" where
  "split_on x [] = [[]]"
| "split_on x (c # s) =
     (if c = x then [] # split_on x s
      else case split_on x s of [] \<Rightarrow> [[c]] | w # ws \<Rightarrow> (c # w) # ws)"

fun join_with :: "string \<Rightarrow> string list \<Rightarrow> string" where
  "join_with sep [] = []"
| "join_with sep [w] = w"
| "join_with sep (w # ws) = w @ sep @ join_with sep ws"

definition replace_char :: "char \<Rightarrow> char \<Rightarrow> string \<Rightarrow> string" where
  "replace_char a b s = map (\<lambda>c. if c = a then b else c) s"

definition is_space :: "char \<Rightarrow> bool" where
  "is_space c \<longleftrightarrow> (let n = (of_char c :: nat) in
     n = 32 \<or> (9 \<le> n \<and> n \<le> 13) \<or> (28 \<le> n \<and> n \<le> 31) \<or> n = 133 \<or> n = 160)"

definition lstrip_by :: "(char \<Rightarrow> bool) \<Rightarrow> string \<Rightarrow> string" where
  "lstrip_by P s = dropWhile P s"

definition rstrip_by :: "(char \<Rightarrow> bool) \<Rightarrow> string \<Rightarrow> string" where
  "rstrip_by P s = rev (dropWhile P (rev s))"

definition py_strip :: "string \<Rightarrow> string" where
  "py_strip s = rstrip_by is_space (lstrip_by is_space s)"

definition lower_char :: "char \<Rightarrow> char" where
  "lower_char c = (let n = (of_char c :: nat) in if 65 \<le> n \<and> n \<le> 90 then char_of (n + 32) else c)"

definition upper_char :: "char \<Rightarrow> char" where
  "upper_char c = (let n = (of_char c :: nat) in if 97 \<le> n \<and> n \<le> 122 then char_of (n - 32) else c)"

definition py_lower :: "string \<Rightarrow> string" where
  "py_lower s = map lower_char s"

definition py_upper :: "string \<Rightarrow> string" where
  "py_upper s = map upper_char s"

text \<open>\<open>s.splitlines()\<close>: the line boundaries below code point 256, with CR LF counting once.\<close>

definition is_line_break :: "char \<Rightarrow> bool" where
  "is_line_break c \<longleftrightarrow> (let n = (of_char c :: nat) in
     (10 \<le> n \<and> n \<le> 13) \<or> (28 \<le> n \<and> n \<le> 30) \<or> n = 133)"

fun splitlines_from :: "string \<Rightarrow> string \<Rightarrow> string list" where
  "splitlines_from cur [] = (if cur = [] then [] else [rev cur])"
| "splitlines_from cur [c] =
     (if is_line_break c then [rev cur] else [rev (c # cur)])"
| "splitlines_from cur (c # d # s) =
     (if of_char c = (13::nat) \<and> of_char d = (10::nat) then rev cur # splitlines_from [] s
      else if is_line_break c then rev cur # splitlines_from [] (d # s)
      else splitlines_from (c # cur) (d # s))"

definition splitlines :: "string \<Rightarrow> string list" where
  "splitlines s = splitlines_from [] s"

text \<open>\<open>int(s)\<close> for a string: surrounding space, a sign, digits with single inner underscores.\<close>

fun digits_ok :: "string \<Rightarrow> bool" where
  "digits_ok [] = False"
| "digits_ok [c] = is_digit c"
| "digits_ok (c # d # s) =
     (is_digit c \<and> (if d = CHR ''_'' then digits_ok s else digits_ok (d # s)))"

definition parse_digits :: "string \<Rightarrow> nat option" where
  "parse_digits s = (if digits_ok s then Some (digits_val (filter (\<lambda>c. c \<noteq> CHR ''_'') s)) else None)"

definition int_of_str :: "string \<Rightarrow> int option" where
  "int_of_str s0 =
     (let s = py_strip s0 in
      case s of
        [] \<Rightarrow> None
      | c # r \<Rightarrow>
          if c = CHR ''-'' then map_option (\<lambda>n. - int n) (parse_digits r)
          else if c = CHR ''+'' then map_option int (parse_digits r)
          else map_option int (parse_digits s))"

subsection \<open>Facts\<close>

lemma startswith_append [simp]: "startswith (p @ s) p"
  by (simp add: startswith_def)

lemma startswith_iff: "startswith s p \<longleftrightarrow> (\<exists>r. s = p @ r)"
  unfolding startswith_def by (metis append_eq_conv_conj append_take_drop_id)

lemma startswith_trans: "startswith s q \<Longrightarrow> startswith q p \<Longrightarrow> startswith s p"
  by (auto simp: startswith_iff)

lemma startswith_Nil [simp]: "startswith s []"
  by (simp add: startswith_def)

lemma split1_notin: "x \<notin> set s \<Longrightarrow> split1 x s = (s, None)"
  by (induction s) auto

lemma split1_None: "split1 x s = (a, None) \<Longrightarrow> x \<notin> set s \<and> s = a"
  by (induction s arbitrary: a) (auto split: prod.splits if_splits)

lemma split1_Some: "split1 x s = (a, Some b) \<Longrightarrow> s = a @ x # b \<and> x \<notin> set a"
  by (induction s arbitrary: a) (auto split: prod.splits if_splits)

lemma split1_append: "x \<notin> set a \<Longrightarrow> split1 x (a @ x # b) = (a, Some b)"
  by (induction a) auto

lemma split_on_nonempty [simp]: "split_on x s \<noteq> []"
  by (induction s) (auto split: list.splits)

lemma split_on_no_sep: "w \<in> set (split_on x s) \<Longrightarrow> x \<notin> set w"
  by (induction s arbitrary: w) (auto split: list.splits if_splits)

lemma join_split_on: "join_with [x] (split_on x s) = s"
proof (induction s)
  case (Cons c s)
  obtain w ws where w: "split_on x s = w # ws" by (cases "split_on x s") auto
  with Cons show ?case by (cases ws) auto
qed simp

lemma replace_char_notin [simp]: "a \<noteq> b \<Longrightarrow> a \<notin> set (replace_char a b s)"
  by (auto simp: replace_char_def)

lemma replace_char_id: "a \<notin> set s \<Longrightarrow> replace_char a b s = s"
  by (induction s) (auto simp: replace_char_def)

lemma show_nat_digits_ok [simp]: "digits_ok (show_nat n)"
proof -
  have "s \<noteq> [] \<Longrightarrow> (\<forall>c \<in> set s. is_digit c) \<Longrightarrow> digits_ok s" for s
    by (induction s rule: digits_ok.induct) (auto simp: is_digit_def)
  then show ?thesis using show_nat_digits by auto
qed

lemma parse_digits_show_nat [simp]: "parse_digits (show_nat n) = Some n"
proof -
  have "filter (\<lambda>c. c \<noteq> CHR ''_'') (show_nat n) = show_nat n"
    by (rule filter_True) (metis underscore_notin_show_nat)
  then show ?thesis by (simp add: parse_digits_def)
qed

lemma is_digit_not_space: "is_digit c \<Longrightarrow> \<not> is_space c"
  by (auto simp: is_digit_def is_space_def Let_def)

lemma dropWhile_none: "(\<And>c. c \<in> set s \<Longrightarrow> \<not> P c) \<Longrightarrow> dropWhile P s = s"
  by (cases s) auto

lemma py_strip_no_space: "(\<And>c. c \<in> set s \<Longrightarrow> \<not> is_space c) \<Longrightarrow> py_strip s = s"
  using dropWhile_none [of s is_space] dropWhile_none [of "rev s" is_space]
  by (simp add: py_strip_def lstrip_by_def rstrip_by_def)

lemma not_space_minus: "\<not> is_space CHR ''-''"
  by (simp add: is_space_def)

text \<open>\<open>int(str(i)) == i\<close>.\<close>

lemma int_of_str_show_int [simp]: "int_of_str (show_int i) = Some i"
proof -
  have strip: "py_strip (show_int i) = show_int i"
    by (rule py_strip_no_space) (metis is_digit_not_space not_space_minus show_int_chars)
  show ?thesis
  proof (cases "i < 0")
    case True
    then show ?thesis
      unfolding int_of_str_def strip by (simp add: show_int_def)
  next
    case False
    obtain c r where cr: "show_nat (nat i) = c # r" by (cases "show_nat (nat i)") auto
    with show_nat_digits [of c "nat i"] have "c \<noteq> CHR ''-''" "c \<noteq> CHR ''+''"
      by (auto simp: is_digit_def)
    moreover have "parse_digits (c # r) = Some (nat i)"
      using parse_digits_show_nat [of "nat i"] cr by simp
    ultimately show ?thesis
      unfolding int_of_str_def strip using False cr by (simp add: show_int_def)
  qed
qed

text \<open>Cutting at the last occurrence of a separator is unambiguous.\<close>

lemma last_sep_inject:
  fixes x :: char
  assumes "x \<notin> set a" and "x \<notin> set b"
  shows "s @ x # a = t @ x # b \<longleftrightarrow> s = t \<and> a = b"
proof
  assume "s @ x # a = t @ x # b"
  from arg_cong [OF this, of rev] have eq: "rev a @ x # rev s = rev b @ x # rev t"
    by simp
  from assms have "x \<notin> set (rev a)" "x \<notin> set (rev b)" by simp_all
  then have "split1 x (rev a @ x # rev s) = (rev a, Some (rev s)) \<and>
      split1 x (rev b @ x # rev t) = (rev b, Some (rev t))"
    by (intro conjI split1_append)
  then have "(rev a, Some (rev s)) = (rev b, Some (rev t))"
    unfolding eq by (metis (no_types))
  then show "s = t \<and> a = b" by simp
qed simp

lemma not_digit_u [simp]: "CHR ''u'' \<notin> set (show_int i)"
  using show_int_chars [of "CHR ''u''" i] by (auto simp: is_digit_def)

end
