(* ===== verification/PyVal.thy ===== *)
theory PyVal
  imports PyStr
begin

text \<open>
  Python values as they come out of JSON, TOML and YAML files and of pytest marker
  arguments, with the conversions and tests the framework applies to them. Dictionaries keep
  insertion order; floats are exact rationals.
\<close>

datatype pyval =
    PNone
  | PBool bool
  | PInt int
  | PFloat rat
  | PStr string
  | PList "pyval list"
  | PDict "(string \<times> pyval) list"

text \<open>\<open>isinstance(v, int)\<close> holds of booleans too.\<close>

fun is_int_inst :: "pyval \<Rightarrow> bool" where
  "is_int_inst (PInt _) = True"
| "is_int_inst (PBool _) = True"
| "is_int_inst _ = False"

fun is_num_inst :: "pyval \<Rightarrow> bool" where
  "is_num_inst (PFloat _) = True"
| "is_num_inst v = is_int_inst v"

fun truthy :: "pyval \<Rightarrow> bool" where
  "truthy PNone = False"
| "truthy (PBool b) = b"
| "truthy (PInt i) = (i \<noteq> 0)"
| "truthy (PFloat r) = (r \<noteq> 0)"
| "truthy (PStr s) = (s \<noteq> [])"
| "truthy (PList xs) = (xs \<noteq> [])"
| "truthy (PDict d) = (d \<noteq> [])"

text \<open>\<open>int(v)\<close>: floats are truncated towards zero.\<close>

definition trunc :: "rat \<Rightarrow> int" where
  "trunc r = (if 0 \<le> r then \<lfloor>r\<rfloor> else - \<lfloor>- r\<rfloor>)"

fun py_int :: "pyval \<Rightarrow> py_error + int" where
  "py_int (PInt i) = Inr i"
| "py_int (PBool b) = Inr (if b then 1 else 0)"
| "py_int (PFloat r) = Inr (trunc r)"
| "py_int (PStr s) = (case int_of_str s of None \<Rightarrow> Inl ValueError | Some i \<Rightarrow> Inr i)"
| "py_int _ = Inl TypeError"

text \<open>\<open>float(v)\<close>; \<open>fl\<close> reads a text.\<close>

fun py_float :: "(string \<Rightarrow> rat option) \<Rightarrow> pyval \<Rightarrow> py_error + rat" where
  "py_float fl (PInt i) = Inr (of_int i)"
| "py_float fl (PBool b) = Inr (if b then 1 else 0)"
| "py_float fl (PFloat r) = Inr r"
| "py_float fl (PStr s) = (case fl s of None \<Rightarrow> Inl ValueError | Some r \<Rightarrow> Inr r)"
| "py_float fl _ = Inl TypeError"

text \<open>\<open>v.get(k, default)\<close>, an \<open>AttributeError\<close> on anything but a dictionary.\<close>

fun py_get :: "pyval \<Rightarrow> string \<Rightarrow> pyval \<Rightarrow> py_error + pyval" where
  "py_get (PDict d) k dflt = Inr (case map_of d k of None \<Rightarrow> dflt | Some v \<Rightarrow> v)"
| "py_get _ k dflt = Inl AttributeError"

text \<open>\<open>list(v)\<close>.\<close>

fun py_list :: "pyval \<Rightarrow> py_error + pyval list" where
  "py_list (PList xs) = Inr xs"
| "py_list (PDict d) = Inr (map (\<lambda>(k, _). PStr k) d)"
| "py_list (PStr s) = Inr (map (\<lambda>c. PStr [c]) s)"
| "py_list _ = Inl TypeError"

text \<open>\<open>a == b\<close>: numbers compare by value, booleans among them; lists and dictionaries compare literally.\<close>

fun num_of :: "pyval \<Rightarrow> rat option" where
  "num_of (PInt i) = Some (of_int i)"
| "num_of (PBool b) = Some (if b then 1 else 0)"
| "num_of (PFloat r) = Some r"
| "num_of _ = None"

definition py_eq :: "pyval \<Rightarrow> pyval \<Rightarrow> bool" where
  "py_eq a b \<longleftrightarrow> (case (num_of a, num_of b) of (Some x, Some y) \<Rightarrow> x = y | _ \<Rightarrow> a = b)"

text \<open>
  \<open>sorted(set(vs))\<close> returns when the values can be members of a set and, if there is more than one, can be compared
  with each other.
\<close>

fun hashable :: "pyval \<Rightarrow> bool" where
  "hashable (PList _) = False"
| "hashable (PDict _) = False"
| "hashable _ = True"

fun is_str :: "pyval \<Rightarrow> bool" where
  "is_str (PStr _) = True"
| "is_str _ = False"

definition sortable_set :: "pyval list \<Rightarrow> bool" where
  "sortable_set vs \<longleftrightarrow> (\<forall>v \<in> set vs. hashable v) \<and>
     ((\<forall>v \<in> set vs. \<forall>u \<in> set vs. u = v) \<or> (\<forall>v \<in> set vs. is_str v) \<or> (\<forall>v \<in> set vs. num_of v \<noteq> None))"

lemma trunc_of_int [simp]: "trunc (of_int i) = i"
  by (simp add: trunc_def flip: of_int_minus)

end
