(* ===== verification/Detector.thy ===== *)
theory Detector
  imports PyVal
begin

text \<open>
  GPU detection, \<open>framework/gpu/detector.py\<close> with the two amd-smi JSON helpers of
  \<open>framework/rocm/libs/amd_smi.py\<close>. The host is a parameter: \<open>h_exec\<close> answers a shell
  command with its exit code and standard output (\<open>None\<close> when the call itself raises, for
  example on a timeout), \<open>h_kfd\<close> is the local KFD sysfs tree (\<open>None\<close> when it is missing or cannot be
  listed; for every node the outcome of reading its \<open>properties\<close> file, if it has one) and \<open>h_loads\<close> stands for
  \<open>json.loads\<close>. The architecture of a GPU is whatever amd-smi reports, a string or not. The printed texts
  and the diagnostic \<open>amd-smi list\<close> log are not modelled; that printing the KFD diagnostics can raise is.
\<close>

record gpu_info =
  gi_index :: int
  gi_arch :: pyval
  gi_vram_mb :: int
  gi_numa_node :: int

record host =
  h_exec :: "string \<Rightarrow> (int \<times> string) option"
  h_kfd :: "(string \<times> (py_error + string) option) list option"
  h_loads :: "string \<Rightarrow> py_error + pyval"

record gpu_detector =
  gd_rock_dir :: "string option"
  gd_ssh :: bool
  gd_cached :: "gpu_info list option"

definition new_detector :: "string option \<Rightarrow> bool \<Rightarrow> gpu_detector" where
  "new_detector rock ssh = \<lparr>gd_rock_dir = rock, gd_ssh = ssh, gd_cached = None\<rparr>"

definition unknown :: string where
  "unknown = ''unknown''"

subsection \<open>Parsing helpers\<close>

definition hex_char :: "nat \<Rightarrow> char" where
  "hex_char n = (if n < 10 then char_of (48 + n) else char_of (87 + n))"

fun show_hex :: "nat \<Rightarrow> string" where
  "show_hex n = (if n < 16 then [hex_char n] else show_hex (n div 16) @ [hex_char (n mod 16)])"

declare show_hex.simps [simp del]

definition kfd_gfx_version :: "string \<Rightarrow> string" where
  "kfd_gfx_version raw =
     (case int_of_str raw of
        None \<Rightarrow> raw
      | Some v \<Rightarrow>
          let major = v div 10000; minor = (v div 100) mod 100; step = v mod 100
          in ''gfx'' @ show_int major @ show_hex (nat minor) @ show_hex (nat step))"

definition unwrap_entries :: "pyval \<Rightarrow> py_error + pyval list" where
  "unwrap_entries data =
     (case data of
        PDict d \<Rightarrow> (case map_of d ''gpu_data'' of None \<Rightarrow> Inr [] | Some v \<Rightarrow> py_list v)
      | PList xs \<Rightarrow> Inr xs
      | _ \<Rightarrow> Inr [])"

definition to_mb :: "pyval \<Rightarrow> py_error + int" where
  "to_mb node =
     (case node of
        PDict d \<Rightarrow> py_int (case map_of d ''value'' of None \<Rightarrow> PInt 0 | Some v \<Rightarrow> v)
      | _ \<Rightarrow> if is_num_inst node then py_int node else Inr 0)"

text \<open>\<open>line.split(None, 1)\<close>: at most two fields separated by a run of white space.\<close>

definition split_ws1 :: "string \<Rightarrow> string list" where
  "split_ws1 s =
     (let t = dropWhile is_space s in
      if t = [] then []
      else let k = takeWhile (\<lambda>c. \<not> is_space c) t;
               r = dropWhile is_space (dropWhile (\<lambda>c. \<not> is_space c) t)
           in if r = [] then [k] else [k, r])"

text \<open>
  \<open>dict(line.split(None, 1) for line in text.splitlines() if " " in line)\<close>: a field list
  that is not a pair makes \<open>dict\<close> raise.
\<close>

fun props_of_lines :: "(string \<times> string) list \<Rightarrow> string list \<Rightarrow> py_error + (string \<times> string) list" where
  "props_of_lines d [] = Inr d"
| "props_of_lines d (l # ls) =
     (if CHR '' '' \<in> set l
      then (case split_ws1 l of
              [k, v] \<Rightarrow> props_of_lines (dict_set k v d) ls
            | _ \<Rightarrow> Inl ValueError)
      else props_of_lines d ls)"

definition parse_props :: "string \<Rightarrow> py_error + (string \<times> string) list" where
  "parse_props text = props_of_lines [] (splitlines text)"

definition prop_get :: "(string \<times> string) list \<Rightarrow> string \<Rightarrow> string \<Rightarrow> string" where
  "prop_get props k dflt = py_strip (case map_of props k of None \<Rightarrow> dflt | Some v \<Rightarrow> v)"

definition int_or_raise :: "string \<Rightarrow> py_error + int" where
  "int_or_raise s = (case int_of_str s of None \<Rightarrow> Inl ValueError | Some i \<Rightarrow> Inr i)"

subsection \<open>Detection back ends\<close>

definition run_command :: "host \<Rightarrow> string \<Rightarrow> py_error + string" where
  "run_command h cmd =
     (case h_exec h cmd of
        None \<Rightarrow> Inl OSError
      | Some (rc, out) \<Rightarrow> if rc \<noteq> 0 then Inl RuntimeError else Inr out)"

definition gpu_pci_classes :: "string list" where
  "gpu_pci_classes = [''Display controller'', ''VGA compatible controller'', ''Processing accelerators'']"

definition detect_via_lspci :: "host \<Rightarrow> py_error + gpu_info list" where
  "detect_via_lspci h =
     (case run_command h ''lspci -d 1002: -nn'' of
        Inl e \<Rightarrow> Inl e
      | Inr out \<Rightarrow>
          let all_amd_lines = filter (\<lambda>l. py_strip l \<noteq> []) (splitlines out);
              gpu_lines = filter (\<lambda>l. \<exists>cls \<in> set gpu_pci_classes. contains_str cls l) all_amd_lines
          in Inr (map (\<lambda>i. \<lparr>gi_index = int i, gi_arch = PStr unknown, gi_vram_mb = 0, gi_numa_node = -1\<rparr>)
                    [0..<length gpu_lines]))"

text \<open>
  The loop body shared by the local and the remote KFD scan: one topology node with its
  \<open>properties\<close> text. CPU nodes (\<open>gpu_id\<close> 0) are skipped; a GPU gets the next index.
\<close>

definition kfd_node :: "gpu_info list \<Rightarrow> string \<Rightarrow> py_error + gpu_info list" where
  "kfd_node gpus text =
     (case parse_props text of
        Inl e \<Rightarrow> Inl e
      | Inr props \<Rightarrow>
          if prop_get props ''gpu_id'' ''0'' = ''0'' then Inr gpus
          else case int_or_raise (prop_get props ''local_mem_size'' ''0'') of
            Inl e \<Rightarrow> Inl e
          | Inr mem \<Rightarrow>
              (case int_or_raise (prop_get props ''numa_node'' ''-1'') of
                 Inl e \<Rightarrow> Inl e
               | Inr numa \<Rightarrow>
                   Inr (gpus @ [\<lparr>gi_index = int (length gpus),
                                 gi_arch = PStr (kfd_gfx_version (prop_get props ''gfx_target_version'' ''unknown'')),
                                 gi_vram_mb = mem div (1024 * 1024),
                                 gi_numa_node = numa\<rparr>])))"

fun kfd_scan :: "gpu_info list \<Rightarrow> (string \<times> (py_error + string) option) list \<Rightarrow> py_error + gpu_info list" where
  "kfd_scan gpus [] = Inr gpus"
| "kfd_scan gpus ((name, None) # ds) = kfd_scan gpus ds"
| "kfd_scan gpus ((name, Some (Inl e)) # ds) = Inl e"
| "kfd_scan gpus ((name, Some (Inr text)) # ds) =
     (case kfd_node gpus text of Inl e \<Rightarrow> Inl e | Inr gpus' \<Rightarrow> kfd_scan gpus' ds)"

definition kfd_base :: string where
  "kfd_base = ''/sys/class/kfd/kfd/topology/nodes''"

fun kfd_scan_remote :: "host \<Rightarrow> gpu_info list \<Rightarrow> string list \<Rightarrow> py_error + gpu_info list" where
  "kfd_scan_remote h gpus [] = Inr gpus"
| "kfd_scan_remote h gpus (name # ns) =
     (case run_command h (''cat '' @ kfd_base @ ''/'' @ name @ ''/properties 2>/dev/null'') of
        Inl RuntimeError \<Rightarrow> kfd_scan_remote h gpus ns
      | Inl e \<Rightarrow> Inl e
      | Inr content \<Rightarrow>
          if content = [] then kfd_scan_remote h gpus ns
          else case kfd_node gpus content of
            Inl e \<Rightarrow> Inl e
          | Inr gpus' \<Rightarrow> kfd_scan_remote h gpus' ns)"

definition detect_via_kfd_remote :: "host \<Rightarrow> py_error + gpu_info list" where
  "detect_via_kfd_remote h =
     (case run_command h (''ls '' @ kfd_base) of
        Inl RuntimeError \<Rightarrow> Inl OSError
      | Inl e \<Rightarrow> Inl e
      | Inr dirs_out \<Rightarrow>
          kfd_scan_remote h [] (sort (filter (\<lambda>d. d \<noteq> []) (map py_strip (splitlines dirs_out)))))"

definition detect_via_kfd :: "host \<Rightarrow> gpu_detector \<Rightarrow> py_error + gpu_info list" where
  "detect_via_kfd h det =
     (if gd_ssh det then detect_via_kfd_remote h
      else case h_kfd h of
        None \<Rightarrow> Inl OSError
      | Some dirs \<Rightarrow> kfd_scan [] (sort_key fst dirs))"

definition smi_entry :: "nat \<Rightarrow> pyval \<Rightarrow> py_error + gpu_info" where
  "smi_entry i dev =
     (case py_get dev ''asic'' (PDict []) of
        Inl e \<Rightarrow> Inl e
      | Inr asic \<Rightarrow>
          (case py_get dev ''vram'' (PDict []) of
             Inl e \<Rightarrow> Inl e
           | Inr vram \<Rightarrow>
               (case py_get vram ''size'' (PInt 0) of
                  Inl e \<Rightarrow> Inl e
                | Inr sz \<Rightarrow>
                    (case to_mb sz of
                       Inl e \<Rightarrow> Inl e
                     | Inr mb \<Rightarrow>
                         (case py_get asic ''target_graphics_version'' (PStr unknown) of
                            Inr arch \<Rightarrow>
                              Inr \<lparr>gi_index = int i, gi_arch = arch, gi_vram_mb = mb, gi_numa_node = -1\<rparr>
                          | Inl e \<Rightarrow> Inl e)))))"

definition detect_via_amd_smi_at :: "host \<Rightarrow> string \<Rightarrow> py_error + gpu_info list" where
  "detect_via_amd_smi_at h amd_smi_path =
     (case run_command h (amd_smi_path @ '' static --json'') of
        Inl e \<Rightarrow> Inl e
      | Inr raw \<Rightarrow>
          (case h_loads h raw of
             Inl e \<Rightarrow> Inl e
           | Inr data \<Rightarrow>
               (case unwrap_entries data of
                  Inl e \<Rightarrow> Inl e
                | Inr entries \<Rightarrow> mapM (\<lambda>(i, dev). smi_entry i dev) (enumerate 0 entries))))"

definition detect_via_amd_smi :: "host \<Rightarrow> py_error + gpu_info list" where
  "detect_via_amd_smi h = detect_via_amd_smi_at h ''amd-smi''"

subsection \<open>Enrichment\<close>

definition kfd_merge :: "gpu_info \<Rightarrow> gpu_info \<Rightarrow> gpu_info" where
  "kfd_merge lspci_gpu kfd_gpu =
     \<lparr>gi_index = gi_index lspci_gpu,
      gi_arch = (if gi_arch kfd_gpu \<noteq> PStr unknown then gi_arch kfd_gpu else gi_arch lspci_gpu),
      gi_vram_mb = gi_vram_mb kfd_gpu,
      gi_numa_node = (if gi_numa_node kfd_gpu \<noteq> -1 then gi_numa_node kfd_gpu else gi_numa_node lspci_gpu)\<rparr>"

definition enrich_via_kfd :: "host \<Rightarrow> gpu_detector \<Rightarrow> gpu_info list \<Rightarrow> gpu_info list" where
  "enrich_via_kfd h det gpus =
     (case detect_via_kfd h det of
        Inl _ \<Rightarrow> gpus
      | Inr kfd_gpus \<Rightarrow>
          if kfd_gpus = [] then gpus
          else if length kfd_gpus \<noteq> length gpus then gpus
          else map2 kfd_merge gpus kfd_gpus)"

definition smi_merge :: "gpu_info \<Rightarrow> gpu_info \<Rightarrow> gpu_info" where
  "smi_merge g smi_gpu =
     \<lparr>gi_index = gi_index g,
      gi_arch = (if gi_arch smi_gpu \<noteq> PStr unknown then gi_arch smi_gpu else gi_arch g),
      gi_vram_mb = (if gi_vram_mb g = 0 then gi_vram_mb smi_gpu else gi_vram_mb g),
      gi_numa_node = gi_numa_node g\<rparr>"

text \<open>One entry for several partitions: each partition gets an equal share of the memory.\<close>

definition partition_share :: "gpu_info \<Rightarrow> nat \<Rightarrow> gpu_info" where
  "partition_share physical n =
     physical\<lparr>gi_vram_mb := if gi_vram_mb physical > 0 then gi_vram_mb physical div int n else 0\<rparr>"

fun enrich_candidates :: "host \<Rightarrow> string list \<Rightarrow> gpu_info list \<Rightarrow> gpu_info list" where
  "enrich_candidates h [] gpus = gpus"
| "enrich_candidates h (smi_path # ps) gpus =
     (case detect_via_amd_smi_at h smi_path of
        Inl _ \<Rightarrow> enrich_candidates h ps gpus
      | Inr smi_gpus \<Rightarrow>
          if smi_gpus = [] then enrich_candidates h ps gpus
          else if length smi_gpus = length gpus then map2 smi_merge gpus smi_gpus
          else if length smi_gpus = 1 \<and> length gpus > 1
            then map (\<lambda>g. smi_merge g (partition_share (hd smi_gpus) (length gpus))) gpus
          else enrich_candidates h ps gpus)"

text \<open>\<open>os.path.join(rock_dir, "bin", "amd-smi")\<close>: one slash between the parts.\<close>

definition rock_amd_smi :: "string \<Rightarrow> string" where
  "rock_amd_smi rock = (if endswith rock ''/'' then rock @ ''bin/amd-smi'' else rock @ ''/bin/amd-smi'')"

definition smi_candidates :: "gpu_detector \<Rightarrow> string list" where
  "smi_candidates det =
     ''amd-smi'' # (case gd_rock_dir det of
                      None \<Rightarrow> []
                    | Some rock \<Rightarrow> if rock = [] then [] else [rock_amd_smi rock])"

definition enrich_via_amd_smi :: "host \<Rightarrow> gpu_detector \<Rightarrow> gpu_info list \<Rightarrow> gpu_info list" where
  "enrich_via_amd_smi h det gpus =
     (if \<forall>g \<in> set gpus. gi_vram_mb g > 0 then gpus
      else enrich_candidates h (smi_candidates det) gpus)"

subsection \<open>The detection cascade\<close>

definition nonempty_or :: "py_error + gpu_info list \<Rightarrow> gpu_info list \<Rightarrow> gpu_info list" where
  "nonempty_or r otherwise = (case r of Inr gpus \<Rightarrow> if gpus \<noteq> [] then gpus else otherwise | Inl _ \<Rightarrow> otherwise)"

definition rock_dir_fallback :: "host \<Rightarrow> gpu_detector \<Rightarrow> gpu_info list" where
  "rock_dir_fallback h det =
     (case gd_rock_dir det of
        None \<Rightarrow> []
      | Some rock \<Rightarrow> if rock = [] then [] else nonempty_or (detect_via_amd_smi_at h (rock_amd_smi rock)) [])"

text \<open>
  \<open>_print_kfd_dri_diagnostics\<close> reads the \<open>properties\<close> files of the first eight KFD nodes once more and catches
  \<open>OSError\<close> only; its result is the exception that leaves it, if any. Listing \<open>/dev/dri\<close> raises nothing else.
\<close>

fun kfd_listing :: "(string \<times> (py_error + string) option) list \<Rightarrow> py_error option" where
  "kfd_listing [] = None"
| "kfd_listing ((name, None) # ds) = kfd_listing ds"
| "kfd_listing ((name, Some (Inl e)) # ds) = Some e"
| "kfd_listing ((name, Some (Inr text)) # ds) =
     (case parse_props text of Inl e \<Rightarrow> Some e | Inr _ \<Rightarrow> kfd_listing ds)"

definition print_kfd_dri_diagnostics :: "host \<Rightarrow> py_error option" where
  "print_kfd_dri_diagnostics h =
     (case h_kfd h of
        None \<Rightarrow> None
      | Some dirs \<Rightarrow>
          (case kfd_listing (take 8 (sort_key fst dirs)) of
             None \<Rightarrow> None
           | Some e \<Rightarrow> if is_os_error e then None else Some e))"

definition detect_uncached :: "host \<Rightarrow> gpu_detector \<Rightarrow> py_error + gpu_info list" where
  "detect_uncached h det =
     (case detect_via_lspci h of
        Inr (g # gs) \<Rightarrow> Inr (enrich_via_amd_smi h det (enrich_via_kfd h det (g # gs)))
      | _ \<Rightarrow>
          (case detect_via_kfd h det of
             Inr (g # gs) \<Rightarrow> Inr (enrich_via_amd_smi h det (g # gs))
           | _ \<Rightarrow>
               (case (if gd_ssh det then None else print_kfd_dri_diagnostics h) of
                  Some e \<Rightarrow> Inl e
                | None \<Rightarrow> Inr (nonempty_or (detect_via_amd_smi h) (rock_dir_fallback h det)))))"

definition detect :: "host \<Rightarrow> gpu_detector \<Rightarrow> (py_error + gpu_info list) \<times> gpu_detector" where
  "detect h det =
     (case gd_cached det of
        Some gpus \<Rightarrow> (Inr gpus, det)
      | None \<Rightarrow>
          (case detect_uncached h det of
             Inl e \<Rightarrow> (Inl e, det)
           | Inr gpus \<Rightarrow> (Inr gpus, det\<lparr>gd_cached := Some gpus\<rparr>)))"

definition mock_default :: "gpu_info list" where
  "mock_default =
     [\<lparr>gi_index = 0, gi_arch = PStr ''gfx942'', gi_vram_mb = 32768, gi_numa_node = 0\<rparr>,
      \<lparr>gi_index = 1, gi_arch = PStr ''gfx942'', gi_vram_mb = 32768, gi_numa_node = 1\<rparr>]"

definition mock_detect :: "gpu_info list option \<Rightarrow> gpu_info list" where
  "mock_detect gpus = (case gpus of None \<Rightarrow> mock_default | Some gs \<Rightarrow> if gs = [] then mock_default else gs)"

subsection \<open>Every back end numbers its GPUs from 0\<close>

definition numbered :: "gpu_info list \<Rightarrow> bool" where
  "numbered gpus \<longleftrightarrow> map gi_index gpus = map int [0..<length gpus]"

lemma numbered_Nil [simp]: "numbered []"
  by (simp add: numbered_def)

lemma numbered_snoc: "numbered gpus \<Longrightarrow> gi_index g = int (length gpus) \<Longrightarrow> numbered (gpus @ [g])"
  by (simp add: numbered_def)

lemma numbered_distinct: "numbered gpus \<Longrightarrow> distinct (map gi_index gpus)"
  by (simp add: numbered_def distinct_map)

lemma numbered_range: "numbered gpus \<Longrightarrow> gi_index ` set gpus = {0..<int (length gpus)}"
proof -
  assume "numbered gpus"
  then have "gi_index ` set gpus = int ` {0..<length gpus}"
    unfolding numbered_def by (metis list.set_map set_upt)
  then show ?thesis by (simp add: image_int_atLeastLessThan)
qed

lemma numbered_cong: "map gi_index xs = map gi_index ys \<Longrightarrow> numbered xs = numbered ys"
  unfolding numbered_def by (metis length_map)

lemma numbered_nth: "numbered gpus \<longleftrightarrow> (\<forall>i < length gpus. gi_index (gpus ! i) = int i)"
  unfolding numbered_def list_eq_iff_nth_eq by simp

lemma lspci_numbered: "detect_via_lspci h = Inr gpus \<Longrightarrow> numbered gpus"
  by (auto simp: detect_via_lspci_def numbered_def Let_def split: sum.splits)

lemma kfd_node_numbered: "kfd_node gpus text = Inr gpus' \<Longrightarrow> numbered gpus \<Longrightarrow> numbered gpus'"
  by (auto simp: kfd_node_def intro!: numbered_snoc split: sum.splits if_splits)

lemma kfd_scan_numbered: "kfd_scan gpus ds = Inr gpus' \<Longrightarrow> numbered gpus \<Longrightarrow> numbered gpus'"
  by (induction gpus ds rule: kfd_scan.induct) (auto dest: kfd_node_numbered split: sum.splits)

lemma kfd_scan_remote_numbered:
  "kfd_scan_remote h gpus ns = Inr gpus' \<Longrightarrow> numbered gpus \<Longrightarrow> numbered gpus'"
  by (induction h gpus ns rule: kfd_scan_remote.induct)
    (auto dest: kfd_node_numbered split: sum.splits py_error.splits if_splits)

lemma kfd_numbered: "detect_via_kfd h det = Inr gpus \<Longrightarrow> numbered gpus"
  by (auto simp: detect_via_kfd_def detect_via_kfd_remote_def
      dest: kfd_scan_numbered kfd_scan_remote_numbered
      split: if_splits option.splits sum.splits py_error.splits)

lemma smi_entry_index: "smi_entry i dev = Inr g \<Longrightarrow> gi_index g = int i"
  by (auto simp: smi_entry_def split: sum.splits pyval.splits)

lemma amd_smi_numbered: "detect_via_amd_smi_at h p = Inr gpus \<Longrightarrow> numbered gpus"
proof -
  assume "detect_via_amd_smi_at h p = Inr gpus"
  then obtain entries where m: "mapM (\<lambda>(i, dev). smi_entry i dev) (enumerate 0 entries) = Inr gpus"
    by (auto simp: detect_via_amd_smi_at_def split: sum.splits)
  have "length gpus = length entries"
    using mapM_Inr_length [OF m] by simp
  moreover have "gi_index (gpus ! i) = int i" if "i < length entries" for i
    using mapM_Inr_nth [OF m, of i] that by (simp add: nth_enumerate_eq smi_entry_index)
  ultimately show ?thesis by (simp add: numbered_nth)
qed

lemma nonempty_or_numbered:
  "(\<And>gpus. r = Inr gpus \<Longrightarrow> numbered gpus) \<Longrightarrow> numbered gs \<Longrightarrow> numbered (nonempty_or r gs)"
  by (auto simp: nonempty_or_def split: sum.splits)

subsection \<open>Enrichment fills gaps and nothing else\<close>

lemma kfd_merge_index [simp]: "gi_index (kfd_merge a b) = gi_index a"
  by (simp add: kfd_merge_def)

lemma smi_merge_index [simp]: "gi_index (smi_merge a b) = gi_index a"
  by (simp add: smi_merge_def)

lemma map2_index:
  "length xs = length ys \<Longrightarrow> (\<And>x y. gi_index (f x y) = gi_index x) \<Longrightarrow>
     map gi_index (map2 f xs ys) = map gi_index xs"
  by (induction xs ys rule: list_induct2) auto

lemma enrich_via_kfd_index: "map gi_index (enrich_via_kfd h det gpus) = map gi_index gpus"
  unfolding enrich_via_kfd_def
  by (simp add: map2_index del: map_map split: sum.splits)

lemma enrich_candidates_index: "map gi_index (enrich_candidates h ps gpus) = map gi_index gpus"
proof (induction h ps gpus rule: enrich_candidates.induct)
  case (2 h p ps gpus)
  have m: "map gi_index (map2 smi_merge gpus ys) = map gi_index gpus" if "length gpus = length ys" for ys
    using that by (rule map2_index) simp
  have b: "map gi_index (map (\<lambda>g. smi_merge g s) gpus) = map gi_index gpus" for s
    by simp
  show ?case
  proof (cases "detect_via_amd_smi_at h p")
    case (Inl e)
    with 2 show ?thesis by simp
  next
    case (Inr smi)
    consider "smi = []" | "smi \<noteq> []" "length smi = length gpus"
      | "smi \<noteq> []" "length smi \<noteq> length gpus" by blast
    then show ?thesis
      using 2 Inr by cases (simp_all add: m b del: map_map)
  qed
qed simp

lemma enrich_via_amd_smi_index: "map gi_index (enrich_via_amd_smi h det gpus) = map gi_index gpus"
  by (simp add: enrich_via_amd_smi_def enrich_candidates_index)

lemma enrich_via_amd_smi_length: "length (enrich_via_amd_smi h det gpus) = length gpus"
  using enrich_via_amd_smi_index by (metis length_map)

lemma enrich_candidates_nth:
  "i < length gpus \<Longrightarrow>
     enrich_candidates h ps gpus ! i = gpus ! i \<or> (\<exists>s. enrich_candidates h ps gpus ! i = smi_merge (gpus ! i) s)"
  by (induction h ps gpus rule: enrich_candidates.induct) (auto split: sum.splits)

lemma enrich_via_amd_smi_keeps:
  assumes "i < length gpus" and "gi_vram_mb (gpus ! i) \<noteq> 0"
  shows "gi_vram_mb (enrich_via_amd_smi h det gpus ! i) = gi_vram_mb (gpus ! i)"
  using enrich_candidates_nth [OF assms(1), of h "smi_candidates det"] assms(2)
  by (auto simp: enrich_via_amd_smi_def smi_merge_def)

lemma detect_uncached_numbered: "detect_uncached h det = Inr gpus \<Longrightarrow> numbered gpus"
proof -
  have fall: "numbered (nonempty_or (detect_via_amd_smi h) (rock_dir_fallback h det))"
    by (intro nonempty_or_numbered)
      (auto simp: detect_via_amd_smi_def rock_dir_fallback_def amd_smi_numbered nonempty_or_def
        split: option.splits sum.splits)
  have enr: "numbered gs \<Longrightarrow> numbered (enrich_via_amd_smi h det gs)"
    "numbered gs \<Longrightarrow> numbered (enrich_via_kfd h det gs)" for gs
    using enrich_via_amd_smi_index enrich_via_kfd_index numbered_cong by blast+
  assume "detect_uncached h det = Inr gpus"
  then show ?thesis
    unfolding detect_uncached_def
    using lspci_numbered [of h] kfd_numbered [of h det] fall
    by (auto intro!: enr split: sum.splits list.splits option.splits if_splits)
qed

lemma detect_distinct: "fst (detect h (new_detector rock ssh)) = Inr gpus \<Longrightarrow> distinct (map gi_index gpus)"
  by (auto simp: detect_def new_detector_def intro!: numbered_distinct detect_uncached_numbered split: sum.splits)

subsection \<open>When detection raises\<close>

text \<open>A readable \<open>properties\<close> text with a line that \<open>dict\<close> cannot take as a pair, or a text that cannot be decoded.\<close>

definition bad_properties :: "(string \<times> (py_error + string) option) \<Rightarrow> bool" where
  "bad_properties d \<longleftrightarrow>
     (case snd d of
        None \<Rightarrow> False
      | Some (Inl e) \<Rightarrow> True
      | Some (Inr text) \<Rightarrow> (\<exists>l \<in> set (splitlines text). CHR '' '' \<in> set l \<and> length (split_ws1 l) \<noteq> 2))"

lemma length_two: "length xs = 2 \<longleftrightarrow> (\<exists>a b. xs = [a, b])"
  by (auto simp: numeral_2_eq_2 length_Suc_conv)

lemma props_of_lines_raises:
  "props_of_lines d ls = Inl e \<longleftrightarrow> e = ValueError \<and> (\<exists>l \<in> set ls. CHR '' '' \<in> set l \<and> length (split_ws1 l) \<noteq> 2)"
  by (induction d ls rule: props_of_lines.induct) (auto simp: length_two split: list.splits)

definition properties_error :: "(string \<times> (py_error + string) option) \<Rightarrow> py_error" where
  "properties_error d = (case snd d of Some (Inl e) \<Rightarrow> e | _ \<Rightarrow> ValueError)"

definition no_gpu_listed :: "py_error + gpu_info list \<Rightarrow> bool" where
  "no_gpu_listed r = (case r of Inl _ \<Rightarrow> True | Inr gpus \<Rightarrow> gpus = [])"

lemma bad_properties_text:
  "bad_properties (name, Some (Inr t)) \<longleftrightarrow> parse_props t = Inl ValueError"
  "parse_props t = Inl e \<Longrightarrow> e = ValueError"
  by (simp_all add: bad_properties_def parse_props_def props_of_lines_raises)

lemma kfd_listing_find: "kfd_listing ds = map_option properties_error (find bad_properties ds)"
proof (induction ds rule: kfd_listing.induct)
  case (4 name t ds)
  show ?case
  proof (cases "parse_props t")
    case (Inl e)
    with bad_properties_text(2) have "e = ValueError" by blast
    with Inl show ?thesis by (simp add: bad_properties_text(1) properties_error_def)
  next
    case (Inr d)
    with 4 show ?thesis by (simp add: bad_properties_text(1))
  qed
qed (simp_all add: bad_properties_def properties_error_def)

lemma bad_kfd_scan: "d \<in> set ds \<Longrightarrow> bad_properties d \<Longrightarrow> \<exists>e. kfd_scan gpus ds = Inl e"
proof (induction gpus ds rule: kfd_scan.induct)
  case (4 gpus name t ds)
  have "\<exists>e. kfd_node gpus t = Inl e" if "bad_properties (name, Some (Inr t))"
    using that by (simp add: bad_properties_text(1) kfd_node_def)
  with 4 show ?case by (auto split: sum.splits)
qed (auto simp: bad_properties_def)

lemma find_take_mem: "find P (take n xs) = Some x \<Longrightarrow> x \<in> set xs \<and> P x"
  by (metis find_Some_iff in_set_takeD nth_mem)

lemma detect_uncached_raises:
  "detect_uncached h det = Inl e \<longleftrightarrow>
     \<not> gd_ssh det \<and> no_gpu_listed (detect_via_lspci h) \<and> \<not> is_os_error e \<and>
     (\<exists>dirs d. h_kfd h = Some dirs \<and> find bad_properties (take 8 (sort_key fst dirs)) = Some d \<and> e = properties_error d)"
proof -
  have fails: "\<exists>e. detect_via_kfd h det = Inl e"
    if "\<not> gd_ssh det" "h_kfd h = Some dirs" "find bad_properties (take 8 (sort_key fst dirs)) = Some d" for dirs d
    using that find_take_mem [OF that(3)] bad_kfd_scan [of d "sort_key fst dirs" "[]"] by (simp add: detect_via_kfd_def)
  show ?thesis
    unfolding detect_uncached_def print_kfd_dri_diagnostics_def kfd_listing_find no_gpu_listed_def
    by (auto dest: fails split: sum.splits list.splits option.splits if_splits)
qed

lemma sum_list_const: "sum_list (map (\<lambda>_. c) xs) = int (length xs) * c"
  by (induction xs) (auto simp: algebra_simps)

subsection \<open>Contracts\<close>


lemma share_bounds:
  fixes v :: int assumes "0 < n"
  shows "n * (v div n) \<le> v" and "v - n * (v div n) < n"
  using assms pos_mod_bound [of n v] pos_mod_sign [of n v] mult_div_mod_eq [of n v] by linarith+

text \<open>
  When amd-smi reports one physical GPU and lspci listed several partitions with unknown
  memory, every partition gets the same share, no partition changes its index, and the shares
  together never exceed the physical memory and miss less than one megabyte per partition.
\<close>

theorem partitions_share_memory:
  assumes "detect_via_amd_smi_at h ''amd-smi'' = Inr [physical]" and "0 < gi_vram_mb physical"
    and "1 < length gpus" and "\<forall>g \<in> set gpus. gi_vram_mb g = 0"
  shows "let es = enrich_via_amd_smi h det gpus; total = sum_list (map gi_vram_mb es)
    in map gi_index es = map gi_index gpus \<and> (\<forall>e \<in> set es. gi_vram_mb e = gi_vram_mb physical div int (length gpus))
       \<and> total \<le> gi_vram_mb physical \<and> gi_vram_mb physical - total < int (length gpus)"
proof -
  let ?share = "partition_share physical (length gpus)"
  let ?v = "gi_vram_mb physical div int (length gpus)"
  have "\<not> (\<forall>g \<in> set gpus. gi_vram_mb g > 0)" using assms(3,4) by (cases gpus) auto
  then have es: "enrich_via_amd_smi h det gpus = map (\<lambda>g. smi_merge g ?share) gpus"
    using assms(1,3) by (simp only: enrich_via_amd_smi_def if_False) (simp add: smi_candidates_def)
  have vram: "gi_vram_mb (smi_merge g ?share) = ?v" if "g \<in> set gpus" for g
    using assms(2,4) that by (simp add: smi_merge_def partition_share_def)
  then have "map gi_vram_mb (enrich_via_amd_smi h det gpus) = map (\<lambda>_. ?v) gpus"
    by (simp add: es)
  then have "sum_list (map gi_vram_mb (enrich_via_amd_smi h det gpus)) = int (length gpus) * ?v"
    by (simp only: sum_list_const)
  moreover have "0 < int (length gpus)" using assms(3) by linarith
  note share_bounds [OF this, of "gi_vram_mb physical"]
  ultimately show ?thesis
    using vram by (simp add: es Let_def)
qed

definition demo_host :: host where
  "demo_host = \<lparr>h_exec = (\<lambda>_. Some (0, [])), h_kfd = None,
     h_loads = (\<lambda>_. Inr (PList [PDict [(''vram'', PDict [(''size'', PInt 100)])]]))\<rparr>"

theorem partitions_share_memory_witness:
  "map gi_vram_mb (enrich_via_amd_smi demo_host (new_detector None False)
     (map (\<lambda>i. \<lparr>gi_index = i, gi_arch = PStr unknown, gi_vram_mb = 0, gi_numa_node = -1\<rparr>) [0, 1, 2]))
   = [33, 33, 33]"
proof -
  let ?gpus = "map (\<lambda>i. \<lparr>gi_index = i, gi_arch = PStr unknown, gi_vram_mb = 0, gi_numa_node = -1\<rparr>) [0, 1, 2]"
  let ?es = "enrich_via_amd_smi demo_host (new_detector None False) ?gpus"
  have "detect_via_amd_smi_at demo_host ''amd-smi''
      = Inr [\<lparr>gi_index = 0, gi_arch = PStr unknown, gi_vram_mb = 100, gi_numa_node = -1\<rparr>]"
    by (simp add: detect_via_amd_smi_at_def demo_host_def run_command_def unwrap_entries_def smi_entry_def to_mb_def)
  from partitions_share_memory [OF this, of ?gpus "new_detector None False"]
  have "length ?es = length ?gpus" "\<forall>e \<in> set ?es. gi_vram_mb e = 33"
    by (auto simp: Let_def dest: map_eq_imp_length_eq)
  then show ?thesis by (auto simp: length_Suc_conv)
qed

end
