(* ===== verification/Allocator.thy ===== *)
theory Allocator
  imports Detector
begin

text \<open>
  \<open>GpuAllocator\<close> of \<open>framework/gpu/allocator.py\<close>: the per-node pool of GPUs and the set of
  indices that are free. \<open>allocate_now\<close> and \<open>allocate_specific_now\<close> are one turn of the
  loops of \<open>allocate\<close> and \<open>allocate_specific\<close>; the blocking operations poll them until
  their deadline, with \<open>others\<close> standing for what the other threads of the process do
  while the condition variable is waited on. Memory sizes are exact rationals, in gigabytes.

  The locale \<open>slot_source\<close> is the contract the node pool relies on: what taking and giving
  back a GPU does to the free set. The allocator interprets it.
\<close>

record gpu_allocator =
  ga_pool :: "gpu_info list"
  ga_available :: "int set"
  ga_headroom_gb :: rat

definition new_allocator :: "gpu_info list \<Rightarrow> rat \<Rightarrow> gpu_allocator" where
  "new_allocator pool headroom =
     \<lparr>ga_pool = pool, ga_available = gi_index ` set pool, ga_headroom_gb = headroom\<rparr>"

text \<open>\<open>(gpu.vram_mb / 1024) - headroom_gb >= vram_required_gb\<close>\<close>

definition vram_fits :: "rat \<Rightarrow> rat \<Rightarrow> gpu_info \<Rightarrow> bool" where
  "vram_fits headroom req g \<longleftrightarrow> req \<le> of_int (gi_vram_mb g) / 1024 - headroom"

definition eligible :: "rat \<Rightarrow> gpu_allocator \<Rightarrow> gpu_info \<Rightarrow> bool" where
  "eligible req a g \<longleftrightarrow> gi_index g \<in> ga_available a \<and> (req = 0 \<or> vram_fits (ga_headroom_gb a) req g)"

definition candidates :: "rat \<Rightarrow> gpu_allocator \<Rightarrow> gpu_info list" where
  "candidates req a = filter (eligible req a) (ga_pool a)"

definition numa_key :: "gpu_info \<Rightarrow> int \<times> int" where
  "numa_key g = (gi_numa_node g, gi_index g)"

definition discard :: "int \<Rightarrow> gpu_allocator \<Rightarrow> gpu_allocator" where
  "discard i a = a\<lparr>ga_available := ga_available a - {i}\<rparr>"

definition allocate_now :: "rat \<Rightarrow> gpu_allocator \<Rightarrow> py_error + gpu_info \<times> gpu_allocator" where
  "allocate_now req a =
     (case min_by numa_key (candidates req a) of
        None \<Rightarrow> Inl RuntimeError
      | Some chosen \<Rightarrow> Inr (chosen, discard (gi_index chosen) a))"

definition allocate_specific_now :: "int \<Rightarrow> gpu_allocator \<Rightarrow> py_error + gpu_info \<times> gpu_allocator" where
  "allocate_specific_now i a =
     (case find (\<lambda>g. gi_index g = i) (ga_pool a) of
        None \<Rightarrow> Inl ValueError
      | Some g \<Rightarrow> if i \<in> ga_available a then Inr (g, discard i a) else Inl RuntimeError)"

definition release :: "gpu_info \<Rightarrow> gpu_allocator \<Rightarrow> gpu_allocator" where
  "release g a = a\<lparr>ga_available := insert (gi_index g) (ga_available a)\<rparr>"

fun release_all :: "gpu_info list \<Rightarrow> gpu_allocator \<Rightarrow> gpu_allocator" where
  "release_all [] a = a"
| "release_all (g # gs) a = release_all gs (release g a)"

subsection \<open>The blocking operations\<close>

text \<open>\<open>deadline = time.monotonic() + wait if wait > 0 else None\<close>, and the expiry test.\<close>

definition wait_deadline :: "rat \<Rightarrow> rat \<Rightarrow> rat option" where
  "wait_deadline now wait = (if wait > 0 then Some (now + wait) else None)"

definition wait_expired :: "rat option \<Rightarrow> gpu_allocator \<times> rat \<Rightarrow> bool" where
  "wait_expired d s = (case d of None \<Rightarrow> True | Some t \<Rightarrow> t \<le> snd s)"

definition alloc_turn ::
  "(gpu_allocator \<Rightarrow> py_error + gpu_info \<times> gpu_allocator) \<Rightarrow> gpu_allocator \<times> rat
     \<Rightarrow> gpu_info option \<times> gpu_allocator \<times> rat" where
  "alloc_turn f s =
     (case f (fst s) of
        Inr (g, a') \<Rightarrow> (Some g, a', snd s)
      | Inl _ \<Rightarrow> (None, s))"

definition or_runtime_error :: "'r option \<times> 's \<Rightarrow> (py_error + 'r) \<times> 's" where
  "or_runtime_error p = (case p of (Some r, s) \<Rightarrow> (Inr r, s) | (None, s) \<Rightarrow> (Inl RuntimeError, s))"

definition allocate ::
  "(nat \<Rightarrow> gpu_allocator \<times> rat \<Rightarrow> gpu_allocator \<times> rat) \<Rightarrow> rat \<Rightarrow> rat \<Rightarrow> gpu_allocator \<times> rat
     \<Rightarrow> ((py_error + gpu_info) \<times> gpu_allocator \<times> rat) option" where
  "allocate others req wait s =
     map_option or_runtime_error
       (poll (alloc_turn (allocate_now req)) (wait_expired (wait_deadline (snd s) wait)) others 0 s)"

definition allocate_specific ::
  "(nat \<Rightarrow> gpu_allocator \<times> rat \<Rightarrow> gpu_allocator \<times> rat) \<Rightarrow> int \<Rightarrow> rat \<Rightarrow> gpu_allocator \<times> rat
     \<Rightarrow> ((py_error + gpu_info) \<times> gpu_allocator \<times> rat) option" where
  "allocate_specific others i wait s =
     (if \<forall>g \<in> set (ga_pool (fst s)). gi_index g \<noteq> i then Some (Inl ValueError, s)
      else map_option or_runtime_error
        (poll (alloc_turn (allocate_specific_now i)) (wait_expired (wait_deadline (snd s) wait)) others 0 s))"

subsection \<open>Invariant\<close>

definition alloc_inv :: "gpu_allocator \<Rightarrow> bool" where
  "alloc_inv a \<longleftrightarrow> distinct (map gi_index (ga_pool a)) \<and> ga_available a \<subseteq> gi_index ` set (ga_pool a)"

lemma new_allocator_inv: "distinct (map gi_index pool) \<Longrightarrow> alloc_inv (new_allocator pool headroom)"
  by (simp add: alloc_inv_def new_allocator_def)

lemma discard_sel [simp]:
  "ga_pool (discard i a) = ga_pool a" "ga_headroom_gb (discard i a) = ga_headroom_gb a"
  "ga_available (discard i a) = ga_available a - {i}"
  by (simp_all add: discard_def)

lemma release_sel [simp]:
  "ga_pool (release g a) = ga_pool a" "ga_headroom_gb (release g a) = ga_headroom_gb a"
  "ga_available (release g a) = insert (gi_index g) (ga_available a)"
  by (simp_all add: release_def)

lemma release_all_sel [simp]:
  "ga_pool (release_all gs a) = ga_pool a" "ga_headroom_gb (release_all gs a) = ga_headroom_gb a"
  "ga_available (release_all gs a) = gi_index ` set gs \<union> ga_available a"
  by (induction gs arbitrary: a) auto

lemma allocator_eqI:
  "ga_pool a = ga_pool b \<Longrightarrow> ga_headroom_gb a = ga_headroom_gb b \<Longrightarrow> ga_available a = ga_available b
     \<Longrightarrow> a = (b :: gpu_allocator)"
  by simp

lemma discard_inv [simp]: "alloc_inv a \<Longrightarrow> alloc_inv (discard i a)"
  by (auto simp: alloc_inv_def)

lemma release_inv [simp]: "alloc_inv a \<Longrightarrow> g \<in> set (ga_pool a) \<Longrightarrow> alloc_inv (release g a)"
  by (auto simp: alloc_inv_def)

lemma release_all_inv: "alloc_inv a \<Longrightarrow> set gs \<subseteq> set (ga_pool a) \<Longrightarrow> alloc_inv (release_all gs a)"
  by (auto simp: alloc_inv_def)

lemma release_discard: "gi_index g \<in> ga_available a \<Longrightarrow> release g (discard (gi_index g) a) = a"
  by (rule allocator_eqI) auto

text \<open>Releasing a set of GPUs twice is releasing it once.\<close>

lemma release_all_idem [simp]: "release_all gs (release_all gs a) = release_all gs a"
  by (rule allocator_eqI) auto

subsection \<open>What one allocation does\<close>

lemma candidates_set [simp]: "g \<in> set (candidates req a) \<longleftrightarrow> g \<in> set (ga_pool a) \<and> eligible req a g"
  by (auto simp: candidates_def)

lemma allocate_now_Inr:
  assumes "allocate_now req a = Inr (g, a')"
  shows "g \<in> set (ga_pool a)" "eligible req a g" "a' = discard (gi_index g) a"
    and "\<And>g'. g' \<in> set (ga_pool a) \<Longrightarrow> eligible req a g' \<Longrightarrow> numa_key g \<le> numa_key g'"
  using assms min_by_in [of numa_key "candidates req a" g]
    min_by_least [of numa_key "candidates req a" g]
  by (auto simp: allocate_now_def split: option.splits)

lemma allocate_now_Inl:
  "allocate_now req a = Inl e \<longleftrightarrow> e = RuntimeError \<and> (\<forall>g \<in> set (ga_pool a). \<not> eligible req a g)"
  by (auto simp: allocate_now_def candidates_def filter_empty_conv dest!: min_by_in split: option.splits)

lemma allocate_specific_now_Inr:
  assumes "allocate_specific_now i a = Inr (g, a')"
  shows "g \<in> set (ga_pool a)" "gi_index g = i" "i \<in> ga_available a" "a' = discard i a"
  using assms
  by (auto simp: allocate_specific_now_def find_Some_iff split: option.splits if_splits)

lemma allocate_specific_now_Inl:
  "allocate_specific_now i a = Inl e \<longleftrightarrow>
     (if \<exists>g \<in> set (ga_pool a). gi_index g = i then e = RuntimeError \<and> i \<notin> ga_available a
      else e = ValueError)"
  by (auto simp: allocate_specific_now_def find_None_iff find_Some_iff split: option.splits)

lemma eligible_discard: "eligible req (discard i a) g \<longleftrightarrow> eligible req a g \<and> gi_index g \<noteq> i"
  by (auto simp: eligible_def)

text \<open>Every allocation leaves fewer candidates: the measure of the scan over a node.\<close>

lemma candidates_shrink:
  assumes "allocate_now req a = Inr (g, a')"
  shows "length (candidates req a') < length (candidates req a)"
proof -
  note g = allocate_now_Inr [OF assms]
  have "length (filter (eligible req a') (ga_pool a)) < length (filter (eligible req a) (ga_pool a))"
    by (rule length_filter_strict [where y = g]) (use g in \<open>auto simp: eligible_discard\<close>)
  with g(3) show ?thesis by (simp add: candidates_def)
qed

subsection \<open>The contract of a slot source\<close>

locale slot_source =
  fixes take_slot :: "'a \<Rightarrow> py_error + gpu_info \<times> 'a"
    and give_slot :: "gpu_info \<Rightarrow> 'a \<Rightarrow> 'a"
    and free :: "'a \<Rightarrow> int set"
    and inv :: "'a \<Rightarrow> bool"
  assumes take_free: "inv a \<Longrightarrow> take_slot a = Inr (g, a') \<Longrightarrow> gi_index g \<in> free a"
    and take_removes: "inv a \<Longrightarrow> take_slot a = Inr (g, a') \<Longrightarrow> free a' = free a - {gi_index g}"
    and take_inv: "inv a \<Longrightarrow> take_slot a = Inr (g, a') \<Longrightarrow> inv a'"
    and give_take: "inv a \<Longrightarrow> take_slot a = Inr (g, a') \<Longrightarrow> give_slot g a' = a"
    and give_free: "free (give_slot g a) = insert (gi_index g) (free a)"
    and give_commute: "give_slot g (give_slot g' a) = give_slot g' (give_slot g a)"
begin

text \<open>A run of successful takes, and giving everything back in any order.\<close>

inductive taken :: "'a \<Rightarrow> gpu_info list \<Rightarrow> 'a \<Rightarrow> bool" where
  taken_Nil: "taken a [] a"
| taken_Cons: "take_slot a = Inr (g, a1) \<Longrightarrow> taken a1 gs a2 \<Longrightarrow> taken a (g # gs) a2"

lemma taken_snoc: "taken a gs b \<Longrightarrow> take_slot b = Inr (g, c) \<Longrightarrow> taken a (gs @ [g]) c"
  by (induction rule: taken.induct) (auto intro: taken.intros)

lemma taken_snocE:
  assumes "taken a (gs @ [g]) c"
  obtains b where "taken a gs b" "take_slot b = Inr (g, c)"
  using assms
proof (induction gs arbitrary: a thesis)
  case Nil
  then show ?case by (auto elim!: taken.cases intro: taken.intros)
next
  case (Cons x gs)
  from Cons.prems(2) obtain a1 where "take_slot a = Inr (x, a1)" "taken a1 (gs @ [g]) c"
    by (auto elim: taken.cases)
  with Cons.IH [of a1] Cons.prems(1) show ?case by (blast intro: taken.intros)
qed

lemma taken_inv: "taken a gs b \<Longrightarrow> inv a \<Longrightarrow> inv b"
  by (induction rule: taken.induct) (auto dest: take_inv)

lemma taken_free: "taken a gs b \<Longrightarrow> inv a \<Longrightarrow> free b = free a - gi_index ` set gs"
proof (induction rule: taken.induct)
  case (taken_Cons a g a1 gs a2)
  then have "free a2 = free a1 - gi_index ` set gs" using take_inv by blast
  with taken_Cons take_removes show ?case by auto
qed simp

lemma taken_distinct: "taken a gs b \<Longrightarrow> inv a \<Longrightarrow> distinct (map gi_index gs) \<and> gi_index ` set gs \<subseteq> free a"
proof (induction rule: taken.induct)
  case (taken_Cons a g a1 gs a2)
  note g = take_free [OF taken_Cons.prems taken_Cons.hyps(1)]
    take_removes [OF taken_Cons.prems taken_Cons.hyps(1)]
  have "distinct (map gi_index gs) \<and> gi_index ` set gs \<subseteq> free a1"
    using taken_Cons take_inv by blast
  with g show ?case by auto
qed simp

lemma give_all_commute: "fold give_slot gs (give_slot g a) = give_slot g (fold give_slot gs a)"
proof (induction gs arbitrary: a)
  case (Cons x gs)
  then show ?case by (simp add: give_commute [of x g])
qed simp

lemma give_all_taken: "taken a gs b \<Longrightarrow> inv a \<Longrightarrow> fold give_slot gs b = a"
proof (induction rule: taken.induct)
  case (taken_Cons a g a1 gs a2)
  then have "fold give_slot gs a2 = a1" using take_inv by blast
  with taken_Cons give_take show ?case by (simp add: give_all_commute)
qed simp

end

lemma fold_release: "fold release gs a = release_all gs a"
  by (induction gs arbitrary: a) auto

interpretation any_gpu: slot_source "allocate_now req" release ga_available alloc_inv for req
proof unfold_locales
  fix a g a'
  assume "alloc_inv a" and take: "allocate_now req a = Inr (g, a')"
  note g = allocate_now_Inr [OF take]
  from g(2) show free: "gi_index g \<in> ga_available a" by (simp add: eligible_def)
  show "ga_available a' = ga_available a - {gi_index g}" using g(3) by simp
  show "alloc_inv a'" using g(3) \<open>alloc_inv a\<close> by simp
  show "release g a' = a" using g(3) free by (simp add: release_discard)
qed (auto intro: allocator_eqI)

lemma taken_frame: "any_gpu.taken req a gs b \<Longrightarrow> ga_pool b = ga_pool a \<and> ga_headroom_gb b = ga_headroom_gb a"
  by (induction rule: any_gpu.taken.induct) (auto dest: allocate_now_Inr(3))

lemma taken_subset: "any_gpu.taken req a gs b \<Longrightarrow> g \<in> set gs \<Longrightarrow> g \<in> set (ga_pool a) \<and> eligible req a g"
proof (induction rule: any_gpu.taken.induct)
  case (taken_Cons a g1 a1 gs a2)
  then show ?case using allocate_now_Inr [OF taken_Cons.hyps(1)] by (auto simp: eligible_discard)
qed simp

lemma taken_eligible:
  assumes "any_gpu.taken req a gs b" and "alloc_inv a"
  shows "eligible req b g \<longleftrightarrow> eligible req a g \<and> gi_index g \<notin> gi_index ` set gs"
  using any_gpu.taken_free [OF assms] taken_frame [OF assms(1)] by (auto simp: eligible_def)

interpretation one_gpu: slot_source "allocate_specific_now i" release ga_available alloc_inv for i
proof unfold_locales
  fix a g a'
  assume "alloc_inv a" and take: "allocate_specific_now i a = Inr (g, a')"
  note g = allocate_specific_now_Inr [OF take]
  from g show "gi_index g \<in> ga_available a" by simp
  show "ga_available a' = ga_available a - {gi_index g}" using g by simp
  show "alloc_inv a'" using g \<open>alloc_inv a\<close> by simp
  show "release g a' = a" using g release_discard [of g a] by simp
qed (auto intro: allocator_eqI)

subsection \<open>The blocking operations agree with one turn when they may not wait\<close>

lemma allocate_nonblocking:
  "wait \<le> 0 \<Longrightarrow> allocate others req wait (a, t) =
     Some (case allocate_now req a of
             Inr (g, a') \<Rightarrow> (Inr g, a', t)
           | Inl e \<Rightarrow> (Inl e, a, t))"
  by (auto simp: allocate_def wait_deadline_def wait_expired_def alloc_turn_def poll.simps [of _ _ _ 0]
      or_runtime_error_def allocate_now_Inl dest: allocate_now_Inr(1,2) split: sum.splits)

lemma allocate_specific_nonblocking:
  "wait \<le> 0 \<Longrightarrow> allocate_specific others i wait (a, t) =
     Some (case allocate_specific_now i a of
             Inr (g, a') \<Rightarrow> (Inr g, a', t)
           | Inl e \<Rightarrow> (Inl e, a, t))"
  by (auto simp: allocate_specific_def wait_deadline_def wait_expired_def alloc_turn_def
      poll.simps [of _ _ _ 0] or_runtime_error_def allocate_specific_now_Inl
      dest: allocate_specific_now_Inr split: sum.splits if_splits)

subsection \<open>Contract\<close>

text \<open>
  A request that may not wait is decided at once. It fails with \<open>RuntimeError\<close> and changes
  nothing exactly when no free GPU has the memory asked for on top of the headroom. Otherwise
  it returns a free GPU with enough memory, the least one by NUMA node and then by index, and
  only that GPU stops being free; releasing it gives back the allocator as it was.
\<close>

theorem allocate_picks_numa_least:
  "case allocate others req 0 (a, t) of
     None \<Rightarrow> False
   | Some (Inl e, s) \<Rightarrow> e = RuntimeError \<and> s = (a, t) \<and> filter (eligible req a) (ga_pool a) = []
   | Some (Inr g, s) \<Rightarrow>
       filter (eligible req a) (ga_pool a) \<noteq> [] \<and> g \<in> set (ga_pool a) \<and> eligible req a g \<and>
       list_all (\<lambda>g'. numa_key g \<le> numa_key g') (filter (eligible req a) (ga_pool a)) \<and>
       s = (discard (gi_index g) a, t) \<and> release g (fst s) = a"
proof (cases "allocate_now req a")
  case (Inl e)
  then have "e = RuntimeError" "\<forall>g \<in> set (ga_pool a). \<not> eligible req a g" by (simp_all add: allocate_now_Inl)
  with Inl show ?thesis by (simp add: allocate_nonblocking)
next
  case (Inr p)
  then obtain g a' where r: "allocate_now req a = Inr (g, a')" by (cases p) auto
  note g = allocate_now_Inr [OF r]
  have "release g (discard (gi_index g) a) = a"
    using g(2) by (intro release_discard) (simp add: eligible_def)
  with g r show ?thesis
    by (auto simp: allocate_nonblocking filter_empty_conv list_all_iff)
qed

end
