(* ===== verification/FileLock.thy ===== *)
theory FileLock
  imports PyStr
begin

text \<open>
  \<open>GpuFileLock\<close> of \<open>framework/nodes/gpu_file_lock.py\<close> and the state the processes of a test
  session share: the clock, the lock state kept by the \<open>filelock\<close> package and the kernel,
  the \<open>.info\<close> sidecar files and the pending-request files of \<open>output/.gpu-locks/\<close>.

  The \<open>filelock\<close> package is a parameter, a value of type \<open>'os filelock\<close> over an abstract
  lock state \<open>'os\<close>. What the code relies on is \<open>filelock_ok\<close>: a lock is acquired exactly
  when nobody holds it, a failed attempt changes nothing, releasing frees the lock, and
  operations on one path leave the others alone. A file is named by its full path; a missing
  sidecar entry is a file that is absent or unreadable.
\<close>

datatype lock_outcome = Acquired | TimedOut | IOFailed

record 'os filelock =
  fl_acquire :: "rat \<Rightarrow> string \<Rightarrow> 'os \<Rightarrow> lock_outcome \<times> 'os"
  fl_release :: "string \<Rightarrow> 'os \<Rightarrow> 'os"

text \<open>The contract; \<open>held os p\<close> says that some holder has the lock at path \<open>p\<close>.\<close>

definition filelock_ok :: "'os filelock \<Rightarrow> ('os \<Rightarrow> string \<Rightarrow> bool) \<Rightarrow> bool" where
  "filelock_ok fl held \<longleftrightarrow>
     (\<forall>t p s. case fl_acquire fl t p s of
        (Acquired, s') \<Rightarrow> held s' = (held s)(p := True) \<and> (t = 0 \<longrightarrow> \<not> held s p)
      | (TimedOut, s') \<Rightarrow> held s' = held s \<and> held s p
      | (IOFailed, s') \<Rightarrow> held s' = held s) \<and>
     (\<forall>p s. held (fl_release fl p s) = (held s)(p := False))"

record lock_info =
  li_test_id :: string
  li_pid :: int
  li_node_label :: string
  li_gpu_index :: int

record pending_entry =
  pe_count :: int
  pe_timeout_at :: rat

type_synonym request_id = nat
type_synonym pending_map = "(request_id \<times> pending_entry) list"

record 'os world =
  w_clock :: rat
  w_os :: 'os
  w_info :: "(string \<times> lock_info) list"
  w_pending :: "(string \<times> pending_map) list"
  w_alive :: "int \<Rightarrow> bool"
  w_writable :: "string \<Rightarrow> bool"
  w_uuid :: request_id

subsection \<open>Paths\<close>

definition lock_dir :: string where
  "lock_dir = ''output/.gpu-locks/''"

definition safe_label :: "string \<Rightarrow> string" where
  "safe_label l = replace_char CHR '':'' CHR ''_'' (replace_char CHR ''/'' CHR ''_'' (replace_char CHR '' '' CHR ''_'' l))"

definition lock_path :: "string \<Rightarrow> int \<Rightarrow> string" where
  "lock_path label i = lock_dir @ safe_label label @ ''_gpu'' @ show_int i @ ''.lock''"

definition info_path :: "string \<Rightarrow> int \<Rightarrow> string" where
  "info_path label i = lock_dir @ safe_label label @ ''_gpu'' @ show_int i @ ''.info''"

subsection \<open>The lock object\<close>

record gpu_file_lock =
  fk_node_label :: string
  fk_gpu_index :: int
  fk_lock_path :: string
  fk_info_path :: string
  fk_locked :: bool

definition new_lock :: "string \<Rightarrow> int \<Rightarrow> gpu_file_lock" where
  "new_lock label i =
     \<lparr>fk_node_label = label, fk_gpu_index = i, fk_lock_path = lock_path label i,
      fk_info_path = info_path label i, fk_locked = False\<rparr>"

text \<open>The sidecar is written for a named test only, and a failed write is ignored.\<close>

definition write_info :: "int \<Rightarrow> string \<Rightarrow> gpu_file_lock \<Rightarrow> 'os world \<Rightarrow> 'os world" where
  "write_info pid test_id lk w =
     (if test_id \<noteq> [] \<and> w_writable w (fk_info_path lk)
      then w\<lparr>w_info := dict_set (fk_info_path lk)
               \<lparr>li_test_id = test_id, li_pid = pid, li_node_label = fk_node_label lk,
                li_gpu_index = fk_gpu_index lk\<rparr> (w_info w)\<rparr>
      else w)"

definition lock_acquire ::
  "'os filelock \<Rightarrow> int \<Rightarrow> rat \<Rightarrow> string \<Rightarrow> gpu_file_lock \<Rightarrow> 'os world
     \<Rightarrow> (py_error + gpu_file_lock) \<times> 'os world" where
  "lock_acquire fl pid timeout test_id lk w =
     (case fl_acquire fl timeout (fk_lock_path lk) (w_os w) of
        (Acquired, os') \<Rightarrow> (Inr (lk\<lparr>fk_locked := True\<rparr>), write_info pid test_id lk (w\<lparr>w_os := os'\<rparr>))
      | (TimedOut, os') \<Rightarrow> (Inl RuntimeError, w\<lparr>w_os := os'\<rparr>)
      | (IOFailed, os') \<Rightarrow> (Inl OSError, w\<lparr>w_os := os'\<rparr>))"

definition remove_info :: "gpu_file_lock \<Rightarrow> 'os world \<Rightarrow> 'os world" where
  "remove_info lk w =
     (if w_writable w (fk_info_path lk)
      then w\<lparr>w_info := AList.delete (fk_info_path lk) (w_info w)\<rparr> else w)"

definition lock_release ::
  "'os filelock \<Rightarrow> gpu_file_lock \<Rightarrow> 'os world \<Rightarrow> gpu_file_lock \<times> 'os world" where
  "lock_release fl lk w =
     (lk\<lparr>fk_locked := False\<rparr>,
      remove_info lk
        (if fk_locked lk then w\<lparr>w_os := fl_release fl (fk_lock_path lk) (w_os w)\<rparr> else w))"

definition read_all_holders :: "'os world \<Rightarrow> lock_info list" where
  "read_all_holders w = map snd (filter (\<lambda>(p, _). endswith p ''.info'') (w_info w))"

definition holder_is_alive :: "gpu_file_lock \<Rightarrow> 'os world \<Rightarrow> bool" where
  "holder_is_alive lk w =
     (case map_of (w_info w) (fk_info_path lk) of
        None \<Rightarrow> False
      | Some data \<Rightarrow> w_alive w (li_pid data))"

subsection \<open>Names of lock files\<close>

lemma lock_path_inject:
  "lock_path l i = lock_path l' j \<longleftrightarrow> safe_label l = safe_label l' \<and> i = j"
proof -
  have "lock_path l i = lock_path l' j \<longleftrightarrow>
      (lock_dir @ safe_label l @ ''_gp'') @ CHR ''u'' # (show_int i @ ''.lock'')
      = (lock_dir @ safe_label l' @ ''_gp'') @ CHR ''u'' # (show_int j @ ''.lock'')"
    by (simp add: lock_path_def)
  also have "\<dots> \<longleftrightarrow> safe_label l = safe_label l' \<and> i = j"
    by (subst last_sep_inject) auto
  finally show ?thesis .
qed

lemma safe_label_id:
  "CHR '' '' \<notin> set l \<Longrightarrow> CHR ''/'' \<notin> set l \<Longrightarrow> CHR '':'' \<notin> set l \<Longrightarrow> safe_label l = l"
  by (simp add: safe_label_def replace_char_id)

lemma safe_label_chars:
  "set (safe_label l) \<inter> {CHR '' '', CHR ''/'', CHR '':''} = {}"
  by (auto simp: safe_label_def replace_char_def)

lemma safe_label_idem: "safe_label (safe_label l) = safe_label l"
  using safe_label_chars [of l] by (intro safe_label_id) auto

subsection \<open>Locks under the contract\<close>

abbreviation w_held :: "('os \<Rightarrow> string \<Rightarrow> bool) \<Rightarrow> 'os world \<Rightarrow> string \<Rightarrow> bool" where
  "w_held held w \<equiv> held (w_os w)"

lemma write_info_frame [lock_simps]:
  "w_os (write_info pid t lk w) = w_os w" "w_clock (write_info pid t lk w) = w_clock w"
  "w_pending (write_info pid t lk w) = w_pending w" "w_alive (write_info pid t lk w) = w_alive w"
  "w_writable (write_info pid t lk w) = w_writable w" "w_uuid (write_info pid t lk w) = w_uuid w"
  by (simp_all add: write_info_def)

lemma remove_info_frame [lock_simps]:
  "w_os (remove_info lk w) = w_os w" "w_clock (remove_info lk w) = w_clock w"
  "w_pending (remove_info lk w) = w_pending w" "w_alive (remove_info lk w) = w_alive w"
  "w_writable (remove_info lk w) = w_writable w" "w_uuid (remove_info lk w) = w_uuid w"
  by (simp_all add: remove_info_def)

text \<open>The fields of the shared state that no lock operation touches.\<close>

definition same_frame :: "'os world \<Rightarrow> 'os world \<Rightarrow> bool" where
  "same_frame w w' \<longleftrightarrow> w_clock w' = w_clock w \<and> w_pending w' = w_pending w \<and>
     w_alive w' = w_alive w \<and> w_writable w' = w_writable w \<and> w_uuid w' = w_uuid w"

lemma same_frame_refl [simp]: "same_frame w w"
  by (simp add: same_frame_def)

lemma same_frame_trans [trans]: "same_frame u v \<Longrightarrow> same_frame v w \<Longrightarrow> same_frame u w"
  by (simp add: same_frame_def)

lemma lock_acquire_frame:
  "lock_acquire fl pid t tid lk w = (r, w') \<Longrightarrow> same_frame w w'"
  by (auto simp: lock_acquire_def same_frame_def lock_simps split: prod.splits lock_outcome.splits)

lemma lock_release_frame: "lock_release fl lk w = (lk', w') \<Longrightarrow> same_frame w w'"
  by (auto simp: lock_release_def same_frame_def lock_simps)

lemma filelock_acquire:
  assumes "filelock_ok fl held" and "fl_acquire fl t p s = (o', s')"
  shows "o' = Acquired \<Longrightarrow> held s' = (held s)(p := True)"
    and "o' = Acquired \<Longrightarrow> t = 0 \<Longrightarrow> \<not> held s p"
    and "o' \<noteq> Acquired \<Longrightarrow> held s' = held s"
    and "o' = TimedOut \<Longrightarrow> held s p"
proof -
  have "case fl_acquire fl t p s of
        (Acquired, s') \<Rightarrow> held s' = (held s)(p := True) \<and> (t = 0 \<longrightarrow> \<not> held s p)
      | (TimedOut, s') \<Rightarrow> held s' = held s \<and> held s p
      | (IOFailed, s') \<Rightarrow> held s' = held s"
    by (rule assms(1) [unfolded filelock_ok_def, THEN conjunct1, THEN spec, THEN spec, THEN spec])
  then show "o' = Acquired \<Longrightarrow> held s' = (held s)(p := True)"
    "o' = Acquired \<Longrightarrow> t = 0 \<Longrightarrow> \<not> held s p"
    "o' \<noteq> Acquired \<Longrightarrow> held s' = held s"
    "o' = TimedOut \<Longrightarrow> held s p"
    unfolding assms(2) by (cases o'; simp)+
qed

lemma filelock_release: "filelock_ok fl held \<Longrightarrow> held (fl_release fl p s) = (held s)(p := False)"
  unfolding filelock_ok_def by blast

lemma lock_acquire_Inr:
  assumes "filelock_ok fl held" and "lock_acquire fl pid t tid lk w = (Inr lk', w')"
  shows "lk' = lk\<lparr>fk_locked := True\<rparr>"
    and "w_held held w' = (w_held held w)(fk_lock_path lk := True)"
    and "t = 0 \<Longrightarrow> \<not> w_held held w (fk_lock_path lk)"
proof -
  obtain o' os' where f: "fl_acquire fl t (fk_lock_path lk) (w_os w) = (o', os')"
    by (cases "fl_acquire fl t (fk_lock_path lk) (w_os w)")
  from assms(2) f have o: "o' = Acquired" by (auto simp: lock_acquire_def split: lock_outcome.splits)
  note c = filelock_acquire [OF assms(1) f]
  from assms(2) f o c show "lk' = lk\<lparr>fk_locked := True\<rparr>"
    "w_held held w' = (w_held held w)(fk_lock_path lk := True)"
    "t = 0 \<Longrightarrow> \<not> w_held held w (fk_lock_path lk)"
    by (auto simp: lock_acquire_def lock_simps)
qed

lemma lock_acquire_Inl:
  assumes "filelock_ok fl held" and "lock_acquire fl pid t tid lk w = (Inl e, w')"
  shows "w_held held w' = w_held held w" and "w_info w' = w_info w"
    and "e = RuntimeError \<Longrightarrow> w_held held w (fk_lock_path lk)"
    and "e = RuntimeError \<or> e = OSError"
proof -
  obtain o' os' where f: "fl_acquire fl t (fk_lock_path lk) (w_os w) = (o', os')"
    by (cases "fl_acquire fl t (fk_lock_path lk) (w_os w)")
  note c = filelock_acquire [OF assms(1) f]
  from assms(2) f c show "w_held held w' = w_held held w" "w_info w' = w_info w"
    "e = RuntimeError \<Longrightarrow> w_held held w (fk_lock_path lk)" "e = RuntimeError \<or> e = OSError"
    by (auto simp: lock_acquire_def split: lock_outcome.splits)
qed

lemma lock_release_held:
  assumes "filelock_ok fl held" and "lock_release fl lk w = (lk', w')" and "fk_locked lk"
  shows "w_held held w' = (w_held held w)(fk_lock_path lk := False)"
  using assms by (auto simp: lock_release_def lock_simps filelock_release)

text \<open>Acquiring a free lock and releasing it leaves the lock state as it was.\<close>

lemma lock_acquire_release:
  assumes "filelock_ok fl held"
    and "lock_acquire fl pid 0 tid lk w = (Inr lk1, w1)" and "lock_release fl lk1 w1 = (lk2, w2)"
  shows "w_held held w2 = w_held held w"
proof -
  note a = lock_acquire_Inr [OF assms(1,2)]
  have "w_held held w2 = (w_held held w1)(fk_lock_path lk1 := False)"
    by (rule lock_release_held [OF assms(1,3)]) (simp add: a(1))
  also have "\<dots> = w_held held w"
    using a by (auto simp: fun_eq_iff)
  finally show ?thesis .
qed

subsection \<open>A lock table\<close>

text \<open>
  The simplest implementation of the contract: a set of held paths. It shows that the
  contract can be met, and the witnesses compute with it.
\<close>

definition table_locks :: "string set filelock" where
  "table_locks = \<lparr>fl_acquire = (\<lambda>_ p s. if p \<in> s then (TimedOut, s) else (Acquired, insert p s)),
                  fl_release = (\<lambda>p s. s - {p})\<rparr>"

lemma table_locks_ok: "filelock_ok table_locks (\<lambda>s p. p \<in> s)"
  by (auto simp: filelock_ok_def table_locks_def fun_eq_iff)

end
