(* ===== verification/PendingTracker.thy ===== *)
theory PendingTracker
  imports FileLock
begin

text \<open>
  \<open>PendingAcquisitionTracker\<close> and \<open>cleanup_session_start\<close> of
  \<open>framework/nodes/pending_tracker.py\<close>: the cross-process registry of waiting multi-GPU
  requests, one JSON file per node, guarded by a meta lock. A request identifier is the next
  value of the shared supply \<open>w_uuid\<close>, which stands for \<open>uuid.uuid4()\<close>: every identifier
  is issued once. Every operation swallows the failures of the meta lock and of the file, as
  the code does.
\<close>

definition json_path :: "string \<Rightarrow> string" where
  "json_path label = lock_dir @ safe_label label @ ''_pending.json''"

definition meta_path :: "string \<Rightarrow> string" where
  "meta_path label = lock_dir @ safe_label label @ ''_pending.lock''"

definition meta_lock_timeout :: rat where
  "meta_lock_timeout = 1 / 2"

text \<open>\<open>with self._meta_lock():\<close> a body; \<open>None\<close> when the lock could not be taken.\<close>

definition with_meta_lock ::
  "'os filelock \<Rightarrow> string \<Rightarrow> ('os world \<Rightarrow> 'r \<times> 'os world) \<Rightarrow> 'os world \<Rightarrow> 'r option \<times> 'os world" where
  "with_meta_lock fl label body w =
     (case fl_acquire fl meta_lock_timeout (meta_path label) (w_os w) of
        (Acquired, os') \<Rightarrow>
          (case body (w\<lparr>w_os := os'\<rparr>) of
             (r, w1) \<Rightarrow> (Some r, w1\<lparr>w_os := fl_release fl (meta_path label) (w_os w1)\<rparr>))
      | (_, os') \<Rightarrow> (None, w\<lparr>w_os := os'\<rparr>))"

definition read_unsafe :: "string \<Rightarrow> 'os world \<Rightarrow> pending_map" where
  "read_unsafe label w = (case map_of (w_pending w) (json_path label) of None \<Rightarrow> [] | Some m \<Rightarrow> m)"

text \<open>The flag is \<open>False\<close> when the write raises.\<close>

definition write_unsafe :: "string \<Rightarrow> pending_map \<Rightarrow> 'os world \<Rightarrow> bool \<times> 'os world" where
  "write_unsafe label m w =
     (if w_writable w (json_path label)
      then (True, w\<lparr>w_pending := dict_set (json_path label) m (w_pending w)\<rparr>)
      else (False, w))"

definition register :: "'os filelock \<Rightarrow> string \<Rightarrow> int \<Rightarrow> rat \<Rightarrow> 'os world \<Rightarrow> request_id \<times> 'os world" where
  "register fl label count timeout_at w =
     (let request_id = w_uuid w;
          entry = \<lparr>pe_count = count, pe_timeout_at = timeout_at\<rparr>
      in (request_id,
          snd (with_meta_lock fl label
                 (\<lambda>w. write_unsafe label (dict_set request_id entry (read_unsafe label w)) w)
                 (w\<lparr>w_uuid := Suc (w_uuid w)\<rparr>))))"

definition deregister :: "'os filelock \<Rightarrow> string \<Rightarrow> request_id \<Rightarrow> 'os world \<Rightarrow> 'os world" where
  "deregister fl label request_id w =
     snd (with_meta_lock fl label
            (\<lambda>w. let data = read_unsafe label w
                 in if map_of data request_id \<noteq> None
                    then write_unsafe label (AList.delete request_id data) w
                    else (True, w)) w)"

definition live :: "rat \<Rightarrow> pending_map \<Rightarrow> pending_map" where
  "live now m = filter (\<lambda>(_, e). now < pe_timeout_at e) m"

text \<open>\<open>max(int(v["count"]) for v in live.values())\<close>, 0 when nothing is live.\<close>

definition max_count :: "pending_map \<Rightarrow> int" where
  "max_count m = (case m of [] \<Rightarrow> 0 | _ \<Rightarrow> Max (set (map (pe_count \<circ> snd) m)))"

definition max_pending_count :: "'os filelock \<Rightarrow> string \<Rightarrow> 'os world \<Rightarrow> int \<times> 'os world" where
  "max_pending_count fl label w =
     (let now = w_clock w in
      case with_meta_lock fl label
             (\<lambda>w. let data = read_unsafe label w; lv = live now data
                  in if length lv \<noteq> length data
                     then (case write_unsafe label lv w of (ok, w1) \<Rightarrow> ((ok, lv), w1))
                     else ((True, lv), w)) w of
        (Some (True, lv), w') \<Rightarrow> (max_count lv, w')
      | (_, w') \<Rightarrow> (0, w'))"

fun true_available_count :: "'os filelock \<Rightarrow> string \<Rightarrow> int list \<Rightarrow> 'os world \<Rightarrow> int \<times> 'os world" where
  "true_available_count fl label [] w = (0, w)"
| "true_available_count fl label (idx # is) w =
     (case fl_acquire fl 0 (lock_path label idx) (w_os w) of
        (Acquired, os') \<Rightarrow>
          (case true_available_count fl label is
                  (w\<lparr>w_os := fl_release fl (lock_path label idx) os'\<rparr>) of
             (n, w') \<Rightarrow> (n + 1, w'))
      | (TimedOut, os') \<Rightarrow> true_available_count fl label is (w\<lparr>w_os := os'\<rparr>)
      | (IOFailed, os') \<Rightarrow>
          (case true_available_count fl label is (w\<lparr>w_os := os'\<rparr>) of (n, w') \<Rightarrow> (n + 1, w')))"

definition should_yield :: "'os filelock \<Rightarrow> string \<Rightarrow> int list \<Rightarrow> 'os world \<Rightarrow> bool \<times> 'os world" where
  "should_yield fl label gpu_indices w =
     (case max_pending_count fl label w of
        (max_pending, w1) \<Rightarrow>
          if max_pending \<le> 1 then (False, w1)
          else if max_pending > int (length gpu_indices) then (False, w1)
          else case true_available_count fl label gpu_indices w1 of
            (available, w2) \<Rightarrow> (available - 1 < max_pending, w2))"

text \<open>
  \<open>cleanup_session_start\<close>: \<open>glob\<close> skips names that start with a dot, and a file that cannot
  be removed is left. \<open>lock_files\<close> are the meta-lock files present in the directory.
\<close>

definition glob_match :: "string \<Rightarrow> string \<Rightarrow> bool" where
  "glob_match suf path \<longleftrightarrow>
     startswith path lock_dir \<and>
     (let name = drop (length lock_dir) path
      in endswith name suf \<and> (name = [] \<or> hd name \<noteq> CHR ''.''))"

definition stale :: "'os world \<Rightarrow> string \<Rightarrow> string \<Rightarrow> bool" where
  "stale w suf path \<longleftrightarrow> glob_match suf path \<and> w_writable w path"

definition cleanup_session_start :: "string list \<Rightarrow> 'os world \<Rightarrow> nat \<times> string list \<times> 'os world" where
  "cleanup_session_start lock_files w =
     (let jsons = filter (\<lambda>(p, _). \<not> stale w ''_pending.json'' p) (w_pending w);
          locks = filter (\<lambda>p. \<not> stale w ''_pending.lock'' p) lock_files
      in ((length (w_pending w) - length jsons) + (length lock_files - length locks),
          locks, w\<lparr>w_pending := jsons\<rparr>))"

subsection \<open>Paths of the three kinds of files differ\<close>

lemma lock_path_snoc: "\<exists>pre d. lock_path l i = (pre @ [d]) @ ''.lock'' \<and> d \<in> set (show_int i)"
proof -
  obtain s d where "show_int i = s @ [d]" by (metis rev_exhaust show_int_nonempty)
  then show ?thesis
    by (intro exI [of _ "lock_dir @ safe_label l @ ''_gpu'' @ s"] exI [of _ d]) (simp add: lock_path_def)
qed

lemma meta_path_snoc: "meta_path l = ((lock_dir @ safe_label l @ ''_pendin'') @ [CHR ''g'']) @ ''.lock''"
  by (simp add: meta_path_def)

lemma lock_path_not_meta [simp]: "lock_path l i \<noteq> meta_path l'"
proof
  assume eq: "lock_path l i = meta_path l'"
  obtain pre d where p: "lock_path l i = (pre @ [d]) @ ''.lock''" and d: "d \<in> set (show_int i)"
    using lock_path_snoc by blast
  from eq have "pre @ [d] = (lock_dir @ safe_label l' @ ''_pendin'') @ [CHR ''g'']"
    unfolding p meta_path_snoc by (rule append_same_eq [THEN iffD1])
  then have "d = CHR ''g''" by (rule append1_eq_conv [THEN iffD1, THEN conjunct2])
  with d show False using show_int_chars [of "CHR ''g''" i] by (auto simp: is_digit_def)
qed

lemmas meta_path_not_lock [simp] = lock_path_not_meta [symmetric]

subsection \<open>The meta lock leaves no trace on the locks\<close>

lemma read_unsafe_os [simp]: "read_unsafe label (w\<lparr>w_os := os\<rparr>) = read_unsafe label w"
  by (simp add: read_unsafe_def)

lemma write_unsafe_os [simp]:
  "w_os (snd (write_unsafe label m w)) = w_os w" "w_info (snd (write_unsafe label m w)) = w_info w"
  "w_clock (snd (write_unsafe label m w)) = w_clock w" "w_writable (snd (write_unsafe label m w)) = w_writable w"
  "w_uuid (snd (write_unsafe label m w)) = w_uuid w" "w_alive (snd (write_unsafe label m w)) = w_alive w"
  by (simp_all add: write_unsafe_def)

text \<open>
  \<open>gpu_locks_same\<close>: the GPU locks, their sidecars and the clock are as before; only the
  pending files, the identifier supply and the internals of the lock state may differ.
\<close>

definition gpu_locks_same :: "('os \<Rightarrow> string \<Rightarrow> bool) \<Rightarrow> 'os world \<Rightarrow> 'os world \<Rightarrow> bool" where
  "gpu_locks_same held w w' \<longleftrightarrow>
     (\<forall>l i. w_held held w' (lock_path l i) = w_held held w (lock_path l i)) \<and>
     w_info w' = w_info w \<and> w_clock w' = w_clock w \<and> w_alive w' = w_alive w \<and> w_writable w' = w_writable w"

lemma gpu_locks_same_refl [simp]: "gpu_locks_same held w w"
  by (simp add: gpu_locks_same_def)

lemma gpu_locks_same_trans [trans]:
  "gpu_locks_same held u v \<Longrightarrow> gpu_locks_same held v w \<Longrightarrow> gpu_locks_same held u w"
  by (simp add: gpu_locks_same_def)

lemma gpu_locks_same_uuid [simp]: "gpu_locks_same held w (w\<lparr>w_uuid := n\<rparr>)"
  by (simp add: gpu_locks_same_def)

text \<open>A body of the meta lock that touches nothing but the pending files.\<close>

definition pending_only :: "('os world \<Rightarrow> 'r \<times> 'os world) \<Rightarrow> bool" where
  "pending_only body \<longleftrightarrow> (\<forall>w. \<exists>m. snd (body w) = w\<lparr>w_pending := m\<rparr>)"

lemma pending_upd_self [simp]: "\<exists>m. w = w\<lparr>w_pending := m\<rparr>"
  by (rule exI [of _ "w_pending w"]) simp

lemma pending_onlyE:
  assumes "pending_only body"
  obtains r m where "body w = (r, w\<lparr>w_pending := m\<rparr>)"
  using assms unfolding pending_only_def by (metis prod.collapse)

lemma with_meta_lock_cases:
  assumes "filelock_ok fl held" and "pending_only body"
  obtains (Locked) os1 os2 r m where
      "with_meta_lock fl label body w = (Some r, w\<lparr>w_os := os2, w_pending := m\<rparr>)"
      "body (w\<lparr>w_os := os1\<rparr>) = (r, w\<lparr>w_os := os1, w_pending := m\<rparr>)"
      "held os2 = (held (w_os w))(meta_path label := False)"
  | (Busy) os1 where "with_meta_lock fl label body w = (None, w\<lparr>w_os := os1\<rparr>)" "held os1 = held (w_os w)"
proof -
  obtain o' os1 where f: "fl_acquire fl meta_lock_timeout (meta_path label) (w_os w) = (o', os1)"
    by (cases "fl_acquire fl meta_lock_timeout (meta_path label) (w_os w)")
  note c = filelock_acquire [OF assms(1) f]
  show thesis
  proof (cases "o' = Acquired")
    case True
    obtain r m where b: "body (w\<lparr>w_os := os1\<rparr>) = (r, (w\<lparr>w_os := os1\<rparr>)\<lparr>w_pending := m\<rparr>)"
      using assms(2) by (rule pending_onlyE)
    have "with_meta_lock fl label body w
        = (Some r, w\<lparr>w_os := fl_release fl (meta_path label) os1, w_pending := m\<rparr>)"
      using True f b by (simp add: with_meta_lock_def)
    moreover have "body (w\<lparr>w_os := os1\<rparr>) = (r, w\<lparr>w_os := os1, w_pending := m\<rparr>)"
      using b by simp
    moreover have "held (fl_release fl (meta_path label) os1) = (held (w_os w))(meta_path label := False)"
      using c(1) [OF True] by (simp add: filelock_release [OF assms(1)])
    ultimately show thesis by (rule Locked)
  next
    case False
    then have "with_meta_lock fl label body w = (None, w\<lparr>w_os := os1\<rparr>)"
      using f by (auto simp: with_meta_lock_def split: lock_outcome.splits)
    then show thesis using c(3) [OF False] by (rule Busy)
  qed
qed

lemma with_meta_lock_same:
  assumes "filelock_ok fl held" and "pending_only body"
  shows "gpu_locks_same held w (snd (with_meta_lock fl label body w))"
  using assms by (cases rule: with_meta_lock_cases [of fl held body label w]) (auto simp: gpu_locks_same_def)

lemma register_body: "pending_only (\<lambda>w. write_unsafe label (f (read_unsafe label w)) w)"
  by (auto simp: pending_only_def write_unsafe_def)

lemma deregister_body:
  "pending_only (\<lambda>w. let data = read_unsafe label w
     in if map_of data r \<noteq> None then write_unsafe label (AList.delete r data) w else (True, w))"
  by (auto simp: pending_only_def write_unsafe_def Let_def)

lemma max_pending_body:
  "pending_only (\<lambda>w. let data = read_unsafe label w; lv = live now data
     in if length lv \<noteq> length data
        then (case write_unsafe label lv w of (ok, w1) \<Rightarrow> ((ok, lv), w1)) else ((True, lv), w))"
  by (auto simp: pending_only_def write_unsafe_def Let_def)

lemma register_same:
  assumes "filelock_ok fl held"
  shows "gpu_locks_same held w (snd (register fl label n t w))"
  using gpu_locks_same_uuid with_meta_lock_same [OF assms register_body]
  unfolding register_def Let_def snd_conv by (rule gpu_locks_same_trans)

lemma deregister_same:
  "filelock_ok fl held \<Longrightarrow> gpu_locks_same held w (deregister fl label r w)"
  unfolding deregister_def by (rule with_meta_lock_same [OF _ deregister_body])

lemma max_pending_same:
  assumes "filelock_ok fl held"
  shows "gpu_locks_same held w (snd (max_pending_count fl label w))"
  using with_meta_lock_same [OF assms max_pending_body, of w label label "w_clock w"]
  unfolding max_pending_count_def Let_def
  by (auto split: prod.splits option.splits bool.splits)

text \<open>Probing the locks of a node: a free lock is taken and given back at once.\<close>

lemma probe_same:
  assumes "filelock_ok fl held" and "fl_acquire fl 0 (lock_path label idx) (w_os w) = (o', os')"
  shows "gpu_locks_same held w
    (w\<lparr>w_os := if o' = Acquired then fl_release fl (lock_path label idx) os' else os'\<rparr>)"
  using filelock_acquire [OF assms] filelock_release [OF assms(1)]
  by (auto simp: gpu_locks_same_def)

lemma true_available_same:
  assumes "filelock_ok fl held"
  shows "gpu_locks_same held w (snd (true_available_count fl label idxs w))"
proof (induction idxs arbitrary: w)
  case (Cons idx idxs)
  obtain o' os' where f: "fl_acquire fl 0 (lock_path label idx) (w_os w) = (o', os')"
    by (cases "fl_acquire fl 0 (lock_path label idx) (w_os w)")
  from probe_same [OF assms f] Cons f show ?case
    by (cases o') (auto intro: gpu_locks_same_trans split: prod.splits simp: prod_eq_iff)
qed simp

definition no_io_failure :: "'os filelock \<Rightarrow> bool" where
  "no_io_failure fl \<longleftrightarrow> (\<forall>t p s. fst (fl_acquire fl t p s) \<noteq> IOFailed)"

lemma true_available_value:
  assumes "filelock_ok fl held" and "no_io_failure fl"
  shows "fst (true_available_count fl label idxs w)
    = int (length (filter (\<lambda>i. \<not> w_held held w (lock_path label i)) idxs))"
proof (induction idxs arbitrary: w)
  case (Cons idx idxs)
  obtain o' os' where f: "fl_acquire fl 0 (lock_path label idx) (w_os w) = (o', os')"
    by (cases "fl_acquire fl 0 (lock_path label idx) (w_os w)")
  let ?w = "w\<lparr>w_os := if o' = Acquired then fl_release fl (lock_path label idx) os' else os'\<rparr>"
  have same: "w_held held ?w (lock_path label i) = w_held held w (lock_path label i)" for i
    using probe_same [OF assms(1) f] by (simp add: gpu_locks_same_def)
  have "o' \<noteq> IOFailed" using assms(2) f by (metis fst_conv no_io_failure_def)
  then show ?case
    using filelock_acquire(2,4) [OF assms(1) f] f Cons [of ?w] same
    by (cases o') (auto split: prod.splits simp: prod_eq_iff)
qed simp

lemma should_yield_same:
  assumes "filelock_ok fl held"
  shows "gpu_locks_same held w (snd (should_yield fl label idxs w))"
proof -
  have "gpu_locks_same held w (snd (true_available_count fl label idxs (snd (max_pending_count fl label w))))"
    using max_pending_same [OF assms] true_available_same [OF assms] by (rule gpu_locks_same_trans)
  then show ?thesis
    using max_pending_same [OF assms, of w label]
    by (auto simp: should_yield_def split: prod.splits)
qed

subsection \<open>The registry when its lock is free and its file writable\<close>

definition tracker_ready :: "'os filelock \<Rightarrow> ('os \<Rightarrow> string \<Rightarrow> bool) \<Rightarrow> string \<Rightarrow> 'os world \<Rightarrow> bool" where
  "tracker_ready fl held label w \<longleftrightarrow>
     filelock_ok fl held \<and> no_io_failure fl \<and> \<not> w_held held w (meta_path label) \<and> w_writable w (json_path label)"

lemma with_meta_lock_ready:
  assumes "tracker_ready fl held label w"
  shows "\<exists>os1 os2 r w1. with_meta_lock fl label body w = (Some r, w1\<lparr>w_os := os2\<rparr>) \<and> body (w\<lparr>w_os := os1\<rparr>) = (r, w1)"
proof -
  obtain o' os1 where f: "fl_acquire fl meta_lock_timeout (meta_path label) (w_os w) = (o', os1)"
    by (cases "fl_acquire fl meta_lock_timeout (meta_path label) (w_os w)")
  have "o' \<noteq> IOFailed" using assms f by (metis fst_conv no_io_failure_def tracker_ready_def)
  moreover have "o' \<noteq> TimedOut"
    using assms filelock_acquire(4) [OF _ f] by (auto simp: tracker_ready_def)
  ultimately have "o' = Acquired" by (cases o') auto
  with f show ?thesis by (auto simp: with_meta_lock_def split: prod.splits)
qed

lemma write_unsafe_ready:
  "w_writable w (json_path label) \<Longrightarrow>
     write_unsafe label m w = (True, w\<lparr>w_pending := dict_set (json_path label) m (w_pending w)\<rparr>)"
  by (simp add: write_unsafe_def)

lemma read_write [simp]:
  "read_unsafe label (w\<lparr>w_pending := dict_set (json_path label) m (w_pending w)\<rparr>) = m"
  by (simp add: read_unsafe_def)

lemma register_ready:
  assumes "tracker_ready fl held label w"
  shows "fst (register fl label n t w) = w_uuid w"
    and "read_unsafe label (snd (register fl label n t w))
      = dict_set (w_uuid w) \<lparr>pe_count = n, pe_timeout_at = t\<rparr> (read_unsafe label w)"
proof -
  let ?w = "w\<lparr>w_uuid := Suc (w_uuid w)\<rparr>"
  have "tracker_ready fl held label ?w" using assms by (simp add: tracker_ready_def)
  from with_meta_lock_ready [OF this, of "\<lambda>w'. write_unsafe label
      (dict_set (w_uuid w) \<lparr>pe_count = n, pe_timeout_at = t\<rparr> (read_unsafe label w')) w'"] assms
  show "read_unsafe label (snd (register fl label n t w))
      = dict_set (w_uuid w) \<lparr>pe_count = n, pe_timeout_at = t\<rparr> (read_unsafe label w)"
    by (auto simp: register_def Let_def tracker_ready_def write_unsafe_def read_unsafe_def)
qed (simp add: register_def Let_def)

lemma deregister_ready:
  assumes "tracker_ready fl held label w"
  shows "read_unsafe label (deregister fl label r w) = AList.delete r (read_unsafe label w)"
proof -
  have none: "AList.delete r m = m" if "map_of m r = None" for m :: pending_map
    using that by (simp add: delete_id map_of_eq_None_iff)
  from with_meta_lock_ready [OF assms, of "\<lambda>w. let data = read_unsafe label w
     in if map_of data r \<noteq> None then write_unsafe label (AList.delete r data) w else (True, w)"] assms
  show ?thesis
    by (auto simp: deregister_def Let_def tracker_ready_def write_unsafe_def read_unsafe_def none
        split: if_splits)
qed

lemma max_pending_ready:
  assumes "tracker_ready fl held label w"
  shows "fst (max_pending_count fl label w) = max_count (live (w_clock w) (read_unsafe label w))"
    and "read_unsafe label (snd (max_pending_count fl label w)) = live (w_clock w) (read_unsafe label w)"
proof -
  have len: "live t m = m" if "length (live t m) = length m" for t m
    using that unfolding live_def by (metis filter_id_conv length_filter_less less_irrefl)
  from with_meta_lock_ready [OF assms, of "\<lambda>w'. let data = read_unsafe label w'; lv = live (w_clock w) data
     in if length lv \<noteq> length data
        then (case write_unsafe label lv w' of (ok, w1) \<Rightarrow> ((ok, lv), w1)) else ((True, lv), w')"] assms
  show "fst (max_pending_count fl label w) = max_count (live (w_clock w) (read_unsafe label w))"
    "read_unsafe label (snd (max_pending_count fl label w)) = live (w_clock w) (read_unsafe label w)"
    by (auto simp: max_pending_count_def Let_def tracker_ready_def write_unsafe_def len split: if_splits)
qed

lemma max_count_ge: "(r, e) \<in> set m \<Longrightarrow> pe_count e \<le> max_count m"
  by (auto simp: max_count_def intro!: Max_ge split: list.splits) force

lemma max_count_le: "(\<And>r e. (r, e) \<in> set m \<Longrightarrow> pe_count e \<le> n) \<Longrightarrow> 0 \<le> n \<Longrightarrow> max_count m \<le> n"
  by (cases m) (fastforce simp: max_count_def)+

lemma max_count_witness: "m \<noteq> [] \<Longrightarrow> \<exists>r e. (r, e) \<in> set m \<and> pe_count e = max_count m"
proof -
  assume "m \<noteq> []"
  then have "Max (set (map (pe_count \<circ> snd) m)) \<in> set (map (pe_count \<circ> snd) m)"
    by (intro Max_in) auto
  then obtain x where x: "x \<in> set m" "Max (set (map (pe_count \<circ> snd) m)) = pe_count (snd x)" by auto
  then have "max_count m = pe_count (snd x)" using \<open>m \<noteq> []\<close> by (auto simp: max_count_def neq_Nil_conv)
  with x(1) show ?thesis by (metis prod.collapse)
qed

lemma should_yield_value:
  assumes "tracker_ready fl held label w"
  shows "fst (should_yield fl label idxs w) \<longleftrightarrow>
    (let m = max_count (live (w_clock w) (read_unsafe label w));
         available = int (length (filter (\<lambda>i. \<not> w_held held w (lock_path label i)) idxs))
     in 1 < m \<and> m \<le> int (length idxs) \<and> available - 1 < m)"
proof -
  from assms have ok: "filelock_ok fl held" and io: "no_io_failure fl" by (simp_all add: tracker_ready_def)
  obtain m w1 where m: "max_pending_count fl label w = (m, w1)" by (cases "max_pending_count fl label w")
  have "gpu_locks_same held w w1" using max_pending_same [OF ok, of w label] m by simp
  then have "fst (true_available_count fl label idxs w1)
      = int (length (filter (\<lambda>i. \<not> w_held held w (lock_path label i)) idxs))"
    by (simp add: true_available_value [OF ok io] gpu_locks_same_def)
  moreover have "m = max_count (live (w_clock w) (read_unsafe label w))"
    using max_pending_ready(1) [OF assms] m by simp
  ultimately show ?thesis
    using m by (auto simp: should_yield_def Let_def split: prod.splits)
qed

lemma endswith_append: "endswith (a @ b) b"
  by (simp add: endswith_def)

lemma cleanup_clears:
  assumes "cleanup_session_start lock_files w = (n, locks, w')"
    and "w_writable w (json_path label)" and "safe_label label = [] \<or> hd (safe_label label) \<noteq> CHR ''.''"
  shows "read_unsafe label w' = []"
proof -
  have "startswith (json_path label) lock_dir" by (simp add: json_path_def)
  moreover have "drop (length lock_dir) (json_path label) = safe_label label @ ''_pending.json''"
    by (simp add: json_path_def)
  moreover have "hd (safe_label label @ ''_pending.json'') \<noteq> CHR ''.''"
    using assms(3) by (cases "safe_label label") auto
  ultimately have "stale w ''_pending.json'' (json_path label)"
    using assms(2) by (simp add: stale_def glob_match_def Let_def endswith_append)
  then have "json_path label \<notin> fst ` set (w_pending w')"
    using assms(1) by (auto simp: cleanup_session_start_def Let_def)
  then show ?thesis by (simp add: read_unsafe_def map_of_eq_None_iff [THEN iffD2])
qed

subsection \<open>Contracts\<close>

lemma register_keeps_ready:
  assumes "tracker_ready fl held label w"
  shows "tracker_ready fl held label (snd (register fl label n t w))"
proof -
  from assms have ok: "filelock_ok fl held" by (simp add: tracker_ready_def)
  have "gpu_locks_same held w (snd (register fl label n t w))" by (rule register_same [OF ok])
  moreover have "\<not> w_held held (snd (register fl label n t w)) (meta_path label)"
    using assms
    by (cases rule: with_meta_lock_cases [OF ok register_body [of label "dict_set (w_uuid w) \<lparr>pe_count = n, pe_timeout_at = t\<rparr>"],
          of label "w\<lparr>w_uuid := Suc (w_uuid w)\<rparr>"])
      (auto simp: register_def Let_def tracker_ready_def)
  ultimately show ?thesis using assms by (simp add: tracker_ready_def gpu_locks_same_def)
qed

lemma delete_fresh: "map_of m k = None \<Longrightarrow> AList.delete k (dict_set k v m) = m"
  by (induction m) (auto simp: AList.delete_eq split: if_splits)

text \<open>
  With the registry usable, a registered request is seen by everybody until it expires:
  the largest pending count is at least its count. Deregistering it restores the registry the
  request found, and neither operation touches a GPU lock.
\<close>

theorem registration_round_trip:
  assumes "tracker_ready fl held label w" and "map_of (read_unsafe label w) (w_uuid w) = None"
    and "register fl label n t w = (rid, w1)"
  shows "(w_clock w < t \<longrightarrow> n \<le> fst (max_pending_count fl label w1))
    \<and> read_unsafe label (deregister fl label rid w1) = read_unsafe label w
    \<and> gpu_locks_same held w (deregister fl label rid w1)"
proof -
  from assms(1) have ok: "filelock_ok fl held" by (simp add: tracker_ready_def)
  note r = register_ready [OF assms(1), of n t, unfolded assms(3), simplified]
  have ready: "tracker_ready fl held label w1" using register_keeps_ready [OF assms(1), of n t] assms(3) by simp
  have same: "gpu_locks_same held w w1" using register_same [OF ok, of w label n t] assms(3) by simp
  have "n \<le> fst (max_pending_count fl label w1)" if "w_clock w < t"
  proof -
    have "(rid, \<lparr>pe_count = n, pe_timeout_at = t\<rparr>) \<in> set (live (w_clock w1) (read_unsafe label w1))"
      using that same r map_of_SomeD [of "read_unsafe label w1" rid]
      by (auto simp: live_def gpu_locks_same_def)
    from max_count_ge [OF this] show ?thesis by (simp add: max_pending_ready(1) [OF ready])
  qed
  moreover have "read_unsafe label (deregister fl label rid w1) = read_unsafe label w"
    using r assms(2) by (simp add: deregister_ready [OF ready] delete_fresh)
  moreover have "gpu_locks_same held w (deregister fl label rid w1)"
    using same deregister_same [OF ok] by (rule gpu_locks_same_trans)
  ultimately show ?thesis by blast
qed

definition demo_registry :: "pending_map \<Rightarrow> string set \<Rightarrow> string set world" where
  "demo_registry m locked = \<lparr>w_clock = 0, w_os = locked, w_info = [], w_pending = [(json_path ''a'', m)],
     w_alive = (\<lambda>_. True), w_writable = (\<lambda>_. True), w_uuid = 7\<rparr>"

lemma demo_registry_ready:
  "meta_path ''a'' \<notin> locked \<Longrightarrow> tracker_ready table_locks (\<lambda>s p. p \<in> s) ''a'' (demo_registry m locked)"
  using table_locks_ok by (simp add: tracker_ready_def demo_registry_def no_io_failure_def) (simp add: table_locks_def)

lemma demo_registry_read [simp]:
  "read_unsafe ''a'' (demo_registry m locked) = m" "w_uuid (demo_registry m locked) = 7"
  "w_clock (demo_registry m locked) = 0" "w_os (demo_registry m locked) = locked"
  by (simp_all add: read_unsafe_def demo_registry_def)

theorem registration_round_trip_witness:
  "4 \<le> fst (max_pending_count table_locks ''a'' (snd (register table_locks ''a'' 4 60 (demo_registry [] {}))))"
proof -
  obtain rid w1 where "register table_locks ''a'' 4 60 (demo_registry [] {}) = (rid, w1)" by fastforce
  with registration_round_trip [OF demo_registry_ready [of "{}" "[]"] _ this] show ?thesis by simp
qed

text \<open>
  C25. With the registry usable, a single-GPU caller yields exactly when the largest unexpired
  request wants more than one GPU, no more than the node has, and taking one GPU would leave
  fewer free GPUs than it wants.
\<close>

theorem should_yield_decision:
  assumes "tracker_ready fl held label w"
  shows "fst (should_yield fl label idxs w) \<longleftrightarrow>
    (let wanted = max_count (live (w_clock w) (read_unsafe label w));
         unlocked = length (filter (\<lambda>i. \<not> w_held held w (lock_path label i)) idxs)
     in 1 < wanted \<and> wanted \<le> int (length idxs) \<and> int unlocked \<le> wanted)"
  using should_yield_value [OF assms, of idxs] by (auto simp: Let_def)

theorem should_yield_decision_witness:
  "fst (should_yield table_locks ''a'' [0, 1]
     (demo_registry [(3, \<lparr>pe_count = 2, pe_timeout_at = 60\<rparr>)] {}))"
  using should_yield_decision [OF demo_registry_ready [of "{}"], of "[0, 1]"
      "[(3, \<lparr>pe_count = 2, pe_timeout_at = 60\<rparr>)]"]
  by (simp add: live_def max_count_def Let_def)

text \<open>
  A registry in which every unexpired request asks for a single GPU never makes a caller
  yield. The requests that \<open>acquire_specific_slot\<close> registers, with a count of 1 and for the
  stated purpose of making \<open>acquire_slot\<close> callers yield, are of this kind.
\<close>

theorem single_requests_never_yield:
  assumes "tracker_ready fl held label w"
    and "\<forall>(rid, e) \<in> set (live (w_clock w) (read_unsafe label w)). pe_count e = 1"
  shows "\<not> fst (should_yield fl label idxs w)"
proof -
  have "max_count (live (w_clock w) (read_unsafe label w)) \<le> 1"
    using assms(2) by (intro max_count_le) auto
  then show ?thesis using should_yield_value [OF assms(1), of idxs] by (simp add: Let_def)
qed

theorem single_requests_never_yield_witness:
  "\<not> fst (should_yield table_locks ''a'' [0]
       (snd (register table_locks ''a'' 1 60 (demo_registry [] {}))))"
proof (rule single_requests_never_yield)
  show "tracker_ready table_locks (\<lambda>s p. p \<in> s) ''a'' (snd (register table_locks ''a'' 1 60 (demo_registry [] {})))"
    by (intro register_keeps_ready demo_registry_ready) simp
  show "\<forall>(rid, e) \<in> set (live (w_clock (snd (register table_locks ''a'' 1 60 (demo_registry [] {}))))
      (read_unsafe ''a'' (snd (register table_locks ''a'' 1 60 (demo_registry [] {}))))). pe_count e = 1"
    by (auto simp: live_def register_ready(2) [OF demo_registry_ready [of "{}"]])
qed

text \<open>
  Two GPUs share a lock file exactly when their indices agree and their node labels agree
  once blanks, slashes and colons have become underscores; no GPU lock file is the meta lock of
  a node's registry.
\<close>

theorem lock_files_distinct:
  "(lock_path l i = lock_path l' j \<longleftrightarrow> safe_label l = safe_label l' \<and> i = j) \<and> lock_path l i \<noteq> meta_path l'"
  by (simp add: lock_path_inject)

end
