(* ===== verification/NodeSpec.thy ===== *)
theory NodeSpec
  imports PyVal "HOL-Library.Multiset"
begin

text \<open>
  Node descriptors and the host file loader, \<open>framework/nodes/node_spec.py\<close>. The fields that
  come from YAML keep whatever value the file holds. PyYAML is a parameter: \<open>yaml\<close> maps the
  text of a file to the value \<open>yaml.safe_load\<close> returns; \<open>files\<close> gives the text of a path.
\<close>

record node_spec =
  ns_hostname :: pyval
  ns_username :: pyval
  ns_password :: pyval
  ns_ssh_key :: pyval
  ns_gpu_arch :: pyval
  ns_label :: string

text \<open>\<open>gethostname\<close> is \<open>None\<close> when \<open>socket.gethostname()\<close> raises.\<close>

definition is_local :: "string option \<Rightarrow> node_spec \<Rightarrow> bool" where
  "is_local gethostname spec \<longleftrightarrow>
     ns_hostname spec \<in> {PStr ''localhost'', PStr ''127.0.0.1''}
       \<union> (case gethostname of None \<Rightarrow> {} | Some h \<Rightarrow> {PStr h})"

definition host_prefix :: string where
  "host_prefix = ''HOST_IDX_''"

text \<open>\<open>int(str(k).rsplit("_", maxsplit=1)[-1])\<close>\<close>

definition host_index :: "string \<Rightarrow> py_error + int" where
  "host_index k = (case int_of_str (last (split_on CHR ''_'' k)) of None \<Rightarrow> Inl ValueError | Some n \<Rightarrow> Inr n)"

definition host_entry :: "(string \<times> pyval) list \<Rightarrow> string \<Rightarrow> py_error + node_spec" where
  "host_entry data label =
     (case map_of data label of
        Some (PDict entry) \<Rightarrow>
          (case map_of entry ''HOSTNAME'' of
             None \<Rightarrow> Inl KeyError
           | Some host \<Rightarrow>
               let get = (\<lambda>k. case map_of entry k of None \<Rightarrow> PNone | Some v \<Rightarrow> v)
               in Inr \<lparr>ns_hostname = host, ns_username = get ''USERNAME'', ns_password = get ''PASSWORD'',
                       ns_ssh_key = get ''SSH_KEY'', ns_gpu_arch = get ''GPU_ARCH'', ns_label = label\<rparr>)
      | _ \<Rightarrow> Inl ValueError)"

definition sort_host_keys :: "string list \<Rightarrow> int list \<Rightarrow> string list" where
  "sort_host_keys keys idxs = map snd (sort_key fst (zip idxs keys))"

definition load_hosts :: "pyval \<Rightarrow> py_error + node_spec list" where
  "load_hosts data =
     (case data of
        PDict d \<Rightarrow>
          (let keys = filter (\<lambda>k. startswith k host_prefix) (map fst d)
           in case mapM host_index keys of
                Inl e \<Rightarrow> Inl e
              | Inr idxs \<Rightarrow> mapM (host_entry d) (sort_host_keys keys idxs))
      | _ \<Rightarrow> Inl ValueError)"

definition load :: "(string \<Rightarrow> string option) \<Rightarrow> (string \<Rightarrow> pyval) \<Rightarrow> string \<Rightarrow> py_error + node_spec list" where
  "load files yaml path =
     (case files path of None \<Rightarrow> Inl FileNotFoundError | Some text \<Rightarrow> load_hosts (yaml text))"

subsection \<open>Facts\<close>

lemma split_on_last: "x \<notin> set b \<Longrightarrow> last (split_on x (a @ x # b)) = b"
proof (induction a)
  case Nil
  have "x \<notin> set b \<Longrightarrow> split_on x b = [b]" by (induction b) auto
  with Nil show ?case by simp
next
  case (Cons c a)
  obtain w ws where w: "split_on x (a @ x # b) = w # ws" by (cases "split_on x (a @ x # b)") auto
  have "ws \<noteq> []"
  proof -
    have "length (split_on x (a @ x # b)) \<ge> 2"
      by (induction a) (auto split: list.splits simp: Suc_le_eq)
    with w show ?thesis by auto
  qed
  with Cons w show ?case by (auto simp: last_ConsR)
qed

lemma host_index_numbered: "host_index (host_prefix @ show_int n) = Inr n"
proof -
  have "last (split_on CHR ''_'' (host_prefix @ show_int n)) = show_int n"
    using split_on_last [of "CHR ''_''" "show_int n" "''HOST_IDX''"] by (simp add: host_prefix_def)
  then show ?thesis by (simp add: host_index_def)
qed

lemma sort_host_keys_mset: "length idxs = length keys \<Longrightarrow> mset (sort_host_keys keys idxs) = mset keys"
proof -
  assume len: "length idxs = length keys"
  have "mset (sort_host_keys keys idxs) = image_mset snd (mset (zip idxs keys))"
    by (simp add: sort_host_keys_def)
  also have "\<dots> = mset (map snd (zip idxs keys))"
    by simp
  finally show ?thesis using len by (simp del: mset_map)
qed

lemma sort_host_keys_sorted:
  assumes "mapM host_index keys = Inr idxs"
  shows "\<exists>js. mapM host_index (sort_host_keys keys idxs) = Inr js \<and> sorted js"
proof -
  let ?ps = "sort_key fst (zip idxs keys)"
  have "\<forall>p \<in> set ?ps. host_index (snd p) = Inr (fst p)"
    using mapM_Inr_nth [OF assms] mapM_Inr_length [OF assms]
    by (auto simp: set_zip)
  moreover have "\<forall>p \<in> set ps. host_index (snd p) = Inr (fst p) \<Longrightarrow>
      mapM host_index (map snd ps) = Inr (map fst ps)" for ps
    by (induction ps) auto
  ultimately have "mapM host_index (map snd ?ps) = Inr (map fst ?ps)" by blast
  then show ?thesis unfolding sort_host_keys_def by auto
qed

lemma host_entry_label: "host_entry d k = Inr spec \<Longrightarrow> ns_label spec = k"
  by (auto simp: host_entry_def Let_def split: option.splits pyval.splits)

subsection \<open>Contract\<close>

lemma host_entries_labels: "mapM (host_entry d) ks = Inr specs \<Longrightarrow> map ns_label specs = ks"
proof (rule nth_equalityI)
  assume m: "mapM (host_entry d) ks = Inr specs"
  show len: "length (map ns_label specs) = length ks" using mapM_Inr_length [OF m] by simp
  show "map ns_label specs ! i = ks ! i" if "i < length (map ns_label specs)" for i
    using host_entry_label [OF mapM_Inr_nth [OF m, of i]] len that by simp
qed

lemma load_hosts_Inr:
  assumes "load_hosts (PDict d) = Inr specs"
  obtains idxs where "mapM host_index (filter (\<lambda>k. startswith k host_prefix) (map fst d)) = Inr idxs"
    and "map ns_label specs = sort_host_keys (filter (\<lambda>k. startswith k host_prefix) (map fst d)) idxs"
  using assms by (auto simp: load_hosts_def Let_def dest!: host_entries_labels split: sum.splits)

lemma load_hosts_mset:
  assumes "load_hosts (PDict d) = Inr specs"
  shows "mset (map ns_label specs) = mset (filter (\<lambda>k. startswith k host_prefix) (map fst d))"
proof -
  obtain idxs where m: "mapM host_index (filter (\<lambda>k. startswith k host_prefix) (map fst d)) = Inr idxs"
    and l: "map ns_label specs = sort_host_keys (filter (\<lambda>k. startswith k host_prefix) (map fst d)) idxs"
    using assms by (rule load_hosts_Inr)
  show ?thesis using sort_host_keys_mset [OF mapM_Inr_length [OF m]] by (simp only: l)
qed

text \<open>
  A host file that loads gives one node per \<open>HOST_IDX_\<close> entry and none for the other
  entries, in the order of the numbers in their names, each named after its entry.
\<close>

theorem load_hosts_in_order:
  assumes "load_hosts (PDict d) = Inr specs"
  shows "mset (map ns_label specs) = mset (filter (\<lambda>k. startswith k host_prefix) (map fst d))
    \<and> (\<exists>js. mapM host_index (map ns_label specs) = Inr js \<and> sorted js)"
proof -
  obtain idxs where m: "mapM host_index (filter (\<lambda>k. startswith k host_prefix) (map fst d)) = Inr idxs"
    and l: "map ns_label specs = sort_host_keys (filter (\<lambda>k. startswith k host_prefix) (map fst d)) idxs"
    using assms by (rule load_hosts_Inr)
  show ?thesis
    using load_hosts_mset [OF assms] sort_host_keys_sorted [OF m] by (simp only: l)
qed

definition demo_hosts :: "(string \<times> pyval) list" where
  "demo_hosts =
     [(''HOST_IDX_10'', PDict [(''HOSTNAME'', PStr ''n10'')]), (''defaults'', PNone),
      (''HOST_IDX_2'', PDict [(''HOSTNAME'', PStr ''n2'')])]"

theorem load_hosts_in_order_witness:
  "\<exists>specs. load_hosts (PDict demo_hosts) = Inr specs \<and> map ns_label specs = [''HOST_IDX_2'', ''HOST_IDX_10''] \<and>
     mset (map ns_label specs) = {#''HOST_IDX_10'', ''HOST_IDX_2''#}"
proof -
  obtain specs where specs: "load_hosts (PDict demo_hosts) = Inr specs"
    and "map ns_label specs = [''HOST_IDX_2'', ''HOST_IDX_10'']"
  proof -
    have "case load_hosts (PDict demo_hosts) of
        Inr specs \<Rightarrow> map ns_label specs = [''HOST_IDX_2'', ''HOST_IDX_10''] | Inl _ \<Rightarrow> False"
      by code_simp
    then show ?thesis using that by (auto split: sum.splits)
  qed
  moreover have "filter (\<lambda>k. startswith k host_prefix) (map fst demo_hosts) = [''HOST_IDX_10'', ''HOST_IDX_2'']"
    by code_simp
  ultimately show ?thesis using load_hosts_in_order [OF specs] by auto
qed

end
