(* ===== verification/NodePool.thy ===== *)
theory NodePool
  imports Allocator PendingTracker NodeSpec
begin

text \<open>
  \<open>NodePool\<close> of \<open>framework/nodes/node_pool.py\<close>: one process's view of the fleet (an allocator
  per node label) and the file-locked acquisition and release of GPU slots. The state of an
  operation is the pool of the calling process together with the world it shares with the
  other processes. A method body that runs under \<open>_pool_lock\<close> is one function; what other
  threads and processes do while an operation sleeps is the parameter \<open>others\<close>, applied to
  the whole state at every pause. Time passes during pauses only. Message texts are left out;
  \<open>np_event\<close> is the \<open>_slot_released\<close> event and \<open>np_pid\<close> the process identifier.
\<close>

record ssh_session =
  ssh_host :: pyval
  ssh_user :: pyval
  ssh_key_path :: pyval
  ssh_password :: pyval

record node_slot =
  sl_spec :: node_spec
  sl_gpu :: gpu_info
  sl_lock :: gpu_file_lock
  sl_ssh :: "ssh_session option"

record multi_gpu_slots =
  ms_slots :: "node_slot list"
  ms_spec :: node_spec

record node_pool =
  np_specs :: "node_spec list"
  np_allocs :: "(string \<times> gpu_allocator) list"
  np_ssh :: "(string \<times> ssh_session) list"
  np_headroom_gb :: rat
  np_event :: bool
  np_pid :: int

type_synonym 'os state = "node_pool \<times> 'os world"
type_synonym 'os others = "nat \<Rightarrow> 'os state \<Rightarrow> 'os state"

definition new_pool :: "node_spec list \<Rightarrow> rat \<Rightarrow> int \<Rightarrow> node_pool" where
  "new_pool specs headroom pid =
     \<lparr>np_specs = specs, np_allocs = [], np_ssh = [], np_headroom_gb = headroom, np_event = False, np_pid = pid\<rparr>"

definition set_alloc :: "string \<Rightarrow> gpu_allocator \<Rightarrow> node_pool \<Rightarrow> node_pool" where
  "set_alloc label a np = np\<lparr>np_allocs := dict_set label a (np_allocs np)\<rparr>"

abbreviation get_alloc :: "node_pool \<Rightarrow> string \<Rightarrow> gpu_allocator option" where
  "get_alloc np label \<equiv> map_of (np_allocs np) label"

definition slot_gpu_label :: "node_slot \<Rightarrow> string" where
  "slot_gpu_label s = ''GPU-'' @ show_int (gi_index (sl_gpu s))"

definition gpu_indices :: "multi_gpu_slots \<Rightarrow> int list" where
  "gpu_indices m = map (\<lambda>s. gi_index (sl_gpu s)) (ms_slots m)"

definition slots_count :: "multi_gpu_slots \<Rightarrow> nat" where
  "slots_count m = length (ms_slots m)"

subsection \<open>Building the pool\<close>

fun init_from_prefilled :: "(string \<times> gpu_info list) list \<Rightarrow> node_spec list \<Rightarrow> node_pool \<Rightarrow> node_pool" where
  "init_from_prefilled prefilled [] np = np"
| "init_from_prefilled prefilled (spec # specs) np =
     (let gpus = (case map_of prefilled (ns_label spec) of None \<Rightarrow> [] | Some gs \<Rightarrow> gs)
      in init_from_prefilled prefilled specs
           (set_alloc (ns_label spec) (new_allocator gpus (np_headroom_gb np)) np))"

text \<open>
  The architecture filter of \<open>_detect_node\<close>: applied when the node asks for an architecture
  and some detected architecture is known, dropped when it would leave no GPU. Then the detected
  architectures are sorted for the error message, which raises when they cannot be compared.
\<close>

definition arch_filter :: "pyval \<Rightarrow> gpu_info list \<Rightarrow> py_error + gpu_info list" where
  "arch_filter want gpus =
     (if truthy want \<and> (\<exists>g \<in> set gpus. gi_arch g \<noteq> PStr unknown)
      then let filtered = filter (\<lambda>g. py_eq (gi_arch g) want) gpus
           in if filtered \<noteq> [] then Inr filtered
              else if sortable_set (map gi_arch gpus) then Inr gpus else Inl TypeError
      else Inr gpus)"

text \<open>
  \<open>SshExecutor(...)\<close> connects lazily; its constructor raises only when \<open>expanduser\<close> is given a key that
  is not a string, and \<open>_detect_all\<close> then skips the node.
\<close>

definition session_opens :: "node_spec \<Rightarrow> bool" where
  "session_opens spec \<longleftrightarrow> (case ns_ssh_key spec of PStr _ \<Rightarrow> True | v \<Rightarrow> \<not> truthy v)"

text \<open>
  \<open>gpus_of\<close> is the detector's answer for a node. \<open>_detect_all\<close> logs an exception of a node's detection and goes on, so
  that such a node gets no allocator; its SSH session has been opened by then.
\<close>

definition detect_node ::
  "string option \<Rightarrow> (node_spec \<Rightarrow> py_error + gpu_info list) \<Rightarrow> node_spec \<Rightarrow> node_pool \<Rightarrow> node_pool" where
  "detect_node gethostname gpus_of spec np =
     (if \<not> is_local gethostname spec \<and> \<not> session_opens spec then np
      else
        let np1 = (if is_local gethostname spec then np
                   else np\<lparr>np_ssh := dict_set (ns_label spec)
                     \<lparr>ssh_host = ns_hostname spec, ssh_user = ns_username spec,
                      ssh_key_path = ns_ssh_key spec, ssh_password = ns_password spec\<rparr> (np_ssh np)\<rparr>)
        in case sum_bind (gpus_of spec) (arch_filter (ns_gpu_arch spec)) of
             Inl _ \<Rightarrow> np1
           | Inr gpus \<Rightarrow> set_alloc (ns_label spec) (new_allocator gpus (np_headroom_gb np)) np1)"

text \<open>
  The detector's answer; \<open>detector_override\<close> replaces the detection of \<open>GpuDetector\<close>. An unreachable node is
  a host on which every command fails: it is detected with no GPU.
\<close>

definition detected_gpus ::
  "string option \<Rightarrow> (node_spec \<Rightarrow> host) \<Rightarrow> gpu_info list option \<Rightarrow> string option \<Rightarrow> node_spec \<Rightarrow> py_error + gpu_info list" where
  "detected_gpus gethostname hosts override rock spec =
     (case override of
        Some gpus \<Rightarrow> Inr gpus
      | None \<Rightarrow> fst (detect (hosts spec) (new_detector rock (\<not> is_local gethostname spec))))"

text \<open>\<open>_detect_all\<close>: the nodes register in the order in which their detection completes.\<close>

fun detect_all ::
  "string option \<Rightarrow> (node_spec \<Rightarrow> py_error + gpu_info list) \<Rightarrow> node_spec list \<Rightarrow> node_pool \<Rightarrow> node_pool" where
  "detect_all gethostname gpus_of [] np = np"
| "detect_all gethostname gpus_of (spec # specs) np =
     detect_all gethostname gpus_of specs (detect_node gethostname gpus_of spec np)"

subsection \<open>Topology\<close>

definition total_gpu_slots :: "node_pool \<Rightarrow> nat" where
  "total_gpu_slots np = sum_list (map (\<lambda>(_, a). length (ga_pool a)) (np_allocs np))"

definition max_gpus_per_node :: "node_pool \<Rightarrow> nat" where
  "max_gpus_per_node np = foldr max (map (\<lambda>(_, a). length (ga_pool a)) (np_allocs np)) 0"

definition pool_status :: "node_pool \<Rightarrow> nat \<times> nat" where
  "pool_status np =
     (sum_list (map (\<lambda>(_, a). card (ga_available a)) (np_allocs np)), total_gpu_slots np)"

definition pool_size :: "node_pool \<Rightarrow> string \<Rightarrow> nat" where
  "pool_size np label = (case get_alloc np label of None \<Rightarrow> 0 | Some a \<Rightarrow> length (ga_pool a))"

definition topology_summary :: "node_pool \<Rightarrow> string" where
  "topology_summary np =
     join_with '' + ''
       (map (\<lambda>spec. ns_label spec @ ''('' @ show_nat (pool_size np (ns_label spec)) @ '')'') (np_specs np))"

definition has_vram_capacity :: "node_pool \<Rightarrow> rat \<Rightarrow> int \<Rightarrow> string option \<Rightarrow> bool" where
  "has_vram_capacity np req cnt node_label \<longleftrightarrow>
     req \<le> 0 \<or>
     (\<exists>spec \<in> set (np_specs np).
        (case node_label of None \<Rightarrow> True | Some l \<Rightarrow> ns_label spec = l) \<and>
        (case get_alloc np (ns_label spec) of
           None \<Rightarrow> False
         | Some a \<Rightarrow> cnt \<le> int (length (filter (vram_fits (np_headroom_gb np) req) (ga_pool a)))))"

subsection \<open>Pauses\<close>

text \<open>\<open>time.sleep(d)\<close>: the others act, and at least \<open>d\<close> seconds pass.\<close>

definition time_sleep :: "rat \<Rightarrow> 'os others \<Rightarrow> nat \<Rightarrow> 'os state \<Rightarrow> 'os state" where
  "time_sleep d others n s =
     (case others n s of
        (np', w') \<Rightarrow> (np', w'\<lparr>w_clock := max (w_clock w') (w_clock (snd s) + d)\<rparr>))"

text \<open>
  \<open>_slot_released.clear()\<close> and \<open>_slot_released.wait(timeout=d)\<close>: the wait ends early when the
  event is set meanwhile.
\<close>

definition event_wait :: "rat \<Rightarrow> 'os others \<Rightarrow> nat \<Rightarrow> 'os state \<Rightarrow> 'os state" where
  "event_wait d others n s =
     (case others n (case s of (np, w) \<Rightarrow> (np\<lparr>np_event := False\<rparr>, w)) of
        (np', w') \<Rightarrow>
          (np', w'\<lparr>w_clock := max (w_clock w') (if np_event np' then w_clock (snd s) else w_clock (snd s) + d)\<rparr>))"

subsection \<open>acquire_slot\<close>

fun yield_check :: "'os filelock \<Rightarrow> node_pool \<Rightarrow> node_spec list \<Rightarrow> 'os world \<Rightarrow> bool \<times> 'os world" where
  "yield_check fl np [] w = (False, w)"
| "yield_check fl np (spec # specs) w =
     (let idxs = (case get_alloc np (ns_label spec) of None \<Rightarrow> [] | Some a \<Rightarrow> map gi_index (ga_pool a))
      in case should_yield fl (ns_label spec) idxs w of
           (True, w') \<Rightarrow> (True, w')
         | (False, w') \<Rightarrow> yield_check fl np specs w')"

definition make_slot :: "node_pool \<Rightarrow> node_spec \<Rightarrow> gpu_info \<Rightarrow> gpu_file_lock \<Rightarrow> node_slot" where
  "make_slot np spec g lk =
     \<lparr>sl_spec = spec, sl_gpu = g, sl_lock = lk, sl_ssh = map_of (np_ssh np) (ns_label spec)\<rparr>"

text \<open>
  The inner loop over one node: take GPUs in allocation order until one whose file lock is
  free turns up. GPUs whose lock is held elsewhere stay out of the free set and are collected
  in \<open>skipped\<close>.
\<close>

function scan_node ::
  "'os filelock \<Rightarrow> node_pool \<Rightarrow> string \<Rightarrow> rat \<Rightarrow> node_spec \<Rightarrow> gpu_allocator \<Rightarrow> 'os world \<Rightarrow> gpu_info list
     \<Rightarrow> (py_error + node_slot option) \<times> gpu_allocator \<times> 'os world \<times> gpu_info list" where
  "scan_node fl np test_id req spec a w skipped =
     (case allocate_now req a of
        Inl _ \<Rightarrow> (Inr None, a, w, skipped)
      | Inr (g, a') \<Rightarrow>
          (case lock_acquire fl (np_pid np) 0 test_id (new_lock (ns_label spec) (gi_index g)) w of
             (Inr lk, w') \<Rightarrow> (Inr (Some (make_slot np spec g lk)), release_all skipped a', w', skipped)
           | (Inl RuntimeError, w') \<Rightarrow> scan_node fl np test_id req spec a' w' (skipped @ [g])
           | (Inl e, w') \<Rightarrow> (Inl e, a', w', skipped)))"
  by pat_completeness auto
termination
  by (relation "measure (\<lambda>(fl, np, test_id, req, spec, a, w, skipped). length (candidates req a))")
    (auto simp: candidates_shrink)

declare scan_node.simps [simp del]

fun scan_specs ::
  "'os filelock \<Rightarrow> string \<Rightarrow> rat \<Rightarrow> node_spec list \<Rightarrow> 'os state
     \<Rightarrow> (py_error + node_slot) option \<times> 'os state" where
  "scan_specs fl test_id req [] s = (None, s)"
| "scan_specs fl test_id req (spec # specs) (np, w) =
     (case get_alloc np (ns_label spec) of
        None \<Rightarrow> scan_specs fl test_id req specs (np, w)
      | Some a \<Rightarrow>
          (case scan_node fl np test_id req spec a w [] of
             (Inl e, a', w', skipped) \<Rightarrow> (Some (Inl e), set_alloc (ns_label spec) a' np, w')
           | (Inr found, a', w', skipped) \<Rightarrow>
               let np' = set_alloc (ns_label spec) (release_all skipped a') np
               in case found of
                    Some slot \<Rightarrow> (Some (Inr slot), np', w')
                  | None \<Rightarrow> scan_specs fl test_id req specs (np', w')))"

definition acquire_slot_round ::
  "'os filelock \<Rightarrow> string \<Rightarrow> rat \<Rightarrow> 'os state \<Rightarrow> (py_error + node_slot) option \<times> 'os state" where
  "acquire_slot_round fl test_id req s =
     (case s of (np, w) \<Rightarrow>
        (case yield_check fl np (np_specs np) w of
           (True, w') \<Rightarrow> (None, np, w')
         | (False, w') \<Rightarrow> scan_specs fl test_id req (np_specs np) (np, w')))"

definition past :: "rat \<Rightarrow> 'os state \<Rightarrow> bool" where
  "past deadline s \<longleftrightarrow> deadline \<le> w_clock (snd s)"

text \<open>The end of a polling loop: the decided result, or the \<open>RuntimeError\<close> of the deadline.\<close>

definition decided :: "(py_error + 'r) option \<times> 's \<Rightarrow> (py_error + 'r) \<times> 's" where
  "decided p = (case p of (Some r, s) \<Rightarrow> (r, s) | (None, s) \<Rightarrow> (Inl RuntimeError, s))"

definition acquire_slot ::
  "'os others \<Rightarrow> 'os filelock \<Rightarrow> rat \<Rightarrow> rat \<Rightarrow> string \<Rightarrow> 'os state
     \<Rightarrow> ((py_error + node_slot) \<times> 'os state) option" where
  "acquire_slot others fl req wait test_id s =
     (if \<not> has_vram_capacity (fst s) req 1 None then Some (Inl RuntimeError, s)
      else map_option decided
        (poll (acquire_slot_round fl test_id req) (past (w_clock (snd s) + wait))
           (time_sleep (1 / 2) others) 0 s))"

subsection \<open>acquire_slots\<close>

text \<open>\<open>[s for s in node_specs if s.label == node_label] if node_label else node_specs\<close>\<close>

definition candidate_specs :: "node_pool \<Rightarrow> string option \<Rightarrow> node_spec list" where
  "candidate_specs np node_label =
     (case node_label of
        None \<Rightarrow> np_specs np
      | Some l \<Rightarrow> if l = [] then np_specs np else filter (\<lambda>s. ns_label s = l) (np_specs np))"

fun register_all ::
  "'os filelock \<Rightarrow> int \<Rightarrow> rat \<Rightarrow> node_spec list \<Rightarrow> (string \<times> request_id) list \<Rightarrow> 'os world
     \<Rightarrow> (string \<times> request_id) list \<times> 'os world" where
  "register_all fl cnt deadline [] regs w = (regs, w)"
| "register_all fl cnt deadline (spec # specs) regs w =
     (case register fl (ns_label spec) cnt deadline w of
        (req_id, w') \<Rightarrow> register_all fl cnt deadline specs (dict_set (ns_label spec) req_id regs) w')"

fun deregister_all :: "'os filelock \<Rightarrow> (string \<times> request_id) list \<Rightarrow> 'os world \<Rightarrow> 'os world" where
  "deregister_all fl [] w = w"
| "deregister_all fl ((label, req_id) # regs) w = deregister_all fl regs (deregister fl label req_id w)"

text \<open>
  \<open>for _ in range(count)\<close> on one node. The first component is the exception that ended the
  loop, if any; a GPU whose file lock is held is given back before the exception leaves.
\<close>

fun take_slots ::
  "'os filelock \<Rightarrow> node_pool \<Rightarrow> string \<Rightarrow> rat \<Rightarrow> node_spec \<Rightarrow> nat \<Rightarrow> gpu_allocator \<Rightarrow> 'os world
     \<Rightarrow> node_slot list \<Rightarrow> py_error option \<times> gpu_allocator \<times> 'os world \<times> node_slot list" where
  "take_slots fl np test_id req spec 0 a w acquired = (None, a, w, acquired)"
| "take_slots fl np test_id req spec (Suc n) a w acquired =
     (case allocate_now req a of
        Inl e \<Rightarrow> (Some e, a, w, acquired)
      | Inr (g, a') \<Rightarrow>
          (case lock_acquire fl (np_pid np) 0 test_id (new_lock (ns_label spec) (gi_index g)) w of
             (Inr lk, w') \<Rightarrow>
               take_slots fl np test_id req spec n a' w' (acquired @ [make_slot np spec g lk])
           | (Inl RuntimeError, w') \<Rightarrow> (Some RuntimeError, release g a', w', acquired)
           | (Inl e, w') \<Rightarrow> (Some e, a', w', acquired)))"

fun rollback ::
  "'os filelock \<Rightarrow> node_slot list \<Rightarrow> gpu_allocator \<Rightarrow> 'os world \<Rightarrow> gpu_allocator \<times> 'os world" where
  "rollback fl [] a w = (a, w)"
| "rollback fl (slot # slots) a w =
     rollback fl slots (release (sl_gpu slot) a) (snd (lock_release fl (sl_lock slot) w))"

fun slots_round ::
  "'os filelock \<Rightarrow> string \<Rightarrow> rat \<Rightarrow> int \<Rightarrow> node_spec list \<Rightarrow> 'os state
     \<Rightarrow> (py_error + multi_gpu_slots) option \<times> 'os state" where
  "slots_round fl test_id req cnt [] s = (None, s)"
| "slots_round fl test_id req cnt (spec # specs) (np, w) =
     (case get_alloc np (ns_label spec) of
        None \<Rightarrow> slots_round fl test_id req cnt specs (np, w)
      | Some a \<Rightarrow>
          (case take_slots fl np test_id req spec (nat cnt) a w [] of
             (Some RuntimeError, a', w', acquired) \<Rightarrow>
               (case rollback fl acquired a' w' of
                  (a'', w'') \<Rightarrow>
                    slots_round fl test_id req cnt specs (set_alloc (ns_label spec) a'' np, w''))
           | (Some e, a', w', acquired) \<Rightarrow> (Some (Inl e), set_alloc (ns_label spec) a' np, w')
           | (None, a', w', acquired) \<Rightarrow>
               let np' = set_alloc (ns_label spec) a' np
               in if acquired \<noteq> [] then (Some (Inr \<lparr>ms_slots = acquired, ms_spec = spec\<rparr>), np', w')
                  else slots_round fl test_id req cnt specs (np', w')))"

text \<open>\<open>try: <loop> finally: <deregister>\<close>\<close>

definition finally_deregister ::
  "'os filelock \<Rightarrow> (string \<times> request_id) list \<Rightarrow> (py_error + 'r) \<times> 'os state \<Rightarrow> (py_error + 'r) \<times> 'os state" where
  "finally_deregister fl regs p = (case p of (r, np, w) \<Rightarrow> (r, np, deregister_all fl regs w))"

definition acquire_slots ::
  "'os others \<Rightarrow> 'os filelock \<Rightarrow> int \<Rightarrow> string option \<Rightarrow> rat \<Rightarrow> rat \<Rightarrow> string \<Rightarrow> 'os state
     \<Rightarrow> ((py_error + multi_gpu_slots) \<times> 'os state) option" where
  "acquire_slots others fl cnt node_label req wait test_id s =
     (case s of (np, w) \<Rightarrow>
        if \<not> has_vram_capacity np req cnt node_label then Some (Inl RuntimeError, s)
        else
          let deadline = w_clock w + wait;
              specs = candidate_specs np node_label
          in case register_all fl cnt deadline specs [] w of
               (regs, w') \<Rightarrow>
                 map_option (finally_deregister fl regs \<circ> decided)
                   (poll (\<lambda>s. slots_round fl test_id req cnt (candidate_specs (fst s) node_label) s)
                      (past deadline) (time_sleep (1 / 2) others) 0 (np, w')))"

subsection \<open>Acquiring given indices\<close>

definition owner_of :: "node_pool \<Rightarrow> (gpu_allocator \<Rightarrow> bool) \<Rightarrow> node_spec option" where
  "owner_of np P =
     find (\<lambda>spec. case get_alloc np (ns_label spec) of None \<Rightarrow> False | Some a \<Rightarrow> P a) (np_specs np)"

definition owns_index :: "int \<Rightarrow> gpu_allocator \<Rightarrow> bool" where
  "owns_index i a \<longleftrightarrow> (\<exists>g \<in> set (ga_pool a). gi_index g = i)"

text \<open>
  One turn of the loop of \<open>acquire_specific_slot\<close>. The flag of the state says that the loop
  goes round again at once (\<open>continue\<close>), without looking at the deadline: the lock is held
  but its sidecar names no living holder.
\<close>

definition specific_round ::
  "'os filelock \<Rightarrow> string \<Rightarrow> node_spec \<Rightarrow> int \<Rightarrow> 'os state \<times> bool
     \<Rightarrow> (py_error + node_slot) option \<times> 'os state \<times> bool" where
  "specific_round fl test_id spec i st =
     (case st of ((np, w), _) \<Rightarrow>
        (case get_alloc np (ns_label spec) of
           None \<Rightarrow> (None, (np, w), False)
         | Some a \<Rightarrow>
             (case allocate_specific_now i a of
                Inl RuntimeError \<Rightarrow> (None, (np, w), False)
              | Inl e \<Rightarrow> (Some (Inl e), (np, w), False)
              | Inr (g, a') \<Rightarrow>
                  (let lk = new_lock (ns_label spec) i
                   in case lock_acquire fl (np_pid np) 0 test_id lk w of
                        (Inr lk', w') \<Rightarrow>
                          (Some (Inr (make_slot np spec g lk')), (set_alloc (ns_label spec) a' np, w'), False)
                      | (Inl RuntimeError, w') \<Rightarrow>
                          (None, (set_alloc (ns_label spec) (release g a') np, w'), \<not> holder_is_alive lk w')
                      | (Inl e, w') \<Rightarrow> (Some (Inl e), (set_alloc (ns_label spec) a' np, w'), False)))))"

definition specific_expired :: "rat \<Rightarrow> 'os state \<times> bool \<Rightarrow> bool" where
  "specific_expired deadline st \<longleftrightarrow> \<not> snd st \<and> past deadline (fst st)"

definition specific_rest :: "'os others \<Rightarrow> nat \<Rightarrow> 'os state \<times> bool \<Rightarrow> 'os state \<times> bool" where
  "specific_rest others n st =
     (case st of (s, again) \<Rightarrow>
        (if again then time_sleep (1 / 20) others n s else event_wait (1 / 2) others n s, False))"

definition acquire_specific_slot ::
  "'os others \<Rightarrow> 'os filelock \<Rightarrow> int \<Rightarrow> rat \<Rightarrow> string \<Rightarrow> 'os state
     \<Rightarrow> ((py_error + node_slot) \<times> 'os state) option" where
  "acquire_specific_slot others fl i wait test_id s =
     (case s of (np, w) \<Rightarrow>
        (case owner_of np (owns_index i) of
           None \<Rightarrow> Some (Inl ValueError, s)
         | Some spec \<Rightarrow>
             let deadline = w_clock w + wait
             in case register fl (ns_label spec) 1 deadline w of
                  (req_id, w') \<Rightarrow>
                    map_option
                      (\<lambda>(r, st). finally_deregister fl [(ns_label spec, req_id)] (decided (r, fst st)))
                      (poll (specific_round fl test_id spec i) (specific_expired deadline)
                         (specific_rest others) 0 ((np, w'), False))))"

fun take_indices ::
  "'os filelock \<Rightarrow> node_pool \<Rightarrow> string \<Rightarrow> node_spec \<Rightarrow> int list \<Rightarrow> gpu_allocator \<Rightarrow> 'os world
     \<Rightarrow> node_slot list \<Rightarrow> py_error option \<times> gpu_allocator \<times> 'os world \<times> node_slot list" where
  "take_indices fl np test_id spec [] a w acquired = (None, a, w, acquired)"
| "take_indices fl np test_id spec (i # is) a w acquired =
     (case allocate_specific_now i a of
        Inl e \<Rightarrow> (Some e, a, w, acquired)
      | Inr (g, a') \<Rightarrow>
          (case lock_acquire fl (np_pid np) 0 test_id (new_lock (ns_label spec) i) w of
             (Inr lk, w') \<Rightarrow> take_indices fl np test_id spec is a' w' (acquired @ [make_slot np spec g lk])
           | (Inl RuntimeError, w') \<Rightarrow> (Some RuntimeError, release g a', w', acquired)
           | (Inl e, w') \<Rightarrow> (Some e, a', w', acquired)))"

text \<open>\<open>_try_acquire_index_set\<close>: all the indices or none; \<open>None\<close> asks the caller to retry.\<close>

definition try_acquire_index_set ::
  "'os filelock \<Rightarrow> string \<Rightarrow> node_spec \<Rightarrow> int list \<Rightarrow> 'os state
     \<Rightarrow> (py_error + multi_gpu_slots) option \<times> 'os state" where
  "try_acquire_index_set fl test_id spec is s =
     (case s of (np, w) \<Rightarrow>
        (case get_alloc np (ns_label spec) of
           None \<Rightarrow> (None, s)
         | Some a \<Rightarrow>
             (case take_indices fl np test_id spec is a w [] of
                (Some RuntimeError, a', w', acquired) \<Rightarrow>
                  (case rollback fl acquired a' w' of
                     (a'', w'') \<Rightarrow> (None, set_alloc (ns_label spec) a'' np, w''))
              | (Some e, a', w', acquired) \<Rightarrow> (Some (Inl e), set_alloc (ns_label spec) a' np, w')
              | (None, a', w', acquired) \<Rightarrow>
                  (Some (Inr \<lparr>ms_slots = acquired, ms_spec = spec\<rparr>), set_alloc (ns_label spec) a' np, w'))))"

definition acquire_specific_slots ::
  "'os others \<Rightarrow> 'os filelock \<Rightarrow> int list \<Rightarrow> rat \<Rightarrow> string \<Rightarrow> 'os state
     \<Rightarrow> ((py_error + multi_gpu_slots) \<times> 'os state) option" where
  "acquire_specific_slots others fl is wait test_id s =
     (case s of (np, w) \<Rightarrow>
        (case owner_of np (\<lambda>a. \<forall>i \<in> set is. owns_index i a) of
           None \<Rightarrow> Some (Inl ValueError, s)
         | Some spec \<Rightarrow>
             let deadline = w_clock w + wait
             in case register fl (ns_label spec) (int (length is)) deadline w of
                  (req_id, w') \<Rightarrow>
                    map_option (finally_deregister fl [(ns_label spec, req_id)] \<circ> decided)
                      (poll (try_acquire_index_set fl test_id spec is) (past deadline)
                         (event_wait (1 / 2) others) 0 (np, w'))))"

subsection \<open>Several nodes, release, shutdown\<close>

definition gpu_count_all :: string where
  "gpu_count_all = ''all''"

definition wants_all :: "pyval \<Rightarrow> bool" where
  "wants_all v = (case v of PStr s \<Rightarrow> py_lower (py_strip s) = gpu_count_all | _ \<Rightarrow> False)"

fun multi_node_loop ::
  "'os others \<Rightarrow> 'os filelock \<Rightarrow> pyval \<Rightarrow> rat \<Rightarrow> rat \<Rightarrow> string \<Rightarrow> node_spec list \<Rightarrow> multi_gpu_slots list
     \<Rightarrow> 'os state \<Rightarrow> ((py_error + multi_gpu_slots list) \<times> 'os state) option" where
  "multi_node_loop others fl per_node req wait test_id [] result s = Some (Inr result, s)"
| "multi_node_loop others fl per_node req wait test_id (spec # specs) result s =
     (case (if wants_all per_node then Inr (int (pool_size (fst s) (ns_label spec))) else py_int per_node) of
        Inl e \<Rightarrow> Some (Inl e, s)
      | Inr cnt \<Rightarrow>
          (case acquire_slots others fl cnt (Some (ns_label spec)) req wait test_id s of
             None \<Rightarrow> None
           | Some (Inl e, s') \<Rightarrow> Some (Inl e, s')
           | Some (Inr slots, s') \<Rightarrow>
               multi_node_loop others fl per_node req wait test_id specs (result @ [slots]) s'))"

definition acquire_multi_node ::
  "'os others \<Rightarrow> 'os filelock \<Rightarrow> pyval \<Rightarrow> rat \<Rightarrow> rat \<Rightarrow> string \<Rightarrow> 'os state
     \<Rightarrow> ((py_error + multi_gpu_slots list) \<times> 'os state) option" where
  "acquire_multi_node others fl per_node req wait test_id s =
     multi_node_loop others fl per_node req wait test_id (np_specs (fst s)) [] s"

text \<open>Releasing returns the slots too: their lock objects are no longer locked.\<close>

fun release_slots ::
  "'os filelock \<Rightarrow> node_slot list \<Rightarrow> 'os state \<Rightarrow> node_slot list \<times> 'os state" where
  "release_slots fl [] s = ([], s)"
| "release_slots fl (slot # slots) (np, w) =
     (let label = ns_label (sl_spec slot);
          np' = (case get_alloc np label of
                   None \<Rightarrow> np
                 | Some a \<Rightarrow> set_alloc label (release (sl_gpu slot) a) np)
      in case lock_release fl (sl_lock slot) w of
           (lk', w') \<Rightarrow>
             (case release_slots fl slots (np', w') of
                (slots', s') \<Rightarrow> (slot\<lparr>sl_lock := lk'\<rparr> # slots', s')))"

definition pool_release :: "'os filelock \<Rightarrow> node_slot list \<Rightarrow> 'os state \<Rightarrow> node_slot list \<times> 'os state" where
  "pool_release fl slots s =
     (case release_slots fl slots s of
        (slots', np, w) \<Rightarrow> (slots', np\<lparr>np_event := True\<rparr>, w))"

definition release_multi :: "'os filelock \<Rightarrow> multi_gpu_slots \<Rightarrow> 'os state \<Rightarrow> multi_gpu_slots \<times> 'os state" where
  "release_multi fl multi s =
     (case pool_release fl (ms_slots multi) s of (slots', s') \<Rightarrow> (multi\<lparr>ms_slots := slots'\<rparr>, s'))"

definition close_ssh_sessions :: "node_pool \<Rightarrow> node_pool" where
  "close_ssh_sessions np = np\<lparr>np_ssh := []\<rparr>"

end
