(* ===== verification/PoolProps.thy ===== *)
theory PoolProps
  imports NodePool
begin

text \<open>
  What the acquisition operations of the node pool do to the allocators and to the file
  locks. Every lemma assumes the \<open>filelock\<close> contract \<open>filelock_ok fl held\<close> and the allocator
  invariant.
\<close>

subsection \<open>Locks and slots\<close>

abbreviation gpu_lock :: "node_spec \<Rightarrow> gpu_info \<Rightarrow> string" where
  "gpu_lock spec g \<equiv> lock_path (ns_label spec) (gi_index g)"

definition slot_path :: "node_slot \<Rightarrow> string" where
  "slot_path s = fk_lock_path (sl_lock s)"

lemma new_lock_sel [simp]:
  "fk_lock_path (new_lock l i) = lock_path l i" "fk_info_path (new_lock l i) = info_path l i"
  "fk_locked (new_lock l i) = False"
  by (simp_all add: new_lock_def)

lemma make_slot_sel [simp]:
  "sl_spec (make_slot np spec g lk) = spec" "sl_gpu (make_slot np spec g lk) = g"
  "sl_lock (make_slot np spec g lk) = lk"
  by (simp_all add: make_slot_def)

text \<open>A slot as the pool hands it out: its lock is the lock of its GPU, and it is locked.\<close>

definition slot_ok :: "node_slot \<Rightarrow> bool" where
  "slot_ok s \<longleftrightarrow> sl_lock s = (new_lock (ns_label (sl_spec s)) (gi_index (sl_gpu s)))\<lparr>fk_locked := True\<rparr>"

lemma slot_ok_path: "slot_ok s \<Longrightarrow> slot_path s = gpu_lock (sl_spec s) (sl_gpu s)"
  by (simp add: slot_ok_def slot_path_def)

lemma slot_ok_locked: "slot_ok s \<Longrightarrow> fk_locked (sl_lock s)"
  by (simp add: slot_ok_def)

subsection \<open>Scanning one node\<close>

lemma scan_node_sound:
  assumes ok: "filelock_ok fl held" and inv: "alloc_inv a0"
  shows "scan_node fl np tid req spec a w sk = (r, a', w', sk') \<Longrightarrow> any_gpu.taken req a0 sk a \<Longrightarrow>
    \<forall>g \<in> set sk. w_held held w (gpu_lock spec g) \<Longrightarrow>
    same_frame w w' \<and>
    (case r of
       Inl e \<Rightarrow> e = OSError \<and> w_held held w' = w_held held w \<and> (\<exists>gs. any_gpu.taken req a0 gs a')
     | Inr None \<Rightarrow> any_gpu.taken req a0 sk' a' \<and> w_held held w' = w_held held w \<and> w_info w' = w_info w \<and>
         (\<forall>g \<in> set (ga_pool a'). \<not> eligible req a' g) \<and> (\<forall>g \<in> set sk'. w_held held w (gpu_lock spec g))
     | Inr (Some slot) \<Rightarrow> \<exists>b. any_gpu.taken req a0 (sk' @ [sl_gpu slot]) b \<and> a' = release_all sk' b \<and>
         slot_ok slot \<and> sl_spec slot = spec \<and> \<not> w_held held w (slot_path slot) \<and>
         w_held held w' = (w_held held w)(slot_path slot := True) \<and>
         (\<forall>g \<in> set sk'. w_held held w (gpu_lock spec g)))"
  using ok
proof (induction fl np tid req spec a w sk arbitrary: r a' w' sk' rule: scan_node.induct)
  case (1 fl np tid req spec a w sk)
  note ok = \<open>filelock_ok fl held\<close>
  show ?case
  proof (cases "allocate_now req a")
    case (Inl e)
    with 1 show ?thesis
      by (auto simp: scan_node.simps [of fl np tid req spec a w sk] allocate_now_Inl)
  next
    case (Inr p)
    obtain g a1 where p: "p = (g, a1)" by (cases p)
    let ?lk = "new_lock (ns_label spec) (gi_index g)"
    obtain q w1 where l: "lock_acquire fl (np_pid np) 0 tid ?lk w = (q, w1)"
      by (cases "lock_acquire fl (np_pid np) 0 tid ?lk w")
    note step = scan_node.simps [of fl np tid req spec a w sk]
    have taken1: "any_gpu.taken req a0 (sk @ [g]) a1"
      using "1.prems"(2) Inr p by (auto intro: any_gpu.taken_snoc)
    show ?thesis
    proof (cases q)
      case (Inr lk)
      note acq = lock_acquire_Inr [OF ok l [unfolded Inr]]
      from "1.prems"(1) \<open>allocate_now req a = Inr p\<close> p l Inr
      have eq: "r = Inr (Some (make_slot np spec g lk))" "a' = release_all sk a1" "w' = w1" "sk' = sk"
        by (auto simp: step)
      from taken1 acq eq "1.prems"(3) lock_acquire_frame [OF l] show ?thesis
        by (auto simp: slot_ok_def slot_path_def)
    next
      case (Inl e)
      note fail = lock_acquire_Inl [OF ok l [unfolded Inl]]
      show ?thesis
      proof (cases "e = RuntimeError")
        case True
        have rec: "scan_node fl np tid req spec a1 w1 (sk @ [g]) = (r, a', w', sk')"
          using "1.prems"(1) \<open>allocate_now req a = Inr p\<close> p l Inl True by (simp add: step)
        have held1: "\<forall>g \<in> set (sk @ [g]). w_held held w1 (gpu_lock spec g)"
          using "1.prems"(3) fail True by auto
        have "same_frame w w1" by (rule lock_acquire_frame [OF l])
        with "1.IH" [OF \<open>allocate_now req a = Inr p\<close> p [symmetric] l [symmetric] Inl True rec taken1 held1 ok]
        show ?thesis unfolding fail(1,2) by (blast intro: same_frame_trans)
      next
        case False
        with fail(4) have "e = OSError" by simp
        with "1.prems"(1) \<open>allocate_now req a = Inr p\<close> p l Inl fail lock_acquire_frame [OF l] taken1
        show ?thesis by (auto simp: step)
      qed
    qed
  qed
qed

lemma taken_restored: "any_gpu.taken req a sk b \<Longrightarrow> alloc_inv a \<Longrightarrow> release_all sk b = a"
  using any_gpu.give_all_taken by (simp add: fold_release)

lemma taken_all_but_last:
  assumes "any_gpu.taken req a (sk @ [g]) b" and "alloc_inv a"
  shows "release_all sk b = discard (gi_index g) a"
proof (rule allocator_eqI)
  from any_gpu.taken_distinct [OF assms] any_gpu.taken_free [OF assms]
  show "ga_available (release_all sk b) = ga_available (discard (gi_index g) a)" by auto
qed (use taken_frame [OF assms(1)] in simp_all)

text \<open>
  The scan of a node finds a slot exactly when some eligible GPU has a free lock, and then it
  is the first such GPU in the order of NUMA node and index. Either way the skipped GPUs are
  back in the free set.
\<close>

lemma scan_node_found:
  assumes ok: "filelock_ok fl held" and inv: "alloc_inv a"
    and scan: "scan_node fl np tid req spec a w [] = (Inr (Some slot), a', w', sk)"
  shows "release_all sk a' = discard (gi_index (sl_gpu slot)) a"
    and "sl_gpu slot \<in> set (ga_pool a)" and "eligible req a (sl_gpu slot)"
    and "slot_ok slot" and "sl_spec slot = spec" and "\<not> w_held held w (slot_path slot)"
    and "w_held held w' = (w_held held w)(slot_path slot := True)" and "same_frame w w'"
    and "\<And>g. g \<in> set (ga_pool a) \<Longrightarrow> eligible req a g \<Longrightarrow> \<not> w_held held w (gpu_lock spec g)
      \<Longrightarrow> numa_key (sl_gpu slot) \<le> numa_key g"
proof -
  let ?g = "sl_gpu slot"
  from scan_node_sound [OF ok inv scan any_gpu.taken_Nil] obtain b where
    tk: "any_gpu.taken req a (sk @ [?g]) b" and a': "a' = release_all sk b"
    and s: "slot_ok slot" "sl_spec slot = spec" "\<not> w_held held w (slot_path slot)"
      "w_held held w' = (w_held held w)(slot_path slot := True)" "same_frame w w'"
    and busy: "\<forall>g \<in> set sk. w_held held w (gpu_lock spec g)"
    by auto
  show "release_all sk a' = discard (gi_index ?g) a"
    unfolding a' release_all_idem by (rule taken_all_but_last [OF tk inv])
  show "?g \<in> set (ga_pool a)" "eligible req a ?g"
    using taken_subset [OF tk] by auto
  show "slot_ok slot" "sl_spec slot = spec" "\<not> w_held held w (slot_path slot)"
    "w_held held w' = (w_held held w)(slot_path slot := True)" "same_frame w w'"
    using s by blast+
  fix g assume g: "g \<in> set (ga_pool a)" "eligible req a g" "\<not> w_held held w (gpu_lock spec g)"
  obtain c where c: "any_gpu.taken req a sk c" "allocate_now req c = Inr (?g, b)"
    using tk by (rule any_gpu.taken_snocE)
  have "gi_index g \<notin> gi_index ` set sk" using busy g(3) by auto
  with g taken_eligible [OF c(1) inv] taken_frame [OF c(1)]
  have "g \<in> set (ga_pool c)" "eligible req c g" by auto
  then show "numa_key ?g \<le> numa_key g" by (rule allocate_now_Inr(4) [OF c(2)])
qed

lemma scan_node_none:
  assumes ok: "filelock_ok fl held" and inv: "alloc_inv a"
    and scan: "scan_node fl np tid req spec a w [] = (Inr None, a', w', sk)"
  shows "release_all sk a' = a" and "w_held held w' = w_held held w" and "w_info w' = w_info w"
    and "same_frame w w'"
    and "\<And>g. g \<in> set (ga_pool a) \<Longrightarrow> eligible req a g \<Longrightarrow> w_held held w (gpu_lock spec g)"
proof -
  from scan_node_sound [OF ok inv scan any_gpu.taken_Nil]
  have tk: "any_gpu.taken req a sk a'" and s: "w_held held w' = w_held held w" "w_info w' = w_info w" "same_frame w w'"
    and none: "\<forall>g \<in> set (ga_pool a'). \<not> eligible req a' g" and busy: "\<forall>g \<in> set sk. w_held held w (gpu_lock spec g)"
    by auto
  show "release_all sk a' = a" by (rule taken_restored [OF tk inv])
  show "w_held held w' = w_held held w" "w_info w' = w_info w" "same_frame w w'" using s by blast+
  fix g assume "g \<in> set (ga_pool a)" "eligible req a g"
  with none taken_eligible [OF tk inv, of g] taken_frame [OF tk] obtain g' where
    "g' \<in> set sk" "gi_index g' = gi_index g" by auto
  with busy show "w_held held w (gpu_lock spec g)" by auto
qed

lemma scan_node_error:
  assumes "filelock_ok fl held" and "alloc_inv a"
    and "scan_node fl np tid req spec a w [] = (Inl e, a', w', sk)"
  shows "e = OSError" and "w_held held w' = w_held held w" and "same_frame w w'"
    and "\<exists>gs. any_gpu.taken req a gs a'"
  using scan_node_sound [OF assms any_gpu.taken_Nil] by auto

subsection \<open>Scanning all nodes\<close>

definition pool_inv :: "node_pool \<Rightarrow> bool" where
  "pool_inv np \<longleftrightarrow>
     (\<forall>l a. get_alloc np l = Some a \<longrightarrow> alloc_inv a \<and> ga_headroom_gb a = np_headroom_gb np)"

lemma pool_invD: "pool_inv np \<Longrightarrow> get_alloc np l = Some a \<Longrightarrow> alloc_inv a"
  by (simp add: pool_inv_def)

lemma set_alloc_sel [simp]:
  "np_specs (set_alloc l a np) = np_specs np" "np_ssh (set_alloc l a np) = np_ssh np"
  "np_headroom_gb (set_alloc l a np) = np_headroom_gb np" "np_pid (set_alloc l a np) = np_pid np"
  "np_event (set_alloc l a np) = np_event np"
  "get_alloc (set_alloc l a np) k = (if k = l then Some a else get_alloc np k)"
  by (simp_all add: set_alloc_def)

lemma set_alloc_same: "get_alloc np l = Some a \<Longrightarrow> set_alloc l a np = np"
  by (simp add: set_alloc_def update_same)

lemma set_alloc_twice: "set_alloc l a (set_alloc l b np) = set_alloc l a np"
  by (simp add: set_alloc_def update_update)

lemma set_alloc_inv:
  "pool_inv np \<Longrightarrow> alloc_inv a \<Longrightarrow> ga_headroom_gb a = np_headroom_gb np \<Longrightarrow> pool_inv (set_alloc l a np)"
  by (auto simp: pool_inv_def)

lemma set_alloc_discard_inv:
  "pool_inv np \<Longrightarrow> get_alloc np l = Some a \<Longrightarrow> pool_inv (set_alloc l (discard i a) np)"
  by (rule set_alloc_inv) (auto simp: pool_inv_def)

text \<open>A pool some of whose free GPUs are gone: the state after an I/O error of a lock file.\<close>

definition shrunk :: "node_pool \<Rightarrow> node_pool \<Rightarrow> bool" where
  "shrunk np np' \<longleftrightarrow>
     (\<exists>l a a'. get_alloc np l = Some a \<and> np' = set_alloc l a' np \<and> ga_pool a' = ga_pool a \<and>
        ga_headroom_gb a' = ga_headroom_gb a \<and> ga_available a' \<subseteq> ga_available a)"

lemma shrunkI:
  assumes "get_alloc np l = Some a" and "any_gpu.taken req a gs a'" and "alloc_inv a"
  shows "shrunk np (set_alloc l a' np)"
  unfolding shrunk_def
  by (intro exI [of _ l] exI [of _ a] exI [of _ a'])
    (use assms taken_frame [OF assms(2)] any_gpu.taken_free [OF assms(2,3)] in auto)

lemma shrunk_inv: "shrunk np np' \<Longrightarrow> pool_inv np \<Longrightarrow> pool_inv np'"
  unfolding shrunk_def
  by (elim exE conjE, hypsubst, rule set_alloc_inv) (fastforce simp: pool_inv_def alloc_inv_def)+

text \<open>A pool built from detected or prefilled GPUs with distinct indices satisfies the invariant.\<close>

lemma new_pool_inv: "pool_inv (new_pool specs headroom pid)"
  by (simp add: pool_inv_def new_pool_def)

lemma new_allocator_headroom [simp]: "ga_headroom_gb (new_allocator gs h) = h"
  by (simp add: new_allocator_def)

lemma init_from_prefilled_inv:
  "pool_inv np \<Longrightarrow> (\<And>l gs. map_of prefilled l = Some gs \<Longrightarrow> distinct (map gi_index gs)) \<Longrightarrow>
     pool_inv (init_from_prefilled prefilled specs np)"
proof (induction specs arbitrary: np)
  case (Cons spec specs)
  have "distinct (map gi_index (case map_of prefilled (ns_label spec) of None \<Rightarrow> [] | Some gs \<Rightarrow> gs))"
    using Cons.prems(2) by (auto split: option.splits)
  with Cons show ?case by (auto simp: Let_def intro!: Cons.IH set_alloc_inv new_allocator_inv)
qed simp

lemma arch_filter_distinct:
  "arch_filter want gs = Inr gpus \<Longrightarrow> distinct (map gi_index gs) \<Longrightarrow> distinct (map gi_index gpus)"
  by (auto simp: arch_filter_def Let_def distinct_map_filter split: if_splits)

text \<open>What a node adds to the pool: nothing, a session only, or an allocator of distinct GPUs.\<close>

lemma detect_node_cases:
  assumes "\<And>gs. gpus_of spec = Inr gs \<Longrightarrow> distinct (map gi_index gs)"
  obtains x where "detect_node gethostname gpus_of spec np = np\<lparr>np_ssh := x\<rparr>"
  | x gpus where "distinct (map gi_index gpus)"
      "detect_node gethostname gpus_of spec np
         = set_alloc (ns_label spec) (new_allocator gpus (np_headroom_gb np)) (np\<lparr>np_ssh := x\<rparr>)"
proof -
  have same: "\<exists>x. np = np\<lparr>np_ssh := x\<rparr>" "\<exists>x. set_alloc l a np = set_alloc l a (np\<lparr>np_ssh := x\<rparr>)" for l a
    by (rule exI [of _ "np_ssh np"], simp)+
  show thesis
  proof (cases "sum_bind (gpus_of spec) (arch_filter (ns_gpu_arch spec))")
    case (Inl e)
    then have "\<exists>x. detect_node gethostname gpus_of spec np = np\<lparr>np_ssh := x\<rparr>"
      using same(1) by (auto simp: detect_node_def Let_def)
    then show thesis using that(1) by blast
  next
    case (Inr gpus)
    with assms have d: "distinct (map gi_index gpus)" by (auto simp: sum_bind_Inr intro: arch_filter_distinct)
    have "(\<exists>x. detect_node gethostname gpus_of spec np = np\<lparr>np_ssh := x\<rparr>) \<or>
      (\<exists>x. detect_node gethostname gpus_of spec np
         = set_alloc (ns_label spec) (new_allocator gpus (np_headroom_gb np)) (np\<lparr>np_ssh := x\<rparr>))"
      using Inr same by (auto simp: detect_node_def Let_def)
    with that d show thesis by blast
  qed
qed

lemma detect_node_inv:
  assumes "pool_inv np" and "\<And>gs. gpus_of spec = Inr gs \<Longrightarrow> distinct (map gi_index gs)"
  shows "pool_inv (detect_node gethostname gpus_of spec np)"
proof -
  have ssh: "pool_inv (np\<lparr>np_ssh := x\<rparr>)" for x using assms(1) by (simp add: pool_inv_def)
  show ?thesis
    by (rule detect_node_cases [of gpus_of spec gethostname np, OF assms(2)])
      (use ssh in \<open>auto intro!: set_alloc_inv new_allocator_inv\<close>)
qed

lemma detect_all_inv:
  "pool_inv np \<Longrightarrow> (\<And>spec gs. gpus_of spec = Inr gs \<Longrightarrow> distinct (map gi_index gs)) \<Longrightarrow>
     pool_inv (detect_all gethostname gpus_of specs np)"
  by (induction specs arbitrary: np) (auto intro: detect_node_inv)

lemma scan_specs_sound:
  assumes "filelock_ok fl held"
  shows "scan_specs fl tid req specs (np, w) = (r, np', w') \<Longrightarrow> pool_inv np \<Longrightarrow>
    same_frame w w' \<and>
    (case r of
       None \<Rightarrow> np' = np \<and> w_held held w' = w_held held w \<and> w_info w' = w_info w \<and>
         (\<forall>spec \<in> set specs. \<forall>a. get_alloc np (ns_label spec) = Some a \<longrightarrow>
            (\<forall>g \<in> set (ga_pool a). eligible req a g \<longrightarrow> w_held held w (gpu_lock spec g)))
     | Some (Inl e) \<Rightarrow> e = OSError \<and> w_held held w' = w_held held w \<and> shrunk np np'
     | Some (Inr slot) \<Rightarrow> slot_ok slot \<and> sl_spec slot \<in> set specs \<and>
         (\<exists>a. get_alloc np (ns_label (sl_spec slot)) = Some a \<and> sl_gpu slot \<in> set (ga_pool a) \<and>
            eligible req a (sl_gpu slot) \<and>
            np' = set_alloc (ns_label (sl_spec slot)) (discard (gi_index (sl_gpu slot)) a) np \<and>
            (\<forall>g \<in> set (ga_pool a). eligible req a g \<and> \<not> w_held held w (gpu_lock (sl_spec slot) g)
               \<longrightarrow> numa_key (sl_gpu slot) \<le> numa_key g)) \<and>
         \<not> w_held held w (slot_path slot) \<and> w_held held w' = (w_held held w)(slot_path slot := True))"
proof (induction specs arbitrary: np w)
  case Nil
  then show ?case by simp
next
  case (Cons spec specs)
  note inv = pool_invD [OF Cons.prems(2)]
  show ?case
  proof (cases "get_alloc np (ns_label spec)")
    case None
    with Cons.prems have "scan_specs fl tid req specs (np, w) = (r, np', w')" by simp
    from Cons.IH [OF this Cons.prems(2)] None show ?thesis
      by (auto split: option.splits sum.splits)
  next
    case (Some a)
    obtain res a1 w1 sk where sc: "scan_node fl np tid req spec a w [] = (res, a1, w1, sk)"
      by (metis prod.exhaust)
    consider (Err) e where "res = Inl e" | (Found) slot where "res = Inr (Some slot)" | (No) "res = Inr None"
      by (metis not_Some_eq sum.exhaust)
    then show ?thesis
    proof cases
      case Err
      from scan_node_error [OF assms inv [OF Some] sc [unfolded Err]] Cons.prems Some sc Err show ?thesis
        by (auto intro: shrunkI [OF _ _ inv])
    next
      case Found
      note f = scan_node_found [OF assms inv [OF Some] sc [unfolded Found]]
      from Cons.prems Some sc Found have
        "r = Some (Inr slot)" "np' = set_alloc (ns_label spec) (release_all sk a1) np" "w' = w1"
        by (auto simp: Let_def)
      with f Some show ?thesis by auto
    next
      case No
      note n = scan_node_none [OF assms inv [OF Some] sc [unfolded No]]
      have "scan_specs fl tid req specs (np, w1) = (r, np', w')"
        using Cons.prems Some sc No n(1) by (simp add: Let_def set_alloc_same)
      from Cons.IH [OF this Cons.prems(2)] n Some show ?thesis
        by (auto split: option.splits sum.splits intro: same_frame_trans)
    qed
  qed
qed

text \<open>
  The cause of an \<open>OSError\<close>: the attempt to lock the file of a GPU of one of the nodes failed, and it was the last thing
  that happened.
\<close>

definition lock_failed :: "'os filelock \<Rightarrow> node_spec list \<Rightarrow> node_pool \<Rightarrow> 'os world \<Rightarrow> bool" where
  "lock_failed fl specs np w' \<longleftrightarrow>
     (\<exists>spec \<in> set specs. \<exists>a. get_alloc np (ns_label spec) = Some a \<and>
        (\<exists>g \<in> set (ga_pool a). \<exists>os. fl_acquire fl 0 (gpu_lock spec g) os = (IOFailed, w_os w')))"

lemma no_lock_failed: "no_io_failure fl \<Longrightarrow> \<not> lock_failed fl specs np w"
  unfolding lock_failed_def no_io_failure_def by (metis fst_conv)

lemma lock_acquire_io:
  assumes "lock_acquire fl pid t tid lk w = (Inl e, w')" and "e \<noteq> RuntimeError"
  shows "fl_acquire fl t (fk_lock_path lk) (w_os w) = (IOFailed, w_os w')"
  using assms by (auto simp: lock_acquire_def split: prod.splits lock_outcome.splits)

lemma scan_node_io:
  "scan_node fl np tid req spec a w sk = (Inl e, a', w', sk') \<Longrightarrow>
     \<exists>g \<in> set (ga_pool a). \<exists>os. fl_acquire fl 0 (gpu_lock spec g) os = (IOFailed, w_os w')"
proof (induction fl np tid req spec a w sk arbitrary: a' w' sk' rule: scan_node.induct)
  case (1 fl np tid req spec a w sk)
  note step = scan_node.simps [of fl np tid req spec a w sk]
  obtain g a1 where alloc: "allocate_now req a = Inr (g, a1)"
    using "1.prems" by (cases "allocate_now req a") (auto simp: step)
  note g = allocate_now_Inr [OF alloc]
  let ?lk = "new_lock (ns_label spec) (gi_index g)"
  obtain q w1 where l: "lock_acquire fl (np_pid np) 0 tid ?lk w = (q, w1)"
    by (cases "lock_acquire fl (np_pid np) 0 tid ?lk w")
  show ?case
  proof (cases "q = Inl RuntimeError")
    case True
    with "1.prems" alloc l have "scan_node fl np tid req spec a1 w1 (sk @ [g]) = (Inl e, a', w', sk')" by (simp add: step)
    from "1.IH" [OF alloc refl l [symmetric] True refl this] g(3) show ?thesis by simp
  next
    case False
    with "1.prems" alloc l obtain e' where "q = Inl e'" "e' \<noteq> RuntimeError" "w' = w1"
      by (cases q) (auto simp: step split: py_error.splits)
    with lock_acquire_io [of fl "np_pid np" 0 tid ?lk w e' w1] l g(1) show ?thesis by auto
  qed
qed

lemma scan_specs_io:
  assumes ok: "filelock_ok fl held"
  shows "scan_specs fl tid req specs (np, w) = (Some (Inl e), np', w') \<Longrightarrow> pool_inv np \<Longrightarrow> lock_failed fl specs np w'"
proof (induction specs arbitrary: w)
  case (Cons spec specs)
  have more: "lock_failed fl specs np w' \<Longrightarrow> lock_failed fl (spec # specs) np w'" by (auto simp: lock_failed_def)
  show ?case
  proof (cases "get_alloc np (ns_label spec)")
    case None
    with Cons more show ?thesis by simp
  next
    case (Some a)
    obtain res a1 w1 sk where sc: "scan_node fl np tid req spec a w [] = (res, a1, w1, sk)" by (metis prod.exhaust)
    consider (Err) e' where "res = Inl e'" | (Found) slot where "res = Inr (Some slot)" | (No) "res = Inr None"
      by (metis not_Some_eq sum.exhaust)
    then show ?thesis
    proof cases
      case Err
      with scan_node_io [OF sc [unfolded Err]] Cons.prems Some sc show ?thesis by (auto simp: lock_failed_def)
    next
      case Found
      with Cons.prems Some sc show ?thesis by (simp add: Let_def)
    next
      case No
      note n = scan_node_none [OF ok pool_invD [OF Cons.prems(2) Some] sc [unfolded No]]
      have "scan_specs fl tid req specs (np, w1) = (Some (Inl e), np', w')"
        using Cons.prems Some sc No n(1) by (simp add: Let_def set_alloc_same)
      with Cons.IH Cons.prems(2) more show ?thesis by blast
    qed
  qed
qed simp

subsection \<open>One turn of acquire\_slot\<close>

lemma yield_check_same:
  assumes "filelock_ok fl held"
  shows "gpu_locks_same held w (snd (yield_check fl np specs w))"
proof (induction specs arbitrary: w)
  case (Cons spec specs)
  let ?idxs = "case get_alloc np (ns_label spec) of None \<Rightarrow> [] | Some a \<Rightarrow> map gi_index (ga_pool a)"
  obtain y w1 where y: "should_yield fl (ns_label spec) ?idxs w = (y, w1)" by (cases "should_yield fl (ns_label spec) ?idxs w")
  from should_yield_same [OF assms, of w "ns_label spec" ?idxs] y have "gpu_locks_same held w w1" by simp
  with Cons.IH [of w1] y show ?case
    by (cases y) (auto simp: Let_def intro: gpu_locks_same_trans)
qed simp

lemma same_locks:
  assumes "gpu_locks_same held w w1"
  shows "w_held held w1 (lock_path l i) = w_held held w (lock_path l i)" "w_info w1 = w_info w"
  using assms by (simp_all add: gpu_locks_same_def)

text \<open>
  What a granted slot means: before the grant its GPU was free in the process's allocator,
  large enough, and its lock file was free; no eligible GPU with a free lock on that node comes
  earlier in the allocation order; the grant takes exactly this GPU and locks exactly this file.
\<close>

definition grants_slot ::
  "('os \<Rightarrow> string \<Rightarrow> bool) \<Rightarrow> rat \<Rightarrow> 'os state \<Rightarrow> node_slot \<Rightarrow> 'os state \<Rightarrow> bool" where
  "grants_slot held req s slot s' \<longleftrightarrow>
     slot_ok slot \<and> sl_spec slot \<in> set (np_specs (fst s)) \<and>
     (\<exists>a. get_alloc (fst s) (ns_label (sl_spec slot)) = Some a \<and> sl_gpu slot \<in> set (ga_pool a) \<and>
        eligible req a (sl_gpu slot) \<and>
        fst s' = set_alloc (ns_label (sl_spec slot)) (discard (gi_index (sl_gpu slot)) a) (fst s) \<and>
        (\<forall>g \<in> set (ga_pool a). eligible req a g \<and> \<not> w_held held (snd s) (gpu_lock (sl_spec slot) g)
           \<longrightarrow> numa_key (sl_gpu slot) \<le> numa_key g)) \<and>
     \<not> w_held held (snd s) (slot_path slot) \<and>
     (\<forall>l i. w_held held (snd s') (lock_path l i) \<longleftrightarrow>
        w_held held (snd s) (lock_path l i) \<or> lock_path l i = slot_path slot)"

text \<open>No node has a GPU that is free in the process's allocator, large enough and not locked.\<close>

definition nothing_free :: "('os \<Rightarrow> string \<Rightarrow> bool) \<Rightarrow> rat \<Rightarrow> 'os state \<Rightarrow> bool" where
  "nothing_free held req s \<longleftrightarrow>
     (\<forall>spec \<in> set (np_specs (fst s)). \<forall>a. get_alloc (fst s) (ns_label spec) = Some a \<longrightarrow>
        (\<forall>g \<in> set (ga_pool a). eligible req a g \<longrightarrow> w_held held (snd s) (gpu_lock spec g)))"

lemma slot_round_cases:
  assumes ok: "filelock_ok fl held" and inv: "pool_inv np"
    and round: "acquire_slot_round fl tid req (np, w) = (r, np', w')"
  obtains (None) "r = None" "np' = np" "gpu_locks_same held w w'"
      "fst (yield_check fl np (np_specs np) w) \<or> nothing_free held req (np, w)"
  | (Err) "r = Some (Inl OSError)" "shrunk np np'"
      "\<forall>l i. w_held held w' (lock_path l i) = w_held held w (lock_path l i)" "lock_failed fl (np_specs np) np w'"
  | (Slot) slot where "r = Some (Inr slot)" "grants_slot held req (np, w) slot (np', w')"
proof -
  obtain y w1 where y: "yield_check fl np (np_specs np) w = (y, w1)" by (cases "yield_check fl np (np_specs np) w")
  from yield_check_same [OF ok, of w np "np_specs np"] y have same: "gpu_locks_same held w w1" by simp
  show thesis
  proof (cases y)
    case True
    with round y same show thesis by (intro None) (auto simp: acquire_slot_round_def)
  next
    case False
    with round y have "scan_specs fl tid req (np_specs np) (np, w1) = (r, np', w')"
      by (simp add: acquire_slot_round_def)
    note io = scan_specs_io [OF ok, of tid req "np_specs np" np w1 _ np' w']
    note scan = \<open>scan_specs fl tid req (np_specs np) (np, w1) = (r, np', w')\<close>
    note sc = scan_specs_sound [OF ok scan inv]
    consider "r = None" | e where "r = Some (Inl e)" | slot where "r = Some (Inr slot)"
      by (metis option.exhaust sum.exhaust)
    then show thesis
    proof cases
      case 1
      with sc same show thesis
        by (intro None) (auto simp: gpu_locks_same_def same_frame_def nothing_free_def)
    next
      case 2
      with sc same scan io [OF _ inv] show thesis by (intro Err) (auto simp: gpu_locks_same_def)
    next
      case 3
      with sc have s: "slot_ok slot" by simp
      have "grants_slot held req (np, w) slot (np', w')"
        using sc 3 slot_ok_path [OF s] by (auto simp: grants_slot_def same_locks [OF same])
      with 3 Slot show thesis by blast
    qed
  qed
qed

subsection \<open>acquire\_slot returns\<close>

lemma with_meta_lock_clock:
  assumes "\<And>w. w_clock (snd (body w)) = w_clock w"
  shows "w_clock (snd (with_meta_lock fl label body w)) = w_clock w"
proof -
  obtain o' os' where f: "fl_acquire fl meta_lock_timeout (meta_path label) (w_os w) = (o', os')"
    by (cases "fl_acquire fl meta_lock_timeout (meta_path label) (w_os w)")
  show ?thesis
    using assms [of "w\<lparr>w_os := os'\<rparr>"] f by (cases o') (auto simp: with_meta_lock_def split: prod.splits)
qed

lemma max_pending_clock: "w_clock (snd (max_pending_count fl label w)) = w_clock w"
proof -
  have "w_clock (snd (with_meta_lock fl label
      (\<lambda>w'. let data = read_unsafe label w'; lv = live (w_clock w) data
            in if length lv \<noteq> length data
               then (case write_unsafe label lv w' of (ok, w1) \<Rightarrow> ((ok, lv), w1))
               else ((True, lv), w')) w)) = w_clock w"
    by (rule with_meta_lock_clock) (auto simp: write_unsafe_def Let_def)
  then show ?thesis
    unfolding max_pending_count_def Let_def by (auto split: prod.splits option.splits bool.splits)
qed

lemma true_available_clock: "w_clock (snd (true_available_count fl label idxs w)) = w_clock w"
proof (induction idxs arbitrary: w)
  case (Cons i idxs)
  obtain o' os' where f: "fl_acquire fl 0 (lock_path label i) (w_os w) = (o', os')"
    by (cases "fl_acquire fl 0 (lock_path label i) (w_os w)")
  from Cons [of "w\<lparr>w_os := os'\<rparr>"] Cons [of "w\<lparr>w_os := fl_release fl (lock_path label i) os'\<rparr>"] f
  show ?case by (cases o') (auto split: prod.splits simp: prod_eq_iff)
qed simp

lemma should_yield_clock: "w_clock (snd (should_yield fl label idxs w)) = w_clock w"
  using max_pending_clock [of fl label w] true_available_clock [of fl label idxs "snd (max_pending_count fl label w)"]
  by (auto simp: should_yield_def split: prod.splits)

lemma yield_check_clock: "w_clock (snd (yield_check fl np specs w)) = w_clock w"
proof (induction specs arbitrary: w)
  case (Cons spec specs)
  let ?idxs = "case get_alloc np (ns_label spec) of None \<Rightarrow> [] | Some a \<Rightarrow> map gi_index (ga_pool a)"
  obtain y w1 where y: "should_yield fl (ns_label spec) ?idxs w = (y, w1)" by (cases "should_yield fl (ns_label spec) ?idxs w")
  with should_yield_clock [of fl "ns_label spec" ?idxs w] Cons.IH [of w1] show ?case
    by (cases y) (auto simp: Let_def)
qed simp

lemma scan_node_frame:
  "scan_node fl np tid req spec a w sk = (r, a', w', sk') \<Longrightarrow> same_frame w w'"
proof (induction fl np tid req spec a w sk arbitrary: r a' w' sk' rule: scan_node.induct)
  case (1 fl np tid req spec a w sk)
  show ?case
  proof (cases "allocate_now req a")
    case (Inl e)
    with 1 show ?thesis by (auto simp: scan_node.simps [of fl np tid req spec a w sk])
  next
    case (Inr p)
    obtain g a1 where p: "p = (g, a1)" by (cases p)
    let ?lk = "new_lock (ns_label spec) (gi_index g)"
    obtain q w1 where l: "lock_acquire fl (np_pid np) 0 tid ?lk w = (q, w1)"
      by (cases "lock_acquire fl (np_pid np) 0 tid ?lk w")
    note fr = lock_acquire_frame [OF l]
    show ?thesis
    proof (cases "q = Inl RuntimeError")
      case True
      with "1.prems" Inr p l have "scan_node fl np tid req spec a1 w1 (sk @ [g]) = (r, a', w', sk')"
        by (simp add: scan_node.simps [of fl np tid req spec a w sk])
      from "1.IH" [OF Inr p [symmetric] l [symmetric] True refl this] fr show ?thesis
        by (blast intro: same_frame_trans)
    next
      case False
      with "1.prems" Inr p l have "w' = w1"
        by (cases q) (auto simp: scan_node.simps [of fl np tid req spec a w sk] split: py_error.splits)
      with fr show ?thesis by simp
    qed
  qed
qed

lemma scan_specs_frame: "scan_specs fl tid req specs (np, w) = (r, np', w') \<Longrightarrow> same_frame w w'"
proof (induction specs arbitrary: np w)
  case (Cons spec specs)
  show ?case
  proof (cases "get_alloc np (ns_label spec)")
    case None
    with Cons show ?thesis by simp
  next
    case (Some a)
    obtain res a1 w1 sk where sc: "scan_node fl np tid req spec a w [] = (res, a1, w1, sk)"
      by (metis prod.exhaust)
    from scan_node_frame [OF sc] Cons.prems Cons.IH Some sc show ?thesis
      by (auto simp: Let_def split: sum.splits option.splits intro: same_frame_trans)
  qed
qed simp

lemma slot_round_clock: "w_clock (snd (snd (acquire_slot_round fl tid req s))) = w_clock (snd s)"
proof -
  obtain np w where s: "s = (np, w)" by (cases s)
  obtain y w1 where y: "yield_check fl np (np_specs np) w = (y, w1)" by (cases "yield_check fl np (np_specs np) w")
  with yield_check_clock [of fl np "np_specs np" w] have c: "w_clock w1 = w_clock w" by simp
  obtain r np' w' where sc: "scan_specs fl tid req (np_specs np) (np, w1) = (r, np', w')" by (metis prod.exhaust)
  from scan_specs_frame [OF sc] c y sc s show ?thesis
    by (cases y) (auto simp: acquire_slot_round_def same_frame_def)
qed

lemma past_clock: "past d = (\<lambda>s. d \<le> w_clock (snd s))"
  by (simp add: fun_eq_iff past_def)

lemma time_sleep_clock: "w_clock (snd s) + d \<le> w_clock (snd (time_sleep d others n s))"
  by (auto simp: time_sleep_def split: prod.splits)

interpretation slot_loop: polling "acquire_slot_round fl tid req" "\<lambda>s. w_clock (snd s)" deadline
    "time_sleep (1 / 2) others" "1 / 2" for fl tid req deadline others
  by unfold_locales (simp_all add: slot_round_clock time_sleep_clock min.coboundedI1)

subsection \<open>A freshly built pool is entirely free\<close>

definition all_free :: "node_pool \<Rightarrow> bool" where
  "all_free np \<longleftrightarrow> distinct (map fst (np_allocs np)) \<and>
     (\<forall>(l, a) \<in> set (np_allocs np). ga_available a = gi_index ` set (ga_pool a) \<and> distinct (map gi_index (ga_pool a)))"

lemma update_in_set: "x \<in> set (dict_set k v d) \<Longrightarrow> x = (k, v) \<or> x \<in> set d"
  by (induction d) (auto split: if_splits)

lemma set_alloc_all_free:
  "all_free np \<Longrightarrow> distinct (map gi_index gs) \<Longrightarrow> all_free (set_alloc l (new_allocator gs h) np)"
  using update_in_set [of _ l "new_allocator gs h" "np_allocs np"]
  by (fastforce simp: all_free_def set_alloc_def new_allocator_def distinct_update)

lemma detect_all_free:
  "all_free np \<Longrightarrow> (\<And>spec gs. gpus_of spec = Inr gs \<Longrightarrow> distinct (map gi_index gs)) \<Longrightarrow>
     all_free (detect_all gethostname gpus_of specs np)"
proof (induction specs arbitrary: np)
  case (Cons spec specs)
  have ssh: "all_free (np\<lparr>np_ssh := x\<rparr>)" for x using Cons.prems(1) by (simp add: all_free_def)
  have "all_free (detect_node gethostname gpus_of spec np)"
    by (rule detect_node_cases [of gpus_of spec gethostname np, OF Cons.prems(2)])
      (use ssh in \<open>auto intro!: set_alloc_all_free\<close>)
  with Cons show ?case by simp
qed simp

lemma all_free_status: "all_free np \<Longrightarrow> fst (pool_status np) = snd (pool_status np)"
proof -
  assume "all_free np"
  then have "card (ga_available a) = length (ga_pool a)" if "(l, a) \<in> set (np_allocs np)" for l a
    using that by (force simp: all_free_def distinct_map card_image distinct_card)
  then show ?thesis
    by (auto simp: pool_status_def total_gpu_slots_def intro!: arg_cong [where f = sum_list])
qed

lemma detect_all_labels:
  "fst ` set (np_allocs (detect_all host gpus_of specs np)) \<subseteq> fst ` set (np_allocs np) \<union> ns_label ` set specs"
proof (induction specs arbitrary: np)
  case (Cons spec specs)
  have "fst ` set (np_allocs (detect_node host gpus_of spec np)) \<subseteq> insert (ns_label spec) (fst ` set (np_allocs np))"
    by (auto simp: detect_node_def Let_def set_alloc_def dom_update split: sum.splits)
  with Cons [of "detect_node host gpus_of spec np"] show ?case by auto
qed simp

end
