(* ===== verification/MultiProps.thy ===== *)
theory MultiProps
  imports PoolProps
begin

text \<open>
  Acquiring several GPUs of one node and giving slots back: the set of lock files and the
  free sets of the allocators before and after every operation.
\<close>

subsection \<open>The locks of a list of slots\<close>

text \<open>
  \<open>owns held hb slots w\<close>: the locks held in \<open>w\<close> are those of \<open>hb\<close> and those of the slots, and
  none of the latter is in \<open>hb\<close>.
\<close>

definition owns :: "('os \<Rightarrow> string \<Rightarrow> bool) \<Rightarrow> (string \<Rightarrow> bool) \<Rightarrow> node_slot list \<Rightarrow> 'os world \<Rightarrow> bool" where
  "owns held hb slots w \<longleftrightarrow>
     w_held held w = (\<lambda>p. hb p \<or> p \<in> slot_path ` set slots) \<and>
     (\<forall>s \<in> set slots. \<not> hb (slot_path s)) \<and> distinct (map slot_path slots)"

lemma owns_Nil [simp]: "owns held hb [] w \<longleftrightarrow> w_held held w = hb"
  by (auto simp: owns_def)

definition from_node :: "node_spec \<Rightarrow> node_slot list \<Rightarrow> bool" where
  "from_node spec slots \<longleftrightarrow> (\<forall>s \<in> set slots. slot_ok s \<and> sl_spec s = spec)"

lemma from_node_simps [simp]:
  "from_node spec []" "from_node spec (s # slots) \<longleftrightarrow> slot_ok s \<and> sl_spec s = spec \<and> from_node spec slots"
  "from_node spec (xs @ ys) \<longleftrightarrow> from_node spec xs \<and> from_node spec ys"
  by (auto simp: from_node_def)

lemma owns_snoc:
  assumes "owns held hb slots w" and "\<not> w_held held w (slot_path s)"
    and "w_held held w' = (w_held held w)(slot_path s := True)"
  shows "owns held hb (slots @ [s]) w'"
  using assms by (auto simp: owns_def fun_eq_iff)

subsection \<open>Taking a number of GPUs\<close>

lemma take_slots_sound:
  assumes ok: "filelock_ok fl held"
  shows "take_slots fl np tid req spec n a w acq = (r, a', w', acq') \<Longrightarrow>
    any_gpu.taken req ab (map sl_gpu acq) a \<Longrightarrow> alloc_inv ab \<Longrightarrow> from_node spec acq \<Longrightarrow> owns held hb acq w \<Longrightarrow>
    same_frame w w' \<and> from_node spec acq' \<and> owns held hb acq' w' \<and>
    (case r of
       None \<Rightarrow> any_gpu.taken req ab (map sl_gpu acq') a' \<and> length acq' = length acq + n
     | Some e \<Rightarrow> (e = RuntimeError \<and> any_gpu.taken req ab (map sl_gpu acq') a') \<or>
         (e = OSError \<and> (\<exists>gs. any_gpu.taken req ab gs a')))"
proof (induction n arbitrary: a w acq)
  case 0
  then show ?case by auto
next
  case (Suc n)
  show ?case
  proof (cases "allocate_now req a")
    case (Inl e)
    with Suc.prems show ?thesis by (auto simp: allocate_now_Inl)
  next
    case (Inr p)
    obtain g a1 where p: "p = (g, a1)" by (cases p)
    let ?lk = "new_lock (ns_label spec) (gi_index g)"
    obtain q w1 where l: "lock_acquire fl (np_pid np) 0 tid ?lk w = (q, w1)"
      by (cases "lock_acquire fl (np_pid np) 0 tid ?lk w")
    note fr = lock_acquire_frame [OF l]
    show ?thesis
    proof (cases q)
      case (Inr lk)
      let ?s = "make_slot np spec g lk"
      note acq = lock_acquire_Inr [OF ok l [unfolded Inr]]
      have rec: "take_slots fl np tid req spec n a1 w1 (acq @ [?s]) = (r, a', w', acq')"
        using Suc.prems(1) \<open>allocate_now req a = Inr p\<close> p l Inr by simp
      have "any_gpu.taken req ab (map sl_gpu (acq @ [?s])) a1"
        using Suc.prems(2) \<open>allocate_now req a = Inr p\<close> p by (auto intro: any_gpu.taken_snoc)
      moreover have "from_node spec (acq @ [?s])" using Suc.prems(4) acq(1) by (simp add: slot_ok_def)
      moreover have "owns held hb (acq @ [?s]) w1"
        using Suc.prems(5) acq by (intro owns_snoc [where w = w]) (simp_all add: slot_path_def)
      ultimately show ?thesis
        using Suc.IH [OF rec _ Suc.prems(3)] fr by (auto intro: same_frame_trans split: option.splits)
    next
      case (Inl e)
      note fail = lock_acquire_Inl [OF ok l [unfolded Inl]]
      have own: "owns held hb acq w1" using Suc.prems(5) fail(1) by (simp add: owns_def)
      have tk: "alloc_inv a" using any_gpu.taken_inv [OF Suc.prems(2,3)] .
      show ?thesis
      proof (cases "e = RuntimeError")
        case True
        with Suc.prems \<open>allocate_now req a = Inr p\<close> p l Inl have
          "r = Some RuntimeError" "a' = release g a1" "w' = w1" "acq' = acq" by auto
        moreover have "release g a1 = a" using any_gpu.give_take [OF tk] \<open>allocate_now req a = Inr p\<close> p by simp
        ultimately show ?thesis using Suc.prems own fr by simp
      next
        case False
        with fail(4) have "e = OSError" by simp
        moreover have "any_gpu.taken req ab (map sl_gpu acq @ [g]) a1"
          using Suc.prems(2) \<open>allocate_now req a = Inr p\<close> p by (auto intro: any_gpu.taken_snoc)
        ultimately show ?thesis
          using Suc.prems \<open>allocate_now req a = Inr p\<close> p l Inl own fr by auto
      qed
    qed
  qed
qed

lemma rollback_sound:
  assumes ok: "filelock_ok fl held"
  shows "rollback fl slots a w = (a', w') \<Longrightarrow> \<forall>s \<in> set slots. slot_ok s \<Longrightarrow>
    a' = release_all (map sl_gpu slots) a \<and> same_frame w w' \<and>
    w_held held w' = (\<lambda>p. w_held held w p \<and> p \<notin> slot_path ` set slots)"
proof (induction slots arbitrary: a w)
  case (Cons s slots)
  obtain lk w1 where l: "lock_release fl (sl_lock s) w = (lk, w1)" by (cases "lock_release fl (sl_lock s) w")
  have "w_held held w1 = (w_held held w)(slot_path s := False)"
    using lock_release_held [OF ok l] Cons.prems slot_ok_locked by (simp add: slot_path_def)
  with Cons.IH [of "release (sl_gpu s) a" w1] Cons.prems l lock_release_frame [OF l] show ?case
    by (auto simp: fun_eq_iff intro: same_frame_trans)
qed simp

lemma rollback_owns:
  assumes "filelock_ok fl held" and "rollback fl slots a w = (a', w')" and "from_node spec slots"
    and "owns held hb slots w"
  shows "a' = release_all (map sl_gpu slots) a" and "w_held held w' = hb" and "same_frame w w'"
  using rollback_sound [OF assms(1,2)] assms(3,4) by (auto simp: from_node_def owns_def fun_eq_iff)

text \<open>
  What a granted group of slots means: one node, the requested number of GPUs, all different,
  all eligible and with free locks before; exactly these are taken and locked.
\<close>

definition grants_group ::
  "('os \<Rightarrow> string \<Rightarrow> bool) \<Rightarrow> rat \<Rightarrow> nat \<Rightarrow> 'os state \<Rightarrow> multi_gpu_slots \<Rightarrow> 'os state \<Rightarrow> bool" where
  "grants_group held req n s m s' \<longleftrightarrow>
     length (ms_slots m) = n \<and> n > 0 \<and> from_node (ms_spec m) (ms_slots m) \<and> distinct (gpu_indices m) \<and>
     (\<exists>a a'. get_alloc (fst s) (ns_label (ms_spec m)) = Some a \<and>
        (\<forall>slot \<in> set (ms_slots m). sl_gpu slot \<in> set (ga_pool a) \<and> eligible req a (sl_gpu slot)) \<and>
        fst s' = set_alloc (ns_label (ms_spec m)) a' (fst s) \<and>
        release_all (map sl_gpu (ms_slots m)) a' = a \<and>
        ga_available a' = ga_available a - set (gpu_indices m)) \<and>
     owns held (w_held held (snd s)) (ms_slots m) (snd s')"

lemma slots_round_cases:
  assumes ok: "filelock_ok fl held"
  shows "slots_round fl tid req cnt specs (np, w) = (r, np', w') \<Longrightarrow> pool_inv np \<Longrightarrow>
    same_frame w w' \<and>
    (case r of
       None \<Rightarrow> np' = np \<and> w_held held w' = w_held held w
     | Some (Inl e) \<Rightarrow> e = OSError \<and> shrunk np np' \<and> (\<forall>p. w_held held w p \<longrightarrow> w_held held w' p)
     | Some (Inr m) \<Rightarrow> ms_spec m \<in> set specs \<and>
         grants_group held req (nat cnt) (np, w) m (np', w'))"
proof (induction specs arbitrary: w)
  case (Cons spec specs)
  show ?case
  proof (cases "get_alloc np (ns_label spec)")
    case None
    with Cons.prems have "slots_round fl tid req cnt specs (np, w) = (r, np', w')" by simp
    from Cons.IH [OF this Cons.prems(2)] show ?thesis by (auto split: option.splits sum.splits)
  next
    case (Some a)
    have inv: "alloc_inv a" using pool_invD [OF Cons.prems(2) Some] .
    obtain e a1 w1 acq where t: "take_slots fl np tid req spec (nat cnt) a w [] = (e, a1, w1, acq)"
      by (metis prod.exhaust)
    note ts = take_slots_sound [OF ok t, where hb = "w_held held w" and ab = a, simplified, OF any_gpu.taken_Nil inv]
    have recur: ?thesis if same: "same_frame w w2" "w_held held w2 = w_held held w"
      and rec: "slots_round fl tid req cnt specs (np, w2) = (r, np', w')" for w2
      using Cons.IH [OF rec Cons.prems(2)] same
      by (auto simp: grants_group_def split: option.splits sum.splits intro: same_frame_trans)
    show ?thesis
    proof (cases e)
      case None
      have tk: "any_gpu.taken req a (map sl_gpu acq) a1" and len: "length acq = nat cnt"
        and own: "owns held (w_held held w) acq w1" and fn: "from_node spec acq" and fr: "same_frame w w1"
        using ts None by auto
      show ?thesis
      proof (cases "acq = []")
        case True
        with tk have "a1 = a" by (auto elim: any_gpu.taken.cases)
        with True own Cons.prems Some t None fr show ?thesis
          by (intro recur [of w1]) (simp_all add: set_alloc_same)
      next
        case False
        with Cons.prems(1) Some t None have
          res: "r = Some (Inr \<lparr>ms_slots = acq, ms_spec = spec\<rparr>)" "np' = set_alloc (ns_label spec) a1 np" "w' = w1"
          by (auto simp: Let_def)
        have "0 < cnt" using len False by (cases "0 < cnt") auto
        then have "grants_group held req (nat cnt) (np, w) \<lparr>ms_slots = acq, ms_spec = spec\<rparr> (np', w')"
          using len False fn own Some any_gpu.taken_free [OF tk inv] taken_restored [OF tk inv]
            any_gpu.taken_distinct [OF tk inv] taken_subset [OF tk] res
          by (auto simp: grants_group_def gpu_indices_def image_image comp_def)
        with res fr show ?thesis by auto
      qed
    next
      case (Some ex)
      show ?thesis
      proof (cases "ex = RuntimeError")
        case True
        obtain a2 w2 where rb: "rollback fl acq a1 w1 = (a2, w2)" by (cases "rollback fl acq a1 w1")
        have tk: "any_gpu.taken req a (map sl_gpu acq) a1" using ts Some True by simp
        note r = rollback_owns [OF ok rb, of spec "w_held held w"]
        have "a2 = a" using r(1) taken_restored [OF tk inv] ts by simp
        with Cons.prems \<open>get_alloc np (ns_label spec) = Some a\<close> t Some True rb r ts show ?thesis
          by (intro recur [of w2]) (auto simp: set_alloc_same intro: same_frame_trans)
      next
        case False
        with Cons.prems \<open>get_alloc np (ns_label spec) = Some a\<close> t Some ts inv show ?thesis
          by (auto simp: owns_def intro: shrunkI)
      qed
    qed
  qed
qed auto

subsection \<open>acquire\_slots returns\<close>

text \<open>The only exception that leaves a turn is that of a lock file that could not be locked.\<close>

lemma take_slots_io:
  "take_slots fl np tid req spec n a w acq = (Some e, a', w', acq') \<Longrightarrow> e \<noteq> RuntimeError \<Longrightarrow>
     \<exists>g \<in> set (ga_pool a). \<exists>os. fl_acquire fl 0 (gpu_lock spec g) os = (IOFailed, w_os w')"
proof (induction n arbitrary: a w acq)
  case (Suc n)
  obtain g a1 where alloc: "allocate_now req a = Inr (g, a1)"
    using Suc.prems by (cases "allocate_now req a") (auto simp: allocate_now_Inl)
  note g = allocate_now_Inr [OF alloc]
  let ?lk = "new_lock (ns_label spec) (gi_index g)"
  obtain q w1 where l: "lock_acquire fl (np_pid np) 0 tid ?lk w = (q, w1)"
    by (cases "lock_acquire fl (np_pid np) 0 tid ?lk w")
  show ?case
  proof (cases q)
    case (Inl e')
    with Suc.prems alloc l have "e' = e" "w' = w1" by (auto split: py_error.splits)
    with lock_acquire_io [of fl "np_pid np" 0 tid ?lk w e' w1] l Inl Suc.prems(2) g(1) show ?thesis by auto
  next
    case (Inr lk)
    with Suc.prems alloc l have
      "take_slots fl np tid req spec n a1 w1 (acq @ [make_slot np spec g lk]) = (Some e, a', w', acq')" by simp
    from Suc.IH [OF this Suc.prems(2)] g(3) show ?thesis by simp
  qed
qed simp

lemma slots_round_io:
  assumes ok: "filelock_ok fl held"
  shows "slots_round fl tid req cnt specs (np, w) = (Some (Inl e), np', w') \<Longrightarrow> pool_inv np \<Longrightarrow> lock_failed fl specs np w'"
proof (induction specs arbitrary: w)
  case (Cons spec specs)
  have more: "lock_failed fl specs np w' \<Longrightarrow> lock_failed fl (spec # specs) np w'" by (auto simp: lock_failed_def)
  show ?case
  proof (cases "get_alloc np (ns_label spec)")
    case None
    with Cons more show ?thesis by simp
  next
    case (Some a)
    have inv: "alloc_inv a" using pool_invD [OF Cons.prems(2) Some] .
    obtain e' a1 w1 acq where t: "take_slots fl np tid req spec (nat cnt) a w [] = (e', a1, w1, acq)"
      by (metis prod.exhaust)
    obtain a2 w2 where rb: "rollback fl acq a1 w1 = (a2, w2)" by (cases "rollback fl acq a1 w1")
    note ts = take_slots_sound [OF ok t, where hb = "w_held held w" and ab = a, simplified, OF any_gpu.taken_Nil inv]
    consider (Done) "e' = None" | (Retry) "e' = Some RuntimeError" | (Fail) x where "e' = Some x" "x \<noteq> RuntimeError"
      by (cases e') auto
    then show ?thesis
    proof cases
      case Done
      show ?thesis
      proof (cases "acq = []")
        case True
        with ts Done have "a1 = a" by (auto elim: any_gpu.taken.cases)
        with True Done Cons Some t more show ?thesis by (simp add: Let_def set_alloc_same)
      next
        case False
        with Done Cons.prems Some t show ?thesis by (simp add: Let_def)
      qed
    next
      case Retry
      have "a2 = a" using rollback_owns(1) [OF ok rb, of spec "w_held held w"] ts Retry by (auto simp: taken_restored inv)
      with Retry Cons Some t rb more show ?thesis by (simp add: set_alloc_same)
    next
      case Fail
      with take_slots_io [OF t [unfolded Fail(1)] Fail(2)] Cons.prems Some t show ?thesis
        by (auto simp: lock_failed_def split: py_error.splits)
    qed
  qed
qed simp

lemma take_slots_frame: "take_slots fl np tid req spec n a w acq = (r, a', w', acq') \<Longrightarrow> same_frame w w'"
proof (induction n arbitrary: a w acq)
  case (Suc n)
  show ?case
  proof (cases "allocate_now req a")
    case (Inl e)
    with Suc.prems show ?thesis by simp
  next
    case (Inr p)
    obtain g a1 where p: "p = (g, a1)" by (cases p)
    obtain q w1 where l: "lock_acquire fl (np_pid np) 0 tid (new_lock (ns_label spec) (gi_index g)) w = (q, w1)"
      by (cases "lock_acquire fl (np_pid np) 0 tid (new_lock (ns_label spec) (gi_index g)) w")
    from lock_acquire_frame [OF l] Suc Inr p l show ?thesis
      by (auto split: sum.splits py_error.splits intro: same_frame_trans)
  qed
qed simp

lemma rollback_frame: "rollback fl slots a w = (a', w') \<Longrightarrow> same_frame w w'"
proof (induction slots arbitrary: a w)
  case (Cons s slots)
  obtain lk w1 where l: "lock_release fl (sl_lock s) w = (lk, w1)" by (cases "lock_release fl (sl_lock s) w")
  with lock_release_frame [OF l] Cons show ?case by (auto intro: same_frame_trans)
qed simp

lemma slots_round_frame: "slots_round fl tid req cnt specs (np, w) = (r, np', w') \<Longrightarrow> same_frame w w'"
proof (induction specs arbitrary: np w)
  case (Cons spec specs)
  show ?case
  proof (cases "get_alloc np (ns_label spec)")
    case None
    with Cons show ?thesis by simp
  next
    case (Some a)
    obtain e a1 w1 acq where t: "take_slots fl np tid req spec (nat cnt) a w [] = (e, a1, w1, acq)"
      by (metis prod.exhaust)
    note fr = take_slots_frame [OF t]
    obtain a2 w2 where rb: "rollback fl acq a1 w1 = (a2, w2)" by (cases "rollback fl acq a1 w1")
    note fr2 = same_frame_trans [OF fr rollback_frame [OF rb]]
    from Cons.prems Some t rb consider
        "slots_round fl tid req cnt specs (set_alloc (ns_label spec) a2 np, w2) = (r, np', w')"
      | "w' = w1" | "slots_round fl tid req cnt specs (set_alloc (ns_label spec) a1 np, w1) = (r, np', w')"
      by (auto simp: Let_def split: option.splits py_error.splits if_splits)
    then show ?thesis by cases (use Cons.IH fr fr2 in \<open>auto intro: same_frame_trans\<close>)
  qed
qed simp

lemma slots_round_clock: "w_clock (snd (snd (slots_round fl tid req cnt specs s))) = w_clock (snd s)"
proof -
  obtain np w where s: "s = (np, w)" by (cases s)
  obtain r np' w' where t: "slots_round fl tid req cnt specs (np, w) = (r, np', w')" by (metis prod.exhaust)
  from slots_round_frame [OF this] show ?thesis by (simp add: s t same_frame_def)
qed

interpretation slots_loop: polling "\<lambda>s. slots_round fl tid req cnt (candidate_specs (fst s) label) s"
    "\<lambda>s. w_clock (snd s)" deadline "time_sleep (1 / 2) others" "1 / 2" for fl tid req cnt label deadline others
  by unfold_locales (simp_all add: slots_round_clock time_sleep_clock min.coboundedI1)

subsection \<open>A busy first choice blocks a multi-GPU request\<close>

lemma busy_lock:
  assumes "filelock_ok fl held" and "no_io_failure fl" and "w_held held w (fk_lock_path lk)"
  obtains w' where "lock_acquire fl pid 0 tid lk w = (Inl RuntimeError, w')" "w_held held w' = w_held held w"
    "w_info w' = w_info w" "same_frame w w'"
proof -
  obtain o' os' where f: "fl_acquire fl 0 (fk_lock_path lk) (w_os w) = (o', os')"
    by (cases "fl_acquire fl 0 (fk_lock_path lk) (w_os w)")
  have "o' \<noteq> Acquired" using filelock_acquire(2) [OF assms(1) f] assms(3) by blast
  moreover have "o' \<noteq> IOFailed" using assms(2) f by (metis fst_conv no_io_failure_def)
  ultimately have "o' = TimedOut" by (cases o') auto
  with f have l: "lock_acquire fl pid 0 tid lk w = (Inl RuntimeError, w\<lparr>w_os := os'\<rparr>)"
    by (simp add: lock_acquire_def)
  show thesis
    by (rule that [OF l]) (use lock_acquire_Inl [OF assms(1) l] lock_acquire_frame [OF l] in auto)
qed

text \<open>The first GPU in allocation order is free in the allocator, but its lock is held elsewhere.\<close>

definition first_choice_busy ::
  "('os \<Rightarrow> string \<Rightarrow> bool) \<Rightarrow> rat \<Rightarrow> node_spec \<Rightarrow> 'os state \<Rightarrow> bool" where
  "first_choice_busy held req spec s \<longleftrightarrow>
     (case get_alloc (fst s) (ns_label spec) of
        None \<Rightarrow> True
      | Some a \<Rightarrow> (case allocate_now req a of
                   Inl _ \<Rightarrow> True
                 | Inr (g, _) \<Rightarrow> w_held held (snd s) (gpu_lock spec g)))"

lemma first_choice_busy_held:
  "w_held held w' = w_held held w \<Longrightarrow>
     first_choice_busy held req spec (np, w') = first_choice_busy held req spec (np, w)"
  by (simp add: first_choice_busy_def cong: option.case_cong sum.case_cong)

lemma slots_round_blocked:
  assumes ok: "filelock_ok fl held" and io: "no_io_failure fl" and "0 < cnt"
  shows "pool_inv np \<Longrightarrow> \<forall>spec \<in> set specs. first_choice_busy held req spec (np, w) \<Longrightarrow>
    \<exists>w'. slots_round fl tid req cnt specs (np, w) = (None, np, w') \<and> w_held held w' = w_held held w \<and> same_frame w w'"
proof (induction specs arbitrary: w)
  case (Cons spec specs)
  obtain n where n: "nat cnt = Suc n" using assms(3) by (metis gr0_implies_Suc zero_less_nat_eq)
  have recur: "\<exists>w'. slots_round fl tid req cnt specs (np, w1) = (None, np, w') \<and>
      w_held held w' = w_held held w \<and> same_frame w w'"
    if "w_held held w1 = w_held held w" "same_frame w w1" for w1
  proof -
    have "\<forall>spec \<in> set specs. first_choice_busy held req spec (np, w1)"
      using Cons.prems(2) first_choice_busy_held [of held, OF that(1)] by simp
    with Cons.IH [of w1] Cons.prems(1) that show ?thesis by (auto intro: same_frame_trans)
  qed
  show ?case
  proof (cases "get_alloc np (ns_label spec)")
    case None
    with recur [of w] show ?thesis by simp
  next
    case (Some a)
    show ?thesis
    proof (cases "allocate_now req a")
      case (Inl e)
      then have "e = RuntimeError" by (simp add: allocate_now_Inl)
      with recur [of w] Some Inl n show ?thesis by (simp add: set_alloc_same)
    next
      case (Inr p)
      obtain g a1 where p: "p = (g, a1)" by (cases p)
      let ?lk = "new_lock (ns_label spec) (gi_index g)"
      have "w_held held w (fk_lock_path ?lk)"
        using Cons.prems(2) Some Inr p by (simp add: first_choice_busy_def)
      then obtain w1 where w1: "lock_acquire fl (np_pid np) 0 tid ?lk w = (Inl RuntimeError, w1)"
        "w_held held w1 = w_held held w" "w_info w1 = w_info w" "same_frame w w1"
        by (rule busy_lock [OF ok io])
      have "release g a1 = a"
        using any_gpu.give_take [OF pool_invD [OF Cons.prems(1) Some]] Inr p by simp
      with recur [OF w1(2,4)] Some Inr p n w1(1) show ?thesis by (simp add: set_alloc_same)
    qed
  qed
qed simp

subsection \<open>Releasing\<close>

text \<open>
  Releasing slots of one node gives their GPUs back to that node's allocator and frees their
  lock files; nothing else changes.
\<close>

lemma release_slots_sound:
  assumes ok: "filelock_ok fl held"
  shows "release_slots fl slots (np, w) = (slots', np', w') \<Longrightarrow> from_node spec slots \<Longrightarrow>
    get_alloc np (ns_label spec) = Some a \<Longrightarrow>
    np' = set_alloc (ns_label spec) (release_all (map sl_gpu slots) a) np \<and> same_frame w w' \<and>
    w_held held w' = (\<lambda>p. w_held held w p \<and> p \<notin> slot_path ` set slots) \<and>
    (\<forall>s \<in> set slots'. \<not> fk_locked (sl_lock s))"
proof (induction slots arbitrary: np w a slots' np' w')
  case Nil
  then show ?case by (auto simp: set_alloc_same)
next
  case (Cons s slots)
  let ?l = "ns_label spec" and ?a = "release (sl_gpu s) a"
  obtain lk w1 where l: "lock_release fl (sl_lock s) w = (lk, w1)" by (cases "lock_release fl (sl_lock s) w")
  obtain sl np2 w2 where rec: "release_slots fl slots (set_alloc ?l ?a np, w1) = (sl, np2, w2)"
    by (metis prod.exhaust)
  have "w_held held w1 = (w_held held w)(slot_path s := False)"
    using lock_release_held [OF ok l] Cons.prems slot_ok_locked by (simp add: slot_path_def)
  moreover have "\<not> fk_locked lk" using l by (auto simp: lock_release_def)
  ultimately show ?case
    using Cons.IH [OF rec] Cons.prems l rec lock_release_frame [OF l]
    by (auto simp: Let_def set_alloc_twice fun_eq_iff intro: same_frame_trans)
qed

lemma release_group:
  assumes ok: "filelock_ok fl held" and grant: "grants_group held req n (np, w) m (np', w')"
    and rel: "release_multi fl m (np', w') = (m', np'', w'')"
  shows "np'' = np\<lparr>np_event := True\<rparr>" and "w_held held w'' = w_held held w" and "same_frame w' w''"
    and "\<forall>s \<in> set (ms_slots m'). \<not> fk_locked (sl_lock s)"
proof -
  obtain a a' where a: "get_alloc np (ns_label (ms_spec m)) = Some a"
      "np' = set_alloc (ns_label (ms_spec m)) a' np" "release_all (map sl_gpu (ms_slots m)) a' = a"
    and own: "owns held (w_held held w) (ms_slots m) w'" and fn: "from_node (ms_spec m) (ms_slots m)"
    using grant by (auto simp: grants_group_def)
  obtain sl np1 w1 where r: "release_slots fl (ms_slots m) (np', w') = (sl, np1, w1)" by (metis prod.exhaust)
  with rel have res: "np'' = np1\<lparr>np_event := True\<rparr>" "w'' = w1" "ms_slots m' = sl"
    by (auto simp: release_multi_def pool_release_def)
  have "get_alloc np' (ns_label (ms_spec m)) = Some a'" using a(2) by simp
  note s = release_slots_sound [OF ok r fn this]
  show "np'' = np\<lparr>np_event := True\<rparr>"
    using s res a by (simp add: set_alloc_twice set_alloc_same)
  show "w_held held w'' = w_held held w" "same_frame w' w''" "\<forall>s \<in> set (ms_slots m'). \<not> fk_locked (sl_lock s)"
    using s res own by (auto simp: owns_def fun_eq_iff)
qed

subsection \<open>Acquiring given indices\<close>

text \<open>One node, the GPUs with exactly the given indices in the given order, all free before.\<close>

definition grants_indices ::
  "('os \<Rightarrow> string \<Rightarrow> bool) \<Rightarrow> int list \<Rightarrow> 'os state \<Rightarrow> multi_gpu_slots \<Rightarrow> 'os state \<Rightarrow> bool" where
  "grants_indices held is s m s' \<longleftrightarrow>
     gpu_indices m = is \<and> distinct is \<and> from_node (ms_spec m) (ms_slots m) \<and>
     (\<exists>a a'. get_alloc (fst s) (ns_label (ms_spec m)) = Some a \<and> set is \<subseteq> ga_available a \<and>
        (\<forall>slot \<in> set (ms_slots m). sl_gpu slot \<in> set (ga_pool a)) \<and>
        fst s' = set_alloc (ns_label (ms_spec m)) a' (fst s) \<and>
        release_all (map sl_gpu (ms_slots m)) a' = a \<and> ga_available a' = ga_available a - set is) \<and>
     owns held (w_held held (snd s)) (ms_slots m) (snd s')"

definition without :: "gpu_allocator \<Rightarrow> node_slot list \<Rightarrow> gpu_allocator \<Rightarrow> bool" where
  "without a slots a' \<longleftrightarrow>
     ga_pool a' = ga_pool a \<and> ga_headroom_gb a' = ga_headroom_gb a \<and> sl_gpu ` set slots \<subseteq> set (ga_pool a) \<and>
     ga_available a' = ga_available a - gi_index ` sl_gpu ` set slots \<and>
     distinct (map (\<lambda>s. gi_index (sl_gpu s)) slots) \<and> gi_index ` sl_gpu ` set slots \<subseteq> ga_available a"

lemma without_Nil: "without a [] a"
  by (simp add: without_def)

lemma without_restored: "without a slots a' \<Longrightarrow> release_all (map sl_gpu slots) a' = a"
  by (rule allocator_eqI) (auto simp: without_def image_image)

lemma take_indices_sound:
  assumes ok: "filelock_ok fl held"
  shows "take_indices fl np tid spec is a w acq = (r, a', w', acq') \<Longrightarrow>
    without ab acq a \<Longrightarrow> from_node spec acq \<Longrightarrow> owns held hb acq w \<Longrightarrow>
    same_frame w w' \<and> from_node spec acq' \<and> owns held hb acq' w' \<and>
    (case r of
       None \<Rightarrow> without ab acq' a' \<and> map (\<lambda>s. gi_index (sl_gpu s)) acq' = map (\<lambda>s. gi_index (sl_gpu s)) acq @ is
     | Some e \<Rightarrow> (e = RuntimeError \<longrightarrow> without ab acq' a') \<and> e \<in> {RuntimeError, ValueError, OSError} \<and>
         ga_pool a' = ga_pool ab \<and> ga_headroom_gb a' = ga_headroom_gb ab \<and> ga_available a' \<subseteq> ga_available ab)"
proof (induction "is" arbitrary: a w acq)
  case Nil
  then show ?case by auto
next
  case (Cons i "is")
  show ?case
  proof (cases "allocate_specific_now i a")
    case (Inl e)
    with Cons.prems show ?thesis by (auto simp: allocate_specific_now_Inl without_def split: if_splits)
  next
    case (Inr p)
    obtain g a1 where p: "p = (g, a1)" by (cases p)
    note g = allocate_specific_now_Inr [OF Inr [unfolded p]]
    let ?lk = "new_lock (ns_label spec) i"
    obtain q w1 where l: "lock_acquire fl (np_pid np) 0 tid ?lk w = (q, w1)"
      by (cases "lock_acquire fl (np_pid np) 0 tid ?lk w")
    note fr = lock_acquire_frame [OF l]
    show ?thesis
    proof (cases q)
      case (Inr lk)
      let ?s = "make_slot np spec g lk"
      note acq = lock_acquire_Inr [OF ok l [unfolded Inr]]
      have rec: "take_indices fl np tid spec is a1 w1 (acq @ [?s]) = (r, a', w', acq')"
        using Cons.prems(1) \<open>allocate_specific_now i a = Inr p\<close> p l Inr by simp
      have "without ab (acq @ [?s]) a1" using Cons.prems(2) g by (auto simp: without_def)
      moreover have "from_node spec (acq @ [?s])" using Cons.prems(3) acq(1) g(2) by (simp add: slot_ok_def)
      moreover have "owns held hb (acq @ [?s]) w1"
        using Cons.prems(4) acq by (intro owns_snoc [where w = w]) (simp_all add: slot_path_def)
      ultimately show ?thesis
        using Cons.IH [OF rec] fr g(2) by (auto intro: same_frame_trans split: option.splits)
    next
      case (Inl e)
      note fail = lock_acquire_Inl [OF ok l [unfolded Inl]]
      have own: "owns held hb acq w1" using Cons.prems(4) fail(1) by (simp add: owns_def)
      have "release g a1 = a" using g release_discard [of g a] by simp
      moreover have "ga_pool a1 = ga_pool ab" "ga_headroom_gb a1 = ga_headroom_gb ab" "ga_available a1 \<subseteq> ga_available ab"
        "ga_available a \<subseteq> ga_available ab" "ga_pool a = ga_pool ab" "ga_headroom_gb a = ga_headroom_gb ab"
        using Cons.prems(2) g(4) by (auto simp: without_def)
      ultimately show ?thesis
        using Cons.prems \<open>allocate_specific_now i a = Inr p\<close> p l Inl own fr fail(4) by auto
    qed
  qed
qed

lemma index_round_cases:
  assumes ok: "filelock_ok fl held"
    and round: "try_acquire_index_set fl tid spec is (np, w) = (r, np', w')"
  shows "same_frame w w'"
    and "r = None \<Longrightarrow> np' = np \<and> w_held held w' = w_held held w"
    and "r = Some (Inr m) \<Longrightarrow> grants_indices held is (np, w) m (np', w') \<and> ms_spec m = spec"
    and "r = Some (Inl e) \<Longrightarrow> e = OSError \<or> e = ValueError"
    and "r = Some (Inl e) \<Longrightarrow> shrunk np np' \<and> (\<forall>p. w_held held w p \<longrightarrow> w_held held w' p)"
proof -
  have "same_frame w w' \<and> (r = None \<longrightarrow> np' = np \<and> w_held held w' = w_held held w) \<and>
    (\<forall>m. r = Some (Inr m) \<longrightarrow> grants_indices held is (np, w) m (np', w') \<and> ms_spec m = spec) \<and>
    (\<forall>e. r = Some (Inl e) \<longrightarrow> (e = OSError \<or> e = ValueError) \<and> shrunk np np' \<and>
       (\<forall>p. w_held held w p \<longrightarrow> w_held held w' p))"
  proof (cases "get_alloc np (ns_label spec)")
    case None
    with round show ?thesis by (auto simp: try_acquire_index_set_def)
  next
    case (Some a)
    obtain e a1 w1 acq where t: "take_indices fl np tid spec is a w [] = (e, a1, w1, acq)"
      by (metis prod.exhaust)
    obtain a2 w2 where rb: "rollback fl acq a1 w1 = (a2, w2)" by (cases "rollback fl acq a1 w1")
    note ts = take_indices_sound [OF ok t, where hb = "w_held held w", simplified, OF without_Nil]
    note r = rollback_owns [OF ok rb, of spec "w_held held w"]
    show ?thesis
    proof (cases e)
      case None
      with ts have wo: "without a acq a1" and idx: "map (\<lambda>s. gi_index (sl_gpu s)) acq = is" by auto
      have "grants_indices held is (np, w) \<lparr>ms_slots = acq, ms_spec = spec\<rparr> (set_alloc (ns_label spec) a1 np, w1)"
        unfolding grants_indices_def
        using wo without_restored [OF wo] ts Some idx [symmetric]
        by (simp add: gpu_indices_def) (auto simp: without_def image_image)
      with None round Some t ts show ?thesis
        by (auto simp: try_acquire_index_set_def)
    next
      case (Some ex)
      show ?thesis
      proof (cases "ex = RuntimeError")
        case True
        have "a2 = a" using r(1) ts Some True by (simp add: without_restored)
        with r ts round \<open>get_alloc np (ns_label spec) = Some a\<close> t rb Some True show ?thesis
          by (auto simp: try_acquire_index_set_def set_alloc_same intro: same_frame_trans)
      next
        case False
        have "shrunk np (set_alloc (ns_label spec) a1 np)"
          unfolding shrunk_def using ts Some \<open>get_alloc np (ns_label spec) = Some a\<close> by auto
        with False ts round \<open>get_alloc np (ns_label spec) = Some a\<close> t Some show ?thesis
          by (auto simp: try_acquire_index_set_def owns_def)
      qed
    qed
  qed
  then show "same_frame w w'" "r = None \<Longrightarrow> np' = np \<and> w_held held w' = w_held held w"
    "r = Some (Inr m) \<Longrightarrow> grants_indices held is (np, w) m (np', w') \<and> ms_spec m = spec"
    "r = Some (Inl e) \<Longrightarrow> e = OSError \<or> e = ValueError"
    "r = Some (Inl e) \<Longrightarrow> shrunk np np' \<and> (\<forall>p. w_held held w p \<longrightarrow> w_held held w' p)" by blast+
qed

end
