(* ===== verification/PoolDemo.thy ===== *)
theory PoolDemo
  imports MultiProps
begin

text \<open>
  The environment of a waiting caller, and the concrete fleet on which the contracts of the
  node pool are tried out.
\<close>

text \<open>What the contracts ask of the other threads of the process, and the case in which nobody acts.\<close>

definition keeps_pool_inv :: "'os others \<Rightarrow> bool" where
  "keeps_pool_inv others \<longleftrightarrow> (\<forall>n s. pool_inv (fst s) \<longrightarrow> pool_inv (fst (others n s)))"

definition idle :: "'os others" where
  "idle n s = s"

lemma idle_inv: "keeps_pool_inv idle"
  by (simp add: keeps_pool_inv_def idle_def)

subsection \<open>Concrete inputs\<close>

text \<open>
  A fleet of two nodes with two GPUs each, the lock table as the \<open>filelock\<close> package, and a process
  whose world has the lock files \<open>locked\<close> held by somebody else.
\<close>

definition demo_gpu :: "int \<Rightarrow> gpu_info" where
  "demo_gpu i = \<lparr>gi_index = i, gi_arch = PStr ''gfx942'', gi_vram_mb = 65536, gi_numa_node = 0\<rparr>"

definition demo_spec :: "string \<Rightarrow> node_spec" where
  "demo_spec label = \<lparr>ns_hostname = PStr label, ns_username = PStr ''ci'', ns_password = PNone,
     ns_ssh_key = PNone, ns_gpu_arch = PStr [], ns_label = label\<rparr>"

definition demo_pool :: "(string \<times> gpu_info list) list \<Rightarrow> node_pool" where
  "demo_pool nodes = init_from_prefilled nodes (map (demo_spec \<circ> fst) nodes)
     (new_pool (map (demo_spec \<circ> fst) nodes) 2 100)"

definition demo_world :: "string set \<Rightarrow> string set world" where
  "demo_world locked = \<lparr>w_clock = 0, w_os = locked, w_info = [], w_pending = [], w_alive = (\<lambda>_. True),
     w_writable = (\<lambda>_. True), w_uuid = 0\<rparr>"

definition demo_nodes :: "(string \<times> gpu_info list) list" where
  "demo_nodes = [(''a'', [demo_gpu 0, demo_gpu 1]), (''b'', [demo_gpu 0, demo_gpu 1])]"

lemma demo_inv: "pool_inv (demo_pool demo_nodes)"
  unfolding demo_pool_def
  by (rule init_from_prefilled_inv [OF new_pool_inv])
    (auto simp: demo_nodes_def demo_gpu_def split: if_splits)

lemma table_no_io: "no_io_failure table_locks"
  by (simp add: no_io_failure_def table_locks_def)


text \<open>Reading the outcome of an evaluated call.\<close>

lemma granted_case:
  "(case x of Some (Inr m, s) \<Rightarrow> P m s | _ \<Rightarrow> False) \<Longrightarrow> \<exists>m s. x = Some (Inr m, s) \<and> P m s"
  by (cases x; cases "fst (the x)") (auto split: prod.splits)

lemma raised_case: "(case x of Some (Inl e, s) \<Rightarrow> e = e' | _ \<Rightarrow> False) \<Longrightarrow> \<exists>s. x = Some (Inl e', s)"
  by (cases x; cases "fst (the x)") (auto split: prod.splits)

end
