(* ===== verification/Workers.thy ===== *)
theory Workers
  imports PoolDemo
begin

text \<open>
  The test session as a whole: several worker processes, each with its own \<open>NodePool\<close>, sharing
  the lock files. A step is one turn of an acquisition loop of some worker, the release of a group of
  slots, an activity that leaves the GPU locks alone (registry traffic, time passing), or the death
  of a worker, whose locks the operating system frees. Every interleaving of the workers'
  turns is a sequence of such steps.
\<close>

record worker =
  wk_pool :: node_pool
  wk_groups :: "node_slot list list"

record 'os fleet =
  ft_world :: "'os world"
  ft_workers :: "int \<Rightarrow> worker"

abbreviation worker_of :: "'os fleet \<Rightarrow> int \<Rightarrow> worker" where
  "worker_of F p \<equiv> ft_workers F p"

definition wk_slots :: "'os fleet \<Rightarrow> int \<Rightarrow> node_slot list" where
  "wk_slots F p = concat (wk_groups (worker_of F p))"

text \<open>The slots a turn hands to its caller.\<close>

definition granted_slot :: "(py_error + node_slot) option \<Rightarrow> node_slot list" where
  "granted_slot r = (case r of Some (Inr s) \<Rightarrow> [s] | _ \<Rightarrow> [])"

definition granted_group :: "(py_error + multi_gpu_slots) option \<Rightarrow> node_slot list" where
  "granted_group r = (case r of Some (Inr m) \<Rightarrow> ms_slots m | _ \<Rightarrow> [])"

definition after_turn :: "'os fleet \<Rightarrow> int \<Rightarrow> node_slot list \<Rightarrow> 'os state \<Rightarrow> 'os fleet" where
  "after_turn F p slots s =
     \<lparr>ft_world = snd s,
      ft_workers = (ft_workers F)(p := \<lparr>wk_pool = fst s, wk_groups = slots # wk_groups (worker_of F p)\<rparr>)\<rparr>"

definition paths :: "node_slot list \<Rightarrow> string set" where
  "paths slots = slot_path ` set slots"

inductive fleet_step :: "'os filelock \<Rightarrow> ('os \<Rightarrow> string \<Rightarrow> bool) \<Rightarrow> 'os fleet \<Rightarrow> 'os fleet \<Rightarrow> bool"
  for fl held where
  single_turn:
    "acquire_slot_round fl tid req (wk_pool (worker_of F p), ft_world F) = (r, s) \<Longrightarrow>
       fleet_step fl held F (after_turn F p (granted_slot r) s)"
| group_turn:
    "slots_round fl tid req cnt (candidate_specs (wk_pool (worker_of F p)) label)
         (wk_pool (worker_of F p), ft_world F) = (r, s) \<Longrightarrow>
       fleet_step fl held F (after_turn F p (granted_group r) s)"
| index_turn:
    "try_acquire_index_set fl tid spec is (wk_pool (worker_of F p), ft_world F) = (r, s) \<Longrightarrow>
       fleet_step fl held F (after_turn F p (granted_group r) s)"
| give_back:
    "wk_groups (worker_of F p) = gs1 @ g # gs2 \<Longrightarrow>
       pool_release fl g (wk_pool (worker_of F p), ft_world F) = (g', np', w') \<Longrightarrow>
       fleet_step fl held F
         \<lparr>ft_world = w', ft_workers = (ft_workers F)(p := \<lparr>wk_pool = np', wk_groups = gs1 @ gs2\<rparr>)\<rparr>"
| other_activity:
    "(\<forall>l i. w_held held w' (lock_path l i) = w_held held (ft_world F) (lock_path l i)) \<Longrightarrow>
       fleet_step fl held F (F\<lparr>ft_world := w'\<rparr>)"
| death:
    "w_held held w' = (\<lambda>q. w_held held (ft_world F) q \<and> q \<notin> paths (wk_slots F p)) \<Longrightarrow> pool_inv np \<Longrightarrow>
       fleet_step fl held F
         \<lparr>ft_world = w', ft_workers = (ft_workers F)(p := \<lparr>wk_pool = np, wk_groups = []\<rparr>)\<rparr>"

inductive_simps fleet_step_iff: "fleet_step fl held F F'"

definition fleet_start :: "'os fleet \<Rightarrow> bool" where
  "fleet_start F \<longleftrightarrow> (\<forall>p. pool_inv (wk_pool (worker_of F p)) \<and> wk_groups (worker_of F p) = [])"

inductive reachable :: "'os filelock \<Rightarrow> ('os \<Rightarrow> string \<Rightarrow> bool) \<Rightarrow> 'os fleet \<Rightarrow> bool" for fl held where
  start: "fleet_start F \<Longrightarrow> reachable fl held F"
| step: "reachable fl held F \<Longrightarrow> fleet_step fl held F F' \<Longrightarrow> reachable fl held F'"

subsection \<open>The invariant\<close>

text \<open>A slot that its holder may use: locked on disk and taken out of the holder's free set.\<close>

definition slot_held :: "('os \<Rightarrow> string \<Rightarrow> bool) \<Rightarrow> node_pool \<Rightarrow> 'os world \<Rightarrow> node_slot \<Rightarrow> bool" where
  "slot_held held np w s \<longleftrightarrow>
     slot_ok s \<and> w_held held w (slot_path s) \<and>
     (\<exists>a. get_alloc np (ns_label (sl_spec s)) = Some a \<and> sl_gpu s \<in> set (ga_pool a) \<and>
        gi_index (sl_gpu s) \<notin> ga_available a)"

definition fleet_inv :: "('os \<Rightarrow> string \<Rightarrow> bool) \<Rightarrow> 'os fleet \<Rightarrow> bool" where
  "fleet_inv held F \<longleftrightarrow>
     (\<forall>p. pool_inv (wk_pool (worker_of F p))) \<and>
     (\<forall>p. \<forall>s \<in> set (wk_slots F p). slot_held held (wk_pool (worker_of F p)) (ft_world F) s) \<and>
     (\<forall>p. distinct (map slot_path (wk_slots F p))) \<and>
     (\<forall>p q. p \<noteq> q \<longrightarrow> paths (wk_slots F p) \<inter> paths (wk_slots F q) = {})"

lemma fleet_invI:
  assumes "\<And>p. pool_inv (wk_pool (worker_of F p))"
    and "\<And>p s. s \<in> set (wk_slots F p) \<Longrightarrow> slot_held held (wk_pool (worker_of F p)) (ft_world F) s"
    and "\<And>p. distinct (map slot_path (wk_slots F p))"
    and "\<And>p q. p \<noteq> q \<Longrightarrow> paths (wk_slots F p) \<inter> paths (wk_slots F q) = {}"
  shows "fleet_inv held F"
  using assms by (simp add: fleet_inv_def)

lemma fleet_invD:
  assumes "fleet_inv held F"
  shows "pool_inv (wk_pool (worker_of F p))"
    and "s \<in> set (wk_slots F p) \<Longrightarrow> slot_held held (wk_pool (worker_of F p)) (ft_world F) s"
    and "distinct (map slot_path (wk_slots F p))"
    and "p \<noteq> q \<Longrightarrow> paths (wk_slots F p) \<inter> paths (wk_slots F q) = {}"
  using assms by (auto simp: fleet_inv_def)

text \<open>
  What every turn of an acquisition loop does, granted or not: it unlocks nothing, what it
  grants was unlocked before and is held after, and the GPUs already taken stay taken.
\<close>

definition turn_ok ::
  "('os \<Rightarrow> string \<Rightarrow> bool) \<Rightarrow> 'os state \<Rightarrow> node_slot list \<Rightarrow> 'os state \<Rightarrow> bool" where
  "turn_ok held s slots s' \<longleftrightarrow>
     pool_inv (fst s') \<and> distinct (map slot_path slots) \<and>
     (\<forall>x \<in> set slots. \<not> w_held held (snd s) (slot_path x) \<and> slot_held held (fst s') (snd s') x) \<and>
     (\<forall>l i. w_held held (snd s) (lock_path l i) \<longrightarrow> w_held held (snd s') (lock_path l i)) \<and>
     (\<forall>l a. get_alloc (fst s) l = Some a \<longrightarrow>
        (\<exists>a'. get_alloc (fst s') l = Some a' \<and> ga_pool a' = ga_pool a \<and> ga_available a' \<subseteq> ga_available a))"

lemma slot_held_turn:
  assumes "slot_held held (fst s) (snd s) x" and "turn_ok held s slots s'"
  shows "slot_held held (fst s') (snd s') x"
proof -
  from assms(1) obtain a where x: "slot_ok x" "w_held held (snd s) (slot_path x)"
    and a: "get_alloc (fst s) (ns_label (sl_spec x)) = Some a" "sl_gpu x \<in> set (ga_pool a)" "gi_index (sl_gpu x) \<notin> ga_available a"
    by (auto simp: slot_held_def)
  from assms(2) a(1) obtain a' where a': "get_alloc (fst s') (ns_label (sl_spec x)) = Some a'"
    "ga_pool a' = ga_pool a" "ga_available a' \<subseteq> ga_available a"
    unfolding turn_ok_def by blast
  have "w_held held (snd s') (slot_path x)"
    using assms(2) x slot_ok_path [OF x(1)] unfolding turn_ok_def by simp
  with x(1) a a' show ?thesis unfolding slot_held_def by auto
qed

lemma turn_keeps_inv:
  assumes inv: "fleet_inv held F" and turn: "turn_ok held (wk_pool (worker_of F p), ft_world F) slots s"
  shows "fleet_inv held (after_turn F p slots s)"
proof (rule fleet_invI)
  let ?F = "after_turn F p slots s" and ?s = "(wk_pool (worker_of F p), ft_world F)"
  have mine: "wk_slots ?F p = slots @ wk_slots F p" by (simp add: wk_slots_def after_turn_def)
  have theirs: "wk_slots ?F q = wk_slots F q" if "q \<noteq> p" for q using that by (simp add: wk_slots_def after_turn_def)
  have pools: "wk_pool (worker_of ?F q) = (if q = p then fst s else wk_pool (worker_of F q))" for q
    by (simp add: after_turn_def)
  have world: "ft_world ?F = snd s" by (simp add: after_turn_def)
  note inv = fleet_invD [OF inv]
  have t: "pool_inv (fst s)" "distinct (map slot_path slots)"
    "\<And>x. x \<in> set slots \<Longrightarrow> \<not> w_held held (ft_world F) (slot_path x)"
    "\<And>x. x \<in> set slots \<Longrightarrow> slot_held held (fst s) (snd s) x"
    "\<And>l i. w_held held (ft_world F) (lock_path l i) \<Longrightarrow> w_held held (snd s) (lock_path l i)"
    using turn by (auto simp: turn_ok_def)
  have new: "paths slots \<inter> paths (wk_slots F q) = {}" for q
  proof -
    have "w_held held (ft_world F) (slot_path y)" if "y \<in> set (wk_slots F q)" for y
      using inv(2) [OF that] by (simp add: slot_held_def)
    with t(3) show ?thesis by (fastforce simp: paths_def)
  qed
  fix q
  show "pool_inv (wk_pool (worker_of ?F q))" using inv(1) t(1) by (simp add: pools)
  show "distinct (map slot_path (wk_slots ?F q))"
    using inv(3) t(2) new [of p] by (cases "q = p") (auto simp: mine theirs paths_def)
  show "slot_held held (wk_pool (worker_of ?F q)) (ft_world ?F) x" if x: "x \<in> set (wk_slots ?F q)" for x
  proof (cases "q = p")
    case True
    with x mine t(4) slot_held_turn [OF _ turn] inv(2) show ?thesis by (auto simp: pools world)
  next
    case False
    with x theirs inv(2) have "slot_held held (wk_pool (worker_of F q)) (ft_world F) x" by simp
    with t(5) False show ?thesis by (auto simp: slot_held_def pools world dest: slot_ok_path)
  qed
  fix r assume "q \<noteq> r"
  then show "paths (wk_slots ?F q) \<inter> paths (wk_slots ?F r) = {}"
    using inv(4) [of q r] new [of q] new [of r]
    by (cases "q = p"; cases "r = p") (auto simp: mine theirs paths_def)
qed

subsection \<open>The three kinds of turns\<close>

lemma shrunk_set:
  "get_alloc np l = Some a \<Longrightarrow> ga_pool a' = ga_pool a \<Longrightarrow> ga_headroom_gb a' = ga_headroom_gb a \<Longrightarrow>
     ga_available a' \<subseteq> ga_available a \<Longrightarrow> shrunk np (set_alloc l a' np)"
  unfolding shrunk_def by blast

lemma turn_okI:
  assumes "pool_inv (fst s')" and "distinct (map slot_path slots)"
    and "\<And>x. x \<in> set slots \<Longrightarrow> \<not> w_held held (snd s) (slot_path x)"
    and "\<And>x. x \<in> set slots \<Longrightarrow> slot_held held (fst s') (snd s') x"
    and "\<And>l i. w_held held (snd s) (lock_path l i) \<Longrightarrow> w_held held (snd s') (lock_path l i)"
    and "fst s' = fst s \<or> shrunk (fst s) (fst s')"
  shows "turn_ok held s slots s'"
  unfolding turn_ok_def
proof (intro conjI allI impI ballI)
  fix l a assume a: "get_alloc (fst s) l = Some a"
  show "\<exists>a'. get_alloc (fst s') l = Some a' \<and> ga_pool a' = ga_pool a \<and> ga_available a' \<subseteq> ga_available a"
    using assms(6)
  proof
    assume "shrunk (fst s) (fst s')"
    then obtain k b b' where "get_alloc (fst s) k = Some b" "fst s' = set_alloc k b' (fst s)" "ga_pool b' = ga_pool b"
      "ga_available b' \<subseteq> ga_available b" by (auto simp: shrunk_def)
    with a show ?thesis by (cases "l = k") auto
  qed (use a in auto)
qed (use assms in auto)

lemma single_turn_ok:
  assumes ok: "filelock_ok fl held" and inv: "pool_inv np"
    and round: "acquire_slot_round fl tid req (np, w) = (r, np', w')"
  shows "turn_ok held (np, w) (granted_slot r) (np', w')"
  using ok inv round
proof (cases rule: slot_round_cases)
  case None
  with inv show ?thesis by (intro turn_okI) (auto simp: granted_slot_def gpu_locks_same_def)
next
  case Err
  with inv show ?thesis by (intro turn_okI) (auto simp: granted_slot_def intro: shrunk_inv)
next
  case (Slot slot)
  let ?l = "ns_label (sl_spec slot)" and ?i = "gi_index (sl_gpu slot)"
  from Slot(2) obtain a where g: "slot_ok slot" "get_alloc np ?l = Some a" "sl_gpu slot \<in> set (ga_pool a)"
      "np' = set_alloc ?l (discard ?i a) np" "\<not> w_held held w (slot_path slot)"
    and locks: "\<And>l i. w_held held w' (lock_path l i) \<longleftrightarrow> w_held held w (lock_path l i) \<or> lock_path l i = slot_path slot"
    by (auto simp: grants_slot_def)
  have "shrunk np np'" unfolding g(4) by (rule shrunk_set [OF g(2)]) auto
  moreover have "w_held held w' (slot_path slot)" using locks slot_ok_path [OF g(1)] by metis
  ultimately show ?thesis
    using Slot(1) g locks inv
    by (intro turn_okI) (auto simp: granted_slot_def slot_held_def intro: shrunk_inv)
qed

lemma owned_slots_held:
  assumes own: "owns held hb slots w'" and from_spec: "from_node spec slots"
    and a: "get_alloc np' (ns_label spec) = Some a'" "\<forall>x \<in> set slots. sl_gpu x \<in> set (ga_pool a')"
      "\<forall>x \<in> set slots. gi_index (sl_gpu x) \<notin> ga_available a'" and x: "x \<in> set slots"
  shows "slot_held held np' w' x" and "\<not> hb (slot_path x)"
  using assms by (auto simp: slot_held_def owns_def from_node_def)

lemma owned_turn_ok:
  assumes inv: "pool_inv np" and a: "get_alloc np (ns_label spec) = Some a"
    and np': "np' = set_alloc (ns_label spec) a' np" and restored: "release_all (map sl_gpu slots) a' = a"
    and free: "ga_available a' = ga_available a - (\<lambda>s. gi_index (sl_gpu s)) ` set slots"
    and gpus: "\<forall>x \<in> set slots. sl_gpu x \<in> set (ga_pool a)"
    and own: "owns held (w_held held w) slots w'" and fn: "from_node spec slots"
  shows "turn_ok held (np, w) slots (np', w')"
proof -
  have a': "ga_pool a' = ga_pool a" "ga_headroom_gb a' = ga_headroom_gb a" using restored by auto
  have sh: "shrunk np np'" unfolding np' by (rule shrunk_set [OF a]) (use free a' in auto)
  have taken: "\<forall>x \<in> set slots. gi_index (sl_gpu x) \<notin> ga_available a'" using free by auto
  have get: "get_alloc np' (ns_label spec) = Some a'" using np' by simp
  have pool: "\<forall>x \<in> set slots. sl_gpu x \<in> set (ga_pool a')" using gpus a'(1) by simp
  show ?thesis
    using own owned_slots_held [OF own fn get pool taken] sh shrunk_inv [OF sh inv]
    by (intro turn_okI) (auto simp: owns_def)
qed

lemma group_turn_ok:
  assumes ok: "filelock_ok fl held" and inv: "pool_inv np"
    and round: "slots_round fl tid req cnt specs (np, w) = (r, np', w')"
  shows "turn_ok held (np, w) (granted_group r) (np', w')"
proof -
  note c = slots_round_cases [OF ok round inv]
  consider "r = None" | e where "r = Some (Inl e)" | m where "r = Some (Inr m)"
    by (metis option.exhaust sum.exhaust)
  then show ?thesis
  proof cases
    case 1
    with c inv show ?thesis by (intro turn_okI) (auto simp: granted_group_def)
  next
    case 2
    with c inv show ?thesis by (intro turn_okI) (auto simp: granted_group_def intro: shrunk_inv)
  next
    case 3
    with c have g: "grants_group held req (nat cnt) (np, w) m (np', w')" by simp
    then obtain a a' where a: "get_alloc np (ns_label (ms_spec m)) = Some a" "np' = set_alloc (ns_label (ms_spec m)) a' np"
        "release_all (map sl_gpu (ms_slots m)) a' = a"
        "ga_available a' = ga_available a - (\<lambda>s. gi_index (sl_gpu s)) ` set (ms_slots m)"
        "\<forall>x \<in> set (ms_slots m). sl_gpu x \<in> set (ga_pool a)"
      unfolding grants_group_def gpu_indices_def set_map fst_conv by blast
    have "owns held (w_held held w) (ms_slots m) w'" "from_node (ms_spec m) (ms_slots m)"
      using g unfolding grants_group_def by simp_all
    from owned_turn_ok [OF inv a this] 3 show ?thesis by (simp add: granted_group_def)
  qed
qed

lemma index_turn_ok:
  assumes ok: "filelock_ok fl held" and inv: "pool_inv np"
    and round: "try_acquire_index_set fl tid spec is (np, w) = (r, np', w')"
  shows "turn_ok held (np, w) (granted_group r) (np', w')"
proof -
  note c = index_round_cases [OF ok round]
  consider "r = None" | e where "r = Some (Inl e)" | m where "r = Some (Inr m)"
    by (metis option.exhaust sum.exhaust)
  then show ?thesis
  proof cases
    case 1
    with c inv show ?thesis by (intro turn_okI) (auto simp: granted_group_def)
  next
    case 2
    with c(5) inv show ?thesis by (intro turn_okI) (auto simp: granted_group_def intro: shrunk_inv)
  next
    case 3
    from c(3) [OF 3] have g: "grants_indices held is (np, w) m (np', w')" by simp
    then have idx: "set is = (\<lambda>s. gi_index (sl_gpu s)) ` set (ms_slots m)"
      unfolding grants_indices_def gpu_indices_def by (metis set_map)
    from g obtain a a' where a: "get_alloc np (ns_label (ms_spec m)) = Some a" "np' = set_alloc (ns_label (ms_spec m)) a' np"
        "release_all (map sl_gpu (ms_slots m)) a' = a"
        "ga_available a' = ga_available a - (\<lambda>s. gi_index (sl_gpu s)) ` set (ms_slots m)"
        "\<forall>x \<in> set (ms_slots m). sl_gpu x \<in> set (ga_pool a)"
      unfolding grants_indices_def fst_conv idx by blast
    have "owns held (w_held held w) (ms_slots m) w'" "from_node (ms_spec m) (ms_slots m)"
      using g unfolding grants_indices_def by simp_all
    from owned_turn_ok [OF inv a this] 3 show ?thesis by (simp add: granted_group_def)
  qed
qed

subsection \<open>Giving back\<close>

text \<open>The indices a list of slots takes from the node with a label.\<close>

definition indices_on :: "string \<Rightarrow> node_slot list \<Rightarrow> int set" where
  "indices_on l slots = (\<lambda>s. gi_index (sl_gpu s)) ` {s \<in> set slots. ns_label (sl_spec s) = l}"

lemma release_slots_any:
  assumes ok: "filelock_ok fl held"
  shows "release_slots fl slots (np, w) = (slots', np', w') \<Longrightarrow> pool_inv np \<Longrightarrow>
    \<forall>x \<in> set slots. slot_ok x \<and> (\<exists>a. get_alloc np (ns_label (sl_spec x)) = Some a \<and> sl_gpu x \<in> set (ga_pool a)) \<Longrightarrow>
    pool_inv np' \<and> w_held held w' = (\<lambda>q. w_held held w q \<and> q \<notin> paths slots) \<and>
    (\<forall>l a. get_alloc np l = Some a \<longrightarrow> (\<exists>a'. get_alloc np' l = Some a' \<and> ga_pool a' = ga_pool a \<and>
       ga_available a' = ga_available a \<union> indices_on l slots))"
proof (induction slots arbitrary: np w slots')
  case Nil
  then show ?case by (auto simp: paths_def indices_on_def)
next
  case (Cons s slots)
  let ?l = "ns_label (sl_spec s)"
  obtain a where a: "get_alloc np ?l = Some a" "sl_gpu s \<in> set (ga_pool a)" using Cons.prems(3) by auto
  let ?np = "set_alloc ?l (release (sl_gpu s) a) np"
  obtain lk w1 where l: "lock_release fl (sl_lock s) w = (lk, w1)" by (cases "lock_release fl (sl_lock s) w")
  obtain sl where rec: "release_slots fl slots (?np, w1) = (sl, np', w')"
    using Cons.prems(1) a l by (auto simp: Let_def split: prod.splits)
  have inv: "pool_inv ?np"
    using Cons.prems(2) a by (intro set_alloc_inv) (auto simp: pool_inv_def)
  have pre: "\<forall>x \<in> set slots. slot_ok x \<and> (\<exists>a. get_alloc ?np (ns_label (sl_spec x)) = Some a \<and> sl_gpu x \<in> set (ga_pool a))"
    using Cons.prems(3) a by auto
  note IH = Cons.IH [OF rec inv pre]
  have held: "w_held held w1 = (w_held held w)(slot_path s := False)"
    using lock_release_held [OF ok l] Cons.prems(3) slot_ok_locked by (simp add: slot_path_def)
  have alloc: "\<exists>b'. get_alloc np' l = Some b' \<and> ga_pool b' = ga_pool b \<and>
      ga_available b' = ga_available b \<union> indices_on l (s # slots)" if b: "get_alloc np l = Some b" for l b
  proof (cases "l = ?l")
    case True
    then have "get_alloc ?np l = Some (release (sl_gpu s) a)" by simp
    with IH have "\<exists>b'. get_alloc np' l = Some b' \<and> ga_pool b' = ga_pool (release (sl_gpu s) a) \<and>
      ga_available b' = ga_available (release (sl_gpu s) a) \<union> indices_on l slots" by blast
    with True a b show ?thesis by (auto simp: indices_on_def)
  next
    case False
    with b have "get_alloc ?np l = Some b" by simp
    with IH have "\<exists>b'. get_alloc np' l = Some b' \<and> ga_pool b' = ga_pool b \<and>
      ga_available b' = ga_available b \<union> indices_on l slots" by blast
    moreover have "indices_on l (s # slots) = indices_on l slots" using False by (auto simp: indices_on_def)
    ultimately show ?thesis by simp
  qed
  from IH held alloc show ?case by (auto simp: paths_def fun_eq_iff)
qed

lemma give_back_keeps_inv:
  assumes ok: "filelock_ok fl held" and inv: "fleet_inv held F"
    and groups: "wk_groups (worker_of F p) = gs1 @ g # gs2"
    and rel: "pool_release fl g (wk_pool (worker_of F p), ft_world F) = (g', np', w')"
  shows "fleet_inv held \<lparr>ft_world = w', ft_workers = (ft_workers F)(p := \<lparr>wk_pool = np', wk_groups = gs1 @ gs2\<rparr>)\<rparr>"
    (is "fleet_inv held ?F")
proof -
  let ?np = "wk_pool (worker_of F p)" and ?rest = "concat (gs1 @ gs2)"
  note i = fleet_invD [OF inv]
  have mine: "wk_slots F p = concat gs1 @ g @ concat gs2" by (simp add: wk_slots_def groups)
  have slots: "wk_slots ?F q = (if q = p then ?rest else wk_slots F q)" for q by (simp add: wk_slots_def)
  obtain np1 where r: "release_slots fl g (?np, ft_world F) = (g', np1, w')" "np' = np1\<lparr>np_event := True\<rparr>"
    using rel by (auto simp: pool_release_def split: prod.splits)
  have pre: "\<forall>x \<in> set g. slot_ok x \<and> (\<exists>a. get_alloc ?np (ns_label (sl_spec x)) = Some a \<and> sl_gpu x \<in> set (ga_pool a))"
    using i(2) [of _ p] by (auto simp: mine slot_held_def)
  note rs = release_slots_any [OF ok r(1) i(1) pre]
  have others: "slot_path x \<notin> paths g" if "x \<in> set ?rest" for x
  proof -
    have "(slot_path ` set (concat gs1) \<union> slot_path ` set (concat gs2)) \<inter> slot_path ` set g = {}"
      using i(3) [of p] unfolding mine map_append distinct_append set_append set_map by blast
    with that show ?thesis by (simp add: paths_def) blast
  qed
  have keep: "slot_held held np' w' x" if x: "x \<in> set ?rest" for x
  proof -
    have h: "slot_held held ?np (ft_world F) x" using i(2) [of x p] x by (auto simp: mine)
    then obtain a where a: "slot_ok x" "get_alloc ?np (ns_label (sl_spec x)) = Some a" "sl_gpu x \<in> set (ga_pool a)"
      "gi_index (sl_gpu x) \<notin> ga_available a" "w_held held (ft_world F) (slot_path x)" by (auto simp: slot_held_def)
    have "gi_index (sl_gpu x) \<notin> indices_on (ns_label (sl_spec x)) g"
    proof
      assume "gi_index (sl_gpu x) \<in> indices_on (ns_label (sl_spec x)) g"
      then obtain y where y: "y \<in> set g" "ns_label (sl_spec y) = ns_label (sl_spec x)" "gi_index (sl_gpu y) = gi_index (sl_gpu x)"
        by (auto simp: indices_on_def)
      with pre a(1) have "slot_path x = slot_path y" by (simp add: slot_ok_path)
      with others [OF x] y(1) show False by (simp add: paths_def)
    qed
    moreover obtain a' where "get_alloc np1 (ns_label (sl_spec x)) = Some a'" "ga_pool a' = ga_pool a"
      "ga_available a' = ga_available a \<union> indices_on (ns_label (sl_spec x)) g" using rs a(2) by blast
    ultimately show ?thesis using a others [OF x] rs r(2) by (simp add: slot_held_def)
  qed
  show ?thesis
  proof (rule fleet_invI)
    fix q
    have "pool_inv np'" using rs r(2) by (simp add: pool_inv_def)
    then show "pool_inv (wk_pool (worker_of ?F q))" using i(1) by simp
    show "distinct (map slot_path (wk_slots ?F q))"
    proof (cases "q = p")
      case True
      have "distinct (map slot_path (concat gs1 @ concat gs2))"
        using i(3) [of p] unfolding mine map_append distinct_append set_append set_map by blast
      with True show ?thesis by (simp add: slots)
    qed (use i(3) in \<open>simp add: slots\<close>)
    show "slot_held held (wk_pool (worker_of ?F q)) (ft_world ?F) x" if x: "x \<in> set (wk_slots ?F q)" for x
    proof (cases "q = p")
      case True
      with x keep show ?thesis by (simp add: slots)
    next
      case False
      with x have "slot_held held (wk_pool (worker_of F q)) (ft_world F) x" using i(2) by (simp add: slots)
      moreover have "slot_path x \<notin> paths g"
        using i(4) [OF False] x False by (auto simp: slots mine paths_def)
      ultimately show ?thesis using False rs by (simp add: slot_held_def)
    qed
    fix r assume "q \<noteq> r"
    then show "paths (wk_slots ?F q) \<inter> paths (wk_slots ?F r) = {}"
      using i(4) [of q r] by (cases "q = p"; cases "r = p") (auto simp: slots mine paths_def)
  qed
qed

subsection \<open>All steps\<close>

lemma death_keeps_inv:
  assumes inv: "fleet_inv held F"
    and freed: "w_held held w' = (\<lambda>q. w_held held (ft_world F) q \<and> q \<notin> paths (wk_slots F p))" and np: "pool_inv np"
  shows "fleet_inv held \<lparr>ft_world = w', ft_workers = (ft_workers F)(p := \<lparr>wk_pool = np, wk_groups = []\<rparr>)\<rparr>"
    (is "fleet_inv held ?F")
proof (rule fleet_invI)
  note i = fleet_invD [OF inv]
  have slots: "wk_slots ?F q = (if q = p then [] else wk_slots F q)" for q by (simp add: wk_slots_def)
  fix q
  show "pool_inv (wk_pool (worker_of ?F q))" using i(1) np by simp
  show "distinct (map slot_path (wk_slots ?F q))" using i(3) by (simp add: slots)
  show "slot_held held (wk_pool (worker_of ?F q)) (ft_world ?F) x" if x: "x \<in> set (wk_slots ?F q)" for x
  proof -
    have q: "q \<noteq> p" and x': "x \<in> set (wk_slots F q)" using x by (auto simp: slots split: if_splits)
    have "slot_path x \<notin> paths (wk_slots F p)" using i(4) [OF q] x' by (auto simp: paths_def)
    with i(2) [OF x'] q freed show ?thesis by (simp add: slot_held_def)
  qed
  fix r assume "q \<noteq> r"
  then show "paths (wk_slots ?F q) \<inter> paths (wk_slots ?F r) = {}" using i(4) by (simp add: slots paths_def)
qed

lemma fleet_step_inv:
  assumes ok: "filelock_ok fl held"
  shows "fleet_step fl held F F' \<Longrightarrow> fleet_inv held F \<Longrightarrow> fleet_inv held F'"
proof (induction rule: fleet_step.induct)
  case (single_turn tid req F p r s)
  then show ?case
    by (cases s) (auto intro: turn_keeps_inv single_turn_ok [OF ok] dest: fleet_invD(1))
next
  case (group_turn tid req cnt F p label r s)
  then show ?case
    by (cases s) (auto intro: turn_keeps_inv group_turn_ok [OF ok] dest: fleet_invD(1))
next
  case (index_turn tid spec "is" F p r s)
  then show ?case
    by (cases s) (auto intro: turn_keeps_inv index_turn_ok [OF ok] dest: fleet_invD(1))
next
  case (give_back F p gs1 g gs2 g' np' w')
  then show ?case by (intro give_back_keeps_inv [OF ok])
next
  case (other_activity w' F)
  have same: "slot_held held np w' x" if "slot_held held np (ft_world F) x" for np x
    using that other_activity.hyps by (auto simp: slot_held_def dest: slot_ok_path)
  note i = fleet_invD [OF other_activity.prems]
  show ?case
    by (rule fleet_invI) (use i same in \<open>simp_all add: wk_slots_def\<close>)
next
  case (death w' F p np)
  then show ?case by (intro death_keeps_inv)
qed

lemma reachable_inv:
  assumes "filelock_ok fl held"
  shows "reachable fl held F \<Longrightarrow> fleet_inv held F"
proof (induction rule: reachable.induct)
  case (start F)
  then show ?case by (auto simp: fleet_start_def fleet_inv_def wk_slots_def paths_def)
next
  case (step F F')
  then show ?case using fleet_step_inv [OF assms] by blast
qed

subsection \<open>Mutual exclusion\<close>

text \<open>
  A run of two workers over the two-node fleet of \<open>PoolDemo\<close>: worker 1 takes the first GPU, worker 2
  skips it because of its lock file and takes the second.
\<close>

definition demo_start :: "string set fleet" where
  "demo_start = \<lparr>ft_world = demo_world {}, ft_workers = (\<lambda>_. \<lparr>wk_pool = demo_pool demo_nodes, wk_groups = []\<rparr>)\<rparr>"

definition demo_turn :: "int \<Rightarrow> string set fleet \<Rightarrow> string set fleet" where
  "demo_turn p F =
     (case acquire_slot_round table_locks ''t'' 4 (wk_pool (worker_of F p), ft_world F) of
        (r, s) \<Rightarrow> after_turn F p (granted_slot r) s)"

lemma demo_turn_step: "fleet_step table_locks (\<lambda>s p. p \<in> s) F (demo_turn p F)"
  unfolding demo_turn_def by (auto split: prod.splits intro: single_turn)

lemma demo_reachable: "reachable table_locks (\<lambda>s p. p \<in> s) (demo_turn 2 (demo_turn 1 demo_start))"
  by (intro reachable.step [OF _ demo_turn_step] reachable.start)
    (simp add: fleet_start_def demo_start_def demo_inv)

text \<open>
  C1. In every reachable state of the session no two slots name the same GPU: different workers
  never hold slots with the same node label and GPU index, and neither does one worker twice.
  This holds under every interleaving of turns, releases and deaths of the workers.
\<close>

theorem gpu_mutual_exclusion:
  assumes ok: "filelock_ok fl held" and reach: "reachable fl held F"
    and slots: "i < length (wk_slots F p)" "j < length (wk_slots F q)" "(p, i) \<noteq> (q, j)"
  shows "(safe_label (ns_label (sl_spec (wk_slots F p ! i))), gi_index (sl_gpu (wk_slots F p ! i)))
    \<noteq> (safe_label (ns_label (sl_spec (wk_slots F q ! j))), gi_index (sl_gpu (wk_slots F q ! j)))"
proof -
  let ?s = "wk_slots F p ! i" and ?t = "wk_slots F q ! j"
  note inv = fleet_invD [OF reachable_inv [OF ok reach]]
  have mem: "?s \<in> set (wk_slots F p)" "?t \<in> set (wk_slots F q)" using slots by simp_all
  have "slot_path ?s \<noteq> slot_path ?t"
  proof (cases "p = q")
    case True
    with slots inv(3) [of p] show ?thesis by (auto simp: distinct_conv_nth)
  next
    case False
    from inv(4) [OF False] mem show ?thesis by (auto simp: paths_def)
  qed
  moreover have "slot_ok ?s" "slot_ok ?t" using inv(2) mem by (auto simp: slot_held_def)
  ultimately show ?thesis by (simp add: slot_ok_path lock_path_inject)
qed

theorem gpu_mutual_exclusion_witness:
  "length (wk_slots (demo_turn 2 (demo_turn 1 demo_start)) 1) = 1 \<and>
   length (wk_slots (demo_turn 2 (demo_turn 1 demo_start)) 2) = 1 \<and>
   (safe_label (ns_label (sl_spec (wk_slots (demo_turn 2 (demo_turn 1 demo_start)) 1 ! 0))),
    gi_index (sl_gpu (wk_slots (demo_turn 2 (demo_turn 1 demo_start)) 1 ! 0)))
   \<noteq> (safe_label (ns_label (sl_spec (wk_slots (demo_turn 2 (demo_turn 1 demo_start)) 2 ! 0))),
      gi_index (sl_gpu (wk_slots (demo_turn 2 (demo_turn 1 demo_start)) 2 ! 0)))"
proof -
  have one: "length (wk_slots (demo_turn 2 (demo_turn 1 demo_start)) 1) = 1" by code_simp
  have two: "length (wk_slots (demo_turn 2 (demo_turn 1 demo_start)) 2) = 1" by code_simp
  show ?thesis
    using gpu_mutual_exclusion [OF table_locks_ok demo_reachable, of 0 1 0 2] one two
    by (simp only: one_neq_zero zero_less_one prod.inject) simp
qed

text \<open>
  C8. Every slot a worker holds in a reachable state is backed: its lock file, which is the lock file of its GPU, is
  held, and the worker's pool has an allocator for its node, which knows the GPU and does not have it in its free set. So
  neither \<open>allocate\<close> nor \<open>allocate_specific\<close> of this allocator hands the GPU out a second time.
\<close>

theorem held_slots_backed:
  assumes ok: "filelock_ok fl held" and reach: "reachable fl held F" and slot: "s \<in> set (wk_slots F p)"
  shows "w_held held (ft_world F) (lock_path (ns_label (sl_spec s)) (gi_index (sl_gpu s))) \<and>
    (\<exists>a. get_alloc (wk_pool (worker_of F p)) (ns_label (sl_spec s)) = Some a \<and>
       sl_gpu s \<in> set (ga_pool a) \<and> gi_index (sl_gpu s) \<notin> ga_available a \<and>
       allocate_specific_now (gi_index (sl_gpu s)) a = Inl RuntimeError \<and>
       (\<forall>req g a'. allocate_now req a = Inr (g, a') \<longrightarrow> gi_index g \<noteq> gi_index (sl_gpu s)))"
proof -
  have "slot_held held (wk_pool (worker_of F p)) (ft_world F) s"
    by (rule fleet_invD(2) [OF reachable_inv [OF ok reach] slot])
  then obtain a where h: "slot_ok s" "w_held held (ft_world F) (slot_path s)"
    and a: "get_alloc (wk_pool (worker_of F p)) (ns_label (sl_spec s)) = Some a" "sl_gpu s \<in> set (ga_pool a)"
      "gi_index (sl_gpu s) \<notin> ga_available a" by (auto simp: slot_held_def)
  have "allocate_specific_now (gi_index (sl_gpu s)) a = Inl RuntimeError"
    using a(2,3) by (auto simp: allocate_specific_now_Inl)
  moreover have "gi_index g \<noteq> gi_index (sl_gpu s)" if "allocate_now req a = Inr (g, a')" for req g a'
    using allocate_now_Inr(2) [OF that] a(3) by (auto simp: eligible_def)
  ultimately show ?thesis using h a by (auto simp: slot_ok_path)
qed

theorem held_slots_backed_witness:
  "\<exists>s a. wk_slots (demo_turn 2 (demo_turn 1 demo_start)) 2 = [s] \<and>
     lock_path (ns_label (sl_spec s)) (gi_index (sl_gpu s)) \<in> w_os (ft_world (demo_turn 2 (demo_turn 1 demo_start))) \<and>
     get_alloc (wk_pool (worker_of (demo_turn 2 (demo_turn 1 demo_start)) 2)) (ns_label (sl_spec s)) = Some a \<and>
     gi_index (sl_gpu s) \<notin> ga_available a"
proof -
  have "length (wk_slots (demo_turn 2 (demo_turn 1 demo_start)) 2) = 1" by code_simp
  then obtain s where s: "wk_slots (demo_turn 2 (demo_turn 1 demo_start)) 2 = [s]" by (auto simp: length_Suc_conv)
  then have "s \<in> set (wk_slots (demo_turn 2 (demo_turn 1 demo_start)) 2)" by simp
  from held_slots_backed [OF table_locks_ok demo_reachable this] s show ?thesis by blast
qed

end
