(* ===== verification/PoolTheorems.thy ===== *)
theory PoolTheorems
  imports PoolDemo
begin

text \<open>
  The contracts of the acquisition operations of \<open>NodePool\<close> as the callers see them: they
  return, what they grant, what they leave behind when they fail, and the situations in which
  they do not keep their documentation.
\<close>

subsection \<open>Single slots\<close>

lemma time_sleep_fst [simp]: "fst (time_sleep d others n s) = fst (others n s)"
  by (auto simp: time_sleep_def split: prod.splits)

lemma time_sleep_os [simp]: "w_os (snd (time_sleep d others n s)) = w_os (snd (others n s))"
  by (auto simp: time_sleep_def split: prod.splits)

lemma event_wait_fst [simp]: "fst (event_wait d others n (np, w)) = fst (others n (np\<lparr>np_event := False\<rparr>, w))"
  by (auto simp: event_wait_def split: prod.splits)

lemma grants_slot_inv:
  assumes "grants_slot held req s slot s'" and "pool_inv (fst s)"
  shows "pool_inv (fst s')"
  using assms by (auto simp: grants_slot_def intro: set_alloc_discard_inv)

text \<open>The turns of \<open>acquire_slot\<close>, and that each of them finds the invariant.\<close>

abbreviation slot_turn ::
  "'os others \<Rightarrow> 'os filelock \<Rightarrow> string \<Rightarrow> rat \<Rightarrow> rat \<Rightarrow> 'os state \<Rightarrow> nat \<Rightarrow> 'os state \<Rightarrow> bool" where
  "slot_turn others fl tid req deadline \<equiv>
     poll_turn (acquire_slot_round fl tid req) (past deadline) (time_sleep (1 / 2) others) 0"

lemma slot_turn_inv:
  assumes "slot_turn others fl tid req d s n u" and ok: "filelock_ok fl held" and "pool_inv (fst s)"
    and keep: "keeps_pool_inv others"
  shows "pool_inv (fst u)"
  using assms(1,3)
proof (rule poll_turn_keeps [where I = "\<lambda>u. pool_inv (fst u)"])
  fix n u u' assume u: "pool_inv (fst u)" "acquire_slot_round fl tid req u = (None, u')"
  obtain np w np' w' where e: "u = (np, w)" "u' = (np', w')" by (cases u, cases u')
  with u have "np' = np" by (cases rule: slot_round_cases [OF ok u(1) [unfolded e fst_conv] u(2) [unfolded e]]) auto
  with u e keep show "pool_inv (fst (time_sleep (1 / 2) others n u'))" by (simp add: keeps_pool_inv_def)
qed

text \<open>
  C2. \<open>acquire_slot\<close> always returns. Without a GPU of the required size it raises \<open>RuntimeError\<close> at once and changes
  nothing. Otherwise its result is that of the last turn of its loop, which starts in a state \<open>u\<close> that the loop has come
  to from the caller's state by failed turns and pauses: a granted slot belongs to a GPU that was free and large enough
  in \<open>u\<close>, whose lock file was free in \<open>u\<close>, and which is the first such GPU of its node in the order of NUMA node and
  index; exactly this GPU leaves the free set and exactly its lock file becomes held. A \<open>RuntimeError\<close> is raised at
  or after the deadline only, when a node asked to yield or no free GPU with a free lock was left, and the turn has
  given back whatever it took. An \<open>OSError\<close> is that of a lock file that could not be locked.
\<close>

theorem acquire_slot_total:
  assumes ok: "filelock_ok fl held" and inv: "pool_inv np" and keep: "keeps_pool_inv others"
  shows "\<exists>r s'. acquire_slot others fl req wait tid (np, w) = Some (r, s') \<and>
    (if has_vram_capacity np req 1 None
     then \<exists>n u. slot_turn others fl tid req (w_clock w + wait) (np, w) n u \<and> pool_inv (fst u) \<and>
       decided (acquire_slot_round fl tid req u) = (r, s') \<and>
       (case r of
          Inr slot \<Rightarrow> grants_slot held req u slot s' \<and> pool_inv (fst s')
        | Inl RuntimeError \<Rightarrow> w_clock w + wait \<le> w_clock (snd s') \<and> fst s' = fst u \<and> gpu_locks_same held (snd u) (snd s') \<and>
            (fst (yield_check fl (fst u) (np_specs (fst u)) (snd u)) \<or> nothing_free held req u)
        | Inl OSError \<Rightarrow> lock_failed fl (np_specs (fst u)) (fst u) (snd s') \<and> shrunk (fst u) (fst s') \<and>
            (\<forall>l i. w_held held (snd s') (lock_path l i) = w_held held (snd u) (lock_path l i))
        | _ \<Rightarrow> False)
     else r = Inl RuntimeError \<and> s' = (np, w))"
proof (cases "has_vram_capacity np req 1 None")
  case False
  then show ?thesis by (simp add: acquire_slot_def)
next
  case True
  obtain q s' where ret: "poll (acquire_slot_round fl tid req) (past (w_clock w + wait)) (time_sleep (1 / 2) others) 0 (np, w)
      = Some (q, s')"
    using slot_loop.returns unfolding past_clock by blast
  from poll_last_turn [OF ret] obtain n u where turn: "slot_turn others fl tid req (w_clock w + wait) (np, w) n u"
    and round: "acquire_slot_round fl tid req u = (q, s')" and late: "q = None \<longrightarrow> past (w_clock w + wait) s'" by blast
  have u: "pool_inv (fst u)" using slot_turn_inv [OF turn ok _ keep] inv by simp
  have eq: "acquire_slot others fl req wait tid (np, w) = Some (fst (decided (q, s')), s')"
    using True ret by (simp add: acquire_slot_def decided_def split: option.splits)
  have dec: "decided (acquire_slot_round fl tid req u) = (fst (decided (q, s')), s')"
    using round by (simp add: decided_def split: option.splits)
  have "case fst (decided (q, s')) of
          Inr slot \<Rightarrow> grants_slot held req u slot s' \<and> pool_inv (fst s')
        | Inl RuntimeError \<Rightarrow> w_clock w + wait \<le> w_clock (snd s') \<and> fst s' = fst u \<and> gpu_locks_same held (snd u) (snd s') \<and>
            (fst (yield_check fl (fst u) (np_specs (fst u)) (snd u)) \<or> nothing_free held req u)
        | Inl OSError \<Rightarrow> lock_failed fl (np_specs (fst u)) (fst u) (snd s') \<and> shrunk (fst u) (fst s') \<and>
            (\<forall>l i. w_held held (snd s') (lock_path l i) = w_held held (snd u) (lock_path l i))
        | _ \<Rightarrow> False"
  proof -
    obtain np0 w0 np' w' where p: "u = (np0, w0)" "s' = (np', w')" by (cases u, cases s')
    have i: "pool_inv np0" using u p by simp
    from ok i round [unfolded p] show ?thesis
      by (cases rule: slot_round_cases)
        (use late p i grants_slot_inv in \<open>auto simp: decided_def past_def\<close>)
  qed
  note facts = eq True turn u dec this
  show ?thesis
    by (intro exI [of _ "fst (decided (q, s'))"] exI [of _ s'], simp only: facts if_True simp_thms)
      (intro exI [of _ n] exI [of _ u], simp only: facts simp_thms)
qed

theorem acquire_slot_total_witness:
  "\<exists>slot s' n u. acquire_slot idle table_locks 4 0 ''t'' (demo_pool demo_nodes, demo_world {}) = Some (Inr slot, s') \<and>
     gi_index (sl_gpu slot) = 0 \<and> slot_turn idle table_locks ''t'' 4 0 (demo_pool demo_nodes, demo_world {}) n u \<and>
     grants_slot (\<lambda>s p. p \<in> s) 4 u slot s'"
proof -
  have "case acquire_slot idle table_locks 4 0 ''t'' (demo_pool demo_nodes, demo_world {}) of
      Some (Inr slot, s) \<Rightarrow> gi_index (sl_gpu slot) = 0 | _ \<Rightarrow> False" by code_simp
  then obtain slot s' where run: "acquire_slot idle table_locks 4 0 ''t'' (demo_pool demo_nodes, demo_world {})
      = Some (Inr slot, s')" and "gi_index (sl_gpu slot) = 0"
    by (auto dest!: granted_case)
  moreover have "w_clock (demo_world {}) + 0 = 0" by code_simp
  ultimately show ?thesis
    using acquire_slot_total [OF table_locks_ok demo_inv idle_inv, of 4 0 "''t''" "demo_world {}"]
    by (auto simp del: split_paired_Ex split: if_splits)
qed

text \<open>
  C9. When no node asks single-GPU callers to yield, the lock files raise no I/O error and some
  node has a free, large enough GPU whose lock file is free, \<open>acquire_slot\<close> grants a slot in its first
  turn, without sleeping, even with a timeout of zero.
\<close>

theorem acquire_slot_served:
  assumes ok: "filelock_ok fl held" and io: "no_io_failure fl" and inv: "pool_inv np"
    and calm: "fst (yield_check fl np (np_specs np) w) = False"
    and spec: "spec \<in> set (np_specs np)" "get_alloc np (ns_label spec) = Some a"
    and gpu: "g \<in> set (ga_pool a)" "eligible req a g" "\<not> w_held held w (gpu_lock spec g)"
  shows "\<exists>slot s'. acquire_slot others fl req wait tid (np, w) = Some (Inr slot, s') \<and>
    grants_slot held req (np, w) slot s'"
proof -
  have cap: "has_vram_capacity np req 1 None"
  proof -
    have "ga_headroom_gb a = np_headroom_gb np" using inv spec(2) by (simp add: pool_inv_def)
    then have "req = 0 \<or> vram_fits (np_headroom_gb np) req g" using gpu(2) by (simp add: eligible_def)
    moreover have "1 \<le> length (filter (vram_fits (np_headroom_gb np) req) (ga_pool a))"
      if "vram_fits (np_headroom_gb np) req g"
      using that gpu(1) by (auto simp: Suc_le_eq filter_empty_conv)
    ultimately show ?thesis
      using spec by (auto simp: has_vram_capacity_def intro!: bexI [of _ spec])
  qed
  obtain w1 where y: "yield_check fl np (np_specs np) w = (False, w1)"
    using calm by (cases "yield_check fl np (np_specs np) w") auto
  have same: "gpu_locks_same held w w1" using yield_check_same [OF ok, of w np "np_specs np"] y by simp
  obtain r np' w' where sc: "scan_specs fl tid req (np_specs np) (np, w1) = (r, np', w')" by (metis prod.exhaust)
  have "r \<noteq> None"
  proof
    assume "r = None"
    with scan_specs_sound [OF ok sc inv] spec gpu(1,2) have "w_held held w1 (gpu_lock spec g)" by auto
    with gpu(3) same_locks(1) [OF same] show False by simp
  qed
  moreover have "r \<noteq> Some (Inl e)" for e
    using scan_specs_io [OF ok _ inv] sc no_lock_failed [OF io] by blast
  ultimately obtain slot where r: "r = Some (Inr slot)" by (metis option.exhaust sum.exhaust)
  have round: "acquire_slot_round fl tid req (np, w) = (Some (Inr slot), np', w')"
    using y sc r by (simp add: acquire_slot_round_def)
  from ok inv round have "grants_slot held req (np, w) slot (np', w')"
    by (cases rule: slot_round_cases) auto
  with cap round show ?thesis by (auto simp: acquire_slot_def poll_done decided_def)
qed

theorem acquire_slot_served_witness:
  "\<exists>slot s'. acquire_slot idle table_locks 4 0 ''t'' (demo_pool demo_nodes, demo_world {lock_path ''a'' 0})
     = Some (Inr slot, s') \<and>
     grants_slot (\<lambda>s p. p \<in> s) 4 (demo_pool demo_nodes, demo_world {lock_path ''a'' 0}) slot s'"
proof (rule acquire_slot_served [OF table_locks_ok table_no_io demo_inv, where spec = "demo_spec ''a''" and
      a = "new_allocator [demo_gpu 0, demo_gpu 1] 2" and g = "demo_gpu 1"])
  show "fst (yield_check table_locks (demo_pool demo_nodes) (np_specs (demo_pool demo_nodes))
      (demo_world {lock_path ''a'' 0})) = False" by code_simp
  show "demo_spec ''a'' \<in> set (np_specs (demo_pool demo_nodes))" by code_simp
  show "get_alloc (demo_pool demo_nodes) (ns_label (demo_spec ''a'')) = Some (new_allocator [demo_gpu 0, demo_gpu 1] 2)"
    by code_simp
  show "demo_gpu 1 \<in> set (ga_pool (new_allocator [demo_gpu 0, demo_gpu 1] 2))" by code_simp
  show "eligible 4 (new_allocator [demo_gpu 0, demo_gpu 1] 2) (demo_gpu 1)" by code_simp
  show "gpu_lock (demo_spec ''a'') (demo_gpu 1) \<notin> w_os (demo_world {lock_path ''a'' 0})" by code_simp
qed

subsection \<open>Groups of slots\<close>

lemma register_all_same:
  assumes "filelock_ok fl held"
  shows "gpu_locks_same held w (snd (register_all fl cnt d specs regs w))"
proof (induction specs arbitrary: regs w)
  case (Cons spec specs)
  obtain i w1 where r: "register fl (ns_label spec) cnt d w = (i, w1)" by (cases "register fl (ns_label spec) cnt d w")
  with register_same [OF assms, of w "ns_label spec" cnt d] Cons.IH show ?case
    by (auto intro: gpu_locks_same_trans)
qed simp

lemma deregister_all_same:
  assumes "filelock_ok fl held"
  shows "gpu_locks_same held w (deregister_all fl regs w)"
proof (induction regs arbitrary: w)
  case (Cons x regs)
  obtain l i where "x = (l, i)" by (cases x)
  with deregister_same [OF assms, of w l i] Cons.IH show ?case by (auto intro: gpu_locks_same_trans)
qed simp

text \<open>The part of a grant that speaks about GPU locks: the other files may change after it.\<close>

definition group_granted ::
  "('os \<Rightarrow> string \<Rightarrow> bool) \<Rightarrow> rat \<Rightarrow> nat \<Rightarrow> 'os state \<Rightarrow> multi_gpu_slots \<Rightarrow> 'os state \<Rightarrow> bool" where
  "group_granted held req n s m s' \<longleftrightarrow>
     (\<exists>w1. grants_group held req n s m (fst s', w1) \<and>
        (\<forall>l i. w_held held (snd s') (lock_path l i) = w_held held w1 (lock_path l i)))"

text \<open>The turns of \<open>acquire_slots\<close>. A turn that fails gives back whatever it took.\<close>

abbreviation slots_turn ::
  "'os others \<Rightarrow> 'os filelock \<Rightarrow> string \<Rightarrow> rat \<Rightarrow> int \<Rightarrow> string option \<Rightarrow> rat \<Rightarrow> 'os state \<Rightarrow> nat \<Rightarrow> 'os state \<Rightarrow> bool" where
  "slots_turn others fl tid req cnt label deadline \<equiv>
     poll_turn (\<lambda>s. slots_round fl tid req cnt (candidate_specs (fst s) label) s) (past deadline) (time_sleep (1 / 2) others) 0"

lemma failed_slots_turn:
  assumes "filelock_ok fl held" and "pool_inv (fst u)" and "slots_round fl tid req cnt specs u = (None, u')"
  shows "fst u' = fst u \<and> w_held held (snd u') = w_held held (snd u)"
  using slots_round_cases [OF assms(1), of tid req cnt specs "fst u" "snd u" None "fst u'" "snd u'"] assms(2,3) by simp

lemma slots_turn_inv:
  assumes "slots_turn others fl tid req cnt label d s n u" and ok: "filelock_ok fl held" and "pool_inv (fst s)"
    and keep: "keeps_pool_inv others"
  shows "pool_inv (fst u)"
  using assms(1,3)
proof (rule poll_turn_keeps [where I = "\<lambda>u. pool_inv (fst u)"])
  fix n u u' assume u: "pool_inv (fst u)" "slots_round fl tid req cnt (candidate_specs (fst u) label) u = (None, u')"
  with failed_slots_turn [OF ok u] keep show "pool_inv (fst (time_sleep (1 / 2) others n u'))"
    by (cases u') (simp add: keeps_pool_inv_def)
qed



text \<open>An environment that leaves the caller's pool and the GPU locks alone while the caller sleeps.\<close>

definition leaves_gpus :: "('os \<Rightarrow> string \<Rightarrow> bool) \<Rightarrow> 'os others \<Rightarrow> bool" where
  "leaves_gpus held others \<longleftrightarrow> (\<forall>n s. fst (others n s) = fst s \<and>
     (\<forall>l i. w_held held (snd (others n s)) (lock_path l i) = w_held held (snd s) (lock_path l i)))"

lemma idle_leaves_gpus: "leaves_gpus held idle"
  by (simp add: leaves_gpus_def idle_def)

lemma acquire_slots_last_round:
  assumes ok: "filelock_ok fl held" and inv: "pool_inv np" and env: "leaves_gpus held others"
    and call: "acquire_slots others fl cnt label req wait tid (np, w) = Some (res, np', w')"
    and cap: "has_vram_capacity np req cnt label"
  shows "\<exists>v r w2. (\<forall>l i. w_held held v (lock_path l i) = w_held held w (lock_path l i)) \<and>
    slots_round fl tid req cnt (candidate_specs np label) (np, v) = (r, np', w2) \<and>
    res = fst (decided (r, np', w2)) \<and> gpu_locks_same held w2 w'"
proof -
  let ?I = "\<lambda>u. fst u = np \<and> (\<forall>l i. w_held held (snd u) (lock_path l i) = w_held held w (lock_path l i))"
  obtain regs w1 where reg: "register_all fl cnt (w_clock w + wait) (candidate_specs np label) [] w = (regs, w1)" by force
  obtain r np2 w2 where loop: "poll (\<lambda>s. slots_round fl tid req cnt (candidate_specs (fst s) label) s)
      (past (w_clock w + wait)) (time_sleep (1 / 2) others) 0 (np, w1) = Some (r, np2, w2)"
    and res: "finally_deregister fl regs (decided (r, np2, w2)) = (res, np', w')"
    using cap reg call by (auto simp: acquire_slots_def Let_def)
  have "\<exists>u. ?I u \<and> slots_round fl tid req cnt (candidate_specs (fst u) label) u = (r, np2, w2) \<and>
      (r = None \<longrightarrow> past (w_clock w + wait) (np2, w2))"
  proof (rule poll_result [OF loop, where I = ?I])
    show "?I (np, w1)" using register_all_same [OF ok, of w cnt "w_clock w + wait" "candidate_specs np label" "[]"] reg
      by (simp add: gpu_locks_same_def)
    fix n u u' assume u: "?I u" "slots_round fl tid req cnt (candidate_specs (fst u) label) u = (None, u')"
    then obtain v v' np1 where "u = (np, v)" "u' = (np1, v')" by (cases u, cases u') auto
    with u slots_round_cases [OF ok, of tid req cnt "candidate_specs np label" np v None np1 v'] inv have "?I u'" by auto
    then show "?I (time_sleep (1 / 2) others n u')" using env by (cases u') (simp add: leaves_gpus_def)
  qed
  then obtain v where v: "\<forall>l i. w_held held v (lock_path l i) = w_held held w (lock_path l i)"
    and round: "slots_round fl tid req cnt (candidate_specs np label) (np, v) = (r, np2, w2)" by auto
  have "np' = np2" "w' = deregister_all fl regs w2" "res = fst (decided (r, np2, w2))"
    using res by (auto simp: finally_deregister_def decided_def split: option.splits)
  with v round deregister_all_same [OF ok, of w2 regs] show ?thesis by blast
qed

lemma acquire_slots_failed_same:
  assumes ok: "filelock_ok fl held" and inv: "pool_inv np" and env: "leaves_gpus held others"
    and fail: "acquire_slots others fl cnt label req wait tid (np, w) = Some (Inl RuntimeError, np', w')"
  shows "np' = np \<and> (\<forall>l i. w_held held w' (lock_path l i) = w_held held w (lock_path l i))"
proof (cases "has_vram_capacity np req cnt label")
  case False
  with fail show ?thesis by (simp add: acquire_slots_def)
next
  case True
  from acquire_slots_last_round [OF ok inv env fail True] obtain v r w2 where
    v: "\<forall>l i. w_held held v (lock_path l i) = w_held held w (lock_path l i)"
    and round: "slots_round fl tid req cnt (candidate_specs np label) (np, v) = (r, np', w2)"
    and res: "Inl RuntimeError = fst (decided (r, np', w2))" and same: "gpu_locks_same held w2 w'" by blast
  have "r = None"
    using slots_round_cases [OF ok round inv] res by (auto simp: decided_def split: option.splits sum.splits)
  with slots_round_cases [OF ok round inv] v same show ?thesis by (auto simp: gpu_locks_same_def)
qed

lemma acquire_slots_no_io:
  assumes ok: "filelock_ok fl held" and inv: "pool_inv np" and env: "leaves_gpus held others" and io: "no_io_failure fl"
    and call: "acquire_slots others fl cnt label req wait tid (np, w) = Some (Inl e, np', w')"
  shows "e = RuntimeError"
proof (cases "has_vram_capacity np req cnt label")
  case False
  with call show ?thesis by (simp add: acquire_slots_def)
next
  case True
  from acquire_slots_last_round [OF ok inv env call True] obtain v r w2 where
    round: "slots_round fl tid req cnt (candidate_specs np label) (np, v) = (r, np', w2)"
    and res: "Inl e = fst (decided (r, np', w2))" by blast
  moreover have "r \<noteq> Some (Inl e')" for e'
    using slots_round_io [OF ok _ inv] round no_lock_failed [OF io] by blast
  ultimately show ?thesis by (auto simp: decided_def split: option.splits)
qed

lemma acquire_slots_granted_quiet:
  assumes ok: "filelock_ok fl held" and inv: "pool_inv np" and env: "leaves_gpus held others"
    and call: "acquire_slots others fl cnt label req wait tid (np, w) = Some (Inr m, np', w')"
  shows "\<exists>v. (\<forall>l i. w_held held v (lock_path l i) = w_held held w (lock_path l i)) \<and>
    group_granted held req (nat cnt) (np, v) m (np', w')"
proof -
  have cap: "has_vram_capacity np req cnt label" using call by (auto simp: acquire_slots_def split: if_splits)
  from acquire_slots_last_round [OF ok inv env call cap] obtain v r w2 where
    v: "\<forall>l i. w_held held v (lock_path l i) = w_held held w (lock_path l i)"
    and round: "slots_round fl tid req cnt (candidate_specs np label) (np, v) = (r, np', w2)"
    and res: "Inr m = fst (decided (r, np', w2))" and same: "gpu_locks_same held w2 w'" by blast
  have "r = Some (Inr m)" using res by (auto simp: decided_def split: option.splits)
  with slots_round_cases [OF ok round inv] v same show ?thesis by (auto simp: group_granted_def gpu_locks_same_def)
qed

lemma group_granted_later:
  assumes "group_granted held req n s m (np1, w1)"
    and "\<forall>l i. w_held held w2 (lock_path l i) = w_held held w1 (lock_path l i)"
  shows "group_granted held req n s m (np1, w2)"
  using assms by (auto simp: group_granted_def)

text \<open>Releasing a granted group after other files have changed.\<close>

lemma release_granted:
  assumes ok: "filelock_ok fl held" and grant: "group_granted held req n (np, v) m (np1, w1)"
    and rel: "release_multi fl m (np1, w1) = (m', np2, w2)"
  shows "np2 = np\<lparr>np_event := True\<rparr> \<and> (\<forall>l i. w_held held w2 (lock_path l i) = w_held held v (lock_path l i))"
proof -
  obtain u where g: "grants_group held req n (np, v) m (np1, u)"
    and same: "\<forall>l i. w_held held w1 (lock_path l i) = w_held held u (lock_path l i)"
    using grant by (auto simp: group_granted_def)
  obtain a where a: "get_alloc np1 (ns_label (ms_spec m)) = Some a" and fn: "from_node (ms_spec m) (ms_slots m)"
    using g by (auto simp: grants_group_def)
  obtain m3 np3 w3 where r3: "release_multi fl m (np1, u) = (m3, np3, w3)" by (metis prod.exhaust)
  have split: "\<exists>sl np'. release_slots fl (ms_slots m) (np1, x) = (sl, np', y) \<and> q = np'\<lparr>np_event := True\<rparr>"
    if "release_multi fl m (np1, x) = (z, q, y)" for x z q y
    using that by (auto simp: release_multi_def pool_release_def split: prod.splits)
  from split [OF rel] split [OF r3] obtain sl sl3 q q3 where
    s: "release_slots fl (ms_slots m) (np1, w1) = (sl, q, w2)" "np2 = q\<lparr>np_event := True\<rparr>"
    "release_slots fl (ms_slots m) (np1, u) = (sl3, q3, w3)" "np3 = q3\<lparr>np_event := True\<rparr>" by blast
  note A = release_slots_sound [OF ok s(1) fn a] and B = release_slots_sound [OF ok s(3) fn a]
  have "np2 = np3" using A B s(2,4) by simp
  with release_group(1) [OF ok g r3] have "np2 = np\<lparr>np_event := True\<rparr>" by simp
  moreover have "w_held held w2 (lock_path l i) = w_held held w3 (lock_path l i)" for l i
    using A B same by simp
  ultimately show ?thesis using release_group(2) [OF ok g r3] by simp
qed

text \<open>
  C4. A multi-GPU request that fails at its deadline leaves no trace: while the others leave the caller's pool and
  the GPU locks alone, a call of \<open>acquire_slots\<close> that ends with \<open>RuntimeError\<close>, after however many turns with
  partial acquisitions, returns the pool it was given and has released every GPU lock it took on the way.
\<close>

theorem acquire_slots_failure_clean:
  assumes ok: "filelock_ok fl held" and inv: "pool_inv np" and env: "leaves_gpus held others"
    and fail: "acquire_slots others fl cnt label req wait tid (np, w) = Some (Inl RuntimeError, np', w')"
  shows "np' = np \<and> (\<forall>l i. w_held held w' (lock_path l i) = w_held held w (lock_path l i))"
  by (rule acquire_slots_failed_same [OF ok inv env fail])

theorem acquire_slots_failure_clean_witness:
  "\<exists>np' w'. acquire_slots idle table_locks 2 (Some ''a'') 4 1 ''t'' (demo_pool demo_nodes, demo_world {lock_path ''a'' 1})
       = Some (Inl RuntimeError, np', w') \<and>
     np' = demo_pool demo_nodes \<and> lock_path ''a'' 0 \<notin> w_os w'"
proof -
  have "case acquire_slots idle table_locks 2 (Some ''a'') 4 1 ''t'' (demo_pool demo_nodes, demo_world {lock_path ''a'' 1}) of
      Some (Inl e, s) \<Rightarrow> e = RuntimeError | _ \<Rightarrow> False" by code_simp
  then obtain np' w' where run: "acquire_slots idle table_locks 2 (Some ''a'') 4 1 ''t''
      (demo_pool demo_nodes, demo_world {lock_path ''a'' 1}) = Some (Inl RuntimeError, np', w')"
    by (auto dest!: raised_case)
  from acquire_slots_failure_clean [OF table_locks_ok demo_inv idle_leaves_gpus run]
  have "np' = demo_pool demo_nodes" "lock_path ''a'' 0 \<in> w_os w' \<longleftrightarrow> lock_path ''a'' 0 \<in> w_os (demo_world {lock_path ''a'' 1})"
    by blast+
  then show ?thesis using run by (simp add: demo_world_def lock_path_inject)
qed

text \<open>
  C10. A multi-GPU request waits for the first GPU of the allocation order: while the lock of that
  GPU is held by another process on every candidate node, \<open>acquire_slots\<close> ends with the
  \<open>RuntimeError\<close> of its deadline, however many other GPUs of the nodes are free. (A single-GPU
  request skips such a GPU, see \<open>acquire_slot_served\<close>.)
\<close>

theorem acquire_slots_starved:
  assumes ok: "filelock_ok fl held" and io: "no_io_failure fl" and inv: "pool_inv np" and pos: "0 < cnt"
    and busy: "\<forall>spec \<in> set (candidate_specs np label). first_choice_busy held req spec (np, w)"
    and quiet: "\<forall>n s. fst (others n s) = fst s \<and> w_held held (snd (others n s)) = w_held held (snd s)"
  shows "\<exists>s'. acquire_slots others fl cnt label req wait tid (np, w) = Some (Inl RuntimeError, s')"
proof (cases "has_vram_capacity np req cnt label")
  case False
  then show ?thesis by (simp add: acquire_slots_def)
next
  case True
  let ?d = "w_clock w + wait" and ?specs = "candidate_specs np label"
  let ?I = "\<lambda>u. fst u = np \<and> (\<forall>l i. w_held held (snd u) (lock_path l i) = w_held held w (lock_path l i))"
  obtain regs w1 where reg: "register_all fl cnt ?d ?specs [] w = (regs, w1)" by force
  have "gpu_locks_same held w w1" using register_all_same [OF ok, of w cnt ?d ?specs "[]"] reg by simp
  then have start: "?I (np, w1)" by (simp add: gpu_locks_same_def)
  obtain r s' where ret: "poll (\<lambda>s. slots_round fl tid req cnt (candidate_specs (fst s) label) s) (past ?d)
      (time_sleep (1 / 2) others) 0 (np, w1) = Some (r, s')"
    using slots_loop.returns unfolding past_clock by blast
  have round: "\<exists>w'. slots_round fl tid req cnt ?specs u = (None, np, w') \<and> w_held held w' = w_held held (snd u)"
    if u: "?I u" for u
  proof -
    obtain v where v: "u = (np, v)" using u by (cases u) auto
    have "first_choice_busy held req spec (np, v) = first_choice_busy held req spec (np, w)" for spec
      using u v by (auto simp: first_choice_busy_def split: option.splits sum.splits)
    with slots_round_blocked [OF ok io pos inv, of ?specs req v tid] busy v show ?thesis by auto
  qed
  have "\<exists>u. ?I u \<and> slots_round fl tid req cnt (candidate_specs (fst u) label) u = (r, s') \<and> (r = None \<longrightarrow> past ?d s')"
  proof (rule poll_result [OF ret, where I = ?I])
    fix n u u' assume u: "?I u" "slots_round fl tid req cnt (candidate_specs (fst u) label) u = (None, u')"
    with round [of u] have "fst u' = np" "w_held held (snd u') = w_held held (snd u)" by auto
    with u(1) quiet show "?I (time_sleep (1 / 2) others n u')" by (cases u') simp
  qed (rule start)
  then obtain u where u: "?I u" "slots_round fl tid req cnt (candidate_specs (fst u) label) u = (r, s')" by blast
  have "r = None" using round [OF u(1)] u by auto
  with True reg ret show ?thesis
    by (cases s') (simp add: acquire_slots_def Let_def finally_deregister_def decided_def)
qed

theorem acquire_slots_starved_witness:
  "\<exists>s'. acquire_slots idle table_locks 2 (Some ''a'') 4 300 ''t''
     (demo_pool [(''a'', [demo_gpu 0, demo_gpu 1, demo_gpu 2, demo_gpu 3])], demo_world {lock_path ''a'' 0})
     = Some (Inl RuntimeError, s')"
proof (rule acquire_slots_starved [OF table_locks_ok table_no_io])
  show "pool_inv (demo_pool [(''a'', [demo_gpu 0, demo_gpu 1, demo_gpu 2, demo_gpu 3])])"
    unfolding demo_pool_def
    by (rule init_from_prefilled_inv [OF new_pool_inv]) (auto simp: demo_gpu_def split: if_splits)
  show "\<forall>spec \<in> set (candidate_specs (demo_pool [(''a'', [demo_gpu 0, demo_gpu 1, demo_gpu 2, demo_gpu 3])]) (Some ''a'')).
      first_choice_busy (\<lambda>s p. p \<in> s) 4 spec
        (demo_pool [(''a'', [demo_gpu 0, demo_gpu 1, demo_gpu 2, demo_gpu 3])], demo_world {lock_path ''a'' 0})"
    by code_simp
qed (simp_all add: idle_def)

subsection \<open>Giving slots back\<close>

text \<open>
  C5. Releasing a granted group restores the pool and the lock files exactly: every GPU is back
  in the free set of its node, every lock file is free again, the waiters' event is set, and the
  lock objects of the slots are no longer locked.
\<close>

theorem release_undoes_acquire:
  assumes ok: "filelock_ok fl held" and inv: "pool_inv np"
    and acq: "slots_round fl tid req cnt specs (np, w) = (Some (Inr m), np1, w1)"
    and rel: "release_multi fl m (np1, w1) = (m', np2, w2)"
  shows "np2 = np\<lparr>np_event := True\<rparr> \<and> w_held held w2 = w_held held w \<and>
    (\<forall>s \<in> set (ms_slots m'). \<not> fk_locked (sl_lock s))"
proof -
  have "grants_group held req (nat cnt) (np, w) m (np1, w1)"
    using slots_round_cases [OF ok acq inv] by simp
  from release_group [OF ok this rel] show ?thesis by blast
qed

theorem release_undoes_acquire_witness:
  "\<exists>m np1 w1 m' np2 w2.
     slots_round table_locks ''t'' 4 2 (np_specs (demo_pool demo_nodes)) (demo_pool demo_nodes, demo_world {})
       = (Some (Inr m), np1, w1) \<and> release_multi table_locks m (np1, w1) = (m', np2, w2) \<and>
     np2 = (demo_pool demo_nodes)\<lparr>np_event := True\<rparr> \<and> w_os w2 = {}"
proof -
  have "case slots_round table_locks ''t'' 4 2 (np_specs (demo_pool demo_nodes)) (demo_pool demo_nodes, demo_world {}) of
      (Some (Inr m), _) \<Rightarrow> True | _ \<Rightarrow> False" by code_simp
  then obtain m np1 w1 where acq: "slots_round table_locks ''t'' 4 2 (np_specs (demo_pool demo_nodes))
      (demo_pool demo_nodes, demo_world {}) = (Some (Inr m), np1, w1)"
    by (auto split: prod.splits option.splits sum.splits)
  obtain m' np2 w2 where rel: "release_multi table_locks m (np1, w1) = (m', np2, w2)" by (metis prod.exhaust)
  from release_undoes_acquire [OF table_locks_ok demo_inv acq rel] acq rel show ?thesis
    by (auto simp: demo_world_def fun_eq_iff)
qed

subsection \<open>The pending registry around a request\<close>

lemma meta_held_mono:
  assumes "filelock_ok fl held" and "pending_only body" and "\<not> w_held held w (meta_path l)"
  shows "\<not> w_held held (snd (with_meta_lock fl label body w)) (meta_path l)"
  using assms(1,2) by (cases rule: with_meta_lock_cases [of fl held body label w]) (use assms(3) in auto)

lemma deregister_tracker_ready:
  assumes "tracker_ready fl held l w"
  shows "tracker_ready fl held l (deregister fl l' r w)"
proof -
  from assms have ok: "filelock_ok fl held" by (simp add: tracker_ready_def)
  have "\<not> w_held held (deregister fl l' r w) (meta_path l)"
    unfolding deregister_def using assms
    by (intro meta_held_mono [OF ok deregister_body]) (simp add: tracker_ready_def)
  with assms deregister_same [OF ok, of w l' r] show ?thesis
    by (simp add: tracker_ready_def gpu_locks_same_def)
qed

text \<open>Deregistering removes entries and adds none, whatever the state of the meta lock.\<close>

lemma deregister_shrinks:
  assumes "filelock_ok fl held"
  shows "dom (map_of (read_unsafe l (deregister fl l' r w))) \<subseteq> dom (map_of (read_unsafe l w))"
proof -
  let ?body = "\<lambda>w. let data = read_unsafe l' w
     in if map_of data r \<noteq> None then write_unsafe l' (AList.delete r data) w else (True, w)"
  have body: "dom (map_of (read_unsafe l (snd (?body w)))) \<subseteq> dom (map_of (read_unsafe l w))" for w :: "'a world"
    by (auto simp: Let_def write_unsafe_def read_unsafe_def delete_conv' split: option.splits if_splits)
  have os: "read_unsafe l (v\<lparr>w_os := x\<rparr>) = read_unsafe l v" for v :: "'a world" and x by simp
  from assms deregister_body [of l' r]
  have "dom (map_of (read_unsafe l (snd (with_meta_lock fl l' ?body w)))) \<subseteq> dom (map_of (read_unsafe l w))"
  proof (cases rule: with_meta_lock_cases [of fl held ?body l' w])
    case (Locked os1 os2 r' m)
    have "read_unsafe l (w\<lparr>w_os := os2, w_pending := m\<rparr>) = read_unsafe l (snd (?body (w\<lparr>w_os := os1\<rparr>)))"
      using Locked(2) by (simp add: read_unsafe_def)
    with body [of "w\<lparr>w_os := os1\<rparr>"] Locked(1) os show ?thesis by simp
  next
    case (Busy os1)
    then show ?thesis by simp
  qed
  then show ?thesis by (simp add: deregister_def)
qed

lemma deregister_all_shrinks:
  assumes "filelock_ok fl held"
  shows "dom (map_of (read_unsafe l (deregister_all fl regs w))) \<subseteq> dom (map_of (read_unsafe l w))"
proof (induction regs arbitrary: w)
  case (Cons x regs)
  obtain l' r where x: "x = (l', r)" by (cases x)
  from Cons.IH [of "deregister fl l' r w"] deregister_shrinks [OF assms, of l l' r w] x show ?case by auto
qed simp

lemma deregister_all_clears:
  assumes ok: "filelock_ok fl held"
  shows "\<forall>(l, r) \<in> set regs. tracker_ready fl held l w \<Longrightarrow> (l, r) \<in> set regs \<Longrightarrow>
    r \<notin> dom (map_of (read_unsafe l (deregister_all fl regs w)))"
proof (induction regs arbitrary: w)
  case (Cons x regs)
  obtain l' r' where x: "x = (l', r')" by (cases x)
  let ?w = "deregister fl l' r' w"
  have ready: "\<forall>(l, r) \<in> set regs. tracker_ready fl held l ?w"
    using Cons.prems(1) by (auto intro: deregister_tracker_ready)
  show ?case
  proof (cases "(l, r) = (l', r')")
    case True
    then have "read_unsafe l ?w = AList.delete r (read_unsafe l w)"
      using Cons.prems(1) x deregister_ready [of fl held l w r] by auto
    then have "r \<notin> dom (map_of (read_unsafe l ?w))" by (simp add: delete_conv')
    with deregister_all_shrinks [OF ok, of l regs ?w] x True show ?thesis by auto
  next
    case False
    with Cons.IH [OF ready] Cons.prems(2) x show ?thesis by auto
  qed
qed simp

text \<open>
  Whatever the outcome of \<open>acquire_slots\<close>, its registrations are gone from the pending files
  of all candidate nodes when it returns, provided the registry of each of these nodes can be locked
  and written after the last turn of the loop.
\<close>

theorem acquire_slots_deregisters:
  assumes ok: "filelock_ok fl held" and cap: "has_vram_capacity np req cnt label"
    and reg: "register_all fl cnt (w_clock w + wait) (candidate_specs np label) [] w = (regs, w1)"
    and loop: "poll (\<lambda>s. slots_round fl tid req cnt (candidate_specs (fst s) label) s)
        (past (w_clock w + wait)) (time_sleep (1 / 2) others) 0 (np, w1) = Some (r, np2, w2)"
    and ready: "\<forall>(l, i) \<in> set regs. tracker_ready fl held l w2"
  shows "\<exists>res w'. acquire_slots others fl cnt label req wait tid (np, w) = Some (res, np2, w') \<and>
    (\<forall>(l, i) \<in> set regs. i \<notin> dom (map_of (read_unsafe l w')))"
proof -
  have "acquire_slots others fl cnt label req wait tid (np, w)
      = Some (fst (decided (r, np2, w2)), np2, deregister_all fl regs w2)"
    using cap reg loop
    by (auto simp: acquire_slots_def Let_def finally_deregister_def decided_def split: option.splits)
  with deregister_all_clears [OF ok ready] show ?thesis by auto
qed

theorem acquire_slots_deregisters_witness:
  "\<exists>regs w1 r np2 w2 res w'.
     register_all table_locks 2 (w_clock (demo_world {}) + 0) (candidate_specs (demo_pool demo_nodes) (Some ''a'')) [] (demo_world {})
       = (regs, w1) \<and> regs = [(''a'', 0)] \<and>
     acquire_slots idle table_locks 2 (Some ''a'') 4 0 ''t'' (demo_pool demo_nodes, demo_world {}) = Some (res, np2, w') \<and>
     (\<forall>(l, i) \<in> set regs. i \<notin> dom (map_of (read_unsafe l w')))"
proof -
  let ?np = "demo_pool demo_nodes" and ?w = "demo_world {}"
  let ?w1 = "snd (register_all table_locks 2 (w_clock ?w + 0) (candidate_specs ?np (Some ''a'')) [] ?w)"
  let ?poll = "poll (\<lambda>s. slots_round table_locks ''t'' 4 2 (candidate_specs (fst s) (Some ''a'')) s)
      (past (w_clock ?w + 0)) (time_sleep (1 / 2) idle) 0 (?np, ?w1)"
  have cap: "has_vram_capacity ?np 4 2 (Some ''a'')" by code_simp
  have "fst (register_all table_locks 2 (w_clock ?w + 0) (candidate_specs ?np (Some ''a'')) [] ?w) = [(''a'', 0)]"
    by code_simp
  then have reg: "register_all table_locks 2 (w_clock ?w + 0) (candidate_specs ?np (Some ''a'')) [] ?w = ([(''a'', 0)], ?w1)"
    by (metis prod.collapse)
  have "case ?poll of None \<Rightarrow> False | Some (r, np2, w2) \<Rightarrow> meta_path ''a'' \<notin> w_os w2 \<and> w_writable w2 (json_path ''a'')"
    by code_simp
  then obtain r np2 w2 where loop: "?poll = Some (r, np2, w2)"
    and free: "meta_path ''a'' \<notin> w_os w2" "w_writable w2 (json_path ''a'')"
    by (auto split: option.splits)
  have ready: "\<forall>(l, i) \<in> set [(''a'', 0 :: nat)]. tracker_ready table_locks (\<lambda>s p. p \<in> s) l w2"
    using free table_locks_ok table_no_io by (simp add: tracker_ready_def)
  from acquire_slots_deregisters [OF table_locks_ok cap reg loop ready] reg show ?thesis by blast
qed

subsection \<open>Given indices\<close>

lemma event_wait_clock:
  assumes "\<And>n s. w_clock (snd s) + tick \<le> w_clock (snd (others n s))"
  shows "w_clock (snd s) + tick \<le> w_clock (snd (event_wait d others n s))"
proof -
  obtain np w where s: "s = (np, w)" by (cases s)
  show ?thesis
    using assms [of "(np\<lparr>np_event := False\<rparr>, w)" n] by (auto simp: event_wait_def s split: prod.splits)
qed

text \<open>The index loop meets the polling contract when every wake-up takes some time.\<close>

lemma index_round_clock: "w_clock (snd (snd (try_acquire_index_set fl tid spec is s))) = w_clock (snd s)"
proof -
  have frame: "take_indices fl np tid spec is a w acq = (r, a', w', acq') \<Longrightarrow> same_frame w w'" for np a w acq r a' w' acq'
  proof (induction "is" arbitrary: a w acq)
    case (Cons i "is")
    show ?case
    proof (cases "allocate_specific_now i a")
      case (Inl e)
      with Cons.prems show ?thesis by simp
    next
      case (Inr p)
      obtain g a1 where p: "p = (g, a1)" by (cases p)
      obtain q w1 where l: "lock_acquire fl (np_pid np) 0 tid (new_lock (ns_label spec) i) w = (q, w1)"
        by (cases "lock_acquire fl (np_pid np) 0 tid (new_lock (ns_label spec) i) w")
      from lock_acquire_frame [OF l] Cons Inr p l show ?thesis
        by (auto split: sum.splits py_error.splits intro: same_frame_trans)
    qed
  qed simp
  obtain np w where s: "s = (np, w)" by (cases s)
  show ?thesis
    unfolding s try_acquire_index_set_def
    by (auto simp: same_frame_def dest!: frame rollback_frame
        split: option.splits prod.splits py_error.splits)
qed

lemma index_loop:
  assumes "0 < tick" and "\<And>n s. w_clock (snd s) + tick \<le> w_clock (snd (others n s))"
  shows "polling (try_acquire_index_set fl tid spec is) (\<lambda>s. w_clock (snd s)) deadline (event_wait (1 / 2) others) tick"
  by unfold_locales (simp_all add: assms index_round_clock event_wait_clock min.coboundedI1)


text \<open>
  \<open>acquire_specific_slots\<close> is all or nothing over the given indices: when every wake-up of the
  waiting caller takes some time, it returns; a granted group consists of the GPUs with exactly the
  requested indices, in the requested order and without repetition, all of one node, all free with
  free lock files at the moment of the grant, and exactly these are taken and locked. Indices that no
  single node owns are a \<open>ValueError\<close> that changes nothing.
\<close>

theorem acquire_specific_slots_total:
  assumes ok: "filelock_ok fl held" and tick: "0 < tick"
    and pause: "\<And>n s. w_clock (snd s) + tick \<le> w_clock (snd (others n s))"
  shows "\<exists>r s'. acquire_specific_slots others fl is wait tid (np, w) = Some (r, s') \<and>
    (case r of
       Inr m \<Rightarrow> \<exists>s w1. grants_indices held is s m (fst s', w1) \<and> gpu_locks_same held w1 (snd s')
     | Inl e \<Rightarrow>
         (e = ValueError \<and> owner_of np (\<lambda>a. \<forall>i \<in> set is. owns_index i a) = None \<and> s' = (np, w)) \<or>
         (owner_of np (\<lambda>a. \<forall>i \<in> set is. owns_index i a) \<noteq> None \<and>
          (e = OSError \<or> e = ValueError \<or> (e = RuntimeError \<and> w_clock w + wait \<le> w_clock (snd s')))))"
proof (cases "owner_of np (\<lambda>a. \<forall>i \<in> set is. owns_index i a)")
  case None
  then show ?thesis by (simp add: acquire_specific_slots_def)
next
  case (Some spec)
  let ?d = "w_clock w + wait"
  obtain i w1 where reg: "register fl (ns_label spec) (int (length is)) ?d w = (i, w1)" by force
  have "\<exists>r s'. poll (try_acquire_index_set fl tid spec is) (past ?d) (event_wait (1 / 2) others) 0 (np, w1) = Some (r, s')"
    unfolding past_clock by (rule polling.returns [OF index_loop [OF tick pause]])
  then obtain r np' w' where ret: "poll (try_acquire_index_set fl tid spec is) (past ?d) (event_wait (1 / 2) others) 0 (np, w1)
      = Some (r, np', w')" by auto
  obtain np0 w0 where u: "try_acquire_index_set fl tid spec is (np0, w0) = (r, np', w')" "r = None \<longrightarrow> past ?d (np', w')"
    using poll_result [OF ret, where I = "\<lambda>_. True"] by auto
  note c = index_round_cases [OF ok u(1)]
  have same: "gpu_locks_same held w' (deregister fl (ns_label spec) i w')" by (rule deregister_same [OF ok])
  have clk: "w_clock (deregister fl (ns_label spec) i w') = w_clock w'" using same by (simp add: gpu_locks_same_def)
  have eq: "acquire_specific_slots others fl is wait tid (np, w)
      = Some (fst (decided (r, np', w')), np', deregister fl (ns_label spec) i w')"
    using Some reg ret
    by (auto simp: acquire_specific_slots_def Let_def finally_deregister_def decided_def split: option.splits)
  consider "r = None" | e where "r = Some (Inl e)" | m where "r = Some (Inr m)"
    by (metis option.exhaust sum.exhaust)
  then show ?thesis
  proof cases
    case 1
    with eq u clk Some show ?thesis by (auto simp: decided_def past_def)
  next
    case 2
    with eq c(4) Some show ?thesis by (auto simp: decided_def)
  next
    case 3
    with c(3) [OF 3] eq same show ?thesis by (auto simp: decided_def)
  qed
qed

theorem acquire_specific_slots_total_witness:
  "\<exists>m s s' w1. acquire_specific_slots (\<lambda>_ (np, w). (np, w\<lparr>w_clock := w_clock w + 1\<rparr>)) table_locks [1, 0] 2 ''t''
        (demo_pool demo_nodes, demo_world {}) = Some (Inr m, s') \<and>
     grants_indices (\<lambda>s p. p \<in> s) [1, 0] s m (fst s', w1)"
proof -
  let ?run = "acquire_specific_slots (\<lambda>_ (np, w). (np, w\<lparr>w_clock := w_clock w + 1\<rparr>)) table_locks [1, 0] 2 ''t''
    (demo_pool demo_nodes, demo_world {})"
  have "case ?run of Some (Inr m, s) \<Rightarrow> True | _ \<Rightarrow> False" by code_simp
  then obtain m s' where run: "?run = Some (Inr m, s')" by (auto dest!: granted_case)
  have pause: "w_clock (snd s) + 1 \<le> w_clock (snd ((\<lambda>_ (np, w). (np, w\<lparr>w_clock := w_clock w + 1\<rparr>)) n s))"
    for n :: nat and s :: "string set state" by (cases s) simp
  from acquire_specific_slots_total [OF table_locks_ok zero_less_one pause, of "[1, 0]" 2 "''t''" "demo_pool demo_nodes" "demo_world {}"] run
  show ?thesis by auto
qed

text \<open>
  C11. \<open>acquire_specific_slot\<close> can wait for ever, whatever its timeout: while the lock file of the GPU is
  held and no sidecar names a living holder (a holder that acquired with an empty test id writes
  none), every turn goes round again without looking at the deadline.
\<close>

theorem acquire_specific_slot_diverges:
  assumes ok: "filelock_ok fl held" and io: "no_io_failure fl"
    and owner: "owner_of np (owns_index i) = Some spec" "get_alloc np (ns_label spec) = Some a" "i \<in> ga_available a"
    and locked: "w_held held w (lock_path (ns_label spec) i)"
    and silent: "map_of (w_info w) (info_path (ns_label spec) i) = None"
    and quiet: "\<And>n s. fst (others n s) = fst s \<and> w_held held (snd (others n s)) = w_held held (snd s) \<and>
      w_info (snd (others n s)) = w_info (snd s)"
  shows "acquire_specific_slot others fl i wait tid (np, w) = None"
proof -
  let ?l = "ns_label spec"
  obtain id w1 where reg: "register fl ?l 1 (w_clock w + wait) w = (id, w1)" by force
  then have same: "gpu_locks_same held w w1" using register_same [OF ok, of w ?l 1 "w_clock w + wait"] by simp
  have own: "\<exists>g \<in> set (ga_pool a). gi_index g = i"
    using owner(1,2) by (auto simp: owner_of_def owns_index_def find_Some_iff split: option.splits)
  then obtain g a' where ga: "allocate_specific_now i a = Inr (g, a')"
    using owner(3) allocate_specific_now_Inl [of i a] by (cases "allocate_specific_now i a") auto
  from allocate_specific_now_Inr [OF ga] ga have take: "allocate_specific_now i a = Inr (g, discard i a)"
    and gi: "gi_index g = i" by simp_all
  let ?I = "\<lambda>st :: 'a state \<times> bool. fst (fst st) = np \<and> w_held held (snd (fst st)) (lock_path ?l i) \<and>
      map_of (w_info (snd (fst st))) (info_path ?l i) = None"
  have "poll (specific_round fl tid spec i) (specific_expired (w_clock w + wait)) (specific_rest others) 0 ((np, w1), False)
      = None"
  proof (rule poll_diverges [where I = ?I])
    show "?I ((np, w1), False)" using same_locks [OF same] locked silent by simp
  next
    fix st :: "'a state \<times> bool" assume I: "?I st"
    obtain v b where st: "st = ((np, v), b)" using I by (metis prod.collapse)
    have "w_held held v (fk_lock_path (new_lock ?l i))" using I st by simp
    then obtain v1 where v1: "lock_acquire fl (np_pid np) 0 tid (new_lock ?l i) v = (Inl RuntimeError, v1)"
      "w_held held v1 = w_held held v" "w_info v1 = w_info v" "same_frame v v1"
      by (rule busy_lock [OF ok io])
    have rel: "release g (discard i a) = a" using gi owner(3) release_discard [of g a] by simp
    have "specific_round fl tid spec i st = (None, (np, v1), True)"
      using owner(2) take v1 I by (simp add: specific_round_def st Let_def rel set_alloc_same holder_is_alive_def)
    moreover have "?I (specific_rest others n ((np, v1), True))" for n
      using quiet [of n "(np, v1)"] v1 I st
      by (auto simp: specific_rest_def time_sleep_def split: prod.splits)
    ultimately show "\<exists>u'. specific_round fl tid spec i st = (None, u') \<and>
        \<not> specific_expired (w_clock w + wait) u' \<and> (\<forall>n. ?I (specific_rest others n u'))"
      by (simp add: specific_expired_def)
  qed
  with owner(1) reg show ?thesis by (simp add: acquire_specific_slot_def Let_def)
qed

theorem acquire_specific_slot_diverges_witness:
  "acquire_specific_slot idle table_locks 0 300 ''t'' (demo_pool demo_nodes, demo_world {lock_path ''a'' 0}) = None"
proof (rule acquire_specific_slot_diverges [OF table_locks_ok table_no_io, where spec = "demo_spec ''a''" and
      a = "new_allocator [demo_gpu 0, demo_gpu 1] 2"])
  show "owner_of (demo_pool demo_nodes) (owns_index 0) = Some (demo_spec ''a'')" by code_simp
  show "get_alloc (demo_pool demo_nodes) (ns_label (demo_spec ''a'')) = Some (new_allocator [demo_gpu 0, demo_gpu 1] 2)"
    by code_simp
  show "0 \<in> ga_available (new_allocator [demo_gpu 0, demo_gpu 1] 2)" by code_simp
qed (simp_all add: demo_world_def demo_spec_def idle_def)

subsection \<open>Several nodes\<close>

text \<open>
  C12. \<open>acquire_multi_node\<close> does not give back what it already has: when the first node is granted and the
  second one times out, the call raises and the lock files of the first node's GPUs stay held, with
  nobody left who knows their slots.
\<close>

theorem acquire_multi_node_leaks:
  assumes ok: "filelock_ok fl held" and inv: "pool_inv np1"
    and specs: "np_specs np = [spec1, spec2]" and per_node: "\<not> wants_all per_node" "py_int per_node = Inr cnt"
    and first: "acquire_slots idle fl cnt (Some (ns_label spec1)) req wait tid (np, w) = Some (Inr m, np1, w1)"
    and second: "acquire_slots idle fl cnt (Some (ns_label spec2)) req wait tid (np1, w1) = Some (Inl RuntimeError, s2)"
    and slot: "slot \<in> set (ms_slots m)" "slot_ok slot" "w_held held w1 (slot_path slot)"
  shows "\<exists>np2 w2. acquire_multi_node idle fl per_node req wait tid (np, w) = Some (Inl RuntimeError, np2, w2) \<and>
    w_held held w2 (slot_path slot) \<and> np2 = np1"
proof -
  obtain np2 w2 where s2: "s2 = (np2, w2)" by (cases s2)
  note same = acquire_slots_failed_same [OF ok inv idle_leaves_gpus second [unfolded s2]]
  have "acquire_multi_node idle fl per_node req wait tid (np, w) = Some (Inl RuntimeError, np2, w2)"
    using specs per_node first second s2 by (simp add: acquire_multi_node_def)
  moreover have "w_held held w2 (slot_path slot)"
    using same slot by (simp add: slot_ok_path)
  ultimately show ?thesis using same by blast
qed

theorem acquire_multi_node_leaks_witness:
  "\<exists>np2 w2. acquire_multi_node idle table_locks (PInt 2) 0 0 ''t''
       (demo_pool [(''a'', [demo_gpu 0, demo_gpu 1]), (''b'', [demo_gpu 0])], demo_world {})
     = Some (Inl RuntimeError, np2, w2) \<and> lock_path ''a'' 0 \<in> w_os w2"
proof -
  let ?np = "demo_pool [(''a'', [demo_gpu 0, demo_gpu 1]), (''b'', [demo_gpu 0])]"
  let ?a = "acquire_slots idle table_locks 2 (Some ''a'') 0 0 ''t'' (?np, demo_world {})"
  let ?slot = "\<lparr>sl_spec = demo_spec ''a'', sl_gpu = demo_gpu 0,
      sl_lock = (new_lock ''a'' 0)\<lparr>fk_locked := True\<rparr>, sl_ssh = None\<rparr>"
  have "case ?a of Some (Inr m, s) \<Rightarrow> ms_slots m \<noteq> [] \<and> hd (ms_slots m) = ?slot \<and>
        fst s = set_alloc ''a'' ((new_allocator [demo_gpu 0, demo_gpu 1] 2)\<lparr>ga_available := {}\<rparr>) ?np \<and>
        lock_path ''a'' 0 \<in> w_os (snd s) \<and>
        (case acquire_slots idle table_locks 2 (Some ''b'') 0 0 ''t'' s of
           Some (Inl e, _) \<Rightarrow> e = RuntimeError | _ \<Rightarrow> False)
      | _ \<Rightarrow> False" by code_simp
  from granted_case [OF this] obtain m np1 w1 where a: "?a = Some (Inr m, np1, w1)" "ms_slots m \<noteq> []" "hd (ms_slots m) = ?slot"
      "np1 = set_alloc ''a'' ((new_allocator [demo_gpu 0, demo_gpu 1] 2)\<lparr>ga_available := {}\<rparr>) ?np"
      "lock_path ''a'' 0 \<in> w_os w1"
    and c: "case acquire_slots idle table_locks 2 (Some ''b'') 0 0 ''t'' (np1, w1) of
           Some (Inl e, _) \<Rightarrow> e = RuntimeError | _ \<Rightarrow> False"
    by (metis prod.collapse)
  from raised_case [OF c] obtain s2 where
    b: "acquire_slots idle table_locks 2 (Some ''b'') 0 0 ''t'' (np1, w1) = Some (Inl RuntimeError, s2)" by blast
  have inv: "pool_inv np1"
    unfolding a(4)
  proof (rule set_alloc_inv)
    show "pool_inv ?np" unfolding demo_pool_def
      by (rule init_from_prefilled_inv [OF new_pool_inv]) (auto simp: demo_gpu_def split: if_splits)
    show "ga_headroom_gb ((new_allocator [demo_gpu 0, demo_gpu 1] 2)\<lparr>ga_available := {}\<rparr>) = np_headroom_gb ?np"
      by code_simp
  qed (simp add: alloc_inv_def new_allocator_def demo_gpu_def)
  have specs: "np_specs ?np = [demo_spec ''a'', demo_spec ''b'']" by code_simp
  have per: "\<not> wants_all (PInt 2)" "py_int (PInt 2) = Inr 2" by code_simp+
  have lbl: "ns_label (demo_spec l) = l" for l by (simp add: demo_spec_def)
  have slot: "?slot \<in> set (ms_slots m)" using a(2,3) hd_in_set by metis
  have sok: "slot_ok ?slot" "slot_path ?slot = lock_path ''a'' 0"
    by (simp_all add: slot_ok_def slot_path_def lbl demo_gpu_def)
  from acquire_multi_node_leaks [OF table_locks_ok inv specs per, unfolded lbl, OF a(1) b slot sok(1)] a(5) sok(2)
  show ?thesis by auto
qed

end
