(* ===== verification/GpuCount.thy ===== *)
theory GpuCount
  imports PyVal
begin

text \<open>
  Collected test items with their markers, and the \<open>gpu_count\<close> marker argument,
  \<open>framework/markers/gpu_count.py\<close>. pytest itself is modelled as far as the framework uses
  it: \<open>item.iter_markers()\<close> yields the item's own markers and then those of its parents,
  \<open>item.get_closest_marker(name)\<close> is the first of them with that name, and \<open>item.add_marker(m)\<close>
  appends to the item's own markers.
\<close>

record marker =
  mk_name :: string
  mk_args :: "pyval list"

record item =
  it_nodeid :: string
  it_path :: string
  it_own :: "marker list"
  it_inherited :: "marker list"

definition iter_markers :: "item \<Rightarrow> marker list" where
  "iter_markers it = it_own it @ it_inherited it"

definition get_closest_marker :: "string \<Rightarrow> item \<Rightarrow> marker option" where
  "get_closest_marker name it = find (\<lambda>m. mk_name m = name) (iter_markers it)"

definition has_marker :: "string \<Rightarrow> item \<Rightarrow> bool" where
  "has_marker name it \<longleftrightarrow> (\<exists>m \<in> set (iter_markers it). mk_name m = name)"

definition add_marker :: "marker \<Rightarrow> item \<Rightarrow> item" where
  "add_marker m it = it\<lparr>it_own := it_own it @ [m]\<rparr>"

text \<open>A parsed count: a number or the \<open>GPU_COUNT_ALL\<close> sentinel.\<close>

datatype gpu_count = Count int | All

definition parse_gpu_count :: "pyval \<Rightarrow> py_error + gpu_count" where
  "parse_gpu_count raw =
     (case raw of
        PStr s \<Rightarrow>
          (let token = py_lower (py_strip s)
           in if token = ''all'' then Inr All
              else map_sum id Count (py_int (PStr token)))
      | PList xs \<Rightarrow>
          (case mapM py_int xs of
             Inl e \<Rightarrow> Inl e
           | Inr values \<Rightarrow> if values = [] then Inl ValueError else Inr (Count (Max (set values))))
      | _ \<Rightarrow> if \<not> is_num_inst raw then Inl ValueError else map_sum id Count (py_int raw))"

text \<open>The marker is \<open>None\<close>, or carries its positional arguments.\<close>

definition gpu_count_from_marker :: "marker option \<Rightarrow> int \<Rightarrow> py_error + gpu_count" where
  "gpu_count_from_marker marker dflt =
     (case marker of
        None \<Rightarrow> Inr (Count dflt)
      | Some m \<Rightarrow> (case mk_args m of [] \<Rightarrow> Inr (Count dflt) | a # _ \<Rightarrow> parse_gpu_count a))"

definition resolve_gpu_count :: "gpu_count \<Rightarrow> int \<Rightarrow> int \<Rightarrow> int" where
  "resolve_gpu_count v available dflt =
     (case v of
        All \<Rightarrow> if available > 0 then available else dflt
      | Count n \<Rightarrow> if n > 0 then n else dflt)"

lemma get_closest_marker_None: "get_closest_marker name it = None \<longleftrightarrow> \<not> has_marker name it"
  by (auto simp: get_closest_marker_def has_marker_def find_None_iff)

lemma find_skip: "\<not> P m \<Longrightarrow> find P (xs @ m # ys) = find P (xs @ ys)"
  by (induction xs) auto

text \<open>Adding a marker of another name changes no lookup.\<close>

lemma get_closest_add [simp]:
  "mk_name m \<noteq> name \<Longrightarrow> get_closest_marker name (add_marker m it) = get_closest_marker name it"
  by (simp add: get_closest_marker_def iter_markers_def add_marker_def find_skip)

lemma has_marker_add [simp]: "has_marker name (add_marker m it) \<longleftrightarrow> mk_name m = name \<or> has_marker name it"
  by (auto simp: has_marker_def iter_markers_def add_marker_def)

lemma add_marker_sel [simp]:
  "it_nodeid (add_marker m it) = it_nodeid it" "it_path (add_marker m it) = it_path it"
  "it_inherited (add_marker m it) = it_inherited it" "it_own (add_marker m it) = it_own it @ [m]"
  by (simp_all add: add_marker_def)

lemma lower_show_int: "py_lower (py_strip (show_int n)) = show_int n"
proof -
  have strip: "py_strip (show_int n) = show_int n"
    by (rule py_strip_no_space) (metis is_digit_not_space not_space_minus show_int_chars)
  have "lower_char c = c" if "c \<in> set (show_int n)" for c
    using show_int_chars [OF that] by (auto simp: lower_char_def is_digit_def)
  then show ?thesis by (simp add: strip py_lower_def map_idI)
qed

lemma mapM_ints: "mapM py_int (map PInt xs) = Inr xs"
  by (induction xs) auto

text \<open>
  The documented argument forms of \<open>gpu_count\<close>: the sentinel in any case and with blanks
  around it, a decimal string, an integer, and a non-empty list of integers, of which the largest
  counts; an empty list and a missing value are a \<open>ValueError\<close>.
\<close>

theorem parse_gpu_count_forms:
  "parse_gpu_count (PStr '' ALL '') = Inr All \<and> parse_gpu_count (PStr ''all'') = Inr All \<and>
   parse_gpu_count (PStr (show_int n)) = Inr (Count n) \<and> parse_gpu_count (PInt n) = Inr (Count n) \<and>
   parse_gpu_count (PList (map PInt (n # ns))) = Inr (Count (Max (set (n # ns)))) \<and>
   parse_gpu_count (PList []) = Inl ValueError \<and> parse_gpu_count PNone = Inl ValueError"
proof (intro conjI)
  have "show_int n \<noteq> ''all''" using show_int_chars [of "CHR ''a''" n] by (auto simp: is_digit_def)
  then show "parse_gpu_count (PStr (show_int n)) = Inr (Count n)"
    by (simp add: parse_gpu_count_def lower_show_int)
  show "parse_gpu_count (PList (map PInt (n # ns))) = Inr (Count (Max (set (n # ns))))"
    by (simp only: parse_gpu_count_def pyval.case mapM_ints) simp
  show "parse_gpu_count (PStr '' ALL '') = Inr All" "parse_gpu_count (PStr ''all'') = Inr All" by code_simp+
qed (simp_all add: parse_gpu_count_def)

text \<open>
  With a positive default the resolved count is positive, whatever the marker says (the parser
  itself lets zero and negative numbers through); an explicit positive count is taken as it is, and
  \<open>ALL\<close> is the capacity of the node when that is known.
\<close>

theorem resolve_gpu_count_positive:
  assumes "0 < dflt" and "gpu_count_from_marker marker dflt = Inr v"
  shows "0 < resolve_gpu_count v available dflt \<and>
    (case v of Count n \<Rightarrow> 0 < n \<longrightarrow> resolve_gpu_count v available dflt = n
     | All \<Rightarrow> 0 < available \<longrightarrow> resolve_gpu_count v available dflt = available)"
  using assms by (auto simp: resolve_gpu_count_def split: gpu_count.splits)

theorem resolve_gpu_count_positive_witness:
  "gpu_count_from_marker (Some \<lparr>mk_name = ''gpu_count'', mk_args = [PInt 0]\<rparr>) 2 = Inr (Count 0) \<and>
   0 < resolve_gpu_count (Count 0) 8 2"
proof -
  have "gpu_count_from_marker (Some \<lparr>mk_name = ''gpu_count'', mk_args = [PInt 0]\<rparr>) 2 = Inr (Count 0)" by code_simp
  with resolve_gpu_count_positive [of 2 _ "Count 0" 8] show ?thesis by simp
qed

end
