(* ===== verification/Workspace.thy ===== *)
theory Workspace
  imports PyStr
begin

text \<open>
  The path policy of \<open>framework/common/workspace_layout.py\<close>, with the parts of \<open>posixpath\<close> and
  \<open>pathlib\<close> it uses. A \<open>PurePosixPath\<close> is its root (empty, \<open>/\<close> or \<open>//\<close>) and its parts. Resolving symbolic
  links and the working directory are arguments.
\<close>

subsection \<open>posixpath and pathlib\<close>

definition slashes :: "string \<Rightarrow> string" where
  "slashes s =
     (if startswith s ''//'' \<and> \<not> startswith s ''///'' then ''//''
      else if startswith s ''/'' then ''/'' else [])"

text \<open>The loop of \<open>posixpath.normpath\<close> over the components.\<close>

fun norm_comps :: "bool \<Rightarrow> string list \<Rightarrow> string list \<Rightarrow> string list" where
  "norm_comps rooted acc [] = acc"
| "norm_comps rooted acc (c # cs) =
     (if c = [] \<or> c = ''.'' then norm_comps rooted acc cs
      else if c \<noteq> ''..'' \<or> (\<not> rooted \<and> acc = []) \<or> (acc \<noteq> [] \<and> last acc = ''..'')
      then norm_comps rooted (acc @ [c]) cs
      else norm_comps rooted (butlast acc) cs)"

definition normpath :: "string \<Rightarrow> string" where
  "normpath s =
     (if s = [] then ''.''
      else let init = slashes s;
               p = init @ join_with ''/'' (norm_comps (init \<noteq> []) [] (split_on CHR ''/'' s))
           in if p = [] then ''.'' else p)"

definition path_join :: "string \<Rightarrow> string \<Rightarrow> string" where
  "path_join a b =
     (if startswith b ''/'' then b
      else if a = [] \<or> last a = CHR ''/'' then a @ b else a @ ''/'' @ b)"

text \<open>\<open>pathlib.PurePath(s).as_posix()\<close>: empty and dot components disappear.\<close>

definition path_parts :: "string \<Rightarrow> string list" where
  "path_parts s = filter (\<lambda>c. c \<noteq> [] \<and> c \<noteq> ''.'') (split_on CHR ''/'' s)"

definition as_posix :: "string \<Rightarrow> string" where
  "as_posix s =
     (let p = slashes s @ join_with ''/'' (path_parts s) in if p = [] then ''.'' else p)"

definition lstrip_chars :: "string \<Rightarrow> string \<Rightarrow> string" where
  "lstrip_chars cs s = lstrip_by (\<lambda>c. c \<in> set cs) s"

definition rstrip_slash :: "string \<Rightarrow> string" where
  "rstrip_slash s = rstrip_by (\<lambda>c. c = CHR ''/'') s"

text \<open>\<open>s.split(marker, 1)[1]\<close>, \<open>None\<close> when the marker does not occur.\<close>

fun after_str :: "string \<Rightarrow> string \<Rightarrow> string option" where
  "after_str m [] = (if m = [] then Some [] else None)"
| "after_str m (c # s) = (if startswith (c # s) m then Some (drop (length m) (c # s)) else after_str m s)"

subsection \<open>Categories\<close>

definition category_roots :: "(string \<times> string) list" where
  "category_roots =
     [(''work'', ''output''), (''output'', ''output''), (''logs'', ''output/logs''),
      (''generated'', ''output/generated''), (''external'', ''external''), (''sftp'', ''sftp'')]"

definition category_root :: "string \<Rightarrow> string" where
  "category_root category = (case map_of category_roots category of None \<Rightarrow> category | Some r \<Rightarrow> r)"

definition is_managed_remote_path :: "string \<Rightarrow> string \<Rightarrow> bool" where
  "is_managed_remote_path path workspace_root \<longleftrightarrow>
     (let normalized = normpath (as_posix path); workspace = rstrip_slash workspace_root
      in normalized = workspace \<or> startswith normalized (workspace @ ''/''))"

text \<open>\<open>resolved\<close> is the resolved local path, \<open>rel\<close> its part below the working directory, if it lies there.\<close>

definition sftp_stage_path :: "string \<Rightarrow> string \<Rightarrow> string option \<Rightarrow> string" where
  "sftp_stage_path workspace_root resolved rel =
     path_join (path_join workspace_root (category_root ''sftp''))
       (case rel of
          Some r \<Rightarrow> r
        | None \<Rightarrow> replace_char CHR '':'' CHR ''_'' (lstrip_chars ''/'' resolved))"

definition output_suffix :: "string \<Rightarrow> string option" where
  "output_suffix category =
     (if startswith category ''output/'' then Some (drop (length ''output/'') category) else None)"

definition relative_part :: "string \<Rightarrow> string \<Rightarrow> string" where
  "relative_part path category =
     (let normalized = replace_char CHR '':'' CHR ''_'' (normpath path);
          markers = (if category = ''external''
                     then [''/output/test-binaries/'', ''/output/external/'', ''/external/''] else [])
      in case List.find (\<lambda>m. after_str m normalized \<noteq> None) markers of
           Some m \<Rightarrow> the (after_str m normalized)
         | None \<Rightarrow>
             (case (if category = ''output'' then after_str ''/output/'' normalized else None) of
                Some r \<Rightarrow> ''output/'' @ r
              | None \<Rightarrow>
                  (case output_suffix category of
                     None \<Rightarrow> lstrip_chars ''/'' normalized
                   | Some suf \<Rightarrow>
                       (case after_str (''/output/'' @ suf @ ''/'') normalized of
                          Some r \<Rightarrow> suf @ ''/'' @ r
                        | None \<Rightarrow> lstrip_chars ''/'' normalized))))"

definition category_prefixes :: "string \<Rightarrow> string list" where
  "category_prefixes category =
     (case output_suffix category of
        Some suf \<Rightarrow> [''output/'' @ suf @ ''/'', suf @ ''/'']
      | None \<Rightarrow>
          if category = ''output'' then [''output/'']
          else if category = ''external'' then [''output/test-binaries/'', ''output/external/'', ''external/'']
          else [])"

definition trim_category_prefix :: "string \<Rightarrow> string \<Rightarrow> string" where
  "trim_category_prefix path category =
     (let rel = lstrip_chars ''./'' (normpath path)
      in if rel = ''.'' then []
         else case List.find (startswith rel) (category_prefixes category) of
                Some p \<Rightarrow> drop (length p) rel
              | None \<Rightarrow> rel)"

definition remote_workspace_path :: "string \<Rightarrow> string \<Rightarrow> string \<Rightarrow> string" where
  "remote_workspace_path workspace_root path category =
     (let raw = as_posix path
      in if is_managed_remote_path raw workspace_root then normpath raw
         else let root = category_root category;
                  rel = (if startswith raw ''/'' then relative_part raw root else raw)
              in path_join (path_join workspace_root root) (trim_category_prefix rel root))"

subsection \<open>The local cache of external sources\<close>

text \<open>\<open>a / b\<close>, \<open>p.name\<close> and \<open>p.parent\<close> of \<open>pathlib\<close>, on paths in \<open>as_posix\<close> form.\<close>

definition path_div :: "string \<Rightarrow> string \<Rightarrow> string" where
  "path_div a b = as_posix (path_join a b)"

definition path_name :: "string \<Rightarrow> string" where
  "path_name p = (if path_parts p = [] then [] else last (path_parts p))"

definition path_parent :: "string \<Rightarrow> string" where
  "path_parent p = as_posix (slashes p @ join_with ''/'' (butlast (path_parts p)))"

definition local_output_root :: "string \<Rightarrow> string" where
  "local_output_root build_dir =
     (if path_name build_dir = ''test-binaries'' then path_parent build_dir else as_posix build_dir)"

definition local_external_path :: "string \<Rightarrow> string list \<Rightarrow> string" where
  "local_external_path build_dir parts = foldl path_div (path_div (local_output_root build_dir) ''external'') parts"

text \<open>\<open>p.relative_to(base)\<close>: \<open>None\<close> for its \<open>ValueError\<close>.\<close>

definition relative_to :: "string \<Rightarrow> string \<Rightarrow> string option" where
  "relative_to p base =
     (if slashes p = slashes base \<and> take (length (path_parts base)) (path_parts p) = path_parts base
      then Some (as_posix (join_with ''/'' (drop (length (path_parts base)) (path_parts p)))) else None)"

definition local_external_clone_dest :: "(string \<Rightarrow> string) \<Rightarrow> string \<Rightarrow> string \<Rightarrow> string" where
  "local_external_clone_dest resolve dest build_dir =
     (let absolute = startswith dest ''/'';
          compare_root = (if absolute \<and> \<not> startswith build_dir ''/'' then resolve build_dir else build_dir);
          compare_dest = (if absolute then resolve dest else dest)
      in case relative_to compare_dest compare_root of
           Some relative \<Rightarrow> local_external_path build_dir [trim_category_prefix relative ''external'']
         | None \<Rightarrow>
             if absolute then as_posix dest
             else local_external_path build_dir [trim_category_prefix (as_posix dest) ''external''])"

subsection \<open>Components\<close>

lemma split_on_sep: "x \<notin> set a \<Longrightarrow> split_on x (a @ x # b) = a # split_on x b"
  by (induction a) auto

lemma split_on_single: "x \<notin> set a \<Longrightarrow> split_on x a = [a]"
  by (induction a) auto

lemma split_on_append_sep: "split_on x (a @ x # b) = split_on x a @ split_on x b"
proof (induction a)
  case (Cons c a)
  obtain w ws where w: "split_on x a = w # ws" by (cases "split_on x a") auto
  with Cons show ?case by simp
qed simp

lemma join_Cons: "cs \<noteq> [] \<Longrightarrow> join_with sep (c # cs) = c @ sep @ join_with sep cs"
  by (cases cs) auto

lemma split_on_join: "cs \<noteq> [] \<Longrightarrow> \<forall>c \<in> set cs. x \<notin> set c \<Longrightarrow> split_on x (join_with [x] cs) = cs"
proof (induction cs)
  case (Cons c cs)
  then show ?case by (cases "cs = []") (simp_all add: split_on_single join_Cons split_on_sep)
qed simp

definition good_comp :: "string \<Rightarrow> bool" where
  "good_comp c \<longleftrightarrow> c \<noteq> [] \<and> c \<noteq> ''.'' \<and> c \<noteq> ''..'' \<and> CHR ''/'' \<notin> set c"

text \<open>After normalisation, parent references stand only at the front, and only in a relative path.\<close>

definition norm_shape :: "bool \<Rightarrow> string list \<Rightarrow> bool" where
  "norm_shape rooted cs \<longleftrightarrow>
     (\<exists>n gs. cs = replicate n ''..'' @ gs \<and> (rooted \<longrightarrow> n = 0) \<and> list_all good_comp gs)"

lemma norm_shape_append:
  assumes "norm_shape rooted acc" and "CHR ''/'' \<notin> set c" and "c \<noteq> []" and "c \<noteq> ''.''"
    and "c \<noteq> ''..'' \<or> (\<not> rooted \<and> acc = []) \<or> (acc \<noteq> [] \<and> last acc = ''..'')"
  shows "norm_shape rooted (acc @ [c])"
proof -
  obtain n gs where a: "acc = replicate n ''..'' @ gs" "rooted \<longrightarrow> n = 0" "list_all good_comp gs"
    using assms(1) by (auto simp: norm_shape_def)
  show ?thesis
  proof (cases "c = ''..''")
    case False
    with a assms(2-4) have "list_all good_comp (gs @ [c])" by (simp add: good_comp_def)
    with a show ?thesis unfolding norm_shape_def by (intro exI [of _ n] exI [of _ "gs @ [c]"]) simp
  next
    case True
    have "gs = []"
    proof (rule ccontr)
      assume "gs \<noteq> []"
      then have "last acc = last gs" "last gs \<in> set gs" "acc \<noteq> []" using a by auto
      with a(3) True assms(5) show False by (auto simp: list_all_iff good_comp_def)
    qed
    moreover have "\<not> rooted" using True assms(5) a calculation by (cases n) auto
    ultimately show ?thesis
      unfolding norm_shape_def using a True
      by (intro exI [of _ "Suc n"] exI [of _ "[]"]) (simp add: replicate_append_same)
  qed
qed

lemma norm_shape_butlast:
  assumes "norm_shape rooted acc" and "acc = [] \<or> last acc \<noteq> ''..''"
  shows "norm_shape rooted (butlast acc)"
proof -
  obtain n gs where a: "acc = replicate n ''..'' @ gs" "rooted \<longrightarrow> n = 0" "list_all good_comp gs"
    using assms(1) by (auto simp: norm_shape_def)
  show ?thesis
  proof (cases "gs = []")
    case True
    with a assms(2) have "n = 0" by (cases "n = 0") auto
    with a True show ?thesis by (simp add: norm_shape_def)
  next
    case False
    with a show ?thesis
      unfolding norm_shape_def
      by (intro exI [of _ n] exI [of _ "butlast gs"]) (auto simp: butlast_append list_all_iff dest: in_set_butlastD)
  qed
qed

lemma norm_comps_shape:
  "norm_shape rooted acc \<Longrightarrow> \<forall>c \<in> set cs. CHR ''/'' \<notin> set c \<Longrightarrow> norm_shape rooted (norm_comps rooted acc cs)"
proof (induction rooted acc cs rule: norm_comps.induct)
  case (2 rooted acc c cs)
  then show ?case by (auto intro: norm_shape_append norm_shape_butlast)
qed simp

subsection \<open>Paths that stay below their root\<close>

definition safe_rel :: "string \<Rightarrow> bool" where
  "safe_rel s \<longleftrightarrow> s = [] \<or> (\<forall>c \<in> set (split_on CHR ''/'' s). c \<noteq> [] \<and> c \<noteq> ''..'')"

text \<open>The characters \<open>lstrip("./")\<close> removes.\<close>

definition dot_slash :: "char \<Rightarrow> bool" where
  "dot_slash c \<longleftrightarrow> c = CHR ''.'' \<or> c = CHR ''/''"

lemma dot_slash_simps [simp]: "dot_slash CHR ''.''" "dot_slash CHR ''/''"
  by (simp_all add: dot_slash_def)

lemma lstrip_dot_slash: "lstrip_chars ''./'' s = dropWhile dot_slash s"
proof -
  have "(\<lambda>c. c \<in> set ''./'') = dot_slash" by (simp add: fun_eq_iff dot_slash_def)
  then show ?thesis by (simp add: lstrip_chars_def lstrip_by_def)
qed

lemma strip_good:
  "list_all good_comp gs \<Longrightarrow> safe_rel (dropWhile dot_slash (join_with ''/'' gs))"
proof (induction gs)
  case Nil
  then show ?case by (simp add: safe_rel_def)
next
  case (Cons g gs)
  have g: "CHR ''/'' \<notin> set g" using Cons.prems by (simp add: good_comp_def)
  have first: "dropWhile dot_slash g \<noteq> ''..''"
  proof
    assume eq: "dropWhile dot_slash g = ''..''"
    then have "\<not> dot_slash (hd (dropWhile dot_slash g))" using hd_dropWhile [of dot_slash g] by simp
    with eq show False by simp
  qed
  have noslash: "CHR ''/'' \<notin> set (dropWhile dot_slash g)" using g by (auto dest: set_dropWhileD)
  show ?case
  proof (cases "gs = []")
    case True
    with noslash first show ?thesis by (simp add: safe_rel_def split_on_single) blast
  next
    case False
    have join: "join_with ''/'' (g # gs) = g @ CHR ''/'' # join_with ''/'' gs" using False by (simp add: join_Cons)
    show ?thesis
    proof (cases "\<forall>c \<in> set g. dot_slash c")
      case True
      then have "dropWhile dot_slash (join_with ''/'' (g # gs)) = dropWhile dot_slash (join_with ''/'' gs)"
        unfolding join by (simp add: dropWhile_append2)
      with Cons show ?thesis by simp
    next
      case not: False
      then obtain x where "x \<in> set g" "\<not> dot_slash x" by blast
      then have drop: "dropWhile dot_slash (join_with ''/'' (g # gs)) = dropWhile dot_slash g @ CHR ''/'' # join_with ''/'' gs"
        unfolding join by (rule dropWhile_append1)
      have ne: "dropWhile dot_slash g \<noteq> []" using not by (auto simp: dropWhile_eq_Nil_conv)
      have "\<forall>c \<in> set gs. CHR ''/'' \<notin> set c" using Cons.prems by (auto simp: list_all_iff good_comp_def)
      then have "split_on CHR ''/'' (dropWhile dot_slash (join_with ''/'' (g # gs))) = dropWhile dot_slash g # gs"
        unfolding drop using False by (simp add: split_on_sep [OF noslash] split_on_join)
      with ne first Cons.prems show ?thesis by (auto simp: safe_rel_def list_all_iff good_comp_def)
    qed
  qed
qed

lemma strip_shape:
  assumes "norm_shape rooted cs"
  shows "safe_rel (dropWhile dot_slash (join_with ''/'' cs))"
proof -
  obtain n gs where cs: "cs = replicate n ''..'' @ gs" "list_all good_comp gs"
    using assms by (auto simp: norm_shape_def)
  have "dropWhile dot_slash (join_with ''/'' (replicate n ''..'' @ gs))
      = dropWhile dot_slash (join_with ''/'' gs)"
  proof (induction n)
    case (Suc n)
    then show ?case by (cases "replicate n ''..'' @ gs") auto
  qed simp
  with strip_good [OF cs(2)] cs(1) show ?thesis by simp
qed

lemma strip_normpath_safe: "safe_rel (lstrip_chars ''./'' (normpath s))"
proof (cases "s = []")
  case True
  then show ?thesis by (simp add: normpath_def lstrip_dot_slash safe_rel_def)
next
  case False
  let ?cs = "norm_comps (slashes s \<noteq> []) [] (split_on CHR ''/'' s)"
  have shape: "norm_shape (slashes s \<noteq> []) ?cs"
    by (rule norm_comps_shape) (auto simp: norm_shape_def dest: split_on_no_sep)
  have sl: "\<forall>c \<in> set (slashes s). dot_slash c" by (simp add: slashes_def)
  let ?p = "slashes s @ join_with ''/'' ?cs"
  have drop: "dropWhile dot_slash ?p = dropWhile dot_slash (join_with ''/'' ?cs)"
    using sl by (intro dropWhile_append2) auto
  have norm: "normpath s = (if ?p = [] then ''.'' else ?p)"
    using False unfolding normpath_def Let_def by (rule if_not_P)
  show ?thesis
  proof (cases "?p = []")
    case True
    then have "normpath s = ''.''" unfolding norm by (rule if_P)
    then show ?thesis by (simp add: lstrip_dot_slash safe_rel_def)
  next
    case False
    then have "normpath s = ?p" unfolding norm by (rule if_not_P)
    with strip_shape [OF shape] drop show ?thesis by (simp only: lstrip_dot_slash)
  qed
qed

lemma safe_rel_drop:
  assumes "safe_rel s" and "s = (p @ ''/'') @ r"
  shows "safe_rel r"
proof -
  have "split_on CHR ''/'' s = split_on CHR ''/'' p @ split_on CHR ''/'' r"
    using assms(2) by (simp add: split_on_append_sep)
  with assms show ?thesis by (auto simp: safe_rel_def)
qed

lemma category_prefixes_last: "list_all (\<lambda>p. p \<noteq> [] \<and> last p = CHR ''/'') (category_prefixes c)"
  by (simp add: category_prefixes_def split: option.split)

lemma category_prefixes_slash:
  assumes "p \<in> set (category_prefixes c)"
  shows "\<exists>q. p = q @ ''/''"
proof -
  have ne: "p \<noteq> []" and lst: "last p = CHR ''/''"
    using assms category_prefixes_last [of c] by (auto simp: list_all_iff)
  have "butlast p @ ''/'' = p" using append_butlast_last_id [OF ne] unfolding lst .
  then show ?thesis by (intro exI, rule sym)
qed

lemma trim_safe: "safe_rel (trim_category_prefix path category)"
proof -
  let ?rel = "lstrip_chars ''./'' (normpath path)"
  note safe = strip_normpath_safe [of path]
  show ?thesis
  proof (cases "List.find (startswith ?rel) (category_prefixes category)")
    case None
    with safe show ?thesis by (auto simp: trim_category_prefix_def Let_def safe_rel_def)
  next
    case (Some p)
    then have p: "startswith ?rel p" "p \<in> set (category_prefixes category)"
      by (auto simp: find_Some_iff)
    obtain q where q: "p = q @ ''/''" using category_prefixes_slash [OF p(2)] by blast
    obtain r where r: "?rel = p @ r" using p(1) by (auto simp: startswith_iff)
    have "safe_rel r" by (rule safe_rel_drop [OF safe]) (use r q in simp)
    with Some r show ?thesis by (auto simp: trim_category_prefix_def Let_def safe_rel_def)
  qed
qed

subsection \<open>Normalising pathlib paths\<close>

lemma path_parts_good: "c \<in> set (path_parts s) \<Longrightarrow> c \<noteq> [] \<and> c \<noteq> ''.'' \<and> CHR ''/'' \<notin> set c"
  by (auto simp: path_parts_def dest: split_on_no_sep)

lemma join_no_lead:
  assumes "\<forall>c \<in> set cs. c \<noteq> [] \<and> CHR ''/'' \<notin> set c"
  shows "\<not> startswith (join_with ''/'' cs) ''/''"
proof (cases cs)
  case (Cons c cs')
  with assms obtain d r where "c = d # r" "d \<noteq> CHR ''/''" by (cases c) auto
  with Cons show ?thesis by (cases cs') (auto simp: startswith_def)
qed (simp add: startswith_def)

lemma parts_of_join:
  assumes "\<forall>c \<in> set cs. c \<noteq> [] \<and> c \<noteq> ''.'' \<and> CHR ''/'' \<notin> set c"
  shows "filter (\<lambda>c. c \<noteq> [] \<and> c \<noteq> ''.'') (split_on CHR ''/'' (join_with ''/'' cs)) = cs"
proof (cases "cs = []")
  case False
  with assms show ?thesis by (subst split_on_join) (auto simp: filter_id_conv)
qed simp

lemma slashes_cases: "slashes s = [] \<or> slashes s = ''/'' \<or> slashes s = ''//''"
  by (simp add: slashes_def)

lemma path_parts_join:
  assumes "\<forall>c \<in> set cs. c \<noteq> [] \<and> c \<noteq> ''.'' \<and> CHR ''/'' \<notin> set c" and "i = [] \<or> i = ''/'' \<or> i = ''//''"
  shows "path_parts (i @ join_with ''/'' cs) = cs" and "slashes (i @ join_with ''/'' cs) = i"
proof -
  have lead: "\<not> startswith (join_with ''/'' cs) ''/''" using assms(1) by (intro join_no_lead) auto
  show "path_parts (i @ join_with ''/'' cs) = cs"
    using assms(2) parts_of_join [OF assms(1)] by (auto simp: path_parts_def)
  show "slashes (i @ join_with ''/'' cs) = i"
    using assms(2) lead by (cases "join_with ''/'' cs") (auto simp: slashes_def startswith_def)
qed

lemma as_posix_idem: "as_posix (as_posix s) = as_posix s"
proof (cases "slashes s @ join_with ''/'' (path_parts s) = []")
  case True
  then have "as_posix s = ''.''" by (simp add: as_posix_def Let_def)
  moreover have "as_posix ''.'' = ''.''" by code_simp
  ultimately show ?thesis by simp
next
  case False
  then have eq: "as_posix s = slashes s @ join_with ''/'' (path_parts s)" by (auto simp: as_posix_def Let_def)
  have "\<forall>c \<in> set (path_parts s). c \<noteq> [] \<and> c \<noteq> ''.'' \<and> CHR ''/'' \<notin> set c" using path_parts_good by blast
  note p = path_parts_join [OF this slashes_cases [of s]]
  show ?thesis using False unfolding eq by (simp add: as_posix_def [of "slashes s @ join_with ''/'' (path_parts s)"] p Let_def)
qed

text \<open>
  C40. A path mapped into the remote workspace stays there: the result is the workspace root or lies below it, and
  unless the path was already managed it is the category's directory followed by components none of which is
  empty or a parent reference, however many of them the path had.
\<close>

theorem remote_path_confined:
  assumes cat: "category \<in> fst ` set category_roots" and ws: "ws \<noteq> []" "last ws \<noteq> CHR ''/''"
  shows "(remote_workspace_path ws path category = ws \<or> startswith (remote_workspace_path ws path category) (ws @ ''/'')) \<and>
    (\<not> is_managed_remote_path path ws \<longrightarrow>
      (\<exists>r. remote_workspace_path ws path category = ws @ ''/'' @ category_root category @ ''/'' @ r \<and> safe_rel r))"
proof -
  have strip: "rstrip_slash ws = ws"
    using ws by (cases ws rule: rev_cases) (auto simp: rstrip_slash_def rstrip_by_def)
  have root: "category_root category \<noteq> [] \<and> \<not> startswith (category_root category) ''/'' \<and> last (category_root category) \<noteq> CHR ''/''"
    using cat by (auto simp: category_roots_def category_root_def startswith_def)
  have managed: "is_managed_remote_path (as_posix path) ws = is_managed_remote_path path ws"
    by (simp add: is_managed_remote_path_def as_posix_idem)
  have rel: "\<exists>r. remote_workspace_path ws path category = ws @ ''/'' @ category_root category @ ''/'' @ r \<and> safe_rel r"
    if "\<not> is_managed_remote_path path ws"
  proof -
    let ?rel = "if startswith (as_posix path) ''/'' then relative_part (as_posix path) (category_root category) else as_posix path"
    let ?r = "trim_category_prefix ?rel (category_root category)"
    have safe: "safe_rel ?r" by (rule trim_safe)
    then have "\<not> startswith ?r ''/''"
      by (cases ?r) (auto simp: safe_rel_def startswith_def)
    moreover have "path_join ws (category_root category) = ws @ ''/'' @ category_root category"
      using ws root by (simp add: path_join_def)
    ultimately have "path_join (path_join ws (category_root category)) ?r = ws @ ''/'' @ category_root category @ ''/'' @ ?r"
      using root by (simp add: path_join_def)
    moreover have "remote_workspace_path ws path category = path_join (path_join ws (category_root category)) ?r"
      using that managed by (simp add: remote_workspace_path_def Let_def)
    ultimately show ?thesis using safe by (intro exI [of _ ?r]) simp
  qed
  moreover have "remote_workspace_path ws path category = ws \<or> startswith (remote_workspace_path ws path category) (ws @ ''/'')"
  proof (cases "is_managed_remote_path path ws")
    case True
    then have "remote_workspace_path ws path category = normpath (as_posix path)"
      using managed by (simp add: remote_workspace_path_def Let_def)
    with True strip show ?thesis by (simp add: is_managed_remote_path_def Let_def)
  next
    case False
    from rel [OF this] obtain r where "remote_workspace_path ws path category = (ws @ ''/'') @ category_root category @ ''/'' @ r"
      by auto
    then show ?thesis by (metis startswith_append)
  qed
  ultimately show ?thesis by blast
qed

theorem remote_path_confined_witness:
  "remote_workspace_path ''/home/ci/run-rocm-tests'' ''../../etc/../x/y'' ''work'' = ''/home/ci/run-rocm-tests/output/x/y'' \<and>
   startswith (remote_workspace_path ''/home/ci/run-rocm-tests'' ''../../etc/../x/y'' ''work'') ''/home/ci/run-rocm-tests/''"
proof -
  have val: "remote_workspace_path ''/home/ci/run-rocm-tests'' ''../../etc/../x/y'' ''work'' = ''/home/ci/run-rocm-tests/output/x/y''"
    by code_simp
  have "''work'' \<in> fst ` set category_roots" by code_simp
  from remote_path_confined [OF this, of "''/home/ci/run-rocm-tests''" "''../../etc/../x/y''"] val show ?thesis by simp
qed

text \<open>
  Stripping leading dots is not injective on names: a hidden file and its visible namesake are mapped to the
  same remote path.
\<close>

theorem hidden_names_collide:
  "remote_workspace_path ''/w'' ''.cache/x'' ''work'' = remote_workspace_path ''/w'' ''cache/x'' ''work''"
  by code_simp

end
