(* ===== verification/Helpers.thy ===== *)
theory Helpers
  imports Workspace PyVal
begin

text \<open>
  Results of executed commands, outcome classes and the names of log files, \<open>framework/common/helpers.py\<close>.
  Creating directories and truncating files is left out: the operations return the paths they would use.
\<close>

subsection \<open>Execution results\<close>

record execution_result =
  er_exit_code :: int
  er_stdout :: string
  er_stderr :: string
  er_duration :: rat

definition er_ok :: "execution_result \<Rightarrow> bool" where
  "er_ok r \<longleftrightarrow> er_exit_code r = 0"

text \<open>Rounding to thousandths, ties to even, and the format \<open>.3f\<close>.\<close>

definition thousandths :: "rat \<Rightarrow> int" where
  "thousandths x =
     (let y = x * 1000; f = \<lfloor>y\<rfloor>; d = y - of_int f
      in if d < 1 / 2 then f else if d > 1 / 2 then f + 1 else if even f then f else f + 1)"

definition show_fixed3 :: "rat \<Rightarrow> string" where
  "show_fixed3 x =
     (let n = nat (thousandths \<bar>x\<bar>); frac = show_nat (n mod 1000)
      in (if x < 0 then ''-'' else []) @ show_nat (n div 1000) @ ''.'' @ replicate (3 - length frac) CHR ''0'' @ frac)"

definition stream_lines :: "string \<Rightarrow> string \<Rightarrow> string list" where
  "stream_lines name s = (if s = [] then [] else (''  '' @ name @ '':'') # map (\<lambda>l. ''    '' @ l) (splitlines s))"

definition er_str :: "execution_result \<Rightarrow> string" where
  "er_str r =
     join_with [char_of (10 :: nat)]
       ((''ExecutionResult(exit_code='' @ show_int (er_exit_code r) @ '', duration='' @ show_fixed3 (er_duration r) @ ''s)'')
        # stream_lines ''stdout'' (er_stdout r) @ stream_lines ''stderr'' (er_stderr r))"

datatype outcome = PASS | FAIL | SKIP | TIMEOUT | KILLED | ERROR | HEALTH_FAIL | PERF_DROP | PERF_GAIN

subsection \<open>Artifact names\<close>

text \<open>\<open>re.sub("[class]+", "_", s)\<close>: every run of characters of the class becomes one underscore.\<close>

fun sub_runs :: "(char \<Rightarrow> bool) \<Rightarrow> bool \<Rightarrow> string \<Rightarrow> string" where
  "sub_runs P in_run [] = []"
| "sub_runs P in_run (c # s) =
     (if P c then (if in_run then sub_runs P True s else CHR ''_'' # sub_runs P True s)
      else c # sub_runs P False s)"

definition portable :: "char \<Rightarrow> bool" where
  "portable c \<longleftrightarrow>
     (let n = (of_char c :: nat)
      in (65 \<le> n \<and> n \<le> 90) \<or> (97 \<le> n \<and> n \<le> 122) \<or> (48 \<le> n \<and> n \<le> 57)) \<or> c \<in> set ''._=-''"

definition dot_or_underscore :: "char \<Rightarrow> bool" where
  "dot_or_underscore c \<longleftrightarrow> c = CHR ''.'' \<or> c = CHR ''_''"

definition safe_artifact_name :: "string \<Rightarrow> string" where
  "safe_artifact_name name =
     (let safe = rstrip_by dot_or_underscore (lstrip_by dot_or_underscore
                   (sub_runs (\<lambda>c. c = CHR ''_'') False (sub_runs (\<lambda>c. \<not> portable c) False name)))
      in if safe = [] then ''test'' else safe)"

text \<open>\<open>name.replace("::", "__")\<close> and \<open>nodeid.split("::")[0]\<close>.\<close>

fun replace_colons :: "string \<Rightarrow> string" where
  "replace_colons (c # d # s) =
     (if c = CHR '':'' \<and> d = CHR '':'' then ''__'' @ replace_colons s else c # replace_colons (d # s))"
| "replace_colons s = s"

fun before_colons :: "string \<Rightarrow> string" where
  "before_colons (c # d # s) = (if c = CHR '':'' \<and> d = CHR '':'' then [] else c # before_colons (d # s))"
| "before_colons s = s"

definition executor_log_file :: "string \<Rightarrow> string \<Rightarrow> string option \<Rightarrow> string" where
  "executor_log_file artifact_dir test_name nodeid =
     (let test_subdir =
            (case nodeid of
               Some n \<Rightarrow> if contains_str ''::'' n then path_name (path_parent (before_colons n)) else ''executor-logs''
             | None \<Rightarrow> ''executor-logs'')
      in path_div (path_div artifact_dir test_subdir) (safe_artifact_name (replace_colons test_name) @ ''.log''))"

definition gpu_monitor_log_path :: "string \<Rightarrow> string \<Rightarrow> string" where
  "gpu_monitor_log_path artifact_dir test_name =
     path_join (path_join artifact_dir ''executor-logs'')
       (safe_artifact_name (replace_colons test_name) @ ''_gpu_monitor.log'')"

subsection \<open>Properties of the names\<close>

lemma sub_runs_portable: "c \<in> set (sub_runs P b s) \<Longrightarrow> c = CHR ''_'' \<or> (c \<in> set s \<and> \<not> P c)"
  by (induction P b s rule: sub_runs.induct) (auto split: if_splits)

lemma sub_runs_id: "\<forall>c \<in> set s. \<not> P c \<Longrightarrow> sub_runs P b s = s"
  by (induction s arbitrary: b) auto

abbreviation no_double :: "string \<Rightarrow> bool" where
  "no_double s \<equiv> successively (\<lambda>c d. \<not> (c = CHR ''_'' \<and> d = CHR ''_'')) s"

lemma sub_runs_no_double:
  "no_double (sub_runs (\<lambda>c. c = CHR ''_'') b s) \<and> (b \<longrightarrow> sub_runs (\<lambda>c. c = CHR ''_'') b s = [] \<or> hd (sub_runs (\<lambda>c. c = CHR ''_'') b s) \<noteq> CHR ''_'')"
  by (induction s arbitrary: b) (auto simp: successively_Cons)

lemma sub_runs_no_double_id:
  "no_double s \<Longrightarrow> \<not> (b \<and> s \<noteq> [] \<and> hd s = CHR ''_'') \<Longrightarrow> sub_runs (\<lambda>c. c = CHR ''_'') b s = s"
proof (induction s arbitrary: b)
  case (Cons c s)
  then show ?case by (cases s) auto
qed simp

lemma portable_underscore [simp]: "portable CHR ''_''"
  by (simp add: portable_def)

lemma no_double_drop: "no_double s \<Longrightarrow> no_double (dropWhile P s)"
  by (metis successively_append_iff takeWhile_dropWhile_id)

lemma no_double_rev: "no_double (rev s) \<longleftrightarrow> no_double s"
  unfolding successively_rev by (rule successively_cong) auto

lemma strip_ends:
  defines "strip \<equiv> \<lambda>s. rstrip_by dot_or_underscore (lstrip_by dot_or_underscore s)"
  shows "set (strip s) \<subseteq> set s" and "no_double s \<Longrightarrow> no_double (strip s)"
    and "strip s \<noteq> [] \<Longrightarrow> \<not> dot_or_underscore (hd (strip s)) \<and> \<not> dot_or_underscore (last (strip s))"
proof -
  show "set (strip s) \<subseteq> set s"
    by (auto simp: strip_def rstrip_by_def lstrip_by_def dest!: set_dropWhileD)
  show "no_double (strip s)" if "no_double s"
  proof -
    have "no_double (rev (dropWhile dot_or_underscore s))"
      unfolding no_double_rev by (rule no_double_drop [OF that])
    from no_double_drop [OF this] show ?thesis
      unfolding strip_def rstrip_by_def lstrip_by_def no_double_rev .
  qed
  assume ne: "strip s \<noteq> []"
  let ?l = "dropWhile dot_or_underscore s"
  have "?l \<noteq> []"
  proof
    assume "?l = []"
    then have "strip s = []" unfolding strip_def rstrip_by_def lstrip_by_def by (simp only:) simp
    with ne show False ..
  qed
  then have hd: "\<not> dot_or_underscore (hd ?l)" by (rule hd_dropWhile)
  obtain t where t: "?l = strip s @ t"
    unfolding strip_def rstrip_by_def lstrip_by_def by (metis rev_append rev_rev_ident takeWhile_dropWhile_id)
  have "\<not> dot_or_underscore (last (strip s))"
    using ne hd_dropWhile [of dot_or_underscore "rev ?l"] by (simp add: strip_def rstrip_by_def lstrip_by_def last_rev)
  with hd t ne show "\<not> dot_or_underscore (hd (strip s)) \<and> \<not> dot_or_underscore (last (strip s))" by simp
qed

lemma strip_ends_id:
  "s \<noteq> [] \<Longrightarrow> \<not> dot_or_underscore (hd s) \<Longrightarrow> \<not> dot_or_underscore (last s) \<Longrightarrow>
     rstrip_by dot_or_underscore (lstrip_by dot_or_underscore s) = s"
  by (simp add: rstrip_by_def lstrip_by_def dropWhile_eq_self_iff [THEN iffD2] hd_rev)

definition artifact_name_ok :: "string \<Rightarrow> bool" where
  "artifact_name_ok n \<longleftrightarrow> n \<noteq> [] \<and> (\<forall>c \<in> set n. portable c) \<and> no_double n \<and>
     \<not> dot_or_underscore (hd n) \<and> \<not> dot_or_underscore (last n)"

text \<open>
  An artifact name is portable: it is not empty, consists of letters, digits and \<open>. _ = -\<close> only (so it is a
  single path component), has no two adjacent underscores and neither starts nor ends with a dot or an
  underscore; and the names of this form are exactly the fixed points.
\<close>

theorem artifact_name_portable:
  "artifact_name_ok (safe_artifact_name name) \<and> (artifact_name_ok name \<longleftrightarrow> safe_artifact_name name = name)"
proof -
  have ok: "artifact_name_ok (safe_artifact_name name)" for name
  proof -
    let ?a = "sub_runs (\<lambda>c. \<not> portable c) False name" let ?b = "sub_runs (\<lambda>c. c = CHR ''_'') False ?a"
    let ?s = "rstrip_by dot_or_underscore (lstrip_by dot_or_underscore ?b)"
    have "portable c" if "c \<in> set ?b" for c
      using sub_runs_portable [OF that] sub_runs_portable [of c "\<lambda>c. \<not> portable c" False name] by auto
    then have "\<forall>c \<in> set ?b. portable c" by blast
    moreover have "no_double ?b" using sub_runs_no_double by blast
    moreover have "artifact_name_ok ''test''" by code_simp
    ultimately show ?thesis
      using strip_ends [of ?b] by (auto simp: artifact_name_ok_def safe_artifact_name_def Let_def)
  qed
  moreover have "safe_artifact_name name = name" if "artifact_name_ok name"
  proof -
    have "sub_runs (\<lambda>c. \<not> portable c) False name = name"
      using that by (intro sub_runs_id) (auto simp: artifact_name_ok_def)
    moreover have "sub_runs (\<lambda>c. c = CHR ''_'') False name = name"
      using that by (intro sub_runs_no_double_id) (auto simp: artifact_name_ok_def)
    ultimately show ?thesis
      using that strip_ends_id by (simp add: safe_artifact_name_def artifact_name_ok_def Let_def)
  qed
  ultimately show ?thesis by metis
qed

end
