(* ===== verification/Scheduler.thy ===== *)
theory Scheduler
  imports GpuCount Helpers "HOL-Library.Multiset"
begin

text \<open>
  The collection-time scheduler, \<open>framework/scheduling/dynamic_scheduler.py\<close>, and the plugin that
  calls it and collects run times, \<open>framework/plugins/scheduling_plugin.py\<close>. The marker
  \<open>gpu_indices\<close> carries a list of integers, as the source annotates it; an element of another type is
  outside the model and appears as a \<open>TypeError\<close>. The number of GPU slots of the pool is an argument.
\<close>

datatype schedule_policy = RESOURCE_MOST | RESOURCE_LEAST

definition policy_of_value :: "string \<Rightarrow> py_error + schedule_policy" where
  "policy_of_value v =
     (if v = ''resource-most'' then Inr RESOURCE_MOST
      else if v = ''resource-least'' then Inr RESOURCE_LEAST else Inl ValueError)"

definition all_sort_weight :: int where
  "all_sort_weight = 1000000"

definition is_multinode :: "item \<Rightarrow> bool" where
  "is_multinode it \<longleftrightarrow> has_marker ''e2e.multinode'' it"

text \<open>The first argument of a marker, when the marker is there and has one.\<close>

definition marker_arg :: "string \<Rightarrow> item \<Rightarrow> pyval option" where
  "marker_arg name it =
     (case get_closest_marker name it of
        None \<Rightarrow> None
      | Some m \<Rightarrow> (case mk_args m of [] \<Rightarrow> None | a # _ \<Rightarrow> Some a))"

definition multi_gpu_default :: "item \<Rightarrow> int" where
  "multi_gpu_default it = (if has_marker ''hw.multi_gpu'' it then 2 else 0)"

definition multi_gpu_count :: "item \<Rightarrow> py_error + int" where
  "multi_gpu_count it =
     (case marker_arg ''gpu_count'' it of
        None \<Rightarrow> Inr (multi_gpu_default it)
      | Some raw \<Rightarrow>
          (case parse_gpu_count raw of
             Inl e \<Rightarrow> Inl e
           | Inr All \<Rightarrow> Inr all_sort_weight
           | Inr (Count n) \<Rightarrow> Inr (if n > 1 then n else multi_gpu_default it)))"

definition gpu_indices_count :: "item \<Rightarrow> py_error + int" where
  "gpu_indices_count it =
     (case marker_arg ''gpu_indices'' it of
        None \<Rightarrow> Inr 0
      | Some raw \<Rightarrow> if is_int_inst raw then Inr 1 else map_sum id (int \<circ> length) (py_list raw))"

subsection \<open>Sort keys\<close>

definition resource_sort_key_most :: "item \<Rightarrow> py_error + int \<times> int" where
  "resource_sort_key_most it =
     (if is_multinode it then Inr (0, 0)
      else case gpu_indices_count it of
        Inl e \<Rightarrow> Inl e
      | Inr k \<Rightarrow>
          if k > 0 then Inr (1, - k)
          else case multi_gpu_count it of
            Inl e \<Rightarrow> Inl e
          | Inr n \<Rightarrow> if n > 0 then Inr (1, - n) else Inr (2, 0))"

definition resource_sort_key_least :: "item \<Rightarrow> py_error + int \<times> int" where
  "resource_sort_key_least it =
     (if is_multinode it then Inr (2, 0)
      else case gpu_indices_count it of
        Inl e \<Rightarrow> Inl e
      | Inr k \<Rightarrow>
          if k > 0 then Inr (1, k)
          else case multi_gpu_count it of
            Inl e \<Rightarrow> Inl e
          | Inr n \<Rightarrow> if n > 0 then Inr (1, n) else Inr (0, 0))"

definition sort_key_of :: "schedule_policy \<Rightarrow> item \<Rightarrow> py_error + int \<times> int" where
  "sort_key_of policy = (case policy of RESOURCE_MOST \<Rightarrow> resource_sort_key_most | RESOURCE_LEAST \<Rightarrow> resource_sort_key_least)"

subsection \<open>xdist groups\<close>

fun the_ints :: "pyval list \<Rightarrow> py_error + int list" where
  "the_ints [] = Inr []"
| "the_ints (PInt i # xs) = map_sum id ((#) i) (the_ints xs)"
| "the_ints (_ # xs) = Inl TypeError"

text \<open>The counters of the pass: \<open>gpu_indices_idx\<close>, \<open>multi_gpu_idx\<close>, \<open>multi_node_idx\<close>.\<close>

record group_counters =
  gc_indices :: nat
  gc_multi_gpu :: nat
  gc_multi_node :: nat

definition pinned_group :: "item \<Rightarrow> pyval \<Rightarrow> nat \<Rightarrow> py_error + string" where
  "pinned_group it arg n =
     (if has_marker ''gpu_count'' it then Inl PytestFail
      else if has_marker ''multi_gpu'' it then Inl PytestFail
      else if is_int_inst arg then Inl PytestFail
      else case py_list arg of
        Inl e \<Rightarrow> Inl e
      | Inr raw \<Rightarrow>
          if raw = [] then Inl PytestFail
          else case the_ints raw of
            Inl e \<Rightarrow> Inl e
          | Inr is \<Rightarrow> Inr (''gpu_indices_'' @ join_with ''_'' (map show_int (sort is)) @ ''_'' @ show_nat n))"

text \<open>The group of one test, if it gets one, and the counters after it.\<close>

definition group_of :: "group_counters \<Rightarrow> item \<Rightarrow> py_error + string option \<times> group_counters" where
  "group_of c it =
     (case marker_arg ''gpu_indices'' it of
        Some arg \<Rightarrow>
          map_sum id (\<lambda>g. (Some g, c\<lparr>gc_indices := Suc (gc_indices c)\<rparr>)) (pinned_group it arg (gc_indices c))
      | None \<Rightarrow>
          if is_multinode it
          then Inr (Some (''multinode_'' @ show_nat (gc_multi_node c)), c\<lparr>gc_multi_node := Suc (gc_multi_node c)\<rparr>)
          else case multi_gpu_count it of
            Inl e \<Rightarrow> Inl e
          | Inr n \<Rightarrow>
              if n > 0
              then Inr (Some (''multi_gpu_'' @ show_int n @ ''_'' @ show_nat (gc_multi_gpu c)),
                        c\<lparr>gc_multi_gpu := Suc (gc_multi_gpu c)\<rparr>)
              else Inr (None, c))"

definition xdist_group :: "string \<Rightarrow> marker" where
  "xdist_group g = \<lparr>mk_name = ''xdist_group'', mk_args = [PStr g]\<rparr>"

definition put_group :: "string option \<Rightarrow> item \<Rightarrow> item" where
  "put_group g it = (case g of None \<Rightarrow> it | Some n \<Rightarrow> add_marker (xdist_group n) it)"

fun assign_groups :: "group_counters \<Rightarrow> item list \<Rightarrow> py_error + string option list" where
  "assign_groups c [] = Inr []"
| "assign_groups c (it # its) =
     (case group_of c it of
        Inl e \<Rightarrow> Inl e
      | Inr (g, c') \<Rightarrow> map_sum id ((#) g) (assign_groups c' its))"

definition assign_xdist_groups :: "item list \<Rightarrow> py_error + item list" where
  "assign_xdist_groups items =
     map_sum id (\<lambda>gs. map2 put_group gs items)
       (assign_groups \<lparr>gc_indices = 0, gc_multi_gpu = 0, gc_multi_node = 0\<rparr> items)"

text \<open>\<open>items.sort(key=...)\<close>: the keys are computed first, the sort is stable.\<close>

definition schedule :: "schedule_policy \<Rightarrow> item list \<Rightarrow> py_error + item list" where
  "schedule policy items =
     (case assign_xdist_groups items of
        Inl e \<Rightarrow> Inl e
      | Inr marked \<Rightarrow>
          (case mapM (sort_key_of policy) marked of
             Inl e \<Rightarrow> Inl e
           | Inr keys \<Rightarrow> Inr (map snd (sort_key fst (zip keys marked)))))"

definition recommended_workers :: "nat option \<Rightarrow> nat" where
  "recommended_workers slots = (case slots of None \<Rightarrow> 1 | Some n \<Rightarrow> n)"

subsection \<open>The plugin\<close>

text \<open>
  \<open>pytest_collection_modifyitems\<close>: without a pool the items stay as they are. The flag says that
  the banner about sequential GPU tests is printed.
\<close>

definition gpu_item_count :: "item list \<Rightarrow> nat" where
  "gpu_item_count items =
     length (filter (\<lambda>it. has_marker ''hw.gpu'' it \<or> has_marker ''hw.multi_gpu'' it) items)"

definition parallel_active :: "string option \<Rightarrow> bool" where
  "parallel_active numprocesses =
     (case numprocesses of None \<Rightarrow> False | Some s \<Rightarrow> s \<notin> {''0'', ''no'', ''''})"

definition modifyitems ::
  "nat option \<Rightarrow> string \<Rightarrow> string option \<Rightarrow> item list \<Rightarrow> py_error + item list \<times> bool" where
  "modifyitems pool policy_value numprocesses items =
     (case pool of
        None \<Rightarrow> Inr (items, False)
      | Some slots \<Rightarrow>
          (case policy_of_value policy_value of
             Inl e \<Rightarrow> Inl e
           | Inr policy \<Rightarrow>
               map_sum id
                 (\<lambda>its. (its, recommended_workers pool > 1 \<and> gpu_item_count its > 0 \<and> \<not> parallel_active numprocesses))
                 (schedule policy items)))"

record test_report =
  tr_when :: string
  tr_nodeid :: string
  tr_duration :: rat
  tr_outcome :: string

record runtime_entry =
  re_nodeid :: string
  re_duration :: rat
  re_outcome :: string

text \<open>\<open>round(x, 3)\<close>: to the nearest thousandth, ties to the even one.\<close>

definition round3 :: "rat \<Rightarrow> rat" where
  "round3 x = of_int (thousandths x) / 1000"

definition logreport :: "test_report \<Rightarrow> runtime_entry list \<Rightarrow> runtime_entry list" where
  "logreport r runtimes =
     (if tr_when r \<noteq> ''call'' then runtimes
      else runtimes @ [\<lparr>re_nodeid = tr_nodeid r, re_duration = round3 (tr_duration r), re_outcome = py_upper (tr_outcome r)\<rparr>])"

text \<open>
  \<open>pytest_sessionfinish\<close>: the first component is what is written to the file (policy, number of
  tests, entries), the second the accumulator afterwards. \<open>writable\<close> is \<open>False\<close> when opening or
  writing raises \<open>OSError\<close>, which is logged.
\<close>

definition sessionfinish ::
  "string option \<Rightarrow> bool \<Rightarrow> string \<Rightarrow> runtime_entry list
     \<Rightarrow> (string \<times> nat \<times> runtime_entry list) option \<times> runtime_entry list" where
  "sessionfinish path writable policy_value runtimes =
     (if path \<in> {None, Some []} \<or> runtimes = [] then (None, [])
      else (if writable then Some (policy_value, length runtimes, runtimes) else None, []))"

subsection \<open>Group names\<close>

text \<open>The names a pass with given counters can still hand out.\<close>

definition fresh_names :: "group_counters \<Rightarrow> string set" where
  "fresh_names c =
     {''gpu_indices_'' @ x @ ''_'' @ show_nat n | x n. gc_indices c \<le> n} \<union>
     {''multinode_'' @ show_nat n | n. gc_multi_node c \<le> n} \<union>
     {''multi_gpu_'' @ show_int m @ ''_'' @ show_nat n | m n. gc_multi_gpu c \<le> n}"

lemma indexed_name_inject:
  "p @ x @ ''_'' @ show_nat n = p' @ x' @ ''_'' @ show_nat n' \<Longrightarrow> n = n'"
  using last_sep_inject [of "CHR ''_''" "show_nat n" "show_nat n'" "p @ x" "p' @ x'"] by simp

lemma fresh_names_mono:
  assumes "gc_indices c \<le> gc_indices c'" "gc_multi_gpu c \<le> gc_multi_gpu c'" "gc_multi_node c \<le> gc_multi_node c'"
  shows "fresh_names c' \<subseteq> fresh_names c"
  unfolding fresh_names_def 
  by (intro Un_mono Collect_mono) (blast intro: assms [THEN le_trans])+

lemma group_of_counters:
  "group_of c it = Inr (g, c') \<Longrightarrow>
     gc_indices c \<le> gc_indices c' \<and> gc_multi_gpu c \<le> gc_multi_gpu c' \<and> gc_multi_node c \<le> gc_multi_node c'"
  by (auto simp: group_of_def split: option.splits sum.splits if_splits)

lemma group_of_fresh:
  assumes "group_of c it = Inr (g, c')"
  shows "fresh_names c' \<subseteq> fresh_names c"
    and "g = Some name \<Longrightarrow> name \<in> fresh_names c \<and> name \<notin> fresh_names c'"
proof -
  show "fresh_names c' \<subseteq> fresh_names c"
    using group_of_counters [OF assms] by (intro fresh_names_mono) auto
  assume g: "g = Some name"
  consider (pin) x where "name = ''gpu_indices_'' @ x @ ''_'' @ show_nat (gc_indices c)" "c' = c\<lparr>gc_indices := Suc (gc_indices c)\<rparr>"
    | (node) "name = ''multinode_'' @ show_nat (gc_multi_node c)" "c' = c\<lparr>gc_multi_node := Suc (gc_multi_node c)\<rparr>"
    | (gpu) m where "name = ''multi_gpu_'' @ show_int m @ ''_'' @ show_nat (gc_multi_gpu c)" "c' = c\<lparr>gc_multi_gpu := Suc (gc_multi_gpu c)\<rparr>"
    using assms g by (auto simp: group_of_def pinned_group_def split: option.splits sum.splits if_splits)
  then show "name \<in> fresh_names c \<and> name \<notin> fresh_names c'"
  proof cases
    case pin
    then show ?thesis by (auto simp: fresh_names_def dest: indexed_name_inject [of "''gpu_indices_''" _ _ "''gpu_indices_''", simplified])
  next
    case node
    then show ?thesis by (auto simp: fresh_names_def)
  next
    case gpu
    then show ?thesis by (auto simp: fresh_names_def dest: indexed_name_inject [of "''multi_gpu_''" _ _ "''multi_gpu_''", simplified])
  qed
qed

lemma assign_groups_fresh:
  "assign_groups c items = Inr gs \<Longrightarrow>
     distinct (concat (map (case_option [] (\<lambda>g. [g])) gs)) \<and>
     set (concat (map (case_option [] (\<lambda>g. [g])) gs)) \<subseteq> fresh_names c"
proof (induction items arbitrary: c gs)
  case (Cons it items)
  obtain g c' where g: "group_of c it = Inr (g, c')"
    using Cons.prems by (auto split: sum.splits)
  then obtain gs' where gs: "assign_groups c' items = Inr gs'" "gs = g # gs'"
    using Cons.prems by (cases "assign_groups c' items") auto
  from Cons.IH [OF gs(1)] group_of_fresh [OF g] gs(2) show ?case by (cases g) auto
qed simp

lemma assign_groups_length: "assign_groups c items = Inr gs \<Longrightarrow> length gs = length items"
proof (induction items arbitrary: c gs)
  case (Cons it items)
  obtain g c' where g: "group_of c it = Inr (g, c')"
    using Cons.prems by (auto split: sum.splits)
  with Cons show ?case by (cases "assign_groups c' items") auto
qed simp

subsection \<open>Scheduling\<close>

lemma marker_arg_add: "name \<noteq> ''xdist_group'' \<Longrightarrow> marker_arg name (put_group g it) = marker_arg name it"
  by (simp add: marker_arg_def put_group_def xdist_group_def split: option.splits)

lemma has_marker_put: "name \<noteq> ''xdist_group'' \<Longrightarrow> has_marker name (put_group g it) = has_marker name it"
  by (simp add: put_group_def xdist_group_def split: option.splits)

text \<open>The group markers do not influence the order.\<close>

lemma classify_put_group [simp]:
  "is_multinode (put_group g it) = is_multinode it"
  "gpu_indices_count (put_group g it) = gpu_indices_count it"
  "multi_gpu_default (put_group g it) = multi_gpu_default it"
  by (simp_all add: is_multinode_def gpu_indices_count_def multi_gpu_default_def marker_arg_add has_marker_put)

lemma multi_gpu_count_put [simp]: "multi_gpu_count (put_group g it) = multi_gpu_count it"
  by (simp add: multi_gpu_count_def marker_arg_add split: option.splits sum.splits gpu_count.splits)

lemma sort_key_put_group: "sort_key_of policy (put_group g it) = sort_key_of policy it"
  by (cases policy) (simp_all add: sort_key_of_def resource_sort_key_most_def resource_sort_key_least_def
      split: sum.splits)

lemma least_reverses_most:
  "resource_sort_key_least it = map_sum id (\<lambda>(t, k). (2 - t, - k)) (resource_sort_key_most it)"
  by (simp add: resource_sort_key_least_def resource_sort_key_most_def split: sum.splits)

lemma mapM_keys: "mapM f xs = Inr ks \<Longrightarrow> p \<in> set (zip ks xs) \<Longrightarrow> f (snd p) = Inr (fst p)"
proof (induction xs arbitrary: ks)
  case (Cons x xs)
  then show ?case by (auto split: sum.splits)
qed simp

text \<open>The order by the keys, and what it keeps.\<close>

lemma schedule_by_key:
  assumes "schedule policy items = Inr result"
  obtains gs where "assign_groups \<lparr>gc_indices = 0, gc_multi_gpu = 0, gc_multi_node = 0\<rparr> items = Inr gs"
    "sorted_wrt (\<lambda>x y. \<exists>k l. sort_key_of policy x = Inr k \<and> sort_key_of policy y = Inr l \<and> k \<le> l) result"
    "mset result = mset (map2 put_group gs items)" "\<forall>x \<in> set result. \<exists>k. sort_key_of policy x = Inr k"
    "\<forall>k. filter (\<lambda>x. sort_key_of policy x = Inr k) result = filter (\<lambda>x. sort_key_of policy x = Inr k) (map2 put_group gs items)"
proof -
  obtain marked keys where m: "assign_xdist_groups items = Inr marked" "mapM (sort_key_of policy) marked = Inr keys"
      "result = map snd (sort_key fst (zip keys marked))"
    using assms by (auto simp: schedule_def split: sum.splits)
  obtain gs where gs: "assign_groups \<lparr>gc_indices = 0, gc_multi_gpu = 0, gc_multi_node = 0\<rparr> items = Inr gs" "marked = map2 put_group gs items"
    using m(1) by (auto simp: assign_xdist_groups_def)
  let ?zs = "zip keys marked"
  have len: "length keys = length marked" using mapM_Inr_length [OF m(2)] by simp
  have key: "sort_key_of policy (snd p) = Inr (fst p)" if "p \<in> set ?zs" for p
    by (rule mapM_keys [OF m(2) that])
  have "mset result = mset (map snd ?zs)" using m(3) by simp
  then have perm: "mset result = mset marked" using len by simp
  have "sorted_wrt (\<lambda>p q. fst p \<le> fst q) (sort_key fst ?zs)"
    using sorted_sort_key [of fst ?zs] by (simp add: sorted_map)
  then have "sorted_wrt (\<lambda>p q. \<exists>k l. sort_key_of policy (snd p) = Inr k \<and> sort_key_of policy (snd q) = Inr l \<and> k \<le> l)
      (sort_key fst ?zs)"
    by (rule sorted_wrt_mono_rel [rotated]) (use key in auto)
  then have "sorted_wrt (\<lambda>x y. \<exists>k l. sort_key_of policy x = Inr k \<and> sort_key_of policy y = Inr l \<and> k \<le> l) result"
    by (simp add: m(3) sorted_wrt_map)
  moreover have "\<exists>k. sort_key_of policy x = Inr k" if "x \<in> set result" for x using that key by (auto simp: m(3))
  moreover have "filter (\<lambda>x. sort_key_of policy x = Inr k) result = filter (\<lambda>x. sort_key_of policy x = Inr k) marked" for k
  proof -
    have same: "filter (\<lambda>p. sort_key_of policy (snd p) = Inr k) zs = filter (\<lambda>p. fst p = k) zs" if "set zs \<subseteq> set ?zs" for zs
      using key that by (intro filter_cong) auto
    have "filter (\<lambda>x. sort_key_of policy x = Inr k) result
        = map snd (filter (\<lambda>p. sort_key_of policy (snd p) = Inr k) (sort_key fst ?zs))"
      by (simp add: m(3) filter_map comp_def)
    also have "\<dots> = map snd (filter (\<lambda>p. fst p = k) (sort_key fst ?zs))" by (subst same) auto
    also have "\<dots> = map snd (filter (\<lambda>p. fst p = k) ?zs)" by (simp add: sort_key_stable)
    also have "\<dots> = map snd (filter (\<lambda>p. sort_key_of policy (snd p) = Inr k) ?zs)" by (subst same) auto
    also have "\<dots> = filter (\<lambda>x. sort_key_of policy x = Inr k) (map snd ?zs)" by (simp add: filter_map comp_def)
    finally show ?thesis using len by simp
  qed
  ultimately show thesis using that gs perm by blast
qed

text \<open>
  What a test asks for, read off its markers: how many GPUs (0 when it runs on a single one), and which of two tests asks
  for more. A test of several nodes asks for more than any other.
\<close>

definition gpus_asked :: "item \<Rightarrow> int" where
  "gpus_asked it =
     (case marker_arg ''gpu_indices'' it of
        Some raw \<Rightarrow> (case py_list raw of Inl e \<Rightarrow> 0 | Inr indices \<Rightarrow> int (length indices))
      | None \<Rightarrow>
          (case marker_arg ''gpu_count'' it of
             Some raw \<Rightarrow> (case parse_gpu_count raw of
                 Inl e \<Rightarrow> 0
               | Inr All \<Rightarrow> 1000000
               | Inr (Count n) \<Rightarrow> if n > 1 then n else if has_marker ''hw.multi_gpu'' it then 2 else 0)
           | None \<Rightarrow> if has_marker ''hw.multi_gpu'' it then 2 else 0))"

definition asks_at_least :: "item \<Rightarrow> item \<Rightarrow> bool" where
  "asks_at_least x y \<longleftrightarrow>
     has_marker ''e2e.multinode'' x \<or> \<not> has_marker ''e2e.multinode'' y \<and> gpus_asked y \<le> gpus_asked x"

lemma gpus_asked_nonneg: "0 \<le> gpus_asked it"
  by (auto simp: gpus_asked_def split: option.splits sum.splits gpu_count.splits)

lemma gpus_asked_put [simp]: "gpus_asked (put_group g it) = gpus_asked it"
  by (simp add: gpus_asked_def marker_arg_add [of "''gpu_indices''"] marker_arg_add [of "''gpu_count''"] has_marker_put
      cong: option.case_cong)

text \<open>A test that has got its group is pinned to at least one GPU, or its count is the one its key uses.\<close>

lemma grouped_counts:
  assumes "group_of c it = Inr x"
  shows "marker_arg ''gpu_indices'' it = Some raw \<Longrightarrow> gpu_indices_count it = Inr (gpus_asked it) \<and> 0 < gpus_asked it"
    and "marker_arg ''gpu_indices'' it = None \<Longrightarrow> multi_gpu_count it = Inr n \<Longrightarrow> gpu_indices_count it = Inr 0 \<and> n = gpus_asked it"
  using assms
  by (auto simp: group_of_def pinned_group_def gpu_indices_count_def gpus_asked_def multi_gpu_count_def multi_gpu_default_def all_sort_weight_def
      split: sum.splits if_splits option.splits gpu_count.splits)

lemma grouped_key:
  assumes "group_of c it = Inr x" "sort_key_of policy it = Inr k"
  shows "k = (case policy of
      RESOURCE_MOST \<Rightarrow> if has_marker ''e2e.multinode'' it then (0, 0) else if 0 < gpus_asked it then (1, - gpus_asked it) else (2, 0)
    | RESOURCE_LEAST \<Rightarrow> if has_marker ''e2e.multinode'' it then (2, 0) else if 0 < gpus_asked it then (1, gpus_asked it) else (0, 0))"
proof (cases "marker_arg ''gpu_indices'' it")
  case (Some raw)
  then show ?thesis using grouped_counts(1) [OF assms(1)] assms(2)
    by (auto simp: sort_key_of_def resource_sort_key_most_def resource_sort_key_least_def is_multinode_def split: schedule_policy.splits if_splits)
next
  case None
  show ?thesis
  proof (cases "is_multinode it")
    case True
    then show ?thesis using assms(2)
      by (auto simp: sort_key_of_def resource_sort_key_most_def resource_sort_key_least_def is_multinode_def split: schedule_policy.splits)
  next
    case False
    have zero: "gpu_indices_count it = Inr 0" using None by (simp add: gpu_indices_count_def)
    then obtain n where n: "multi_gpu_count it = Inr n"
      using assms(2) False by (auto simp: sort_key_of_def resource_sort_key_most_def resource_sort_key_least_def split: schedule_policy.splits sum.splits)
    then show ?thesis using grouped_counts(2) [OF assms(1) None n] zero False assms(2)
      by (auto simp: sort_key_of_def resource_sort_key_most_def resource_sort_key_least_def is_multinode_def split: schedule_policy.splits)
  qed
qed

lemma grouped_order:
  assumes "group_of c x = Inr u" "group_of d y = Inr v" "sort_key_of policy x = Inr k" "sort_key_of policy y = Inr l"
  shows "k \<le> l \<longleftrightarrow> (case policy of RESOURCE_MOST \<Rightarrow> asks_at_least x y | RESOURCE_LEAST \<Rightarrow> asks_at_least y x)"
  unfolding grouped_key [OF assms(1,3)] grouped_key [OF assms(2,4)]
  using gpus_asked_nonneg [of x] gpus_asked_nonneg [of y]
  by (auto simp: asks_at_least_def less_eq_prod_def split: schedule_policy.split)

lemma assign_groups_grouped:
  "assign_groups c items = Inr gs \<Longrightarrow> it \<in> set items \<Longrightarrow> \<exists>d x. group_of d it = Inr x"
proof (induction items arbitrary: c gs)
  case (Cons i items)
  obtain g c' where g: "group_of c i = Inr (g, c')" using Cons.prems by (auto split: sum.splits)
  then obtain gs' where "assign_groups c' items = Inr gs'" using Cons.prems by (cases "assign_groups c' items") auto
  with Cons.IH Cons.prems(2) g show ?case by auto
qed simp

lemma assign_groups_needs:
  "assign_groups c items = Inr gs \<Longrightarrow> i < length items \<Longrightarrow>
     gs ! i = None \<longleftrightarrow>
       marker_arg ''gpu_indices'' (items ! i) = None \<and> \<not> is_multinode (items ! i) \<and>
       (\<exists>n \<le> 0. multi_gpu_count (items ! i) = Inr n)"
proof (induction items arbitrary: c gs i)
  case (Cons it items)
  obtain g c' where g: "group_of c it = Inr (g, c')"
    using Cons.prems by (auto split: sum.splits)
  then obtain gs' where gs: "assign_groups c' items = Inr gs'" "gs = g # gs'"
    using Cons.prems by auto
  show ?case
  proof (cases i)
    case 0
    with g gs show ?thesis by (auto simp: group_of_def split: option.splits sum.splits if_splits)
  next
    case (Suc j)
    with Cons.IH [OF gs(1)] Cons.prems(2) gs(2) show ?thesis by simp
  qed
qed simp

lemma assign_groups_asked:
  assumes gs: "assign_groups c items = Inr gs" and i: "i < length items"
  shows "gs ! i = None \<longleftrightarrow> \<not> has_marker ''e2e.multinode'' (items ! i) \<and> gpus_asked (items ! i) = 0"
proof -
  obtain d x where x: "group_of d (items ! i) = Inr x" using assign_groups_grouped [OF gs, of "items ! i"] i by auto
  show ?thesis
  proof (cases "marker_arg ''gpu_indices'' (items ! i)")
    case None
    then have "\<not> is_multinode (items ! i) \<Longrightarrow> \<exists>n. multi_gpu_count (items ! i) = Inr n"
      using x by (auto simp: group_of_def split: sum.splits)
    with None show ?thesis using assign_groups_needs [OF gs i] grouped_counts(2) [OF x None] gpus_asked_nonneg [of "items ! i"]
      by (auto simp: is_multinode_def)
  next
    case (Some raw)
    then show ?thesis using assign_groups_needs [OF gs i] grouped_counts(1) [OF x Some] by auto
  qed
qed

lemma put_group_asks: "asks_at_least (put_group g x) y = asks_at_least x y" "asks_at_least x (put_group g y) = asks_at_least x y"
  by (simp_all add: asks_at_least_def has_marker_put)

text \<open>
  C26. \<open>schedule\<close> orders the session by what the tests ask for: under \<open>resource-most\<close> the tests of several nodes come
  first, then the others by the number of GPUs they ask for (pinned indices, or a count, \<open>all\<close> weighing a million, or
  2 for \<open>hw.multi_gpu\<close>), the most first, and the tests of a single GPU last; under \<open>resource-least\<close> the other way round. Tests that ask for the
  same stay in collection order. No test is lost, duplicated or changed except for one added group marker: exactly the tests that
  ask for several nodes or for GPUs of their own get one, and no two tests get the same group.
\<close>

theorem schedule_sorts:
  assumes "schedule policy items = Inr result"
  shows "\<exists>gs. length gs = length items \<and> mset result = mset (map2 put_group gs items) \<and>
    sorted_wrt (\<lambda>x y. case policy of RESOURCE_MOST \<Rightarrow> asks_at_least x y | RESOURCE_LEAST \<Rightarrow> asks_at_least y x) result \<and>
    (\<forall>r \<in> set items. filter (\<lambda>x. asks_at_least x r \<and> asks_at_least r x) result
        = filter (\<lambda>x. asks_at_least x r \<and> asks_at_least r x) (map2 put_group gs items)) \<and>
    distinct (concat (map (case_option [] (\<lambda>g. [g])) gs)) \<and>
    (\<forall>i < length items. gs ! i = None \<longleftrightarrow> \<not> has_marker ''e2e.multinode'' (items ! i) \<and> gpus_asked (items ! i) = 0)"
proof -
  obtain gs where gs: "assign_groups \<lparr>gc_indices = 0, gc_multi_gpu = 0, gc_multi_node = 0\<rparr> items = Inr gs"
    and sorted: "sorted_wrt (\<lambda>x y. \<exists>k l. sort_key_of policy x = Inr k \<and> sort_key_of policy y = Inr l \<and> k \<le> l) result"
    and perm: "mset result = mset (map2 put_group gs items)" and keys: "\<forall>x \<in> set result. \<exists>k. sort_key_of policy x = Inr k"
    and stable: "\<forall>k. filter (\<lambda>x. sort_key_of policy x = Inr k) result = filter (\<lambda>x. sort_key_of policy x = Inr k) (map2 put_group gs items)"
    by (rule schedule_by_key [OF assms])
  let ?marked = "map2 put_group gs items"
  let ?le = "\<lambda>x y. case policy of RESOURCE_MOST \<Rightarrow> asks_at_least x y | RESOURCE_LEAST \<Rightarrow> asks_at_least y x"
  have len: "length gs = length items" using gs by (rule assign_groups_length)
  have same: "set result = set ?marked" using perm by (rule mset_eq_setD)
  have order: "k \<le> l \<longleftrightarrow> ?le x y"
    if xy: "x \<in> set ?marked" "y \<in> set ?marked" and kl: "sort_key_of policy x = Inr k" "sort_key_of policy y = Inr l" for x y k l
  proof -
    obtain g i h j where i: "x = put_group g i" "i \<in> set items" and j: "y = put_group h j" "j \<in> set items"
    proof -
      have "\<exists>g i. z = put_group g i \<and> i \<in> set items" if "z \<in> set ?marked" for z
        using that by (fastforce dest: set_zip_rightD)
      then show thesis using xy that by blast
    qed
    obtain c u d v where "group_of c i = Inr u" "group_of d j = Inr v"
      using assign_groups_grouped [OF gs] i(2) j(2) by blast
    from grouped_order [OF this, of policy k l] kl show ?thesis
      by (simp add: i(1) j(1) sort_key_put_group put_group_asks split: schedule_policy.splits)
  qed
  have "sorted_wrt ?le result"
    using sorted by (rule sorted_wrt_mono_rel [rotated]) (use order same in blast)
  moreover have "filter (\<lambda>x. asks_at_least x r \<and> asks_at_least r x) result = filter (\<lambda>x. asks_at_least x r \<and> asks_at_least r x) ?marked"
    if r: "r \<in> set items" for r
  proof -
    obtain i where i: "i < length items" "r = items ! i" using r by (auto simp: in_set_conv_nth)
    then have m: "put_group (gs ! i) r \<in> set ?marked"
      using len nth_mem [of i ?marked] by simp
    then obtain k where k: "sort_key_of policy (put_group (gs ! i) r) = Inr k" using keys same by blast
    have "(asks_at_least x r \<and> asks_at_least r x) = (sort_key_of policy x = Inr k)" if x: "x \<in> set ?marked" for x
    proof -
      obtain l where l: "sort_key_of policy x = Inr l" using keys same x by blast
      have "(asks_at_least x r \<and> asks_at_least r x) = (k \<le> l \<and> l \<le> k)"
        using order [OF m x k l] order [OF x m l k] by (auto simp: put_group_asks split: schedule_policy.splits)
      then show ?thesis using l by auto
    qed
    note alike = this
    have "filter (\<lambda>x. asks_at_least x r \<and> asks_at_least r x) xs = filter (\<lambda>x. sort_key_of policy x = Inr k) xs" if "set xs \<subseteq> set ?marked" for xs
      by (rule filter_cong [OF refl], rule alike) (use that in blast)
    then show ?thesis using stable [rule_format, of k] same by simp
  qed
  ultimately show ?thesis
    using len perm assign_groups_fresh [OF gs] assign_groups_asked [OF gs] by blast
qed

text \<open>A session of three tests, as the collection might deliver them.\<close>

definition demo_item :: "string \<Rightarrow> marker list \<Rightarrow> item" where
  "demo_item n ms = \<lparr>it_nodeid = n, it_path = n, it_own = ms, it_inherited = []\<rparr>"

definition demo_items :: "item list" where
  "demo_items =
     [demo_item ''single'' [\<lparr>mk_name = ''hw.gpu'', mk_args = []\<rparr>],
      demo_item ''two'' [\<lparr>mk_name = ''hw.multi_gpu'', mk_args = []\<rparr>],
      demo_item ''pinned'' [\<lparr>mk_name = ''gpu_indices'', mk_args = [PList [PInt 2, PInt 0, PInt 1]]\<rparr>]]"

theorem schedule_sorts_witness:
  "\<exists>result. schedule RESOURCE_MOST demo_items = Inr result \<and>
     map it_nodeid result = [''pinned'', ''two'', ''single''] \<and> sorted_wrt asks_at_least result"
proof -
  have "case schedule RESOURCE_MOST demo_items of
      Inl e \<Rightarrow> False | Inr r \<Rightarrow> map it_nodeid r = [''pinned'', ''two'', ''single'']" by code_simp
  then obtain r where r: "schedule RESOURCE_MOST demo_items = Inr r" "map it_nodeid r = [''pinned'', ''two'', ''single'']"
    by (cases "schedule RESOURCE_MOST demo_items") auto
  from schedule_sorts [OF r(1)] have "sorted_wrt asks_at_least r" unfolding schedule_policy.case by (elim exE conjE)
  with r show ?thesis by (intro exI conjI)
qed

text \<open>
  Every test that pins GPUs or needs several GPUs or nodes gets a group of its own: the group names of a
  session are pairwise different (so xdist may run these tests on different workers), and exactly the
  tests without such a need get none.
\<close>

theorem xdist_groups_distinct:
  assumes "assign_xdist_groups items = Inr marked"
  shows "\<exists>gs. marked = map2 put_group gs items \<and> length gs = length items \<and>
    distinct (concat (map (case_option [] (\<lambda>g. [g])) gs)) \<and>
    (\<forall>i < length items. gs ! i = None \<longleftrightarrow>
       marker_arg ''gpu_indices'' (items ! i) = None \<and> \<not> is_multinode (items ! i) \<and>
       (\<exists>n \<le> 0. multi_gpu_count (items ! i) = Inr n))"
proof -
  obtain gs where gs: "assign_groups \<lparr>gc_indices = 0, gc_multi_gpu = 0, gc_multi_node = 0\<rparr> items = Inr gs"
      "marked = map2 put_group gs items"
    using assms by (auto simp: assign_xdist_groups_def)
  with assign_groups_length [OF gs(1)] assign_groups_fresh [OF gs(1)] assign_groups_needs [OF gs(1)]
  show ?thesis by blast
qed

theorem xdist_groups_distinct_witness:
  "\<exists>gs marked. assign_xdist_groups demo_items = Inr marked \<and> marked = map2 put_group gs demo_items \<and>
     length gs = length demo_items \<and> distinct (concat (map (case_option [] (\<lambda>g. [g])) gs)) \<and> gs ! 0 = None"
proof -
  have "case assign_xdist_groups demo_items of Inr x \<Rightarrow> True | _ \<Rightarrow> False" by code_simp
  then obtain marked where m: "assign_xdist_groups demo_items = Inr marked" by (auto split: sum.splits)
  have first: "marker_arg ''gpu_indices'' (demo_items ! 0) = None" "\<not> is_multinode (demo_items ! 0)"
    "multi_gpu_count (demo_items ! 0) = Inr 0" "0 < length demo_items" by code_simp+
  from xdist_groups_distinct [OF m] m first show ?thesis by auto
qed

text \<open>
  The two policies are mirror images: the tier and the count of one key are those of the other, reversed, and
  both fail on the same items.
\<close>

theorem policies_mirror:
  "resource_sort_key_least it = map_sum id (\<lambda>(t, k). (2 - t, - k)) (resource_sort_key_most it)"
  by (rule least_reverses_most)

text \<open>
  The check that \<open>gpu_indices\<close> and \<open>hw.multi_gpu\<close> exclude each other looks for a marker called
  \<open>multi_gpu\<close>, which the dotted marker \<open>hw.multi_gpu\<close> is not: a test that pins a non-empty list of
  indices and carries \<open>hw.multi_gpu\<close> is accepted like any other.
\<close>

theorem multi_gpu_guard_is_dead:
  assumes "marker_arg ''gpu_indices'' it = Some (PList (map PInt (i # js)))" and "has_marker ''hw.multi_gpu'' it"
    and "\<not> has_marker ''gpu_count'' it" and "\<not> has_marker ''multi_gpu'' it"
  shows "\<exists>g c'. group_of c it = Inr (Some g, c')"
proof -
  have ints: "the_ints (map PInt xs) = Inr xs" for xs by (induction xs) auto
  from ints [of "i # js"] assms show ?thesis by (simp add: group_of_def pinned_group_def)
qed

theorem multi_gpu_guard_is_dead_witness:
  "\<exists>g c'. group_of \<lparr>gc_indices = 0, gc_multi_gpu = 0, gc_multi_node = 0\<rparr>
     (demo_item ''t'' [\<lparr>mk_name = ''gpu_indices'', mk_args = [PList [PInt 0, PInt 1]]\<rparr>,
                     \<lparr>mk_name = ''hw.multi_gpu'', mk_args = []\<rparr>]) = Inr (Some g, c')"
  by (rule multi_gpu_guard_is_dead [where i = 0 and js = "[1]"]) code_simp+

text \<open>
  At the end of a session the run times of exactly the call phases are written, in the order of
  the reports, and the accumulator is empty again, whether or not the file can be written.
\<close>

theorem runtimes_flushed:
  "sessionfinish (Some (c # path)) True policy (fold logreport reports []) =
     (let calls = filter (\<lambda>r. tr_when r = ''call'') reports
      in (if calls = [] then None
          else Some (policy, length calls,
                 map (\<lambda>r. \<lparr>re_nodeid = tr_nodeid r, re_duration = round3 (tr_duration r),
                            re_outcome = py_upper (tr_outcome r)\<rparr>) calls), [])) \<and>
   snd (sessionfinish p writable policy (fold logreport reports [])) = []"
proof -
  let ?entry = "\<lambda>r. \<lparr>re_nodeid = tr_nodeid r, re_duration = round3 (tr_duration r), re_outcome = py_upper (tr_outcome r)\<rparr>"
  have fold: "fold logreport rs acc = acc @ map ?entry (filter (\<lambda>r. tr_when r = ''call'') rs)" for rs acc
    by (induction rs arbitrary: acc) (auto simp: logreport_def)
  show ?thesis unfolding fold [of reports "[]"] by (simp add: sessionfinish_def Let_def)
qed

end
