(* ===== verification/Taxonomy.thy ===== *)
theory Taxonomy
  imports PyStr
begin

text \<open>
  The marker schema and the category profiles of \<open>framework/markers/taxonomy.py\<close>, as data: a dictionary
  is an association list in the order of the source, a set a list without repetition.
\<close>

definition marker_schema :: "(string \<times> string list) list" where
  "marker_schema =
     [(''hw'', [''cpu_only'', ''gpu'', ''multi_gpu'']),
      (''ci'', [''nightly'', ''pr'', ''weekly'']),
      (''layer'', [''driver'', ''math_lib'', ''runtime'']),
      (''runtime'', [''fast'', ''medium'', ''soak'']),
      (''os'', [''linux'']),
      (''e2e'', [''multinode'', ''stack''])]"

definition required_dimensions :: "string list" where
  "required_dimensions = [''hw'', ''ci'', ''layer'']"

definition allure_dimension_map :: "(string \<times> string) list" where
  "allure_dimension_map =
     [(''hw'', ''severity''),
      (''ci'', ''feature''),
      (''layer'', ''story''),
      (''e2e'', ''epic''),
      (''os'', ''tag''),
      (''runtime'', ''tag'')]"

definition hw_severity_map :: "(string \<times> string) list" where
  "hw_severity_map = [(''gpu'', ''critical''), (''multi_gpu'', ''critical''), (''cpu_only'', ''minor'')]"

definition category_profiles :: "(string \<times> string list) list" where
  "category_profiles =
     [(''tests/e2e/compiler'',
        [''hw.gpu'', ''layer.runtime'', ''ci.nightly'', ''e2e.stack'', ''os.linux'']),
      (''tests/e2e/hwq_heuristic'',
        [''hw.gpu'', ''layer.runtime'', ''ci.nightly'', ''e2e.stack'', ''os.linux'']),
      (''tests/e2e/hipblaslt'',
        [''hw.gpu'', ''layer.math_lib'', ''ci.nightly'', ''e2e.stack'', ''os.linux'']),
      (''tests/e2e/hip_runtime'',
        [''hw.gpu'', ''layer.runtime'', ''ci.nightly'', ''e2e.stack'', ''os.linux'']),
      (''tests/e2e/kfd'',
        [''hw.gpu'', ''layer.driver'', ''ci.nightly'', ''e2e.stack'', ''os.linux'']),
      (''tests/e2e/rccl'',
        [''hw.multi_gpu'', ''layer.math_lib'', ''ci.nightly'', ''e2e.stack'', ''os.linux'']),
      (''tests/e2e/rocm_libs'',
        [''hw.gpu'', ''layer.math_lib'', ''ci.nightly'', ''e2e.stack'', ''os.linux'']),
      (''tests/e2e/hpc/quda'',
        [''hw.multi_gpu'', ''layer.math_lib'', ''ci.nightly'', ''e2e.stack'', ''os.linux'']),
      (''tests/e2e/hpc/kokkos'',
        [''hw.gpu'', ''layer.runtime'', ''ci.weekly'', ''e2e.stack'', ''os.linux'']),
      (''tests/e2e/hpc/rochpl'',
        [''hw.multi_gpu'', ''layer.math_lib'', ''ci.weekly'', ''e2e.stack'', ''os.linux'']),
      (''tests/e2e/rocprim'',
        [''hw.gpu'', ''layer.math_lib'', ''ci.nightly'', ''e2e.stack'', ''os.linux'']),
      (''tests/e2e/rocsolver'',
        [''hw.gpu'', ''layer.math_lib'', ''ci.nightly'', ''e2e.stack'', ''os.linux'']),
      (''tests/e2e/rocwmma'',
        [''hw.gpu'', ''layer.math_lib'', ''ci.nightly'', ''e2e.stack'', ''os.linux'']),
      (''tests/e2e/recovery/criu'',
        [''hw.gpu'', ''layer.runtime'', ''ci.weekly'', ''e2e.stack'', ''os.linux'']),
      (''tests/e2e/ml_frameworks/torchvision'',
        [''hw.multi_gpu'', ''layer.math_lib'', ''ci.weekly'', ''e2e.stack'', ''os.linux'']),
      (''tests/e2e/miopen'',
        [''hw.gpu'', ''layer.math_lib'', ''ci.nightly'', ''e2e.stack'', ''os.linux'']),
      (''tests/e2e/rocm_examples'',
        [''hw.gpu'', ''layer.runtime'', ''ci.nightly'', ''e2e.stack'', ''os.linux'']),
      (''tests/e2e/system_tools/amd_smi'',
        [''hw.gpu'', ''layer.runtime'', ''ci.nightly'', ''e2e.stack'', ''os.linux'']),
      (''tests/e2e/system_tools/amd_smi/events'',
        [''hw.gpu'', ''layer.runtime'', ''ci.weekly'', ''e2e.stack'', ''os.linux'']),
      (''tests/e2e/hip_directed'',
        [''hw.gpu'', ''layer.runtime'', ''ci.nightly'', ''e2e.stack'', ''os.linux'']),
      (''tests/e2e/ml_frameworks/apex'',
        [''hw.multi_gpu'', ''layer.math_lib'', ''ci.weekly'', ''e2e.stack'', ''os.linux'']),
      (''tests/e2e/hpc/ucx'',
        [''hw.gpu'', ''layer.math_lib'', ''ci.nightly'', ''e2e.stack'', ''os.linux'']),
      (''tests/e2e/system_tools/cmake_path_verifier'',
        [''hw.cpu_only'', ''layer.runtime'', ''ci.nightly'', ''e2e.stack'', ''os.linux'']),
      (''tests/e2e/ck'',
        [''hw.gpu'', ''layer.math_lib'', ''ci.nightly'', ''e2e.stack'', ''os.linux'']),
      (''tests/e2e/system_tools/rocm_agent_enumerator'',
        [''hw.gpu'', ''layer.runtime'', ''ci.nightly'', ''e2e.stack'', ''os.linux'']),
      (''tests/e2e/system_tools/rvs'',
        [''hw.multi_gpu'', ''layer.runtime'', ''ci.nightly'', ''e2e.stack'', ''os.linux'']),
      (''tests/e2e/system_tools'',
        [''hw.gpu'', ''layer.runtime'', ''ci.nightly'', ''e2e.stack'', ''os.linux'']),
      (''tests/e2e/ucc'',
        [''hw.multi_gpu'', ''layer.math_lib'', ''ci.nightly'', ''e2e.stack'', ''os.linux'']),
      (''tests/e2e/gpu_monitored'',
        [''hw.multi_gpu'', ''layer.runtime'', ''ci.nightly'', ''e2e.stack'', ''os.linux''])]"

subsection \<open>Dimensions\<close>

text \<open>\<open>marker.split(".", 1)\<close> when it has two parts: dimension and value.\<close>

definition dim_val :: "string \<Rightarrow> (string \<times> string) option" where
  "dim_val m = (case split1 CHR ''.'' m of (d, Some v) \<Rightarrow> Some (d, v) | (_, None) \<Rightarrow> None)"

definition dims_of :: "string list \<Rightarrow> string set" where
  "dims_of ms = {d. \<exists>m \<in> set ms. \<exists>v. dim_val m = Some (d, v)}"

definition valid_marker :: "string \<Rightarrow> bool" where
  "valid_marker m =
     (case dim_val m of
        None \<Rightarrow> True
      | Some (d, v) \<Rightarrow> (case map_of marker_schema d of None \<Rightarrow> False | Some vs \<Rightarrow> v \<in> set vs))"

definition covers :: "string list \<Rightarrow> string \<Rightarrow> bool" where
  "covers ms d \<longleftrightarrow> (\<exists>m \<in> set ms. case dim_val m of None \<Rightarrow> False | Some (e, _) \<Rightarrow> e = d)"

lemma covers_dims: "covers ms d \<longleftrightarrow> d \<in> dims_of ms"
proof -
  have "(case dim_val m of None \<Rightarrow> False | Some (e, _) \<Rightarrow> e = d) \<longleftrightarrow> (\<exists>v. dim_val m = Some (d, v))" for m
    by (auto split: option.splits)
  then show ?thesis by (simp add: covers_def dims_of_def)
qed

lemma dims_of_append [simp]: "dims_of (xs @ ys) = dims_of xs \<union> dims_of ys"
  by (auto simp: dims_of_def)

text \<open>
  The longest prefix of a path that is a key of the profiles, by the loop of the source; the
  empty string when there is none.
\<close>

fun longest_prefix :: "string \<Rightarrow> string \<Rightarrow> string list \<Rightarrow> string" where
  "longest_prefix path match [] = match"
| "longest_prefix path match (p # ps) =
     longest_prefix path (if startswith path p \<and> length p > length match then p else match) ps"

definition profile_for :: "string \<Rightarrow> string list" where
  "profile_for path =
     (case map_of category_profiles (longest_prefix path [] (map fst category_profiles)) of
        None \<Rightarrow> [] | Some ms \<Rightarrow> ms)"

lemma longest_prefix_in: "longest_prefix path m ps \<in> insert m (set ps)"
  by (induction ps arbitrary: m) (auto split: if_splits)

lemma longest_prefix_prefix: "startswith path m \<Longrightarrow> startswith path (longest_prefix path m ps)"
  by (induction ps arbitrary: m) auto

lemma longest_prefix_ge: "length m \<le> length (longest_prefix path m ps)"
proof (induction ps arbitrary: m)
  case (Cons p ps)
  show ?case
    using Cons.IH [of "if startswith path p \<and> length m < length p then p else m"] by (auto split: if_splits)
qed simp

lemma longest_prefix_longest:
  "p \<in> set ps \<Longrightarrow> startswith path p \<Longrightarrow> length p \<le> length (longest_prefix path m ps)"
proof (induction ps arbitrary: m)
  case (Cons q ps)
  show ?case
  proof (cases "p = q")
    case True
    with Cons.prems longest_prefix_ge [of "if startswith path q \<and> length m < length q then q else m" path ps]
    show ?thesis by (auto split: if_splits)
  next
    case False
    with Cons show ?thesis by auto
  qed
qed simp

text \<open>
  Every category profile covers the three required dimensions and uses values of the schema only, so a
  test under a profiled directory passes the linter without a marker of its own.
\<close>

theorem profiles_complete:
  "list_all (\<lambda>(_, ms). list_all (covers ms) required_dimensions \<and> list_all valid_marker ms) category_profiles \<and>
   distinct (map fst category_profiles)"
  by code_simp

text \<open>
  The profile of a path is the one with the longest matching prefix: the key found is a prefix of
  the path, no longer key is, and the most specific directory wins where two keys match.
\<close>

theorem profile_for_longest:
  assumes "p \<in> set (map fst category_profiles)" and "startswith path p"
  shows "\<exists>q ms. (q, ms) \<in> set category_profiles \<and> startswith path q \<and> profile_for path = ms \<and>
    (\<forall>r \<in> set (map fst category_profiles). startswith path r \<longrightarrow> length r \<le> length q)"
proof -
  let ?ps = "map fst category_profiles" let ?q = "longest_prefix path [] ?ps"
  have "p \<noteq> []" using assms(1) by (auto simp: category_profiles_def)
  with longest_prefix_longest [OF assms, of "[]"] have "?q \<noteq> []" by auto
  then have "?q \<in> set ?ps" using longest_prefix_in [of path "[]" ?ps] by auto
  then obtain ms where ms: "map_of category_profiles ?q = Some ms"
    by (metis map_of_eq_None_iff not_Some_eq set_map)
  have "startswith path ?q" by (rule longest_prefix_prefix) simp
  moreover have "\<forall>r \<in> set ?ps. startswith path r \<longrightarrow> length r \<le> length ?q"
    using longest_prefix_longest [of _ ?ps path "[]"] by blast
  ultimately show ?thesis using ms map_of_SomeD [OF ms] by (auto simp: profile_for_def)
qed

theorem profile_for_longest_witness:
  "\<exists>q ms. (q, ms) \<in> set category_profiles \<and>
     startswith ''tests/e2e/system_tools/amd_smi/events/test_reset.py'' q \<and>
     profile_for ''tests/e2e/system_tools/amd_smi/events/test_reset.py'' = ms \<and> ms ! 2 = ''ci.weekly''"
proof -
  have "''tests/e2e/system_tools'' \<in> set (map fst category_profiles)" by code_simp
  moreover have "startswith ''tests/e2e/system_tools/amd_smi/events/test_reset.py'' ''tests/e2e/system_tools''" by code_simp
  moreover have "profile_for ''tests/e2e/system_tools/amd_smi/events/test_reset.py'' ! 2 = ''ci.weekly''" by code_simp
  ultimately show ?thesis
    using profile_for_longest [of "''tests/e2e/system_tools''" "''tests/e2e/system_tools/amd_smi/events/test_reset.py''"]
    by blast
qed

end
