(* ===== verification/Markers.thy ===== *)
theory Markers
  imports Taxonomy GpuCount
begin

text \<open>
  The two users of the taxonomy: \<open>framework/plugins/markers_plugin.py\<close>, which injects profile
  markers into the collected items, and \<open>framework/markers/linter.py\<close>, which checks the markers of a
  test file statically. A Python module is given by its statements; \<open>ast.parse\<close> is the language's own
  parser and its result is the input of the model (\<open>None\<close> for a \<open>SyntaxError\<close>). Of the statements only
  function definitions, assignments and the nesting matter, of the expressions names, attributes, calls and
  lists. A path is given relative to the working directory (\<open>None\<close> when it lies outside).
\<close>

subsection \<open>Injection at collection time\<close>

definition matching_profile :: "string option \<Rightarrow> string list" where
  "matching_profile rel = (case rel of None \<Rightarrow> [] | Some r \<Rightarrow> profile_for r)"

text \<open>\<open>{m.name.split(".", 1)[0] for m in item.iter_markers() if m.name and "." in m.name}\<close>\<close>

definition covered_dims :: "item \<Rightarrow> string list" where
  "covered_dims it =
     map (\<lambda>m. fst (split1 CHR ''.'' (mk_name m))) (filter (\<lambda>m. CHR ''.'' \<in> set (mk_name m)) (iter_markers it))"

definition inject_profile :: "string list \<Rightarrow> item \<Rightarrow> item" where
  "inject_profile profile it =
     (let covered = covered_dims it
      in fold (\<lambda>m it. if fst (split1 CHR ''.'' m) \<in> set covered then it
                      else add_marker \<lparr>mk_name = m, mk_args = []\<rparr> it) profile it)"

definition apply_profiles :: "(item \<Rightarrow> string option) \<Rightarrow> item list \<Rightarrow> item list" where
  "apply_profiles rel items = map (\<lambda>it. inject_profile (matching_profile (rel it)) it) items"

subsection \<open>The linter\<close>

datatype expr =
    Name string
  | Attribute expr string
  | Call expr
  | ListExpr "expr list"
  | OtherExpr

datatype stmt =
    FunctionDef (fd_name: string) (fd_line: nat) (fd_decorators: "expr list") (fd_body: "stmt list")
  | Assign "expr list" expr
  | Block "stmt list"
  | OtherStmt

text \<open>\<open>Block\<close> is any other statement with nested statements, an asynchronous function among them.\<close>

fun children :: "stmt \<Rightarrow> stmt list" where
  "children (FunctionDef _ _ _ b) = b"
| "children (Block b) = b"
| "children _ = []"

text \<open>\<open>ast.walk\<close>: breadth first.\<close>

function walk :: "stmt list \<Rightarrow> stmt list" where
  "walk [] = []"
| "walk (n # todo) = n # walk (todo @ children n)"
  by pat_completeness auto
termination
proof (relation "measure (\<lambda>todo. sum_list (map (\<lambda>n. Suc (size n)) todo))", goal_cases)
  case (2 n todo)
  have list: "sum_list (map (\<lambda>n. Suc (size n)) b) = size_list size b" for b :: "stmt list"
    by (induction b) auto
  have "sum_list (map (\<lambda>n. Suc (size n)) (children n)) < Suc (size n)"
    by (cases n) (simp_all add: list)
  then show ?case by simp
qed simp

fun dotted_name :: "expr \<Rightarrow> string option" where
  "dotted_name (Attribute e a) =
     (case dotted_name e of None \<Rightarrow> Some a | Some p \<Rightarrow> if p = [] then Some a else Some (p @ ''.'' @ a))"
| "dotted_name (Name n) = Some n"
| "dotted_name (Call e) = dotted_name e"
| "dotted_name _ = None"

definition mark_prefix :: string where
  "mark_prefix = ''pytest.mark.''"

text \<open>The marker names among a list of expressions.\<close>

fun marks_of :: "expr list \<Rightarrow> string list" where
  "marks_of [] = []"
| "marks_of (e # es) =
     (case dotted_name e of
        Some n \<Rightarrow> if n \<noteq> [] \<and> startswith n mark_prefix then drop (length mark_prefix) n # marks_of es else marks_of es
      | None \<Rightarrow> marks_of es)"

definition extract_markers :: "stmt \<Rightarrow> string list" where
  "extract_markers f = marks_of (fd_decorators f)"

text \<open>For every target \<open>pytestmark\<close> of an assignment, its list elements or its single attribute.\<close>

definition assign_marks :: "stmt \<Rightarrow> string list" where
  "assign_marks s =
     (case s of
        Assign targets v \<Rightarrow>
          concat (map (\<lambda>t. if t = Name ''pytestmark''
                           then marks_of (case v of ListExpr es \<Rightarrow> es | Attribute _ _ \<Rightarrow> [v] | _ \<Rightarrow> []) else []) targets)
      | _ \<Rightarrow> [])"

definition module_pytestmark :: "stmt list \<Rightarrow> string list" where
  "module_pytestmark m = concat (map assign_marks (walk m))"

datatype violation_message =
    SyntaxErr
  | MissingDimension string
  | UnknownDimension string
  | InvalidMarker string string

record marker_violation =
  mv_file :: string
  mv_function :: string
  mv_line :: nat
  mv_message :: violation_message

text \<open>The dimension map, in the order of the markers.\<close>

fun dim_values :: "string list \<Rightarrow> (string \<times> string list) list \<Rightarrow> (string \<times> string list) list" where
  "dim_values [] acc = acc"
| "dim_values (m # ms) acc =
     (case dim_val m of
        None \<Rightarrow> dim_values ms acc
      | Some (d, v) \<Rightarrow>
          dim_values ms (AList.update d ((case map_of acc d of None \<Rightarrow> [] | Some vs \<Rightarrow> vs) @ [v]) acc))"

definition check_messages :: "string list \<Rightarrow> violation_message list" where
  "check_messages markers =
     (let dv = dim_values markers []
      in map MissingDimension (filter (\<lambda>d. d \<notin> fst ` set dv) required_dimensions) @
         concat (map (\<lambda>(d, vs). case map_of marker_schema d of
                                  None \<Rightarrow> [UnknownDimension d]
                                | Some allowed \<Rightarrow> map (InvalidMarker d) (filter (\<lambda>v. v \<notin> set allowed) vs)) dv))"

definition check_markers :: "string \<Rightarrow> string \<Rightarrow> nat \<Rightarrow> string list \<Rightarrow> marker_violation list" where
  "check_markers file func line markers =
     map (\<lambda>m. \<lparr>mv_file = file, mv_function = func, mv_line = line, mv_message = m\<rparr>) (check_messages markers)"

text \<open>
  \<open>list(set(inherited) | set(module) | set(func))\<close>: without repetition; the order is unspecified in Python
  and no theorem below depends on it.
\<close>

definition effective_markers :: "string list \<Rightarrow> string list \<Rightarrow> string list \<Rightarrow> string list" where
  "effective_markers inherited module_marks func_marks = remdups (inherited @ module_marks @ func_marks)"

definition is_test_function :: "stmt \<Rightarrow> bool" where
  "is_test_function s = (case s of FunctionDef n _ _ _ \<Rightarrow> startswith n ''test_'' | _ \<Rightarrow> False)"

text \<open>\<open>rel\<close> is the path the profile is looked up with.\<close>

definition lint_file :: "string \<Rightarrow> string \<Rightarrow> stmt list option \<Rightarrow> marker_violation list" where
  "lint_file path rel tree =
     (case tree of
        None \<Rightarrow> [\<lparr>mv_file = path, mv_function = ''<module>'', mv_line = 0, mv_message = SyntaxErr\<rparr>]
      | Some m \<Rightarrow>
          concat (map (\<lambda>f. check_markers path (fd_name f) (fd_line f)
                             (effective_markers (profile_for rel) (module_pytestmark m) (extract_markers f)))
                   (filter is_test_function (walk m))))"

subsection \<open>What the linter accepts\<close>

lemma dim_values_dims: "fst ` set (dim_values ms acc) = fst ` set acc \<union> dims_of ms"
proof (induction ms arbitrary: acc)
  case (Cons m ms)
  show ?case
  proof (cases "dim_val m")
    case None
    with Cons show ?thesis by (auto simp: dims_of_def)
  next
    case (Some p)
    then obtain d v where p: "dim_val m = Some (d, v)" by (cases p) auto
    have "fst ` set (AList.update d x acc) = insert d (fst ` set acc)" for x
      by (simp add: dom_update flip: dom_map_of_conv_image_fst)
    with Cons p show ?thesis by (auto simp: dims_of_def)
  qed
qed (simp add: dims_of_def)

definition has_val :: "(string \<times> string list) list \<Rightarrow> string \<Rightarrow> string \<Rightarrow> bool" where
  "has_val dv d v \<longleftrightarrow> (\<exists>vs. map_of dv d = Some vs \<and> v \<in> set vs)"

lemma dim_values_has:
  "has_val (dim_values ms acc) d v \<longleftrightarrow> has_val acc d v \<or> (\<exists>m \<in> set ms. dim_val m = Some (d, v))"
proof (induction ms arbitrary: acc)
  case (Cons m ms)
  show ?case
  proof (cases "dim_val m")
    case None
    with Cons.IH [of acc] show ?thesis by simp
  next
    case (Some p)
    then obtain e u where p: "dim_val m = Some (e, u)" by (cases p) auto
    let ?acc = "AList.update e ((case map_of acc e of None \<Rightarrow> [] | Some vs \<Rightarrow> vs) @ [u]) acc"
    have "has_val ?acc d v \<longleftrightarrow> has_val acc d v \<or> (d = e \<and> v = u)"
      by (cases "map_of acc e") (auto simp: has_val_def)
    with Cons.IH [of ?acc] p show ?thesis by auto
  qed
qed simp

lemma dim_values_distinct: "distinct (map fst acc) \<Longrightarrow> distinct (map fst (dim_values ms acc))"
  by (induction ms arbitrary: acc) (auto simp: distinct_update split: option.splits)

lemma dim_values_nonempty:
  assumes "\<forall>p \<in> set acc. snd p \<noteq> []"
  shows "\<forall>p \<in> set (dim_values ms acc). snd p \<noteq> []"
  using assms
proof (induction ms arbitrary: acc)
  case (Cons m ms)
  have upd: "\<forall>p \<in> set (AList.update d x acc). snd p \<noteq> []" if "x \<noteq> []" for d x
    using Cons.prems that by (induction acc) auto
  show ?case
  proof (cases "dim_val m")
    case None
    with Cons show ?thesis by simp
  next
    case (Some p)
    then obtain d v where "dim_val m = Some (d, v)" by (cases p) auto
    then show ?thesis by simp (rule Cons.IH, rule upd, simp)
  qed
qed simp

lemma check_messages_empty:
  "check_messages ms = [] \<longleftrightarrow>
     set required_dimensions \<subseteq> dims_of ms \<and> (\<forall>m \<in> set ms. valid_marker m)"
proof -
  let ?dv = "dim_values ms []"
  let ?allowed = "\<lambda>d v. case map_of marker_schema d of None \<Rightarrow> False | Some vs \<Rightarrow> v \<in> set vs"
  have dist: "distinct (map fst ?dv)" by (rule dim_values_distinct) simp
  have has: "has_val ?dv d v \<longleftrightarrow> (\<exists>m \<in> set ms. dim_val m = Some (d, v))" for d v
    by (simp add: dim_values_has) (simp add: has_val_def)
  have ok: "(case map_of marker_schema d of None \<Rightarrow> [UnknownDimension d]
      | Some allowed \<Rightarrow> map (InvalidMarker d) (filter (\<lambda>v. v \<notin> set allowed) vs)) = []
      \<longleftrightarrow> (\<forall>v \<in> set vs. ?allowed d v)" if "(d, vs) \<in> set ?dv" for d vs
  proof -
    have "vs \<noteq> []" using dim_values_nonempty [of "[]" ms] that by force
    then show ?thesis by (cases "map_of marker_schema d") (auto simp: filter_empty_conv neq_Nil_conv)
  qed
  have "(\<forall>(d, vs) \<in> set ?dv. \<forall>v \<in> set vs. ?allowed d v) \<longleftrightarrow> (\<forall>d v. has_val ?dv d v \<longrightarrow> ?allowed d v)"
    using dist by (fastforce simp: has_val_def)
  also have "\<dots> \<longleftrightarrow> (\<forall>m \<in> set ms. valid_marker m)"
    unfolding has valid_marker_def by (auto split: option.splits)
  finally have vals: "(\<forall>(d, vs) \<in> set ?dv. \<forall>v \<in> set vs. ?allowed d v) \<longleftrightarrow> (\<forall>m \<in> set ms. valid_marker m)" .
  have "check_messages ms = [] \<longleftrightarrow> set required_dimensions \<subseteq> fst ` set ?dv \<and>
      (\<forall>(d, vs) \<in> set ?dv. \<forall>v \<in> set vs. ?allowed d v)"
    using ok by (auto simp: check_messages_def Let_def filter_empty_conv)
  then show ?thesis unfolding vals dim_values_dims by simp
qed



subsection \<open>What the injection does\<close>

lemma split1_dim: "CHR ''.'' \<in> set m \<Longrightarrow> \<exists>v. dim_val m = Some (fst (split1 CHR ''.'' m), v)"
  by (cases "split1 CHR ''.'' m"; cases "snd (split1 CHR ''.'' m)") (auto simp: dim_val_def dest: split1_None)

lemma dim_val_split1: "dim_val m = Some (d, v) \<Longrightarrow> CHR ''.'' \<in> set m \<and> fst (split1 CHR ''.'' m) = d"
  by (auto simp: dim_val_def split: prod.splits option.splits dest!: split1_Some)

lemma covered_dims_set: "set (covered_dims it) = dims_of (map mk_name (iter_markers it))"
proof (intro set_eqI iffI)
  fix d assume "d \<in> set (covered_dims it)"
  then obtain m where m: "m \<in> set (iter_markers it)" "CHR ''.'' \<in> set (mk_name m)" "d = fst (split1 CHR ''.'' (mk_name m))"
    by (auto simp: covered_dims_def)
  with split1_dim [OF m(2)] show "d \<in> dims_of (map mk_name (iter_markers it))" by (auto simp: dims_of_def)
next
  fix d assume "d \<in> dims_of (map mk_name (iter_markers it))"
  then obtain m v where m: "m \<in> set (iter_markers it)" "dim_val (mk_name m) = Some (d, v)" by (auto simp: dims_of_def)
  with dim_val_split1 [OF m(2)] show "d \<in> set (covered_dims it)" by (auto simp: covered_dims_def)
qed

text \<open>The injected names, in profile order.\<close>

definition injected :: "string list \<Rightarrow> item \<Rightarrow> string list" where
  "injected profile it = filter (\<lambda>m. fst (split1 CHR ''.'' m) \<notin> set (covered_dims it)) profile"

lemma inject_profile_own:
  "inject_profile profile it = it\<lparr>it_own := it_own it @ map (\<lambda>m. \<lparr>mk_name = m, mk_args = []\<rparr>) (injected profile it)\<rparr>"
proof -
  have "fold (\<lambda>m it. if fst (split1 CHR ''.'' m) \<in> D then it else add_marker \<lparr>mk_name = m, mk_args = []\<rparr> it) profile it
      = it\<lparr>it_own := it_own it @ map (\<lambda>m. \<lparr>mk_name = m, mk_args = []\<rparr>)
          (filter (\<lambda>m. fst (split1 CHR ''.'' m) \<notin> D) profile)\<rparr>" for D it
    by (induction profile arbitrary: it) (auto simp: add_marker_def)
  then show ?thesis by (simp add: inject_profile_def injected_def Let_def)
qed

text \<open>
  Injection is additive and the test's own markers win: no marker is removed or changed, every
  injected marker comes from the profile and from a dimension the test had no marker in, and afterwards
  the item covers the dimensions it had and all dimensions of the profile.
\<close>

theorem injection_additive:
  assumes "\<forall>m \<in> set profile. CHR ''.'' \<in> set m"
  shows "\<exists>ms. it_own (inject_profile profile it) = it_own it @ map (\<lambda>m. \<lparr>mk_name = m, mk_args = []\<rparr>) ms \<and>
      it_inherited (inject_profile profile it) = it_inherited it \<and> set ms \<subseteq> set profile \<and>
      dims_of ms \<inter> dims_of (map mk_name (iter_markers it)) = {} \<and>
      dims_of (map mk_name (iter_markers (inject_profile profile it)))
        = dims_of (map mk_name (iter_markers it)) \<union> dims_of profile"
proof -
  let ?ms = "injected profile it" and ?D = "dims_of (map mk_name (iter_markers it))"
  have dims: "dims_of ?ms = dims_of profile - ?D"
  proof (intro set_eqI iffI)
    fix d assume "d \<in> dims_of ?ms"
    then obtain m v where m: "m \<in> set profile" "fst (split1 CHR ''.'' m) \<notin> ?D" "dim_val m = Some (d, v)"
      by (auto simp: dims_of_def injected_def covered_dims_set)
    then show "d \<in> dims_of profile - ?D" using dim_val_split1 [OF m(3)] by (auto simp: dims_of_def)
  next
    fix d assume "d \<in> dims_of profile - ?D"
    then obtain m v where m: "m \<in> set profile" "dim_val m = Some (d, v)" "d \<notin> ?D" by (auto simp: dims_of_def)
    then have "m \<in> set ?ms" using dim_val_split1 [OF m(2)] by (simp add: injected_def covered_dims_set)
    with m(2) show "d \<in> dims_of ?ms" by (auto simp: dims_of_def)
  qed
  have "set ?ms \<subseteq> set profile" by (auto simp: injected_def)
  with dims have own: "it_own (inject_profile profile it) = it_own it @ map (\<lambda>m. \<lparr>mk_name = m, mk_args = []\<rparr>) ?ms"
      "it_inherited (inject_profile profile it) = it_inherited it" "set ?ms \<subseteq> set profile" "dims_of ?ms \<inter> ?D = {}"
    by (auto simp: inject_profile_own)
  have names: "map mk_name (iter_markers (inject_profile profile it))
      = map mk_name (it_own it) @ ?ms @ map mk_name (it_inherited it)"
    by (simp add: inject_profile_own iter_markers_def comp_def)
  have "dims_of (map mk_name (iter_markers (inject_profile profile it))) = ?D \<union> dims_of profile"
    unfolding names dims_of_append dims by (auto simp: iter_markers_def)
  with own show ?thesis by blast
qed

theorem injection_additive_witness:
  "dims_of (map mk_name (iter_markers (inject_profile (profile_for ''tests/e2e/kfd/t.py'')
       \<lparr>it_nodeid = ''t'', it_path = ''t'', it_own = [\<lparr>mk_name = ''hw.cpu_only'', mk_args = []\<rparr>], it_inherited = []\<rparr>)))
   = dims_of [''hw.cpu_only''] \<union> dims_of (profile_for ''tests/e2e/kfd/t.py'')"
proof -
  have "list_all (\<lambda>m. CHR ''.'' \<in> set m) (profile_for ''tests/e2e/kfd/t.py'')" by code_simp
  then have "\<forall>m \<in> set (profile_for ''tests/e2e/kfd/t.py''). CHR ''.'' \<in> set m" by (simp add: list_all_iff)
  from injection_additive [OF this, of "\<lparr>it_nodeid = ''t'', it_path = ''t'',
      it_own = [\<lparr>mk_name = ''hw.cpu_only'', mk_args = []\<rparr>], it_inherited = []\<rparr>"]
  show ?thesis by (elim exE conjE) (simp add: iter_markers_def)
qed

text \<open>
  The assignments that pytest takes into account for every test of the module: those at its top level. A file in which
  nothing but a nested assignment provides the markers is accepted by the linter, although pytest gives none of them to the test.
\<close>

definition toplevel_marks :: "stmt list \<Rightarrow> string list" where
  "toplevel_marks m = concat (map assign_marks m)"

definition mark_expr :: "string \<Rightarrow> string \<Rightarrow> expr" where
  "mark_expr d v = Attribute (Attribute (Attribute (Name ''pytest'') ''mark'') d) v"

theorem lint_counts_nested_marks:
  "\<exists>m f. lint_file path ''tests/x.py'' (Some m) = [] \<and> f \<in> set m \<and> is_test_function f \<and>
     profile_for ''tests/x.py'' = [] \<and> toplevel_marks m = [] \<and> extract_markers f = []"
proof -
  let ?marks = "ListExpr (map (\<lambda>d. mark_expr d (hd (the (map_of marker_schema d)))) required_dimensions)"
  let ?f = "FunctionDef ''test_a'' 3 [] []"
  let ?m = "[?f, Block [Assign [Name ''pytestmark''] ?marks]]"
  have "lint_file ''t.py'' ''tests/x.py'' (Some ?m) = []" by code_simp
  then have "lint_file path ''tests/x.py'' (Some ?m) = []" by (simp add: lint_file_def check_markers_def)
  moreover have "is_test_function ?f" "profile_for ''tests/x.py'' = []" "toplevel_marks ?m = []" "extract_markers ?f = []" by code_simp+
  ultimately show ?thesis by (intro exI [of _ ?m] exI [of _ ?f]) simp
qed

lemma runtime_coverage:
  assumes clean: "lint_file path rel (Some m) = []" and f: "f \<in> set (walk m)" "is_test_function f"
    and marks: "set (module_pytestmark m) \<union> set (extract_markers f) \<subseteq> mk_name ` set (iter_markers it)"
  shows "set required_dimensions \<subseteq> dims_of (map mk_name (iter_markers (inject_profile (profile_for rel) it)))"
proof -
  have own: "dims_of (map mk_name (iter_markers (inject_profile (profile_for rel) it)))
      = dims_of (map mk_name (iter_markers it)) \<union> dims_of (injected (profile_for rel) it)"
    by (auto simp: inject_profile_own iter_markers_def comp_def)
  have "dims_of (profile_for rel) \<subseteq> dims_of (map mk_name (iter_markers it)) \<union> dims_of (injected (profile_for rel) it)"
  proof
    fix d assume "d \<in> dims_of (profile_for rel)"
    then obtain x v where x: "x \<in> set (profile_for rel)" "dim_val x = Some (d, v)" by (auto simp: dims_of_def)
    show "d \<in> dims_of (map mk_name (iter_markers it)) \<union> dims_of (injected (profile_for rel) it)"
    proof (cases "d \<in> dims_of (map mk_name (iter_markers it))")
      case False
      with x dim_val_split1 [OF x(2)] have "x \<in> set (injected (profile_for rel) it)"
        by (simp add: injected_def covered_dims_set)
      with x(2) show ?thesis by (auto simp: dims_of_def)
    qed simp
  qed
  moreover have "dims_of (module_pytestmark m @ extract_markers f) \<subseteq> dims_of (map mk_name (iter_markers it))"
    using marks by (fastforce simp: dims_of_def)
  moreover have "set required_dimensions \<subseteq> dims_of (profile_for rel) \<union> dims_of (module_pytestmark m @ extract_markers f)"
  proof -
    have "check_messages (effective_markers (profile_for rel) (module_pytestmark m) (extract_markers f)) = []"
      using clean f by (auto simp: lint_file_def check_markers_def)
    moreover have "dims_of (remdups xs) = dims_of xs" for xs by (simp add: dims_of_def)
    ultimately show ?thesis by (simp add: check_messages_empty effective_markers_def Un_assoc)
  qed
  ultimately show ?thesis unfolding own by blast
qed

lemma nested_marks:
  assumes "\<forall>s \<in> set (walk m). s \<notin> set m \<longrightarrow> assign_marks s = []"
  shows "set (module_pytestmark m) \<subseteq> set (toplevel_marks m)"
  using assms by (fastforce simp: module_pytestmark_def toplevel_marks_def)



end
