(* ===== verification/Config.thy ===== *)
theory Config
  imports PyVal
begin

text \<open>
  The configuration loader, \<open>framework/config/loader.py\<close>. A section object is the association list of its
  attributes in declaration order, which is what \<open>vars\<close>, \<open>hasattr\<close> and \<open>setattr\<close> see of it (TOML keys
  that name methods or dunder attributes of the class are outside the model). Files, the TOML parser and the
  environment are arguments. Floats are rationals: infinities and NaN are not represented.
\<close>

type_synonym cfg_section = "(string \<times> pyval) list"

definition framework_section :: cfg_section where
  "framework_section =
     [(''log_level'', PStr ''normal''), (''run_id_prefix'', PStr ''rocm-test''),
      (''artifact_dir'', PStr ''output/artifacts/''), (''session_log'', PStr ''output/logs/session.log'')]"

definition gpu_section :: cfg_section where
  "gpu_section =
     [(''detection'', PStr ''auto''), (''max_temp_celsius'', PInt 90), (''max_ecc_errors'', PInt 0),
      (''min_vram_free_mb'', PInt 512),
      (''health_metrics'', PList [PStr ''temp'', PStr ''vram'', PStr ''util'', PStr ''ecc'', PStr ''clock'']),
      (''monitor_metrics'', PList [PStr ''temp'', PStr ''vram'', PStr ''util'', PStr ''ecc'', PStr ''clock'']),
      (''monitor_interval_secs'', PFloat 15), (''monitor_duration_secs'', PFloat 0)]"

definition reporting_section :: cfg_section where
  "reporting_section =
     [(''allure_results_dir'', PStr ''output/artifacts/allure-results/''), (''history_depth'', PInt 5)]"

definition therock_section :: cfg_section where
  "therock_section =
     [(''rock_dir'', PStr []), (''rocm_version'', PStr []), (''build_dir'', PStr ''output/test-binaries/''),
      (''build_timeout_secs'', PFloat 7200), (''build_inactivity_timeout_secs'', PFloat 600)]"

definition frameworks_section :: cfg_section where
  "frameworks_section =
     [(''default_mode'', PStr ''auto''),
      (''multiarch_index'', PStr ''https://rocm.nightlies.amd.com/whl-multi-arch/''),
      (''family_index_base'', PStr ''https://rocm.nightlies.amd.com/v2''),
      (''staging_index'', PStr ''https://rocm.nightlies.amd.com/whl-staging-multi-arch/''),
      (''requirements_pytorch'', PStr ''tests/common/ml_provisioning/requirements-pytorch.txt'')]"

record framework_config =
  fc_framework :: cfg_section
  fc_gpu :: cfg_section
  fc_reporting :: cfg_section
  fc_therock :: cfg_section
  fc_frameworks :: cfg_section

subsection \<open>Merging the file\<close>

fun set_known :: "(string \<times> pyval) list \<Rightarrow> cfg_section \<Rightarrow> cfg_section" where
  "set_known [] obj = obj"
| "set_known ((k, v) # kvs) obj =
     set_known kvs (if map_of obj k \<noteq> None then AList.update k v obj else obj)"

definition merge_section :: "(string \<times> pyval) list \<Rightarrow> cfg_section \<Rightarrow> string \<Rightarrow> py_error + cfg_section" where
  "merge_section raw defaults key =
     (case map_of raw key of
        None \<Rightarrow> Inr defaults
      | Some (PDict d) \<Rightarrow> Inr (set_known d defaults)
      | Some _ \<Rightarrow> Inl AttributeError)"

definition build_config :: "(string \<times> pyval) list \<Rightarrow> py_error + framework_config" where
  "build_config raw =
     (case mapM (\<lambda>(d, k). merge_section raw d k)
             [(framework_section, ''framework''), (gpu_section, ''gpu''), (reporting_section, ''reporting''),
              (therock_section, ''therock''), (frameworks_section, ''frameworks'')] of
        Inl e \<Rightarrow> Inl e
      | Inr ss \<Rightarrow> Inr \<lparr>fc_framework = ss ! 0, fc_gpu = ss ! 1, fc_reporting = ss ! 2, fc_therock = ss ! 3,
                       fc_frameworks = ss ! 4\<rparr>)"

subsection \<open>Environment overrides\<close>

text \<open>\<open>float(s)\<close> on decimal literals: sign, digits, fraction, exponent; digits may be grouped by underscores.\<close>

definition frac_of :: "string \<Rightarrow> rat option" where
  "frac_of s =
     (case split1 CHR ''.'' s of
        (i, None) \<Rightarrow> map_option of_nat (parse_digits i)
      | (i, Some f) \<Rightarrow>
          if i = [] \<and> f = [] then None
          else (case (if i = [] then Some 0 else parse_digits i, if f = [] then Some 0 else parse_digits f) of
                  (Some a, Some b) \<Rightarrow> Some (of_nat a + of_nat b / 10 ^ length (filter is_digit f))
                | _ \<Rightarrow> None))"

definition signed_nat :: "string \<Rightarrow> int option" where
  "signed_nat s =
     (case s of
        [] \<Rightarrow> None
      | c # r \<Rightarrow> if c = CHR ''-'' then map_option (\<lambda>n. - int n) (parse_digits r)
                  else if c = CHR ''+'' then map_option int (parse_digits r) else map_option int (parse_digits s))"

definition unsigned_float :: "string \<Rightarrow> rat option" where
  "unsigned_float s =
     (case split1 CHR ''e'' (py_lower s) of
        (m, None) \<Rightarrow> frac_of m
      | (m, Some e) \<Rightarrow>
          (case (frac_of m, signed_nat e) of
             (Some x, Some n) \<Rightarrow> Some (if 0 \<le> n then x * 10 ^ nat n else x / 10 ^ nat (- n))
           | _ \<Rightarrow> None))"

definition float_of_str :: "string \<Rightarrow> rat option" where
  "float_of_str s0 =
     (case py_strip s0 of
        [] \<Rightarrow> None
      | c # r \<Rightarrow> if c = CHR ''-'' then map_option uminus (unsigned_float r)
                  else if c = CHR ''+'' then unsigned_float r else unsigned_float (c # r))"

text \<open>The conversion by the type of the current value; \<open>None\<close> when it raises and the override is dropped.\<close>

definition convert :: "pyval \<Rightarrow> string \<Rightarrow> pyval option" where
  "convert current raw =
     (case current of
        PBool _ \<Rightarrow> Some (PBool (py_lower raw \<in> {''1'', ''true'', ''yes''}))
      | PInt _ \<Rightarrow> map_option PInt (int_of_str raw)
      | PFloat _ \<Rightarrow> map_option PFloat (float_of_str raw)
      | PList _ \<Rightarrow> Some (PList (map (PStr \<circ> py_strip) (split_on CHR '','' raw)))
      | _ \<Rightarrow> Some (PStr raw))"

definition env_key :: "string \<Rightarrow> string \<Rightarrow> string" where
  "env_key section attr = ''ROCM_TEST_'' @ section @ ''_'' @ py_upper attr"

definition override :: "(string \<Rightarrow> string option) \<Rightarrow> string \<Rightarrow> cfg_section \<Rightarrow> cfg_section" where
  "override environ section obj =
     map (\<lambda>(attr, current).
            (attr,
             case environ (env_key section attr) of
               None \<Rightarrow> current
             | Some raw \<Rightarrow> (case convert current raw of None \<Rightarrow> current | Some v \<Rightarrow> v))) obj"

definition apply_env_overrides :: "(string \<Rightarrow> string option) \<Rightarrow> framework_config \<Rightarrow> framework_config" where
  "apply_env_overrides environ cfg =
     \<lparr>fc_framework = override environ ''FRAMEWORK'' (fc_framework cfg),
      fc_gpu = override environ ''GPU'' (fc_gpu cfg),
      fc_reporting = override environ ''REPORTING'' (fc_reporting cfg),
      fc_therock = override environ ''THEROCK'' (fc_therock cfg),
      fc_frameworks = override environ ''FRAMEWORKS'' (fc_frameworks cfg)\<rparr>"

subsection \<open>Loading\<close>

text \<open>\<open>files\<close> gives the text of a regular file. The candidates are the paths in the working and home directory.\<close>

definition resolve_config_path :: "(string \<Rightarrow> string option) \<Rightarrow> string option \<Rightarrow> string list \<Rightarrow> string option" where
  "resolve_config_path files explicit_path candidates =
     (case explicit_path of
        Some (c # p) \<Rightarrow> if files (c # p) \<noteq> None then Some (c # p) else None
      | _ \<Rightarrow> find (\<lambda>p. files p \<noteq> None) candidates)"

definition load_config ::
  "(string \<Rightarrow> string option) \<Rightarrow> (string \<Rightarrow> py_error + (string \<times> pyval) list) \<Rightarrow> (string \<Rightarrow> string option)
     \<Rightarrow> string list \<Rightarrow> string option \<Rightarrow> py_error + framework_config" where
  "load_config files toml environ candidates config_path =
     (case (case resolve_config_path files config_path candidates of
              None \<Rightarrow> Inr []
            | Some p \<Rightarrow> (case files p of None \<Rightarrow> Inl FileNotFoundError | Some text \<Rightarrow> toml text)) of
        Inl e \<Rightarrow> Inl e
      | Inr raw \<Rightarrow> map_sum id (apply_env_overrides environ) (build_config raw))"

subsection \<open>Properties\<close>

lemma set_known_keys: "map fst (set_known kvs obj) = map fst obj"
proof (induction kvs obj rule: set_known.induct)
  case (2 k v kvs obj)
  have "map fst (AList.update k v obj) = map fst obj" if "map_of obj k \<noteq> None"
    using that by (simp add: update_keys dom_map_of_conv_image_fst [symmetric] domIff)
  with 2 show ?case by simp
qed simp

lemma set_known_get:
  "map_of (set_known kvs obj) k = (case map_of obj k of None \<Rightarrow> None | Some d \<Rightarrow>
     (case map_of (rev kvs) k of None \<Rightarrow> Some d | Some v \<Rightarrow> Some v))"
proof (induction kvs obj rule: set_known.induct)
  case (2 k' v kvs obj)
  then show ?case by (cases "k' = k") (auto simp: map_add_def split: option.splits)
qed (auto split: option.splits)

lemma override_get:
  "map_of (override environ section obj) k = map_option (\<lambda>current.
     case environ (env_key section k) of
       None \<Rightarrow> current
     | Some raw \<Rightarrow> (case convert current raw of None \<Rightarrow> current | Some v \<Rightarrow> v)) (map_of obj k)"
  by (induction obj) (auto simp: override_def split: option.splits)

lemma override_keys: "map fst (override environ section obj) = map fst obj"
  by (simp add: override_def comp_def case_prod_beta)

text \<open>The value a file gives to an attribute, and the value the environment makes of it.\<close>

definition file_value :: "(string \<times> pyval) list \<Rightarrow> string \<Rightarrow> string \<Rightarrow> pyval \<Rightarrow> pyval" where
  "file_value raw section attr dflt =
     (case map_of raw section of
        Some (PDict d) \<Rightarrow> (case map_of (rev d) attr of None \<Rightarrow> dflt | Some v \<Rightarrow> v)
      | _ \<Rightarrow> dflt)"

definition env_value :: "(string \<Rightarrow> string option) \<Rightarrow> string \<Rightarrow> string \<Rightarrow> pyval \<Rightarrow> pyval" where
  "env_value environ section attr current =
     (case environ (env_key section attr) of
        None \<Rightarrow> current
      | Some raw \<Rightarrow> (case convert current raw of None \<Rightarrow> current | Some v \<Rightarrow> v))"

definition section_table :: "(string \<times> string \<times> cfg_section \<times> (framework_config \<Rightarrow> cfg_section)) list" where
  "section_table =
     [(''framework'', ''FRAMEWORK'', framework_section, fc_framework), (''gpu'', ''GPU'', gpu_section, fc_gpu),
      (''reporting'', ''REPORTING'', reporting_section, fc_reporting),
      (''therock'', ''THEROCK'', therock_section, fc_therock),
      (''frameworks'', ''FRAMEWORKS'', frameworks_section, fc_frameworks)]"

lemma merge_section_get:
  assumes "merge_section raw defaults key = Inr obj"
  shows "map_of obj k = map_option (file_value raw key k) (map_of defaults k)" and "map fst obj = map fst defaults"
  using assms
  by (cases "map_of defaults k";
      auto simp: merge_section_def file_value_def set_known_get set_known_keys split: option.splits pyval.splits)+

lemma build_config_sections:
  assumes "build_config raw = Inr cfg" and "(name, env, defaults, get) \<in> set section_table"
  shows "merge_section raw defaults name = Inr (get cfg)"
  using assms unfolding build_config_def section_table_def
  by (auto simp: nth_Cons numeral_2_eq_2 numeral_3_eq_3 eval_nat_numeral split: sum.splits)

lemma apply_env_sections:
  "(name, env, defaults, get) \<in> set section_table \<Longrightarrow>
     get (apply_env_overrides environ cfg) = override environ env (get cfg)"
  by (auto simp: section_table_def apply_env_overrides_def)



text \<open>
  The environment variables of the configuration are pairwise different, so one variable never changes two
  attributes.
\<close>

theorem env_keys_distinct:
  "distinct (concat (map (\<lambda>(_, env, defaults, _). map (\<lambda>(attr, _). env_key env attr) defaults) section_table))"
  by code_simp

text \<open>
  The type a variable is converted to is that of the value the file has set, not that of the default: where the
  file writes a float attribute without a fraction, a fractional override is dropped.
\<close>

theorem env_type_follows_file:
  assumes "file_value raw section attr dflt = PInt n" and "environ (env_key env attr) = Some s" and "int_of_str s = None"
  shows "env_value environ env attr (file_value raw section attr dflt) = PInt n"
  using assms by (simp add: env_value_def convert_def)

theorem env_type_follows_file_witness:
  "env_value (\<lambda>_. Some ''2.5'') ''GPU'' ''monitor_interval_secs''
     (file_value [(''gpu'', PDict [(''monitor_interval_secs'', PInt 5)])] ''gpu'' ''monitor_interval_secs'' (PFloat 15)) = PInt 5"
proof (rule env_type_follows_file)
  show "file_value [(''gpu'', PDict [(''monitor_interval_secs'', PInt 5)])] ''gpu'' ''monitor_interval_secs'' (PFloat 15) = PInt 5"
    by code_simp
  show "int_of_str ''2.5'' = None" by code_simp
qed simp

end
