(* ===== verification/Drain.thy ===== *)
theory Drain
  imports Helpers
begin

text \<open>
  \<open>GpuDrainChecker\<close> of \<open>framework/gpu/drain.py\<close> and \<open>RetryHelper\<close> of
  \<open>framework/plugins/retry_plugin.py\<close>. What lies outside the framework is a record of functions over an
  abstract machine state: the clock, \<open>amd-smi\<close> (\<open>None\<close> when the call raises an \<open>OSError\<close> or times out,
  otherwise exit code and output), sleeping, the search path, and \<open>json.loads\<close> (\<open>None\<close> when it raises
  a \<open>ValueError\<close>).
\<close>

record 's machine =
  mc_clock :: "'s \<Rightarrow> rat"
  mc_run :: "string list \<Rightarrow> 's \<Rightarrow> (int \<times> string) option \<times> 's"
  mc_sleep :: "rat \<Rightarrow> nat \<Rightarrow> 's \<Rightarrow> 's"
  mc_which :: "string option"
  mc_isfile :: "string \<Rightarrow> bool"
  mc_loads :: "string \<Rightarrow> pyval option"

text \<open>Running a command does not turn the clock back, and a sleep lasts at least its argument.\<close>

definition machine_ok :: "'s machine \<Rightarrow> bool" where
  "machine_ok mc \<longleftrightarrow>
     (\<forall>args s. mc_clock mc s \<le> mc_clock mc (snd (mc_run mc args s))) \<and>
     (\<forall>d n s. mc_clock mc s + d \<le> mc_clock mc (mc_sleep mc d n s))"

definition find_amd_smi :: "'s machine \<Rightarrow> string option \<Rightarrow> string option" where
  "find_amd_smi mc rock_dir =
     (case mc_which mc of
        Some (c # path) \<Rightarrow> Some (c # path)
      | _ \<Rightarrow>
          (case rock_dir of
             Some (c # dir) \<Rightarrow>
               let candidate = (c # dir) @ (if last (c # dir) = CHR ''/'' then [] else ''/'') @ ''bin/amd-smi''
               in if mc_isfile mc candidate then Some candidate else None
           | _ \<Rightarrow> None))"

text \<open>\<open>d.get("value", 0)\<close> with \<open>d.get("unit", "MB")\<close>: megabytes, anything but MB taken as bytes.\<close>

definition sized_mb :: "(string \<times> pyval) list \<Rightarrow> py_error + int" where
  "sized_mb d =
     (let raw = (case map_of d ''value'' of None \<Rightarrow> PInt 0 | Some v \<Rightarrow> v) in
      case (case map_of d ''unit'' of None \<Rightarrow> PStr ''MB'' | Some u \<Rightarrow> u) of
        PStr unit \<Rightarrow>
          if py_upper unit = ''MB'' then py_int raw
          else map_sum id (\<lambda>n. n div (1024 * 1024)) (py_int raw)
      | _ \<Rightarrow> Inl AttributeError)"

definition parse_vram :: "(string \<times> pyval) list \<Rightarrow> py_error + int option" where
  "parse_vram data =
     (case (case map_of data ''vram'' of None \<Rightarrow> PDict [] | Some v \<Rightarrow> v) of
        PDict vram \<Rightarrow>
          (case (case map_of vram ''used'' of None \<Rightarrow> PDict [] | Some v \<Rightarrow> v) of
             PDict used \<Rightarrow> map_sum id Some (sized_mb used)
           | used \<Rightarrow> if is_num_inst used then map_sum id Some (py_int used) else Inr None)
      | _ \<Rightarrow> Inr None)"

definition parse_flat :: "(string \<times> pyval) list \<Rightarrow> py_error + int option" where
  "parse_flat data =
     (case map_of data ''vram_used_mb'' of
        None \<Rightarrow> parse_vram data
      | Some PNone \<Rightarrow> parse_vram data
      | Some flat \<Rightarrow> map_sum id Some (py_int flat))"

definition parse_device :: "(string \<times> pyval) list \<Rightarrow> py_error + int option" where
  "parse_device data =
     (let mem_info = (case map_of data ''mem_info'' of None \<Rightarrow> PDict [] | Some v \<Rightarrow> v)
      in if truthy mem_info then
           (case py_get mem_info ''vram_used'' (PDict []) of
              Inl e \<Rightarrow> Inl e
            | Inr (PDict d) \<Rightarrow> map_sum id Some (sized_mb d)
            | Inr vram_used \<Rightarrow> if is_num_inst vram_used then map_sum id Some (py_int vram_used) else parse_flat data)
         else parse_flat data)"

definition parse_used_mb :: "(string \<Rightarrow> pyval option) \<Rightarrow> string \<Rightarrow> py_error + int option" where
  "parse_used_mb loads out =
     (case loads out of
        None \<Rightarrow> Inr None
      | Some data \<Rightarrow>
          (case (case data of PList (x # xs) \<Rightarrow> x | _ \<Rightarrow> data) of
             PDict d \<Rightarrow> parse_device d
           | _ \<Rightarrow> Inr None))"

definition query_used_vram_mb :: "'s machine \<Rightarrow> string \<Rightarrow> int \<Rightarrow> 's \<Rightarrow> (py_error + int option) \<times> 's" where
  "query_used_vram_mb mc amd_smi i s =
     (case mc_run mc [amd_smi, ''memory'', ''-g'', show_int i, ''--json''] s of
        (None, s') \<Rightarrow> (Inr None, s')
      | (Some (rc, out), s') \<Rightarrow> (if rc \<noteq> 0 then Inr None else parse_used_mb (mc_loads mc) out, s'))"

text \<open>One turn of the loop of \<open>wait_for_drain\<close>.\<close>

definition drain_round :: "'s machine \<Rightarrow> string \<Rightarrow> int \<Rightarrow> int \<Rightarrow> 's \<Rightarrow> (py_error + bool) option \<times> 's" where
  "drain_round mc amd_smi i threshold s =
     (case query_used_vram_mb mc amd_smi i s of
        (Inl e, s') \<Rightarrow> (Some (Inl e), s')
      | (Inr None, s') \<Rightarrow> (Some (Inr True), s')
      | (Inr (Some used), s') \<Rightarrow> (if used < threshold then Some (Inr True) else None, s'))"

definition drain_rest :: "'s machine \<Rightarrow> rat \<Rightarrow> rat \<Rightarrow> nat \<Rightarrow> 's \<Rightarrow> 's" where
  "drain_rest mc interval deadline n s = mc_sleep mc (min interval (deadline - mc_clock mc s)) n s"

definition wait_for_drain ::
  "'s machine \<Rightarrow> string option \<Rightarrow> int \<Rightarrow> int \<Rightarrow> rat \<Rightarrow> rat \<Rightarrow> 's \<Rightarrow> ((py_error + bool) \<times> 's) option" where
  "wait_for_drain mc rock_dir i threshold interval timeout s =
     (case find_amd_smi mc rock_dir of
        None \<Rightarrow> Some (Inr True, s)
      | Some amd_smi \<Rightarrow>
          let deadline = mc_clock mc s + timeout
          in map_option (\<lambda>(r, s'). (case r of None \<Rightarrow> Inr False | Some b \<Rightarrow> b, s'))
               (poll (drain_round mc amd_smi i threshold) (\<lambda>s. deadline \<le> mc_clock mc s)
                  (drain_rest mc interval deadline) 0 s))"

subsection \<open>Retry\<close>

record retry_helper =
  rh_max_attempts :: int
  rh_flaky :: bool

definition new_retry_helper :: "int \<Rightarrow> retry_helper" where
  "new_retry_helper max_attempts = \<lparr>rh_max_attempts = max 1 max_attempts, rh_flaky = False\<rparr>"

text \<open>The attempts from the given one on; \<open>left\<close> attempts remain.\<close>

fun retry_from ::
  "('s \<Rightarrow> execution_result \<times> 's) \<Rightarrow> nat \<Rightarrow> int \<Rightarrow> execution_result option \<Rightarrow> bool \<Rightarrow> 's
     \<Rightarrow> execution_result option \<times> bool \<times> 's" where
  "retry_from run 0 attempt last_result flaky s = (last_result, flaky, s)"
| "retry_from run (Suc left) attempt last_result flaky s =
     (case run s of
        (result, s') \<Rightarrow>
          if er_ok result then (Some result, flaky \<or> attempt > 1, s')
          else retry_from run left (attempt + 1) (Some result) flaky s')"

definition retry_run ::
  "('s \<Rightarrow> execution_result \<times> 's) \<Rightarrow> retry_helper \<Rightarrow> 's \<Rightarrow> execution_result option \<times> retry_helper \<times> 's" where
  "retry_run run h s =
     (case retry_from run (nat (rh_max_attempts h)) 1 None (rh_flaky h) s of
        (r, flaky, s') \<Rightarrow> (r, h\<lparr>rh_flaky := flaky\<rparr>, s'))"

text \<open>\<open>attempts = 1 + max(cli_count, mark_count)\<close>\<close>

definition retry_fixture :: "int \<Rightarrow> int option \<Rightarrow> retry_helper" where
  "retry_fixture cli_count mark =
     new_retry_helper (1 + max cli_count (case mark of None \<Rightarrow> 0 | Some n \<Rightarrow> n))"

subsection \<open>Properties of the drain check\<close>

lemma drain_round_clock:
  assumes "machine_ok mc"
  shows "mc_clock mc s \<le> mc_clock mc (snd (drain_round mc p i thr s))"
proof -
  have "mc_clock mc s \<le> mc_clock mc (snd (mc_run mc [p, ''memory'', ''-g'', show_int i, ''--json''] s))"
    using assms by (simp add: machine_ok_def)
  then show ?thesis
    by (auto simp: drain_round_def query_used_vram_mb_def split: prod.splits option.splits sum.splits)
qed

lemma drain_polling:
  assumes "machine_ok mc" and "0 < interval"
  shows "polling (drain_round mc p i thr) (mc_clock mc) deadline (drain_rest mc interval deadline) interval"
proof
  show "0 < interval" by (rule assms(2))
  show "mc_clock mc s \<le> mc_clock mc (snd (drain_round mc p i thr s))" for s
    by (rule drain_round_clock [OF assms(1)])
  fix s n
  have "mc_clock mc s + min interval (deadline - mc_clock mc s) \<le> mc_clock mc (drain_rest mc interval deadline n s)"
    using assms(1) unfolding machine_ok_def drain_rest_def by blast
  then show "min (mc_clock mc s + interval) deadline \<le> mc_clock mc (drain_rest mc interval deadline n s)"
    by (auto simp: min_def split: if_splits)
qed

text \<open>
  C38. \<open>wait_for_drain\<close> always returns when the poll interval is positive. It answers \<open>False\<close> only at or
  after its deadline, on a reading of the used memory that is not below the threshold; it raises only when the
  parser of the tool's output raises.
\<close>

theorem wait_for_drain_total:
  assumes ok: "machine_ok mc" and pos: "0 < interval"
  shows "\<exists>r s'. wait_for_drain mc rock_dir i thr interval timeout s = Some (r, s') \<and>
    (r = Inr False \<longrightarrow> mc_clock mc s + timeout \<le> mc_clock mc s' \<and>
       (\<exists>p u used. query_used_vram_mb mc p i u = (Inr (Some used), s') \<and> thr \<le> used)) \<and>
    (\<forall>e. r = Inl e \<longrightarrow> (\<exists>out. parse_used_mb (mc_loads mc) out = Inl e))"
proof (cases "find_amd_smi mc rock_dir")
  case None
  then show ?thesis by (simp add: wait_for_drain_def)
next
  case (Some p)
  let ?d = "mc_clock mc s + timeout"
  have "\<exists>r s'. poll (drain_round mc p i thr) (\<lambda>s. ?d \<le> mc_clock mc s) (drain_rest mc interval ?d) 0 s = Some (r, s')"
    by (rule polling.returns [OF drain_polling [OF ok pos]])
  then obtain r s' where ret: "poll (drain_round mc p i thr) (\<lambda>s. ?d \<le> mc_clock mc s) (drain_rest mc interval ?d) 0 s
      = Some (r, s')" by blast
  obtain u where u: "drain_round mc p i thr u = (r, s')" "r = None \<longrightarrow> ?d \<le> mc_clock mc s'"
    using poll_result [OF ret, where I = "\<lambda>_. True"] by blast
  have eq: "wait_for_drain mc rock_dir i thr interval timeout s
      = Some (case r of None \<Rightarrow> Inr False | Some b \<Rightarrow> b, s')"
    using Some ret by (simp add: wait_for_drain_def Let_def)
  have "r = None \<Longrightarrow> \<exists>used. query_used_vram_mb mc p i u = (Inr (Some used), s') \<and> thr \<le> used"
    using u(1) by (auto simp: drain_round_def split: prod.splits sum.splits option.splits if_splits)
  moreover have "r \<noteq> Some (Inr False)"
    using u(1) by (auto simp: drain_round_def split: prod.splits sum.splits option.splits if_splits)
  moreover have "\<exists>out. parse_used_mb (mc_loads mc) out = Inl e" if "r = Some (Inl e)" for e
    using u(1) that
    by (auto simp: drain_round_def query_used_vram_mb_def split: prod.splits sum.splits option.splits if_splits)
  ultimately show ?thesis
    unfolding eq using u(2) by (cases r) (simp, blast, auto)
qed

text \<open>A machine whose clock is its whole state and whose \<open>amd-smi\<close> prints a fixed answer.\<close>

definition demo_machine :: "pyval \<Rightarrow> rat machine" where
  "demo_machine answer = \<lparr>mc_clock = (\<lambda>s. s), mc_run = (\<lambda>_ s. (Some (0, []), s)), mc_sleep = (\<lambda>d _ s. s + d),
     mc_which = Some ''/usr/bin/amd-smi'', mc_isfile = (\<lambda>_. False), mc_loads = (\<lambda>_. Some answer)\<rparr>"

lemma demo_machine_ok: "machine_ok (demo_machine answer)"
  by (simp add: machine_ok_def demo_machine_def)

theorem wait_for_drain_total_witness:
  "\<exists>r s'. wait_for_drain (demo_machine (PDict [(''vram_used_mb'', PInt 600)])) None 0 512 1 30 (0 :: rat) = Some (r, s') \<and>
     (r = Inr False \<longrightarrow> 0 + 30 \<le> s')"
  using wait_for_drain_total [OF demo_machine_ok zero_less_one, of "PDict [(''vram_used_mb'', PInt 600)]" None 0 512 30 0]
  by (auto simp: demo_machine_def)

text \<open>
  The drain check is not immune to the tool's output: a reading that is not a number, such as
  \<open>"N/A"\<close>, raises a \<open>ValueError\<close> out of \<open>wait_for_drain\<close> (only process and I/O errors are caught).
\<close>

theorem wait_for_drain_raises:
  assumes "find_amd_smi mc rock_dir = Some p"
    and "mc_run mc [p, ''memory'', ''-g'', show_int i, ''--json''] s = (Some (0, out), s')"
    and "mc_loads mc out = Some (PList [PDict [(''mem_info'', PDict [(''vram_used'', PDict [(''value'', PStr v)])])]])"
    and "int_of_str v = None"
  shows "wait_for_drain mc rock_dir i thr interval timeout s = Some (Inl ValueError, s')"
proof -
  have "parse_used_mb (mc_loads mc) out = Inl ValueError"
    using assms(3,4) by (simp add: parse_used_mb_def parse_device_def sized_mb_def py_upper_def upper_char_def)
  then have "drain_round mc p i thr s = (Some (Inl ValueError), s')"
    using assms(2) by (simp add: drain_round_def query_used_vram_mb_def)
  with assms(1) show ?thesis by (simp add: wait_for_drain_def Let_def poll_done)
qed

theorem wait_for_drain_raises_witness:
  "wait_for_drain (demo_machine (PList [PDict [(''mem_info'', PDict [(''vram_used'', PDict [(''value'', PStr ''N/A'')])])]]))
     None 0 512 1 30 (0 :: rat) = Some (Inl ValueError, 0)"
proof -
  have v: "int_of_str ''N/A'' = None" by code_simp
  show ?thesis
    by (rule wait_for_drain_raises [where p = "''/usr/bin/amd-smi''" and out = "[]" and v = "''N/A''"])
      (simp_all add: demo_machine_def find_amd_smi_def v)
qed

text \<open>
  The drain check is blind to the answer format that \<open>framework/rocm/libs/amd_smi.py\<close> documents for current
  versions of the tool, a dictionary with the devices under \<open>gpu_data\<close>: none of the known layouts matches, the missing
  entries default to 0 MB in use, and the GPU counts as drained at the first look, however much memory is in use.
\<close>

theorem drain_blind_to_wrapper:
  assumes "find_amd_smi mc rock_dir = Some p"
    and "mc_run mc [p, ''memory'', ''-g'', show_int i, ''--json''] s = (Some (0, out), s')"
    and "mc_loads mc out = Some (PDict [(''gpu_data'', devices)])" and "0 < thr"
  shows "parse_used_mb (mc_loads mc) out = Inr (Some 0) \<and> wait_for_drain mc rock_dir i thr interval timeout s = Some (Inr True, s')"
proof -
  have parse: "parse_used_mb (mc_loads mc) out = Inr (Some 0)"
    using assms(3) by (simp add: parse_used_mb_def parse_device_def parse_flat_def parse_vram_def sized_mb_def py_upper_def upper_char_def)
  then have "drain_round mc p i thr s = (Some (Inr True), s')"
    using assms(2,4) by (simp add: drain_round_def query_used_vram_mb_def)
  with assms(1) parse show ?thesis by (simp add: wait_for_drain_def Let_def poll_done)
qed

text \<open>190 GB are in use.\<close>

definition busy_answer :: pyval where
  "busy_answer = PDict [(''gpu_data'', PList [PDict [(''vram'', PDict [(''used'', PDict [(''value'', PInt 190000), (''unit'', PStr ''MB'')])])]])]"

theorem drain_blind_to_wrapper_witness:
  "parse_used_mb (mc_loads (demo_machine busy_answer)) [] = Inr (Some 0) \<and>
   wait_for_drain (demo_machine busy_answer) None 0 512 1 30 (0 :: rat) = Some (Inr True, 0)"
  by (rule drain_blind_to_wrapper [where p = "''/usr/bin/amd-smi''"])
    (simp_all add: demo_machine_def find_amd_smi_def busy_answer_def)

subsection \<open>Properties of the retry helper\<close>

text \<open>The results of the first \<open>n\<close> attempts, whatever they are.\<close>

fun attempts :: "('s \<Rightarrow> execution_result \<times> 's) \<Rightarrow> nat \<Rightarrow> 's \<Rightarrow> execution_result list \<times> 's" where
  "attempts run 0 s = ([], s)"
| "attempts run (Suc n) s =
     (case run s of (r, s1) \<Rightarrow> (case attempts run n s1 of (rs, s2) \<Rightarrow> (r # rs, s2)))"

lemma retry_from_spec:
  "left > 0 \<Longrightarrow> \<exists>k rs s'. 1 \<le> k \<and> k \<le> left \<and> attempts run k s = (rs, s') \<and> length rs = k \<and>
     retry_from run left a lr fl s = (Some (last rs), fl \<or> (er_ok (last rs) \<and> a + int k - 1 > 1), s') \<and>
     (\<forall>r \<in> set (butlast rs). \<not> er_ok r) \<and> (er_ok (last rs) \<or> k = left)"
proof (induction left arbitrary: a lr s)
  case (Suc left)
  obtain r s1 where r: "run s = (r, s1)" by (cases "run s")
  show ?case
  proof (cases "er_ok r \<or> left = 0")
    case True
    with r show ?thesis by (intro exI [of _ 1] exI [of _ "[r]"] exI [of _ s1]) (cases left; auto)
  next
    case False
    then have "left > 0" by simp
    from Suc.IH [OF this, of s1 "a + 1" "Some r"] obtain k rs s' where k: "1 \<le> k" "k \<le> left" "attempts run k s1 = (rs, s')"
      "length rs = k" "retry_from run left (a + 1) (Some r) fl s1 = (Some (last rs), fl \<or> (er_ok (last rs) \<and> a + 1 + int k - 1 > 1), s')"
      "\<forall>r \<in> set (butlast rs). \<not> er_ok r" "er_ok (last rs) \<or> k = left" by blast
    from k(1,4) have "rs \<noteq> []" by auto
    with False r k show ?thesis
      by (intro exI [of _ "Suc k"] exI [of _ "r # rs"] exI [of _ s']) (auto simp: algebra_simps)
  qed
qed simp

text \<open>
  \<open>RetryHelper.run\<close> makes between one and \<open>max_attempts\<close> attempts, stops at the first successful one
  and returns its result, or returns the last result when all attempts fail; the helper is marked flaky
  exactly when the success was not the first attempt.
\<close>

theorem retry_run_correct:
  "\<exists>k rs s'. 1 \<le> k \<and> int k \<le> max 1 n \<and> attempts run k s = (rs, s') \<and> length rs = k \<and>
     retry_run run (new_retry_helper n) s
       = (Some (last rs), (new_retry_helper n)\<lparr>rh_flaky := er_ok (last rs) \<and> k > 1\<rparr>, s') \<and>
     (\<forall>r \<in> set (butlast rs). \<not> er_ok r) \<and> (er_ok (last rs) \<or> int k = max 1 n)"
proof -
  have "nat (max 1 n) > 0" by simp
  from retry_from_spec [OF this, of run s 1 None False] obtain k rs s' where k: "1 \<le> k" "k \<le> nat (max 1 n)"
    "attempts run k s = (rs, s')" "length rs = k"
    "retry_from run (nat (max 1 n)) 1 None False s = (Some (last rs), False \<or> (er_ok (last rs) \<and> 1 + int k - 1 > 1), s')"
    "\<forall>r \<in> set (butlast rs). \<not> er_ok r" "er_ok (last rs) \<or> k = nat (max 1 n)" by blast
  have "int (nat (max 1 n)) = max 1 n" by simp
  with k(2,7) have "int k \<le> max 1 n" "er_ok (last rs) \<or> int k = max 1 n" by linarith+
  with k show ?thesis
    by (intro exI [of _ k] exI [of _ rs] exI [of _ s']) (simp add: retry_run_def new_retry_helper_def)
qed

theorem retry_run_correct_witness:
  "\<exists>k rs s'. 1 \<le> k \<and> int k \<le> 3 \<and>
     attempts (\<lambda>n :: int. (\<lparr>er_exit_code = n, er_stdout = [], er_stderr = [], er_duration = 0\<rparr>, n - 1)) k 1 = (rs, s') \<and>
     fst (retry_run (\<lambda>n :: int. (\<lparr>er_exit_code = n, er_stdout = [], er_stderr = [], er_duration = 0\<rparr>, n - 1))
       (new_retry_helper 3) 1) = Some (last rs) \<and> (er_ok (last rs) \<or> int k = 3)"
  using retry_run_correct [of 3 "\<lambda>n :: int. (\<lparr>er_exit_code = n, er_stdout = [], er_stderr = [], er_duration = 0\<rparr>, n - 1)" 1]
  by fastforce

text \<open>
  The command line and the marker are not in a priority order: the larger of the two counts decides, so a
  marker cannot lower the number of retries given on the command line.
\<close>

theorem retry_count_is_max:
  "0 \<le> cli \<Longrightarrow> rh_max_attempts (retry_fixture cli (Some mark)) = 1 + max cli mark"
  by (simp add: retry_fixture_def new_retry_helper_def)

theorem retry_count_is_max_witness:
  "rh_max_attempts (retry_fixture 5 (Some 1)) = 6"
  using retry_count_is_max [of 5 1] by simp

end
