(* ===== verification/BackgroundProc.thy ===== *)
theory BackgroundProc
  imports Helpers
begin

text \<open>
  \<open>framework/executors/background_process.py\<close>: the bounded capture buffer, the graceful kill, the blocking
  runner behind \<open>LocalExecutor.run\<close> and \<open>CpuExecutor.run\<close>, the reader thread and the handles of background
  processes. The operating system is a record of functions over an abstract state: process control,
  \<open>select\<close>, non-blocking reads, the clock, and \<open>bytes.decode\<close>. The type of a byte is a
  parameter. The reader thread takes turns (one iteration of its loop each); \<open>stop\<close> says where they fall.
\<close>

subsection \<open>The bounded capture buffer\<close>

record 'b bounded_chunks =
  bc_chunks :: "'b list list"
  bc_total :: int
  bc_max :: int
  bc_truncated :: bool

definition max_capture_bytes :: int where
  "max_capture_bytes = 16 * 1024 * 1024"

definition new_chunks :: "int \<Rightarrow> 'b bounded_chunks" where
  "new_chunks m = \<lparr>bc_chunks = [], bc_total = 0, bc_max = m, bc_truncated = False\<rparr>"

text \<open>\<open>while self._total > self._max and len(self._chunks) > 1\<close>: drop the oldest chunk.\<close>

function evict :: "'b bounded_chunks \<Rightarrow> 'b bounded_chunks" where
  "evict b =
     (case bc_chunks b of
        c # d # cs \<Rightarrow>
          if bc_total b > bc_max b
          then evict (b\<lparr>bc_chunks := d # cs, bc_total := bc_total b - int (length c), bc_truncated := True\<rparr>)
          else b
      | _ \<Rightarrow> b)"
  by pat_completeness auto
termination by (relation "measure (\<lambda>b. length (bc_chunks b))") auto

declare evict.simps [simp del]

definition chunks_append :: "'b list \<Rightarrow> 'b bounded_chunks \<Rightarrow> 'b bounded_chunks" where
  "chunks_append chunk b =
     evict (b\<lparr>bc_chunks := bc_chunks b @ [chunk], bc_total := bc_total b + int (length chunk)\<rparr>)"

text \<open>
  What the buffer is meant to hold: the longest tail of the chunks that fits, and the last chunk in any case.
\<close>

fun tail_within :: "int \<Rightarrow> 'b list list \<Rightarrow> 'b list list" where
  "tail_within m (c # d # cs) =
     (if int (length (concat (c # d # cs))) > m then tail_within m (d # cs) else c # d # cs)"
| "tail_within m cs = cs"

definition bc_inv :: "'b bounded_chunks \<Rightarrow> bool" where
  "bc_inv b \<longleftrightarrow> bc_total b = int (length (concat (bc_chunks b)))"

lemma tail_within_suffix: "\<exists>n. tail_within m cs = drop n cs"
proof (induction m cs rule: tail_within.induct)
  case (1 m c d cs)
  show ?case
  proof (cases "int (length (concat (c # d # cs))) > m")
    case True
    with 1 obtain n where "tail_within m (d # cs) = drop n (d # cs)" by blast
    with True show ?thesis by (intro exI [of _ "Suc n"]) simp
  next
    case False
    then show ?thesis by (intro exI [of _ 0]) simp
  qed
qed (rule exI [of _ 0], simp)+

lemma tail_within_length: "length (tail_within m cs) \<le> length cs"
  by (induction m cs rule: tail_within.induct) auto

lemma evict_tail_within:
  "bc_inv b \<Longrightarrow> evict b = b\<lparr>bc_chunks := tail_within (bc_max b) (bc_chunks b),
      bc_total := int (length (concat (tail_within (bc_max b) (bc_chunks b)))),
      bc_truncated := bc_truncated b \<or> tail_within (bc_max b) (bc_chunks b) \<noteq> bc_chunks b\<rparr>"
proof (induction b rule: evict.induct)
  case (1 b)
  show ?case
  proof (cases "\<exists>c d cs. bc_chunks b = c # d # cs \<and> bc_total b > bc_max b")
    case True
    then obtain c d cs where b: "bc_chunks b = c # d # cs" "bc_total b > bc_max b" by blast
    let ?b = "b\<lparr>bc_chunks := d # cs, bc_total := bc_total b - int (length c), bc_truncated := True\<rparr>"
    have "bc_inv ?b" using 1(2) b(1) by (simp add: bc_inv_def)
    with 1(1) [OF b(1) refl b(2)] have "evict ?b = ?b\<lparr>bc_chunks := tail_within (bc_max b) (d # cs),
        bc_total := int (length (concat (tail_within (bc_max b) (d # cs)))), bc_truncated := True\<rparr>" by simp
    moreover have "tail_within (bc_max b) (d # cs) \<noteq> c # d # cs"
      using tail_within_length [of "bc_max b" "d # cs"] by (metis Suc_n_not_le_n length_Cons)
    moreover have "tail_within (bc_max b) (c # d # cs) = tail_within (bc_max b) (d # cs)"
      using b 1(2) by (simp add: bc_inv_def)
    moreover have "evict b = evict ?b" using b by (subst evict.simps) simp
    ultimately show ?thesis using b by simp
  next
    case False
    then have "evict b = b"
      by (subst evict.simps) (auto split: list.splits)
    moreover have "tail_within (bc_max b) (bc_chunks b) = bc_chunks b"
      using False 1(2) by (cases "(bc_max b, bc_chunks b)" rule: tail_within.cases) (auto simp: bc_inv_def)
    ultimately show ?thesis using 1(2) by (simp add: bc_inv_def)
  qed
qed

lemma tail_within_snoc: "tail_within m (tail_within m cs @ [c]) = tail_within m (cs @ [c])"
proof (induction m cs rule: tail_within.induct)
  case (1 m a d cs)
  then show ?case by auto
qed simp_all

lemma append_inv: "bc_inv b \<Longrightarrow> bc_inv (chunks_append c b)"
  by (simp add: chunks_append_def evict_tail_within bc_inv_def)

text \<open>The chunks appended one after the other.\<close>

definition capture :: "int \<Rightarrow> 'b list list \<Rightarrow> 'b bounded_chunks" where
  "capture m cs = fold chunks_append cs (new_chunks m)"

lemma capture_eq:
  "capture m cs = \<lparr>bc_chunks = tail_within m cs, bc_total = int (length (concat (tail_within m cs))), bc_max = m,
     bc_truncated = (tail_within m cs \<noteq> cs)\<rparr>"
proof (induction cs rule: rev_induct)
  case Nil
  show ?case by (simp add: capture_def new_chunks_def)
next
  case (snoc c cs)
  have "tail_within m (cs @ [c]) = cs @ [c]" if "tail_within m (tail_within m cs @ [c]) = tail_within m cs @ [c]"
    "tail_within m cs = cs" using that by simp
  moreover have "tail_within m (cs @ [c]) \<noteq> cs @ [c]" if "tail_within m cs \<noteq> cs"
  proof -
    have "length (tail_within m cs) < length cs"
      using that tail_within_suffix [of m cs] by (metis diff_less drop_0 drop_Nil length_drop length_greater_0_conv neq0_conv)
    then have "length (tail_within m (cs @ [c])) < length (cs @ [c])"
      using tail_within_length [of m "tail_within m cs @ [c]"] by (simp add: tail_within_snoc)
    then show ?thesis by auto
  qed
  ultimately show ?case
    using snoc by (auto simp: capture_def chunks_append_def evict_tail_within bc_inv_def tail_within_snoc)
qed

lemma tail_within_fits: "int (length (concat (tail_within m cs))) \<le> m \<or> length (tail_within m cs) \<le> 1"
  by (induction m cs rule: tail_within.induct) auto

lemma tail_within_longest:
  "\<exists>n. tail_within m cs = drop n cs \<and> n \<le> length cs - 1 \<and> (n > 0 \<longleftrightarrow> tail_within m cs \<noteq> cs) \<and>
     (\<forall>k < n. m < int (length (concat (drop k cs))))"
proof (induction m cs rule: tail_within.induct)
  case (1 m c d cs)
  show ?case
  proof (cases "int (length (concat (c # d # cs))) > m")
    case True
    with 1 obtain n where n: "tail_within m (d # cs) = drop n (d # cs)"
      "\<forall>k < n. m < int (length (concat (drop k (d # cs))))" "n \<le> length cs" by auto
    have "tail_within m (d # cs) \<noteq> c # d # cs"
      using tail_within_length [of m "d # cs"] by (metis Suc_n_not_le_n length_Cons)
    moreover have "m < int (length (concat (drop k (c # d # cs))))" if "k < Suc n" for k
      using that n(2) True by (cases k) simp_all
    ultimately show ?thesis using True n(1,3) by (intro exI [of _ "Suc n"]) simp
  next
    case False
    then show ?thesis by (intro exI [of _ 0]) simp
  qed
qed (rule exI [of _ 0], simp)+

text \<open>
  C17. \<open>_BoundedChunks\<close> keeps exactly what it promises, however the output is cut into chunks: after any
  sequence of \<open>append\<close> calls it holds the longest tail of the chunks that fits into the cap and, in any case, the last
  chunk, also when this chunk alone is larger than the cap; its running total is the size of what it holds, and
  \<open>truncated\<close> is set exactly when a chunk was dropped.
\<close>

theorem capture_keeps_tail:
  "\<exists>n. bc_chunks (capture m cs) = drop n cs \<and> n \<le> length cs - 1 \<and>
     bc_total (capture m cs) = int (length (concat (drop n cs))) \<and>
     (bc_total (capture m cs) \<le> m \<or> length (drop n cs) \<le> 1) \<and>
     (bc_truncated (capture m cs) \<longleftrightarrow> n > 0) \<and>
     (\<forall>k < n. m < int (length (concat (drop k cs))))"
proof -
  obtain n where "tail_within m cs = drop n cs" "n \<le> length cs - 1" "n > 0 \<longleftrightarrow> tail_within m cs \<noteq> cs"
    "\<forall>k < n. m < int (length (concat (drop k cs)))"
    using tail_within_longest by blast
  then show ?thesis using tail_within_fits [of m cs] by (intro exI [of _ n]) (simp add: capture_eq)
qed

theorem capture_keeps_tail_witness:
  "\<exists>n. bc_chunks (capture 4 [''ab'', ''cde'', ''f'', ''gh'']) = drop n [''ab'', ''cde'', ''f'', ''gh''] \<and>
     drop n [''ab'', ''cde'', ''f'', ''gh''] = [''f'', ''gh'']"
proof -
  have "bc_chunks (capture 4 [''ab'', ''cde'', ''f'', ''gh'']) = [''f'', ''gh'']" by code_simp
  with capture_keeps_tail [of 4 "[''ab'', ''cde'', ''f'', ''gh'']"] show ?thesis by metis
qed

subsection \<open>Processes\<close>

datatype stream = Out | Err

text \<open>
  What \<open>subprocess.Popen\<close>, \<open>select\<close>, \<open>open\<close> and \<open>time\<close> offer the module. \<open>pa_poll\<close> is the exit code
  once the process has ended; \<open>pa_select d\<close> waits up to \<open>d\<close> seconds and says which pipes are readable;
  \<open>pa_read\<close> is a non-blocking read, with an empty list both for "no data" and for the end of the stream and
  \<open>None\<close> when it raises \<open>OSError\<close> or \<open>ValueError\<close>; \<open>pa_terminate\<close> sends \<open>SIGTERM\<close>
  and is false when that raises \<open>ProcessLookupError\<close>; \<open>pa_wait_for\<close> waits with a timeout and is \<open>None\<close> when it
  expires.
\<close>

record ('s, 'b) process_api =
  pa_clock :: "'s \<Rightarrow> rat"
  pa_popen :: "string \<Rightarrow> (string \<times> string) list \<Rightarrow> string option \<Rightarrow> 's \<Rightarrow> bool \<times> 's"
  pa_open_log :: "string \<Rightarrow> 's \<Rightarrow> bool \<times> 's"
  pa_pid :: "'s \<Rightarrow> int"
  pa_poll :: "'s \<Rightarrow> int option"
  pa_select :: "rat \<Rightarrow> 's \<Rightarrow> (stream \<Rightarrow> bool) \<times> 's"
  pa_read :: "stream \<Rightarrow> 's \<Rightarrow> 'b list option \<times> 's"
  pa_terminate :: "'s \<Rightarrow> bool \<times> 's"
  pa_wait_for :: "rat \<Rightarrow> 's \<Rightarrow> int option \<times> 's"
  pa_kill :: "'s \<Rightarrow> 's"
  pa_wait :: "'s \<Rightarrow> int \<times> 's"
  pa_decode :: "'b list \<Rightarrow> string"

text \<open>
  The contract of process control: a process that has ended stays ended with its exit code; after
  a successful wait, and after \<open>ProcessLookupError\<close>, it has ended; \<open>wait\<close> returns the exit code.
\<close>

definition ended_stays :: "('s, 'b) process_api \<Rightarrow> ('s \<Rightarrow> 's) \<Rightarrow> bool" where
  "ended_stays api f \<longleftrightarrow> (\<forall>s rc. pa_poll api s = Some rc \<longrightarrow> pa_poll api (f s) = Some rc)"

definition process_ok :: "('s, 'b) process_api \<Rightarrow> bool" where
  "process_ok api \<longleftrightarrow>
     (\<forall>d. ended_stays api (\<lambda>s. snd (pa_select api d s))) \<and>
     (\<forall>c. ended_stays api (\<lambda>s. snd (pa_read api c s))) \<and>
     (\<forall>s. \<not> fst (pa_terminate api s) \<longrightarrow> pa_poll api (snd (pa_terminate api s)) \<noteq> None) \<and>
     (\<forall>d s. fst (pa_wait_for api d s) \<noteq> None \<longrightarrow> pa_poll api (snd (pa_wait_for api d s)) = fst (pa_wait_for api d s)) \<and>
     (\<forall>s. pa_poll api (snd (pa_wait api s)) = Some (fst (pa_wait api s))) \<and>
     (\<forall>s rc. pa_poll api s = Some rc \<longrightarrow> fst (pa_wait api s) = rc)"

text \<open>
  Reading takes from a pipe what it returns; \<open>got c s\<close> is what has been read from pipe \<open>c\<close> of the process
  last started.
\<close>

definition pipes_ok :: "('s, 'b) process_api \<Rightarrow> (stream \<Rightarrow> 's \<Rightarrow> 'b list) \<Rightarrow> bool" where
  "pipes_ok api got \<longleftrightarrow>
     (\<forall>c d s. got c (snd (pa_select api d s)) = got c s) \<and>
     (\<forall>c s. got c (snd (pa_terminate api s)) = got c s) \<and>
     (\<forall>c d s. got c (snd (pa_wait_for api d s)) = got c s) \<and>
     (\<forall>c s. got c (pa_kill api s) = got c s) \<and>
     (\<forall>c s. got c (snd (pa_wait api s)) = got c s) \<and>
     (\<forall>c p s. got c (snd (pa_open_log api p s)) = got c s) \<and>
     (\<forall>c cmd env cwd s. fst (pa_popen api cmd env cwd s) \<longrightarrow> got c (snd (pa_popen api cmd env cwd s)) = []) \<and>
     (\<forall>c c' s. got c' (snd (pa_read api c s)) =
        got c' s @ (if c' = c then case fst (pa_read api c s) of None \<Rightarrow> [] | Some xs \<Rightarrow> xs else []))"

text \<open>
  \<open>unread c s\<close> is what the process has written to pipe \<open>c\<close> and what is still in the pipe. Once the process has ended a
  read that does not raise returns all of it and empties the pipe, and nothing is added to the pipes any more.
\<close>

definition drains :: "('s, 'b) process_api \<Rightarrow> (stream \<Rightarrow> 's \<Rightarrow> 'b list) \<Rightarrow> bool" where
  "drains api unread \<longleftrightarrow>
     (\<forall>c s xs s'. pa_poll api s \<noteq> None \<and> pa_read api c s = (Some xs, s') \<longrightarrow>
        xs = unread c s \<and> unread c s' = [] \<and> (\<forall>c'. c' \<noteq> c \<longrightarrow> unread c' s' = unread c' s)) \<and>
     (\<forall>c s. pa_poll api s \<noteq> None \<longrightarrow> unread c (snd (pa_wait api s)) = unread c s)"

text \<open>Where the output is copied to: the console of this process and the log file.\<close>

record 'b sinks =
  sk_console_out :: "'b list"
  sk_console_err :: "'b list"
  sk_log :: "'b list"

definition console_write :: "stream \<Rightarrow> 'b list \<Rightarrow> 'b sinks \<Rightarrow> 'b sinks" where
  "console_write c xs k =
     (case c of Out \<Rightarrow> k\<lparr>sk_console_out := sk_console_out k @ xs\<rparr> | Err \<Rightarrow> k\<lparr>sk_console_err := sk_console_err k @ xs\<rparr>)"

definition bg_pipe_write :: "'b list \<Rightarrow> stream option \<Rightarrow> bool \<Rightarrow> 'b sinks \<Rightarrow> 'b sinks" where
  "bg_pipe_write chunk console_target log_fh k =
     (let k = (case console_target of None \<Rightarrow> k | Some c \<Rightarrow> console_write c chunk k)
      in if log_fh then k\<lparr>sk_log := sk_log k @ chunk\<rparr> else k)"

definition bg_graceful_kill :: "('s, 'b) process_api \<Rightarrow> rat \<Rightarrow> 's \<Rightarrow> 's" where
  "bg_graceful_kill api grace_secs s =
     (case pa_terminate api s of
        (False, s) \<Rightarrow> s
      | (True, s) \<Rightarrow>
          (case pa_wait_for api grace_secs s of
             (Some rc, s) \<Rightarrow> s
           | (None, s) \<Rightarrow> snd (pa_wait api (pa_kill api s))))"

lemma bg_graceful_kill_ends: "process_ok api \<Longrightarrow> pa_poll api (bg_graceful_kill api g s) \<noteq> None"
  unfolding process_ok_def bg_graceful_kill_def
  by (auto split: prod.split bool.split option.split) (metis fst_conv snd_conv option.distinct(1))+

lemma bg_graceful_kill_got: "pipes_ok api got \<Longrightarrow> got c (bg_graceful_kill api g s) = got c s"
  unfolding pipes_ok_def bg_graceful_kill_def
  by (auto split: prod.split bool.split option.split) (metis snd_conv)+

text \<open>The clock does not run backwards, and a call of \<open>select\<close> takes at least \<open>tick\<close> seconds.\<close>

definition clock_ok :: "('s, 'b) process_api \<Rightarrow> rat \<Rightarrow> bool" where
  "clock_ok api tick \<longleftrightarrow> 0 < tick \<and>
     (\<forall>d s. pa_clock api s + tick \<le> pa_clock api (snd (pa_select api d s))) \<and>
     (\<forall>c s. pa_clock api s \<le> pa_clock api (snd (pa_read api c s))) \<and>
     (\<forall>s. pa_clock api s \<le> pa_clock api (snd (pa_terminate api s))) \<and>
     (\<forall>d s. pa_clock api s \<le> pa_clock api (snd (pa_wait_for api d s))) \<and>
     (\<forall>s. pa_clock api s \<le> pa_clock api (pa_kill api s)) \<and>
     (\<forall>s. pa_clock api s \<le> pa_clock api (snd (pa_wait api s))) \<and>
     (\<forall>p s. pa_clock api s \<le> pa_clock api (snd (pa_open_log api p s)))"

lemma bg_graceful_kill_clock: "clock_ok api tick \<Longrightarrow> pa_clock api s \<le> pa_clock api (bg_graceful_kill api g s)"
  unfolding clock_ok_def bg_graceful_kill_def
  by (auto split: prod.split bool.split option.split) (metis snd_conv order_trans)+

text \<open>
  A reader's state: the process, the two buffers and the sinks. \<open>pump\<close> reads one pipe, copies what
  arrived to the sinks and adds it to the buffer; the result is false when the read raised.
\<close>

record ('s, 'b, 'buf) streaming =
  st_os :: 's
  st_buf :: "stream \<Rightarrow> 'buf"
  st_sinks :: "'b sinks"

definition console_of :: "bool \<Rightarrow> bool \<Rightarrow> stream \<Rightarrow> stream option" where
  "console_of stream_stdout stream_stderr c =
     (case c of Out \<Rightarrow> if stream_stdout then Some Out else None | Err \<Rightarrow> if stream_stderr then Some Err else None)"

definition pump ::
  "('s, 'b) process_api \<Rightarrow> ('b list \<Rightarrow> 'buf \<Rightarrow> 'buf) \<Rightarrow> (stream \<Rightarrow> stream option) \<Rightarrow> bool \<Rightarrow> stream
     \<Rightarrow> ('s, 'b, 'buf) streaming \<Rightarrow> bool \<times> ('s, 'b, 'buf) streaming" where
  "pump api add console log_fh c st =
     (case pa_read api c (st_os st) of
        (None, s) \<Rightarrow> (False, st\<lparr>st_os := s\<rparr>)
      | (Some chunk, s) \<Rightarrow>
          (True, if chunk = [] then st\<lparr>st_os := s\<rparr>
                 else st\<lparr>st_os := s, st_buf := (st_buf st)(c := add chunk (st_buf st c)),
                         st_sinks := bg_pipe_write chunk (console c) log_fh (st_sinks st)\<rparr>))"

fun pump_all ::
  "('s, 'b) process_api \<Rightarrow> ('b list \<Rightarrow> 'buf \<Rightarrow> 'buf) \<Rightarrow> (stream \<Rightarrow> stream option) \<Rightarrow> bool \<Rightarrow> stream list
     \<Rightarrow> ('s, 'b, 'buf) streaming \<Rightarrow> bool \<times> ('s, 'b, 'buf) streaming" where
  "pump_all api add console log_fh [] st = (True, st)"
| "pump_all api add console log_fh (c # cs) st =
     (case pump api add console log_fh c st of
        (False, st) \<Rightarrow> (False, st)
      | (True, st) \<Rightarrow> pump_all api add console log_fh cs st)"

subsection \<open>The blocking runner\<close>

text \<open>One iteration of the loop of \<open>_blocking_stream_run\<close>.\<close>

definition stream_turn ::
  "('s, 'b) process_api \<Rightarrow> (stream \<Rightarrow> stream option) \<Rightarrow> bool \<Rightarrow> rat \<Rightarrow> rat
     \<Rightarrow> ('s, 'b, 'b list) streaming \<Rightarrow> (py_error + unit) option \<times> ('s, 'b, 'b list) streaming" where
  "stream_turn api console log_fh t0 timeout st =
     (let add = (\<lambda>chunk buf. buf @ chunk); elapsed = pa_clock api (st_os st) - t0
      in if elapsed \<ge> timeout
         then (Some (Inl TimeoutError), st\<lparr>st_os := bg_graceful_kill api 30 (st_os st)\<rparr>)
         else
           (case pa_select api (min (max (timeout - elapsed) (1 / 10)) 5) (st_os st) of
              (ready, s) \<Rightarrow>
                (case pump_all api add console log_fh (filter ready [Out, Err]) (st\<lparr>st_os := s\<rparr>) of
                   (False, st) \<Rightarrow> (Some (Inl OSError), st)
                 | (True, st) \<Rightarrow>
                     if pa_poll api (st_os st) \<noteq> None
                     then (case pump_all api add console log_fh [Out, Err] st of
                             (ok, st) \<Rightarrow> (Some (if ok then Inr () else Inl OSError), st))
                     else (None, st))))"

definition py_rstrip :: "string \<Rightarrow> string" where
  "py_rstrip s = rstrip_by is_space s"

text \<open>\<open>open(log_path, "ab") if log_path else None\<close>: no file for \<open>None\<close> and for the empty path.\<close>

definition open_log :: "('s, 'b) process_api \<Rightarrow> string option \<Rightarrow> 's \<Rightarrow> (py_error + bool) \<times> 's" where
  "open_log api log_path s =
     (case log_path of
        Some (c # p) \<Rightarrow> (case pa_open_log api (c # p) s of (ok, s) \<Rightarrow> (if ok then Inr True else Inl OSError, s))
      | _ \<Rightarrow> (Inr False, s))"

definition blocking_stream_run ::
  "('s, 'b) process_api \<Rightarrow> string \<Rightarrow> (string \<times> string) list \<Rightarrow> string option \<Rightarrow> rat \<Rightarrow> bool \<Rightarrow> bool \<Rightarrow> string option
     \<Rightarrow> 's \<Rightarrow> 'b sinks \<Rightarrow> ((py_error + execution_result) \<times> 's \<times> 'b sinks) option" where
  "blocking_stream_run api command env cwd timeout stream_stdout stream_stderr log_path s k =
     (case pa_popen api command env cwd s of
        (False, s) \<Rightarrow> Some (Inl OSError, s, k)
      | (True, s) \<Rightarrow>
          let t0 = pa_clock api s
          in (case open_log api log_path s of
                (Inl e, s) \<Rightarrow> Some (Inl e, s, k)
              | (Inr log_fh, s) \<Rightarrow>
                  map_option
                    (\<lambda>(r, st). case r of
                       Some (Inl e) \<Rightarrow> (Inl e, st_os st, st_sinks st)
                     | _ \<Rightarrow>
                         (case pa_wait api (st_os st) of
                            (rc, s) \<Rightarrow>
                              (Inr \<lparr>er_exit_code = rc, er_stdout = py_rstrip (pa_decode api (st_buf st Out)),
                                    er_stderr = py_rstrip (pa_decode api (st_buf st Err)),
                                    er_duration = pa_clock api s - t0\<rparr>, s, st_sinks st)))
                    (poll (stream_turn api (console_of stream_stdout stream_stderr) log_fh t0 timeout)
                       (\<lambda>_. False) (\<lambda>_ st. st) 0
                       \<lparr>st_os = s, st_buf = (\<lambda>_. []), st_sinks = k\<rparr>)))"

text \<open>What pumping keeps: the time, the end of the process, and that a buffer is what its pipe gave.\<close>

lemma pump_clock: "clock_ok api tick \<Longrightarrow> pa_clock api (st_os st) \<le> pa_clock api (st_os (snd (pump api add con lg c st)))"
  unfolding clock_ok_def pump_def by (auto split: prod.split option.split) (metis snd_conv)+

lemma pump_all_clock:
  "clock_ok api tick \<Longrightarrow> pa_clock api (st_os st) \<le> pa_clock api (st_os (snd (pump_all api add con lg cs st)))"
proof (induction cs arbitrary: st)
  case (Cons c cs)
  show ?case
    using pump_clock [OF Cons.prems, of st add con lg c] Cons.IH [OF Cons.prems]
    by (auto split: prod.split bool.split intro: order_trans)
qed simp

lemma pump_ended:
  "process_ok api \<Longrightarrow> pa_poll api (st_os st) = Some rc \<Longrightarrow> pa_poll api (st_os (snd (pump api add con lg c st))) = Some rc"
  unfolding process_ok_def ended_stays_def pump_def by (auto split: prod.split option.split) (metis snd_conv)+

lemma pump_all_ended:
  "process_ok api \<Longrightarrow> pa_poll api (st_os st) = Some rc \<Longrightarrow>
     pa_poll api (st_os (snd (pump_all api add con lg cs st))) = Some rc"
proof (induction cs arbitrary: st)
  case (Cons c cs)
  have "pa_poll api (st_os (snd (pump api add con lg c st))) = Some rc" by (rule pump_ended [OF Cons.prems])
  with Cons.IH [OF Cons.prems(1)] show ?case by (simp add: case_prod_beta split: bool.split)
qed simp

text \<open>The buffers of the blocking runner hold exactly the bytes read.\<close>

definition buffers_match :: "(stream \<Rightarrow> 's \<Rightarrow> 'b list) \<Rightarrow> ('s, 'b, 'b list) streaming \<Rightarrow> bool" where
  "buffers_match got st \<longleftrightarrow> (\<forall>c. st_buf st c = got c (st_os st))"

lemma pump_match:
  assumes "pipes_ok api got" and "buffers_match got st"
  shows "buffers_match got (snd (pump api (\<lambda>chunk buf. buf @ chunk) con lg c st))"
proof -
  have "got c' (snd (pa_read api c (st_os st))) =
      got c' (st_os st) @ (if c' = c then case fst (pa_read api c (st_os st)) of None \<Rightarrow> [] | Some xs \<Rightarrow> xs else [])" for c'
    using assms(1) unfolding pipes_ok_def by blast
  then show ?thesis
    using assms(2) by (cases "pa_read api c (st_os st)") (auto simp: pump_def buffers_match_def split: option.splits)
qed

lemma pump_all_match:
  "pipes_ok api got \<Longrightarrow> buffers_match got st \<Longrightarrow>
     buffers_match got (snd (pump_all api (\<lambda>chunk buf. buf @ chunk) con lg cs st))"
proof (induction cs arbitrary: st)
  case (Cons c cs)
  have "buffers_match got (snd (pump api (\<lambda>chunk buf. buf @ chunk) con lg c st))" by (rule pump_match [OF Cons.prems])
  with Cons show ?case by (auto split: prod.split bool.split)
qed simp

text \<open>On an interface whose clock runs, the loop of the runner keeps the contract of a loop that watches the clock.\<close>

locale timed_processes =
  fixes api :: "('s, 'b) process_api" and tick :: rat
  assumes clock_runs: "clock_ok api tick"

sublocale timed_processes \<subseteq> runner: ticking "stream_turn api con lg t0 timeout" "\<lambda>st. pa_clock api (st_os st)" "t0 + timeout" tick
  for con lg t0 timeout
proof
  note assms = clock_runs
  show "0 < tick" using assms by (simp add: clock_ok_def)
  show "fst (stream_turn api con lg t0 timeout st) \<noteq> None" if "t0 + timeout \<le> pa_clock api (st_os st)" for st
    using that by (simp add: stream_turn_def Let_def algebra_simps)
  fix st st' assume turn: "stream_turn api con lg t0 timeout st = (None, st')"
  obtain ready s where sel: "pa_select api (min (max (timeout - (pa_clock api (st_os st) - t0)) (1 / 10)) 5) (st_os st)
      = (ready, s)" by (cases "pa_select api (min (max (timeout - (pa_clock api (st_os st) - t0)) (1 / 10)) 5) (st_os st)")
  have "pa_clock api (st_os st) + tick \<le> pa_clock api s"
    using assms sel unfolding clock_ok_def by (metis snd_conv)
  moreover have "st' = snd (pump_all api (\<lambda>chunk buf. buf @ chunk) con lg (filter ready [Out, Err]) (st\<lparr>st_os := s\<rparr>))"
    using turn sel by (auto simp: stream_turn_def Let_def split: if_splits prod.splits bool.splits)
  ultimately show "pa_clock api (st_os st) + tick \<le> pa_clock api (st_os st')"
    using pump_all_clock [OF assms, of "st\<lparr>st_os := s\<rparr>" "\<lambda>chunk buf. buf @ chunk" con lg "filter ready [Out, Err]"]
    by (simp del: pump_all.simps filter.simps)
qed

context timed_processes
begin

lemma runner_decides: "\<exists>r t. poll (stream_turn api con lg t0 timeout) (\<lambda>_. False) (\<lambda>_ st. st) n st = Some (Some r, t)"
  by (rule runner.decides)

end

text \<open>What one turn of the runner does, by the outcome of the turn.\<close>

lemma stream_turn_cases:
  assumes proc: "process_ok api" and pipes: "pipes_ok api got" and clk: "clock_ok api tick"
    and match: "buffers_match got st" and turn: "stream_turn api con lg t0 timeout st = (r, st')"
  shows "buffers_match got st' \<and> (r = Some (Inr ()) \<longrightarrow> pa_poll api (st_os st') \<noteq> None) \<and>
    (r = Some (Inl TimeoutError) \<longrightarrow>
       t0 + timeout \<le> pa_clock api (st_os st') \<and> pa_poll api (st_os st') \<noteq> None) \<and>
    (\<forall>e. r = Some (Inl e) \<longrightarrow> e = OSError \<or> e = TimeoutError)"
proof (cases "t0 + timeout \<le> pa_clock api (st_os st)")
  case True
  then have r: "r = Some (Inl TimeoutError)" "st' = st\<lparr>st_os := bg_graceful_kill api 30 (st_os st)\<rparr>"
    using turn by (auto simp: stream_turn_def Let_def algebra_simps)
  have "buffers_match got st'"
    using match bg_graceful_kill_got [OF pipes] by (simp add: buffers_match_def r)
  moreover have "t0 + timeout \<le> pa_clock api (st_os st')"
    using True bg_graceful_kill_clock [OF clk, of "st_os st" 30] by (simp add: r)
  ultimately show ?thesis using bg_graceful_kill_ends [OF proc] by (simp add: r)
next
  case False
  let ?add = "\<lambda>chunk buf. buf @ chunk"
  obtain ready s where sel: "pa_select api (min (max (timeout - (pa_clock api (st_os st) - t0)) (1 / 10)) 5) (st_os st)
      = (ready, s)" by (cases "pa_select api (min (max (timeout - (pa_clock api (st_os st) - t0)) (1 / 10)) 5) (st_os st)")
  obtain ok st1 where p1: "pump_all api ?add con lg (filter ready [Out, Err]) (st\<lparr>st_os := s\<rparr>) = (ok, st1)"
    by (cases "pump_all api ?add con lg (filter ready [Out, Err]) (st\<lparr>st_os := s\<rparr>)")
  obtain ok' st2 where p2: "pump_all api ?add con lg [Out, Err] st1 = (ok', st2)"
    by (cases "pump_all api ?add con lg [Out, Err] st1")
  have "got c s = got c (st_os st)" for c using pipes sel unfolding pipes_ok_def by (metis snd_conv)
  then have "buffers_match got (st\<lparr>st_os := s\<rparr>)" using match by (simp add: buffers_match_def)
  then have m1: "buffers_match got st1" using pump_all_match [OF pipes] p1 by (metis snd_conv)
  then have m2: "buffers_match got st2" using pump_all_match [OF pipes] p2 by (metis snd_conv)
  have e: "pa_poll api (st_os st2) \<noteq> None" if "pa_poll api (st_os st1) \<noteq> None"
    using that pump_all_ended [OF proc] p2 by (metis option.exhaust option.distinct(1) snd_conv)
  have "(r, st') = (if \<not> ok then (Some (Inl OSError), st1)
      else if pa_poll api (st_os st1) \<noteq> None then (Some (if ok' then Inr () else Inl OSError), st2) else (None, st1))"
    using turn [symmetric] False sel p1 p2
    by (cases ok) (auto simp: stream_turn_def Let_def algebra_simps simp del: pump_all.simps)
  then show ?thesis using m1 m2 e by (auto split: if_splits)
qed

lemma pump_fails: "pump api add con lg c st = (False, st') \<Longrightarrow> pa_read api c (st_os st) = (None, st_os st')"
  by (auto simp: pump_def split: prod.splits option.splits)

lemma pump_all_fails: "pump_all api add con lg cs st = (False, st') \<Longrightarrow> \<exists>c u. pa_read api c u = (None, st_os st')"
  by (induction cs arbitrary: st) (auto split: prod.splits bool.splits dest: pump_fails)

lemma stream_turn_os_error:
  assumes "stream_turn api con lg t0 timeout st = (Some (Inl OSError), st')"
  shows "\<exists>c u. pa_read api c u = (None, st_os st')"
  using assms by (auto simp: stream_turn_def Let_def simp del: pump_all.simps filter.simps
      split: if_splits prod.splits bool.splits dest: pump_all_fails)

text \<open>The reads that follow the end of the process empty both pipes.\<close>

lemma pump_drains:
  assumes drain: "drains api unread" and ended: "pa_poll api (st_os st) \<noteq> None" and ok: "pump api add con lg c st = (True, st')"
  shows "unread c (st_os st') = []" and "c' \<noteq> c \<Longrightarrow> unread c' (st_os st') = unread c' (st_os st)"
proof -
  obtain xs where "pa_read api c (st_os st) = (Some xs, st_os st')"
    using ok by (auto simp: pump_def split: prod.splits option.splits)
  with drain ended have "unread c (st_os st') = [] \<and> (\<forall>c'. c' \<noteq> c \<longrightarrow> unread c' (st_os st') = unread c' (st_os st))"
    unfolding drains_def by blast
  then show "unread c (st_os st') = []" "c' \<noteq> c \<Longrightarrow> unread c' (st_os st') = unread c' (st_os st)" by blast+
qed

lemma final_drain:
  assumes proc: "process_ok api" and drain: "drains api unread" and ended: "pa_poll api (st_os st) \<noteq> None"
    and ok: "pump_all api add con lg [Out, Err] st = (True, st')"
  shows "unread c (st_os st') = []"
proof -
  obtain st1 where 1: "pump api add con lg Out st = (True, st1)" and 2: "pump api add con lg Err st1 = (True, st')"
    using ok by (auto split: prod.splits bool.splits)
  have "pa_poll api (st_os st1) \<noteq> None" using pump_ended [OF proc, of st] 1 ended by (metis not_None_eq snd_conv)
  from pump_drains [OF drain this 2] pump_drains(1) [OF drain ended 1] show ?thesis by (cases c) auto
qed

lemma stream_turn_drained:
  assumes proc: "process_ok api" and drain: "drains api unread"
    and turn: "stream_turn api con lg t0 timeout st = (Some (Inr ()), st')"
  shows "unread c (st_os st') = [] \<and> pa_poll api (st_os st') \<noteq> None"
proof -
  obtain st1 where ended: "pa_poll api (st_os st1) \<noteq> None"
    and p: "pump_all api (\<lambda>chunk buf. buf @ chunk) con lg [Out, Err] st1 = (True, st')"
    using turn by (auto simp: stream_turn_def Let_def simp del: pump_all.simps filter.simps
        split: if_splits prod.splits bool.splits)
  have "pa_poll api (st_os st') \<noteq> None"
    using pump_all_ended [OF proc, of st1] p ended by (metis not_None_eq snd_conv)
  with final_drain [OF proc drain ended p] show ?thesis by blast
qed

lemma open_log_got: "pipes_ok api got \<Longrightarrow> got c (snd (open_log api log_path s)) = got c s"
  unfolding pipes_ok_def open_log_def by (auto split: option.split list.split prod.split) (metis snd_conv)

lemma open_log_clock: "clock_ok api tick \<Longrightarrow> pa_clock api s \<le> pa_clock api (snd (open_log api log_path s))"
  unfolding clock_ok_def open_log_def by (auto split: option.split list.split prod.split) (metis snd_conv)

lemma open_log_error: "fst (open_log api log_path s) = Inl e \<Longrightarrow> e = OSError"
  by (auto simp: open_log_def split: option.splits list.splits prod.splits if_splits)

text \<open>
  C18. \<open>_blocking_stream_run\<close> always returns. Either it raises: an \<open>OSError\<close> because the process could not be started,
  because its log file could not be opened, or because the last thing that happened was a read of a pipe that raised; or
  a \<open>TimeoutError\<close>, only at or after the deadline and with the process dead and reaped. Or the process has ended and
  the result is its exit code and everything it wrote to its two pipes, what was still in the pipes when it ended included,
  decoded and stripped at the right.
\<close>

theorem blocking_run_total:
  assumes proc: "process_ok api" and pipes: "pipes_ok api got" and clk: "clock_ok api tick" and drain: "drains api unread"
  shows "\<exists>r s' k'. blocking_stream_run api command env cwd timeout so se log_path s k = Some (r, s', k') \<and>
    (case r of
       Inl OSError \<Rightarrow> pa_popen api command env cwd s = (False, s') \<or>
         (\<exists>s1. pa_popen api command env cwd s = (True, s1) \<and> open_log api log_path s1 = (Inl OSError, s')) \<or>
         (\<exists>c u. pa_read api c u = (None, s'))
     | Inl TimeoutError \<Rightarrow> pa_poll api s' \<noteq> None \<and>
         pa_clock api (snd (pa_popen api command env cwd s)) + timeout \<le> pa_clock api s'
     | Inl _ \<Rightarrow> False
     | Inr res \<Rightarrow> pa_poll api s' = Some (er_exit_code res) \<and>
         er_stdout res = py_rstrip (pa_decode api (got Out s' @ unread Out s')) \<and>
         er_stderr res = py_rstrip (pa_decode api (got Err s' @ unread Err s')))"
proof -
  obtain started s1 where popen: "pa_popen api command env cwd s = (started, s1)" by (cases "pa_popen api command env cwd s")
  obtain r0 s2 where lg: "open_log api log_path s1 = (r0, s2)" by (cases "open_log api log_path s1")
  show ?thesis
  proof (cases "started \<and> (\<exists>h. r0 = Inr h)")
    case False
    then show ?thesis using popen lg open_log_error [of api log_path s1]
      by (cases started; cases r0) (auto simp: blocking_stream_run_def Let_def)
  next
    case True
    then obtain h where h: "started" "r0 = Inr h" by blast
    let ?st = "\<lparr>st_os = s2, st_buf = (\<lambda>_. []), st_sinks = k\<rparr>"
    let ?turn = "stream_turn api (console_of so se) h (pa_clock api s1) timeout"
    have "\<exists>r t. poll ?turn (\<lambda>_. False) (\<lambda>_ s. s) 0 ?st = Some (Some r, t)"
      by (rule timed_processes.runner_decides [OF timed_processes.intro [OF clk]])
    then obtain r st' where ret: "poll ?turn (\<lambda>_. False) (\<lambda>_ s. s) 0 ?st = Some (Some r, st')" by blast
    have "got c s1 = []" for c using pipes popen h(1) unfolding pipes_ok_def by (metis fst_conv snd_conv)
    then have "buffers_match got ?st"
      using open_log_got [OF pipes, of _ log_path s1] lg by (simp add: buffers_match_def)
    then obtain u where u: "buffers_match got u" "?turn u = (Some r, st')"
      using poll_result [OF ret, where I = "buffers_match got"] stream_turn_cases [OF proc pipes clk] by blast
    note c = stream_turn_cases [OF proc pipes clk u]
    have run: "blocking_stream_run api command env cwd timeout so se log_path s k = Some
        (case r of Inl e \<Rightarrow> (Inl e, st_os st', st_sinks st') | Inr _ \<Rightarrow>
          (case pa_wait api (st_os st') of (rc, s) \<Rightarrow>
            (Inr \<lparr>er_exit_code = rc, er_stdout = py_rstrip (pa_decode api (st_buf st' Out)),
               er_stderr = py_rstrip (pa_decode api (st_buf st' Err)), er_duration = pa_clock api s - pa_clock api s1\<rparr>, s, st_sinks st')))"
      using popen lg h ret by (simp add: blocking_stream_run_def Let_def split: sum.split)
    show ?thesis
    proof (cases r)
      case (Inl e)
      with c have "e = OSError \<or> e = TimeoutError" by auto
      then show ?thesis
        using Inl run c popen stream_turn_os_error [of api "console_of so se" h "pa_clock api s1" timeout u st'] u(2) by auto
    next
      case (Inr x)
      obtain rc s3 where w: "pa_wait api (st_os st') = (rc, s3)" by (cases "pa_wait api (st_os st')")
      have w': "pa_poll api s3 = Some rc" "\<And>c. got c s3 = got c (st_os st')"
        using proc pipes w unfolding process_ok_def pipes_ok_def by (metis fst_conv snd_conv)+
      have empty: "unread c (st_os st') = [] \<and> pa_poll api (st_os st') \<noteq> None" for c
        using stream_turn_drained [OF proc drain] u(2) Inr by simp
      have "unread c s3 = []" for c
        using drain empty [of c] w unfolding drains_def by (metis snd_conv)
      with Inr run w w' c show ?thesis by (auto simp: buffers_match_def)
    qed
  qed
qed

text \<open>A process that has written some text by its first \<open>select\<close> and exits with code 3 then.\<close>

record demo_process =
  dp_clock :: rat
  dp_pending :: string
  dp_got :: string
  dp_exit :: "int option"

definition demo_api :: "(demo_process, char) process_api" where
  "demo_api = \<lparr>pa_clock = dp_clock,
     pa_popen = (\<lambda>cmd env cwd s. (True, s\<lparr>dp_pending := [], dp_got := [], dp_exit := None\<rparr>)),
     pa_open_log = (\<lambda>p s. (p \<noteq> ''/nowhere/x.log'', s)),
     pa_pid = (\<lambda>_. 4711),
     pa_poll = dp_exit,
     pa_select = (\<lambda>d s. (\<lambda>c. True, case dp_exit s of
         None \<Rightarrow> s\<lparr>dp_clock := dp_clock s + 1, dp_pending := ''ready '', dp_exit := Some 3\<rparr>
       | Some _ \<Rightarrow> s\<lparr>dp_clock := dp_clock s + 1\<rparr>)),
     pa_read = (\<lambda>c s. case c of
         Out \<Rightarrow> (Some (dp_pending s), s\<lparr>dp_got := dp_got s @ dp_pending s, dp_pending := []\<rparr>)
       | Err \<Rightarrow> (Some [], s)),
     pa_terminate = (\<lambda>s. (True, s)),
     pa_wait_for = (\<lambda>d s. (dp_exit s, s)),
     pa_kill = (\<lambda>s. s\<lparr>dp_exit := Some (case dp_exit s of None \<Rightarrow> - 9 | Some rc \<Rightarrow> rc)\<rparr>),
     pa_wait = (\<lambda>s. let rc = (case dp_exit s of None \<Rightarrow> 0 | Some rc \<Rightarrow> rc) in (rc, s\<lparr>dp_exit := Some rc\<rparr>)),
     pa_decode = id\<rparr>"

definition demo_got :: "stream \<Rightarrow> demo_process \<Rightarrow> string" where
  "demo_got c s = (case c of Out \<Rightarrow> dp_got s | Err \<Rightarrow> [])"

definition demo_unread :: "stream \<Rightarrow> demo_process \<Rightarrow> string" where
  "demo_unread c s = (case c of Out \<Rightarrow> dp_pending s | Err \<Rightarrow> [])"

definition demo_start :: demo_process where
  "demo_start = \<lparr>dp_clock = 0, dp_pending = [], dp_got = [], dp_exit = None\<rparr>"

lemma demo_api_ok: "process_ok demo_api" "pipes_ok demo_api demo_got" "clock_ok demo_api 1"
  by (auto simp: process_ok_def ended_stays_def pipes_ok_def clock_ok_def demo_api_def demo_got_def Let_def
      split: option.splits stream.splits)

lemma demo_drains: "drains demo_api demo_unread"
  by (auto simp: drains_def demo_api_def demo_unread_def Let_def split: option.splits stream.splits)

interpretation demo_runs: timed_processes demo_api 1
  by unfold_locales (rule demo_api_ok)

definition no_sinks :: "'b sinks" where
  "no_sinks = \<lparr>sk_console_out = [], sk_console_err = [], sk_log = []\<rparr>"

theorem blocking_run_total_witness:
  "\<exists>res s' k'. blocking_stream_run demo_api ''run.sh'' [] None 60 False True None demo_start no_sinks = Some (Inr res, s', k') \<and>
     er_exit_code res = 3 \<and> er_stdout res = ''ready''"
proof -
  let ?run = "blocking_stream_run demo_api ''run.sh'' [] None 60 False True None demo_start no_sinks"
  have eval: "(case ?run of Some (Inr res, s', k') \<Rightarrow> dp_exit s' = Some 3 \<and> dp_got s' = ''ready '' \<and> dp_pending s' = [] | _ \<Rightarrow> False)"
    by code_simp
  moreover have "py_rstrip (pa_decode demo_api ''ready '') = ''ready''" by code_simp
  ultimately show ?thesis
    using blocking_run_total [OF demo_api_ok demo_drains, of "''run.sh''" "[]" None 60 False True None demo_start no_sinks]
    by (auto simp: demo_got_def demo_unread_def demo_api_def split: sum.splits)
qed

subsection \<open>Background handles\<close>

text \<open>
  The contract of \<open>AbstractBackgroundProcess.stop\<close>: it records its result, and once a result is recorded it
  returns that result and does nothing else. \<open>None\<close> is a call that does not return.
\<close>

fun stop_all :: "('t \<Rightarrow> 'h \<Rightarrow> ('r \<times> 'h) option) \<Rightarrow> 't list \<Rightarrow> 'h \<Rightarrow> ('r list \<times> 'h) option" where
  "stop_all stp [] h = Some ([], h)"
| "stop_all stp (t # ts) h =
     (case stp t h of
        None \<Rightarrow> None
      | Some (r, h) \<Rightarrow> map_option (\<lambda>(rs, h). (r # rs, h)) (stop_all stp ts h))"

locale background_handle =
  fixes stp :: "'t \<Rightarrow> 'h \<Rightarrow> ('r \<times> 'h) option"
    and stop_result :: "'h \<Rightarrow> 'r option"
  assumes stop_records: "stp t h = Some (r, h') \<Longrightarrow> stop_result h' = Some r"
    and stop_cached: "stop_result h = Some r \<Longrightarrow> stp t h = Some (r, h)"
begin

lemma stop_again: "stp t h = Some (r, h') \<Longrightarrow> stp t' h' = Some (r, h')"
  using stop_records stop_cached by blast

lemma stops_after: "stop_result h = Some r \<Longrightarrow> stop_all stp ts h = Some (replicate (length ts) r, h)"
  by (induction ts) (simp_all add: stop_cached)

lemma stops_same:
  assumes "stp t h = Some (r, h')"
  shows "stop_all stp (t # ts) h = Some (replicate (Suc (length ts)) r, h')"
  using assms stops_after [OF stop_records [OF assms], of ts] by simp

end

record ('s, 'b) background_process =
  bp_rd :: "('s, 'b, 'b bounded_chunks) streaming"
  bp_console :: "stream \<Rightarrow> stream option"
  bp_log :: bool
  bp_stop_evt :: bool
  bp_reader_done :: bool
  bp_t0 :: rat
  bp_stop_result :: "execution_result option"

abbreviation bp_os :: "('s, 'b) background_process \<Rightarrow> 's" where
  "bp_os h \<equiv> st_os (bp_rd h)"

text \<open>
  One iteration of \<open>_reader_loop\<close>, the final drain included. An exception of a read inside the loop ends the
  thread; in the final drain it is caught for each pipe.
\<close>

definition reader_turn :: "('s, 'b) process_api \<Rightarrow> ('s, 'b) background_process \<Rightarrow> ('s, 'b) background_process" where
  "reader_turn api h =
     (let rd = bp_rd h; read = pump api chunks_append (bp_console h) (bp_log h)
      in if bp_reader_done h then h
         else if bp_stop_evt h \<and> pa_poll api (st_os rd) \<noteq> None
         then h\<lparr>bp_rd := snd (read Err (snd (read Out rd))), bp_reader_done := True\<rparr>
         else
           (case pa_select api (1 / 2) (st_os rd) of
              (ready, s) \<Rightarrow>
                (case pump_all api chunks_append (bp_console h) (bp_log h) (filter ready [Out, Err]) (rd\<lparr>st_os := s\<rparr>) of
                   (ok, rd) \<Rightarrow> h\<lparr>bp_rd := rd, bp_reader_done := \<not> ok\<rparr>)))"

text \<open>\<open>thread.join(timeout)\<close>: the reader takes turns until it ends or the time is over.\<close>

definition reader_join ::
  "('s, 'b) process_api \<Rightarrow> rat \<Rightarrow> ('s, 'b) background_process \<Rightarrow> ('s, 'b) background_process option" where
  "reader_join api timeout h =
     map_option snd
       (poll (\<lambda>h. let h' = reader_turn api h in (if bp_reader_done h' then Some () else None, h'))
          (\<lambda>h'. pa_clock api (bp_os h) + timeout \<le> pa_clock api (bp_os h')) (\<lambda>_ h. h) 0 h)"

definition capture_truncated_notice :: string where
  "capture_truncated_notice =
     ''[... output truncated: kept only the last '' @ show_int (max_capture_bytes div 1048576) @ '' MiB ...]''
       @ [char_of (10 :: nat)]"

definition captured_text :: "('s, 'b) process_api \<Rightarrow> 'b bounded_chunks \<Rightarrow> string" where
  "captured_text api b =
     (if bc_truncated b then capture_truncated_notice else []) @ py_rstrip (pa_decode api (concat (bc_chunks b)))"

text \<open>
  \<open>bp_stop\<close> is \<open>BackgroundProcess.stop\<close>; the reader takes \<open>turns\<close> turns before the process is terminated.
  \<open>bp_collect\<close> is its last step: the exit code, the captured texts and the duration.
\<close>

definition bp_collect ::
  "('s, 'b) process_api \<Rightarrow> ('s, 'b) background_process \<Rightarrow> execution_result \<times> ('s, 'b) background_process" where
  "bp_collect api h =
     (case pa_wait api (bp_os h) of
        (rc, s) \<Rightarrow>
          let r = \<lparr>er_exit_code = rc, er_stdout = captured_text api (st_buf (bp_rd h) Out),
                   er_stderr = captured_text api (st_buf (bp_rd h) Err),
                   er_duration = pa_clock api s - bp_t0 h\<rparr>
          in (r, h\<lparr>bp_rd := (bp_rd h)\<lparr>st_os := s\<rparr>, bp_stop_result := Some r\<rparr>))"

definition bp_stop ::
  "('s, 'b) process_api \<Rightarrow> nat \<Rightarrow> rat \<Rightarrow> ('s, 'b) background_process
     \<Rightarrow> (execution_result \<times> ('s, 'b) background_process) option" where
  "bp_stop api turns timeout h =
     (case bp_stop_result h of
        Some r \<Rightarrow> Some (r, h)
      | None \<Rightarrow>
          let h = (reader_turn api ^^ turns) (h\<lparr>bp_stop_evt := True\<rparr>);
              h = h\<lparr>bp_rd := (bp_rd h)\<lparr>st_os := bg_graceful_kill api timeout (bp_os h)\<rparr>\<rparr>
          in map_option (bp_collect api) (reader_join api (timeout + 5) h))"

definition bp_pid :: "('s, 'b) process_api \<Rightarrow> ('s, 'b) background_process \<Rightarrow> int" where
  "bp_pid api h = pa_pid api (bp_os h)"

definition bp_poll :: "('s, 'b) process_api \<Rightarrow> ('s, 'b) background_process \<Rightarrow> int option" where
  "bp_poll api h = pa_poll api (bp_os h)"

definition bp_is_alive :: "('s, 'b) process_api \<Rightarrow> ('s, 'b) background_process \<Rightarrow> bool" where
  "bp_is_alive api h \<longleftrightarrow> pa_poll api (bp_os h) = None"

definition make_background_process ::
  "('s, 'b) process_api \<Rightarrow> string \<Rightarrow> (string \<times> string) list \<Rightarrow> string option \<Rightarrow> string option \<Rightarrow> bool \<Rightarrow> bool
     \<Rightarrow> 's \<Rightarrow> 'b sinks \<Rightarrow> (py_error \<times> 's \<times> 'b sinks) + ('s, 'b) background_process" where
  "make_background_process api command env cwd log_path stream_stdout stream_stderr s k =
     (case pa_popen api command env cwd s of
        (False, s) \<Rightarrow> Inl (OSError, s, k)
      | (True, s) \<Rightarrow>
          (case open_log api log_path s of
             (Inl e, s) \<Rightarrow> Inl (e, s, k)
           | (Inr log_fh, s) \<Rightarrow>
               Inr \<lparr>bp_rd = \<lparr>st_os = s, st_buf = (\<lambda>_. new_chunks max_capture_bytes), st_sinks = k\<rparr>,
                    bp_console = console_of stream_stdout stream_stderr, bp_log = log_fh, bp_stop_evt = False,
                    bp_reader_done = False, bp_t0 = pa_clock api s, bp_stop_result = None\<rparr>))"

subsection \<open>The dry-run handle\<close>

record noop_process =
  nb_stop_result :: "execution_result option"

definition new_noop :: noop_process where
  "new_noop = \<lparr>nb_stop_result = None\<rparr>"

definition nb_pid :: "noop_process \<Rightarrow> int" where
  "nb_pid h = - 1"

definition nb_is_alive :: "noop_process \<Rightarrow> bool" where
  "nb_is_alive h \<longleftrightarrow> False"

definition nb_poll :: "noop_process \<Rightarrow> int option" where
  "nb_poll h = Some 0"

definition nb_stop :: "rat \<Rightarrow> noop_process \<Rightarrow> (execution_result \<times> noop_process) option" where
  "nb_stop timeout h =
     (case nb_stop_result h of
        Some r \<Rightarrow> Some (r, h)
      | None \<Rightarrow>
          let r = \<lparr>er_exit_code = 0, er_stdout = ''DRY_RUN=1'' @ [char_of (10 :: nat)] @ ''RESULT_OK'', er_stderr = [], er_duration = 0\<rparr>
          in Some (r, h\<lparr>nb_stop_result := Some r\<rparr>))"

interpretation noop: background_handle nb_stop nb_stop_result
  by unfold_locales (auto simp: nb_stop_def Let_def split: option.splits)

lemma bp_collect_records: "bp_stop_result (snd (bp_collect api h)) = Some (fst (bp_collect api h))"
  by (simp add: bp_collect_def Let_def split: prod.splits)

interpretation bg: background_handle "\<lambda>(turns, timeout). bp_stop api turns timeout" bp_stop_result
  for api :: "('s, 'b) process_api"
proof
  fix t :: "nat \<times> rat" and h h' :: "('s, 'b) background_process" and r
  show "bp_stop_result h' = Some r" if "(case t of (turns, timeout) \<Rightarrow> bp_stop api turns timeout) h = Some (r, h')"
    using that bp_collect_records [of api]
    by (auto simp: bp_stop_def Let_def split: option.splits prod.splits) (metis fst_conv snd_conv)
  show "(case t of (turns, timeout) \<Rightarrow> bp_stop api turns timeout) h = Some (r, h)" if "bp_stop_result h = Some r"
    using that by (simp add: bp_stop_def split: prod.splits)
qed

subsection \<open>What stopping guarantees\<close>

text \<open>The reader has put every non-empty chunk it read into its bounded buffer.\<close>

definition captured :: "'b list \<Rightarrow> 'b bounded_chunks \<Rightarrow> bool" where
  "captured xs b \<longleftrightarrow> (\<exists>cs. [] \<notin> set cs \<and> concat cs = xs \<and> b = capture max_capture_bytes cs)"

definition rd_inv :: "(stream \<Rightarrow> 's \<Rightarrow> 'b list) \<Rightarrow> ('s, 'b, 'b bounded_chunks) streaming \<Rightarrow> bool" where
  "rd_inv got rd \<longleftrightarrow> (\<forall>c. captured (got c (st_os rd)) (st_buf rd c))"

lemma captured_append: "captured xs b \<Longrightarrow> c \<noteq> [] \<Longrightarrow> captured (xs @ c) (chunks_append c b)"
  unfolding captured_def capture_def by (elim exE) (rule_tac x = "cs @ [c]" in exI, auto)

lemma captured_new: "captured [] (new_chunks max_capture_bytes)"
  unfolding captured_def capture_def by (rule exI [of _ "[]"]) simp

lemma captured_tail:
  assumes "captured xs b"
  shows "\<exists>ys. xs = ys @ concat (bc_chunks b) \<and> (bc_truncated b \<longleftrightarrow> ys \<noteq> []) \<and>
    (ys \<noteq> [] \<longrightarrow> max_capture_bytes < int (length xs))"
proof -
  obtain cs where cs: "[] \<notin> set cs" "concat cs = xs" "b = capture max_capture_bytes cs"
    using assms by (auto simp: captured_def)
  obtain n where n: "tail_within max_capture_bytes cs = drop n cs" "n > 0 \<longleftrightarrow> tail_within max_capture_bytes cs \<noteq> cs"
    "\<forall>k < n. max_capture_bytes < int (length (concat (drop k cs)))"
    using tail_within_longest by blast
  have "concat (take n cs) \<noteq> []" if "n > 0"
  proof -
    have "take n cs \<noteq> []" using that n(2) by auto
    with cs(1) show ?thesis by (cases cs; cases n) auto
  qed
  moreover have "xs = concat (take n cs) @ concat (drop n cs)"
    using cs(2) by (metis append_take_drop_id concat_append)
  moreover have "max_capture_bytes < int (length xs)" if "n > 0" using n(3) that cs(2) by force
  ultimately show ?thesis
    using n(1,2) by (intro exI [of _ "concat (take n cs)"]) (auto simp: cs(3) capture_eq)
qed

lemma pump_rd_inv:
  assumes "pipes_ok api got" and "rd_inv got rd"
  shows "rd_inv got (snd (pump api chunks_append con lg c rd))"
proof -
  have "got c' (snd (pa_read api c (st_os rd))) =
      got c' (st_os rd) @ (if c' = c then case fst (pa_read api c (st_os rd)) of None \<Rightarrow> [] | Some xs \<Rightarrow> xs else [])" for c'
    using assms(1) unfolding pipes_ok_def by blast
  then show ?thesis
    using assms(2) by (cases "pa_read api c (st_os rd)")
      (auto simp: pump_def rd_inv_def captured_append split: option.splits)
qed

lemma pump_all_rd_inv:
  "pipes_ok api got \<Longrightarrow> rd_inv got rd \<Longrightarrow> rd_inv got (snd (pump_all api chunks_append con lg cs rd))"
proof (induction cs arbitrary: rd)
  case (Cons c cs)
  have "rd_inv got (snd (pump api chunks_append con lg c rd))" by (rule pump_rd_inv [OF Cons.prems])
  with Cons show ?case by (auto split: prod.split bool.split)
qed simp

lemma rd_inv_os: "rd_inv got rd \<Longrightarrow> (\<And>c. got c s = got c (st_os rd)) \<Longrightarrow> rd_inv got (rd\<lparr>st_os := s\<rparr>)"
  by (simp add: rd_inv_def)

lemma reader_turn_inv:
  assumes "pipes_ok api got" and "rd_inv got (bp_rd h)"
  shows "rd_inv got (bp_rd (reader_turn api h))"
proof -
  obtain ready s where sel: "pa_select api (1 / 2) (bp_os h) = (ready, s)" by (cases "pa_select api (1 / 2) (bp_os h)")
  have "got c s = got c (bp_os h)" for c using assms(1) sel unfolding pipes_ok_def by (metis snd_conv)
  with assms(2) have "rd_inv got ((bp_rd h)\<lparr>st_os := s\<rparr>)" by (rule rd_inv_os)
  then have "rd_inv got (snd (pump_all api chunks_append (bp_console h) (bp_log h) (filter ready [Out, Err])
      ((bp_rd h)\<lparr>st_os := s\<rparr>)))" by (rule pump_all_rd_inv [OF assms(1)])
  with assms sel show ?thesis
    by (auto simp: reader_turn_def Let_def pump_rd_inv simp del: pump_all.simps filter.simps split: prod.split)
qed

lemma reader_turns_inv:
  "pipes_ok api got \<Longrightarrow> rd_inv got (bp_rd h) \<Longrightarrow> rd_inv got (bp_rd ((reader_turn api ^^ n) h))"
  by (induction n) (simp_all add: reader_turn_inv)

lemma reader_turn_evt [simp]: "bp_stop_evt (reader_turn api h) = bp_stop_evt h"
  by (auto simp: reader_turn_def Let_def split: prod.split)

lemma reader_turns_evt [simp]: "bp_stop_evt ((reader_turn api ^^ n) h) = bp_stop_evt h"
  by (induction n) simp_all

text \<open>After the kill the reader needs one turn to end, so the join never runs into its timeout.\<close>

lemma reader_join_done:
  assumes "bp_stop_evt h" and "pa_poll api (bp_os h) \<noteq> None"
  shows "reader_join api timeout h = Some (reader_turn api h)" and "bp_reader_done (reader_turn api h)"
proof -
  show ends: "bp_reader_done (reader_turn api h)" using assms by (auto simp: reader_turn_def Let_def)
  show "reader_join api timeout h = Some (reader_turn api h)"
    using ends
    by (simp add: reader_join_def Let_def poll_done)
qed

lemma reader_turns_result [simp]: "bp_stop_result ((reader_turn api ^^ n) h) = bp_stop_result h"
  by (induction n) (auto simp: reader_turn_def Let_def split: prod.split)

text \<open>What is reported of one stream: everything, or a marked tail of more than 16 MiB.\<close>

definition reported :: "('s, 'b) process_api \<Rightarrow> 'b list \<Rightarrow> string \<Rightarrow> bool" where
  "reported api all_bytes txt \<longleftrightarrow>
     (\<exists>ys xs. all_bytes = ys @ xs \<and> (ys \<noteq> [] \<longrightarrow> max_capture_bytes < int (length all_bytes)) \<and>
        txt = (if ys = [] then [] else capture_truncated_notice) @ py_rstrip (pa_decode api xs))"

lemma captured_reported: "captured xs b \<Longrightarrow> reported api xs (captured_text api b)"
  using captured_tail [of xs b] unfolding reported_def captured_text_def by auto

lemma bp_collect_correct:
  assumes proc: "process_ok api" and pipes: "pipes_ok api got" and inv: "rd_inv got (bp_rd h)"
    and col: "bp_collect api h = (r, h')"
  shows "pa_poll api (bp_os h') = Some (er_exit_code r)" "bp_reader_done h' = bp_reader_done h"
    "reported api (got Out (bp_os h')) (er_stdout r)" "reported api (got Err (bp_os h')) (er_stderr r)"
proof -
  obtain rc s where w: "pa_wait api (bp_os h) = (rc, s)" by (cases "pa_wait api (bp_os h)")
  have "pa_poll api s = Some rc" "\<And>c. got c s = got c (bp_os h)"
    using proc pipes w unfolding process_ok_def pipes_ok_def by (metis fst_conv snd_conv)+
  moreover have "reported api (got c (bp_os h)) (captured_text api (st_buf (bp_rd h) c))" for c
    using inv by (simp add: rd_inv_def captured_reported)
  ultimately show "pa_poll api (bp_os h') = Some (er_exit_code r)" "bp_reader_done h' = bp_reader_done h"
    "reported api (got Out (bp_os h')) (er_stdout r)" "reported api (got Err (bp_os h')) (er_stderr r)"
    using col w by (auto simp: bp_collect_def Let_def)
qed

text \<open>
  Stopping a background process: however many turns the reader thread has taken, \<open>stop\<close> returns; the
  process has ended and its exit code is the reported one, the reader thread has finished, and what is
  reported of each stream is all the bytes read from it, or, marked by the notice, a proper tail of them when
  more than 16 MiB were read. Every later call returns the same result and changes nothing.
\<close>

theorem background_stop_correct:
  assumes proc: "process_ok api" and pipes: "pipes_ok api got"
    and start: "make_background_process api command env cwd log_path so se s k = Inr h0"
  shows "\<exists>r h. bp_stop api turns timeout ((reader_turn api ^^ n) h0) = Some (r, h) \<and>
    bp_poll api h = Some (er_exit_code r) \<and> \<not> bp_is_alive api h \<and> bp_reader_done h \<and>
    reported api (got Out (bp_os h)) (er_stdout r) \<and> reported api (got Err (bp_os h)) (er_stderr r) \<and>
    stop_all (\<lambda>(turns, timeout). bp_stop api turns timeout) ts h = Some (replicate (length ts) r, h)"
proof -
  let ?h1 = "(reader_turn api ^^ turns) (((reader_turn api ^^ n) h0)\<lparr>bp_stop_evt := True\<rparr>)"
  let ?h2 = "?h1\<lparr>bp_rd := (bp_rd ?h1)\<lparr>st_os := bg_graceful_kill api timeout (bp_os ?h1)\<rparr>\<rparr>"
  let ?h3 = "reader_turn api ?h2"
  obtain r h where col: "bp_collect api ?h3 = (r, h)" by (cases "bp_collect api ?h3")
  obtain s1 where popen: "pa_popen api command env cwd s = (True, s1)"
    using start by (auto simp: make_background_process_def split: prod.splits bool.splits)
  have "got c s1 = []" for c using pipes popen unfolding pipes_ok_def by (metis fst_conv snd_conv)
  moreover have "bp_rd h0 = \<lparr>st_os = snd (open_log api log_path s1), st_buf = (\<lambda>_. new_chunks max_capture_bytes), st_sinks = k\<rparr>"
    using start popen by (auto simp: make_background_process_def split: prod.splits sum.splits)
  ultimately have "rd_inv got (bp_rd h0)" by (simp add: rd_inv_def open_log_got [OF pipes] captured_new)
  then have "rd_inv got (bp_rd (((reader_turn api ^^ n) h0)\<lparr>bp_stop_evt := True\<rparr>))"
    by (simp add: reader_turns_inv [OF pipes])
  then have "rd_inv got (bp_rd ?h1)" by (rule reader_turns_inv [OF pipes])
  then have "rd_inv got (bp_rd ?h2)" by (simp add: rd_inv_os bg_graceful_kill_got [OF pipes])
  then have inv: "rd_inv got (bp_rd ?h3)" by (rule reader_turn_inv [OF pipes])
  have none: "bp_stop_result h0 = None"
    using start by (auto simp: make_background_process_def split: prod.splits bool.splits sum.splits)
  have evt: "bp_stop_evt ?h2" by simp
  have ended: "pa_poll api (bp_os ?h2) \<noteq> None" using bg_graceful_kill_ends [OF proc] by simp
  have ret: "bp_stop api turns timeout ((reader_turn api ^^ n) h0) = Some (r, h)"
    by (simp add: bp_stop_def none Let_def reader_join_done(1) [OF evt ended] col)
  have "stop_all (\<lambda>(turns, timeout). bp_stop api turns timeout) ts h = Some (replicate (length ts) r, h)"
    using bp_collect_records [of api ?h3] by (intro bg.stops_after) (simp add: col)
  with ret show ?thesis
    using bp_collect_correct [OF proc pipes inv col] reader_join_done(2) [OF evt ended]
    by (simp add: bp_poll_def bp_is_alive_def)
qed

theorem background_stop_correct_witness:
  "\<exists>h0 r h. make_background_process demo_api ''run.sh'' [] None None False True demo_start no_sinks = Inr h0 \<and>
     bp_stop demo_api 1 30 ((reader_turn demo_api ^^ 2) h0) = Some (r, h) \<and> er_exit_code r = 3 \<and>
     reported demo_api ''ready '' (er_stdout r)"
proof -
  let ?start = "make_background_process demo_api ''run.sh'' [] None None False True demo_start no_sinks"
  have "case ?start of Inl _ \<Rightarrow> False | Inr h0 \<Rightarrow>
      (case bp_stop demo_api 1 30 ((reader_turn demo_api ^^ 2) h0) of None \<Rightarrow> False
       | Some (r, h) \<Rightarrow> dp_exit (bp_os h) = Some 3 \<and> dp_got (bp_os h) = ''ready '')" by code_simp
  then obtain h0 where h0: "?start = Inr h0" and e: "case bp_stop demo_api 1 30 ((reader_turn demo_api ^^ 2) h0) of None \<Rightarrow> False
       | Some (r, h) \<Rightarrow> dp_exit (bp_os h) = Some 3 \<and> dp_got (bp_os h) = ''ready ''"
    by (cases ?start) auto
  from e background_stop_correct [OF demo_api_ok(1,2) h0, of 1 30 2 "[]"] h0 show ?thesis
    by (auto simp: demo_got_def bp_poll_def demo_api_def)
qed

text \<open>
  The log file is opened after the process has been started: when that fails, both
  \<open>_blocking_stream_run\<close> and \<open>_make_background_process\<close> raise at once and leave the process running, with no
  handle to stop it.
\<close>

theorem log_failure_orphans:
  assumes "pa_popen api command env cwd s = (True, s1)" and "pa_open_log api (c # path) s1 = (False, s2)"
    and "pa_poll api s2 = None"
  shows "blocking_stream_run api command env cwd timeout so se (Some (c # path)) s k = Some (Inl OSError, s2, k) \<and>
    make_background_process api command env cwd (Some (c # path)) so se s k = Inl (OSError, s2, k) \<and>
    pa_poll api s2 = None"
  using assms by (simp add: blocking_stream_run_def make_background_process_def open_log_def)

theorem log_failure_orphans_witness:
  "blocking_stream_run demo_api ''run.sh'' [] None 60 False True (Some ''/nowhere/x.log'') demo_start no_sinks
     = Some (Inl OSError, demo_start, no_sinks) \<and>
   make_background_process demo_api ''run.sh'' [] None (Some ''/nowhere/x.log'') False True demo_start no_sinks
     = Inl (OSError, demo_start, no_sinks) \<and> pa_poll demo_api demo_start = None"
  by (rule log_failure_orphans [where ?s1.0 = demo_start]) (simp_all add: demo_api_def demo_start_def)

end
