(* ===== verification/Shell.thy ===== *)
theory Shell
  imports PyStr
begin

text \<open>
  \<open>shlex.quote\<close>, through which every path and value reaches a remote shell, and, as the reference it is
  judged by, the reading of a command line by a POSIX shell: words, single quotes, double quotes. The reader
  gives up (\<open>None\<close>) on an open quote and on every character that means something to the shell.
\<close>

subsection \<open>Quoting\<close>

definition shlex_safe :: "char \<Rightarrow> bool" where
  "shlex_safe c \<longleftrightarrow>
     (let n = (of_char c :: nat)
      in (65 \<le> n \<and> n \<le> 90) \<or> (97 \<le> n \<and> n \<le> 122) \<or> (48 \<le> n \<and> n \<le> 57)) \<or> c \<in> set ''_@%+=:,./-''"

abbreviation squote :: char where "squote \<equiv> CHR 0x27"
abbreviation dquote :: char where "dquote \<equiv> CHR 0x22"
abbreviation newline :: char where "newline \<equiv> CHR 0x0A"

text \<open>\<open>s.replace("'", "'\"'\"'")\<close>\<close>

definition quote_body :: "string \<Rightarrow> string" where
  "quote_body s = concat (map (\<lambda>c. if c = squote then [squote, dquote, squote, dquote, squote] else [c]) s)"

definition shlex_quote :: "string \<Rightarrow> string" where
  "shlex_quote s =
     (if s = [] then [squote, squote]
      else if list_all shlex_safe s then s
      else squote # quote_body s @ [squote])"

subsection \<open>How a shell reads words\<close>

datatype quoting = Bare | Single | Double

definition word_so_far :: "string option \<Rightarrow> string" where
  "word_so_far w = (case w of None \<Rightarrow> [] | Some v \<Rightarrow> v)"

fun sh_read :: "quoting \<Rightarrow> string option \<Rightarrow> string \<Rightarrow> string list option" where
  "sh_read Bare None [] = Some []"
| "sh_read Bare (Some w) [] = Some [w]"
| "sh_read _ w [] = None"
| "sh_read Bare w (c # s) =
     (if c = CHR '' '' then
        (case w of None \<Rightarrow> sh_read Bare None s | Some v \<Rightarrow> map_option ((#) v) (sh_read Bare None s))
      else if c = squote then sh_read Single (Some (word_so_far w)) s
      else if c = dquote then sh_read Double (Some (word_so_far w)) s
      else if shlex_safe c then sh_read Bare (Some (word_so_far w @ [c])) s
      else None)"
| "sh_read Single w (c # s) =
     (if c = squote then sh_read Bare w s else sh_read Single (Some (word_so_far w @ [c])) s)"
| "sh_read Double w (c # s) =
     (if c = dquote then sh_read Bare w s
      else if c \<in> set ''$!'' \<or> c = CHR 0x60 \<or> c = CHR 0x5C then None
      else sh_read Double (Some (word_so_far w @ [c])) s)"

definition sh_words :: "string \<Rightarrow> string list option" where
  "sh_words s = sh_read Bare None s"

lemma word_so_far_simps [simp]: "word_so_far None = []" "word_so_far (Some v) = v"
  by (simp_all add: word_so_far_def)

lemma shlex_safe_plain:
  assumes "shlex_safe c" shows "c \<noteq> CHR '' ''" "c \<noteq> squote" "c \<noteq> dquote"
  using assms by (auto simp: shlex_safe_def)

lemma sh_read_safe:
  "list_all shlex_safe v \<Longrightarrow> v \<noteq> [] \<Longrightarrow> sh_read Bare w (v @ s) = sh_read Bare (Some (word_so_far w @ v)) s"
proof (induction v arbitrary: w)
  case (Cons c v)
  note plain = shlex_safe_plain [of c]
  show ?case
  proof (cases "v = []")
    case True
    with Cons.prems plain show ?thesis by simp
  next
    case False
    with Cons plain show ?thesis by simp
  qed
qed simp

lemma sh_read_body:
  "sh_read Single (Some w) (quote_body v @ squote # s) = sh_read Bare (Some (w @ v)) s"
proof (induction v arbitrary: w)
  case (Cons c v)
  then show ?case by (simp add: quote_body_def)
qed (simp add: quote_body_def)

lemma sh_read_quote: "sh_read Bare w (shlex_quote v @ s) = sh_read Bare (Some (word_so_far w @ v)) s"
proof -
  have "CHR '' '' \<noteq> squote" by simp
  then show ?thesis
    using sh_read_safe [of v w s] sh_read_body [of "word_so_far w" v s]
    by (auto simp: shlex_quote_def)
qed

lemma sh_words_quoted: "sh_words (join_with '' '' (map shlex_quote ws)) = Some ws"
proof (cases ws)
  case Nil
  then show ?thesis by (simp add: sh_words_def)
next
  case (Cons w ws')
  have "sh_read Bare None (join_with '' '' (map shlex_quote (w # ws'))) = Some (w # ws')"
  proof (induction ws' arbitrary: w)
    case Nil
    show ?case using sh_read_quote [of None w "[]"] by simp
  next
    case (Cons v ws')
    then show ?case using sh_read_quote [of None w] by simp
  qed
  with Cons show ?thesis by (simp add: sh_words_def)
qed

text \<open>
  Quoting is undone by the shell: a command line made of words quoted with \<open>shlex.quote\<close> and joined by blanks
  is read back as exactly those words, whatever characters they contain.
\<close>

theorem quote_round_trip:
  "sh_words (join_with '' '' (map shlex_quote ws)) = Some ws"
  by (rule sh_words_quoted)

end
