(* ===== verification/SshStream.thy ===== *)
theory SshStream
  imports BackgroundProc Shell
begin

text \<open>
  Live output of detached remote processes, first half of \<open>framework/executors/ssh_executor.py\<close>: the line buffer
  of a handle, the length-prefixed answer to a poll and its parser, the coalesced poll of all handles, and
  the life of the poller's thread. A remote control command is an argument. The model's strings
  have one byte per character; where the code counts bytes on the node and characters here, the
  difference is a theorem.
\<close>

subsection \<open>The handle and its line buffers\<close>

text \<open>
  \<open>sp_shown\<close> is what the handle has sent to the test logger (\<open>Out\<close> at level info, \<open>Err\<close> at level
  warning), \<open>sp_log\<close> the lines of its log file.
\<close>

record ssh_process =
  sp_remote_pid :: "int option"
  sp_rc_file :: string
  sp_pid_file :: string
  sp_out_file :: string
  sp_err_file :: string
  sp_t0 :: rat
  sp_stop_result :: "execution_result option"
  sp_stream_id :: string
  sp_console_label :: string
  sp_console :: bool
  sp_log_open :: bool
  sp_streaming :: bool
  sp_off :: "stream \<Rightarrow> int"
  sp_buf :: "stream \<Rightarrow> string"
  sp_shown :: "(stream \<times> string) list"
  sp_log :: "string list"

definition bg_line :: "string \<Rightarrow> string \<Rightarrow> string" where
  "bg_line label line = ''[bg '' @ label @ ''] '' @ line"

definition emit_line :: "stream \<Rightarrow> string \<Rightarrow> ssh_process \<Rightarrow> ssh_process" where
  "emit_line c line h =
     (let h = (if sp_console h then h\<lparr>sp_shown := sp_shown h @ [(c, bg_line (sp_console_label h) line)]\<rparr> else h)
      in if sp_log_open h then h\<lparr>sp_log := sp_log h @ [line]\<rparr> else h)"

definition feed :: "stream \<Rightarrow> string \<Rightarrow> ssh_process \<Rightarrow> ssh_process" where
  "feed c data h =
     (if data = [] then h
      else let lines = split_on newline (sp_buf h c @ data)
           in fold (emit_line c) (butlast lines) (h\<lparr>sp_buf := (sp_buf h)(c := last lines)\<rparr>))"

definition flush_partial :: "ssh_process \<Rightarrow> ssh_process" where
  "flush_partial h =
     (let flush = (\<lambda>c h. if sp_buf h c = [] then h else (emit_line c (sp_buf h c) h)\<lparr>sp_buf := (sp_buf h)(c := [])\<rparr>)
      in flush Err (flush Out h))"

text \<open>\<open>ls\<close> are the lines, with their streams, that lead from one state of the handle to another.\<close>

definition emitted :: "(stream \<times> string) list \<Rightarrow> ssh_process \<Rightarrow> ssh_process \<Rightarrow> bool" where
  "emitted ls h h' \<longleftrightarrow>
     h' = h\<lparr>sp_off := sp_off h', sp_buf := sp_buf h',
            sp_shown := sp_shown h @ (if sp_console h then map (\<lambda>(c, l). (c, bg_line (sp_console_label h) l)) ls else []),
            sp_log := sp_log h @ (if sp_log_open h then map snd ls else [])\<rparr>"

definition of_stream :: "stream \<Rightarrow> (stream \<times> 'a) list \<Rightarrow> 'a list" where
  "of_stream c xs = map snd (filter (\<lambda>x. fst x = c) xs)"

lemma of_stream_simps [simp]:
  "of_stream c [] = []" "of_stream c (x # xs) = (if fst x = c then snd x # of_stream c xs else of_stream c xs)"
  "of_stream c (xs @ ys) = of_stream c xs @ of_stream c ys"
  by (simp_all add: of_stream_def)

lemma of_stream_pairs: "of_stream c (map (Pair d) xs) = (if c = d then xs else [])"
  by (induction xs) auto

lemma emitted_refl: "emitted [] h (h\<lparr>sp_off := off, sp_buf := buf\<rparr>)"
  by (simp add: emitted_def)

lemma emitted_trans: "emitted ls h h1 \<Longrightarrow> emitted ls' h1 h2 \<Longrightarrow> emitted (ls @ ls') h h2"
  unfolding emitted_def by (cases h; cases h1; cases h2) auto

lemma emit_line_emitted: "emitted [(c, line)] h (emit_line c line h)"
  by (simp add: emitted_def emit_line_def Let_def)

lemma emit_line_buf [simp]: "sp_buf (emit_line c line h) = sp_buf h" "sp_off (emit_line c line h) = sp_off h"
  by (simp_all add: emit_line_def Let_def)

lemma emit_lines_emitted: "emitted (map (Pair c) lines) h (fold (emit_line c) lines h)"
proof (induction lines arbitrary: h)
  case Nil
  show ?case using emitted_refl [of h "sp_buf h" "sp_off h"] by simp
next
  case (Cons l lines)
  show ?case using emitted_trans [OF emit_line_emitted Cons.IH] by simp
qed

lemma emit_lines_buf [simp]:
  "sp_buf (fold (emit_line c) lines h) = sp_buf h" "sp_off (fold (emit_line c) lines h) = sp_off h"
  by (induction lines arbitrary: h) simp_all

lemma split_on_append:
  "split_on x (s @ t) = butlast (split_on x s) @ split_on x (last (split_on x s) @ t)"
proof (induction s)
  case (Cons c s)
  obtain w ws where s: "split_on x s = w # ws" by (cases "split_on x s") simp_all
  show ?case
  proof (cases "c = x")
    case True
    then show ?thesis using Cons by simp
  next
    case False
    then show ?thesis using Cons s by (cases ws) auto
  qed
qed simp

lemma split_on_last_notin: "x \<notin> set (last (split_on x s))"
  using split_on_no_sep [of "last (split_on x s)" x s] by simp

text \<open>Feeding data emits the lines that became complete, and keeps the rest.\<close>

lemma feed_emitted:
  "\<exists>ls. emitted ls h (feed c data h) \<and> of_stream c ls @ [sp_buf (feed c data h) c] =
       (if data = [] then [sp_buf h c] else split_on newline (sp_buf h c @ data)) \<and>
     (\<forall>d. d \<noteq> c \<longrightarrow> of_stream d ls = [] \<and> sp_buf (feed c data h) d = sp_buf h d)"
proof (cases "data = []")
  case True
  then show ?thesis using emitted_refl [of h "sp_buf h" "sp_off h"] by (intro exI [of _ "[]"]) (simp add: feed_def)
next
  case False
  let ?lines = "split_on newline (sp_buf h c @ data)"
  let ?h = "h\<lparr>sp_buf := (sp_buf h)(c := last ?lines)\<rparr>"
  have "emitted [] h ?h" using emitted_refl [of h "(sp_buf h)(c := last ?lines)" "sp_off h"] by simp
  then have "emitted (map (Pair c) (butlast ?lines)) h (feed c data h)"
    using emitted_trans [OF _ emit_lines_emitted] False by (fastforce simp: feed_def Let_def)
  with False show ?thesis
    by (intro exI [of _ "map (Pair c) (butlast ?lines)"]) (auto simp: feed_def Let_def of_stream_pairs)
qed

lemma feed_console [simp]: "sp_console (feed c data h) = sp_console h" "sp_log_open (feed c data h) = sp_log_open h"
  "sp_console_label (feed c data h) = sp_console_label h" "sp_off (feed c data h) = sp_off h"
  "sp_stream_id (feed c data h) = sp_stream_id h" "sp_out_file (feed c data h) = sp_out_file h"
  "sp_err_file (feed c data h) = sp_err_file h"
  using feed_emitted [of h c data] by (auto simp: emitted_def feed_def Let_def)

text \<open>
  C19. The live view does not depend on how the output is cut: feed the two streams of a process in pieces of
  any sizes and in any order, and for each stream the emitted lines followed by the buffered rest are the
  lines of the whole output of that stream; the console and the log file get the same lines in the same order.
\<close>

theorem feed_independent_of_chunks:
  assumes "sp_buf h Out = []" and "sp_buf h Err = []"
  shows "\<exists>ls. emitted ls h (fold (\<lambda>(c, data). feed c data) pieces h) \<and>
    (\<forall>c. of_stream c ls @ [sp_buf (fold (\<lambda>(c, data). feed c data) pieces h) c]
         = split_on newline (concat (of_stream c pieces)))"
proof (induction pieces rule: rev_induct)
  case Nil
  have "sp_buf h c = []" for c using assms by (cases c) simp_all
  then show ?case using emitted_refl [of h "sp_buf h" "sp_off h"] by (intro exI [of _ "[]"]) simp
next
  case (snoc p pieces)
  obtain c data where p: "p = (c, data)" by (cases p)
  let ?g = "fold (\<lambda>(c, data). feed c data) pieces h"
  from snoc obtain ls where ls: "emitted ls h ?g"
    "\<And>c. of_stream c ls @ [sp_buf ?g c] = split_on newline (concat (of_stream c pieces))" by blast
  obtain ls' where ls': "emitted ls' ?g (feed c data ?g)" "of_stream c ls' @ [sp_buf (feed c data ?g) c] =
       (if data = [] then [sp_buf ?g c] else split_on newline (sp_buf ?g c @ data))"
     "\<And>d. d \<noteq> c \<Longrightarrow> of_stream d ls' = [] \<and> sp_buf (feed c data ?g) d = sp_buf ?g d"
    using feed_emitted [of ?g c data] by blast
  have eqs: "butlast (split_on newline (concat (of_stream c pieces))) = of_stream c ls"
    "last (split_on newline (concat (of_stream c pieces))) = sp_buf ?g c"
    by (simp_all flip: ls(2))
  have "of_stream d (ls @ ls') @ [sp_buf (feed c data ?g) d] = split_on newline (concat (of_stream d (pieces @ [p])))" for d
  proof (cases "d = c")
    case True
    have "split_on newline (concat (of_stream c pieces) @ data)
        = of_stream c ls @ split_on newline (sp_buf ?g c @ data)"
      by (subst split_on_append) (simp add: eqs)
    with ls'(2) ls(2) [of c] True p show ?thesis by (auto split: if_splits)
  next
    case False
    with ls'(3) ls(2) [of d] p show ?thesis by auto
  qed
  with emitted_trans [OF ls(1) ls'(1)] p show ?case by (intro exI [of _ "ls @ ls'"]) simp
qed

text \<open>A handle that shows and logs its output.\<close>

definition demo_handle :: "string \<Rightarrow> ssh_process" where
  "demo_handle i = \<lparr>sp_remote_pid = Some 77, sp_rc_file = ''/tmp/'' @ i @ ''.rc'', sp_pid_file = ''/tmp/'' @ i @ ''.pid'',
     sp_out_file = ''/tmp/'' @ i @ ''.out'', sp_err_file = ''/tmp/'' @ i @ ''.err'', sp_t0 = 0, sp_stop_result = None,
     sp_stream_id = i, sp_console_label = ''server'', sp_console = True, sp_log_open = True, sp_streaming = True,
     sp_off = (\<lambda>_. 0), sp_buf = (\<lambda>_. []), sp_shown = [], sp_log = []\<rparr>"

theorem feed_independent_of_chunks_witness:
  "\<exists>ls. emitted ls (demo_handle ''bg1'')
       (fold (\<lambda>(c, data). feed c data) [(Out, ''ab''), (Err, ''w''), (Out, ''c'' @ [newline] @ ''d'')] (demo_handle ''bg1'')) \<and>
     of_stream Out ls = [''abc'']"
proof -
  let ?ps = "[(Out, ''ab''), (Err, ''w''), (Out, ''c'' @ [newline] @ ''d'')]"
  obtain ls where ls: "emitted ls (demo_handle ''bg1'') (fold (\<lambda>(c, data). feed c data) ?ps (demo_handle ''bg1''))"
    "\<And>c. of_stream c ls @ [sp_buf (fold (\<lambda>(c, data). feed c data) ?ps (demo_handle ''bg1'')) c]
         = split_on newline (concat (of_stream c ?ps))"
    using feed_independent_of_chunks [of "demo_handle ''bg1''" ?ps] by (auto simp: demo_handle_def)
  have "split_on newline (concat (of_stream Out ?ps)) = [''abc'', ''d'']" by simp
  with ls(2) [of Out] have "of_stream Out ls = [''abc'']" by (metis append1_eq_conv append_Cons append_Nil)
  with ls(1) show ?thesis by blast
qed

subsection \<open>The answer to a poll\<close>

text \<open>\<open>str.find(p, pos)\<close>, \<open>s[a:b]\<close> with Python's negative indices, and \<open>str.split()\<close>.\<close>

fun find_sub :: "string \<Rightarrow> string \<Rightarrow> nat option" where
  "find_sub p [] = (if p = [] then Some 0 else None)"
| "find_sub p (c # s) = (if startswith (c # s) p then Some 0 else map_option Suc (find_sub p s))"

definition norm_index :: "string \<Rightarrow> int \<Rightarrow> nat" where
  "norm_index s i = nat (if i < 0 then i + int (length s) else i)"

definition py_find :: "string \<Rightarrow> string \<Rightarrow> int \<Rightarrow> int" where
  "py_find s p pos =
     (case find_sub p (drop (norm_index s pos) s) of None \<Rightarrow> - 1 | Some k \<Rightarrow> int (norm_index s pos + k))"

definition py_slice :: "string \<Rightarrow> int \<Rightarrow> int \<Rightarrow> string" where
  "py_slice s a b = take (norm_index s b - norm_index s a) (drop (norm_index s a) s)"

fun split_spaces :: "string \<Rightarrow> string \<Rightarrow> string list" where
  "split_spaces cur [] = (if cur = [] then [] else [cur])"
| "split_spaces cur (c # s) =
     (if is_space c then (if cur = [] then split_spaces [] s else cur # split_spaces [] s)
      else split_spaces (cur @ [c]) s)"

definition py_split :: "string \<Rightarrow> string list" where
  "py_split s = split_spaces [] s"

text \<open>The shell fragment sent for one capture file.\<close>

definition segment_cmd :: "string \<Rightarrow> string \<Rightarrow> int \<Rightarrow> string" where
  "segment_cmd marker path off =
     ''sz=$(wc -c < '' @ path @ '' 2>/dev/null || echo 0); '' @
     ''n=0; [ '' @ [dquote] @ ''$sz'' @ [dquote] @ '' -gt '' @ show_int off @ '' ] && n=$((sz-'' @ show_int off @ '')); '' @
     ''printf '' @ [dquote] @ [CHR 0x5C] @ ''n@@'' @ marker @ '' %s %s'' @ [CHR 0x5C] @ ''n'' @ [dquote] @ '' '' @
     [dquote] @ ''$sz'' @ [dquote] @ '' '' @ [dquote] @ ''$n'' @ [dquote] @ ''; '' @
     ''[ '' @ [dquote] @ ''$n'' @ [dquote] @ '' -gt 0 ] && tail -c '' @ [dquote] @ ''$n'' @ [dquote] @ '' '' @ path @
     '' 2>/dev/null; true''"

text \<open>
  One turn of the loop of \<open>_parse\<close>: \<open>None\<close> leaves the loop, otherwise the segment found, if any, and the
  position to go on from. A negative length moves the position back, so the loop need not end.
\<close>

definition parse_step :: "string \<Rightarrow> int \<Rightarrow> ((string \<times> int \<times> string) option \<times> int) option" where
  "parse_step blob pos =
     (let i = py_find blob ''@@'' pos in
      if i < 0 then None
      else let nl = py_find blob [newline] i in
        if nl < 0 then None
        else (case py_split (py_slice blob (i + 2) nl) of
                [marker, sz_s, n_s] \<Rightarrow>
                  (case (int_of_str sz_s, int_of_str n_s) of
                     (Some sz, Some n) \<Rightarrow> Some (Some (marker, sz, py_slice blob (nl + 1) (nl + 1 + n)), nl + 1 + n)
                   | _ \<Rightarrow> Some (None, nl + 1))
              | _ \<Rightarrow> Some (None, nl + 1)))"

partial_function (option) parse_from :: "string \<Rightarrow> int \<Rightarrow> (string \<times> int \<times> string) list \<Rightarrow> (string \<times> int \<times> string) list option" where
  "parse_from blob pos acc =
     (case parse_step blob pos of
        None \<Rightarrow> Some acc
      | Some (found, pos') \<Rightarrow> parse_from blob pos' (acc @ (case found of None \<Rightarrow> [] | Some seg \<Rightarrow> [seg])))"

declare parse_from.simps [code]

definition parse_poll :: "string \<Rightarrow> (string \<times> int \<times> string) list option" where
  "parse_poll blob = parse_from blob 0 []"

text \<open>What the node sends for one segment, as bytes: the header and as many bytes as it announces (\<open>wc -c\<close>, \<open>tail -c\<close>).\<close>

definition segment_header :: "string \<Rightarrow> int \<Rightarrow> int \<Rightarrow> string" where
  "segment_header marker sz n =
     [newline] @ ''@@'' @ marker @ '' '' @ show_int sz @ '' '' @ show_int n @ [newline]"

definition render_segment :: "string \<times> int \<times> string \<Rightarrow> string" where
  "render_segment seg = (case seg of (marker, sz, data) \<Rightarrow> segment_header marker sz (int (length data)) @ data)"

definition marker_ok :: "string \<Rightarrow> bool" where
  "marker_ok m \<longleftrightarrow> m \<noteq> [] \<and> (\<forall>c \<in> set m. \<not> is_space c)"

lemma norm_index_int [simp]: "norm_index s (int n) = n"
  by (simp add: norm_index_def)

lemma find_sub_char: "x \<notin> set a \<Longrightarrow> find_sub [x] (a @ x # b) = Some (length a)"
  by (induction a) (auto simp: startswith_def)

lemma space_facts [simp]: "is_space newline" "is_space CHR '' ''" "\<not> is_space CHR ''@''"
  by (simp_all add: is_space_def)

lemma show_int_no_space: "c \<in> set (show_int i) \<Longrightarrow> \<not> is_space c"
  using show_int_chars [of c i] is_digit_not_space not_space_minus by blast

lemma split_spaces_word:
  "(\<And>c. c \<in> set w \<Longrightarrow> \<not> is_space c) \<Longrightarrow> split_spaces cur (w @ s) = split_spaces (cur @ w) s"
  by (induction w arbitrary: cur) simp_all

lemma py_split_header:
  assumes "marker_ok m"
  shows "py_split (m @ '' '' @ show_int a @ '' '' @ show_int b) = [m, show_int a, show_int b]"
proof -
  have "split_spaces [] (m @ '' '' @ show_int a @ '' '' @ show_int b) = m # split_spaces [] (show_int a @ '' '' @ show_int b)"
    using assms by (subst split_spaces_word) (auto simp: marker_ok_def)
  also have "split_spaces [] (show_int a @ '' '' @ show_int b) = show_int a # split_spaces [] (show_int b @ [])"
    using show_int_no_space by (subst split_spaces_word) auto
  also have "split_spaces [] (show_int b @ []) = [show_int b]"
    using show_int_no_space [of _ b] by (subst split_spaces_word) auto
  finally show ?thesis by (simp add: py_split_def)
qed

text \<open>The parser at a header with any announced length.\<close>

lemma parse_step_header:
  assumes m: "marker_ok m" and blob: "blob = pre @ segment_header m sz n @ rest" and n: "0 \<le> n"
  shows "parse_step blob (int (length pre)) =
    Some (Some (m, sz, take (nat n) rest), int (length (pre @ segment_header m sz n)) + n)"
proof -
  let ?line = "m @ '' '' @ show_int sz @ '' '' @ show_int n"
  let ?i = "length pre + 1"
  let ?nl = "?i + 2 + length ?line"
  have b: "blob = pre @ newline # CHR ''@'' # CHR ''@'' # ?line @ newline # rest"
    by (simp add: blob segment_header_def)
  have "find_sub ''@@'' (newline # CHR ''@'' # CHR ''@'' # ?line @ newline # rest) = Some 1"
    by (simp add: startswith_def)
  then have i: "py_find blob ''@@'' (int (length pre)) = int ?i"
    by (simp add: py_find_def b)
  have "newline \<notin> set ?line"
    using m show_int_no_space [of newline] by (auto simp: marker_ok_def)
  then have "newline \<notin> set (CHR ''@'' # CHR ''@'' # ?line)" by simp
  from find_sub_char [OF this, of rest]
  have "find_sub [newline] ((CHR ''@'' # CHR ''@'' # ?line) @ newline # rest) = Some (2 + length ?line)" by simp
  then have nl: "py_find blob [newline] (int ?i) = int ?nl"
    by (simp add: py_find_def b del: of_nat_Suc of_nat_add)
  have "int ?i + 2 = int (?i + 2)" by simp
  then have line: "py_slice blob (int ?i + 2) (int ?nl) = ?line"
    unfolding py_slice_def by (simp only: norm_index_int) (simp add: b)
  have ends: "int ?nl + 1 = int (length (pre @ segment_header m sz n))"
    by (simp add: segment_header_def)
  have "int ?nl + 1 + n = int (length (pre @ segment_header m sz n) + nat n)" using n ends by simp
  then have data: "py_slice blob (int ?nl + 1) (int ?nl + 1 + n) = take (nat n) rest"
    unfolding py_slice_def ends by (simp only: norm_index_int) (simp add: blob)
  have "(int ?nl < 0) = False" "(int ?i < 0) = False" by simp_all
  then show ?thesis
    unfolding parse_step_def i Let_def
    by (simp only: nl line py_split_header [OF m] data [unfolded ends] if_False list.case int_of_str_show_int prod.case option.case ends)
qed

lemma parse_step_segment:
  assumes "marker_ok m"
  shows "parse_step (pre @ render_segment (m, sz, data) @ rest) (int (length pre)) =
    Some (Some (m, sz, data), int (length (pre @ render_segment (m, sz, data))))"
  using parse_step_header [OF assms, of _ pre sz "int (length data)" "data @ rest"]
  by (simp add: render_segment_def algebra_simps)

lemma parse_from_end: "parse_from blob (int (length blob)) acc = Some acc"
  by (simp add: parse_from.simps parse_step_def py_find_def)

lemma parse_from_segments:
  "list_all (\<lambda>(m, _, _). marker_ok m) segs \<Longrightarrow> blob = pre @ concat (map render_segment segs) \<Longrightarrow>
     parse_from blob (int (length pre)) acc = Some (acc @ segs)"
proof (induction segs arbitrary: pre acc)
  case Nil
  then show ?case using parse_from_end [of blob acc] by simp
next
  case (Cons seg segs)
  obtain m sz data where seg: "seg = (m, sz, data)" by (cases seg)
  have "parse_step blob (int (length pre)) = Some (Some seg, int (length (pre @ render_segment seg)))"
    using parse_step_segment [of m pre sz data "concat (map render_segment segs)"] Cons.prems seg by simp
  moreover have "parse_from blob (int (length (pre @ render_segment seg))) (acc @ [seg]) = Some ((acc @ [seg]) @ segs)"
    by (rule Cons.IH) (use Cons.prems in simp_all)
  ultimately show ?case by (subst parse_from.simps) simp
qed

text \<open>
  \<open>_control\<close> decodes the bytes it has read (\<open>bytes.decode\<close> with \<open>utf-8\<close>): bytes below 128 are the characters with the
  same code, whatever becomes of the others.
\<close>

definition ascii :: "string \<Rightarrow> bool" where
  "ascii s \<longleftrightarrow> list_all (\<lambda>c. of_char c < (128 :: nat)) s"

definition ascii_decoder :: "(string \<Rightarrow> string) \<Rightarrow> bool" where
  "ascii_decoder decode \<longleftrightarrow> (\<forall>b. ascii b \<longrightarrow> decode b = b)"

lemma ascii_simps [simp]:
  "ascii []" "ascii (c # s) \<longleftrightarrow> of_char c < (128 :: nat) \<and> ascii s" "ascii (s @ t) \<longleftrightarrow> ascii s \<and> ascii t"
  by (simp_all add: ascii_def)

lemma ascii_concat [simp]: "ascii (concat ss) \<longleftrightarrow> list_all ascii ss"
  by (induction ss) simp_all

lemma ascii_show_int [simp]: "ascii (show_int i)"
  unfolding ascii_def list_all_iff
proof
  fix c assume "c \<in> set (show_int i)"
  then have "is_digit c \<or> c = CHR ''-''" by (rule show_int_chars)
  then show "of_char c < (128 :: nat)" by (auto simp: is_digit_def)
qed

lemma ascii_header [simp]: "ascii (segment_header m sz n) \<longleftrightarrow> ascii m"
  by (simp add: segment_header_def)

lemma ascii_render [simp]: "ascii (render_segment (m, sz, data)) \<longleftrightarrow> ascii m \<and> ascii data"
  by (simp add: render_segment_def)

text \<open>The segments whose bytes and characters agree, with a header that is one line of three words.\<close>

definition segment_ok :: "string \<times> int \<times> string \<Rightarrow> bool" where
  "segment_ok seg = (case seg of (m, sz, data) \<Rightarrow> marker_ok m \<and> ascii m \<and> ascii data)"

lemma parse_decoded:
  assumes "ascii_decoder decode" and "list_all segment_ok segs"
  shows "parse_poll (decode (concat (map render_segment segs))) = Some segs"
proof -
  have "list_all (\<lambda>(m, _, _). marker_ok m) segs" "list_all ascii (map render_segment segs)"
    using assms(2) by (auto simp: list_all_iff segment_ok_def)
  then show ?thesis
    using assms(1) parse_from_segments [of segs "concat (map render_segment segs)" "[]" "[]"]
    by (simp add: parse_poll_def ascii_decoder_def)
qed



text \<open>
  The lengths are bytes on the node but characters after decoding. When the data of a segment decodes to two
  characters fewer than it has bytes, the parser takes the start of the next header for data, so the handle is
  fed characters it never wrote, and the next segment is not found.
\<close>

theorem parse_counts_characters:
  assumes "marker_ok m" and "CHR ''@'' \<notin> set (m' @ data')"
  shows "parse_poll (segment_header m sz (int (length data) + 2) @ data @ render_segment (m', sz', data'))
    = Some [(m, sz, data @ [newline, CHR ''@''])]"
proof -
  let ?h = "segment_header m sz (int (length data) + 2)"
  let ?line = "m' @ '' '' @ show_int sz' @ '' '' @ show_int (int (length data'))"
  let ?tail = "CHR ''@'' # ?line @ newline # data'"
  let ?blob = "?h @ data @ render_segment (m', sz', data')"
  have blob: "?blob = (?h @ data @ [newline, CHR ''@'']) @ ?tail"
    by (simp add: render_segment_def segment_header_def)
  have "parse_step ?blob (int (length ([] :: string))) = Some (Some (m, sz, take (nat (int (length data) + 2)) (data @ render_segment (m', sz', data'))),
      int (length ([] @ ?h)) + (int (length data) + 2))"
    by (rule parse_step_header [OF assms(1)]) simp_all
  moreover have "nat (int (length data) + 2) = length data + 2" by simp
  moreover have "take (length data + 2) (data @ render_segment (m', sz', data')) = data @ [newline, CHR ''@'']"
    by (simp add: render_segment_def segment_header_def)
  moreover have "int (length ([] @ ?h)) + (int (length data) + 2) = int (length (?h @ data @ [newline, CHR ''@'']))" by simp
  ultimately have step: "parse_step ?blob 0 = Some (Some (m, sz, data @ [newline, CHR ''@'']), int (length (?h @ data @ [newline, CHR ''@''])))"
    by (simp only: list.size of_nat_0)
  have none: "CHR ''@'' \<notin> set s \<Longrightarrow> find_sub ''@@'' s = None" for s
    by (induction s) (auto simp: startswith_def)
  have "CHR ''@'' \<notin> set (?line @ newline # data')"
    using assms(2) show_int_chars [of "CHR ''@''"] by (auto simp: is_digit_def)
  from none [OF this] have "find_sub ''@@'' ?tail = None"
    using assms(2) by (cases m') (auto simp: startswith_def)
  then have "py_find ?blob ''@@'' (int (length (?h @ data @ [newline, CHR ''@'']))) = - 1"
    unfolding py_find_def by (simp only: norm_index_int blob) simp
  then have "parse_step ?blob (int (length (?h @ data @ [newline, CHR ''@'']))) = None"
    by (simp add: parse_step_def)
  with step show ?thesis
    unfolding parse_poll_def by (subst parse_from.simps, simp only: option.case prod.case) (subst parse_from.simps, simp)
qed

theorem parse_counts_characters_witness:
  "parse_poll (segment_header ''O:bg1'' 4 4 @ ''ee'' @ render_segment (''E:bg1'', 3, ''bad''))
     = Some [(''O:bg1'', 4, ''ee'' @ [newline, CHR ''@''])]"
  using parse_counts_characters [of "''O:bg1''" "''E:bg1''" "''bad''" 4 "''ee''" 3]
  by (simp add: marker_ok_def is_space_def)

end
