(* ===== verification/SshPoll.thy ===== *)
theory SshPoll
  imports SshStream "HOL-Library.Sublist"
begin

text \<open>
  \<open>_BackgroundStreamPoller\<close> of \<open>framework/executors/ssh_executor.py\<close>: one control command reads the new
  output of every registered handle; the thread lives while handles are registered. The control command
  is an argument that maps the command and its timeout to an exception or to exit code and output.
\<close>

type_synonym 's control = "string \<Rightarrow> rat \<Rightarrow> 's \<Rightarrow> (py_error + int \<times> string) \<times> 's"

subsection \<open>One poll of all handles\<close>

definition capture_file :: "stream \<Rightarrow> ssh_process \<Rightarrow> string" where
  "capture_file c h = (case c of Out \<Rightarrow> sp_out_file h | Err \<Rightarrow> sp_err_file h)"

definition stream_marker :: "stream \<Rightarrow> ssh_process \<Rightarrow> string" where
  "stream_marker c h = (case c of Out \<Rightarrow> ''O:'' | Err \<Rightarrow> ''E:'') @ sp_stream_id h"

definition poll_cmd :: "ssh_process list \<Rightarrow> string" where
  "poll_cmd handles =
     join_with ''; ''
       (concat (map (\<lambda>h. map (\<lambda>c. segment_cmd (stream_marker c h) (capture_file c h) (sp_off h c)) [Out, Err]) handles))"

definition take_segment :: "stream \<Rightarrow> int \<Rightarrow> string \<Rightarrow> ssh_process \<Rightarrow> ssh_process" where
  "take_segment c sz data h = feed c data (h\<lparr>sp_off := (sp_off h)(c := sz)\<rparr>)"

definition dispatch_segment :: "string \<times> int \<times> string \<Rightarrow> ssh_process list \<Rightarrow> ssh_process list" where
  "dispatch_segment seg handles =
     (case seg of (marker, sz, data) \<Rightarrow>
        (case split1 CHR '':'' marker of (kind, rest) \<Rightarrow>
           let hid = (case rest of None \<Rightarrow> [] | Some r \<Rightarrow> r)
           in map (\<lambda>h. if sp_stream_id h = hid then take_segment (if kind = ''O'' then Out else Err) sz data h else h) handles))"

text \<open>\<open>None\<close>: the parser of the answer does not end.\<close>

definition poll_once :: "'s control \<Rightarrow> ssh_process list \<Rightarrow> 's \<Rightarrow> (py_error + ssh_process list) option \<times> 's" where
  "poll_once control handles s =
     (if handles = [] then (Some (Inr handles), s)
      else (case control (poll_cmd handles) 30 s of
              (Inl e, s) \<Rightarrow> (Some (Inl e), s)
            | (Inr (rc, blob), s) \<Rightarrow>
                (map_option (\<lambda>segs. Inr (fold dispatch_segment segs handles)) (parse_poll blob), s)))"

text \<open>
  What the command makes the node send. \<open>wc -c\<close> and \<open>tail -c\<close> read a file at two times: a snapshot gives for every file the
  content that \<open>wc -c\<close> sees and the content that \<open>tail -c\<close> sees. \<open>poll_handle\<close> is what the segments of one handle, taken by
  themselves, do to it.
\<close>

type_synonym snapshot = "string \<Rightarrow> string \<times> string"

definition announced :: "int \<Rightarrow> string \<Rightarrow> int" where
  "announced off counted = (if int (length counted) > off then int (length counted) - off else 0)"

definition tail_bytes :: "int \<Rightarrow> string \<Rightarrow> string" where
  "tail_bytes n content = drop (length content - nat n) content"

definition segment_answer :: "string \<Rightarrow> int \<Rightarrow> string \<times> string \<Rightarrow> string" where
  "segment_answer marker off reads =
     (case reads of (counted, shown) \<Rightarrow>
        let n = announced off counted in segment_header marker (int (length counted)) n @ tail_bytes n shown)"

definition poll_answer :: "snapshot \<Rightarrow> ssh_process list \<Rightarrow> string" where
  "poll_answer snap handles =
     concat (concat (map (\<lambda>h. map (\<lambda>c. segment_answer (stream_marker c h) (sp_off h c) (snap (capture_file c h))) [Out, Err]) handles))"

definition sent :: "snapshot \<Rightarrow> stream \<Rightarrow> ssh_process \<Rightarrow> int \<times> string" where
  "sent snap c h =
     (case snap (capture_file c h) of (counted, shown) \<Rightarrow> (int (length counted), tail_bytes (announced (sp_off h c) counted) shown))"

definition segments_of :: "snapshot \<Rightarrow> ssh_process \<Rightarrow> (string \<times> int \<times> string) list" where
  "segments_of snap h = map (\<lambda>c. (stream_marker c h, sent snap c h)) [Out, Err]"

definition poll_handle :: "snapshot \<Rightarrow> ssh_process \<Rightarrow> ssh_process" where
  "poll_handle snap h = fold (\<lambda>c g. take_segment c (fst (sent snap c h)) (snd (sent snap c h)) g) [Out, Err] h"

text \<open>A file that does not shrink has as many bytes as were announced.\<close>

definition grows :: "snapshot \<Rightarrow> bool" where
  "grows snap \<longleftrightarrow> (\<forall>p. prefix (fst (snap p)) (snd (snap p)))"

lemma segment_answer_render:
  assumes "grows snap" "0 \<le> sp_off h c"
  shows "segment_answer (stream_marker c h) (sp_off h c) (snap (capture_file c h)) = render_segment (stream_marker c h, sent snap c h)"
proof -
  obtain counted shown where s: "snap (capture_file c h) = (counted, shown)" by (cases "snap (capture_file c h)")
  then have "length counted \<le> length shown"
    using assms(1) prefix_length_le unfolding grows_def by (metis fst_conv snd_conv)
  then have "int (length (tail_bytes (announced (sp_off h c) counted) shown)) = announced (sp_off h c) counted"
    using assms(2) by (auto simp: tail_bytes_def announced_def)
  then show ?thesis by (simp add: segment_answer_def sent_def s render_segment_def Let_def)
qed

lemma take_segment_id [simp]: "sp_stream_id (take_segment c sz data h) = sp_stream_id h"
  by (simp add: take_segment_def)

lemma poll_handle_id [simp]: "sp_stream_id (poll_handle snap h) = sp_stream_id h"
  by (simp add: poll_handle_def)

text \<open>A handle as the executor makes it, at any time of its life: \<open>bg\<close> and a number, and offsets that are sizes.\<close>

definition handle_ok :: "ssh_process \<Rightarrow> bool" where
  "handle_ok h \<longleftrightarrow> marker_ok (sp_stream_id h) \<and> ascii (sp_stream_id h) \<and> (\<forall>c. 0 \<le> sp_off h c)"

lemma ascii_tail [simp]: "ascii s \<Longrightarrow> ascii (tail_bytes n s)"
  by (auto simp: ascii_def tail_bytes_def list_all_iff dest: in_set_dropD)

lemma segments_ok:
  assumes "handle_ok h" and "\<And>p. ascii (snd (snap p))"
  shows "list_all segment_ok (segments_of snap h)"
proof -
  have "segment_ok (stream_marker c h, sent snap c h)" for c
    using assms(1) ascii_tail [OF assms(2) [of "capture_file c h"], of "announced (sp_off h c) (fst (snap (capture_file c h)))"]
    by (cases c) (auto simp: segment_ok_def sent_def stream_marker_def handle_ok_def marker_ok_def is_space_def split: prod.split)
  then show ?thesis by (simp add: segments_of_def)
qed

text \<open>The two segments of a handle reach that handle and no other.\<close>

lemma dispatch_segments:
  "fold dispatch_segment (segments_of snap h) handles =
     map (\<lambda>g. if sp_stream_id g = sp_stream_id h
              then fold (\<lambda>c g. take_segment c (fst (sent snap c h)) (snd (sent snap c h)) g) [Out, Err] g else g) handles"
  by (auto simp: segments_of_def dispatch_segment_def stream_marker_def Let_def split: prod.split)

lemma dispatch_all:
  "distinct (map sp_stream_id (before @ todo)) \<Longrightarrow>
     fold dispatch_segment (concat (map (segments_of snap) todo)) (map (poll_handle snap) before @ todo)
       = map (poll_handle snap) (before @ todo)"
proof (induction todo arbitrary: before)
  case (Cons h todo)
  have "fold dispatch_segment (segments_of snap h) (map (poll_handle snap) before @ h # todo)
      = map (poll_handle snap) (before @ [h]) @ todo"
    unfolding dispatch_segments using Cons.prems
    by (auto simp: poll_handle_def [of snap h] intro!: map_idI) (metis imageI poll_handle_id)+
  with Cons.IH [of "before @ [h]"] Cons.prems show ?case by simp
qed simp

text \<open>
  The coalesced poll is as good as polling each handle by itself: one control command leads every handle to the
  state that its own files alone determine, however many handles share the connection.
\<close>

lemma poll_once_coalesces:
  assumes "ascii_decoder decode" "distinct (map sp_stream_id handles)" "list_all handle_ok handles" "handles \<noteq> []"
    and "grows snap" "\<And>p. ascii (snd (snap p))"
    and "control (poll_cmd handles) 30 s = (Inr (rc, decode (poll_answer snap handles)), s')"
  shows "poll_once control handles s = (Some (Inr (map (poll_handle snap) handles)), s')"
proof -
  have "segment_answer (stream_marker c h) (sp_off h c) (snap (capture_file c h)) = render_segment (stream_marker c h, sent snap c h)"
    if "h \<in> set handles" for h c
    using assms(3,5) that by (intro segment_answer_render) (auto simp: list_all_iff handle_ok_def)
  then have answer: "poll_answer snap handles = concat (map render_segment (concat (map (segments_of snap) handles)))"
    unfolding poll_answer_def by (induction handles) (simp_all add: segments_of_def)
  have "list_all segment_ok (concat (map (segments_of snap) handles))"
    using assms(3) segments_ok [OF _ assms(6)] by (fastforce simp: list_all_iff)
  from parse_decoded [OF assms(1) this] assms(2,4,7) dispatch_all [of "[]" handles snap] show ?thesis
    by (simp add: poll_once_def answer)
qed

subsection \<open>Many polls of growing files\<close>

text \<open>The live view of a handle is up to date with the contents of its two files.\<close>

definition tracks :: "(string \<Rightarrow> string) \<Rightarrow> ssh_process \<Rightarrow> ssh_process \<Rightarrow> bool" where
  "tracks content h0 h \<longleftrightarrow>
     (\<exists>ls. emitted ls h0 h \<and>
        (\<forall>c. of_stream c ls @ [sp_buf h c] = split_on newline (content (capture_file c h0)) \<and>
             sp_off h c = int (length (content (capture_file c h0)))))"

lemma emitted_file: "emitted ls h0 h \<Longrightarrow> capture_file c h = capture_file c h0"
  unfolding emitted_def capture_file_def by (cases h0; cases h) (auto split: stream.split)

lemma tracks_id: "tracks content h0 h \<Longrightarrow> sp_stream_id h = sp_stream_id h0"
  unfolding tracks_def emitted_def by (cases h0; cases h) auto

lemma tracks_fresh: "sp_buf h = (\<lambda>_. []) \<Longrightarrow> sp_off h = (\<lambda>_. 0) \<Longrightarrow> tracks (\<lambda>_. []) h h"
  unfolding tracks_def by (intro exI [of _ "[]"]) (simp add: emitted_def)

text \<open>One segment brings one stream up to date and leaves the other as it was.\<close>

lemma take_segment_emitted:
  assumes "emitted ls h0 h" and "of_stream c ls @ [sp_buf h c] = split_on newline old"
    and "new = old @ data"
  shows "\<exists>ls'. emitted (ls @ ls') h0 (take_segment c sz data h) \<and>
    of_stream c (ls @ ls') @ [sp_buf (take_segment c sz data h) c] = split_on newline new \<and>
    sp_off (take_segment c sz data h) = (sp_off h)(c := sz) \<and>
    (\<forall>d. d \<noteq> c \<longrightarrow> of_stream d ls' = [] \<and> sp_buf (take_segment c sz data h) d = sp_buf h d)"
proof -
  let ?h = "h\<lparr>sp_off := (sp_off h)(c := sz)\<rparr>"
  have "emitted [] h ?h" using emitted_refl [of h "sp_buf h" "(sp_off h)(c := sz)"] by simp
  with assms(1) have e: "emitted ls h0 ?h" using emitted_trans by fastforce
  obtain ls' where ls': "emitted ls' ?h (feed c data ?h)" "of_stream c ls' @ [sp_buf (feed c data ?h) c] =
       (if data = [] then [sp_buf ?h c] else split_on newline (sp_buf ?h c @ data))"
     "\<And>d. d \<noteq> c \<Longrightarrow> of_stream d ls' = [] \<and> sp_buf (feed c data ?h) d = sp_buf ?h d"
    using feed_emitted [of ?h c data] by blast
  have "butlast (split_on newline old) = of_stream c ls" "last (split_on newline old) = sp_buf h c"
    by (simp_all flip: assms(2))
  then have "split_on newline new = of_stream c ls @ split_on newline (sp_buf h c @ data)"
    unfolding assms(3) by (subst split_on_append) simp
  with ls' assms(2,3) emitted_trans [OF e ls'(1)] show ?thesis
    by (intro exI [of _ ls']) (auto simp: take_segment_def split: if_splits)
qed

text \<open>A snapshot in which no file changes between the two commands.\<close>

definition steady :: "(string \<Rightarrow> string) \<Rightarrow> snapshot" where
  "steady seen p = (seen p, seen p)"

lemma steady_grows [simp]: "grows (steady seen)"
  by (simp add: grows_def steady_def)

lemma poll_handle_tracks:
  assumes "tracks content h0 h" and "\<And>c. prefix (content (capture_file c h0)) (seen (capture_file c h0))"
  shows "tracks seen h0 (poll_handle (steady seen) h)"
proof -
  obtain ls where ls: "emitted ls h0 h" "\<And>c. of_stream c ls @ [sp_buf h c] = split_on newline (content (capture_file c h0))"
    "\<And>c. sp_off h c = int (length (content (capture_file c h0)))"
    using assms(1) unfolding tracks_def by blast
  let ?new = "\<lambda>c. seen (capture_file c h0)"
  let ?data = "\<lambda>c. snd (sent (steady seen) c h)"
  have split: "?new c = content (capture_file c h0) @ ?data c" for c
    using assms(2) [of c] ls(3) [of c] emitted_file [OF ls(1), of c]
    by (auto simp: sent_def steady_def tail_bytes_def announced_def prefix_def)
  let ?g = "take_segment Out (int (length (?new Out))) (?data Out) h"
  let ?k = "take_segment Err (int (length (?new Err))) (?data Err) ?g"
  have "fst (sent (steady seen) c h) = int (length (?new c))" for c
    using emitted_file [OF ls(1), of c] by (simp add: sent_def steady_def)
  then have k: "poll_handle (steady seen) h = ?k" by (simp add: poll_handle_def)
  obtain l1 where l1: "emitted (ls @ l1) h0 ?g" "of_stream Out (ls @ l1) @ [sp_buf ?g Out] = split_on newline (?new Out)"
    "sp_off ?g = (sp_off h)(Out := int (length (?new Out)))" "of_stream Err l1 = []" "sp_buf ?g Err = sp_buf h Err"
    using take_segment_emitted [OF ls(1) ls(2) split, where c = Out and sz = "int (length (?new Out))"] by auto
  have "of_stream Err (ls @ l1) @ [sp_buf ?g Err] = split_on newline (content (capture_file Err h0))"
    using ls(2) [of Err] l1(4,5) by simp
  from take_segment_emitted [OF l1(1) this split, where sz = "int (length (?new Err))"]
  obtain l2 where l2: "emitted ((ls @ l1) @ l2) h0 ?k" "of_stream Err ((ls @ l1) @ l2) @ [sp_buf ?k Err] = split_on newline (?new Err)"
    "sp_off ?k = (sp_off ?g)(Err := int (length (?new Err)))" "of_stream Out l2 = []" "sp_buf ?k Out = sp_buf ?g Out"
    by auto
  have "of_stream c ((ls @ l1) @ l2) @ [sp_buf ?k c] = split_on newline (?new c) \<and> sp_off ?k c = int (length (?new c))" for c
    using l1 l2 by (cases c) simp_all
  with l2(1) k show ?thesis unfolding tracks_def by auto
qed

lemma poll_once_tracks:
  assumes dec: "ascii_decoder decode" and ids: "distinct (map sp_stream_id hs0)" "list_all handle_ok hs0" "hs0 \<noteq> []"
    and tr: "list_all2 (tracks content) hs0 hs" and seen: "\<And>p. prefix (content p) (seen p)" "\<And>p. ascii (seen p)"
    and ans: "control (poll_cmd hs) 30 s = (Inr (rc, decode (poll_answer (steady seen) hs)), s')"
  shows "\<exists>hs'. poll_once control hs s = (Some (Inr hs'), s') \<and> list_all2 (tracks seen) hs0 hs'"
proof -
  have "map sp_stream_id hs = map sp_stream_id hs0"
    using tr tracks_id by (induction rule: list_all2_induct) auto
  moreover have "list_all handle_ok hs"
    using tr ids(2) by (induction rule: list_all2_induct) (auto simp: handle_ok_def tracks_id, auto simp: tracks_def)
  moreover have "hs \<noteq> []" using tr ids(3) by auto
  moreover have "ascii (snd (steady seen p))" for p using seen(2) by (simp add: steady_def)
  ultimately have "poll_once control hs s = (Some (Inr (map (poll_handle (steady seen)) hs)), s')"
    using poll_once_coalesces [where snap = "steady seen" and decode = decode and control = control and handles = hs, OF dec _ _ _ _ _ ans] ids(1) by simp
  moreover have "list_all2 (tracks seen) hs0 (map (poll_handle (steady seen)) hs)"
    using tr seen(1) by (auto simp: list.rel_map intro: poll_handle_tracks elim!: list_all2_mono)
  ultimately show ?thesis by blast
qed

text \<open>
  The turns of \<open>_loop\<close> while the set of handles stays the same: a poll, whose exceptions are suppressed, and the wait for the
  next one.
\<close>

fun poll_turns :: "'s control \<Rightarrow> ('s \<Rightarrow> 's) \<Rightarrow> nat \<Rightarrow> ssh_process list \<Rightarrow> 's \<Rightarrow> (ssh_process list \<times> 's) option" where
  "poll_turns control wait 0 handles s = Some (handles, s)"
| "poll_turns control wait (Suc n) handles s =
     (case poll_once control handles s of
        (None, s) \<Rightarrow> None
      | (Some r, s) \<Rightarrow> poll_turns control wait n (case r of Inl e \<Rightarrow> handles | Inr handles \<Rightarrow> handles) (wait s))"

text \<open>
  A node whose files hold ASCII text and only grow, but not between the two reads of one poll. A control command for the given
  streams may fail; otherwise it answers for contents that the files had while it ran.
\<close>

definition same_streams :: "ssh_process \<Rightarrow> ssh_process \<Rightarrow> bool" where
  "same_streams h h' \<longleftrightarrow> sp_stream_id h' = sp_stream_id h \<and> (\<forall>c. capture_file c h' = capture_file c h)"

definition node_ok ::
  "'s control \<Rightarrow> ('s \<Rightarrow> 's) \<Rightarrow> (string \<Rightarrow> string) \<Rightarrow> ('s \<Rightarrow> string \<Rightarrow> string) \<Rightarrow> ssh_process list \<Rightarrow> bool" where
  "node_ok control wait decode files hs0 \<longleftrightarrow> ascii_decoder decode \<and> (\<forall>s p. ascii (files s p) \<and> prefix (files s p) (files (wait s) p)) \<and>
     (\<forall>handles s. list_all2 same_streams hs0 handles \<longrightarrow> (case control (poll_cmd handles) 30 s of
        (Inl e, s') \<Rightarrow> \<forall>p. prefix (files s p) (files s' p)
      | (Inr (rc, blob), s') \<Rightarrow> \<exists>seen. blob = decode (poll_answer (steady seen) handles) \<and>
          (\<forall>p. prefix (files s p) (seen p) \<and> prefix (seen p) (files s' p))))"

lemma tracks_same: "tracks content h0 h \<Longrightarrow> same_streams h0 h"
  using tracks_id emitted_file unfolding same_streams_def tracks_def by blast

lemma ascii_prefix: "prefix s t \<Longrightarrow> ascii t \<Longrightarrow> ascii s"
  by (auto simp: prefix_def)

lemma poll_once_step:
  assumes node: "node_ok control wait decode files hs0" and ids: "distinct (map sp_stream_id hs0)" "list_all handle_ok hs0" "hs0 \<noteq> []"
    and tr: "list_all2 (tracks content) hs0 hs" "\<And>p. prefix (content p) (files s p)"
    and ctl: "control (poll_cmd hs) 30 s = (r, s')"
  shows "(case r of
      Inl e \<Rightarrow> poll_once control hs s = (Some (Inl e), s') \<and> (\<forall>p. prefix (content p) (files s' p))
    | Inr a \<Rightarrow> \<exists>hs' seen. poll_once control hs s = (Some (Inr hs'), s') \<and> list_all2 (tracks seen) hs0 hs' \<and>
        (\<forall>p. prefix (files s p) (seen p) \<and> prefix (seen p) (files s' p)))"
proof -
  have "list_all2 same_streams hs0 hs" using tr(1) tracks_same by (rule list_all2_mono)
  then have answer: "case control (poll_cmd hs) 30 s of
        (Inl e, s') \<Rightarrow> \<forall>p. prefix (files s p) (files s' p)
      | (Inr (rc, blob), s') \<Rightarrow> \<exists>seen. blob = decode (poll_answer (steady seen) hs) \<and>
          (\<forall>p. prefix (files s p) (seen p) \<and> prefix (seen p) (files s' p))"
    using node unfolding node_ok_def by simp
  show ?thesis
  proof (cases r)
    case (Inl e)
    have "hs \<noteq> []" using tr(1) ids(3) by auto
    moreover have "prefix (files s p) (files s' p)" for p using answer ctl Inl by simp
    ultimately show ?thesis using Inl ctl tr(2) prefix_order.trans by (fastforce simp: poll_once_def)
  next
    case (Inr a)
    obtain rc blob where a: "a = (rc, blob)" by (cases a)
    obtain seen where seen: "blob = decode (poll_answer (steady seen) hs)" "\<And>p. prefix (files s p) (seen p)" "\<And>p. prefix (seen p) (files s' p)"
      using answer ctl Inr a by auto
    have "ascii (seen p)" for p using node seen(3) [of p] ascii_prefix unfolding node_ok_def by blast
    moreover have "prefix (content p) (seen p)" for p using tr(2) [of p] seen(2) [of p] by (rule prefix_order.trans)
    moreover have "ascii_decoder decode" using node by (simp add: node_ok_def)
    ultimately obtain hs' where "poll_once control hs s = (Some (Inr hs'), s')" "list_all2 (tracks seen) hs0 hs'"
      using poll_once_tracks [OF _ ids tr(1)] ctl Inr a seen(1) by metis
    with seen Inr show ?thesis by auto
  qed
qed

lemma poll_turns_tracks:
  assumes node: "node_ok control wait decode files hs0" and ids: "distinct (map sp_stream_id hs0)" "list_all handle_ok hs0" "hs0 \<noteq> []"
  shows "list_all2 (tracks content) hs0 hs \<Longrightarrow> (\<And>p. prefix (content p) (files s p)) \<Longrightarrow>
    \<exists>hs' s' seen. poll_turns control wait n hs s = Some (hs', s') \<and> list_all2 (tracks seen) hs0 hs' \<and> (\<forall>p. prefix (seen p) (files s' p))"
proof (induction n arbitrary: content hs s)
  case 0
  then show ?case by auto
next
  case (Suc n)
  obtain r s1 where ctl: "control (poll_cmd hs) 30 s = (r, s1)" by (cases "control (poll_cmd hs) 30 s")
  have wait: "prefix (files s1 p) (files (wait s1) p)" for p using node by (simp add: node_ok_def)
  note step = poll_once_step [OF node ids Suc.prems ctl]
  show ?case
  proof (cases r)
    case (Inl e)
    then have "poll_once control hs s = (Some (Inl e), s1)" "\<And>p. prefix (content p) (files (wait s1) p)"
      using step wait prefix_order.trans by fastforce+
    then show ?thesis using Suc.IH [OF Suc.prems(1), of "wait s1"] by simp
  next
    case (Inr a)
    then obtain hs' seen where hs': "poll_once control hs s = (Some (Inr hs'), s1)" "list_all2 (tracks seen) hs0 hs'"
      "\<And>p. prefix (seen p) (files s1 p)"
      using step by auto
    have "prefix (seen p) (files (wait s1) p)" for p using hs'(3) wait by (rule prefix_order.trans)
    then show ?thesis using Suc.IH [OF hs'(2), of "wait s1"] hs'(1) by simp
  qed
qed


text \<open>A node with fixed files that answers the first command for one handle, and no other command.\<close>

definition demo_content :: "string \<Rightarrow> string" where
  "demo_content p = (if p = ''/tmp/bg1.out'' then ''up'' @ [newline] @ ''se'' else if p = ''/tmp/bg1.err'' then ''@@'' else [])"

definition demo_control :: "unit control" where
  "demo_control cmd t s =
     (if cmd = poll_cmd [demo_handle ''bg1''] then Inr (0, poll_answer (steady demo_content) [demo_handle ''bg1'']) else Inl TimeoutError, s)"

lemma show_int_until_space: "show_int a @ CHR '' '' # x = show_int b @ CHR '' '' # y \<longleftrightarrow> a = b \<and> x = y"
proof
  assume eq: "show_int a @ CHR '' '' # x = show_int b @ CHR '' '' # y"
  have "takeWhile (\<lambda>c. \<not> is_space c) (show_int i @ CHR '' '' # z) = show_int i" for i z
    using show_int_no_space [of _ i] by (subst takeWhile_append2) auto
  from this [of a x] this [of b y] have "show_int a = show_int b" unfolding eq by simp
  with eq show "a = b \<and> x = y" by simp
qed simp

lemma segment_cmd_offset: "segment_cmd m p a @ x = segment_cmd m p b @ y \<longleftrightarrow> a = b \<and> x = y"
proof
  assume "segment_cmd m p a @ x = segment_cmd m p b @ y"
  then have "a = b" by (simp add: segment_cmd_def show_int_until_space)
  with \<open>segment_cmd m p a @ x = segment_cmd m p b @ y\<close> show "a = b \<and> x = y" by simp
qed simp

lemma demo_node_ok: "node_ok demo_control id id (\<lambda>_. demo_content) [demo_handle ''bg1'']"
proof -
  have "poll_answer (steady seen) [h] = poll_answer (steady seen) [demo_handle ''bg1'']"
    if "same_streams (demo_handle ''bg1'') h" "poll_cmd [h] = poll_cmd [demo_handle ''bg1'']" for seen h
  proof -
    have same: "stream_marker c h = stream_marker c (demo_handle ''bg1'')" "capture_file c h = capture_file c (demo_handle ''bg1'')" for c
      using that(1) by (simp_all add: same_streams_def stream_marker_def)
    have "sp_off h Out = sp_off (demo_handle ''bg1'') Out \<and> sp_off h Err = sp_off (demo_handle ''bg1'') Err"
      using that(2) segment_cmd_offset [of _ _ _ "[]" _ "[]"] by (simp add: poll_cmd_def same segment_cmd_offset)
    then show ?thesis by (simp add: poll_answer_def same)
  qed
  moreover have "ascii (demo_content p)" for p by (simp add: demo_content_def)
  ultimately show ?thesis
    by (auto simp: node_ok_def ascii_decoder_def demo_control_def list_all2_Cons1 intro!: exI [of _ demo_content])
qed


text \<open>
  A file that grows between the two commands of a poll: the first poll sees three bytes with \<open>wc -c\<close> and sends the last three of six, and the
  second poll sends the same three again. The first line of the file is lost and its second line is shown twice.
\<close>

definition demo_growth :: "nat \<Rightarrow> snapshot" where
  "demo_growth n p =
     (if p = ''/tmp/bg1.out''
      then (if n = 0 then (''ab'' @ [newline], ''ab'' @ [newline] @ ''cd'' @ [newline]) else steady (\<lambda>_. ''ab'' @ [newline] @ ''cd'' @ [newline]) p)
      else ([], []))"

theorem growing_file_garbled:
  "\<exists>h1 h2. poll_once (\<lambda>cmd t s. (Inr (0, poll_answer (demo_growth 0) [demo_handle ''bg1'']), s)) [demo_handle ''bg1''] () = (Some (Inr [h1]), ()) \<and>
     poll_once (\<lambda>cmd t s. (Inr (0, poll_answer (demo_growth 1) [h1]), s)) [h1] () = (Some (Inr [h2]), ()) \<and>
     sp_log h2 = [''cd'', ''cd'']"
proof -
  have grow: "grows (demo_growth n)" "ascii (snd (demo_growth n p))" for n p
    by (auto simp: grows_def demo_growth_def steady_def prefix_def)
  have dec: "ascii_decoder id" by (simp add: ascii_decoder_def)
  let ?h1 = "poll_handle (demo_growth 0) (demo_handle ''bg1'')"
  let ?h2 = "poll_handle (demo_growth 1) ?h1"
  have ok: "list_all handle_ok [demo_handle ''bg1'']" by (simp add: handle_ok_def demo_handle_def marker_ok_def is_space_def)
  have offs: "sp_off ?h1 Out = 3" "sp_off ?h1 Err = 0" by code_simp+
  then have "0 \<le> sp_off ?h1 c" for c by (cases c) simp_all
  with ok have ok': "list_all handle_ok [?h1]" by (simp add: handle_ok_def)
  have "poll_once (\<lambda>cmd t s. (Inr (0, poll_answer (demo_growth 0) [demo_handle ''bg1'']), s)) [demo_handle ''bg1''] () = (Some (Inr [?h1]), ())"
    using poll_once_coalesces [OF dec _ ok _ grow, of "\<lambda>cmd t s. (Inr (0, poll_answer (demo_growth 0) [demo_handle ''bg1'']), s)" "()"] by simp
  moreover have "poll_once (\<lambda>cmd t s. (Inr (0, poll_answer (demo_growth 1) [?h1]), s)) [?h1] () = (Some (Inr [?h2]), ())"
    using poll_once_coalesces [OF dec _ ok' _ grow, of "\<lambda>cmd t s. (Inr (0, poll_answer (demo_growth 1) [?h1]), s)" "()"] by simp
  moreover have "sp_log ?h2 = [''cd'', ''cd'']" by code_simp
  ultimately show ?thesis by blast
qed

subsection \<open>The life of the poller thread\<close>

text \<open>
  The thread is at the head of its loop (\<open>Looping\<close>), in the last poll after the loop (\<open>Draining\<close>), or has
  ended. \<open>unregister\<close> sets the event after it has given the lock back: \<open>pl_setters\<close> counts the calls
  between these two points.
\<close>

datatype poller_thread = NoThread | Looping | Draining | Ended

record poller =
  pl_handles :: "string list"
  pl_stop :: bool
  pl_thread :: poller_thread
  pl_setters :: nat

definition new_poller :: poller where
  "new_poller = \<lparr>pl_handles = [], pl_stop = False, pl_thread = NoThread, pl_setters = 0\<rparr>"

definition thread_alive :: "poller_thread \<Rightarrow> bool" where
  "thread_alive t \<longleftrightarrow> t = Looping \<or> t = Draining"

definition register_handle :: "string \<Rightarrow> poller \<Rightarrow> poller" where
  "register_handle i p =
     (let p = p\<lparr>pl_handles := (if i \<in> set (pl_handles p) then pl_handles p else pl_handles p @ [i])\<rparr>
      in if thread_alive (pl_thread p) then p else p\<lparr>pl_stop := False, pl_thread := Looping\<rparr>)"

definition unregister_pop :: "string \<Rightarrow> poller \<Rightarrow> poller" where
  "unregister_pop i p =
     (let p = p\<lparr>pl_handles := filter (\<lambda>j. j \<noteq> i) (pl_handles p)\<rparr>
      in if pl_handles p = [] then p\<lparr>pl_setters := Suc (pl_setters p)\<rparr> else p)"

definition unregister_set :: "poller \<Rightarrow> poller" where
  "unregister_set p = p\<lparr>pl_stop := True, pl_setters := pl_setters p - 1\<rparr>"

text \<open>The thread at the head of its loop and after its last poll.\<close>

definition loop_turn :: "poller \<Rightarrow> poller" where
  "loop_turn p =
     (case pl_thread p of
        Looping \<Rightarrow> if pl_stop p then p\<lparr>pl_thread := Draining\<rparr> else p
      | Draining \<Rightarrow> p\<lparr>pl_thread := Ended\<rparr>
      | _ \<Rightarrow> p)"

inductive poller_step :: "poller \<Rightarrow> poller \<Rightarrow> bool" where
  do_register: "poller_step p (register_handle i p)"
| do_unregister: "poller_step p (unregister_pop i p)"
| do_set: "pl_setters p > 0 \<Longrightarrow> poller_step p (unregister_set p)"
| do_turn: "poller_step p (loop_turn p)"

inductive poller_reachable :: "poller \<Rightarrow> bool" where
  poller_start: "poller_reachable new_poller"
| poller_next: "poller_reachable p \<Longrightarrow> poller_step p p' \<Longrightarrow> poller_reachable p'"

lemmas poller_ops = register_handle_def unregister_pop_def unregister_set_def loop_turn_def thread_alive_def

text \<open>
  An idle executor keeps no poller thread: whenever no handle is registered and no \<open>unregister\<close> is under
  way, the thread is not alive after at most two more of its turns.
\<close>

theorem idle_poller_ends:
  assumes "poller_reachable p" and "pl_handles p = []" and "pl_setters p = 0"
  shows "\<not> thread_alive (pl_thread (loop_turn (loop_turn p)))"
proof -
  have "pl_handles p = [] \<and> pl_setters p = 0 \<longrightarrow> pl_stop p \<or> pl_thread p = NoThread"
    using assms(1)
  proof (induction rule: poller_reachable.induct)
    case poller_start
    then show ?case by (simp add: new_poller_def)
  next
    case (poller_next p p')
    from poller_next.hyps(2) poller_next.IH show ?case
      by (cases rule: poller_step.cases)
        (auto simp: poller_ops Let_def split: if_splits poller_thread.splits)
  qed
  with assms(2,3) show ?thesis by (auto simp: poller_ops split: poller_thread.split)
qed

text \<open>The poller after each of the given steps.\<close>

lemma poller_reachable_run:
  "poller_reachable p \<Longrightarrow> poller_reachable (register_handle i p)"
  "poller_reachable p \<Longrightarrow> poller_reachable (unregister_pop i p)"
  "poller_reachable p \<Longrightarrow> pl_setters p > 0 \<Longrightarrow> poller_reachable (unregister_set p)"
  "poller_reachable p \<Longrightarrow> poller_reachable (loop_turn p)"
  by (auto intro: poller_next poller_step.intros)

theorem idle_poller_ends_witness:
  "\<not> thread_alive (pl_thread (loop_turn (loop_turn (unregister_set (unregister_pop ''bg1'' (register_handle ''bg1'' new_poller))))))"
proof -
  let ?p = "unregister_set (unregister_pop ''bg1'' (register_handle ''bg1'' new_poller))"
  have "poller_reachable ?p"
    by (intro poller_reachable_run poller_start) (simp add: poller_ops new_poller_def)
  moreover have "pl_handles ?p = []" "pl_setters ?p = 0" by (simp_all add: poller_ops new_poller_def)
  ultimately show ?thesis by (rule idle_poller_ends)
qed

text \<open>
  A handle can be stranded: when it is registered after the last other handle has left but before the thread has
  noticed, the thread still counts as alive, so no new one is started, and then ends. The handle stays
  registered with nobody to poll it.
\<close>

theorem poller_strands_handle:
  "\<exists>p. poller_reachable p \<and> pl_handles p = [i] \<and> pl_setters p = 0 \<and> pl_thread p = Ended \<and> loop_turn p = p"
proof -
  let ?p = "loop_turn (loop_turn (register_handle i (unregister_set (unregister_pop i (register_handle i new_poller)))))"
  have "poller_reachable ?p"
    by (intro poller_reachable_run poller_start) (simp add: poller_ops new_poller_def)
  moreover have "pl_handles ?p = [i]" "pl_setters ?p = 0" "pl_thread ?p = Ended" "loop_turn ?p = ?p"
    by (simp_all add: poller_ops new_poller_def)
  ultimately show ?thesis by blast
qed

end
