(* ===== verification/SshExec.thy ===== *)
theory SshExec
  imports SshPoll
begin

text \<open>
  \<open>SshExecutor\<close> of \<open>framework/executors/ssh_executor.py\<close>: the connection, running a command, control
  commands, creating remote directories and staging a tree. The \<open>paramiko\<close> client and the local file system
  are a record of functions over an abstract state; its exceptions are passed on as they come.
\<close>

subsection \<open>The client\<close>

record connect_args =
  ca_hostname :: string
  ca_port :: int
  ca_username :: string
  ca_timeout :: rat
  ca_key_filename :: "string option"
  ca_password :: "string option"

text \<open>
  \<open>sa_alive\<close>: the transport is active and takes a keepalive probe. \<open>sa_exec\<close> starts a command on a new
  channel, \<open>sa_err_line\<close> reads the next line of its standard error (\<open>None\<close> at the end and when the read
  raises), \<open>sa_read_all\<close> reads both streams to the end and the exit status. The rest serves the streaming
  reader: \<open>sa_recv\<close> is what is ready on a stream, decoded, and empty when nothing is; \<open>sa_finished\<close> says
  that the exit status is there and nothing more to read. \<open>sa_put\<close> uploads a file, false when that raises.
\<close>

record 's ssh_api =
  sa_installed :: bool
  sa_clock :: "'s \<Rightarrow> rat"
  sa_alive :: "'s \<Rightarrow> bool \<times> 's"
  sa_close :: "'s \<Rightarrow> 's"
  sa_connect :: "connect_args \<Rightarrow> 's \<Rightarrow> (py_error + unit) \<times> 's"
  sa_exec :: "string \<Rightarrow> rat \<Rightarrow> 's \<Rightarrow> (py_error + unit) \<times> 's"
  sa_err_line :: "'s \<Rightarrow> string option \<times> 's"
  sa_read_all :: "'s \<Rightarrow> (py_error + string \<times> string \<times> int) \<times> 's"
  sa_close_channel :: "'s \<Rightarrow> 's"
  sa_select :: "'s \<Rightarrow> 's"
  sa_recv :: "stream \<Rightarrow> 's \<Rightarrow> string \<times> 's"
  sa_finished :: "'s \<Rightarrow> bool"
  sa_sleep :: "rat \<Rightarrow> 's \<Rightarrow> 's"
  sa_exit_status :: "'s \<Rightarrow> int \<times> 's"
  sa_open_sftp :: "'s \<Rightarrow> (py_error + unit) \<times> 's"
  sa_put :: "string \<Rightarrow> string \<Rightarrow> 's \<Rightarrow> bool \<times> 's"
  sa_close_sftp :: "'s \<Rightarrow> 's"

datatype log_event = CmdStart string | CmdEnd string string int

record ssh_executor =
  sx_host :: string
  sx_user :: string
  sx_key_path :: "string option"
  sx_password :: "string option"
  sx_port :: int
  sx_connect_timeout :: rat
  sx_gpu_indices :: "int list"
  sx_logger :: "log_event list option"
  sx_connected :: bool
  sx_remote_home :: "string option"
  sx_remote_root :: "string option"

definition session_key :: "ssh_executor \<Rightarrow> string" where
  "session_key x = sx_user x @ ''@'' @ sx_host x @ '':'' @ show_int (sx_port x)"

text \<open>An empty key path or password is not passed on.\<close>

definition nonempty :: "string option \<Rightarrow> string option" where
  "nonempty v = (case v of Some (c # s) \<Rightarrow> Some (c # s) | _ \<Rightarrow> None)"

definition connect_kwargs :: "ssh_executor \<Rightarrow> connect_args" where
  "connect_kwargs x =
     \<lparr>ca_hostname = sx_host x, ca_port = sx_port x, ca_username = sx_user x, ca_timeout = sx_connect_timeout x,
      ca_key_filename = nonempty (sx_key_path x), ca_password = nonempty (sx_password x)\<rparr>"

definition ssh_connect :: "'s ssh_api \<Rightarrow> ssh_executor \<times> 's \<Rightarrow> (py_error + unit) \<times> ssh_executor \<times> 's" where
  "ssh_connect api xs =
     (let (x, s) = xs in
      if \<not> sa_installed api then (Inl RuntimeError, x, s)
      else
        let (alive, s) = (if sx_connected x then sa_alive api s else (False, s)) in
        if alive then (Inr (), x, s)
        else
          let s = (if sx_connected x then sa_close api s else s)
          in (case sa_connect api (connect_kwargs x) s of
                (Inl e, s) \<Rightarrow> (Inl e, x\<lparr>sx_connected := False\<rparr>, s)
              | (Inr _, s) \<Rightarrow> (Inr (), x\<lparr>sx_connected := True\<rparr>, s)))"

definition ssh_close :: "'s ssh_api \<Rightarrow> ssh_executor \<times> 's \<Rightarrow> ssh_executor \<times> 's" where
  "ssh_close api xs =
     (let (x, s) = xs in if sx_connected x then (x\<lparr>sx_connected := False\<rparr>, sa_close api s) else (x, s))"

subsection \<open>Running a command\<close>

definition remote_env :: "ssh_executor \<Rightarrow> (string \<times> string) list \<Rightarrow> (string \<times> string) list" where
  "remote_env x env_overrides =
     fold (\<lambda>(k, v) env. dict_set k v env) env_overrides
       (if sx_gpu_indices x = [] then []
        else [(''ROCR_VISIBLE_DEVICES'', join_with '','' (map show_int (sx_gpu_indices x)))])"

definition export_cmd :: "string \<times> string \<Rightarrow> string" where
  "export_cmd kv = ''export '' @ fst kv @ ''='' @ shlex_quote (snd kv) @ '';''"

definition exports :: "(string \<times> string) list \<Rightarrow> string" where
  "exports env = (if env = [] then [] else join_with '' '' (map export_cmd env) @ '' '')"

definition pid_marker :: string where
  "pid_marker = ''__SSH_PID__''"

definition run_script :: "(string \<times> string) list \<Rightarrow> string \<Rightarrow> string" where
  "run_script env cmd =
     ''echo '' @ pid_marker @ ''$$ >&2; '' @ exports env @ ''exec bash -lc '' @ shlex_quote cmd"

definition wrapped_cmd :: "(string \<times> string) list \<Rightarrow> string \<Rightarrow> string" where
  "wrapped_cmd env cmd = ''bash -c '' @ shlex_quote (run_script env cmd)"

text \<open>
  Reading standard error up to the line with the process id: the lines before it are kept, the id is
  \<open>None\<close> when its line does not come or does not hold a number.
\<close>

definition pid_turn :: "'s ssh_api \<Rightarrow> string list \<times> 's \<Rightarrow> int option option \<times> string list \<times> 's" where
  "pid_turn api st =
     (let (buf, s) = st in
      case sa_err_line api s of
        (None, s) \<Rightarrow> (Some None, buf, s)
      | (Some line, s) \<Rightarrow>
          if startswith line pid_marker
          then (Some (int_of_str (py_strip (drop (length pid_marker) line))), buf, s)
          else (None, buf @ [line], s))"

definition read_pid :: "'s ssh_api \<Rightarrow> 's \<Rightarrow> (int option \<times> string list \<times> 's) option" where
  "read_pid api s =
     map_option (\<lambda>(r, buf, s). (case r of None \<Rightarrow> None | Some pid \<Rightarrow> pid, buf, s))
       (poll (pid_turn api) (\<lambda>_. False) (\<lambda>_ st. st) 0 ([], s))"

text \<open>
  One turn of \<open>_stream_remote_channel\<close>; \<open>st\<close> holds the texts read so far, the text echoed to the console,
  and the state. (The heartbeat only writes a log line.)
\<close>

record 's channel_read =
  cr_out :: string
  cr_err :: string
  cr_echo :: string
  cr_s :: 's

definition channel_turn :: "'s ssh_api \<Rightarrow> rat \<Rightarrow> rat \<Rightarrow> 's channel_read \<Rightarrow> (py_error + unit) option \<times> 's channel_read" where
  "channel_turn api timeout started_at st =
     (case sa_recv api Out (sa_select api (cr_s st)) of
        (out, s) \<Rightarrow>
          (case sa_recv api Err s of
             (err, s) \<Rightarrow>
               let st = st\<lparr>cr_out := cr_out st @ out, cr_err := cr_err st @ err, cr_echo := cr_echo st @ out @ err, cr_s := s\<rparr>
               in if sa_clock api s - started_at > timeout then (Some (Inl TimeoutError), st)
                  else if sa_finished api s then (Some (Inr ()), st)
                  else (None, if out = [] \<and> err = [] then st\<lparr>cr_s := sa_sleep api (1 / 10) s\<rparr> else st)))"

definition stream_remote_channel ::
  "'s ssh_api \<Rightarrow> rat \<Rightarrow> rat \<Rightarrow> string list \<Rightarrow> 's \<Rightarrow> ((py_error + string \<times> string \<times> int) \<times> 's) option" where
  "stream_remote_channel api timeout started_at pre_stderr s =
     map_option
       (\<lambda>(r, st). case r of
          Some (Inl e) \<Rightarrow> (Inl e, cr_s st)
        | _ \<Rightarrow> (case sa_exit_status api (cr_s st) of (rc, s) \<Rightarrow> (Inr (cr_out st, cr_err st, rc), s)))
       (poll (channel_turn api timeout started_at) (\<lambda>_. False) (\<lambda>_ st. st) 0
          \<lparr>cr_out = [], cr_err = concat pre_stderr, cr_echo = [], cr_s = s\<rparr>)"

definition kill_cmd :: "int \<Rightarrow> string" where
  "kill_cmd pid =
     ''kill -TERM '' @ show_int pid @ '' 2>/dev/null; sleep 1; kill -KILL '' @ show_int pid @ '' 2>/dev/null || true''"

text \<open>The handler of \<open>except Exception\<close>: kill the remote process if its id is known, close the channel.\<close>

definition abandon_remote :: "'s ssh_api \<Rightarrow> int option \<Rightarrow> 's \<Rightarrow> 's" where
  "abandon_remote api remote_pid s =
     sa_close_channel api (case remote_pid of None \<Rightarrow> s | Some pid \<Rightarrow> snd (sa_exec api (kill_cmd pid) 5 s))"

definition read_output ::
  "'s ssh_api \<Rightarrow> bool \<Rightarrow> rat \<Rightarrow> rat \<Rightarrow> string list \<Rightarrow> 's \<Rightarrow> ((py_error + string \<times> string \<times> int) \<times> 's) option" where
  "read_output api stream t_eff t0 pid_line_buf s =
     (if stream then stream_remote_channel api t_eff t0 pid_line_buf s
      else Some (case sa_read_all api s of (r, s) \<Rightarrow>
        (map_sum id (\<lambda>(out, err, rc). (out, concat pid_line_buf @ err, rc)) r, s)))"

definition inner_run ::
  "'s ssh_api \<Rightarrow> bool \<Rightarrow> (string \<times> string) list \<Rightarrow> string \<Rightarrow> rat option \<Rightarrow> ssh_executor \<times> 's
     \<Rightarrow> ((py_error + execution_result) \<times> ssh_executor \<times> 's) option" where
  "inner_run api stream env_overrides cmd timeout xs =
     (let t_eff = (case timeout of None \<Rightarrow> 300 | Some t \<Rightarrow> t);
          wrapped = wrapped_cmd (remote_env (fst xs) env_overrides) cmd
      in case ssh_connect api xs of
           (Inl e, x, s) \<Rightarrow> Some (Inl e, x, s)
         | (Inr _, x, s) \<Rightarrow>
             let t0 = sa_clock api s in
             case sa_exec api wrapped t_eff s of
               (Inl e, s) \<Rightarrow> Some (Inl e, x, s)
             | (Inr _, s) \<Rightarrow>
                 (case read_pid api s of
                    None \<Rightarrow> None
                  | Some (remote_pid, pid_line_buf, s) \<Rightarrow>
                      (case read_output api stream t_eff t0 pid_line_buf s of
                         None \<Rightarrow> None
                       | Some (Inl e, s) \<Rightarrow> Some (Inl e, x, abandon_remote api remote_pid s)
                       | Some (Inr (out, err, rc), s) \<Rightarrow>
                           Some (Inr \<lparr>er_exit_code = rc, er_stdout = py_rstrip out, er_stderr = py_rstrip err,
                                      er_duration = sa_clock api s - t0\<rparr>, x, s))))"

definition log_to :: "log_event \<Rightarrow> ssh_executor \<Rightarrow> ssh_executor" where
  "log_to e x = x\<lparr>sx_logger := map_option (\<lambda>es. es @ [e]) (sx_logger x)\<rparr>"

definition ssh_run ::
  "'s ssh_api \<Rightarrow> bool \<Rightarrow> (string \<times> string) list \<Rightarrow> string \<Rightarrow> rat option \<Rightarrow> ssh_executor \<times> 's
     \<Rightarrow> ((py_error + execution_result) \<times> ssh_executor \<times> 's) option" where
  "ssh_run api stream env_overrides command timeout xs =
     map_option
       (\<lambda>(r, x, s). case r of
          Inl e \<Rightarrow> (Inl e, x, s)
        | Inr raw \<Rightarrow> (Inr raw, log_to (CmdEnd (er_stdout raw) (er_stderr raw) (er_exit_code raw)) x, s))
       (inner_run api stream env_overrides command timeout (log_to (CmdStart command) (fst xs), snd xs))"

definition ssh_control :: "'s ssh_api \<Rightarrow> (ssh_executor \<times> 's) control" where
  "ssh_control api cmd timeout xs =
     (case ssh_connect api xs of
        (Inl e, x, s) \<Rightarrow> (Inl e, x, s)
      | (Inr _, x, s) \<Rightarrow>
          (case sa_exec api cmd timeout s of
             (Inl e, s) \<Rightarrow> (Inr (- 1, []), x, s)
           | (Inr _, s) \<Rightarrow>
               (case sa_read_all api s of
                  (Inl e, s) \<Rightarrow> (Inr (- 1, []), x, s)
                | (Inr (out, err, rc), s) \<Rightarrow> (Inr (rc, out), x, s))))"

subsection \<open>Remote paths\<close>

text \<open>Calls that may raise and need not return, over the executor and the client's state.\<close>

type_synonym ('a, 't) act = "'t \<Rightarrow> ((py_error + 'a) \<times> 't) option"

definition act_bind :: "('a, 't) act \<Rightarrow> ('a \<Rightarrow> ('b, 't) act) \<Rightarrow> ('b, 't) act" where
  "act_bind m f t =
     (case m t of
        None \<Rightarrow> None
      | Some (Inl e, t) \<Rightarrow> Some (Inl e, t)
      | Some (Inr a, t) \<Rightarrow> f a t)"

definition act_return :: "'a \<Rightarrow> ('a, 't) act" where
  "act_return a t = Some (Inr a, t)"

definition act_raise :: "py_error \<Rightarrow> ('a, 't) act" where
  "act_raise e t = Some (Inl e, t)"

definition get_remote_home :: "'s ssh_api \<Rightarrow> (string, ssh_executor \<times> 's) act" where
  "get_remote_home api xs =
     (case sx_remote_home (fst xs) of
        Some (c # h) \<Rightarrow> Some (Inr (c # h), xs)
      | _ \<Rightarrow>
          act_bind (ssh_run api False [] (''printf '' @ [squote] @ ''%s'' @ [squote] @ '' '' @ [dquote] @ ''$HOME'' @ [dquote]) (Some 10))
            (\<lambda>r. if \<not> er_ok r \<or> py_strip (er_stdout r) = [] then act_raise RuntimeError
                 else (\<lambda>(x, s). Some (Inr (py_strip (er_stdout r)), x\<lparr>sx_remote_home := Some (py_strip (er_stdout r))\<rparr>, s)))
            xs)"

definition remote_workspace_dir :: string where
  "remote_workspace_dir = ''run-rocm-tests''"

definition remote_workspace_root :: "'s ssh_api \<Rightarrow> (string, ssh_executor \<times> 's) act" where
  "remote_workspace_root api xs =
     (case sx_remote_root (fst xs) of
        Some (c # r) \<Rightarrow> Some (Inr (c # r), xs)
      | _ \<Rightarrow>
          act_bind (get_remote_home api)
            (\<lambda>home (x, s). let root = path_join home remote_workspace_dir
                            in Some (Inr root, x\<lparr>sx_remote_root := Some root\<rparr>, s)) xs)"

text \<open>\<open>resolved\<close> and \<open>rel\<close> are what \<open>sftp_stage_path\<close> learns from the local file system.\<close>

definition remote_path_for ::
  "'s ssh_api \<Rightarrow> (string \<Rightarrow> string) \<Rightarrow> (string \<Rightarrow> string option) \<Rightarrow> string \<Rightarrow> (string, ssh_executor \<times> 's) act" where
  "remote_path_for api resolved rel local_path =
     (let raw = as_posix local_path in
      act_bind (remote_workspace_root api)
        (\<lambda>root. if is_managed_remote_path raw root then act_return (normpath raw)
                else act_bind (remote_workspace_root api)
                       (\<lambda>root. act_return (sftp_stage_path root (resolved local_path) (rel local_path)))))"

definition workspace_path_for :: "'s ssh_api \<Rightarrow> string \<Rightarrow> string \<Rightarrow> (string, ssh_executor \<times> 's) act" where
  "workspace_path_for api path category =
     act_bind (remote_workspace_root api) (\<lambda>root. act_return (remote_workspace_path root path category))"

subsection \<open>Creating directories\<close>

definition mkdir_cmd :: "string list \<Rightarrow> string" where
  "mkdir_cmd batch = ''mkdir -p '' @ join_with '' '' batch"

definition mkdir_batch :: "(string \<Rightarrow> (execution_result, 't) act) \<Rightarrow> string list \<Rightarrow> (unit, 't) act" where
  "mkdir_batch run batch =
     act_bind (run (mkdir_cmd batch)) (\<lambda>r. if er_ok r then act_return () else act_raise RuntimeError)"

definition mkdir_base_len :: nat where
  "mkdir_base_len = length ''mkdir -p''"

lemma mkdir_base_len_8 [simp]: "mkdir_base_len = 8"
  by (simp add: mkdir_base_len_def)

text \<open>The loop of \<open>_mkdir_remote_dirs\<close> with its two variables; \<open>run\<close> runs a command with a timeout of 60 s.\<close>

fun mkdir_loop :: "(string \<Rightarrow> (execution_result, 't) act) \<Rightarrow> string list \<Rightarrow> nat \<Rightarrow> string list \<Rightarrow> (unit, 't) act" where
  "mkdir_loop run batch batch_len [] = (if batch = [] then act_return () else mkdir_batch run batch)"
| "mkdir_loop run batch batch_len (directory # dirs) =
     (let quoted = shlex_quote directory
      in if batch \<noteq> [] \<and> batch_len + length quoted + 1 > 24000
         then act_bind (mkdir_batch run batch)
                (\<lambda>_. mkdir_loop run [quoted] (mkdir_base_len + (length quoted + 1)) dirs)
         else mkdir_loop run (batch @ [quoted]) (batch_len + (length quoted + 1)) dirs)"

definition mkdir_remote_dirs :: "(string \<Rightarrow> (execution_result, 't) act) \<Rightarrow> string list \<Rightarrow> (unit, 't) act" where
  "mkdir_remote_dirs run dirs =
     (if dirs = [] then act_return () else mkdir_loop run [] mkdir_base_len dirs)"

subsection \<open>Staging a tree\<close>

fun put_files :: "'s ssh_api \<Rightarrow> (string \<times> string) list \<Rightarrow> 's \<Rightarrow> bool \<times> 's" where
  "put_files api [] s = (True, s)"
| "put_files api ((f, remote_file) # fs) s =
     (case sa_put api f remote_file s of (False, s) \<Rightarrow> (False, s) | (True, s) \<Rightarrow> put_files api fs s)"

text \<open>
  The local tree is given by whether it exists and is a directory and by the relative paths of its files, in
  the order \<open>rglob\<close> lists them.
\<close>

definition upload_dirs :: "string \<Rightarrow> string list \<Rightarrow> string list" where
  "upload_dirs remote_root files = sorted_list_of_set (set (map (\<lambda>f. path_join remote_root (path_parent f)) files))"

definition upload_tree ::
  "'s ssh_api \<Rightarrow> (string \<Rightarrow> string) \<Rightarrow> (string \<Rightarrow> string option) \<Rightarrow> bool \<Rightarrow> bool \<Rightarrow> string list \<Rightarrow> string
     \<Rightarrow> (string, ssh_executor \<times> 's) act" where
  "upload_tree api resolved rel exists is_dir files local_root =
     (let run = (\<lambda>cmd. ssh_run api False [] cmd (Some 60)) in
      if \<not> exists \<or> \<not> is_dir then act_raise RuntimeError
      else act_bind (remote_path_for api resolved rel local_root)
        (\<lambda>remote_root.
           if files = [] then act_bind (mkdir_remote_dirs run [remote_root]) (\<lambda>_. act_return remote_root)
           else act_bind (mkdir_remote_dirs run (upload_dirs remote_root files))
             (\<lambda>_. act_bind (\<lambda>xs. Some (ssh_connect api xs))
                (\<lambda>_ (x, s). case sa_open_sftp api s of
                   (Inl e, s) \<Rightarrow> Some (Inl e, x, s)
                 | (Inr _, s) \<Rightarrow>
                     (case put_files api (map (\<lambda>f. (path_join local_root f, path_join remote_root f)) files) s of
                        (ok, s) \<Rightarrow> Some (if ok then Inr remote_root else Inl RuntimeError, x, sa_close_sftp api s))))))"

subsection \<open>What the remote shell reads\<close>

lemma sh_read_letters: "list_all shlex_safe w \<Longrightarrow> w \<noteq> [] \<Longrightarrow> sh_read Bare None (w @ '' '' @ s) = map_option ((#) w) (sh_read Bare None s)"
  by (simp add: sh_read_safe)

text \<open>
  C22. The layers of quoting of \<open>run\<close> come apart again: the remote login shell sees \<open>bash -c\<close> with the script as one
  word; in the script the command is one word after \<open>exec bash -lc\<close>, and every exported value, whatever
  characters it has, is one word with its name.
\<close>

theorem remote_command_intact:
  assumes "list_all shlex_safe k"
  shows "sh_words (wrapped_cmd env cmd) = Some [''bash'', ''-c'', run_script env cmd] \<and>
    run_script env cmd = ''echo '' @ pid_marker @ ''$$ >&2; '' @ exports env @ ''exec bash -lc '' @ shlex_quote cmd \<and>
    sh_words (''exec bash -lc '' @ shlex_quote cmd) = Some [''exec'', ''bash'', ''-lc'', cmd] \<and>
    sh_words (butlast (export_cmd (k, v))) = Some [''export'', k @ ''='' @ v]"
proof -
  have safe: "list_all shlex_safe ''bash''" "list_all shlex_safe ''-c''" "list_all shlex_safe ''-lc''"
    "list_all shlex_safe ''exec''" "list_all shlex_safe ''export''" "list_all shlex_safe (k @ ''='')"
    using assms by (simp_all add: shlex_safe_def)
  have q: "sh_read Bare None (shlex_quote w) = Some [w]" for w using sh_read_quote [of None w "[]"] by simp
  have "sh_words (wrapped_cmd env cmd) = Some [''bash'', ''-c'', run_script env cmd]"
    using sh_read_letters [OF safe(1), of "''-c '' @ shlex_quote (run_script env cmd)"]
      sh_read_letters [OF safe(2), of "shlex_quote (run_script env cmd)"] q [of "run_script env cmd"]
    by (simp add: sh_words_def wrapped_cmd_def)
  moreover have "sh_words (''exec bash -lc '' @ shlex_quote cmd) = Some [''exec'', ''bash'', ''-lc'', cmd]"
    using sh_read_letters [OF safe(4), of "''bash -lc '' @ shlex_quote cmd"]
      sh_read_letters [OF safe(1), of "''-lc '' @ shlex_quote cmd"]
      sh_read_letters [OF safe(3), of "shlex_quote cmd"] q [of cmd]
    by (simp add: sh_words_def)
  moreover have "sh_words (butlast (export_cmd (k, v))) = Some [''export'', k @ ''='' @ v]"
  proof -
    have "butlast (export_cmd (k, v)) = ''export '' @ (k @ ''='') @ shlex_quote v"
      by (simp add: export_cmd_def butlast_append)
    moreover have "sh_read Bare None ((k @ ''='') @ shlex_quote v) = Some [k @ ''='' @ v]"
      using sh_read_safe [OF safe(6), of None "shlex_quote v"] sh_read_quote [of "Some (k @ ''='')" v "[]"] by simp
    ultimately show ?thesis
      using sh_read_letters [OF safe(5), of "(k @ ''='') @ shlex_quote v"] by (simp add: sh_words_def)
  qed
  ultimately show ?thesis by (simp add: run_script_def)
qed

theorem remote_command_intact_witness:
  "sh_words (wrapped_cmd [] ''it's; rm -rf $HOME'') = Some [''bash'', ''-c'', run_script [] ''it's; rm -rf $HOME''] \<and>
   sh_words (butlast (export_cmd (''A_B'', ''x y''))) = Some [''export'', ''A_B='' @ ''x y'']"
  using remote_command_intact [of "''A_B''" "[]" "''it's; rm -rf $HOME''" "''x y''"] by (simp add: shlex_safe_def)

subsection \<open>The batches of directories\<close>

text \<open>Creating the given batches of directories one after the other, until one fails.\<close>

fun run_batches :: "(string \<Rightarrow> (execution_result, 't) act) \<Rightarrow> string list list \<Rightarrow> (unit, 't) act" where
  "run_batches run [] = act_return ()"
| "run_batches run (b # bs) = act_bind (mkdir_batch run (map shlex_quote b)) (\<lambda>_. run_batches run bs)"

definition batch_ok :: "string list \<Rightarrow> bool" where
  "batch_ok b \<longleftrightarrow> sh_words (mkdir_cmd (map shlex_quote b)) = Some (''mkdir'' # ''-p'' # b) \<and>
     (length (mkdir_cmd (map shlex_quote b)) \<le> 24000 \<or> length b = 1)"

lemma act_bind_unit: "act_bind m act_return = m"
  by (rule ext) (simp add: act_bind_def act_return_def split: option.split prod.split sum.split)

lemma mkdir_cmd_words: "sh_words (mkdir_cmd (map shlex_quote b)) = Some (''mkdir'' # ''-p'' # b)"
  using sh_read_letters [of "''mkdir''" "''-p '' @ join_with '' '' (map shlex_quote b)"]
    sh_read_letters [of "''-p''" "join_with '' '' (map shlex_quote b)"] sh_words_quoted [of b]
  by (simp add: sh_words_def mkdir_cmd_def shlex_safe_def)

lemma mkdir_cmd_length:
  assumes "b \<noteq> []" shows "length (mkdir_cmd b) = 8 + sum_list (map (\<lambda>q. length q + 1) b)"
proof -
  have "length (join_with '' '' (q # qs)) + 1 = sum_list (map (\<lambda>q. length q + 1) (q # qs))" for q qs
  proof (induction qs arbitrary: q)
    case (Cons r qs)
    from Cons [of r] show ?case by simp
  qed simp
  with assms show ?thesis by (cases b) (simp_all add: mkdir_cmd_def)
qed

lemma batch_okI:
  assumes "b \<noteq> []" and "8 + sum_list (map (\<lambda>q. length q + 1) (map shlex_quote b)) \<le> 24000 \<or> length b \<le> 1"
  shows "batch_ok b"
proof -
  have "length b = 1" if "length b \<le> 1" using that assms(1) by (cases b) simp_all
  then show ?thesis
    unfolding batch_ok_def using mkdir_cmd_words assms mkdir_cmd_length [of "map shlex_quote b"] by auto
qed

lemma mkdir_loop_batches:
  assumes "len = 8 + sum_list (map (\<lambda>q. length q + 1) (map shlex_quote batch))" and "len \<le> 24000 \<or> length batch \<le> 1"
  shows "\<exists>bs. mkdir_loop run (map shlex_quote batch) len dirs = run_batches run bs \<and> concat bs = batch @ dirs \<and>
    list_all (\<lambda>b. b \<noteq> [] \<and> batch_ok b) bs"
  using assms
proof (induction dirs arbitrary: batch len)
  case Nil
  show ?case
  proof (cases "batch = []")
    case True
    then show ?thesis by (intro exI [of _ "[]"]) simp
  next
    case False
    then have "batch_ok batch" using Nil by (intro batch_okI) simp_all
    with False show ?thesis by (intro exI [of _ "[batch]"]) (simp add: act_bind_unit)
  qed
next
  case (Cons d dirs)
  let ?q = "length (shlex_quote d) + 1"
  show ?case
  proof (cases "batch \<noteq> [] \<and> len + ?q > 24000")
    case True
    obtain bs where "mkdir_loop run (map shlex_quote [d]) (8 + ?q) dirs = run_batches run bs" "concat bs = [d] @ dirs"
      "list_all (\<lambda>b. b \<noteq> [] \<and> batch_ok b) bs"
      using Cons.IH [of "8 + ?q" "[d]"] by auto
    moreover have "batch_ok batch" using True Cons.prems by (intro batch_okI) simp_all
    ultimately show ?thesis using True by (intro exI [of _ "batch # bs"]) (simp add: Let_def)
  next
    case False
    obtain bs where "mkdir_loop run (map shlex_quote (batch @ [d])) (len + ?q) dirs = run_batches run bs"
      "concat bs = (batch @ [d]) @ dirs" "list_all (\<lambda>b. b \<noteq> [] \<and> batch_ok b) bs"
      using Cons.IH [of "len + ?q" "batch @ [d]"] Cons.prems False by auto
    with False show ?thesis by (intro exI [of _ bs]) (auto simp: Let_def)
  qed
qed

text \<open>
  Creating remote directories in batches is creating them all: the commands that are sent, read by the shell,
  are \<open>mkdir -p\<close> with consecutive, non-empty pieces of the list of directories, together the whole list in its
  order; a command has at most 24000 characters unless it names a single directory; they are run in
  order until one fails.
\<close>

theorem mkdir_batches_cover:
  "\<exists>bs. mkdir_remote_dirs run dirs = run_batches run bs \<and> concat bs = dirs \<and>
     list_all (\<lambda>b. b \<noteq> [] \<and> sh_words (mkdir_cmd (map shlex_quote b)) = Some (''mkdir'' # ''-p'' # b) \<and>
       (length (mkdir_cmd (map shlex_quote b)) \<le> 24000 \<or> length b = 1)) bs"
proof (cases "dirs = []")
  case True
  then show ?thesis by (intro exI [of _ "[]"]) (simp add: mkdir_remote_dirs_def)
next
  case False
  obtain bs where "mkdir_loop run [] 8 dirs = run_batches run bs" "concat bs = dirs" "list_all (\<lambda>b. b \<noteq> [] \<and> batch_ok b) bs"
    using mkdir_loop_batches [of 8 "[]" run dirs] by auto
  with False show ?thesis unfolding batch_ok_def by (intro exI [of _ bs]) (simp add: mkdir_remote_dirs_def)
qed

subsection \<open>Streaming a channel\<close>

text \<open>
  The contract of a channel: time does not run backwards and a \<open>select\<close> takes at least \<open>tick\<close> seconds;
  \<open>got c s\<close> is what has been received on stream \<open>c\<close>.
\<close>

definition channel_ok :: "'s ssh_api \<Rightarrow> rat \<Rightarrow> (stream \<Rightarrow> 's \<Rightarrow> string) \<Rightarrow> bool" where
  "channel_ok api tick got \<longleftrightarrow> 0 < tick \<and>
     (\<forall>s. sa_clock api s + tick \<le> sa_clock api (sa_select api s)) \<and>
     (\<forall>c s. sa_clock api s \<le> sa_clock api (snd (sa_recv api c s))) \<and>
     (\<forall>d s. sa_clock api s \<le> sa_clock api (sa_sleep api d s)) \<and>
     (\<forall>c s. got c (sa_select api s) = got c s) \<and>
     (\<forall>c d s. got c (sa_sleep api d s) = got c s) \<and>
     (\<forall>c s. got c (snd (sa_exit_status api s)) = got c s) \<and>
     (\<forall>c c' s. got c' (snd (sa_recv api c s)) = got c' s @ (if c' = c then fst (sa_recv api c s) else []))"

definition channel_inv :: "(stream \<Rightarrow> 's \<Rightarrow> string) \<Rightarrow> string \<Rightarrow> 's \<Rightarrow> 's channel_read \<Rightarrow> bool" where
  "channel_inv got pre s st \<longleftrightarrow>
     (\<exists>err. got Out (cr_s st) = got Out s @ cr_out st \<and> got Err (cr_s st) = got Err s @ err \<and> cr_err st = pre @ err)"

lemma channel_turn_facts:
  assumes ok: "channel_ok api tick got" and turn: "channel_turn api timeout t0 st = (r, st')"
  shows "sa_clock api (cr_s st) + tick \<le> sa_clock api (cr_s st')"
    and "channel_inv got pre s st \<Longrightarrow> channel_inv got pre s st'"
    and "r = Some (Inl e) \<Longrightarrow> e = TimeoutError \<and> sa_clock api (cr_s st') - t0 > timeout"
    and "sa_clock api (cr_s st) \<ge> t0 + timeout \<Longrightarrow> r \<noteq> None"
proof -
  let ?s0 = "sa_select api (cr_s st)"
  obtain out s1 where o: "sa_recv api Out ?s0 = (out, s1)" by (cases "sa_recv api Out ?s0")
  obtain err s2 where e: "sa_recv api Err s1 = (err, s2)" by (cases "sa_recv api Err s1")
  have c0: "sa_clock api (cr_s st) + tick \<le> sa_clock api ?s0" and pos: "0 < tick"
    using ok by (simp_all add: channel_ok_def)
  have "sa_clock api ?s0 \<le> sa_clock api s1" "sa_clock api s1 \<le> sa_clock api s2"
    using ok o e unfolding channel_ok_def by (metis snd_conv)+
  with c0 have c2: "sa_clock api (cr_s st) + tick \<le> sa_clock api s2" by linarith
  have slp: "sa_clock api s2 \<le> sa_clock api (sa_sleep api (1 / 10) s2)" using ok by (simp add: channel_ok_def)
  show "sa_clock api (cr_s st) + tick \<le> sa_clock api (cr_s st')"
    using turn o e c2 slp by (auto simp: channel_turn_def Let_def split: if_splits)
  have g: "got c s2 = got c (cr_s st) @ (if c = Out then out else err)" for c
  proof -
    have "got c s1 = got c ?s0 @ (if c = Out then out else [])" "got c s2 = got c s1 @ (if c = Err then err else [])"
      "got c ?s0 = got c (cr_s st)"
      using ok o e unfolding channel_ok_def by (metis fst_conv snd_conv)+
    then show ?thesis by (cases c) simp_all
  qed
  have gs: "got c (sa_sleep api (1 / 10) s2) = got c s2" for c using ok by (simp add: channel_ok_def)
  show "channel_inv got pre s st'" if "channel_inv got pre s st"
    using that turn o e g [of Out] g [of Err] gs by (auto simp: channel_inv_def channel_turn_def Let_def split: if_splits)
  show "e = TimeoutError \<and> sa_clock api (cr_s st') - t0 > timeout" if "r = Some (Inl e)" for e
    using that turn o e by (auto simp: channel_turn_def Let_def split: if_splits)
  show "r \<noteq> None" if "sa_clock api (cr_s st) \<ge> t0 + timeout"
    using that turn o e c2 pos by (auto simp: channel_turn_def Let_def split: if_splits)
qed

text \<open>
  Streaming a remote command ends. It raises only \<open>TimeoutError\<close>, and only when more than the timeout has
  passed since the command started; otherwise it returns everything received on the two streams, the
  lines of standard error that were read earlier first.
\<close>

theorem stream_channel_total:
  assumes ok: "channel_ok api tick got"
  shows "\<exists>r s'. stream_remote_channel api timeout t0 pre s = Some (r, s') \<and>
    (case r of
       Inl e \<Rightarrow> e = TimeoutError \<and> sa_clock api s' - t0 > timeout
     | Inr (out, err, rc) \<Rightarrow> got Out s' = got Out s @ out \<and>
         (\<exists>err'. got Err s' = got Err s @ err' \<and> err = concat pre @ err'))"
proof -
  let ?st = "\<lparr>cr_out = [], cr_err = concat pre, cr_echo = [], cr_s = s\<rparr>"
  let ?turn = "channel_turn api timeout t0"
  have "ticking ?turn (\<lambda>st. sa_clock api (cr_s st)) (t0 + timeout) tick"
  proof
    show "0 < tick" using ok by (simp add: channel_ok_def)
    show "fst (?turn st) \<noteq> None" if "t0 + timeout \<le> sa_clock api (cr_s st)" for st
      using that channel_turn_facts(4) [OF ok] by (cases "?turn st") auto
    show "sa_clock api (cr_s st) + tick \<le> sa_clock api (cr_s st')" if "?turn st = (None, st')" for st st'
      by (rule channel_turn_facts(1) [OF ok that])
  qed
  then obtain r st' where ret: "poll ?turn (\<lambda>_. False) (\<lambda>_ s. s) 0 ?st = Some (Some r, st')"
    using ticking.decides [of ?turn "\<lambda>st. sa_clock api (cr_s st)" "t0 + timeout" tick 0 ?st] by blast
  have "channel_inv got (concat pre) s ?st" by (simp add: channel_inv_def)
  then obtain u where u: "channel_inv got (concat pre) s u" "?turn u = (Some r, st')"
    using poll_result [OF ret, where I = "channel_inv got (concat pre) s"] channel_turn_facts(2) [OF ok] by blast
  have inv: "channel_inv got (concat pre) s st'" by (rule channel_turn_facts(2) [OF ok u(2,1)])
  have "got c (snd (sa_exit_status api (cr_s st'))) = got c (cr_s st')" for c using ok by (simp add: channel_ok_def)
  then show ?thesis
    using ret inv channel_turn_facts(3) [OF ok u(2)]
    by (cases r; cases "sa_exit_status api (cr_s st')")
      (auto simp: stream_remote_channel_def channel_inv_def)
qed

text \<open>
  A client over a clock, the text received so far and the commands executed: every receive on standard
  output gives one letter, the command is finished after three seconds.
\<close>

definition demo_ssh :: "(rat \<times> string \<times> string list) ssh_api" where
  "demo_ssh = \<lparr>sa_installed = True, sa_clock = fst, sa_alive = Pair True, sa_close = id,
     sa_connect = (\<lambda>_. Pair (Inr ())), sa_exec = (\<lambda>cmd _ (t, g, cs). (Inr (), t, g, cs @ [cmd])), sa_err_line = Pair None,
     sa_read_all = (\<lambda>s. (Inr (''A'', [], 0), s)), sa_close_channel = id, sa_select = (\<lambda>(t, g, cs). (t + 1, g, cs)),
     sa_recv = (\<lambda>c (t, g, cs). case c of Out \<Rightarrow> (''x'', t, g @ ''x'', cs) | Err \<Rightarrow> ([], t, g, cs)),
     sa_finished = (\<lambda>(t, g, cs). t \<ge> 3), sa_sleep = (\<lambda>d (t, g, cs). (t, g, cs)), sa_exit_status = Pair 0,
     sa_open_sftp = Pair (Inr ()), sa_put = (\<lambda>_ _. Pair True), sa_close_sftp = id\<rparr>"

definition demo_channel_got :: "stream \<Rightarrow> rat \<times> string \<times> string list \<Rightarrow> string" where
  "demo_channel_got c s = (case c of Out \<Rightarrow> fst (snd s) | Err \<Rightarrow> [])"

lemma demo_channel_ok: "channel_ok demo_ssh 1 demo_channel_got"
  by (auto simp: channel_ok_def demo_ssh_def demo_channel_got_def split: stream.split)

theorem stream_channel_total_witness:
  "\<exists>out err rc s'. stream_remote_channel demo_ssh 10 0 [''login banner''] (0, [], []) = Some (Inr (out, err, rc), s') \<and>
     out = ''xxx'' \<and> err = ''login banner''"
proof -
  let ?run = "stream_remote_channel demo_ssh 10 0 [''login banner''] (0, [], [])"
  have run: "case ?run of Some (Inr _, s') \<Rightarrow> fst (snd s') = ''xxx'' | _ \<Rightarrow> False" by code_simp
  obtain r s' where r: "?run = Some (r, s')" and cases: "case r of
       Inl e \<Rightarrow> e = TimeoutError \<and> sa_clock demo_ssh s' - 0 > 10
     | Inr (out, err, rc) \<Rightarrow> demo_channel_got Out s' = demo_channel_got Out (0, [], []) @ out \<and>
         (\<exists>err'. demo_channel_got Err s' = demo_channel_got Err (0, [], []) @ err' \<and> err = concat [''login banner''] @ err')"
    using stream_channel_total [OF demo_channel_ok, of 10 0 "[''login banner'']" "(0, [], [])"] by blast
  obtain out err rc where "r = Inr (out, err, rc)" using run r by (cases r) auto
  with run r cases show ?thesis by (cases s') (auto simp: demo_channel_got_def)
qed

end
