(* ===== verification/SshBackground.thy ===== *)
theory SshBackground
  imports SshExec
begin

text \<open>
  \<open>SshBackgroundProcess\<close> and \<open>SshExecutor.start_background\<close> of \<open>framework/executors/ssh_executor.py\<close>: liveness,
  exit code, collection of the capture files and teardown of a detached remote process. Control commands are an
  argument, as in the poller; the executor's \<open>ssh_control\<close> is one such argument.
\<close>

subsection \<open>The handle's operations\<close>

definition sp_pid :: "ssh_process \<Rightarrow> int" where
  "sp_pid h = (case sp_remote_pid h of None \<Rightarrow> - 1 | Some p \<Rightarrow> p)"

definition sp_is_alive :: "'t control \<Rightarrow> ssh_process \<Rightarrow> 't \<Rightarrow> (py_error + bool) \<times> 't" where
  "sp_is_alive control h t =
     (case (sp_stop_result h, sp_remote_pid h) of
        (None, Some pid) \<Rightarrow>
          (case control (''kill -0 '' @ show_int pid @ '' 2>/dev/null && echo A || echo D'') 15 t of
             (r, t) \<Rightarrow> (map_sum id (\<lambda>(_, out). endswith (py_strip out) ''A'') r, t))
      | _ \<Rightarrow> (Inr False, t))"

text \<open>\<open>int(out.strip().splitlines()[-1])\<close>, the given value for blank output and for anything but a number.\<close>

definition last_number :: "int \<Rightarrow> string \<Rightarrow> int" where
  "last_number dflt out =
     (if py_strip out = [] then dflt
      else case int_of_str (last (splitlines (py_strip out))) of None \<Rightarrow> dflt | Some n \<Rightarrow> n)"

definition rc_cmd :: "ssh_process \<Rightarrow> string" where
  "rc_cmd h = ''cat '' @ sp_rc_file h @ '' 2>/dev/null || true''"

definition sp_read_rc :: "'t control \<Rightarrow> ssh_process \<Rightarrow> 't \<Rightarrow> (py_error + int) \<times> 't" where
  "sp_read_rc control h t =
     (case control (rc_cmd h) 15 t of (r, t) \<Rightarrow> (map_sum id (\<lambda>(_, out). last_number (- 1) out) r, t))"

definition sp_poll :: "'t control \<Rightarrow> ssh_process \<Rightarrow> 't \<Rightarrow> (py_error + int option) \<times> 't" where
  "sp_poll control h t =
     (case sp_is_alive control h t of
        (Inl e, t) \<Rightarrow> (Inl e, t)
      | (Inr True, t) \<Rightarrow> (Inr None, t)
      | (Inr False, t) \<Rightarrow> (case sp_read_rc control h t of (r, t) \<Rightarrow> (map_sum id Some r, t)))"

definition fetch_capture :: "'t control \<Rightarrow> string \<Rightarrow> 't \<Rightarrow> (py_error + string) \<times> 't" where
  "fetch_capture control path t =
     (case control (''wc -c < '' @ path @ '' 2>/dev/null || echo 0'') 15 t of
        (Inl e, t) \<Rightarrow> (Inl e, t)
      | (Inr (_, size_out), t) \<Rightarrow>
          (case control (''tail -c '' @ show_int max_capture_bytes @ '' '' @ path @ '' 2>/dev/null || true'') 15 t of
             (Inl e, t) \<Rightarrow> (Inl e, t)
           | (Inr (_, data), t) \<Rightarrow>
               (Inr ((if last_number 0 size_out > max_capture_bytes then capture_truncated_notice else [])
                     @ py_rstrip data), t)))"

definition stop_kill_cmd :: "int \<Rightarrow> string" where
  "stop_kill_cmd pid =
     (let p = show_int pid
      in ''kill -TERM -'' @ p @ '' 2>/dev/null; kill -TERM '' @ p @ '' 2>/dev/null; '' @
         ''sleep 1; kill -KILL -'' @ p @ '' 2>/dev/null; kill -KILL '' @ p @ '' 2>/dev/null; true'')"

definition rm_cmd :: "ssh_process \<Rightarrow> string" where
  "rm_cmd h =
     ''rm -f '' @ sp_rc_file h @ '' '' @ sp_pid_file h @ '' '' @ sp_out_file h @ '' '' @ sp_err_file h @ '' 2>/dev/null || true''"

text \<open>\<open>_unregister_stream\<close>, with both halves of the poller's \<open>unregister\<close>.\<close>

definition unregister_stream :: "string \<Rightarrow> poller option \<Rightarrow> poller option" where
  "unregister_stream i pl =
     map_option (\<lambda>p. let p = unregister_pop i p in if pl_handles p = [] then unregister_set p else p) pl"

definition register_stream :: "string \<Rightarrow> poller option \<Rightarrow> poller option" where
  "register_stream i pl = Some (register_handle i (case pl of None \<Rightarrow> new_poller | Some p \<Rightarrow> p))"

text \<open>
  \<open>stop\<close>, over the handle, the executor's poller and the state of the connection; \<open>clock\<close> reads the time.
  Reading the exit code and the capture files may raise, the kill and the removal of the files may not.
\<close>

definition sp_detach :: "ssh_process \<Rightarrow> poller option \<Rightarrow> ssh_process \<times> poller option" where
  "sp_detach h pl =
     (if sp_streaming h then (flush_partial h, unregister_stream (sp_stream_id h) pl) else (h, pl))"

definition sp_collect :: "'t control \<Rightarrow> ssh_process \<Rightarrow> 't \<Rightarrow> (py_error + int \<times> string \<times> string) \<times> 't" where
  "sp_collect control h t =
     (case sp_read_rc control h t of
        (Inl e, t) \<Rightarrow> (Inl e, t)
      | (Inr exit_code, t) \<Rightarrow>
          (case fetch_capture control (sp_out_file h) t of
             (Inl e, t) \<Rightarrow> (Inl e, t)
           | (Inr out, t) \<Rightarrow>
               (case fetch_capture control (sp_err_file h) t of
                  (Inl e, t) \<Rightarrow> (Inl e, t)
                | (Inr err, t) \<Rightarrow> (Inr (exit_code, out, err), t))))"

definition sp_stop ::
  "'t control \<Rightarrow> ('t \<Rightarrow> rat) \<Rightarrow> rat \<Rightarrow> ssh_process \<times> poller option \<times> 't
     \<Rightarrow> (py_error + execution_result) \<times> ssh_process \<times> poller option \<times> 't" where
  "sp_stop control clock timeout st =
     (let (h, pl, t) = st in
      case sp_stop_result h of
        Some r \<Rightarrow> (Inr r, h, pl, t)
      | None \<Rightarrow>
          let (h, pl) = sp_detach h pl;
              t = (case sp_remote_pid h of None \<Rightarrow> t | Some pid \<Rightarrow> snd (control (stop_kill_cmd pid) timeout t))
          in case sp_collect control h t of
               (Inl e, t) \<Rightarrow> (Inl e, h, pl, t)
             | (Inr (exit_code, out, err), t) \<Rightarrow>
                 let t = snd (control (rm_cmd h) 15 t);
                     r = \<lparr>er_exit_code = exit_code, er_stdout = out, er_stderr = err, er_duration = clock t - sp_t0 h\<rparr>
                 in (Inr r, h\<lparr>sp_log_open := False, sp_stop_result := Some r\<rparr>, pl, t))"

subsection \<open>Starting\<close>

definition bg_base :: "string \<Rightarrow> string" where
  "bg_base token = ''/tmp/.rock_bg_'' @ token"

definition inner_cmd :: "string \<Rightarrow> string \<Rightarrow> string" where
  "inner_cmd token command =
     ''echo $$ > '' @ bg_base token @ ''.pid; ( '' @ command @ '' ) > '' @ bg_base token @ ''.out 2> '' @ bg_base token
       @ ''.err; echo $? > '' @ bg_base token @ ''.rc''"

definition launch_cmd :: "string \<Rightarrow> string \<Rightarrow> string" where
  "launch_cmd token command =
     ''setsid bash -lc '' @ shlex_quote (inner_cmd token command) @ '' </dev/null >/dev/null 2>&1 & '' @
     ''bgpid=$!; '' @
     ''for _i in $(seq 1 50); do [ -s '' @ bg_base token @ ''.pid ] && break; sleep 0.1; done; '' @
     ''cat '' @ bg_base token @ ''.pid 2>/dev/null || echo $bgpid''"

definition parse_pid :: "string \<Rightarrow> int option" where
  "parse_pid out =
     (if py_strip out = [] then None else int_of_str (py_strip (last (splitlines (py_strip out)))))"

definition ssh_label :: "string option \<Rightarrow> int option \<Rightarrow> string \<Rightarrow> string" where
  "ssh_label console_label remote_pid stream_id =
     (case console_label of
        Some (c # l) \<Rightarrow> c # l
      | _ \<Rightarrow> (case remote_pid of None \<Rightarrow> stream_id | Some p \<Rightarrow> ''pid'' @ show_int p))"

text \<open>
  \<open>SshBackgroundProcess.__init__\<close> with the number of the handle; \<open>log_ok\<close> says whether the log file can be
  opened. The handle registers with the poller when it streams.
\<close>

definition new_ssh_process ::
  "nat \<Rightarrow> string \<Rightarrow> int option \<Rightarrow> rat \<Rightarrow> string option \<Rightarrow> bool \<Rightarrow> string option \<Rightarrow> bool \<Rightarrow> poller option
     \<Rightarrow> (py_error + ssh_process) \<times> poller option" where
  "new_ssh_process n token remote_pid t0 log_path log_ok console_label stream pl =
     (let stream_id = ''bg'' @ show_nat n; logging = (nonempty log_path \<noteq> None); streaming = (stream \<or> logging)
      in if logging \<and> \<not> log_ok then (Inl OSError, pl)
         else (Inr \<lparr>sp_remote_pid = remote_pid, sp_rc_file = bg_base token @ ''.rc'', sp_pid_file = bg_base token @ ''.pid'',
                    sp_out_file = bg_base token @ ''.out'', sp_err_file = bg_base token @ ''.err'', sp_t0 = t0,
                    sp_stop_result = None, sp_stream_id = stream_id,
                    sp_console_label = ssh_label console_label remote_pid stream_id, sp_console = stream,
                    sp_log_open = logging, sp_streaming = streaming, sp_off = (\<lambda>_. 0), sp_buf = (\<lambda>_. []),
                    sp_shown = [], sp_log = []\<rparr>,
               if streaming then register_stream stream_id pl else pl))"

definition ssh_start_background ::
  "'s ssh_api \<Rightarrow> nat \<Rightarrow> string \<Rightarrow> string \<Rightarrow> rat option \<Rightarrow> string option \<Rightarrow> bool \<Rightarrow> string option \<Rightarrow> bool
     \<Rightarrow> poller option \<Rightarrow> ssh_executor \<times> 's \<Rightarrow> ((py_error + ssh_process) \<times> poller option \<times> ssh_executor \<times> 's) option" where
  "ssh_start_background api n token command timeout log_path log_ok console_label stream pl xs =
     (let t0 = sa_clock api (snd xs)
      in case ssh_run api False [] (launch_cmd token command) (Some (case timeout of None \<Rightarrow> 60 | Some t \<Rightarrow> t)) xs of
           None \<Rightarrow> None
         | Some (Inl e, xs) \<Rightarrow> Some (Inl e, pl, xs)
         | Some (Inr r, xs) \<Rightarrow>
             (case new_ssh_process n token (parse_pid (er_stdout r)) t0 log_path log_ok console_label stream pl of
                (h, pl) \<Rightarrow> Some (h, pl, xs)))"

subsection \<open>The contract of a background handle\<close>

text \<open>\<open>stop\<close> as an operation that returns or does not (here: raises).\<close>

definition sp_stop_returns ::
  "'t control \<Rightarrow> ('t \<Rightarrow> rat) \<Rightarrow> rat \<Rightarrow> ssh_process \<times> poller option \<times> 't
     \<Rightarrow> (execution_result \<times> ssh_process \<times> poller option \<times> 't) option" where
  "sp_stop_returns control clock timeout st =
     (case sp_stop control clock timeout st of (Inr r, st') \<Rightarrow> Some (r, st') | (Inl e, _) \<Rightarrow> None)"

interpretation ssh_bg: background_handle "sp_stop_returns control clock" "\<lambda>(h, pl, t). sp_stop_result h"
  for control :: "'t control" and clock
proof
  fix timeout :: rat and st st' :: "ssh_process \<times> poller option \<times> 't" and r
  show "(case st' of (h, pl, t) \<Rightarrow> sp_stop_result h) = Some r" if "sp_stop_returns control clock timeout st = Some (r, st')"
    using that by (auto simp: sp_stop_returns_def sp_stop_def Let_def split: option.splits prod.splits sum.splits)
  show "sp_stop_returns control clock timeout st = Some (r, st)" if "(case st of (h, pl, t) \<Rightarrow> sp_stop_result h) = Some r"
    using that by (auto simp: sp_stop_returns_def sp_stop_def Let_def split: prod.splits)
qed

text \<open>
  \<open>stop\<close> of a remote handle keeps the contract of a background handle: once it has returned a result, every later
  call, with any timeout, returns the same result, sends no command and changes nothing.
\<close>

theorem ssh_stop_idempotent:
  assumes "sp_stop control clock timeout st = (Inr r, st')"
  shows "stop_all (sp_stop_returns control clock) ts st' = Some (replicate (length ts) r, st')"
  by (rule ssh_bg.stops_after, rule ssh_bg.stop_records [of control clock timeout st])
    (simp add: sp_stop_returns_def assms)

subsection \<open>What is in the live view after a stop\<close>

text \<open>The lines of a text, without the empty last one that a final newline leaves.\<close>

definition text_lines :: "string \<Rightarrow> string list" where
  "text_lines s = (let ls = split_on newline s in if last ls = [] then butlast ls else ls)"

definition flush_stream :: "stream \<Rightarrow> ssh_process \<Rightarrow> ssh_process" where
  "flush_stream c h = (if sp_buf h c = [] then h else (emit_line c (sp_buf h c) h)\<lparr>sp_buf := (sp_buf h)(c := [])\<rparr>)"

lemma flush_partial_alt: "flush_partial h = flush_stream Err (flush_stream Out h)"
  by (simp add: flush_partial_def flush_stream_def Let_def)

lemma flush_stream_emitted:
  "emitted (if sp_buf h c = [] then [] else [(c, sp_buf h c)]) h (flush_stream c h)"
  "d \<noteq> c \<Longrightarrow> sp_buf (flush_stream c h) d = sp_buf h d"
  by (simp_all add: flush_stream_def emitted_def emit_line_def Let_def)

lemma emitted_view:
  assumes "emitted ls h h'"
  shows "sp_log h' = sp_log h @ (if sp_log_open h then map snd ls else [])"
    "sp_shown h' = sp_shown h @ (if sp_console h then map (\<lambda>(c, l). (c, bg_line (sp_console_label h) l)) ls else [])"
  using assms unfolding emitted_def by (cases h; cases h'; simp)+

lemma flush_partial_lines:
  assumes "tracks content h0 h"
  shows "\<exists>ls. emitted ls h0 (flush_partial h) \<and> (\<forall>c. of_stream c ls = text_lines (content (capture_file c h0)))"
proof -
  obtain ls where ls: "emitted ls h0 h" "\<And>c. of_stream c ls @ [sp_buf h c] = split_on newline (content (capture_file c h0))"
    using assms unfolding tracks_def by blast
  let ?g = "flush_stream Out h"
  let ?rest = "\<lambda>c. if sp_buf h c = [] then [] else [(c, sp_buf h c)]"
  have "emitted (?rest Err) ?g (flush_partial h)"
    using flush_stream_emitted(1) [where h = ?g and c = Err] flush_stream_emitted(2) [of Err Out h] by (auto simp: flush_partial_alt split: if_splits)
  with emitted_trans [OF ls(1) flush_stream_emitted(1)] emitted_trans
  have e: "emitted ((ls @ ?rest Out) @ ?rest Err) h0 (flush_partial h)" by blast
  have "of_stream c ((ls @ ?rest Out) @ ?rest Err) = text_lines (content (capture_file c h0))" for c
  proof -
    have "of_stream c ((ls @ ?rest Out) @ ?rest Err) = of_stream c ls @ (if sp_buf h c = [] then [] else [sp_buf h c])"
      by (cases c) simp_all
    then show ?thesis by (simp add: text_lines_def Let_def flip: ls(2))
  qed
  with e show ?thesis by blast
qed

lemma sp_stop_live_view:
  assumes "sp_stop_result h = None" and "sp_streaming h" and "sp_stop control clock timeout (h, pl, t) = (r, h', pl', t')"
  shows "sp_shown h' = sp_shown (flush_partial h)" "sp_log h' = sp_log (flush_partial h)"
    "pl' = unregister_stream (sp_stream_id h) pl"
  using assms by (auto simp: sp_stop_def sp_detach_def Let_def split: prod.splits sum.splits)

text \<open>
  Output of the last interval is missing from the live view. \<open>stop\<close> takes the handle out of the poll set and
  flushes its buffers, but does not poll once more: whatever the node's files hold by then, the lines shown and
  logged are those of the files as they were at the last poll.
\<close>

theorem ssh_stop_misses_tail:
  assumes "tracks content h0 h" and "sp_stop_result h = None" and "sp_streaming h"
    and "sp_stop control clock timeout (h, pl, t) = (r, h', pl', t')"
  shows "\<exists>ls. sp_log h' = sp_log h0 @ (if sp_log_open h0 then map snd ls else []) \<and>
    sp_shown h' = sp_shown h0 @ (if sp_console h0 then map (\<lambda>(c, l). (c, bg_line (sp_console_label h0) l)) ls else []) \<and>
    (\<forall>c. of_stream c ls = text_lines (content (capture_file c h0)))"
proof -
  obtain ls where ls: "emitted ls h0 (flush_partial h)" "\<And>c. of_stream c ls = text_lines (content (capture_file c h0))"
    using flush_partial_lines [OF assms(1)] by blast
  have "sp_log (flush_partial h) = sp_log h0 @ (if sp_log_open h0 then map snd ls else [])"
    "sp_shown (flush_partial h) = sp_shown h0 @ (if sp_console h0 then map (\<lambda>(c, l). (c, bg_line (sp_console_label h0) l)) ls else [])"
    using emitted_view [OF ls(1)] by simp_all
  with sp_stop_live_view [OF assms(2-4)] ls(2) show ?thesis by auto
qed

text \<open>A node on which the process has written one more line by the time it is stopped, and exited with code 0.\<close>

definition demo_node :: "(nat \<times> bool) control" where
  "demo_node cmd timeout st =
     (case st of (tails, removed) \<Rightarrow>
        if startswith cmd ''cat'' then (Inr (0, if removed then [] else ''0''), st)
        else if startswith cmd ''tail'' then (Inr (0, if tails = 0 then ''late'' @ [newline] else []), Suc tails, removed)
        else if startswith cmd ''rm'' then (Inr (0, []), tails, True)
        else (Inr (0, ''5''), st))"

lemma demo_node_answers:
  "demo_node (rc_cmd h) d (n, b) = (Inr (0, if b then [] else ''0''), n, b)"
  "demo_node (rm_cmd h) d (n, b) = (Inr (0, []), n, True)"
  "demo_node (''wc -c < '' @ p) d (n, b) = (Inr (0, ''5''), n, b)"
  "demo_node (''tail -c '' @ p) d (n, b) = (Inr (0, if n = 0 then ''late'' @ [newline] else []), Suc n, b)"
  "demo_node (stop_kill_cmd i) d (n, b) = (Inr (0, ''5''), n, b)"
  by (simp_all add: demo_node_def rc_cmd_def rm_cmd_def stop_kill_cmd_def startswith_def Let_def)

lemma demo_stop:
  assumes "sp_stop_result h = None"
  shows "\<exists>r h' pl' t'. sp_stop demo_node (\<lambda>_. 9) 30 (h, pl, 0, False) = (Inr r, h', pl', t') \<and>
    er_exit_code r = 0 \<and> er_stdout r = ''late''"
proof -
  have nums: "last_number (- 1) ''0'' = 0" "last_number 0 ''5'' = 5" by code_simp+
  have late: "py_rstrip (''late'' @ [newline]) = ''late''" "\<not> max_capture_bytes < 5" by code_simp+
  have "sp_collect demo_node g (0, False) = (Inr (0, ''late'', py_rstrip []), 2, False)" for g
    using late by (simp add: sp_collect_def sp_read_rc_def fetch_capture_def demo_node_answers nums del: append.simps)
  with assms show ?thesis
    by (auto simp: sp_stop_def Let_def demo_node_answers split: prod.split option.split)
qed

theorem ssh_stop_misses_tail_witness:
  "\<exists>r h' pl' t'. sp_stop demo_node (\<lambda>_. 9) 30 (poll_handle (steady (\<lambda>_. [])) (demo_handle ''bg1''), None, 0, False) = (Inr r, h', pl', t') \<and>
     er_stdout r = ''late'' \<and> sp_log h' = []"
proof -
  let ?h = "poll_handle (steady (\<lambda>_. [])) (demo_handle ''bg1'')"
  let ?stop = "sp_stop demo_node (\<lambda>_. 9) 30 (?h, None, 0, False)"
  have "sp_stop_result ?h = None" "sp_streaming ?h" by code_simp+
  from demo_stop [OF this(1)] obtain r h' pl' t' where st: "?stop = (Inr r, h', pl', t')" "er_stdout r = ''late''" by blast
  have "tracks (\<lambda>_. []) (demo_handle ''bg1'') (demo_handle ''bg1'')"
    unfolding tracks_def by (intro exI [of _ "[]"]) (simp add: emitted_def demo_handle_def)
  then have tr: "tracks (\<lambda>_. []) (demo_handle ''bg1'') ?h" by (rule poll_handle_tracks) simp
  from ssh_stop_misses_tail [OF tr \<open>sp_stop_result ?h = None\<close> \<open>sp_streaming ?h\<close> st(1)] obtain ls where ls: "sp_log h' = map snd ls" "\<And>c. of_stream c ls = []"
    by (auto simp: demo_handle_def text_lines_def)
  from ls(2) have "x \<notin> set ls" for x
    unfolding of_stream_def by (metis (mono_tags, lifting) filter_empty_conv map_is_Nil_conv)
  then have "ls = []" by (cases ls) auto
  with st ls(1) show ?thesis by auto
qed

text \<open>
  After a stop, \<open>poll\<close> no longer reports the exit code: \<open>stop\<close> removes the file that holds it, and \<open>poll\<close> reads
  the file again instead of the recorded result, so it answers \<open>-1\<close> whatever the process exited with. (A local
  handle keeps answering the exit code.)
\<close>

theorem ssh_poll_after_stop:
  assumes "sp_stop_result h = None" and "sp_stop control clock timeout (h, pl, t) = (Inr r, h', pl', t')"
    and removed: "\<And>u. \<exists>rc u'. control (rc_cmd h) 15 (snd (control (rm_cmd h) 15 u)) = (Inr (rc, []), u')"
  shows "fst (sp_poll control h' t') = Inr (Some (- 1))"
proof -
  have files: "rc_cmd (fst (sp_detach h pl)) = rc_cmd h" "rm_cmd (fst (sp_detach h pl)) = rm_cmd h"
    by (simp_all add: sp_detach_def rc_cmd_def rm_cmd_def flush_partial_alt flush_stream_def emit_line_def Let_def)
  obtain u where "t' = snd (control (rm_cmd h) 15 u)" "sp_stop_result h' = Some r" "rc_cmd h' = rc_cmd h"
    using assms(1,2) files
    by (auto simp: sp_stop_def Let_def rc_cmd_def split: prod.splits sum.splits)
  with removed [of u] show ?thesis
    by (auto simp: sp_poll_def sp_is_alive_def sp_read_rc_def last_number_def py_strip_def lstrip_by_def rstrip_by_def)
qed

theorem ssh_poll_after_stop_witness:
  "\<exists>r h' pl' t'. sp_stop demo_node (\<lambda>_. 9) 30 (demo_handle ''bg1'', None, 0, False) = (Inr r, h', pl', t') \<and>
     er_exit_code r = 0 \<and> fst (sp_poll demo_node h' t') = Inr (Some (- 1))"
proof -
  have none: "sp_stop_result (demo_handle ''bg1'') = None" by (simp add: demo_handle_def)
  from demo_stop [OF this] obtain r h' pl' t'
    where st: "sp_stop demo_node (\<lambda>_. 9) 30 (demo_handle ''bg1'', None, 0, False) = (Inr r, h', pl', t')" "er_exit_code r = 0"
    by blast
  have "fst (sp_poll demo_node h' t') = Inr (Some (- 1))"
  proof (rule ssh_poll_after_stop [OF none st(1)])
    fix u :: "nat \<times> bool"
    show "\<exists>rc u'. demo_node (rc_cmd (demo_handle ''bg1'')) 15 (snd (demo_node (rm_cmd (demo_handle ''bg1'')) 15 u)) = (Inr (rc, []), u')"
      by (cases u) (simp add: demo_node_answers, blast)
  qed
  with st show ?thesis by blast
qed

theorem ssh_stop_idempotent_witness:
  "\<exists>r st'. sp_stop demo_node (\<lambda>_. 9) 30 (demo_handle ''bg1'', None, 0, False) = (Inr r, st') \<and> er_stdout r = ''late'' \<and>
     stop_all (sp_stop_returns demo_node (\<lambda>_. 9)) [1, 2] st' = Some ([r, r], st')"
proof -
  obtain r h' pl' t'
    where st: "sp_stop demo_node (\<lambda>_. 9) 30 (demo_handle ''bg1'', None, 0, False) = (Inr r, h', pl', t')" "er_stdout r = ''late''"
    using demo_stop [of "demo_handle ''bg1''" None] by (auto simp: demo_handle_def)
  from ssh_stop_idempotent [OF st(1), of "[1, 2]"] st show ?thesis by (auto simp: numeral_2_eq_2)
qed

end
