(* ===== verification/Executors.thy ===== *)
theory Executors
  imports SshBackground NodePool
begin

text \<open>
  The executors of \<open>framework/executors\<close> other than SSH, the factory and the group that a test gets, and
  \<open>make_executor\<close> of \<open>framework/nodes/node_pool.py\<close>. Processes are started through the \<open>process_api\<close>
  of \<open>BackgroundProc\<close>; the environment of the session is an association list.
\<close>

type_synonym env = "(string \<times> string) list"

subsection \<open>LocalExecutor\<close>

datatype gpu_choice = OneGpu int | ManyGpus "int list"

record local_executor =
  lx_gpu_index :: "gpu_choice option"
  lx_stream_stdout :: bool
  lx_stream_stderr :: bool
  lx_log_path :: "string option"
  lx_logger :: "log_event list option"

definition rocr :: string where
  "rocr = ''ROCR_VISIBLE_DEVICES''"

definition index_list :: "int list \<Rightarrow> string" where
  "index_list is = join_with '','' (map show_int is)"

definition local_env :: "env \<Rightarrow> gpu_choice option \<Rightarrow> py_error + env" where
  "local_env environ gpu_index =
     (if map_of environ rocr \<noteq> None then Inr environ
      else case gpu_index of
             None \<Rightarrow> Inl RuntimeError
           | Some (ManyGpus is) \<Rightarrow> Inr (dict_set rocr (index_list is) environ)
           | Some (OneGpu i) \<Rightarrow> Inr (dict_set rocr (show_int i) environ))"

definition default_timeout :: rat where
  "default_timeout = 300"

definition add_event :: "log_event \<Rightarrow> log_event list option \<Rightarrow> log_event list option" where
  "add_event e lg = map_option (\<lambda>es. es @ [e]) lg"

text \<open>\<open>cmd_start\<close>, the command, and \<open>cmd_end\<close> unless it raised; a plain run without a logger.\<close>

definition logged_run ::
  "string \<Rightarrow> log_event list option \<Rightarrow> ((py_error + execution_result) \<times> 's) option
     \<Rightarrow> ((py_error + execution_result) \<times> log_event list option \<times> 's) option" where
  "logged_run command lg outcome =
     map_option
       (\<lambda>(r, s). case r of
          Inl e \<Rightarrow> (Inl e, add_event (CmdStart command) lg, s)
        | Inr raw \<Rightarrow> (Inr raw, add_event (CmdEnd (er_stdout raw) (er_stderr raw) (er_exit_code raw))
                                (add_event (CmdStart command) lg), s))
       outcome"

definition local_run ::
  "('s, 'b) process_api \<Rightarrow> env \<Rightarrow> local_executor \<Rightarrow> string \<Rightarrow> rat option \<Rightarrow> bool \<Rightarrow> 's \<times> 'b sinks
     \<Rightarrow> ((py_error + execution_result) \<times> local_executor \<times> 's \<times> 'b sinks) option" where
  "local_run api environ x command timeout stream sk =
     (case local_env environ (lx_gpu_index x) of
        Inl e \<Rightarrow> Some (Inl e, x, sk)
      | Inr env \<Rightarrow>
          map_option (\<lambda>(r, lg, sk). (r, x\<lparr>lx_logger := lg\<rparr>, sk))
            (logged_run command (lx_logger x)
              (blocking_stream_run api command env None (case timeout of None \<Rightarrow> default_timeout | Some t \<Rightarrow> t)
                 (stream \<or> lx_stream_stdout x) (lx_stream_stderr x \<and> lx_logger x = None) (lx_log_path x) (fst sk) (snd sk))))"

definition local_start_background ::
  "('s, 'b) process_api \<Rightarrow> env \<Rightarrow> local_executor \<Rightarrow> string \<Rightarrow> string option \<Rightarrow> 's \<times> 'b sinks
     \<Rightarrow> (py_error \<times> 's \<times> 'b sinks) + ('s, 'b) background_process" where
  "local_start_background api environ x command log_path sk =
     (case local_env environ (lx_gpu_index x) of
        Inl e \<Rightarrow> Inl (e, sk)
      | Inr env \<Rightarrow> make_background_process api command env None log_path (lx_stream_stdout x) (lx_stream_stderr x) (fst sk) (snd sk))"

subsection \<open>CpuExecutor\<close>

record cpu_executor =
  cx_working_dir :: "string option"
  cx_env_overrides :: env
  cx_stream_stdout :: bool
  cx_stream_stderr :: bool
  cx_log_path :: "string option"
  cx_suppress_output_log :: bool
  cx_logger :: "log_event list option"

definition new_cpu_executor :: cpu_executor where
  "new_cpu_executor = \<lparr>cx_working_dir = None, cx_env_overrides = [], cx_stream_stdout = False, cx_stream_stderr = True,
     cx_log_path = None, cx_suppress_output_log = False, cx_logger = None\<rparr>"

definition cpu_env :: "env \<Rightarrow> cpu_executor \<Rightarrow> env" where
  "cpu_env environ x = fold (\<lambda>(k, v) env. dict_set k v env) (cx_env_overrides x) environ"

text \<open>The lines sent to the \<open>rocm.output\<close> logger when there is no test logger.\<close>

definition output_lines :: "cpu_executor \<Rightarrow> execution_result \<Rightarrow> string list" where
  "output_lines x raw =
     (if cx_suppress_output_log x \<or> cx_logger x \<noteq> None then []
      else filter (\<lambda>l. py_strip l \<noteq> []) (splitlines (er_stdout raw @ [newline] @ er_stderr raw)))"

definition cpu_run ::
  "('s, 'b) process_api \<Rightarrow> env \<Rightarrow> cpu_executor \<Rightarrow> string \<Rightarrow> rat option \<Rightarrow> bool \<Rightarrow> 's \<times> 'b sinks
     \<Rightarrow> ((py_error + execution_result) \<times> cpu_executor \<times> string list \<times> 's \<times> 'b sinks) option" where
  "cpu_run api environ x command timeout stream sk =
     map_option
       (\<lambda>(r, lg, sk). (r, x\<lparr>cx_logger := lg\<rparr>, (case r of Inl _ \<Rightarrow> [] | Inr raw \<Rightarrow> output_lines x raw), sk))
       (logged_run command (cx_logger x)
         (blocking_stream_run api command (cpu_env environ x) (cx_working_dir x)
            (case timeout of None \<Rightarrow> default_timeout | Some t \<Rightarrow> t)
            (stream \<or> cx_stream_stdout x) (cx_stream_stderr x \<and> cx_logger x = None) (cx_log_path x) (fst sk) (snd sk)))"

definition cpu_start_background ::
  "('s, 'b) process_api \<Rightarrow> env \<Rightarrow> cpu_executor \<Rightarrow> string \<Rightarrow> string option \<Rightarrow> 's \<times> 'b sinks
     \<Rightarrow> (py_error \<times> 's \<times> 'b sinks) + ('s, 'b) background_process" where
  "cpu_start_background api environ x command log_path sk =
     make_background_process api command (cpu_env environ x) (cx_working_dir x) log_path (cx_stream_stdout x) (cx_stream_stderr x)
       (fst sk) (snd sk)"

subsection \<open>DryRunExecutor\<close>

definition dry_run :: "string \<Rightarrow> execution_result" where
  "dry_run command =
     \<lparr>er_exit_code = 0,
      er_stdout = ''DRY_RUN=1'' @ [newline] @ ''RESULT_OK'' @ [newline] @ ''THROUGHPUT_TFLOPS=0.0'' @ [newline],
      er_stderr = [], er_duration = 0\<rparr>"

definition dry_start_background :: "string \<Rightarrow> noop_process" where
  "dry_start_background command = new_noop"

subsection \<open>ContainerExecutor\<close>

record container_executor =
  ce_image :: string
  ce_gpu_index :: int
  ce_gpu_indices :: "int list option"
  ce_runtime :: string
  ce_use_amd_devices :: bool
  ce_ipc :: string
  ce_privileged :: bool
  ce_extra_run_flags :: string
  ce_linux :: bool
  ce_container :: "string option"

record container_status =
  cs_runtime_available :: bool
  cs_runtime_version :: string
  cs_daemon_active :: bool
  cs_compose_available :: bool
  cs_compose_version :: string
  cs_amd_devices_present :: bool
  cs_user_in_group :: bool
  cs_errors :: nat

definition status_ready :: "container_status \<Rightarrow> bool" where
  "status_ready st \<longleftrightarrow> cs_runtime_available st \<and> cs_daemon_active st \<and> cs_amd_devices_present st \<and> cs_user_in_group st"

definition rocr_value :: "container_executor \<Rightarrow> string" where
  "rocr_value x =
     (case ce_gpu_indices x of Some (i # is) \<Rightarrow> index_list (i # is) | _ \<Rightarrow> show_int (ce_gpu_index x))"

definition common_run_flags :: "container_executor \<Rightarrow> string list" where
  "common_run_flags x =
     (if ce_ipc x = [] then [] else [''--ipc='' @ ce_ipc x]) @
     (if ce_privileged x then [''--privileged''] else []) @
     (if ce_use_amd_devices x
      then (if ce_linux x then [''--device=/dev/kfd'', ''--device=/dev/dri'', ''--group-add=video''] else []) @
           [''--env=ROCR_VISIBLE_DEVICES='' @ rocr_value x]
      else []) @
     (if ce_extra_run_flags x = [] then [] else [ce_extra_run_flags x])"

definition assemble_run_command :: "container_executor \<Rightarrow> string \<Rightarrow> string" where
  "assemble_run_command x user_command =
     join_with '' '' ([ce_runtime x, ''run'', ''--rm''] @ common_run_flags x @ [ce_image x] @ [''sh'', ''-c'', shlex_quote user_command])"

text \<open>
  The host executor is a function from a command, a timeout (\<open>None\<close> is its own default) and the stream
  flag to an action. \<open>timeout or 300.0\<close> also replaces a timeout of zero.
\<close>

type_synonym 't host = "string \<Rightarrow> rat option \<Rightarrow> bool \<Rightarrow> (execution_result, 't) act"

definition or_default :: "rat option \<Rightarrow> rat" where
  "or_default timeout = (case timeout of None \<Rightarrow> 300 | Some t \<Rightarrow> if t = 0 then 300 else t)"

definition exec_cli :: "container_executor \<Rightarrow> string \<Rightarrow> string \<Rightarrow> string" where
  "exec_cli x name command = ce_runtime x @ '' exec '' @ name @ '' '' @ ''sh -c '' @ shlex_quote command"

definition exec_in :: "'t host \<Rightarrow> container_executor \<Rightarrow> string \<Rightarrow> string \<Rightarrow> rat option \<Rightarrow> (execution_result, 't) act" where
  "exec_in host x name command timeout = host (exec_cli x name command) (Some (or_default timeout)) False"

definition container_run :: "'t host \<Rightarrow> container_executor \<Rightarrow> string \<Rightarrow> rat option \<Rightarrow> bool \<Rightarrow> (execution_result, 't) act" where
  "container_run host x command timeout stream =
     (case ce_container x of
        Some name \<Rightarrow> exec_in host x name command timeout
      | None \<Rightarrow> host (assemble_run_command x command) (Some (or_default timeout)) stream)"

definition pull_cmd :: "container_executor \<Rightarrow> string" where
  "pull_cmd x =
     ce_runtime x @ '' image inspect '' @ ce_image x @ '' >/dev/null 2>&1 || '' @ ce_runtime x @ '' pull '' @ ce_image x"

definition start_cmd :: "container_executor \<Rightarrow> string \<Rightarrow> string" where
  "start_cmd x name =
     join_with '' '' ([ce_runtime x, ''run'', ''-d'', ''--init'', ''--name'', name] @ common_run_flags x @ [ce_image x, ''sleep'', ''infinity''])"

text \<open>\<open>fresh\<close> is the generated name; the pull has its own timeout, the detached run 120 seconds.\<close>

definition container_start ::
  "'t host \<Rightarrow> rat \<Rightarrow> string option \<Rightarrow> string \<Rightarrow> container_executor \<times> 't
     \<Rightarrow> ((py_error + string) \<times> container_executor \<times> 't) option" where
  "container_start host pull_timeout name fresh xt =
     (let (x, t) = xt in
      case ce_container x of
        Some c \<Rightarrow> Some (Inr c, x, t)
      | None \<Rightarrow>
          let container_name = (case nonempty name of Some n \<Rightarrow> n | None \<Rightarrow> fresh)
          in case act_bind (host (pull_cmd x) (Some pull_timeout) False)
                    (\<lambda>pull. if \<not> er_ok pull then act_raise RuntimeError
                            else act_bind (host (start_cmd x container_name) (Some 120) False)
                              (\<lambda>r. if er_ok r then act_return () else act_raise RuntimeError)) t of
               None \<Rightarrow> None
             | Some (Inl e, t) \<Rightarrow> Some (Inl e, x, t)
             | Some (Inr _, t) \<Rightarrow> Some (Inr container_name, x\<lparr>ce_container := Some container_name\<rparr>, t))"

definition container_stop :: "'t host \<Rightarrow> container_executor \<times> 't \<Rightarrow> ((py_error + unit) \<times> container_executor \<times> 't) option" where
  "container_stop host xt =
     (let (x, t) = xt in
      case ce_container x of
        None \<Rightarrow> Some (Inr (), x, t)
      | Some c \<Rightarrow>
          (case host (ce_runtime x @ '' rm -f '' @ c) (Some 60) False t of
             None \<Rightarrow> None
           | Some (Inl e, t) \<Rightarrow> Some (Inl e, x, t)
           | Some (Inr _, t) \<Rightarrow> Some (Inr (), x\<lparr>ce_container := None\<rparr>, t)))"

text \<open>The probe of the runtime; \<open>errors\<close> is the number of messages collected.\<close>

definition no_status :: container_status where
  "no_status = \<lparr>cs_runtime_available = False, cs_runtime_version = [], cs_daemon_active = False, cs_compose_available = False,
     cs_compose_version = [], cs_amd_devices_present = False, cs_user_in_group = False, cs_errors = 0\<rparr>"

definition has_text :: "execution_result \<Rightarrow> bool" where
  "has_text r \<longleftrightarrow> er_ok r \<and> py_strip (er_stdout r) \<noteq> []"

definition probe_compose :: "'t host \<Rightarrow> container_executor \<Rightarrow> container_status \<Rightarrow> (container_status, 't) act" where
  "probe_compose host x st =
     act_bind (host (ce_runtime x @ '' compose version 2>/dev/null'') None False)
       (\<lambda>r. if has_text r then act_return (st\<lparr>cs_compose_available := True, cs_compose_version := py_strip (er_stdout r)\<rparr>)
            else act_bind (host ''docker-compose --version 2>/dev/null'' None False)
              (\<lambda>r. act_return
                 (if has_text r then st\<lparr>cs_compose_available := True, cs_compose_version := py_strip (er_stdout r)\<rparr>
                  else st\<lparr>cs_errors := Suc (cs_errors st)\<rparr>)))"

definition probe_devices :: "'t host \<Rightarrow> container_status \<Rightarrow> (container_status, 't) act" where
  "probe_devices host st =
     act_bind (host ''test -c /dev/kfd && echo present'' None False)
       (\<lambda>kfd. act_bind (host ''test -d /dev/dri && echo present'' None False)
          (\<lambda>dri. let present = (er_ok kfd \<and> contains_str ''present'' (er_stdout kfd) \<and>
                                er_ok dri \<and> contains_str ''present'' (er_stdout dri))
                  in act_return (st\<lparr>cs_amd_devices_present := present,
                       cs_errors := (if present then cs_errors st else Suc (cs_errors st))\<rparr>)))"

definition container_probe :: "'t host \<Rightarrow> container_executor \<Rightarrow> (container_status, 't) act" where
  "container_probe host x =
     act_bind (host (ce_runtime x @ '' --version 2>/dev/null'') None False)
       (\<lambda>ver. if \<not> has_text ver then act_return (no_status\<lparr>cs_errors := 1\<rparr>)
              else act_bind (host (ce_runtime x @ '' info 2>/dev/null'') None False)
                (\<lambda>info. act_bind (probe_compose host x
                    (no_status\<lparr>cs_runtime_available := True, cs_runtime_version := py_strip (er_stdout ver),
                               cs_daemon_active := er_ok info, cs_errors := (if er_ok info then 0 else 1)\<rparr>))
                  (\<lambda>st. act_bind (probe_devices host st)
                     (\<lambda>st. act_bind (host (ce_runtime x @ '' ps 2>/dev/null'') None False)
                        (\<lambda>ps. act_return (st\<lparr>cs_user_in_group := er_ok ps,
                           cs_errors := (if er_ok ps then cs_errors st else Suc (cs_errors st))\<rparr>))))))"

subsection \<open>Commands without a shell\<close>

text \<open>\<open>_ANSI_RE.sub("", s)\<close>: two-character escapes and control sequences.\<close>

definition char_in :: "nat \<Rightarrow> nat \<Rightarrow> char \<Rightarrow> bool" where
  "char_in lo hi c \<longleftrightarrow> lo \<le> (of_char c :: nat) \<and> (of_char c :: nat) \<le> hi"

definition csi_tail :: "string \<Rightarrow> string option" where
  "csi_tail s =
     (case dropWhile (char_in 32 47) (dropWhile (char_in 48 63) s) of
        f # rest \<Rightarrow> if char_in 64 126 f then Some rest else None
      | [] \<Rightarrow> None)"

lemma csi_tail_length: "csi_tail s = Some r \<Longrightarrow> length r < length s"
proof -
  assume "csi_tail s = Some r"
  then obtain f where f: "dropWhile (char_in 32 47) (dropWhile (char_in 48 63) s) = f # r"
    by (auto simp: csi_tail_def split: list.splits if_splits)
  have "length (f # r) \<le> length s"
    unfolding f [symmetric] by (rule order_trans [OF length_dropWhile_le length_dropWhile_le])
  then show ?thesis by simp
qed

function strip_ansi :: "string \<Rightarrow> string" where
  "strip_ansi [] = []"
| "strip_ansi (c # s) =
     (if c \<noteq> CHR 0x1B then c # strip_ansi s
      else case s of
             [] \<Rightarrow> [c]
           | d # t \<Rightarrow>
               if char_in 64 90 d \<or> char_in 92 95 d then strip_ansi t
               else case (if d = CHR ''['' then csi_tail t else None) of
                      Some rest \<Rightarrow> strip_ansi rest
                    | None \<Rightarrow> c # strip_ansi s)"
  by pat_completeness auto
termination
  by (relation "measure length") (auto dest: csi_tail_length split: if_splits)

text \<open>
  One turn of the loop of \<open>run_cmd_get_stdout_stderr\<close>. The loop is left when the last pipe that was read gave
  nothing; \<open>msg\<close> is the text added on a timeout. (\<open>cmd\<close> stands for the argument vector; feeding standard
  input is left out.)
\<close>

definition cmd_turn ::
  "('s, 'b) process_api \<Rightarrow> bool \<Rightarrow> 'b list \<Rightarrow> rat \<Rightarrow> ('s, 'b, 'b list) streaming
     \<Rightarrow> (py_error + unit) option \<times> ('s, 'b, 'b list) streaming" where
  "cmd_turn api quiet msg timeout st =
     (let console = (\<lambda>_. if quiet then None else Some Out);
          grab = pump api (\<lambda>chunk buf. buf @ chunk) console False;
          got = (\<lambda>c old new. length (st_buf new c) > length (st_buf old c))
      in case pa_select api timeout (st_os st) of
           (ready, s) \<Rightarrow>
             let st = st\<lparr>st_os := s\<rparr> in
             if \<not> ready Out \<and> \<not> ready Err
             then (Some (Inr ()), st\<lparr>st_buf := (st_buf st)(Out := st_buf st Out @ msg), st_os := pa_kill api s\<rparr>)
             else
               let (ok1, st1) = (if ready Out then grab Out st else (True, st)) in
               if \<not> ok1 then (Some (Inl OSError), st1)
               else
                 let (ok2, st2) = (if ready Err then grab Err st1 else (True, st1)) in
                 if \<not> ok2 then (Some (Inl OSError), st2)
                 else if (if ready Err then got Err st1 st2 else got Out st st1) then (None, st2)
                 else (Some (Inr ()), st2))"

definition run_cmd_get_stdout_stderr ::
  "('s, 'b) process_api \<Rightarrow> string \<Rightarrow> env \<Rightarrow> env \<Rightarrow> string option \<Rightarrow> rat \<Rightarrow> bool \<Rightarrow> 'b list \<Rightarrow> 's \<times> 'b sinks
     \<Rightarrow> ((py_error + int \<times> string \<times> string) \<times> 's \<times> 'b sinks) option" where
  "run_cmd_get_stdout_stderr api cmd environ env cwd timeout quiet msg sk =
     (case pa_popen api cmd (fold (\<lambda>(k, v) e. dict_set k v e) env environ) cwd (fst sk) of
        (False, s) \<Rightarrow> Some (Inl OSError, s, snd sk)
      | (True, s) \<Rightarrow>
          map_option
            (\<lambda>(r, st). case r of
               Some (Inl e) \<Rightarrow> (Inl e, st_os st, st_sinks st)
             | _ \<Rightarrow>
                 (case pa_wait api (st_os st) of
                    (ret, s) \<Rightarrow> (Inr (ret, strip_ansi (pa_decode api (st_buf st Out)),
                                      strip_ansi (pa_decode api (st_buf st Err))), s, st_sinks st)))
            (poll (cmd_turn api quiet msg timeout) (\<lambda>_. False) (\<lambda>_ st. st) 0
               \<lparr>st_os = s, st_buf = (\<lambda>_. []), st_sinks = snd sk\<rparr>))"

definition run_cmd_get_output ::
  "('s, 'b) process_api \<Rightarrow> string \<Rightarrow> env \<Rightarrow> env \<Rightarrow> string option \<Rightarrow> rat \<Rightarrow> bool \<Rightarrow> 'b list \<Rightarrow> 's \<times> 'b sinks
     \<Rightarrow> ((py_error + int \<times> string) \<times> 's \<times> 'b sinks) option" where
  "run_cmd_get_output api cmd environ env cwd timeout quiet msg sk =
     map_option (\<lambda>(r, sk). (map_sum id (\<lambda>(ret, out, err). (ret, out @ err)) r, sk))
       (run_cmd_get_stdout_stderr api cmd environ env cwd timeout quiet msg sk)"

definition run_cmd ::
  "('s, 'b) process_api \<Rightarrow> string \<Rightarrow> env \<Rightarrow> env \<Rightarrow> string option \<Rightarrow> rat \<Rightarrow> bool \<Rightarrow> 'b list \<Rightarrow> 's \<times> 'b sinks
     \<Rightarrow> ((py_error + int) \<times> 's \<times> 'b sinks) option" where
  "run_cmd api cmd environ env cwd timeout quiet msg sk =
     map_option (\<lambda>(r, sk). (map_sum id fst r, sk))
       (run_cmd_get_stdout_stderr api cmd environ env cwd timeout quiet msg sk)"

end
