(* ===== verification/ExecGroup.thy ===== *)
theory ExecGroup
  imports Executors PoolDemo
begin

text \<open>
  What a test gets to run commands with: \<open>ExecutorFactory\<close>, \<open>NodeExecutorGroup\<close>, and the executors made from
  acquired slots (\<open>NodeSlot.make_executor\<close>, \<open>MultiGpuSlots.make_executor\<close>); then the properties of all
  executors. The \<open>SshExecutor\<close> of a node is one object that all slots of the node share: an executor made from
  a remote slot is a reference (the node's label) into \<open>sessions\<close>.
\<close>

type_synonym sessions = "string \<Rightarrow> ssh_executor option"

datatype executor =
    LocalX local_executor
  | CpuX cpu_executor
  | DryRunX
  | ContainerX container_executor
  | SshX string

subsection \<open>Factory\<close>

record cli_options =
  cli_no_gpu :: bool
  cli_container_mode :: bool
  cli_container_image :: string
  cli_container_runtime :: string

definition factory_container :: "bool \<Rightarrow> cli_options \<Rightarrow> int \<Rightarrow> container_executor" where
  "factory_container linux cli gpu_index =
     \<lparr>ce_image = cli_container_image cli, ce_gpu_index = gpu_index, ce_gpu_indices = None, ce_runtime = cli_container_runtime cli,
      ce_use_amd_devices = True, ce_ipc = [], ce_privileged = False, ce_extra_run_flags = [], ce_linux = linux, ce_container = None\<rparr>"

definition factory_resolve :: "bool \<Rightarrow> cli_options \<Rightarrow> int \<Rightarrow> string option \<Rightarrow> executor" where
  "factory_resolve linux cli gpu_index log_path =
     (if cli_no_gpu cli then DryRunX
      else if cli_container_mode cli then ContainerX (factory_container linux cli gpu_index)
      else LocalX \<lparr>lx_gpu_index = Some (OneGpu gpu_index), lx_stream_stdout = False, lx_stream_stderr = True,
                   lx_log_path = log_path, lx_logger = None\<rparr>)"

definition factory_cpu :: executor where
  "factory_cpu = CpuX new_cpu_executor"

text \<open>\<open>SshExecutor.__init__\<close>: \<open>user or $USER or root\<close>; \<open>expand\<close> is \<open>os.path.expanduser\<close>.\<close>

definition new_ssh_executor ::
  "(string \<Rightarrow> string) \<Rightarrow> env \<Rightarrow> string \<Rightarrow> string option \<Rightarrow> string option \<Rightarrow> string option \<Rightarrow> int \<Rightarrow> int list \<Rightarrow> ssh_executor" where
  "new_ssh_executor expand environ host user key_path password port gpus =
     \<lparr>sx_host = host,
      sx_user = (case nonempty user of
                   Some u \<Rightarrow> u
                 | None \<Rightarrow> (case map_of environ ''USER'' of Some u \<Rightarrow> u | None \<Rightarrow> ''root'')),
      sx_key_path = map_option expand (nonempty key_path), sx_password = password, sx_port = port, sx_connect_timeout = 30,
      sx_gpu_indices = gpus, sx_logger = None, sx_connected = False, sx_remote_home = None, sx_remote_root = None\<rparr>"

definition factory_remote ::
  "(string \<Rightarrow> string) \<Rightarrow> env \<Rightarrow> string \<Rightarrow> string option \<Rightarrow> string option \<Rightarrow> string option \<Rightarrow> int \<Rightarrow> ssh_executor" where
  "factory_remote expand environ host user key_path password port =
     new_ssh_executor expand environ host user key_path password port []"

subsection \<open>Executors of slots\<close>

text \<open>
  \<open>log_ok\<close>: the log file of the \<open>TestLogger\<close> can be opened. A remote slot without a session (\<open>_ssh\<close> is
  \<open>None\<close>) fails on the attribute assignment; the session of a slot is the one object its pool keeps under the
  label of the node.
\<close>

definition bind_session :: "node_slot \<Rightarrow> int list \<Rightarrow> sessions \<Rightarrow> (py_error + executor) \<times> sessions" where
  "bind_session slot is ss =
     (let label = ns_label (sl_spec slot) in
      case (if sl_ssh slot = None then None else ss label) of
        None \<Rightarrow> (Inl AttributeError, ss)
      | Some x \<Rightarrow> (Inr (SshX label), ss(label \<mapsto> x\<lparr>sx_gpu_indices := is, sx_logger := Some []\<rparr>)))"

definition slot_local_executor :: "gpu_choice \<Rightarrow> local_executor" where
  "slot_local_executor g =
     \<lparr>lx_gpu_index = Some g, lx_stream_stdout = True, lx_stream_stderr = False, lx_log_path = None, lx_logger = Some []\<rparr>"

definition slot_make_executor ::
  "string option \<Rightarrow> bool \<Rightarrow> node_slot \<Rightarrow> sessions \<Rightarrow> (py_error + executor) \<times> sessions" where
  "slot_make_executor gethostname log_ok slot ss =
     (if \<not> log_ok then (Inl OSError, ss)
      else if is_local gethostname (sl_spec slot)
      then (Inr (LocalX (slot_local_executor (OneGpu (gi_index (sl_gpu slot))))), ss)
      else bind_session slot [gi_index (sl_gpu slot)] ss)"

definition multi_make_executor ::
  "string option \<Rightarrow> bool \<Rightarrow> multi_gpu_slots \<Rightarrow> sessions \<Rightarrow> (py_error + executor) \<times> sessions" where
  "multi_make_executor gethostname log_ok m ss =
     (if \<not> log_ok then (Inl OSError, ss)
      else if is_local gethostname (ms_spec m) then (Inr (LocalX (slot_local_executor (ManyGpus (gpu_indices m)))), ss)
      else case ms_slots m of
             [] \<Rightarrow> (Inl IndexError, ss)
           | slot # _ \<Rightarrow> bind_session slot (gpu_indices m) ss)"

subsection \<open>The group\<close>

definition new_group :: "executor list \<Rightarrow> py_error + executor list" where
  "new_group executors = (if executors = [] then Inl ValueError else Inr executors)"

definition group_count :: "executor list \<Rightarrow> nat" where
  "group_count g = length g"

definition visible_gpu_count :: "sessions \<Rightarrow> executor list \<Rightarrow> nat" where
  "visible_gpu_count ss g =
     (case hd g of
        LocalX x \<Rightarrow> (case lx_gpu_index x of Some (ManyGpus is) \<Rightarrow> length is | _ \<Rightarrow> 1)
      | ContainerX x \<Rightarrow> (case ce_gpu_indices x of Some (i # is) \<Rightarrow> length (i # is) | _ \<Rightarrow> 1)
      | SshX label \<Rightarrow>
          (case ss label of
             Some x \<Rightarrow> if sx_gpu_indices x = [] then 1 else length (sx_gpu_indices x)
           | None \<Rightarrow> 1)
      | _ \<Rightarrow> 1)"

text \<open>\<open>group.run\<close> and \<open>group.start_background\<close> forward to the first executor.\<close>

definition group_run :: "(executor \<Rightarrow> string \<Rightarrow> rat option \<Rightarrow> bool \<Rightarrow> 'r) \<Rightarrow> executor list \<Rightarrow> string \<Rightarrow> rat option \<Rightarrow> bool \<Rightarrow> 'r" where
  "group_run run g command timeout stream = run (hd g) command timeout stream"

subsection \<open>Which GPUs a command sees\<close>

text \<open>
  The value of \<open>ROCR_VISIBLE_DEVICES\<close> in the environment of a command that the executor runs. \<open>Inl\<close>: the
  executor refuses to run.
\<close>

definition executor_devices :: "env \<Rightarrow> sessions \<Rightarrow> executor \<Rightarrow> py_error + string option" where
  "executor_devices environ ss ex =
     (case ex of
        LocalX x \<Rightarrow> map_sum id (\<lambda>env. map_of env rocr) (local_env environ (lx_gpu_index x))
      | CpuX x \<Rightarrow> Inr (map_of (cpu_env environ x) rocr)
      | DryRunX \<Rightarrow> Inr None
      | ContainerX x \<Rightarrow> Inr (if ce_use_amd_devices x then Some (rocr_value x) else None)
      | SshX label \<Rightarrow>
          (case ss label of
             None \<Rightarrow> Inl AttributeError
           | Some x \<Rightarrow> Inr (map_of (remote_env x []) rocr)))"

lemma remote_env_devices: "is \<noteq> [] \<Longrightarrow> map_of (remote_env (x\<lparr>sx_gpu_indices := is, sx_logger := lg\<rparr>) []) rocr = Some (index_list is)"
  by (simp add: remote_env_def rocr_def index_list_def)

text \<open>
  C16. The executor made from slots exposes exactly their GPUs: with no \<open>ROCR_VISIBLE_DEVICES\<close> in the session's
  environment, commands of the executor of a slot see its GPU, and those of the executor of a multi-GPU group see
  all its GPUs in the order of allocation, on the local node and, through the node's session, on a remote one.
\<close>

theorem slot_executor_sees_its_gpus:
  assumes "map_of environ rocr = None" and "ms_slots m \<noteq> []"
    and "slot_make_executor gethostname True slot ss = (Inr ex, ss1)"
    and "multi_make_executor gethostname True m ss = (Inr ex', ss2)"
  shows "executor_devices environ ss1 ex = Inr (Some (show_int (gi_index (sl_gpu slot)))) \<and>
    executor_devices environ ss2 ex' = Inr (Some (index_list (gpu_indices m))) \<and>
    visible_gpu_count ss2 [ex'] = slots_count m"
proof -
  have one: "index_list [i] = show_int i" for i by (simp add: index_list_def)
  have ne: "gpu_indices m \<noteq> []" using assms(2) by (simp add: gpu_indices_def)
  have "executor_devices environ ss1 ex = Inr (Some (show_int (gi_index (sl_gpu slot))))"
    using assms(1,3) remote_env_devices [of "[gi_index (sl_gpu slot)]"]
    by (auto simp: slot_make_executor_def executor_devices_def local_env_def slot_local_executor_def bind_session_def Let_def one
        split: if_splits option.splits)
  moreover have "executor_devices environ ss2 ex' = Inr (Some (index_list (gpu_indices m)))"
    "visible_gpu_count ss2 [ex'] = slots_count m"
    using assms(1,4) ne remote_env_devices [OF ne]
    by (auto simp: multi_make_executor_def executor_devices_def local_env_def slot_local_executor_def bind_session_def Let_def
        visible_gpu_count_def slots_count_def gpu_indices_def split: if_splits option.splits list.splits)
  ultimately show ?thesis by blast
qed

text \<open>Two GPUs of a remote node and its session.\<close>

definition demo_slot :: "string \<Rightarrow> int \<Rightarrow> node_slot" where
  "demo_slot label i = \<lparr>sl_spec = demo_spec label, sl_gpu = demo_gpu i, sl_lock = new_lock label i,
     sl_ssh = Some \<lparr>ssh_host = PStr label, ssh_user = PStr ''ci'', ssh_key_path = PNone, ssh_password = PNone\<rparr>\<rparr>"

definition demo_sessions :: sessions where
  "demo_sessions = [''a'' \<mapsto> new_ssh_executor id [] ''a'' (Some ''ci'') None None 22 []]"

lemma demo_slot_simps [simp]:
  "sl_spec (demo_slot l i) = demo_spec l" "sl_ssh (demo_slot l i) \<noteq> None" "gi_index (sl_gpu (demo_slot l i)) = i" "ns_label (demo_spec l) = l"
  "is_local None (demo_spec ''a'') = False"
  by (simp_all add: demo_slot_def demo_gpu_def demo_spec_def is_local_def)

theorem slot_executor_sees_its_gpus_witness:
  "\<exists>ex ss1 ex' ss2. slot_make_executor None True (demo_slot ''a'' 3) demo_sessions = (Inr ex, ss1) \<and>
     multi_make_executor None True \<lparr>ms_slots = [demo_slot ''a'' 0, demo_slot ''a'' 1], ms_spec = demo_spec ''a''\<rparr> demo_sessions
       = (Inr ex', ss2) \<and>
     executor_devices [] ss1 ex = Inr (Some ''3'') \<and> executor_devices [] ss2 ex' = Inr (Some ''0,1'')"
proof -
  let ?m = "\<lparr>ms_slots = [demo_slot ''a'' 0, demo_slot ''a'' 1], ms_spec = demo_spec ''a''\<rparr>"
  obtain ex ss1 where 1: "slot_make_executor None True (demo_slot ''a'' 3) demo_sessions = (Inr ex, ss1)"
    by (simp add: slot_make_executor_def bind_session_def Let_def demo_sessions_def)
  obtain ex' ss2 where 2: "multi_make_executor None True ?m demo_sessions = (Inr ex', ss2)"
    by (simp add: multi_make_executor_def bind_session_def Let_def demo_sessions_def)
  have vals: "show_int 3 = ''3''" "index_list [0, 1] = ''0,1''" by code_simp+
  have "executor_devices [] ss1 ex = Inr (Some ''3'')" "executor_devices [] ss2 ex' = Inr (Some ''0,1'')"
    using slot_executor_sees_its_gpus [OF _ _ 1 2, of "[]"] by (simp_all add: gpu_indices_def vals)
  with 1 2 show ?thesis by blast
qed

text \<open>
  Slots of one remote node share one executor object: making an executor for a second slot redirects the executor
  made for the first, whose commands from then on see the GPU of the second slot, although both slots are held.
\<close>

theorem remote_slots_share_executor:
  assumes "\<not> is_local gethostname (sl_spec a)" and "sl_spec b = sl_spec a" and "gi_index (sl_gpu a) \<noteq> gi_index (sl_gpu b)"
    and "slot_make_executor gethostname True a ss = (Inr ex, ss1)"
    and "slot_make_executor gethostname True b ss1 = (Inr ex', ss2)"
  shows "ex' = ex \<and> executor_devices environ ss1 ex = Inr (Some (show_int (gi_index (sl_gpu a)))) \<and>
    executor_devices environ ss2 ex = Inr (Some (show_int (gi_index (sl_gpu b)))) \<and>
    executor_devices environ ss2 ex \<noteq> executor_devices environ ss1 ex"
proof -
  have one: "index_list [i] = show_int i" for i by (simp add: index_list_def)
  show ?thesis
    using assms remote_env_devices [of "[gi_index (sl_gpu a)]"] remote_env_devices [of "[gi_index (sl_gpu b)]"]
    by (auto simp: slot_make_executor_def executor_devices_def bind_session_def Let_def one split: if_splits option.splits)
qed

theorem remote_slots_share_executor_witness:
  "\<exists>ex ss1 ss2. slot_make_executor None True (demo_slot ''a'' 0) demo_sessions = (Inr ex, ss1) \<and>
     slot_make_executor None True (demo_slot ''a'' 1) ss1 = (Inr ex, ss2) \<and>
     executor_devices [] ss2 ex \<noteq> executor_devices [] ss1 ex"
proof -
  obtain ex ss1 where 1: "slot_make_executor None True (demo_slot ''a'' 0) demo_sessions = (Inr ex, ss1)" "ss1 ''a'' \<noteq> None"
    by (simp add: slot_make_executor_def bind_session_def Let_def demo_sessions_def)
  obtain ex' ss2 where 2: "slot_make_executor None True (demo_slot ''a'' 1) ss1 = (Inr ex', ss2)"
    using 1(2) by (auto simp: slot_make_executor_def bind_session_def Let_def)
  from remote_slots_share_executor [OF _ _ _ 1(1) 2, of "[]"] 1(1) 2 show ?thesis by auto
qed

subsection \<open>The ambient environment\<close>

text \<open>
  When \<open>ROCR_VISIBLE_DEVICES\<close> is set in the environment of the session, it wins: whatever GPU was
  allocated, a local executor passes the environment on unchanged, so two executors with different GPUs run on the
  same devices; without it the allocated index is used, and without either the executor refuses.
\<close>

theorem local_env_priority:
  "local_env environ g =
     (if rocr \<in> fst ` set environ then Inr environ
      else case g of
             None \<Rightarrow> Inl RuntimeError
           | Some (OneGpu i) \<Rightarrow> Inr (dict_set rocr (show_int i) environ)
           | Some (ManyGpus is) \<Rightarrow> Inr (dict_set rocr (join_with '','' (map show_int is)) environ))"
  by (simp add: local_env_def index_list_def map_of_eq_None_iff split: option.split gpu_choice.split)

subsection \<open>The life of a persistent container\<close>

text \<open>
  A persistent container: \<open>start\<close> either raises and leaves the executor without a container, or returns the name
  under which every later \<open>run\<close> executes inside that one container, until \<open>stop\<close> has removed it and the executor is
  as it was before; a second \<open>start\<close> returns the same name and runs nothing. The command arrives in the container
  as one word.
\<close>

theorem container_lifecycle:
  assumes "container_start host pull_timeout name fresh (x, t) = Some (r, x', t')" and "ce_container x = None"
    and "list_all shlex_safe (ce_runtime x)" and "ce_runtime x \<noteq> []"
  shows "case r of
      Inl e \<Rightarrow> x' = x
    | Inr c \<Rightarrow> ce_container x' = Some c \<and> container_start host pull_timeout2 name2 fresh2 (x', u) = Some (Inr c, x', u) \<and>
        container_run host x' command timeout stream = host (exec_cli x c command) (Some (or_default timeout)) False \<and>
        (list_all shlex_safe c \<and> c \<noteq> [] \<longrightarrow>
           sh_words (exec_cli x c command) = Some [ce_runtime x, ''exec'', c, ''sh'', ''-c'', command]) \<and>
        (case container_stop host (x', u) of Some (Inr _, x'', _) \<Rightarrow> x'' = x | Some (Inl _, x'', _) \<Rightarrow> x'' = x' | None \<Rightarrow> True)"
proof -
  have words: "sh_words (exec_cli x c command) = Some [ce_runtime x, ''exec'', c, ''sh'', ''-c'', command]"
    if "list_all shlex_safe c" "c \<noteq> []" for c
  proof -
    have "sh_read Bare None (shlex_quote command) = Some [command]" using sh_read_quote [of None command "[]"] by simp
    then show ?thesis
      using sh_read_letters [OF assms(3,4), of "''exec '' @ c @ '' sh -c '' @ shlex_quote command"]
        sh_read_letters [of "''exec''" "c @ '' sh -c '' @ shlex_quote command"]
        sh_read_letters [OF that, of "''sh -c '' @ shlex_quote command"]
        sh_read_letters [of "''sh''" "''-c '' @ shlex_quote command"] sh_read_letters [of "''-c''" "shlex_quote command"]
      by (simp add: sh_words_def exec_cli_def shlex_safe_def)
  qed
  have undo: "x\<lparr>ce_container := Some c, ce_container := None\<rparr> = x" for c using assms(2) by (cases x) simp
  show ?thesis
  proof (cases r)
    case (Inl e)
    then show ?thesis using assms(1,2) by (auto simp: container_start_def Let_def split: option.splits sum.splits prod.splits)
  next
    case (Inr c)
    then have x': "x' = x\<lparr>ce_container := Some c\<rparr>"
      using assms(1,2) by (auto simp: container_start_def Let_def split: option.splits sum.splits prod.splits)
    with Inr undo words show ?thesis
      by (auto simp: container_start_def container_run_def exec_in_def exec_cli_def container_stop_def
          split: option.split sum.split prod.split)
  qed
qed

text \<open>A host on which every command succeeds.\<close>

definition demo_host_run :: "nat host" where
  "demo_host_run cmd timeout stream n = Some (Inr \<lparr>er_exit_code = 0, er_stdout = [], er_stderr = [], er_duration = 0\<rparr>, Suc n)"

definition demo_cli :: cli_options where
  "demo_cli = \<lparr>cli_no_gpu = False, cli_container_mode = True, cli_container_image = ''rocm/dev'', cli_container_runtime = ''docker''\<rparr>"

theorem container_lifecycle_witness:
  "\<exists>x' t'. container_start demo_host_run 1800 None ''rocmtest_1_1'' (factory_container True demo_cli 2, 0) = Some (Inr ''rocmtest_1_1'', x', t') \<and>
     container_start demo_host_run 1800 None ''other'' (x', 7) = Some (Inr ''rocmtest_1_1'', x', 7) \<and>
     sh_words (exec_cli (factory_container True demo_cli 2) ''rocmtest_1_1'' ''a b'')
       = Some [''docker'', ''exec'', ''rocmtest_1_1'', ''sh'', ''-c'', ''a b'']"
proof -
  let ?x = "factory_container True demo_cli 2"
  have none: "ce_container ?x = None" and rt: "ce_runtime ?x = ''docker''" by (simp_all add: factory_container_def demo_cli_def)
  obtain x' t' where st: "container_start demo_host_run 1800 None ''rocmtest_1_1'' (?x, 0) = Some (Inr ''rocmtest_1_1'', x', t')"
    by (simp add: container_start_def none Let_def nonempty_def act_bind_def demo_host_run_def er_ok_def act_return_def)
  have "list_all shlex_safe ''docker''" "list_all shlex_safe ''rocmtest_1_1''" by (simp_all add: shlex_safe_def)
  with container_lifecycle [OF st none, of 1800 None "''other''" 7 "''a b''" None False] st rt show ?thesis by auto
qed

subsection \<open>Commands without a shell\<close>

text \<open>
  \<open>run_cmd_get_stdout_stderr\<close> stops reading too early: its loop ends when the pipe read last gave nothing, and
  standard error is read last. As soon as a program has closed its standard error, one more chunk of
  standard output is read and the rest of the output is lost.
\<close>

theorem run_cmd_loses_output:
  assumes "pa_popen api cmd (fold (\<lambda>(k, v) e. dict_set k v e) env environ) cwd s = (True, s0)"
    and "pa_select api timeout s0 = (ready, s1)" and "ready Out" and "ready Err"
    and "pa_read api Out s1 = (Some out, s2)" and "pa_read api Err s2 = (Some [], s3)" and "pa_wait api s3 = (ret, s4)"
  shows "\<exists>k'. run_cmd_get_stdout_stderr api cmd environ env cwd timeout quiet msg (s, k)
    = Some (Inr (ret, strip_ansi (pa_decode api out), strip_ansi (pa_decode api [])), s4, k')"
proof -
  let ?st = "\<lparr>st_os = s0, st_buf = (\<lambda>_. []), st_sinks = k\<rparr>"
  let ?grab = "pump api (\<lambda>chunk buf. buf @ chunk) (\<lambda>_. if quiet then None else Some Out) False"
  obtain st1 where st1: "?grab Out (?st\<lparr>st_os := s1\<rparr>) = (True, st1)" "st_os st1 = s2" "st_buf st1 Out = out" "st_buf st1 Err = []"
    using assms(5) by (simp add: pump_def)
  have st2: "?grab Err st1 = (True, st1\<lparr>st_os := s3\<rparr>)"
    using assms(6) st1(2) by (simp add: pump_def)
  have "cmd_turn api quiet msg timeout ?st = (Some (Inr ()), st1\<lparr>st_os := s3\<rparr>)"
    using assms(2-4) st1(1) st2 by (simp add: cmd_turn_def Let_def)
  then show ?thesis using assms(1,7) st1(3,4) by (simp add: run_cmd_get_stdout_stderr_def poll_done)
qed

text \<open>A program that closed its standard error and prints two chunks; the state holds the chunks to come.\<close>

definition chunk_api :: "(string list, char) process_api" where
  "chunk_api = \<lparr>pa_clock = (\<lambda>_. 0), pa_popen = (\<lambda>_ _ _ s. (True, s)), pa_open_log = (\<lambda>_ s. (True, s)), pa_pid = (\<lambda>_. 1),
     pa_poll = (\<lambda>s. if s = [] then Some 0 else None), pa_select = (\<lambda>_ s. (\<lambda>_. True, s)),
     pa_read = (\<lambda>c s. case c of Out \<Rightarrow> (case s of [] \<Rightarrow> (Some [], s) | x # xs \<Rightarrow> (Some x, xs)) | Err \<Rightarrow> (Some [], s)),
     pa_terminate = (\<lambda>s. (True, s)), pa_wait_for = (\<lambda>_ s. (Some 0, s)), pa_kill = id, pa_wait = (\<lambda>s. (0, s)), pa_decode = id\<rparr>"

theorem run_cmd_loses_output_witness:
  "\<exists>k'. run_cmd_get_stdout_stderr chunk_api ''build'' [] [] None 1200 True [] ([''configuring'', ''error: no GPU''], no_sinks)
     = Some (Inr (0, ''configuring'', []), [''error: no GPU''], k')"
proof -
  have "strip_ansi ''configuring'' = ''configuring''" "strip_ansi [] = []" by simp_all
  moreover have "pa_decode chunk_api = id" by (simp add: chunk_api_def)
  ultimately show ?thesis
    using run_cmd_loses_output [where api = chunk_api and cmd = "''build''" and environ = "[]" and env = "[]" and cwd = None
        and s = "[''configuring'', ''error: no GPU'']" and ?s0.0 = "[''configuring'', ''error: no GPU'']" and timeout = 1200
        and ready = "\<lambda>_. True" and ?s1.0 = "[''configuring'', ''error: no GPU'']" and out = "''configuring''"
        and ?s2.0 = "[''error: no GPU'']" and ?s3.0 = "[''error: no GPU'']" and ?s4.0 = "[''error: no GPU'']" and ret = 0
        and quiet = True and msg = "[]" and k = no_sinks]
    by (simp add: chunk_api_def)
qed

end
