(* ===== verification/AmdSmi.thy ===== *)
theory AmdSmi
  imports Executors
begin

text \<open>
  \<open>framework/rocm/libs/amd_smi.py\<close>: metrics of a GPU through \<open>amd-smi --json\<close>. An executor is its \<open>run\<close>
  method, an action over an arbitrary state; \<open>loads\<close> stands for \<open>json.loads\<close>, which raises a \<open>ValueError\<close>
  (\<open>JSONDecodeError\<close>) on anything that is not JSON, and \<open>str_of\<close> for \<open>str\<close> on a parsed value.
\<close>

type_synonym 't runner = "string \<Rightarrow> (execution_result, 't) act"
type_synonym loads = "string \<Rightarrow> pyval option"

record gpu_device_info =
  gd_index :: nat
  gd_arch :: pyval
  gd_vram_total :: int
  gd_bdf :: pyval
  gd_driver_ver :: pyval
  gd_asic_serial :: pyval

record gpu_thermal_info =
  gt_temp_edge :: "int option"
  gt_temp_hotspot :: "int option"
  gt_fan_rpm :: int

record gpu_vram_info =
  gv_index :: int
  gv_total_mb :: int
  gv_used_mb :: int
  gv_free_mb :: int

subsection \<open>Values\<close>

definition to_scalar :: "pyval \<Rightarrow> py_error + int option" where
  "to_scalar node =
     (case node of
        PNone \<Rightarrow> Inr None
      | PDict d \<Rightarrow> map_sum id Some (py_int (case map_of d ''value'' of None \<Rightarrow> PInt 0 | Some v \<Rightarrow> v))
      | _ \<Rightarrow> if is_num_inst node then map_sum id Some (py_int node) else Inr None)"

text \<open>\<open>v.get(k1, {}).get(k2, default)\<close>\<close>

definition get_in :: "pyval \<Rightarrow> string \<Rightarrow> string \<Rightarrow> pyval \<Rightarrow> py_error + pyval" where
  "get_in v k1 k2 dflt = (case py_get v k1 (PDict []) of Inl e \<Rightarrow> Inl e | Inr d \<Rightarrow> py_get d k2 dflt)"

definition parse_temp :: "pyval \<Rightarrow> py_error + int option" where
  "parse_temp entry =
     (case get_in entry ''temperature'' ''hotspot_temperature'' PNone of Inl e \<Rightarrow> Inl e | Inr v \<Rightarrow> to_scalar v)"

definition parse_vram_info :: "pyval \<Rightarrow> int \<Rightarrow> py_error + gpu_vram_info option" where
  "parse_vram_info entry i =
     (case py_get entry ''vram'' (PDict []) of
        Inl e \<Rightarrow> Inl e
      | Inr vram \<Rightarrow>
          (case mapM (\<lambda>k. case py_get vram k (PInt 0) of Inl e \<Rightarrow> Inl e | Inr v \<Rightarrow> to_mb v)
                  [''vram_total'', ''vram_used'', ''vram_free''] of
             Inr [tot, used, free] \<Rightarrow>
               Inr (if tot = 0 \<and> used = 0 then None
                    else Some \<lparr>gv_index = i, gv_total_mb = tot, gv_used_mb = used, gv_free_mb = free\<rparr>)
           | Inr _ \<Rightarrow> Inr None
           | Inl e \<Rightarrow> Inl e))"

definition parse_util :: "pyval \<Rightarrow> py_error + int option" where
  "parse_util entry =
     (case get_in entry ''activity'' ''gfx_activity'' PNone of
        Inl e \<Rightarrow> Inl e
      | Inr raw \<Rightarrow> map_sum id (map_option (\<lambda>val. max 0 (min 100 val))) (to_scalar raw))"

definition parse_ecc :: "pyval \<Rightarrow> py_error + int option" where
  "parse_ecc entry =
     (case get_in entry ''ecc'' ''total_correctable_count'' PNone of
        Inl e \<Rightarrow> Inl e
      | Inr PNone \<Rightarrow> Inr None
      | Inr val \<Rightarrow> map_sum id Some (py_int val))"

definition parse_clock :: "(pyval \<Rightarrow> string) \<Rightarrow> pyval \<Rightarrow> py_error + string option" where
  "parse_clock str_of entry =
     (case get_in entry ''clock'' ''performance_level'' PNone of
        Inl e \<Rightarrow> Inl e
      | Inr PNone \<Rightarrow> Inr None
      | Inr val \<Rightarrow> Inr (Some (str_of val)))"

subsection \<open>One call, one entry\<close>

definition metric_cmd :: "int \<Rightarrow> string" where
  "metric_cmd i = ''amd-smi metric --gpu '' @ show_int i @ '' --json''"

definition metric_entry :: "loads \<Rightarrow> execution_result \<Rightarrow> pyval option" where
  "metric_entry loads result =
     (if \<not> er_ok result then None
      else case loads (er_stdout result) of
             None \<Rightarrow> None
           | Some data \<Rightarrow>
               (case unwrap_entries data of
                  Inr (entry # _) \<Rightarrow> Some entry
                | _ \<Rightarrow> None))"

definition run_metric_json :: "'t runner \<Rightarrow> loads \<Rightarrow> int \<Rightarrow> (pyval option, 't) act" where
  "run_metric_json run loads i = act_bind (run (metric_cmd i)) (\<lambda>r. act_return (metric_entry loads r))"

text \<open>\<open>unwrap_entries\<close> can only raise the \<open>TypeError\<close> that \<open>_run_metric_json\<close> catches.\<close>

lemma unwrap_entries_error: "unwrap_entries data = Inl e \<Longrightarrow> e = TypeError"
proof -
  have "py_list v = Inl e \<Longrightarrow> e = TypeError" for v by (cases v) auto
  then show "unwrap_entries data = Inl e \<Longrightarrow> e = TypeError"
    by (auto simp: unwrap_entries_def split: pyval.splits option.splits)
qed

definition act_lift :: "py_error + 'a \<Rightarrow> ('a, 't) act" where
  "act_lift r = (case r of Inl e \<Rightarrow> act_raise e | Inr a \<Rightarrow> act_return a)"

text \<open>A query of one metric: \<open>None\<close> when there is no entry, otherwise its parser, whose exceptions leave the query.\<close>

definition query_metric :: "'t runner \<Rightarrow> loads \<Rightarrow> (pyval \<Rightarrow> py_error + 'a option) \<Rightarrow> int \<Rightarrow> ('a option, 't) act" where
  "query_metric run loads parse i =
     act_bind (run_metric_json run loads i)
       (\<lambda>entry. case entry of None \<Rightarrow> act_return None | Some e \<Rightarrow> act_lift (parse e))"

definition query_vram_usage :: "'t runner \<Rightarrow> loads \<Rightarrow> int \<Rightarrow> (gpu_vram_info option, 't) act" where
  "query_vram_usage run loads i = query_metric run loads (\<lambda>e. parse_vram_info e i) i"

definition query_ecc_errors :: "'t runner \<Rightarrow> loads \<Rightarrow> int \<Rightarrow> (int option, 't) act" where
  "query_ecc_errors run loads i = query_metric run loads parse_ecc i"

definition query_gpu_utilization :: "'t runner \<Rightarrow> loads \<Rightarrow> int \<Rightarrow> (int option, 't) act" where
  "query_gpu_utilization run loads i = query_metric run loads parse_util i"

definition query_clock_state :: "'t runner \<Rightarrow> loads \<Rightarrow> (pyval \<Rightarrow> string) \<Rightarrow> int \<Rightarrow> (string option, 't) act" where
  "query_clock_state run loads str_of i = query_metric run loads (parse_clock str_of) i"

text \<open>\<open>_query_thermal\<close>: only \<open>KeyError\<close> and \<open>TypeError\<close> of the parsing are caught.\<close>

definition no_thermal :: gpu_thermal_info where
  "no_thermal = \<lparr>gt_temp_edge = None, gt_temp_hotspot = None, gt_fan_rpm = -1\<rparr>"

definition thermal_of_entry :: "pyval \<Rightarrow> py_error + gpu_thermal_info" where
  "thermal_of_entry entry =
     (case py_get entry ''temperature'' (PDict []) of
        Inl e \<Rightarrow> Inl e
      | Inr temp \<Rightarrow>
          (case (case py_get temp ''fan_speed_rpm'' PNone of
                   Inl e \<Rightarrow> Inl e
                 | Inr v \<Rightarrow> if truthy v then Inr v else get_in entry ''fan'' ''speed_rpm'' PNone) of
             Inl e \<Rightarrow> Inl e
           | Inr fan_raw \<Rightarrow>
               (case mapM (\<lambda>v. case v of Inl e \<Rightarrow> Inl e | Inr x \<Rightarrow> to_scalar x)
                       [Inr fan_raw, py_get temp ''edge_temperature'' PNone, py_get temp ''hotspot_temperature'' PNone] of
                  Inr [fan, edge, hotspot] \<Rightarrow>
                    Inr \<lparr>gt_temp_edge = edge, gt_temp_hotspot = hotspot, gt_fan_rpm = (case fan of None \<Rightarrow> -1 | Some f \<Rightarrow> f)\<rparr>
                | Inr _ \<Rightarrow> Inr no_thermal
                | Inl e \<Rightarrow> Inl e)))"

definition query_thermal :: "'t runner \<Rightarrow> loads \<Rightarrow> int \<Rightarrow> (gpu_thermal_info, 't) act" where
  "query_thermal run loads i =
     act_bind (run_metric_json run loads i)
       (\<lambda>entry. case entry of
          None \<Rightarrow> act_return no_thermal
        | Some e \<Rightarrow>
            (case thermal_of_entry e of
               Inl err \<Rightarrow> if err \<in> {KeyError, TypeError} then act_return no_thermal else act_raise err
             | Inr t \<Rightarrow> act_return t))"

definition query_gpu_temp :: "'t runner \<Rightarrow> loads \<Rightarrow> int \<Rightarrow> (int option, 't) act" where
  "query_gpu_temp run loads i = act_bind (query_thermal run loads i) (\<lambda>t. act_return (gt_temp_hotspot t))"

subsection \<open>Device list\<close>

definition device_of :: "nat \<Rightarrow> pyval \<Rightarrow> py_error + gpu_device_info" where
  "device_of i dev =
     (case py_get dev ''asic'' (PDict []) of
        Inl e \<Rightarrow> Inl e
      | Inr asic \<Rightarrow>
          (case py_get asic ''target_graphics_version'' (PStr unknown) of
             Inl e \<Rightarrow> Inl e
           | Inr arch \<Rightarrow>
               (case (case get_in dev ''vram'' ''size'' (PInt 0) of Inl e \<Rightarrow> Inl e | Inr v \<Rightarrow> to_mb v) of
                  Inl e \<Rightarrow> Inl e
                | Inr tot \<Rightarrow>
                    (case mapM id [py_get dev ''bdf'' (PStr []), get_in dev ''driver'' ''driver_version'' (PStr unknown),
                                   py_get asic ''asic_serial'' (PStr unknown)] of
                       Inr [bdf, drv, serial] \<Rightarrow>
                         Inr \<lparr>gd_index = i, gd_arch = arch, gd_vram_total = tot, gd_bdf = bdf, gd_driver_ver = drv, gd_asic_serial = serial\<rparr>
                     | Inr _ \<Rightarrow> Inl TypeError
                     | Inl e \<Rightarrow> Inl e))))"

definition list_devices :: "'t runner \<Rightarrow> loads \<Rightarrow> (gpu_device_info list, 't) act" where
  "list_devices run loads =
     act_bind (run ''amd-smi static --json'')
       (\<lambda>r. if \<not> er_ok r then act_return []
            else case loads (er_stdout r) of
                   None \<Rightarrow> act_return []
                 | Some data \<Rightarrow>
                     (case (case unwrap_entries data of
                              Inl e \<Rightarrow> Inl e
                            | Inr entries \<Rightarrow> mapM (\<lambda>(i, dev). device_of i dev) (enumerate 0 entries)) of
                        Inl err \<Rightarrow> if err \<in> {KeyError, TypeError} then act_return [] else act_raise err
                      | Inr devices \<Rightarrow> act_return devices))"

subsection \<open>Version\<close>

text \<open>\<open>re.search(r"(\d+)\.(\d+)\.(\d+)", s)\<close>\<close>

fun take_number :: "string \<Rightarrow> (nat \<times> string) option" where
  "take_number s =
     (let ds = takeWhile is_digit s in if ds = [] then None else Some (digits_val ds, dropWhile is_digit s))"

definition dotted :: "string \<Rightarrow> (nat \<times> string) option" where
  "dotted s = (case s of c # t \<Rightarrow> if c = CHR ''.'' then take_number t else None | [] \<Rightarrow> None)"

definition version_here :: "string \<Rightarrow> (nat \<times> nat \<times> nat) option" where
  "version_here s =
     Option.bind (take_number s)
       (\<lambda>(a, s). Option.bind (dotted s) (\<lambda>(b, s). Option.bind (dotted s) (\<lambda>(c, s). Some (a, b, c))))"

fun search_version :: "string \<Rightarrow> (nat \<times> nat \<times> nat) option" where
  "search_version [] = None"
| "search_version (c # s) = (case version_here (c # s) of Some v \<Rightarrow> Some v | None \<Rightarrow> search_version s)"

definition amd_smi_version :: "'t runner \<Rightarrow> ((nat \<times> nat \<times> nat) option, 't) act" where
  "amd_smi_version run =
     act_bind (run ''amd-smi --version 2>/dev/null'')
       (\<lambda>r. act_return (if has_text r then search_version (er_stdout r) else None))"

definition require_amd_smi_version :: "'t runner \<Rightarrow> nat \<Rightarrow> nat \<Rightarrow> (unit, 't) act" where
  "require_amd_smi_version run major minor =
     act_bind (amd_smi_version run)
       (\<lambda>ver. case ver of
          None \<Rightarrow> act_raise PytestFail
        | Some (a, b, c) \<Rightarrow> if a < major \<or> a = major \<and> b < minor then act_raise PytestFail else act_return ())"

end
