(* ===== verification/TestLogger.thy ===== *)
theory TestLogger
  imports BackgroundProc Shell
begin

text \<open>
  \<open>framework/logging/test_logger.py\<close>: the per-test logger. All \<open>TestLogger\<close> objects of a process share one base
  logger, whose handlers are a list here: a record that is logged reaches every handler. Time stamps and
  the ellipsis character are arguments.
\<close>

subsection \<open>Handlers and files\<close>

datatype log_handler = FileHandler nat string | ConsoleHandler nat

text \<open>
  \<open>lw_handlers\<close> are the handlers of the base logger, \<open>lw_files\<close> the records written to each log file,
  \<open>lw_console\<close> those shown, \<open>lw_session\<close> the contents of each session log, \<open>lw_writable\<close> whether a session log can be
  opened.
\<close>

record log_world =
  lw_handlers :: "log_handler list"
  lw_files :: "string \<Rightarrow> string list"
  lw_console :: "string list"
  lw_session :: "string \<Rightarrow> string"
  lw_writable :: "string \<Rightarrow> bool"

fun handle_record :: "string \<Rightarrow> log_handler \<Rightarrow> log_world \<Rightarrow> log_world" where
  "handle_record msg (FileHandler n p) w = w\<lparr>lw_files := (lw_files w)(p := lw_files w p @ [msg])\<rparr>"
| "handle_record msg (ConsoleHandler n) w = w\<lparr>lw_console := lw_console w @ [msg]\<rparr>"

definition base_log :: "string \<Rightarrow> log_world \<Rightarrow> log_world" where
  "base_log msg w = fold (handle_record msg) (lw_handlers w) w"

record test_logger =
  tl_test_id :: string
  tl_node_label :: string
  tl_gpu_label :: string
  tl_session_log :: "string option"
  tl_fh :: "log_handler option"
  tl_ch :: "log_handler option"

text \<open>\<open>TestLogger.__init__\<close>; \<open>n\<close> identifies the object, \<open>started\<close> is the time stamp.\<close>

definition log_meta :: "string \<Rightarrow> string \<Rightarrow> string \<Rightarrow> string \<Rightarrow> string" where
  "log_meta test_id node_label gpu_label started =
     ''# test='' @ test_id @ '' node='' @ node_label @ '' gpu='' @ gpu_label @ '' started='' @ started"

definition truthy_path :: "string option \<Rightarrow> string option" where
  "truthy_path p = (case p of Some (c # s) \<Rightarrow> Some (c # s) | _ \<Rightarrow> None)"

definition new_test_logger ::
  "nat \<Rightarrow> string \<Rightarrow> string \<Rightarrow> string \<Rightarrow> string \<Rightarrow> string option \<Rightarrow> string option \<Rightarrow> log_world \<Rightarrow> test_logger \<times> log_world" where
  "new_test_logger n started test_id node_label gpu_label log_path session_log_path w =
     (let (fh, w) =
            (case truthy_path log_path of
               None \<Rightarrow> (None, w)
             | Some p \<Rightarrow>
                 (Some (FileHandler n p),
                  w\<lparr>lw_files := (lw_files w)(p := [log_meta test_id node_label gpu_label started]),
                    lw_handlers := lw_handlers w @ [FileHandler n p]\<rparr>))
      in (\<lparr>tl_test_id = test_id, tl_node_label = node_label, tl_gpu_label = gpu_label, tl_session_log = session_log_path,
           tl_fh = fh, tl_ch = Some (ConsoleHandler n)\<rparr>,
          w\<lparr>lw_handlers := lw_handlers w @ [ConsoleHandler n]\<rparr>))"

definition drop_handler :: "log_handler option \<Rightarrow> log_world \<Rightarrow> log_world" where
  "drop_handler h w = (case h of None \<Rightarrow> w | Some x \<Rightarrow> w\<lparr>lw_handlers := remove1 x (lw_handlers w)\<rparr>)"

definition close_logger :: "test_logger \<Rightarrow> log_world \<Rightarrow> test_logger \<times> log_world" where
  "close_logger lg w = (lg\<lparr>tl_fh := None, tl_ch := None\<rparr>, drop_handler (tl_ch lg) (drop_handler (tl_fh lg) w))"

subsection \<open>The session log\<close>

definition session_append :: "test_logger \<Rightarrow> string \<Rightarrow> log_world \<Rightarrow> log_world" where
  "session_append lg line w =
     (case truthy_path (tl_session_log lg) of
        None \<Rightarrow> w
      | Some p \<Rightarrow>
          if lw_writable w p then w\<lparr>lw_session := (lw_session w)(p := lw_session w p @ line)\<rparr>
          else base_log ''TestLogger: session_log write error'' w)"

definition pad_right :: "nat \<Rightarrow> string \<Rightarrow> string" where
  "pad_right n s = s @ replicate (n - length s) CHR '' ''"

definition session_id_width :: nat where
  "session_id_width = 30"

definition id_column :: "test_logger \<Rightarrow> string" where
  "id_column lg = pad_right session_id_width (take session_id_width (tl_test_id lg))"

definition session_output_cap :: nat where
  "session_output_cap = 3800"

definition indent_lines :: "string \<Rightarrow> string" where
  "indent_lines t = join_with [newline] (map (\<lambda>l. ''  '' @ l) (splitlines t))"

definition session_block :: "string \<Rightarrow> test_logger \<Rightarrow> string \<Rightarrow> string \<Rightarrow> string" where
  "session_block ts lg kind t =
     (let truncated = (if length t > session_output_cap
                       then [newline] @ ''  [+'' @ show_nat (length t - session_output_cap) @ '' chars omitted]'' else []);
          indented = indent_lines (take session_output_cap t)
      in pad_right 6 kind @ ts @ '' '' @ id_column lg @ [newline] @ indented @ truncated @ [newline])"

definition session_append_output :: "string \<Rightarrow> test_logger \<Rightarrow> string \<Rightarrow> string \<Rightarrow> log_world \<Rightarrow> log_world" where
  "session_append_output ts lg kind t w =
     (if truthy_path (tl_session_log lg) = None \<or> t = [] then w else session_append lg (session_block ts lg kind t) w)"

definition log_event_line :: "string \<Rightarrow> test_logger \<Rightarrow> string \<Rightarrow> string \<Rightarrow> log_world \<Rightarrow> log_world" where
  "log_event_line ts lg kind detail w =
     session_append lg (pad_right 6 kind @ ts @ '' '' @ id_column lg @ '' '' @ detail @ [newline]) w"

subsection \<open>Commands\<close>

definition display_cmd :: "string \<Rightarrow> string \<Rightarrow> string" where
  "display_cmd ellipsis cmd =
     (if length cmd \<le> 300 then cmd
      else take 300 cmd @ ellipsis @ '' <'' @ show_nat (length cmd - 300) @ '' chars truncated>'')"

definition cmd_start :: "string \<Rightarrow> string \<Rightarrow> test_logger \<Rightarrow> string \<Rightarrow> log_world \<Rightarrow> log_world" where
  "cmd_start ellipsis ts lg cmd w =
     session_append lg (''CMD   '' @ ts @ '' '' @ id_column lg @ '' '' @ tl_node_label lg @ '' $ '' @ cmd @ [newline])
       (base_log (''>> ['' @ ts @ ''] '' @ tl_node_label lg @ '' | '' @ tl_gpu_label lg @ '' | $ '' @ display_cmd ellipsis cmd) w)"

definition cmd_end :: "string \<Rightarrow> test_logger \<Rightarrow> string \<Rightarrow> string \<Rightarrow> int \<Rightarrow> log_world \<Rightarrow> log_world" where
  "cmd_end ts lg out err exit_code w =
     (let out_s = py_rstrip out; err_s = py_rstrip err;
          w = (if out_s = [] then w else base_log out_s w);
          w = (if err_s = [] then w else base_log err_s w);
          w = session_append lg (''END   '' @ ts @ '' '' @ id_column lg @ '' exit='' @ show_int exit_code @ [newline]) w;
          w = session_append_output ts lg ''OUT'' out_s w
      in session_append_output ts lg ''ERR'' err_s w)"

subsection \<open>Properties\<close>

lemma base_log_handlers [simp]: "lw_handlers (base_log msg w) = lw_handlers w" "lw_writable (base_log msg w) = lw_writable w"
proof -
  have "lw_handlers (fold (handle_record msg) hs w) = lw_handlers w \<and> lw_writable (fold (handle_record msg) hs w) = lw_writable w"
    for hs
  proof (induction hs arbitrary: w)
    case (Cons h hs)
    then show ?case by (cases h) simp_all
  qed simp
  then show "lw_handlers (base_log msg w) = lw_handlers w" "lw_writable (base_log msg w) = lw_writable w"
    by (simp_all add: base_log_def)
qed

lemma session_append_handlers [simp]: "lw_handlers (session_append lg line w) = lw_handlers w"
  by (simp add: session_append_def split: option.split)

text \<open>Logging leaves the handlers of the base logger alone.\<close>

lemma logging_handlers [simp]:
  "lw_handlers (cmd_start ell ts lg cmd w) = lw_handlers w" "lw_handlers (cmd_end ts lg out err rc w) = lw_handlers w"
  "lw_handlers (log_event_line ts lg kind detail w) = lw_handlers w"
  by (simp_all add: cmd_start_def cmd_end_def log_event_line_def session_append_output_def Let_def)

text \<open>
  A logger leaves nothing behind: between opening and closing it, whatever handlers come before or after, closing
  removes exactly the handlers that opening added, and closing twice is the same as closing once.
\<close>

theorem logger_close_restores:
  assumes "new_test_logger n started i node gpu log_path slog w = (lg, w1)"
    and "lw_handlers w2 = lw_handlers w1 @ later" and "\<forall>p. FileHandler n p \<notin> set (lw_handlers w)" and "ConsoleHandler n \<notin> set (lw_handlers w)"
  shows "lw_handlers (snd (close_logger lg w2)) = lw_handlers w @ later \<and>
    close_logger (fst (close_logger lg w2)) (snd (close_logger lg w2)) = close_logger lg w2"
proof -
  have "lw_handlers (snd (close_logger lg w2)) = lw_handlers w @ later"
    using assms by (auto simp: new_test_logger_def close_logger_def drop_handler_def Let_def remove1_append
        split: option.splits)
  moreover have "close_logger (fst (close_logger lg w2)) (snd (close_logger lg w2)) = close_logger lg w2"
    by (simp add: close_logger_def drop_handler_def)
  ultimately show ?thesis by blast
qed

definition quiet_world :: log_world where
  "quiet_world = \<lparr>lw_handlers = [ConsoleHandler 0], lw_files = (\<lambda>_. []), lw_console = [], lw_session = (\<lambda>_. []), lw_writable = (\<lambda>_. True)\<rparr>"

theorem logger_close_restores_witness:
  "\<exists>lg w1. new_test_logger 1 ''now'' ''t'' ''a'' ''GPU-0'' (Some ''t.log'') None quiet_world = (lg, w1) \<and>
     lw_handlers w1 = [ConsoleHandler 0, FileHandler 1 ''t.log'', ConsoleHandler 1] \<and>
     lw_handlers (snd (close_logger lg w1)) = [ConsoleHandler 0]"
proof -
  obtain lg w1 where 1: "new_test_logger 1 ''now'' ''t'' ''a'' ''GPU-0'' (Some ''t.log'') None quiet_world = (lg, w1)"
    by (cases "new_test_logger 1 ''now'' ''t'' ''a'' ''GPU-0'' (Some ''t.log'') None quiet_world")
  then have "lw_handlers w1 = [ConsoleHandler 0, FileHandler 1 ''t.log'', ConsoleHandler 1]"
    by (auto simp: new_test_logger_def quiet_world_def truthy_path_def)
  moreover have "lw_handlers (snd (close_logger lg w1)) = [ConsoleHandler 0]"
    using logger_close_restores [OF 1, of w1 "[]"] by (simp add: quiet_world_def)
  ultimately show ?thesis using 1 by blast
qed

subsection \<open>Logs of several loggers\<close>

lemma base_log_files:
  "lw_files (base_log msg w) p = lw_files w p @ replicate (length (filter (\<lambda>h. \<exists>n. h = FileHandler n p) (lw_handlers w))) msg"
proof -
  have "lw_files (fold (handle_record msg) hs w) p
      = lw_files w p @ replicate (length (filter (\<lambda>h. \<exists>n. h = FileHandler n p) hs)) msg" for hs
  proof (induction hs arbitrary: w)
    case (Cons h hs)
    have rep: "[msg] @ replicate k msg = replicate (Suc k) msg" for k by simp
    show ?case using Cons.IH by (cases h) (auto simp flip: rep)
  qed simp
  then show ?thesis by (simp add: base_log_def)
qed

lemma session_append_files: "truthy_path (tl_session_log lg) = None \<Longrightarrow> session_append lg line w = w"
  by (simp add: session_append_def)

text \<open>
  The log files of two open loggers are not separate: every logger writes to the base logger, so the output of a
  command that one logger reports is also written to the log file of the other one.
\<close>

theorem open_loggers_mix:
  assumes "new_test_logger n s i node gpu (Some (c # p)) None w = (a, w1)"
    and "new_test_logger m s' i' node' gpu' (Some (d # q)) None w1 = (b, w2)"
    and "c # p \<noteq> d # q" and "m \<noteq> n" and "py_rstrip out \<noteq> []"
  shows "py_rstrip out \<in> set (lw_files (cmd_end ts b out [] rc w2) (c # p)) \<and>
    py_rstrip out \<in> set (lw_files (cmd_end ts b out [] rc w2) (d # q))"
proof -
  have none: "truthy_path (tl_session_log b) = None"
    using assms(2) by (auto simp: new_test_logger_def truthy_path_def Let_def split: prod.splits)
  have h: "FileHandler n (c # p) \<in> set (lw_handlers w2)" "FileHandler m (d # q) \<in> set (lw_handlers w2)"
    using assms(1,2) by (auto simp: new_test_logger_def truthy_path_def Let_def)
  have "py_rstrip [] = []" by (simp add: py_rstrip_def rstrip_by_def)
  then have "cmd_end ts b out [] rc w2 = base_log (py_rstrip out) w2"
    using assms(5) none by (simp add: cmd_end_def session_append_files session_append_output_def Let_def)
  moreover have "py_rstrip out \<in> set (lw_files (base_log (py_rstrip out) w2) r)" if "FileHandler k r \<in> set (lw_handlers w2)" for k r
  proof -
    have "filter (\<lambda>h. \<exists>n. h = FileHandler n r) (lw_handlers w2) \<noteq> []"
      using that by (auto simp: filter_empty_conv)
    then show ?thesis by (simp add: base_log_files)
  qed
  ultimately show ?thesis using h by simp
qed

theorem open_loggers_mix_witness:
  "\<exists>a w1 b w2. new_test_logger 1 ''now'' ''t'' ''a'' ''GPU-0'' (Some ''a.log'') None quiet_world = (a, w1) \<and>
     new_test_logger 2 ''now'' ''t'' ''b'' ''GPU-0'' (Some ''b.log'') None w1 = (b, w2) \<and>
     ''hello'' \<in> set (lw_files (cmd_end ''12:00'' b ''hello'' [] 0 w2) ''a.log'')"
proof -
  obtain a w1 where 1: "new_test_logger 1 ''now'' ''t'' ''a'' ''GPU-0'' (Some ''a.log'') None quiet_world = (a, w1)"
    by (cases "new_test_logger 1 ''now'' ''t'' ''a'' ''GPU-0'' (Some ''a.log'') None quiet_world")
  obtain b w2 where 2: "new_test_logger 2 ''now'' ''t'' ''b'' ''GPU-0'' (Some ''b.log'') None w1 = (b, w2)"
    by (cases "new_test_logger 2 ''now'' ''t'' ''b'' ''GPU-0'' (Some ''b.log'') None w1")
  have "py_rstrip ''hello'' = ''hello''" by code_simp
  with open_loggers_mix [OF 1 2, of "''hello''" "''12:00''" 0] 1 2 show ?thesis by auto
qed

subsection \<open>The size of a session log block\<close>

lemma indent_blank_lines: "length (indent_lines (replicate n newline @ ''x'')) = 3 * n + 3"
proof -
  have sl: "splitlines_from [] (replicate n newline @ ''x'') = replicate n [] @ [''x'']" for n
  proof (induction n)
    case (Suc n)
    then show ?case by (cases n) (simp_all add: is_line_break_def)
  qed (simp add: is_line_break_def)
  have jl: "length (join_with [newline] (replicate n ''  '' @ [''  x''])) = 3 * n + 3" for n
  proof (induction n)
    case (Suc n)
    then show ?case by (cases n) simp_all
  qed simp
  show ?thesis using jl [of n] by (simp add: indent_lines_def splitlines_def sl map_replicate_const)
qed

text \<open>
  The cap on a block of command output in the session log does not keep the block within the 4096 bytes of an atomic
  append: the cap counts the characters of the output, and indenting adds two to every line. Output of 3799 empty
  lines and one letter, which the cap lets through whole, makes a block of more than 11000 characters.
\<close>

theorem session_block_exceeds_atomic_write:
  "let t = replicate 3799 newline @ ''x''
   in py_rstrip t = t \<and> take session_output_cap t = t \<and> 11000 < length (session_block ts lg kind t)"
proof -
  let ?t = "replicate 3799 newline @ ''x''"
  have cap: "take session_output_cap ?t = ?t" by (simp add: session_output_cap_def)
  have "py_rstrip ?t = ?t" by (simp add: py_rstrip_def rstrip_by_def is_space_def)
  moreover have "length (indent_lines ?t) = 11400" using indent_blank_lines [of 3799] by simp
  then have "11000 < length (session_block ts lg kind ?t)" unfolding session_block_def Let_def cap by simp
  ultimately show ?thesis using cap by (simp only: Let_def)
qed

end
