(* ===== verification/Monitor.thy ===== *)
theory Monitor
  imports AmdSmi TestLogger
begin

text \<open>
  \<open>framework/gpu/monitor.py\<close> (snapshots of GPU metrics and the background poller) and \<open>GpuHealthChecker\<close> of
  \<open>framework/plugins/health_plugin.py\<close>. A set of metric names is a list; the sign for \<open>approximately\<close> and the
  header of the monitor log, which has floats in it, are arguments.
\<close>

record gpu_metrics =
  gm_index :: int
  gm_temp_c :: "int option"
  gm_vram_used_mb :: "int option"
  gm_vram_free_mb :: "int option"
  gm_vram_total_mb :: "int option"
  gm_compute_pct :: "int option"
  gm_ecc_errors :: "int option"
  gm_clock_state :: "string option"

definition new_metrics :: "int \<Rightarrow> gpu_metrics" where
  "new_metrics i =
     \<lparr>gm_index = i, gm_temp_c = None, gm_vram_used_mb = None, gm_vram_free_mb = None, gm_vram_total_mb = None,
      gm_compute_pct = None, gm_ecc_errors = None, gm_clock_state = None\<rparr>"

definition all_metrics :: "string list" where
  "all_metrics = [''temp'', ''vram'', ''util'', ''ecc'', ''clock'']"

subsection \<open>Snapshots\<close>

text \<open>
  The assignments in their order; an exception ends the sequence and keeps what was assigned before.
\<close>

type_synonym metric_step = "gpu_metrics \<Rightarrow> py_error + gpu_metrics"

definition metric_steps :: "(pyval \<Rightarrow> string) \<Rightarrow> string list \<Rightarrow> int \<Rightarrow> pyval \<Rightarrow> metric_step list" where
  "metric_steps str_of ms i entry =
     [\<lambda>m. if ''temp'' \<in> set ms then map_sum id (\<lambda>v. m\<lparr>gm_temp_c := v\<rparr>) (parse_temp entry) else Inr m,
      \<lambda>m. if ''vram'' \<in> set ms
          then map_sum id (\<lambda>v. case v of
                 None \<Rightarrow> m
               | Some vram \<Rightarrow> m\<lparr>gm_vram_used_mb := Some (gv_used_mb vram), gm_vram_free_mb := Some (gv_free_mb vram),
                                gm_vram_total_mb := Some (gv_total_mb vram)\<rparr>) (parse_vram_info entry i)
          else Inr m,
      \<lambda>m. if ''util'' \<in> set ms then map_sum id (\<lambda>v. m\<lparr>gm_compute_pct := v\<rparr>) (parse_util entry) else Inr m,
      \<lambda>m. if ''ecc'' \<in> set ms then map_sum id (\<lambda>v. m\<lparr>gm_ecc_errors := v\<rparr>) (parse_ecc entry) else Inr m,
      \<lambda>m. if ''clock'' \<in> set ms then map_sum id (\<lambda>v. m\<lparr>gm_clock_state := v\<rparr>) (parse_clock str_of entry) else Inr m]"

fun run_steps :: "metric_step list \<Rightarrow> gpu_metrics \<Rightarrow> gpu_metrics" where
  "run_steps [] m = m"
| "run_steps (f # fs) m = (case f m of Inl _ \<Rightarrow> m | Inr m' \<Rightarrow> run_steps fs m')"

text \<open>What a snapshot makes of the answer to its one command.\<close>

definition snapshot_result ::
  "loads \<Rightarrow> (pyval \<Rightarrow> string) \<Rightarrow> string list \<Rightarrow> int \<Rightarrow> py_error + execution_result \<Rightarrow> gpu_metrics" where
  "snapshot_result loads str_of ms i r =
     (case r of
        Inl _ \<Rightarrow> new_metrics i
      | Inr result \<Rightarrow>
          (case metric_entry loads result of
             None \<Rightarrow> new_metrics i
           | Some entry \<Rightarrow> run_steps (metric_steps str_of ms i entry) (new_metrics i)))"

text \<open>\<open>except Exception\<close>: the outcomes of pytest are not caught.\<close>

definition is_exception :: "py_error \<Rightarrow> bool" where
  "is_exception e \<longleftrightarrow> e \<noteq> PytestFail \<and> e \<noteq> PytestSkip"

definition snapshot :: "'t runner \<Rightarrow> loads \<Rightarrow> (pyval \<Rightarrow> string) \<Rightarrow> string list \<Rightarrow> int \<Rightarrow> (gpu_metrics, 't) act" where
  "snapshot run loads str_of ms i t =
     map_option
       (\<lambda>(r, t). (case r of
          Inl e \<Rightarrow> if is_exception e then Inr (snapshot_result loads str_of ms i r) else Inl e
        | Inr _ \<Rightarrow> Inr (snapshot_result loads str_of ms i r), t))
       (run (metric_cmd i) t)"

subsection \<open>Lines\<close>

definition column :: "string \<Rightarrow> string list \<Rightarrow> string \<Rightarrow> (string option) \<Rightarrow> string list" where
  "column name ms key shown =
     (case shown of
        Some v \<Rightarrow> [name @ ''='' @ v]
      | None \<Rightarrow> if key \<in> set ms then [name @ ''=n/a''] else [])"

definition vram_pct :: "int \<Rightarrow> int \<Rightarrow> int" where
  "vram_pct used tot = (if tot = 0 then 0 else trunc (of_int (used * 100) / of_int tot))"

definition vram_text :: "gpu_metrics \<Rightarrow> string option" where
  "vram_text m =
     (case (gm_vram_used_mb m, gm_vram_total_mb m) of
        (Some used, Some tot) \<Rightarrow>
          Some (show_int used @ ''/'' @ show_int tot @ ''MB('' @ show_int (vram_pct used tot) @ ''%)'')
      | _ \<Rightarrow> None)"

definition metric_parts :: "string list \<Rightarrow> gpu_metrics \<Rightarrow> string list" where
  "metric_parts ms m =
     column ''temp'' ms ''temp'' (map_option (\<lambda>v. show_int v @ ''C'') (gm_temp_c m)) @
     column ''vram'' ms ''vram'' (vram_text m) @
     column ''util'' ms ''util'' (map_option (\<lambda>v. show_int v @ ''%'') (gm_compute_pct m)) @
     column ''ECC'' ms ''ecc'' (map_option show_int (gm_ecc_errors m)) @
     column ''clk'' ms ''clock'' (case gm_clock_state m of Some (c # s) \<Rightarrow> Some (c # s) | _ \<Rightarrow> None)"

definition gpu_label :: "int \<Rightarrow> string" where
  "gpu_label i = ''GPU-'' @ show_int i"

definition summary_line :: "string list \<Rightarrow> gpu_metrics \<Rightarrow> string \<Rightarrow> string" where
  "summary_line ms m phase =
     pad_right 14 (''['' @ phase @ ''-health]'') @ '' '' @ gpu_label (gm_index m) @ ''  '' @ join_with ''  '' (metric_parts ms m)"

definition format_row :: "string list \<Rightarrow> string \<Rightarrow> gpu_metrics \<Rightarrow> string" where
  "format_row ms ts m = ts @ '' | '' @ gpu_label (gm_index m) @ '' | '' @ join_with ''  '' (metric_parts ms m)"

definition signed :: "int \<Rightarrow> string" where
  "signed d = (if d \<ge> 0 then ''+'' else []) @ show_int d"

definition delta_column :: "string \<Rightarrow> string \<Rightarrow> int option \<Rightarrow> int option \<Rightarrow> string list" where
  "delta_column name unit pre post =
     (case (pre, post) of
        (Some a, Some b) \<Rightarrow> [name @ ''='' @ signed (b - a) @ unit]
      | (None, Some b) \<Rightarrow> [name @ ''=>'' @ show_int b @ unit]
      | _ \<Rightarrow> [])"

definition delta_line :: "string \<Rightarrow> gpu_metrics \<Rightarrow> gpu_metrics \<Rightarrow> string" where
  "delta_line approx pre post =
     (let parts = delta_column ''temp'' ''C'' (gm_temp_c pre) (gm_temp_c post) @
                  delta_column ''vram'' ''MB'' (gm_vram_used_mb pre) (gm_vram_used_mb post) @
                  (case gm_compute_pct post of None \<Rightarrow> [] | Some p \<Rightarrow> [''util=peak'' @ approx @ show_int p @ ''%''])
      in ''[health-delta]  '' @ gpu_label (gm_index pre) @ ''  '' @
         join_with ''  '' (if parts = [] then [''no delta (metrics unavailable)''] else parts))"

subsection \<open>The background poller\<close>

text \<open>
  The thread's world: the stop event, the clock, the time stamp, running a command (which may raise) and waiting on
  the event for at most the given time.
\<close>

record 't monitor_world =
  mw_stop :: "'t \<Rightarrow> bool"
  mw_clock :: "'t \<Rightarrow> rat"
  mw_stamp :: "'t \<Rightarrow> string"
  mw_run :: "string \<Rightarrow> 't \<Rightarrow> (py_error + execution_result) \<times> 't"
  mw_wait :: "rat \<Rightarrow> 't \<Rightarrow> 't"

text \<open>
  Commands do not turn the clock back, and waiting ends when the time is over or the event is set, which stays set.
\<close>

definition monitor_world_ok :: "'t monitor_world \<Rightarrow> bool" where
  "monitor_world_ok mw \<longleftrightarrow>
     (\<forall>c t. mw_clock mw t \<le> mw_clock mw (snd (mw_run mw c t)) \<and> (mw_stop mw t \<longrightarrow> mw_stop mw (snd (mw_run mw c t)))) \<and>
     (\<forall>d t. mw_clock mw t \<le> mw_clock mw (mw_wait mw d t) \<and>
        (mw_stop mw (mw_wait mw d t) \<or> mw_clock mw t + d \<le> mw_clock mw (mw_wait mw d t)))"

record background_monitor =
  bm_metrics :: "string list"
  bm_interval :: rat
  bm_duration :: rat

definition new_monitor :: "string list \<Rightarrow> rat \<Rightarrow> rat \<Rightarrow> background_monitor" where
  "new_monitor ms interval_secs duration_secs =
     \<lparr>bm_metrics = (if ms = [] then all_metrics else ms), bm_interval = max interval_secs 1, bm_duration = duration_secs\<rparr>"

fun sample_rows ::
  "'t monitor_world \<Rightarrow> loads \<Rightarrow> (pyval \<Rightarrow> string) \<Rightarrow> string list \<Rightarrow> string \<Rightarrow> int list \<Rightarrow> 't \<Rightarrow> string list \<times> 't" where
  "sample_rows mw loads str_of ms ts [] t = ([], t)"
| "sample_rows mw loads str_of ms ts (i # is) t =
     (case mw_run mw (metric_cmd i) t of
        (r, t) \<Rightarrow>
          (case sample_rows mw loads str_of ms ts is t of
             (rows, t) \<Rightarrow> (format_row ms ts (snapshot_result loads str_of ms i r) # rows, t)))"

definition cap_line :: string where
  "cap_line = ''# Monitor stopped (duration cap reached)''"

definition end_line :: string where
  "end_line = ''# Monitor stopped (test completed)''"

text \<open>One turn of the loop; its state is the log written so far and the world.\<close>

definition monitor_turn ::
  "'t monitor_world \<Rightarrow> loads \<Rightarrow> (pyval \<Rightarrow> string) \<Rightarrow> background_monitor \<Rightarrow> rat option \<Rightarrow> int list \<Rightarrow> string list \<times> 't
     \<Rightarrow> unit option \<times> string list \<times> 't" where
  "monitor_turn mw loads str_of bm deadline is st =
     (case st of (out, t) \<Rightarrow>
        if mw_stop mw t then (Some (), out, t)
        else if (case deadline of None \<Rightarrow> False | Some d \<Rightarrow> d \<le> mw_clock mw t) then (Some (), out @ [cap_line], t)
        else case sample_rows mw loads str_of (bm_metrics bm) (mw_stamp mw t) is t of
               (rows, t) \<Rightarrow> (None, out @ rows, mw_wait mw (bm_interval bm) t))"

definition monitor_run ::
  "'t monitor_world \<Rightarrow> loads \<Rightarrow> (pyval \<Rightarrow> string) \<Rightarrow> background_monitor \<Rightarrow> string list \<Rightarrow> int list \<Rightarrow> 't
     \<Rightarrow> (string list \<times> 't) option" where
  "monitor_run mw loads str_of bm head is t =
     (let deadline = (if bm_duration bm > 0 then Some (mw_clock mw t + bm_duration bm) else None)
      in map_option (\<lambda>(_, out, t). (out @ [end_line], t))
           (poll (monitor_turn mw loads str_of bm deadline is) (\<lambda>_. False) (\<lambda>_ st. st) 0 (head, t)))"

subsection \<open>Health checks\<close>

record health_result =
  hr_passed :: bool
  hr_message :: string
  hr_temp_c :: "int option"
  hr_ecc_errors :: "int option"
  hr_vram_free_mb :: "int option"

record health_checker =
  hc_max_temp :: int
  hc_max_ecc :: int
  hc_min_vram_free :: int
  hc_rock_dir :: "string option"

definition resolve_amd_smi :: "bool \<Rightarrow> (string \<Rightarrow> bool) \<Rightarrow> health_checker \<Rightarrow> string" where
  "resolve_amd_smi on_path isfile hc =
     (if on_path then ''amd-smi''
      else case nonempty (hc_rock_dir hc) of
             None \<Rightarrow> ''amd-smi''
           | Some rock \<Rightarrow> let bin = path_join rock ''bin/amd-smi'' in if isfile bin then bin else ''amd-smi'')"

text \<open>The environment overrides of the executor that runs the tool: \<open>rock_dir/bin\<close> comes first in the path.\<close>

definition rock_path_env :: "env \<Rightarrow> string option \<Rightarrow> env" where
  "rock_path_env environ rock_dir =
     (case nonempty rock_dir of
        None \<Rightarrow> []
      | Some rock \<Rightarrow>
          [(''PATH'', path_join rock ''bin'' @ '':'' @ (case map_of environ ''PATH'' of None \<Rightarrow> [] | Some p \<Rightarrow> p))])"

text \<open>\<open>deg\<close> is the degree sign.\<close>

definition health_failures :: "string \<Rightarrow> health_checker \<Rightarrow> int option \<Rightarrow> int option \<Rightarrow> int option \<Rightarrow> string list" where
  "health_failures deg hc temp ecc free =
     (case temp of
        Some v \<Rightarrow>
          if v > hc_max_temp hc
          then [''temp '' @ show_int v @ deg @ ''C > threshold '' @ show_int (hc_max_temp hc) @ deg @ ''C''] else []
      | None \<Rightarrow> []) @
     (case ecc of
        Some v \<Rightarrow>
          if v > hc_max_ecc hc then [''ECC errors '' @ show_int v @ '' > threshold '' @ show_int (hc_max_ecc hc)] else []
      | None \<Rightarrow> []) @
     (case free of
        Some v \<Rightarrow>
          if v < hc_min_vram_free hc
          then [''free VRAM '' @ show_int v @ '' MB < threshold '' @ show_int (hc_min_vram_free hc) @ '' MB''] else []
      | None \<Rightarrow> [])"

definition judge :: "string \<Rightarrow> health_checker \<Rightarrow> int option \<Rightarrow> int option \<Rightarrow> int option \<Rightarrow> health_result" where
  "judge deg hc temp ecc free =
     (let failures = health_failures deg hc temp ecc free
      in \<lparr>hr_passed = (failures = []),
          hr_message = (if failures = [] then ''all checks passed'' else join_with ''; '' failures),
          hr_temp_c = temp, hr_ecc_errors = ecc, hr_vram_free_mb = free\<rparr>)"

definition check_via_amd_smi :: "'t runner \<Rightarrow> loads \<Rightarrow> string \<Rightarrow> health_checker \<Rightarrow> int \<Rightarrow> (health_result, 't) act" where
  "check_via_amd_smi run loads deg hc i =
     act_bind (query_gpu_temp run loads i)
       (\<lambda>temp. act_bind (query_ecc_errors run loads i)
          (\<lambda>ecc. act_bind (query_vram_usage run loads i)
             (\<lambda>vram. act_return (judge deg hc temp ecc (map_option gv_free_mb vram)))))"

definition skipped_check :: health_result where
  "skipped_check = \<lparr>hr_passed = True, hr_message = ''health check skipped (no amd-smi)'', hr_temp_c = None, hr_ecc_errors = None, hr_vram_free_mb = None\<rparr>"

definition health_check :: "'t runner \<Rightarrow> loads \<Rightarrow> string \<Rightarrow> health_checker \<Rightarrow> int \<Rightarrow> (health_result, 't) act" where
  "health_check run loads deg hc i t =
     map_option
       (\<lambda>(r, t). (case r of Inl e \<Rightarrow> if is_exception e then Inr skipped_check else Inl e | Inr h \<Rightarrow> Inr h, t))
       (check_via_amd_smi run loads deg hc i t)"

text \<open>
  \<open>f"{v:<10}"\<close>: a string or a number is padded, anything else has no such format. \<open>str_of\<close> stands for \<open>str\<close>.
\<close>

definition format_left10 :: "(pyval \<Rightarrow> string) \<Rightarrow> pyval \<Rightarrow> py_error + string" where
  "format_left10 str_of v =
     (case v of
        PStr s \<Rightarrow> Inr (pad_right 10 s)
      | PBool b \<Rightarrow> Inr (pad_right 10 (if b then ''1'' else ''0''))
      | PInt i \<Rightarrow> Inr (pad_right 10 (show_int i))
      | PFloat _ \<Rightarrow> Inr (pad_right 10 (str_of v))
      | _ \<Rightarrow> Inl TypeError)"

definition health_summary_line :: "(pyval \<Rightarrow> string) \<Rightarrow> gpu_info \<Rightarrow> health_result \<Rightarrow> string \<Rightarrow> py_error + string" where
  "health_summary_line str_of g h phase =
     map_sum id (\<lambda>arch.
      let header = pad_right 13 (''['' @ phase @ ''-health]'') @ '' GPU '' @ show_int (gi_index g) @ ''  '' @
                   arch @ ''  '' @ (if hr_passed h then ''PASS'' else ''FAIL'');
          metrics = (case hr_temp_c h of None \<Rightarrow> [] | Some v \<Rightarrow> [''temp='' @ show_int v @ ''C'']) @
                    (case hr_ecc_errors h of None \<Rightarrow> [] | Some v \<Rightarrow> [''ECC='' @ show_int v]) @
                    (case hr_vram_free_mb h of None \<Rightarrow> [] | Some v \<Rightarrow> [''free='' @ show_int v @ ''MB''])
      in if metrics \<noteq> [] then header @ ''  ('' @ join_with '',  '' metrics @ '')''
         else if \<not> hr_passed h then header @ ''  '' @ hr_message h
         else header) (format_left10 str_of (gi_arch g))"

text \<open>\<open>detail_block\<close>; \<open>rule\<close> is the separator line of box characters.\<close>

definition detail_row :: "string \<Rightarrow> string \<Rightarrow> string \<Rightarrow> bool \<Rightarrow> string" where
  "detail_row label v limit ok =
     ''  '' @ pad_right 14 label @ '': '' @ pad_right 12 v @ ''  '' @ pad_right 28 limit @ ''  '' @ (if ok then ''OK'' else ''FAIL'')"

definition plain_row :: "string \<Rightarrow> string \<Rightarrow> string" where
  "plain_row label v = ''  '' @ pad_right 14 label @ '': '' @ v"

definition detail_lines ::
  "(pyval \<Rightarrow> string) \<Rightarrow> health_checker \<Rightarrow> string \<Rightarrow> gpu_info \<Rightarrow> health_result \<Rightarrow> string \<Rightarrow> string list" where
  "detail_lines str_of hc rule g h phase =
     [''GPU '' @ show_int (gi_index g) @ ''  '' @ phase @ ''-test health check'',
      plain_row ''arch'' (str_of (gi_arch g)),
      plain_row ''total VRAM'' (show_int (gi_vram_mb g) @ '' MB''),
      plain_row ''NUMA node'' (show_int (gi_numa_node g)),
      (case hr_temp_c h of
         Some v \<Rightarrow> detail_row ''temperature'' (show_int v @ '' C'') (''limit <= '' @ show_int (hc_max_temp hc) @ '' C'') (v \<le> hc_max_temp hc)
       | None \<Rightarrow> plain_row ''temperature'' ''n/a''),
      (case hr_ecc_errors h of
         Some v \<Rightarrow> detail_row ''ECC errors'' (show_int v) (''limit <= '' @ show_int (hc_max_ecc hc)) (v \<le> hc_max_ecc hc)
       | None \<Rightarrow> plain_row ''ECC errors'' ''n/a''),
      (case hr_vram_free_mb h of
         Some v \<Rightarrow> detail_row ''free VRAM'' (show_int v @ '' MB'') (''limit >= '' @ show_int (hc_min_vram_free hc) @ '' MB'') (v \<ge> hc_min_vram_free hc)
       | None \<Rightarrow> plain_row ''free VRAM'' ''n/a''),
      ''  '' @ rule,
      plain_row ''result'' (if hr_passed h then ''PASS'' else ''FAIL'')]
     @ (if hr_passed h then [] else [plain_row ''detail'' (hr_message h)])"

subsection \<open>Properties\<close>

lemma map_sum_cases: "(case map_sum id f r of Inl e \<Rightarrow> g e | Inr x \<Rightarrow> h x) = (case r of Inl e \<Rightarrow> g e | Inr x \<Rightarrow> h (f x))"
  by (cases r) simp_all

lemma parse_util_range: "parse_util entry = Inr (Some v) \<Longrightarrow> 0 \<le> v \<and> v \<le> 100"
  by (auto simp: parse_util_def eq_commute [of "Some v"] split: sum.splits)

text \<open>What every prefix of the assignments of a snapshot keeps.\<close>

definition metrics_ok :: "string list \<Rightarrow> int \<Rightarrow> gpu_metrics \<Rightarrow> bool" where
  "metrics_ok ms i m \<longleftrightarrow>
     gm_index m = i \<and>
     (''temp'' \<notin> set ms \<longrightarrow> gm_temp_c m = None) \<and>
     (''vram'' \<notin> set ms \<longrightarrow> gm_vram_used_mb m = None \<and> gm_vram_free_mb m = None \<and> gm_vram_total_mb m = None) \<and>
     (''util'' \<notin> set ms \<longrightarrow> gm_compute_pct m = None) \<and>
     (''ecc'' \<notin> set ms \<longrightarrow> gm_ecc_errors m = None) \<and>
     (''clock'' \<notin> set ms \<longrightarrow> gm_clock_state m = None) \<and>
     (case gm_compute_pct m of None \<Rightarrow> True | Some p \<Rightarrow> 0 \<le> p \<and> p \<le> 100)"

lemma new_metrics_ok: "metrics_ok ms i (new_metrics i)"
  by (simp add: metrics_ok_def new_metrics_def)

lemma run_steps_keeps:
  assumes "\<And>f m m'. f \<in> set fs \<Longrightarrow> P m \<Longrightarrow> f m = Inr m' \<Longrightarrow> P m'"
  shows "P m \<Longrightarrow> P (run_steps fs m)"
  using assms by (induction fs arbitrary: m) (auto split: sum.split)

lemma metric_steps_ok: "f \<in> set (metric_steps str_of ms i entry) \<Longrightarrow> metrics_ok ms i m \<Longrightarrow> f m = Inr m' \<Longrightarrow> metrics_ok ms i m'"
  unfolding metric_steps_def list.set insert_iff empty_iff simp_thms
  by (elim disjE; simp split: if_splits) (auto simp: metrics_ok_def parse_util_range split: option.splits)

lemma snapshot_result_ok: "metrics_ok ms i (snapshot_result loads str_of ms i r)"
  by (auto simp: snapshot_result_def new_metrics_ok intro: run_steps_keeps [where P = "metrics_ok ms i"] metric_steps_ok split: sum.split option.split)

text \<open>
  Taking a snapshot runs one command and never raises, whatever the tool prints: a value that cannot be read
  leaves its metric and the later ones unset. The snapshot is of the GPU asked for, metrics that were not asked for are unset
  and utilisation lies between 0 and 100.
\<close>

theorem snapshot_never_raises:
  assumes "run (metric_cmd i) t = Some (r, t')" and "case r of Inl e \<Rightarrow> is_exception e | Inr _ \<Rightarrow> True"
  shows "\<exists>m. snapshot run loads str_of ms i t = Some (Inr m, t') \<and> metrics_ok ms i m"
  using assms snapshot_result_ok by (cases r) (auto simp: snapshot_def)

definition na_entry :: pyval where
  "na_entry = PDict [(''temperature'', PDict [(''hotspot_temperature'', PDict [(''value'', PInt 47)])]),
     (''activity'', PDict [(''gfx_activity'', PInt 250)]),
     (''ecc'', PDict [(''total_correctable_count'', PStr ''N/A'')]),
     (''clock'', PDict [(''performance_level'', PStr ''auto'')])]"

definition na_loads :: loads where
  "na_loads s = Some (PDict [(''gpu_data'', PList [na_entry])])"

definition quiet_run :: "nat runner" where
  "quiet_run cmd n = Some (Inr \<lparr>er_exit_code = 0, er_stdout = [], er_stderr = [], er_duration = 0\<rparr>, Suc n)"

theorem snapshot_never_raises_witness:
  "\<exists>m. snapshot quiet_run na_loads (\<lambda>_. ''auto'') all_metrics 3 0 = Some (Inr m, 1) \<and>
     gm_index m = 3 \<and> gm_temp_c m = Some 47 \<and> gm_compute_pct m = Some 100 \<and> gm_ecc_errors m = None \<and> gm_clock_state m = None"
proof -
  let ?r = "Inr \<lparr>er_exit_code = 0, er_stdout = [], er_stderr = [], er_duration = 0\<rparr> :: py_error + execution_result"
  obtain m where m: "snapshot quiet_run na_loads (\<lambda>_. ''auto'') all_metrics 3 0 = Some (Inr m, 1)" "metrics_ok all_metrics 3 m"
    using snapshot_never_raises [of quiet_run 3 0 ?r 1 na_loads "\<lambda>_. ''auto''" all_metrics] by (auto simp: quiet_run_def)
  then have "m = snapshot_result na_loads (\<lambda>_. ''auto'') all_metrics 3 ?r" by (simp add: snapshot_def quiet_run_def)
  moreover have "snapshot_result na_loads (\<lambda>_. ''auto'') all_metrics 3 ?r
      = (new_metrics 3)\<lparr>gm_temp_c := Some 47, gm_compute_pct := Some 100\<rparr>" by code_simp
  ultimately show ?thesis using m(1) by (simp add: new_metrics_def)
qed

text \<open>
  A metric that the tool reports as text, such as \<open>N/A\<close>, is not read as unavailable: the query for it
  raises a \<open>ValueError\<close> although it documents \<open>None\<close> for an unavailable metric. The health check turns the exception into a pass with no readings, so no threshold is
  looked at, not even for the metrics that can be read.
\<close>

theorem text_metric_raises:
  assumes "\<And>c t. run c t = Some (Inr r, t)" and "metric_entry loads r = Some entry"
    and "get_in entry ''ecc'' ''total_correctable_count'' PNone = Inr (PStr s)" and "int_of_str s = None"
  shows "query_ecc_errors run loads i t = Some (Inl ValueError, t) \<and>
    (thermal_of_entry entry = Inr th \<longrightarrow> health_check run loads deg hc i t = Some (Inr skipped_check, t))"
proof -
  have ecc: "query_ecc_errors run loads i t = Some (Inl ValueError, t)" for t
    using assms by (simp add: query_ecc_errors_def query_metric_def run_metric_json_def act_bind_def act_return_def
        act_lift_def parse_ecc_def act_raise_def)
  have "health_check run loads deg hc i t = Some (Inr skipped_check, t)" if "thermal_of_entry entry = Inr th"
    using that assms(1,2) ecc
    by (simp add: health_check_def check_via_amd_smi_def query_gpu_temp_def query_thermal_def run_metric_json_def
        act_bind_def act_return_def is_exception_def)
  with ecc show ?thesis by blast
qed

theorem text_metric_raises_witness:
  "query_ecc_errors (\<lambda>_ t. Some (Inr \<lparr>er_exit_code = 0, er_stdout = [], er_stderr = [], er_duration = 0\<rparr>, t)) na_loads 0 (7 :: nat)
     = Some (Inl ValueError, 7) \<and>
   health_check (\<lambda>_ t. Some (Inr \<lparr>er_exit_code = 0, er_stdout = [], er_stderr = [], er_duration = 0\<rparr>, t)) na_loads []
     \<lparr>hc_max_temp = 40, hc_max_ecc = 0, hc_min_vram_free = 512, hc_rock_dir = None\<rparr> 0 (7 :: nat) = Some (Inr skipped_check, 7)"
proof -
  let ?r = "\<lparr>er_exit_code = 0, er_stdout = [], er_stderr = [], er_duration = 0\<rparr>"
  have e: "metric_entry na_loads ?r = Some na_entry"
    by (simp add: metric_entry_def er_ok_def na_loads_def unwrap_entries_def)
  have g: "get_in na_entry ''ecc'' ''total_correctable_count'' PNone = Inr (PStr ''N/A'')" by (simp add: get_in_def na_entry_def)
  have n: "int_of_str ''N/A'' = None" by code_simp
  have "thermal_of_entry na_entry = Inr \<lparr>gt_temp_edge = None, gt_temp_hotspot = Some 47, gt_fan_rpm = -1\<rparr>" by code_simp
  with text_metric_raises [of "\<lambda>_ t. Some (Inr ?r, t)" ?r na_loads na_entry "''N/A''" 0 7
      "\<lparr>gt_temp_edge = None, gt_temp_hotspot = Some 47, gt_fan_rpm = -1\<rparr>" "[]"
      "\<lparr>hc_max_temp = 40, hc_max_ecc = 0, hc_min_vram_free = 512, hc_rock_dir = None\<rparr>"] e g n
  show ?thesis by simp
qed

subsection \<open>The poller ends\<close>

lemma sample_rows_clock:
  "monitor_world_ok mw \<Longrightarrow> mw_clock mw t \<le> mw_clock mw (snd (sample_rows mw loads str_of ms ts is t))"
proof (induction "is" arbitrary: t)
  case (Cons i "is")
  have "mw_clock mw t \<le> mw_clock mw (snd (mw_run mw (metric_cmd i) t))" using Cons.prems by (simp add: monitor_world_ok_def)
  also have "\<dots> \<le> mw_clock mw (snd (sample_rows mw loads str_of ms ts is (snd (mw_run mw (metric_cmd i) t))))"
    using Cons by blast
  finally show ?case by (simp add: case_prod_beta)
qed simp

lemma sample_rows_length: "length (fst (sample_rows mw loads str_of ms ts is t)) = length is"
  by (induction "is" arbitrary: t) (simp_all add: case_prod_beta)

text \<open>The time a poller sees: a set event counts as one more interval.\<close>

definition seen_clock :: "'t monitor_world \<Rightarrow> rat \<Rightarrow> string list \<times> 't \<Rightarrow> rat" where
  "seen_clock mw interval st = mw_clock mw (snd st) + (if mw_stop mw (snd st) then interval else 0)"

lemma new_monitor_interval: "1 \<le> bm_interval (new_monitor ms interval duration)"
  by (simp add: new_monitor_def)

text \<open>In a world whose waits take their time, the capped loop keeps the contract of a loop that watches the clock.\<close>

locale monitored_world =
  fixes mw :: "'t monitor_world"
  assumes world_ok: "monitor_world_ok mw"

sublocale monitored_world \<subseteq> capped: ticking "monitor_turn mw loads str_of (new_monitor ms interval duration) (Some deadline) is"
  "seen_clock mw (bm_interval (new_monitor ms interval duration))" deadline 1
  for loads str_of ms interval duration deadline "is"
proof
  let ?bm = "new_monitor ms interval duration"
  note assms = world_ok new_monitor_interval [of ms interval duration]
  fix st :: "string list \<times> 't"
  obtain out t where st: "st = (out, t)" by (cases st)
  show "fst (monitor_turn mw loads str_of ?bm (Some deadline) is st) \<noteq> None" if "deadline \<le> seen_clock mw (bm_interval ?bm) st"
    using that by (auto simp: st monitor_turn_def seen_clock_def)
  fix st' assume turn: "monitor_turn mw loads str_of ?bm (Some deadline) is st = (None, st')"
  obtain rows t1 where r: "sample_rows mw loads str_of (bm_metrics ?bm) (mw_stamp mw t) is t = (rows, t1)" by (metis prod.exhaust)
  have "mw_clock mw t \<le> mw_clock mw t1" using sample_rows_clock [OF assms(1), of t] r by (metis snd_conv)
  moreover have "mw_clock mw t1 \<le> mw_clock mw (mw_wait mw (bm_interval ?bm) t1)"
    "mw_stop mw (mw_wait mw (bm_interval ?bm) t1) \<or> mw_clock mw t1 + bm_interval ?bm \<le> mw_clock mw (mw_wait mw (bm_interval ?bm) t1)"
    using assms(1) by (auto simp: monitor_world_ok_def)
  ultimately show "seen_clock mw (bm_interval ?bm) st + 1 \<le> seen_clock mw (bm_interval ?bm) st'"
    using turn r assms(2) by (auto simp: st monitor_turn_def seen_clock_def split: if_splits)
qed simp

context monitored_world
begin

lemma capped_decides:
  "\<exists>r t. poll (monitor_turn mw loads str_of (new_monitor ms interval duration) (Some deadline) is) (\<lambda>_. False) (\<lambda>_ st. st) n st
     = Some (Some r, t)"
  by (rule capped.decides)

end

text \<open>The log after any number of turns: the header and whole samples.\<close>

lemma monitor_log:
  assumes "poll (monitor_turn mw loads str_of bm deadline is) (\<lambda>_. False) (\<lambda>_ st. st) 0 (head, t) = Some (r, out, t')"
  shows "\<exists>rows. length is dvd length rows \<and> (out = head @ rows \<or> out = head @ rows @ [cap_line])"
proof -
  let ?I = "\<lambda>st :: string list \<times> 'a. \<exists>rows. length is dvd length rows \<and> fst st = head @ rows"
  have "\<exists>u. ?I u \<and> monitor_turn mw loads str_of bm deadline is u = (r, out, t') \<and> (r = None \<longrightarrow> False)"
  proof (rule poll_result [where I = ?I, OF assms])
    fix n :: nat and u u' :: "string list \<times> 'a"
    assume I: "?I u" and turn: "monitor_turn mw loads str_of bm deadline is u = (None, u')"
    obtain o1 t1 where u: "u = (o1, t1)" by (cases u)
    from I u obtain rows where rows: "length is dvd length rows" "o1 = head @ rows" by auto
    have "length (fst (sample_rows mw loads str_of (bm_metrics bm) (mw_stamp mw t1) is t1)) = length is" by (rule sample_rows_length)
    with turn u rows show "?I u'"
      by (auto simp: monitor_turn_def intro!: exI [of _ "rows @ fst (sample_rows mw loads str_of (bm_metrics bm) (mw_stamp mw t1) is t1)"]
          split: if_splits prod.splits)
  qed (auto intro: exI [of _ "[]"])
  then show ?thesis by (auto simp: monitor_turn_def split: if_splits prod.splits)
qed

text \<open>
  With a cap on its duration the background poller always ends, however long the tool takes and whether or
  not the test ever stops it. Its log is the header, whole samples (one row per GPU), possibly the line of the cap, and
  always the line that the test completed, even when it was the cap that ended the poller.
\<close>

theorem capped_monitor_ends:
  assumes "monitor_world_ok mw" and "0 < duration"
  shows "\<exists>rows t'. length is dvd length rows \<and>
    (monitor_run mw loads str_of (new_monitor ms interval duration) head is t = Some (head @ rows @ [end_line], t') \<or>
     monitor_run mw loads str_of (new_monitor ms interval duration) head is t = Some (head @ rows @ [cap_line, end_line], t'))"
proof -
  let ?bm = "new_monitor ms interval duration"
  let ?turn = "monitor_turn mw loads str_of ?bm (Some (mw_clock mw t + duration)) is"
  obtain r out t' where p: "poll ?turn (\<lambda>_. False) (\<lambda>_ st. st) 0 (head, t) = Some (r, out, t')"
    using monitored_world.capped_decides [OF monitored_world.intro [OF assms(1)], of loads str_of ms interval duration _ "is" 0 "(head, t)"]
    by fastforce
  then have "monitor_run mw loads str_of ?bm head is t = Some (out @ [end_line], t')"
    using assms(2) by (simp add: monitor_run_def new_monitor_def)
  with monitor_log [OF p] show ?thesis by auto
qed

text \<open>A clock that waiting moves; nobody sets the event.\<close>

definition demo_monitor_world :: "rat monitor_world" where
  "demo_monitor_world = \<lparr>mw_stop = (\<lambda>_. False), mw_clock = id, mw_stamp = (\<lambda>_. ''now''),
     mw_run = (\<lambda>_ t. (Inl OSError, t)), mw_wait = (\<lambda>d t. t + max d 0)\<rparr>"

interpretation demo_monitored: monitored_world demo_monitor_world
  by unfold_locales (simp add: monitor_world_ok_def demo_monitor_world_def)

theorem capped_monitor_ends_witness:
  "\<exists>rows t'. length [0 :: int, 1] dvd length rows \<and>
    (monitor_run demo_monitor_world na_loads (\<lambda>_. []) (new_monitor [] 15 60) [''# GPU''] [0, 1] 0 = Some ([''# GPU''] @ rows @ [end_line], t') \<or>
     monitor_run demo_monitor_world na_loads (\<lambda>_. []) (new_monitor [] 15 60) [''# GPU''] [0, 1] 0 = Some ([''# GPU''] @ rows @ [cap_line, end_line], t'))"
  using capped_monitor_ends [of demo_monitor_world 60 "[0, 1]" na_loads "\<lambda>_. []" "[]" 15 "[''# GPU'']" 0] demo_monitored.world_ok by simp

end
