(* ===== verification/Fixtures.thy ===== *)
theory Fixtures
  imports ExecGroup Monitor Drain GpuCount PoolTheorems
begin

text \<open>
  The GPU fixtures of \<open>framework/plugins/remote_node_plugin.py\<close>: acquire slots from the pool, set up monitors,
  executors and containers, hand the executors to the test, tear everything down and release the slots. The state of a
  fixture is the pool with the world it shares, the SSH sessions, and everything else (\<open>'m\<close>: processes, containers,
  threads). What a fixture calls outside the modelled code is the record \<open>fenv\<close>; the console and session-log lines
  of the fixtures are left out (their writes are best effort).

  pytest resumes a fixture after the test whatever the outcome of the test is, so the test is a function on states and
  an exception of the test is not one of the fixture.
\<close>

type_synonym ('os, 'm) fx = "'os state \<times> sessions \<times> 'm"

record ('os, 'm) fenv =
  fe_fl :: "'os filelock"
  fe_others :: "'os others"
  fe_hostname :: "string option"
  fe_environ :: env
  fe_exec :: "executor \<Rightarrow> (sessions \<times> 'm) host"
  fe_machine :: "'m machine"
  fe_loads :: loads
  fe_str :: "pyval \<Rightarrow> string"
  fe_float :: "string \<Rightarrow> rat option"
  fe_approx :: string
  fe_thread_start :: "background_monitor \<Rightarrow> executor option \<Rightarrow> int list \<Rightarrow> string \<Rightarrow> (unit, 'm) act"
  fe_thread_stop :: "background_monitor \<Rightarrow> executor option \<Rightarrow> int list \<Rightarrow> string \<Rightarrow> 'm \<Rightarrow> 'm"
  fe_close_logger :: "executor \<Rightarrow> 'm \<Rightarrow> 'm"
  fe_truncate_ok :: bool
  fe_log_ok :: bool
  fe_linux :: bool
  fe_fresh :: string

record fixture_options =
  fo_no_gpu :: bool
  fo_container_mode :: bool
  fo_container_image :: string
  fo_container_runtime :: string
  fo_acquire_timeout :: rat
  fo_monitor_gpu :: bool
  fo_health_metrics :: "string option"
  fo_numprocesses :: pyval
  fo_drain_secs :: rat
  fo_drain_timeout :: rat
  fo_rock_dir :: "string option"

record fixture_settings =
  fs_health_metrics :: "string list"
  fs_monitor_metrics :: "string list"
  fs_monitor_interval :: rat
  fs_monitor_duration :: rat
  fs_artifact_dir :: string
  fs_build_timeout :: rat

record container_kwargs =
  ck_image :: "string option"
  ck_runtime :: "string option"
  ck_ipc :: "string option"
  ck_privileged :: "bool option"
  ck_extra_run_flags :: "string option"

text \<open>\<open>request.node\<close>; the keyword arguments of its closest \<open>container\<close> marker are kept apart.\<close>

record test_request =
  rq_name :: string
  rq_item :: item
  rq_container :: "container_kwargs option"

subsection \<open>Actions\<close>

fun act_map :: "('a \<Rightarrow> ('b, 't) act) \<Rightarrow> 'a list \<Rightarrow> ('b list, 't) act" where
  "act_map f [] = act_return []"
| "act_map f (x # xs) = act_bind (f x) (\<lambda>y. act_bind (act_map f xs) (\<lambda>ys. act_return (y # ys)))"

text \<open>\<open>try: body finally: fin\<close>: an exception of the final block replaces the one of the body.\<close>

definition act_finally :: "('a, 't) act \<Rightarrow> (unit, 't) act \<Rightarrow> ('a, 't) act" where
  "act_finally body fin t =
     (case body t of
        None \<Rightarrow> None
      | Some (r, t) \<Rightarrow> map_option (\<lambda>(q, t). (case q of Inl e \<Rightarrow> Inl e | Inr _ \<Rightarrow> r, t)) (fin t))"

definition on_pool :: "('os state \<Rightarrow> ((py_error + 'a) \<times> 'os state) option) \<Rightarrow> ('a, ('os, 'm) fx) act" where
  "on_pool f s = (case s of (p, x) \<Rightarrow> map_option (\<lambda>(r, p). (r, p, x)) (f p))"

definition on_rest :: "('a, sessions \<times> 'm) act \<Rightarrow> ('a, ('os, 'm) fx) act" where
  "on_rest f s = (case s of (p, x) \<Rightarrow> map_option (\<lambda>(r, x). (r, p, x)) (f x))"

definition on_machine :: "('a, 'm) act \<Rightarrow> ('a, sessions \<times> 'm) act" where
  "on_machine f x = (case x of (ss, m) \<Rightarrow> map_option (\<lambda>(r, m). (r, ss, m)) (f m))"

subsection \<open>The context of a test\<close>

definition resolve_rock_dir :: "env \<Rightarrow> string option \<Rightarrow> string option" where
  "resolve_rock_dir environ cli =
     (case nonempty cli of
        Some r \<Rightarrow> Some r
      | None \<Rightarrow>
          (case nonempty (map_of environ ''ROCK_DIR'') of
             Some r \<Rightarrow> Some r
           | None \<Rightarrow> map_of environ ''ROCM_TEST_THEROCK_ROCK_DIR''))"

definition resolve_health_metrics :: "string option \<Rightarrow> string list \<Rightarrow> string list option" where
  "resolve_health_metrics raw toml =
     (case raw of
        None \<Rightarrow> None
      | Some r \<Rightarrow>
          Some (if r = [] then toml else filter (\<lambda>m. m \<noteq> []) (map py_strip (split_on CHR '','' r))))"

record test_ctx =
  tc_name :: string
  tc_health_metrics :: "string list option"
  tc_rock_dir :: "string option"
  tc_gpu_count :: "marker option"
  tc_vram :: rat
  tc_multi_gpu :: bool
  tc_multi_node :: bool
  tc_log_path :: string

definition resolve_test_context ::
  "('os, 'm) fenv \<Rightarrow> fixture_options \<Rightarrow> fixture_settings \<Rightarrow> test_request \<Rightarrow> py_error + test_ctx" where
  "resolve_test_context E opts fs rq =
     (if \<not> fe_truncate_ok E then Inl OSError
      else
        case (case get_closest_marker ''gpu_vram'' (rq_item rq) of
                None \<Rightarrow> Inr 0
              | Some m \<Rightarrow> (case mk_args m of [] \<Rightarrow> Inl IndexError | a # _ \<Rightarrow> py_float (fe_float E) a)) of
          Inl e \<Rightarrow> Inl e
        | Inr vram \<Rightarrow>
            Inr \<lparr>tc_name = rq_name rq,
                 tc_health_metrics = resolve_health_metrics (fo_health_metrics opts) (fs_health_metrics fs),
                 tc_rock_dir = resolve_rock_dir (fe_environ E) (fo_rock_dir opts),
                 tc_gpu_count = get_closest_marker ''gpu_count'' (rq_item rq), tc_vram = vram,
                 tc_multi_gpu = has_marker ''hw.multi_gpu'' (rq_item rq),
                 tc_multi_node = has_marker ''e2e.multinode'' (rq_item rq),
                 tc_log_path = executor_log_file (fs_artifact_dir fs) (rq_name rq) (Some (it_nodeid (rq_item rq)))\<rparr>)"

subsection \<open>Acquisition\<close>

definition acquire_single :: "('os, 'm) fenv \<Rightarrow> fixture_options \<Rightarrow> test_ctx \<Rightarrow> (node_slot, ('os, 'm) fx) act" where
  "acquire_single E opts ctx =
     on_pool (\<lambda>p. map_option
       (\<lambda>(r, p). (case r of
          Inl RuntimeError \<Rightarrow> Inl (if total_gpu_slots (fst p) = 0 then PytestFail else PytestSkip)
        | _ \<Rightarrow> r, p))
       (acquire_slot (fe_others E) (fe_fl E) (tc_vram ctx) (fo_acquire_timeout opts) (tc_name ctx) p))"

definition skip_runtime_error :: "py_error + 'a \<Rightarrow> py_error + 'a" where
  "skip_runtime_error r = (case r of Inl RuntimeError \<Rightarrow> Inl PytestSkip | _ \<Rightarrow> r)"

definition acquire_multi_gpu ::
  "('os, 'm) fenv \<Rightarrow> fixture_options \<Rightarrow> test_ctx \<Rightarrow> int \<Rightarrow> (multi_gpu_slots, ('os, 'm) fx) act" where
  "acquire_multi_gpu E opts ctx cnt =
     on_pool (\<lambda>p. map_option (map_prod skip_runtime_error id)
       (acquire_slots (fe_others E) (fe_fl E) cnt None (tc_vram ctx) (fo_acquire_timeout opts) (tc_name ctx) p))"

subsection \<open>Monitoring\<close>

text \<open>\<open>None\<close>: a remote slot without a session, whose \<open>_ssh\<close> is \<open>None\<close>.\<close>

definition monitoring_executor :: "('os, 'm) fenv \<Rightarrow> string option \<Rightarrow> node_slot \<Rightarrow> executor option" where
  "monitoring_executor E rock_dir slot =
     (if is_local (fe_hostname E) (sl_spec slot)
      then Some (CpuX (new_cpu_executor\<lparr>cx_env_overrides := rock_path_env (fe_environ E) rock_dir, cx_suppress_output_log := True\<rparr>))
      else if sl_ssh slot = None then None
      else Some (SshX (ns_label (sl_spec slot))))"

definition monitor_runner :: "('os, 'm) fenv \<Rightarrow> executor option \<Rightarrow> (sessions \<times> 'm) runner" where
  "monitor_runner E ex cmd = (case ex of None \<Rightarrow> act_raise AttributeError | Some x \<Rightarrow> fe_exec E x cmd None False)"

definition slot_index :: "node_slot \<Rightarrow> int" where
  "slot_index slot = gi_index (sl_gpu slot)"

type_synonym bg_handle = "background_monitor \<times> executor option \<times> int list \<times> string"

record monitors =
  mn_health :: "executor option list"
  mn_pre :: "(int \<times> gpu_metrics) list list"
  mn_bg :: "bg_handle list"

definition no_monitors :: monitors where
  "no_monitors = \<lparr>mn_health = [], mn_pre = [], mn_bg = []\<rparr>"

definition first_slot :: "multi_gpu_slots \<Rightarrow> py_error + node_slot" where
  "first_slot m = (case ms_slots m of [] \<Rightarrow> Inl IndexError | s # _ \<Rightarrow> Inr s)"

definition take_snapshot ::
  "('os, 'm) fenv \<Rightarrow> string list \<Rightarrow> executor option \<Rightarrow> node_slot \<Rightarrow> (int \<times> gpu_metrics, sessions \<times> 'm) act" where
  "take_snapshot E ms ex slot =
     act_bind (snapshot (monitor_runner E ex) (fe_loads E) (fe_str E) ms (slot_index slot))
       (\<lambda>m. act_return (slot_index slot, m))"

definition start_monitor ::
  "('os, 'm) fenv \<Rightarrow> fixture_settings \<Rightarrow> test_ctx \<Rightarrow> bool \<Rightarrow> executor option \<times> multi_gpu_slots \<Rightarrow> (bg_handle, sessions \<times> 'm) act" where
  "start_monitor E fs ctx is_multi_node_shape xm =
     (case xm of (ex, multi) \<Rightarrow>
        let bm = new_monitor (fs_monitor_metrics fs) (fs_monitor_interval fs) (fs_monitor_duration fs);
            log_suffix = (if is_multi_node_shape
                          then tc_name ctx @ ''_'' @ replace_char CHR ''.'' CHR ''_'' (ns_label (ms_spec multi))
                          else tc_name ctx);
            path = gpu_monitor_log_path (fs_artifact_dir fs) log_suffix;
            idxs = map slot_index (ms_slots multi)
        in act_bind (on_machine (fe_thread_start E bm ex idxs path)) (\<lambda>_. act_return (bm, ex, idxs, path)))"

definition setup_monitoring ::
  "('os, 'm) fenv \<Rightarrow> fixture_options \<Rightarrow> fixture_settings \<Rightarrow> test_ctx \<Rightarrow> multi_gpu_slots list \<Rightarrow> bool \<Rightarrow> (monitors, sessions \<times> 'm) act" where
  "setup_monitoring E opts fs ctx multis is_multi_node_shape =
     act_bind (act_lift (mapM first_slot multis))
       (\<lambda>slots. let execs = map (monitoring_executor E (tc_rock_dir ctx)) slots in
          act_bind
            (case tc_health_metrics ctx of
               None \<Rightarrow> act_return ([], map (\<lambda>_. []) multis)
             | Some ms \<Rightarrow>
                 act_bind (act_map (\<lambda>(ex, multi). act_map (take_snapshot E ms ex) (ms_slots multi)) (zip execs multis))
                   (\<lambda>pre. act_return (execs, pre)))
            (\<lambda>(health, pre).
               act_bind (if fo_monitor_gpu opts then act_map (start_monitor E fs ctx is_multi_node_shape) (zip execs multis)
                         else act_return [])
                 (\<lambda>bg. act_return \<lparr>mn_health = health, mn_pre = pre, mn_bg = bg\<rparr>)))"

definition stop_monitor :: "('os, 'm) fenv \<Rightarrow> bg_handle \<Rightarrow> (unit, sessions \<times> 'm) act" where
  "stop_monitor E h x = (case h of (bm, ex, idxs, path) \<Rightarrow> (case x of (ss, m) \<Rightarrow> Some (Inr (), ss, fe_thread_stop E bm ex idxs path m)))"

text \<open>The lines written: the reading after the test, and the difference to the one before it.\<close>

definition post_health ::
  "('os, 'm) fenv \<Rightarrow> string list \<Rightarrow> executor option \<Rightarrow> (int \<times> gpu_metrics) list \<Rightarrow> node_slot \<Rightarrow> (string list, sessions \<times> 'm) act" where
  "post_health E ms ex pre slot =
     act_bind (take_snapshot E ms ex slot)
       (\<lambda>(i, post). act_return
          (summary_line ms post ''post'' #
           (case map_of (rev pre) i of None \<Rightarrow> [] | Some m \<Rightarrow> [delta_line (fe_approx E) m post])))"

definition teardown_monitoring ::
  "('os, 'm) fenv \<Rightarrow> test_ctx \<Rightarrow> multi_gpu_slots list \<Rightarrow> monitors \<Rightarrow> (string list list list, sessions \<times> 'm) act" where
  "teardown_monitoring E ctx multis mon =
     act_bind (act_map (stop_monitor E) (mn_bg mon))
       (\<lambda>_. case tc_health_metrics ctx of
          None \<Rightarrow> act_return []
        | Some ms \<Rightarrow>
            if mn_health mon = [] then act_return []
            else act_map (\<lambda>(multi, ex, pre). act_map (post_health E ms ex pre) (ms_slots multi))
                   (zip multis (zip (mn_health mon) (mn_pre mon))))"

subsection \<open>Draining\<close>

definition xdist_active :: "pyval \<Rightarrow> bool" where
  "xdist_active v \<longleftrightarrow> v \<notin> {PNone, PInt 0, PBool False, PFloat 0, PStr ''no'', PStr []}"

fun drain_each :: "'m machine \<Rightarrow> string option \<Rightarrow> rat \<Rightarrow> int list \<Rightarrow> (unit, 'm) act" where
  "drain_each mc rock_dir timeout [] = act_return ()"
| "drain_each mc rock_dir timeout (i # is) =
     act_bind (wait_for_drain mc rock_dir i 512 1 timeout) (\<lambda>_. drain_each mc rock_dir timeout is)"

definition drain_gpu_slots :: "'m machine \<Rightarrow> fixture_options \<Rightarrow> string option \<Rightarrow> int list \<Rightarrow> (unit, 'm) act" where
  "drain_gpu_slots mc opts rock_dir is m =
     (if xdist_active (fo_numprocesses opts) then drain_each mc rock_dir (fo_drain_timeout opts) is m
      else Some (Inr (), if fo_drain_secs opts > 0 then mc_sleep mc (fo_drain_secs opts) 0 m else m))"

subsection \<open>Containers\<close>

record container_opts =
  co_image :: string
  co_runtime :: string
  co_ipc :: string
  co_privileged :: bool
  co_extra_run_flags :: string

definition or_else :: "'a option \<Rightarrow> 'a \<Rightarrow> 'a" where
  "or_else v d = (case v of None \<Rightarrow> d | Some x \<Rightarrow> x)"

definition container_marker_opts :: "fixture_options \<Rightarrow> test_request \<Rightarrow> container_opts option" where
  "container_marker_opts opts rq =
     (if rq_container rq = None \<and> \<not> fo_container_mode opts then None
      else let k = or_else (rq_container rq) \<lparr>ck_image = None, ck_runtime = None, ck_ipc = None, ck_privileged = None, ck_extra_run_flags = None\<rparr>
           in Some \<lparr>co_image = or_else (ck_image k) (fo_container_image opts),
                    co_runtime = or_else (ck_runtime k) (fo_container_runtime opts),
                    co_ipc = or_else (ck_ipc k) [], co_privileged = or_else (ck_privileged k) False,
                    co_extra_run_flags = or_else (ck_extra_run_flags k) []\<rparr>)"

definition node_container :: "bool \<Rightarrow> container_opts \<Rightarrow> int list \<Rightarrow> container_executor" where
  "node_container linux co idxs =
     \<lparr>ce_image = co_image co, ce_gpu_index = 0, ce_gpu_indices = Some idxs, ce_runtime = co_runtime co, ce_use_amd_devices = True,
      ce_ipc = co_ipc co, ce_privileged = co_privileged co, ce_extra_run_flags = co_extra_run_flags co, ce_linux = linux,
      ce_container = None\<rparr>"

definition start_wrapper ::
  "('os, 'm) fenv \<Rightarrow> rat \<Rightarrow> container_opts \<Rightarrow> executor \<times> int list \<Rightarrow> (container_executor \<times> executor, sessions \<times> 'm) act" where
  "start_wrapper E pull_timeout co xi t =
     (case xi of (node_exec, idxs) \<Rightarrow>
        map_option (\<lambda>(r, x, t). (map_sum id (\<lambda>_. (x, node_exec)) r, t))
          (container_start (fe_exec E node_exec) pull_timeout None (fe_fresh E) (node_container (fe_linux E) co idxs, t)))"

definition start_container_wrappers ::
  "('os, 'm) fenv \<Rightarrow> rat \<Rightarrow> container_opts \<Rightarrow> executor list \<Rightarrow> int list list \<Rightarrow> ((container_executor \<times> executor) list, sessions \<times> 'm) act" where
  "start_container_wrappers E pull_timeout co executors index_lists = act_map (start_wrapper E pull_timeout co) (zip executors index_lists)"

definition stop_wrapper :: "('os, 'm) fenv \<Rightarrow> container_executor \<times> executor \<Rightarrow> (unit, sessions \<times> 'm) act" where
  "stop_wrapper E w t = (case w of (x, node_exec) \<Rightarrow> map_option (\<lambda>(r, x, t). (r, t)) (container_stop (fe_exec E node_exec) (x, t)))"

subsection \<open>Holding slots around a test\<close>

text \<open>The local variables that the final block reads.\<close>

record locals =
  lc_mon :: monitors
  lc_execs :: "executor list"
  lc_wrappers :: "(container_executor \<times> executor) list"

definition no_locals :: locals where
  "no_locals = \<lparr>lc_mon = no_monitors, lc_execs = [], lc_wrappers = []\<rparr>"

type_synonym maker = "multi_gpu_slots \<Rightarrow> sessions \<Rightarrow> (py_error + executor) \<times> sessions"

definition make_one :: "maker \<Rightarrow> multi_gpu_slots \<Rightarrow> (executor, sessions \<times> 'm) act" where
  "make_one mk multi x = (case x of (ss, m) \<Rightarrow> (case mk multi ss of (r, ss) \<Rightarrow> Some (r, ss, m)))"

definition hold_setup ::
  "('os, 'm) fenv \<Rightarrow> fixture_options \<Rightarrow> fixture_settings \<Rightarrow> test_ctx \<Rightarrow> bool \<Rightarrow> container_opts option \<Rightarrow> maker \<Rightarrow> multi_gpu_slots list
     \<Rightarrow> sessions \<times> 'm \<Rightarrow> ((py_error + executor list) \<times> locals \<times> sessions \<times> 'm) option" where
  "hold_setup E opts fs ctx is_multi_node co mk multis x =
     (case setup_monitoring E opts fs ctx multis is_multi_node x of
        None \<Rightarrow> None
      | Some (Inl e, x) \<Rightarrow> Some (Inl e, no_locals, x)
      | Some (Inr mon, x) \<Rightarrow>
          (case act_map (make_one mk) multis x of
             None \<Rightarrow> None
           | Some (Inl e, x) \<Rightarrow> Some (Inl e, no_locals\<lparr>lc_mon := mon\<rparr>, x)
           | Some (Inr execs, x) \<Rightarrow>
               (case (case co of
                        Some c \<Rightarrow>
                          if is_multi_node then act_return []
                          else start_container_wrappers E (fs_build_timeout fs) c execs (map gpu_indices multis)
                      | None \<Rightarrow> act_return []) x of
                  None \<Rightarrow> None
                | Some (Inl e, x) \<Rightarrow> Some (Inl e, no_locals\<lparr>lc_mon := mon, lc_execs := execs\<rparr>, x)
                | Some (Inr ws, x) \<Rightarrow>
                    Some (new_group (if ws \<noteq> [] then map (\<lambda>(c, _). ContainerX c) ws else execs),
                          \<lparr>lc_mon = mon, lc_execs = execs, lc_wrappers = ws\<rparr>, x))))"

definition close_loggers :: "('os, 'm) fenv \<Rightarrow> executor list \<Rightarrow> (unit, sessions \<times> 'm) act" where
  "close_loggers E execs x = (case x of (ss, m) \<Rightarrow> Some (Inr (), ss, fold (fe_close_logger E) execs m))"

definition hold_teardown ::
  "('os, 'm) fenv \<Rightarrow> fixture_options \<Rightarrow> test_ctx \<Rightarrow> multi_gpu_slots list \<Rightarrow> locals \<Rightarrow> (unit, sessions \<times> 'm) act" where
  "hold_teardown E opts ctx multis l =
     act_bind (act_map (stop_wrapper E) (lc_wrappers l))
       (\<lambda>_. act_bind (teardown_monitoring E ctx multis (lc_mon l))
          (\<lambda>_. act_bind (close_loggers E (lc_execs l))
             (\<lambda>_. on_machine (drain_gpu_slots (fe_machine E) opts (tc_rock_dir ctx) (concat (map gpu_indices multis))))))"

definition release_groups :: "('os, 'm) fenv \<Rightarrow> multi_gpu_slots list \<Rightarrow> (unit, ('os, 'm) fx) act" where
  "release_groups E multis = on_pool (\<lambda>p. Some (Inr (), fold (\<lambda>m p. snd (release_multi (fe_fl E) m p)) multis p))"

text \<open>
  \<open>_acquire_and_yield\<close>, and the same code in the single-GPU path of \<open>target_executor\<close>; \<open>mk\<close> is \<open>make_executor\<close> of
  the group or of the single slot.
\<close>

definition hold_and_yield ::
  "('os, 'm) fenv \<Rightarrow> fixture_options \<Rightarrow> fixture_settings \<Rightarrow> test_ctx \<Rightarrow> bool \<Rightarrow> container_opts option \<Rightarrow> maker \<Rightarrow> multi_gpu_slots list
     \<Rightarrow> (executor list \<Rightarrow> ('os, 'm) fx \<Rightarrow> ('os, 'm) fx option) \<Rightarrow> (unit, ('os, 'm) fx) act" where
  "hold_and_yield E opts fs ctx is_multi_node co mk multis test s =
     (case s of (p, x) \<Rightarrow>
        (case hold_setup E opts fs ctx is_multi_node co mk multis x of
           None \<Rightarrow> None
         | Some (r, l, x) \<Rightarrow>
             act_finally
               (\<lambda>s. case r of Inl e \<Rightarrow> Some (Inl e, s) | Inr g \<Rightarrow> map_option (\<lambda>s. (Inr (), s)) (test g s))
               (act_finally (on_rest (hold_teardown E opts ctx multis l)) (release_groups E multis))
               (p, x)))"

definition group_maker :: "('os, 'm) fenv \<Rightarrow> maker" where
  "group_maker E multi ss = multi_make_executor (fe_hostname E) (fe_log_ok E) multi ss"

definition single_maker :: "('os, 'm) fenv \<Rightarrow> node_slot \<Rightarrow> maker" where
  "single_maker E slot multi ss = slot_make_executor (fe_hostname E) (fe_log_ok E) slot ss"

subsection \<open>The fixtures\<close>

type_synonym ('os, 'm) test = "executor list \<Rightarrow> ('os, 'm) fx \<Rightarrow> ('os, 'm) fx option"

definition run_test :: "('os, 'm) test \<Rightarrow> executor list \<Rightarrow> (unit, ('os, 'm) fx) act" where
  "run_test test g s = map_option (\<lambda>s. (Inr (), s)) (test g s)"

text \<open>The GPU indices of the marker; an element that is no integer names no GPU of any node.\<close>

fun index_of_val :: "pyval \<Rightarrow> py_error + int" where
  "index_of_val (PInt i) = Inr i"
| "index_of_val (PBool b) = Inr (if b then 1 else 0)"
| "index_of_val _ = Inl ValueError"

definition skip_value_error :: "py_error + 'a \<Rightarrow> py_error + 'a" where
  "skip_value_error r = (case r of Inl ValueError \<Rightarrow> Inl PytestSkip | Inl RuntimeError \<Rightarrow> Inl PytestSkip | _ \<Rightarrow> r)"

definition acquire_pinned ::
  "('os, 'm) fenv \<Rightarrow> fixture_options \<Rightarrow> test_ctx \<Rightarrow> pyval list \<Rightarrow> (multi_gpu_slots, ('os, 'm) fx) act" where
  "acquire_pinned E opts ctx vals =
     (case mapM index_of_val vals of
        Inl e \<Rightarrow> act_raise PytestSkip
      | Inr [i] \<Rightarrow>
          on_pool (\<lambda>p. map_option (map_prod (skip_value_error \<circ> map_sum id (\<lambda>slot. \<lparr>ms_slots = [slot], ms_spec = sl_spec slot\<rparr>)) id)
            (acquire_specific_slot (fe_others E) (fe_fl E) i (fo_acquire_timeout opts) (tc_name ctx) p))
      | Inr is \<Rightarrow>
          on_pool (\<lambda>p. map_option (map_prod skip_value_error id)
            (acquire_specific_slots (fe_others E) (fe_fl E) is (fo_acquire_timeout opts) (tc_name ctx) p)))"

definition count_val :: "gpu_count \<Rightarrow> pyval" where
  "count_val v = (case v of Count n \<Rightarrow> PInt n | All \<Rightarrow> PStr ''all'')"

definition acquire_nodes ::
  "('os, 'm) fenv \<Rightarrow> fixture_options \<Rightarrow> test_ctx \<Rightarrow> rat \<Rightarrow> (multi_gpu_slots list, ('os, 'm) fx) act" where
  "acquire_nodes E opts ctx vram =
     act_bind (act_lift (gpu_count_from_marker (tc_gpu_count ctx) 1))
       (\<lambda>per_node. on_pool (\<lambda>p. map_option (map_prod skip_runtime_error id)
          (acquire_multi_node (fe_others E) (fe_fl E) (count_val per_node) vram (fo_acquire_timeout opts) (tc_name ctx) p)))"

definition multi_gpu_path ::
  "('os, 'm) fenv \<Rightarrow> fixture_options \<Rightarrow> fixture_settings \<Rightarrow> test_ctx \<Rightarrow> container_opts option \<Rightarrow> ('os, 'm) test \<Rightarrow> (unit, ('os, 'm) fx) act" where
  "multi_gpu_path E opts fs ctx co test s =
     act_bind (act_lift (gpu_count_from_marker (tc_gpu_count ctx) 2))
       (\<lambda>v. act_bind (acquire_multi_gpu E opts ctx (resolve_gpu_count v (int (max_gpus_per_node (fst (fst s)))) 2))
          (\<lambda>multi. hold_and_yield E opts fs ctx False co (group_maker E) [multi] test)) s"

definition multi_node_path ::
  "('os, 'm) fenv \<Rightarrow> fixture_options \<Rightarrow> fixture_settings \<Rightarrow> test_ctx \<Rightarrow> rat \<Rightarrow> container_opts option \<Rightarrow> ('os, 'm) test \<Rightarrow> (unit, ('os, 'm) fx) act" where
  "multi_node_path E opts fs ctx vram co test =
     act_bind (acquire_nodes E opts ctx vram)
       (\<lambda>multis. hold_and_yield E opts fs ctx True co (group_maker E) multis test)"

definition pinned_path ::
  "('os, 'm) fenv \<Rightarrow> fixture_options \<Rightarrow> fixture_settings \<Rightarrow> test_ctx \<Rightarrow> container_opts option \<Rightarrow> pyval \<Rightarrow> ('os, 'm) test \<Rightarrow> (unit, ('os, 'm) fx) act" where
  "pinned_path E opts fs ctx co raw test =
     (if is_int_inst raw then act_raise PytestFail
      else act_bind (act_lift (py_list raw))
        (\<lambda>vals. act_bind (acquire_pinned E opts ctx vals)
           (\<lambda>multi. hold_and_yield E opts fs ctx False co (group_maker E) [multi] test)))"

definition single_path ::
  "('os, 'm) fenv \<Rightarrow> fixture_options \<Rightarrow> fixture_settings \<Rightarrow> test_ctx \<Rightarrow> container_opts option \<Rightarrow> ('os, 'm) test \<Rightarrow> (unit, ('os, 'm) fx) act" where
  "single_path E opts fs ctx co test =
     act_bind (acquire_single E opts ctx)
       (\<lambda>slot. hold_and_yield E opts fs ctx False co (single_maker E slot) [\<lparr>ms_slots = [slot], ms_spec = sl_spec slot\<rparr>] test)"

text \<open>\<open>pool\<close>: the session has a node pool.\<close>

definition target_executor ::
  "('os, 'm) fenv \<Rightarrow> fixture_options \<Rightarrow> fixture_settings \<Rightarrow> test_request \<Rightarrow> bool \<Rightarrow> ('os, 'm) test \<Rightarrow> (unit, ('os, 'm) fx) act" where
  "target_executor E opts fs rq pool test s =
     (if fo_no_gpu opts then run_test test [DryRunX] s
      else if fo_container_mode opts \<and> \<not> pool
      then run_test test [ContainerX (factory_container (fe_linux E)
             \<lparr>cli_no_gpu = False, cli_container_mode = True, cli_container_image = fo_container_image opts,
              cli_container_runtime = fo_container_runtime opts\<rparr> 0)] s
      else if \<not> pool then Some (Inl PytestFail, s)
      else
        act_bind (act_lift (resolve_test_context E opts fs rq))
          (\<lambda>ctx. let co = container_marker_opts opts rq in
             case map_option mk_args (get_closest_marker ''gpu_indices'' (rq_item rq)) of
               Some (raw # _) \<Rightarrow> pinned_path E opts fs ctx co raw test
             | _ \<Rightarrow>
                 if tc_multi_node ctx
                 then if length (np_specs (fst (fst s))) < 2 then act_raise PytestSkip
                      else multi_node_path E opts fs ctx (tc_vram ctx) co test
                 else if tc_multi_gpu ctx then multi_gpu_path E opts fs ctx co test
                 else single_path E opts fs ctx co test) s)"

definition multi_gpu_fixture ::
  "('os, 'm) fenv \<Rightarrow> fixture_options \<Rightarrow> fixture_settings \<Rightarrow> test_request \<Rightarrow> bool \<Rightarrow> ('os, 'm) test \<Rightarrow> (unit, ('os, 'm) fx) act" where
  "multi_gpu_fixture E opts fs rq pool test =
     (if fo_no_gpu opts then act_raise PytestSkip
      else if \<not> pool then act_raise PytestFail
      else act_bind (act_lift (resolve_test_context E opts fs rq))
             (\<lambda>ctx. multi_gpu_path E opts fs ctx (container_marker_opts opts rq) test))"

definition multi_node_fixture ::
  "('os, 'm) fenv \<Rightarrow> fixture_options \<Rightarrow> fixture_settings \<Rightarrow> test_request \<Rightarrow> bool \<Rightarrow> ('os, 'm) test \<Rightarrow> (unit, ('os, 'm) fx) act" where
  "multi_node_fixture E opts fs rq pool test s =
     (if fo_no_gpu opts then Some (Inl PytestSkip, s)
      else if \<not> pool then Some (Inl PytestFail, s)
      else if length (np_specs (fst (fst s))) < 2 then Some (Inl PytestSkip, s)
      else act_bind (act_lift (resolve_test_context E opts fs rq))
             (\<lambda>ctx. multi_node_path E opts fs ctx 0 (container_marker_opts opts rq) test) s)"

subsection \<open>Release\<close>

text \<open>The GPUs of the slots of one node.\<close>

definition freed :: "string \<Rightarrow> node_slot list \<Rightarrow> int set" where
  "freed l slots = slot_index ` {s \<in> set slots. ns_label (sl_spec s) = l}"

text \<open>The world and pool after the slots were given back.\<close>

definition gives_back :: "('os \<Rightarrow> string \<Rightarrow> bool) \<Rightarrow> node_slot list \<Rightarrow> 'os state \<Rightarrow> 'os state \<Rightarrow> bool" where
  "gives_back held slots s s' \<longleftrightarrow>
     w_held held (snd s') = (\<lambda>p. w_held held (snd s) p \<and> p \<notin> slot_path ` set slots) \<and>
     (\<forall>l a'. get_alloc (fst s') l = Some a' \<longrightarrow>
        (\<exists>a. get_alloc (fst s) l = Some a \<and> ga_available a' = ga_available a \<union> freed l slots))"

lemma gives_back_Nil: "gives_back held [] s s"
  by (simp add: gives_back_def freed_def)

lemma gives_back_trans: "gives_back held xs s t \<Longrightarrow> gives_back held ys t u \<Longrightarrow> gives_back held (xs @ ys) s u"
proof -
  assume 1: "gives_back held xs s t" and 2: "gives_back held ys t u"
  have f: "freed l (xs @ ys) = freed l xs \<union> freed l ys" for l by (auto simp: freed_def)
  have "\<exists>a. get_alloc (fst s) l = Some a \<and> ga_available a' = ga_available a \<union> freed l (xs @ ys)" if "get_alloc (fst u) l = Some a'" for l a'
  proof -
    from 2 that obtain b where b: "get_alloc (fst t) l = Some b" "ga_available a' = ga_available b \<union> freed l ys"
      unfolding gives_back_def by blast
    with 1 obtain a where "get_alloc (fst s) l = Some a" "ga_available b = ga_available a \<union> freed l xs" unfolding gives_back_def by blast
    with b f show ?thesis by auto
  qed
  with 1 2 show ?thesis by (auto simp: gives_back_def fun_eq_iff)
qed

lemma release_one_gives_back:
  assumes "filelock_ok fl held" and "slot_ok s" and "lock_release fl (sl_lock s) w = (lk, w1)"
  shows "gives_back held [s] (np, w) (case get_alloc np (ns_label (sl_spec s)) of
      None \<Rightarrow> np | Some a \<Rightarrow> set_alloc (ns_label (sl_spec s)) (release (sl_gpu s) a) np, w1)"
proof (cases "get_alloc np (ns_label (sl_spec s))")
  case None
  then show ?thesis using lock_release_held [OF assms(1,3)] slot_ok_locked [OF assms(2)]
    by (auto simp: gives_back_def freed_def slot_path_def fun_eq_iff)
next
  case (Some a)
  then have "\<exists>b. get_alloc np l = Some b \<and> ga_available a' = ga_available b \<union> freed l [s]"
    if "get_alloc (set_alloc (ns_label (sl_spec s)) (release (sl_gpu s) a) np) l = Some a'" for l a'
    using that by (cases "l = ns_label (sl_spec s)") (auto simp: freed_def release_def slot_index_def)
  with Some show ?thesis using lock_release_held [OF assms(1,3)] slot_ok_locked [OF assms(2)]
    by (auto simp: gives_back_def slot_path_def fun_eq_iff)
qed

lemma release_slots_gives_back:
  assumes "filelock_ok fl held"
  shows "\<forall>s \<in> set slots. slot_ok s \<Longrightarrow> gives_back held slots s (snd (release_slots fl slots s))"
proof (induction slots arbitrary: s)
  case (Cons x slots)
  obtain np w where s: "s = (np, w)" by (cases s)
  obtain lk w1 where l: "lock_release fl (sl_lock x) w = (lk, w1)" by (cases "lock_release fl (sl_lock x) w")
  let ?np = "case get_alloc np (ns_label (sl_spec x)) of
      None \<Rightarrow> np | Some a \<Rightarrow> set_alloc (ns_label (sl_spec x)) (release (sl_gpu x) a) np"
  have "gives_back held [x] s (?np, w1)" using release_one_gives_back [OF assms _ l] Cons.prems s by simp
  moreover have "gives_back held slots (?np, w1) (snd (release_slots fl slots (?np, w1)))" using Cons by simp
  ultimately have "gives_back held ([x] @ slots) s (snd (release_slots fl slots (?np, w1)))" by (rule gives_back_trans)
  moreover have "snd (release_slots fl (x # slots) s) = snd (release_slots fl slots (?np, w1))"
    by (simp add: s l Let_def case_prod_beta)
  ultimately show ?case by simp
qed (simp add: gives_back_Nil)

lemma gives_back_event: "gives_back held xs s (np, w) \<Longrightarrow> gives_back held xs s (np\<lparr>np_event := b\<rparr>, w)"
  by (simp add: gives_back_def)

lemma release_multi_gives_back:
  assumes "filelock_ok fl held" and "\<forall>s \<in> set (ms_slots m). slot_ok s"
  shows "gives_back held (ms_slots m) p (snd (release_multi fl m p))"
  using release_slots_gives_back [OF assms, of p]
  by (auto simp: release_multi_def pool_release_def intro: gives_back_event split: prod.split)

lemma release_groups_gives_back:
  assumes "filelock_ok fl held"
  shows "\<forall>m \<in> set multis. \<forall>s \<in> set (ms_slots m). slot_ok s \<Longrightarrow>
    gives_back held (concat (map ms_slots multis)) p (fold (\<lambda>m p. snd (release_multi fl m p)) multis p)"
proof (induction multis arbitrary: p)
  case (Cons m multis)
  have "gives_back held (ms_slots m) p (snd (release_multi fl m p))"
    using release_multi_gives_back [OF assms] Cons.prems by simp
  moreover have "gives_back held (concat (map ms_slots multis)) (snd (release_multi fl m p))
      (fold (\<lambda>m p. snd (release_multi fl m p)) multis (snd (release_multi fl m p)))"
    using Cons by simp
  ultimately show ?case using gives_back_trans by fastforce
qed (simp add: gives_back_Nil)

text \<open>The last step of a fixture that holds slots, whatever came before it.\<close>

lemma act_finally_last: "act_finally body fin t = Some (r, t') \<Longrightarrow> \<exists>q u. fin u = Some (q, t')"
  by (auto simp: act_finally_def split: option.splits)

lemma hold_and_yield_ends:
  assumes "hold_and_yield E opts fs ctx mn co mk multis test s = Some (r, s')"
  shows "\<exists>p. fst s' = fold (\<lambda>m p. snd (release_multi (fe_fl E) m p)) multis p"
proof -
  obtain q u where "release_groups E multis u = Some (q, s')"
    using assms by (auto simp: hold_and_yield_def split: prod.splits option.splits dest!: act_finally_last)
  then have "fst s' = fold (\<lambda>m p. snd (release_multi (fe_fl E) m p)) multis (fst u)"
    by (auto simp: release_groups_def on_pool_def case_prod_beta)
  then show ?thesis by blast
qed

text \<open>
  C6. A fixture that holds slots gives all of them back, whatever happens: when setting up the monitors, the
  executors or the containers raises, after the test, and when a step of the teardown raises. If the fixture ends, with
  whatever result, the lock file of every slot it held is free and its GPU is in the free set of its node.
\<close>

theorem held_slots_released:
  assumes "filelock_ok (fe_fl E) held" and "\<forall>m \<in> set multis. \<forall>sl \<in> set (ms_slots m). slot_ok sl"
    and "hold_and_yield E opts fs ctx mn co mk multis test s = Some (r, s')"
    and "m \<in> set multis" and "sl \<in> set (ms_slots m)"
  shows "\<not> w_held held (snd (fst s')) (slot_path sl) \<and>
    (case get_alloc (fst (fst s')) (ns_label (sl_spec sl)) of None \<Rightarrow> True | Some a \<Rightarrow> slot_index sl \<in> ga_available a)"
proof -
  from hold_and_yield_ends [OF assms(3)] obtain p where
    p: "fst s' = fold (\<lambda>m p. snd (release_multi (fe_fl E) m p)) multis p" by blast
  have "gives_back held (concat (map ms_slots multis)) p (fst s')"
    unfolding p by (rule release_groups_gives_back [OF assms(1,2)])
  moreover have sl: "sl \<in> set (concat (map ms_slots multis))" using assms(4,5) by auto
  moreover from sl have "slot_index sl \<in> freed (ns_label (sl_spec sl)) (concat (map ms_slots multis))"
    unfolding freed_def by (intro imageI) simp
  ultimately show ?thesis unfolding gives_back_def by (simp split: option.split) blast
qed

text \<open>A session in which every command fails to start.\<close>

definition demo_fenv :: "(string set, rat) fenv" where
  "demo_fenv = \<lparr>fe_fl = table_locks, fe_others = idle, fe_hostname = None, fe_environ = [],
     fe_exec = (\<lambda>_ _ _ _. act_raise OSError), fe_machine = demo_machine PNone, fe_loads = (\<lambda>_. None), fe_str = (\<lambda>_. []),
     fe_float = (\<lambda>_. None), fe_approx = [], fe_thread_start = (\<lambda>_ _ _ _. act_return ()), fe_thread_stop = (\<lambda>_ _ _ _ m. m),
     fe_close_logger = (\<lambda>_ m. m), fe_truncate_ok = True, fe_log_ok = True, fe_linux = True, fe_fresh = ''rocmtest_1_1''\<rparr>"

definition demo_options :: fixture_options where
  "demo_options = \<lparr>fo_no_gpu = False, fo_container_mode = True, fo_container_image = ''rocm/dev'', fo_container_runtime = ''docker'',
     fo_acquire_timeout = 30, fo_monitor_gpu = True, fo_health_metrics = None, fo_numprocesses = PNone, fo_drain_secs = 0,
     fo_drain_timeout = 30, fo_rock_dir = None\<rparr>"

definition demo_settings :: fixture_settings where
  "demo_settings = \<lparr>fs_health_metrics = all_metrics, fs_monitor_metrics = all_metrics, fs_monitor_interval = 15, fs_monitor_duration = 0,
     fs_artifact_dir = ''out'', fs_build_timeout = 1800\<rparr>"

definition demo_request :: test_request where
  "demo_request = \<lparr>rq_name = ''t'', rq_item = \<lparr>it_nodeid = ''t.py::t'', it_path = ''t.py'', it_own = [], it_inherited = []\<rparr>,
     rq_container = None\<rparr>"

definition demo_ctx :: test_ctx where
  "demo_ctx = \<lparr>tc_name = ''t'', tc_health_metrics = None, tc_rock_dir = None, tc_gpu_count = None, tc_vram = 0, tc_multi_gpu = False,
     tc_multi_node = False, tc_log_path = ''out/t.log''\<rparr>"

definition held_slot :: node_slot where
  "held_slot = (demo_slot ''a'' 0)\<lparr>sl_lock := (new_lock ''a'' 0)\<lparr>fk_locked := True\<rparr>\<rparr>"

abbreviation held_group :: multi_gpu_slots where
  "held_group \<equiv> \<lparr>ms_slots = [held_slot], ms_spec = demo_spec ''a''\<rparr>"

lemmas fixture_defs = hold_and_yield_def hold_setup_def setup_monitoring_def act_bind_def act_return_def act_lift_def act_raise_def
  first_slot_def make_one_def group_maker_def multi_make_executor_def bind_session_def start_monitor_def on_machine_def Let_def
  start_container_wrappers_def start_wrapper_def container_start_def act_finally_def on_rest_def hold_teardown_def
  no_locals_def no_monitors_def teardown_monitoring_def stop_monitor_def close_loggers_def drain_gpu_slots_def release_groups_def on_pool_def

theorem held_slots_released_witness:
  "\<exists>s'. hold_and_yield demo_fenv demo_options demo_settings demo_ctx False (container_marker_opts demo_options demo_request)
       (group_maker demo_fenv) [held_group] (\<lambda>_ s. Some s)
       ((demo_pool demo_nodes, demo_world {lock_path ''a'' 0}), demo_sessions, 0) = Some (Inl OSError, s') \<and>
     lock_path ''a'' 0 \<notin> w_os (snd (fst s'))"
proof -
  let ?run = "hold_and_yield demo_fenv demo_options demo_settings demo_ctx False (container_marker_opts demo_options demo_request)
       (group_maker demo_fenv) [held_group] (\<lambda>_ s. Some s) ((demo_pool demo_nodes, demo_world {lock_path ''a'' 0}), demo_sessions, 0)"
  have slot: "sl_spec held_slot = demo_spec ''a''" "sl_ssh held_slot \<noteq> None" "slot_ok held_slot" "slot_path held_slot = lock_path ''a'' 0"
    by (simp_all add: held_slot_def slot_ok_def slot_path_def)
  obtain s' where run: "?run = Some (Inl OSError, s')"
    by (simp add: fixture_defs slot(1,2) demo_fenv_def demo_options_def demo_request_def demo_ctx_def demo_sessions_def
        container_marker_opts_def or_else_def node_container_def nonempty_def xdist_active_def)
  have "\<not> w_held (\<lambda>s p. p \<in> s) (snd (fst s')) (slot_path held_slot)"
    using held_slots_released [OF _ _ run, of "\<lambda>s p. p \<in> s" held_group held_slot] slot(3) table_locks_ok
    by (simp add: demo_fenv_def)
  with run slot(4) show ?thesis by auto
qed

subsection \<open>A whole test\<close>

text \<open>
  A test that leaves the allocators of its process and the GPU lock files as it found them. It may do anything else, with
  its executors, the clock, the sidecars, the pending requests and the rest of the machine.
\<close>

definition leaves_gpu_state :: "('os \<Rightarrow> string \<Rightarrow> bool) \<Rightarrow> ('os, 'm) test \<Rightarrow> bool" where
  "leaves_gpu_state held test \<longleftrightarrow>
     (\<forall>g s s'. test g s = Some s' \<longrightarrow> fst (fst s') = fst (fst s) \<and>
        (\<forall>l i. w_held held (snd (fst s')) (lock_path l i) = w_held held (snd (fst s)) (lock_path l i)))"

lemma hold_and_yield_pool:
  assumes "leaves_gpu_state held test" and "hold_and_yield E opts fs ctx mn co mk multis test s = Some (r, s')"
  shows "\<exists>w. (\<forall>l i. w_held held w (lock_path l i) = w_held held (snd (fst s)) (lock_path l i)) \<and>
    fst s' = fold (\<lambda>m p. snd (release_multi (fe_fl E) m p)) multis (fst (fst s), w)"
proof -
  obtain p x where s: "s = (p, x)" by (cases s)
  from assms(2) s obtain r1 l x1 where set_up: "hold_setup E opts fs ctx mn co mk multis x = Some (r1, l, x1)"
    and fin: "act_finally (\<lambda>s. case r1 of Inl e \<Rightarrow> Some (Inl e, s) | Inr g \<Rightarrow> map_option (\<lambda>s. (Inr (), s)) (test g s))
       (act_finally (on_rest (hold_teardown E opts ctx multis l)) (release_groups E multis)) (p, x1) = Some (r, s')"
    by (auto simp: hold_and_yield_def split: option.splits)
  obtain r2 u where u: "(case r1 of Inl e \<Rightarrow> Some (Inl e, (p, x1)) | Inr g \<Rightarrow> map_option (\<lambda>s. (Inr (), s)) (test g (p, x1))) = Some (r2, u)"
    and rest: "\<exists>q. act_finally (on_rest (hold_teardown E opts ctx multis l)) (release_groups E multis) u = Some (q, s')"
    using fin by (auto simp: act_finally_def [of "\<lambda>s. case r1 of Inl e \<Rightarrow> Some (Inl e, s) | Inr g \<Rightarrow> map_option (\<lambda>s. (Inr (), s)) (test g s)"]
        split: option.splits)
  have same: "fst (fst u) = fst p \<and> (\<forall>l i. w_held held (snd (fst u)) (lock_path l i) = w_held held (snd p) (lock_path l i))"
  proof (cases r1)
    case (Inr g)
    with u have "test g (p, x1) = Some u" by auto
    with assms(1) show ?thesis unfolding leaves_gpu_state_def by (metis fst_conv)
  qed (use u in auto)
  have "fst s' = fold (\<lambda>m p. snd (release_multi (fe_fl E) m p)) multis (fst u)"
    using rest by (auto simp: act_finally_def on_rest_def release_groups_def on_pool_def case_prod_beta split: option.splits)
  with same s show ?thesis by (intro exI [of _ "snd (fst u)"]) (metis fst_conv prod.collapse)
qed



end
