(* ===== verification/WorkerPool.thy ===== *)
theory WorkerPool
  imports Fixtures
begin

text \<open>
  The session hooks of \<open>framework/plugins/remote_node_plugin.py\<close>: building the pool on the master, passing its
  topology to the workers of a parallel run, rebuilding the pool there, and the end of the session. \<open>dumps\<close> and
  \<open>loads\<close> stand for the \<open>json\<close> module.
\<close>

subsection \<open>The topology as JSON\<close>

definition gpu_dict :: "gpu_info \<Rightarrow> pyval" where
  "gpu_dict g = PDict [(''index'', PInt (gi_index g)), (''arch'', gi_arch g), (''vram_mb'', PInt (gi_vram_mb g)),
     (''numa_node'', PInt (gi_numa_node g))]"

definition spec_dict :: "node_spec \<Rightarrow> pyval" where
  "spec_dict spec = PDict [(''hostname'', ns_hostname spec), (''username'', ns_username spec), (''password'', ns_password spec),
     (''ssh_key'', ns_ssh_key spec), (''gpu_arch'', ns_gpu_arch spec), (''label'', PStr (ns_label spec))]"

fun gpu_topology :: "node_pool \<Rightarrow> node_spec list \<Rightarrow> (string \<times> pyval) list \<Rightarrow> (string \<times> pyval) list" where
  "gpu_topology np [] d = d"
| "gpu_topology np (spec # specs) d =
     gpu_topology np specs
       (case get_alloc np (ns_label spec) of
          None \<Rightarrow> d
        | Some a \<Rightarrow> dict_set (ns_label spec) (PList (map gpu_dict (ga_pool a))) d)"

definition topology_of :: "string option \<Rightarrow> node_pool \<Rightarrow> pyval" where
  "topology_of rock_dir np =
     PDict [(''nodes'', PList (map spec_dict (np_specs np))), (''gpu_topology'', PDict (gpu_topology np (np_specs np) [])),
            (''rock_dir'', (case rock_dir of None \<Rightarrow> PNone | Some r \<Rightarrow> PStr r)), (''headroom_gb'', PFloat (np_headroom_gb np))]"

text \<open>\<open>pytest_configure_node\<close>: what a worker finds under \<open>_node_pool_topology\<close>.\<close>

definition worker_input :: "(pyval \<Rightarrow> string) \<Rightarrow> string option \<Rightarrow> node_pool option \<Rightarrow> string" where
  "worker_input dumps rock_dir pool = (case pool of None \<Rightarrow> [] | Some np \<Rightarrow> dumps (topology_of rock_dir np))"

subsection \<open>The pool of a worker\<close>

definition item_get :: "pyval \<Rightarrow> string \<Rightarrow> py_error + pyval" where
  "item_get v k = (case v of PDict d \<Rightarrow> (case map_of d k of None \<Rightarrow> Inl KeyError | Some x \<Rightarrow> Inr x) | _ \<Rightarrow> Inl TypeError)"

text \<open>The fields have the types that the master writes.\<close>

definition as_int :: "pyval \<Rightarrow> py_error + int" where
  "as_int v = (case v of PInt i \<Rightarrow> Inr i | _ \<Rightarrow> Inl TypeError)"

definition as_str :: "pyval \<Rightarrow> py_error + string" where
  "as_str v = (case v of PStr s \<Rightarrow> Inr s | _ \<Rightarrow> Inl TypeError)"

definition then_do :: "'e + 'a \<Rightarrow> ('a \<Rightarrow> 'e + 'b) \<Rightarrow> 'e + 'b" where
  "then_do r f = (case r of Inl e \<Rightarrow> Inl e | Inr a \<Rightarrow> f a)"

lemma then_do_Inr [simp]: "then_do (Inr a) f = f a"
  by (simp add: then_do_def)

definition spec_of_dict :: "pyval \<Rightarrow> py_error + node_spec" where
  "spec_of_dict entry =
     then_do (item_get entry ''hostname'') (\<lambda>h. then_do (py_get entry ''username'' PNone) (\<lambda>u.
     then_do (py_get entry ''password'' PNone) (\<lambda>p. then_do (py_get entry ''ssh_key'' PNone) (\<lambda>k.
     then_do (py_get entry ''gpu_arch'' PNone) (\<lambda>a. then_do (then_do (item_get entry ''label'') as_str) (\<lambda>l.
       Inr \<lparr>ns_hostname = h, ns_username = u, ns_password = p, ns_ssh_key = k, ns_gpu_arch = a, ns_label = l\<rparr>))))))"

definition gpu_of_dict :: "pyval \<Rightarrow> py_error + gpu_info" where
  "gpu_of_dict g =
     then_do (then_do (item_get g ''index'') as_int) (\<lambda>i. then_do (item_get g ''arch'') (\<lambda>a.
     then_do (then_do (item_get g ''vram_mb'') as_int) (\<lambda>v. then_do (then_do (py_get g ''numa_node'' (PInt (-1))) as_int) (\<lambda>n.
       Inr \<lparr>gi_index = i, gi_arch = a, gi_vram_mb = v, gi_numa_node = n\<rparr>))))"

definition gpus_of_dict :: "pyval \<Rightarrow> py_error + (string \<times> gpu_info list) list" where
  "gpus_of_dict v =
     (case v of
        PDict d \<Rightarrow> mapM (\<lambda>(label, gs). then_do (then_do (py_list gs) (mapM gpu_of_dict)) (\<lambda>gpus. Inr (label, gpus))) d
      | _ \<Rightarrow> Inl AttributeError)"

definition headroom_of :: "pyval \<Rightarrow> py_error + rat" where
  "headroom_of v = (case v of PFloat r \<Rightarrow> Inr r | PInt i \<Rightarrow> Inr (of_int i) | _ \<Rightarrow> Inl TypeError)"

text \<open>
  \<open>_configure_worker_pool\<close>; \<open>redetect\<close> is detection on the worker, used when the topology lists no node with GPUs
  (\<open>prefilled_gpus or None\<close>).
\<close>

definition configure_worker_pool ::
  "loads \<Rightarrow> (node_pool \<Rightarrow> node_pool) \<Rightarrow> int \<Rightarrow> string option \<Rightarrow> py_error + node_pool option" where
  "configure_worker_pool loads redetect pid topology_json =
     (case nonempty topology_json of
        None \<Rightarrow> Inr None
      | Some json \<Rightarrow>
          (case loads json of
             None \<Rightarrow> Inr None
           | Some topology \<Rightarrow>
               then_do (then_do (then_do (py_get topology ''nodes'' (PList [])) py_list) (mapM spec_of_dict)) (\<lambda>specs.
                 if specs = [] then Inr None
                 else then_do (then_do (py_get topology ''gpu_topology'' (PDict [])) gpus_of_dict) (\<lambda>prefilled.
                   then_do (then_do (py_get topology ''headroom_gb'' (PFloat 0)) headroom_of) (\<lambda>headroom.
                     let np = new_pool specs headroom pid
                     in Inr (Some (if prefilled = [] then redetect np else init_from_prefilled prefilled specs np)))))))"

subsection \<open>The session\<close>

record configure_options =
  cf_no_gpu :: bool
  cf_remote_node :: "string option"
  cf_gpu_arch :: "string option"
  cf_mock_gpu :: bool
  cf_headroom_gb :: rat
  cf_rock_dir :: "string option"

definition local_spec :: "string option \<Rightarrow> node_spec" where
  "local_spec gpu_arch =
     \<lparr>ns_hostname = PStr ''localhost'', ns_username = PNone, ns_password = PNone, ns_ssh_key = PNone,
      ns_gpu_arch = (case nonempty gpu_arch of None \<Rightarrow> PNone | Some a \<Rightarrow> PStr a), ns_label = ''localhost''\<rparr>"

text \<open>
  \<open>pytest_configure\<close>. \<open>worker\<close> is the value of \<open>_node_pool_topology\<close> on a worker; \<open>order\<close> is the order in which the
  detection of the nodes completes, \<open>in_time\<close> whether it completes within its timeout; \<open>detector\<close> is
  \<open>config._gpu_detector\<close>, an override of the detection.
\<close>

definition pytest_configure ::
  "loads \<Rightarrow> (string \<Rightarrow> py_error + node_spec list) \<Rightarrow> string option \<Rightarrow> (node_spec \<Rightarrow> Detector.host) \<Rightarrow> gpu_info list option \<Rightarrow> (node_spec list \<Rightarrow> node_spec list)
     \<Rightarrow> bool \<Rightarrow> int \<Rightarrow> env \<Rightarrow> configure_options \<Rightarrow> string option option \<Rightarrow> py_error + node_pool option" where
  "pytest_configure loads load_hosts_file gethostname hosts detector order in_time pid environ opts worker =
     (let rock_dir = resolve_rock_dir environ (cf_rock_dir opts) in
      if cf_no_gpu opts then Inr None
      else case worker of
        Some topology \<Rightarrow>
          configure_worker_pool loads
            (\<lambda>np. detect_all gethostname (detected_gpus gethostname hosts None rock_dir) (order (np_specs np)) np) pid topology
      | None \<Rightarrow>
          then_do (case nonempty (cf_remote_node opts) of
                     Some path \<Rightarrow> load_hosts_file path
                   | None \<Rightarrow> Inr [local_spec (cf_gpu_arch opts)])
            (\<lambda>specs.
               let override = (if cf_mock_gpu opts \<or> nonempty (cf_remote_node opts) = None then detector else None);
                   np = detect_all gethostname (detected_gpus gethostname hosts override rock_dir) (order specs)
                          (new_pool specs (cf_headroom_gb opts) pid)
               in if \<not> in_time then Inr None
                  else if total_gpu_slots np = 0 then Inl PytestExit
                  else Inr (Some np)))"

text \<open>The line that \<open>_write_session_summary\<close> appends, and the end of the session.\<close>

definition session_summary :: "string \<Rightarrow> nat \<Rightarrow> nat \<Rightarrow> nat \<Rightarrow> nat \<Rightarrow> string" where
  "session_summary ts passed failed error skipped =
     ''SUMM  '' @ ts @ '' total='' @ show_nat (passed + failed + error + skipped) @ '' passed='' @ show_nat passed @
     '' failed='' @ show_nat failed @ '' error='' @ show_nat error @ '' skipped='' @ show_nat skipped @ [newline]"

text \<open>\<open>_cleanup_gpu_lock_files\<close>: sidecars, pending files and lock files that can be removed.\<close>

definition cleanup_gpu_lock_files :: "string list \<Rightarrow> 'os world \<Rightarrow> string list \<times> 'os world" where
  "cleanup_gpu_lock_files lock_files w =
     (filter (\<lambda>p. \<not> stale w ''.lock'' p) lock_files,
      w\<lparr>w_info := filter (\<lambda>(p, _). \<not> stale w ''.info'' p) (w_info w),
        w_pending := filter (\<lambda>(p, _). \<not> stale w ''_pending.json'' p) (w_pending w)\<rparr>)"

definition pool_sessionfinish ::
  "bool \<Rightarrow> string list \<Rightarrow> node_pool option \<times> 'os world \<Rightarrow> string list \<times> node_pool option \<times> 'os world" where
  "pool_sessionfinish is_worker lock_files s =
     (case s of (pool, w) \<Rightarrow>
        let pool = map_option close_ssh_sessions pool
        in if is_worker then (lock_files, pool, w)
           else case cleanup_gpu_lock_files lock_files w of (files, w) \<Rightarrow> (files, pool, w))"

subsection \<open>Round trip\<close>

lemma spec_round_trip: "spec_of_dict (spec_dict spec) = Inr spec"
  by (simp add: spec_of_dict_def spec_dict_def item_get_def as_str_def)

lemma gpu_round_trip: "gpu_of_dict (gpu_dict g) = Inr g"
  by (simp add: gpu_of_dict_def gpu_dict_def item_get_def as_str_def as_int_def)

lemma mapM_round_trip: "(\<And>x. g (f x) = Inr x) \<Longrightarrow> mapM g (map f xs) = Inr xs"
  by (induction xs) auto

text \<open>The entries of the topology: for every node of the list with an allocator, its GPUs.\<close>

definition pool_entries :: "node_pool \<Rightarrow> node_spec list \<Rightarrow> (string \<times> gpu_info list) list" where
  "pool_entries np specs =
     concat (map (\<lambda>spec. case get_alloc np (ns_label spec) of None \<Rightarrow> [] | Some a \<Rightarrow> [(ns_label spec, ga_pool a)]) specs)"

lemma update_new: "k \<notin> fst ` set d \<Longrightarrow> dict_set k v d = d @ [(k, v)]"
  by (induction d) auto

lemma gpu_topology_entries:
  "distinct (map ns_label specs) \<Longrightarrow> fst ` set d \<inter> ns_label ` set specs = {} \<Longrightarrow>
     gpu_topology np specs d = d @ map (\<lambda>(l, gs). (l, PList (map gpu_dict gs))) (pool_entries np specs)"
proof (induction specs arbitrary: d)
  case (Cons spec specs)
  have fresh: "ns_label spec \<notin> fst ` set d" using Cons.prems(2) by auto
  show ?case
  proof (cases "get_alloc np (ns_label spec)")
    case None
    with Cons show ?thesis by (simp add: pool_entries_def)
  next
    case (Some a)
    have "fst ` set (d @ [(ns_label spec, PList (map gpu_dict (ga_pool a)))]) \<inter> ns_label ` set specs = {}"
      using Cons.prems by auto
    with Cons.IH Cons.prems(1) Some fresh show ?thesis by (simp add: pool_entries_def update_new)
  qed
qed (simp add: pool_entries_def)

lemma entries_round_trip: "gpus_of_dict (PDict (map (\<lambda>(l, gs). (l, PList (map gpu_dict gs))) ds)) = Inr ds"
proof -
  have "mapM (\<lambda>(label, gs). then_do (then_do (py_list gs) (mapM gpu_of_dict)) (\<lambda>gpus. Inr (label, gpus)))
      (map (\<lambda>(l, gs). (l, PList (map gpu_dict gs))) ds) = (Inr ds :: py_error + _)"
    by (rule mapM_round_trip) (auto simp: mapM_round_trip gpu_round_trip)
  then show ?thesis by (simp add: gpus_of_dict_def)
qed

lemma pool_entries_lookup:
  "distinct (map ns_label specs) \<Longrightarrow> spec \<in> set specs \<Longrightarrow>
     map_of (pool_entries np specs) (ns_label spec) = map_option ga_pool (get_alloc np (ns_label spec))"
proof (induction specs)
  case (Cons s specs)
  have other: "map_of (pool_entries np specs) (ns_label s) = None"
  proof -
    have "fst ` set (pool_entries np specs) \<subseteq> ns_label ` set specs" by (auto simp: pool_entries_def split: option.splits)
    with Cons.prems(1) show ?thesis by (auto simp: map_of_eq_None_iff)
  qed
  show ?case
  proof (cases "ns_label spec = ns_label s")
    case True
    with other show ?thesis by (simp add: pool_entries_def split: option.split)
  next
    case False
    with Cons have "map_of (pool_entries np specs) (ns_label spec) = map_option ga_pool (get_alloc np (ns_label spec))" by auto
    with False show ?thesis by (auto simp: pool_entries_def split: option.splits)
  qed
qed simp

lemma prefilled_sel [simp]:
  "np_specs (init_from_prefilled pre specs np) = np_specs np" "np_ssh (init_from_prefilled pre specs np) = np_ssh np"
  "np_headroom_gb (init_from_prefilled pre specs np) = np_headroom_gb np"
  by (induction pre specs np rule: init_from_prefilled.induct) (simp_all add: Let_def set_alloc_def)

lemma prefilled_other: "l \<notin> ns_label ` set specs \<Longrightarrow> get_alloc (init_from_prefilled pre specs np) l = get_alloc np l"
  by (induction pre specs np rule: init_from_prefilled.induct) (auto simp: Let_def)

lemma prefilled_alloc:
  "l \<in> ns_label ` set specs \<Longrightarrow> get_alloc (init_from_prefilled pre specs np) l =
     Some (new_allocator (case map_of pre l of None \<Rightarrow> [] | Some gs \<Rightarrow> gs) (np_headroom_gb np))"
proof (induction specs arbitrary: np)
  case (Cons s specs)
  show ?case
  proof (cases "l \<in> ns_label ` set specs")
    case True
    with Cons.IH show ?thesis by (simp add: Let_def)
  next
    case False
    with Cons.prems have "l = ns_label s" by auto
    with False show ?thesis by (simp add: Let_def prefilled_other)
  qed
qed simp

text \<open>
  C13. A worker of a parallel run gets a fresh copy of the master's pool: the topology that the master writes and the
  worker reads back gives the same nodes in the same order, the same headroom and for every node that the master
  knows GPUs of exactly these GPUs, all of them free, whatever the master had allocated. The copy has no SSH session.
\<close>

theorem worker_pool_round_trip:
  assumes "loads (dumps (topology_of rock_dir np)) = Some (topology_of rock_dir np)" and "dumps (topology_of rock_dir np) \<noteq> []"
    and "np_specs np \<noteq> []" and "distinct (map ns_label (np_specs np))" and "spec \<in> set (np_specs np)"
    and "get_alloc np (ns_label spec) = Some a"
  shows "\<exists>wp. configure_worker_pool loads redetect pid (Some (worker_input dumps rock_dir (Some np))) = Inr (Some wp) \<and>
    np_specs wp = np_specs np \<and> np_headroom_gb wp = np_headroom_gb np \<and> np_ssh wp = [] \<and>
    get_alloc wp (ns_label spec) = Some (new_allocator (ga_pool a) (np_headroom_gb np))"
proof -
  let ?pre = "pool_entries np (np_specs np)"
  let ?wp = "init_from_prefilled ?pre (np_specs np) (new_pool (np_specs np) (np_headroom_gb np) pid)"
  have look: "map_of ?pre (ns_label spec) = Some (ga_pool a)" using pool_entries_lookup [OF assms(4,5), of np] assms(6) by simp
  then have ne: "?pre \<noteq> []" by auto
  have gpus: "gpus_of_dict (PDict (gpu_topology np (np_specs np) [])) = Inr ?pre"
    using gpu_topology_entries [OF assms(4), of "[]" np] entries_round_trip [of ?pre] by simp
  have specs: "mapM spec_of_dict (map spec_dict (np_specs np)) = Inr (np_specs np)"
    by (rule mapM_round_trip) (rule spec_round_trip)
  have json: "nonempty (Some (worker_input dumps rock_dir (Some np))) = Some (dumps (topology_of rock_dir np))"
    using assms(2) by (simp add: nonempty_def worker_input_def split: list.split)
  have "configure_worker_pool loads redetect pid (Some (worker_input dumps rock_dir (Some np))) = Inr (Some ?wp)"
    using assms(1,3) ne gpus specs json
    by (simp add: configure_worker_pool_def topology_of_def headroom_of_def)
  moreover have "get_alloc ?wp (ns_label spec) = Some (new_allocator (ga_pool a) (np_headroom_gb np))"
    using prefilled_alloc [of "ns_label spec" "np_specs np" ?pre] assms(5) look by (simp add: new_pool_def)
  ultimately show ?thesis by (simp add: new_pool_def)
qed

text \<open>One GPU of the master's pool is taken.\<close>

definition master_pool :: node_pool where
  "master_pool = set_alloc ''a'' (discard 0 (new_allocator [demo_gpu 0, demo_gpu 1] 2)) (demo_pool demo_nodes)"

lemma master_pool_sel [simp]:
  "np_specs master_pool = [demo_spec ''a'', demo_spec ''b'']" "np_headroom_gb master_pool = 2"
  "get_alloc master_pool ''a'' = Some (discard 0 (new_allocator [demo_gpu 0, demo_gpu 1] 2))"
  by (simp_all add: master_pool_def set_alloc_def demo_pool_def demo_nodes_def new_pool_def)

theorem worker_pool_round_trip_witness:
  "\<exists>wp. configure_worker_pool (\<lambda>_. Some (topology_of None master_pool)) id 7
       (Some (worker_input (\<lambda>_. ''{}'') None (Some master_pool))) = Inr (Some wp) \<and>
     np_specs wp = [demo_spec ''a'', demo_spec ''b''] \<and> np_ssh wp = [] \<and>
     get_alloc wp ''a'' = Some (new_allocator [demo_gpu 0, demo_gpu 1] 2)"
proof -
  have "ga_pool (discard 0 (new_allocator [demo_gpu 0, demo_gpu 1] 2)) = [demo_gpu 0, demo_gpu 1]"
    by (simp add: discard_def new_allocator_def)
  with worker_pool_round_trip [of "\<lambda>_. Some (topology_of None master_pool)" "\<lambda>_. ''{}''" None master_pool "demo_spec ''a''"
      "discard 0 (new_allocator [demo_gpu 0, demo_gpu 1] 2)" id 7]
  show ?thesis by auto
qed

subsection \<open>Remote nodes on a worker\<close>

text \<open>
  The nodes and the sessions of a pool; no operation of the pool after its construction changes them. A slot carries the
  session of its node, so a pool without sessions hands out slots without.
\<close>

definition same_nodes :: "node_pool \<Rightarrow> node_pool \<Rightarrow> bool" where
  "same_nodes np np' \<longleftrightarrow> np_ssh np' = np_ssh np \<and> np_specs np' = np_specs np"

definition slots_of :: "node_pool \<Rightarrow> node_slot list \<Rightarrow> bool" where
  "slots_of np slots \<longleftrightarrow> (\<forall>s \<in> set slots. sl_ssh s = map_of (np_ssh np) (ns_label (sl_spec s)) \<and> sl_spec s \<in> set (np_specs np))"

lemma same_nodes_refl [simp]: "same_nodes np np"
  by (simp add: same_nodes_def)

lemma same_nodes_set_alloc [simp]: "same_nodes np (set_alloc l a np') = same_nodes np np'"
  by (simp add: same_nodes_def)

lemma slots_of_simps [simp]:
  "slots_of np []" "slots_of np (xs @ ys) \<longleftrightarrow> slots_of np xs \<and> slots_of np ys"
  "slots_of np [make_slot np spec g lk] \<longleftrightarrow> spec \<in> set (np_specs np)"
  by (auto simp: slots_of_def make_slot_def)

lemma same_nodes_slots: "same_nodes np np' \<Longrightarrow> slots_of np' slots = slots_of np slots"
  by (simp add: same_nodes_def slots_of_def)

lemma scan_node_nodes:
  "scan_node fl np tid req spec a w sk = (Inr (Some slot), a', w', sk') \<Longrightarrow>
     sl_ssh slot = map_of (np_ssh np) (ns_label (sl_spec slot)) \<and> sl_spec slot = spec"
proof (induction fl np tid req spec a w sk arbitrary: a' w' sk' rule: scan_node.induct)
  case (1 fl np tid req spec a w sk)
  note step = scan_node.simps [of fl np tid req spec a w sk]
  obtain g a1 where alloc: "allocate_now req a = Inr (g, a1)"
    using "1.prems" by (cases "allocate_now req a") (auto simp: step)
  let ?lk = "new_lock (ns_label spec) (gi_index g)"
  obtain q w1 where l: "lock_acquire fl (np_pid np) 0 tid ?lk w = (q, w1)"
    by (cases "lock_acquire fl (np_pid np) 0 tid ?lk w")
  show ?case
  proof (cases "q = Inl RuntimeError")
    case True
    with "1.prems" alloc l have "scan_node fl np tid req spec a1 w1 (sk @ [g]) = (Inr (Some slot), a', w', sk')" by (simp add: step)
    from "1.IH" [OF alloc refl l [symmetric] True refl this] show ?thesis .
  next
    case False
    with "1.prems" alloc l obtain lk where "q = Inr lk" "slot = make_slot np spec g lk"
      by (cases q) (auto simp: step split: py_error.splits)
    then show ?thesis by (simp add: make_slot_def)
  qed
qed

lemma scan_specs_nodes:
  "scan_specs fl tid req specs (np, w) = (r, np', w') \<Longrightarrow> set specs \<subseteq> set (np_specs np) \<Longrightarrow>
     same_nodes np np' \<and> (\<forall>slot. r = Some (Inr slot) \<longrightarrow> slots_of np [slot])"
proof (induction specs arbitrary: np w)
  case (Cons spec specs)
  show ?case
  proof (cases "get_alloc np (ns_label spec)")
    case None
    with Cons.prems Cons.IH [of np w] show ?thesis by simp
  next
    case (Some a)
    obtain q a1 w1 sk where sc: "scan_node fl np tid req spec a w [] = (q, a1, w1, sk)" by (metis prod.exhaust)
    let ?np = "set_alloc (ns_label spec) (release_all sk a1) np"
    consider (Err) e where "q = Inl e" | (Found) slot where "q = Inr (Some slot)" | (No) "q = Inr None"
      by (metis not_Some_eq sum.exhaust)
    then show ?thesis
    proof cases
      case Found
      with scan_node_nodes [OF sc [unfolded Found]] Cons.prems Some sc show ?thesis by (auto simp: Let_def slots_of_def)
    next
      case No
      with Cons.prems Some sc have "scan_specs fl tid req specs (?np, w1) = (r, np', w')" by (simp add: Let_def)
      from Cons.IH [OF this] Cons.prems(2) show ?thesis
        by (simp add: same_nodes_def) (simp add: slots_of_def)
    qed (use Cons.prems Some sc in auto)
  qed
qed auto

lemma slot_round_nodes:
  assumes "acquire_slot_round fl tid req (np, w) = (r, np', w')"
  shows "same_nodes np np' \<and> (\<forall>slot. r = Some (Inr slot) \<longrightarrow> slots_of np [slot])"
proof -
  obtain y w1 where y: "yield_check fl np (np_specs np) w = (y, w1)" by (cases "yield_check fl np (np_specs np) w")
  with assms scan_specs_nodes [of fl tid req "np_specs np" np w1 r np' w'] show ?thesis
    by (cases y) (auto simp: acquire_slot_round_def)
qed

lemma take_slots_nodes:
  "take_slots fl np tid req spec n a w acq = (r, a', w', acq') \<Longrightarrow> spec \<in> set (np_specs np) \<Longrightarrow> slots_of np acq \<Longrightarrow>
     slots_of np acq'"
  by (induction n arbitrary: a w acq) (auto split: sum.splits prod.splits py_error.splits)

lemma slots_round_nodes:
  "slots_round fl tid req cnt specs (np, w) = (r, np', w') \<Longrightarrow> set specs \<subseteq> set (np_specs np) \<Longrightarrow>
     same_nodes np np' \<and> (\<forall>m. r = Some (Inr m) \<longrightarrow> slots_of np (ms_slots m) \<and> ms_spec m \<in> set (np_specs np))"
proof (induction specs arbitrary: np w)
  case (Cons spec specs)
  show ?case
  proof (cases "get_alloc np (ns_label spec)")
    case None
    with Cons.prems Cons.IH [of np w] show ?thesis by simp
  next
    case (Some a)
    obtain e a1 w1 acq where t: "take_slots fl np tid req spec (nat cnt) a w [] = (e, a1, w1, acq)" by (metis prod.exhaust)
    have acq: "slots_of np acq" using take_slots_nodes [OF t] Cons.prems(2) by simp
    have recur: ?thesis if "slots_round fl tid req cnt specs (set_alloc (ns_label spec) b np, v) = (r, np', w')" for b v
      using Cons.IH [OF that] Cons.prems(2) by (simp add: same_nodes_def) (simp add: slots_of_def)
    show ?thesis
      using Cons.prems Some t acq
      by (auto simp: Let_def split: option.splits py_error.splits prod.splits if_splits dest!: recur)
  qed
qed auto

lemma take_indices_nodes:
  "take_indices fl np tid spec is a w acq = (r, a', w', acq') \<Longrightarrow> spec \<in> set (np_specs np) \<Longrightarrow> slots_of np acq \<Longrightarrow>
     slots_of np acq'"
  by (induction "is" arbitrary: a w acq) (auto split: sum.splits prod.splits py_error.splits)

lemma index_round_nodes:
  assumes "try_acquire_index_set fl tid spec is (np, w) = (r, np', w')" and "spec \<in> set (np_specs np)"
  shows "same_nodes np np' \<and> (\<forall>m. r = Some (Inr m) \<longrightarrow> slots_of np (ms_slots m) \<and> ms_spec m \<in> set (np_specs np))"
proof (cases "get_alloc np (ns_label spec)")
  case None
  with assms show ?thesis by (simp add: try_acquire_index_set_def)
next
  case (Some a)
  obtain e a1 w1 acq where t: "take_indices fl np tid spec is a w [] = (e, a1, w1, acq)" by (metis prod.exhaust)
  have acq: "slots_of np acq" using take_indices_nodes [OF t assms(2)] by simp
  show ?thesis
    using assms Some t acq
    by (auto simp: try_acquire_index_set_def split: option.splits py_error.splits prod.splits)
qed

lemma specific_round_nodes:
  assumes "specific_round fl tid spec i ((np, w), b) = (r, (np', w'), b')" and "spec \<in> set (np_specs np)"
  shows "same_nodes np np' \<and> (\<forall>slot. r = Some (Inr slot) \<longrightarrow> slots_of np [slot])"
  using assms
  by (auto simp: specific_round_def Let_def split: option.splits sum.splits prod.splits py_error.splits)

subsection \<open>The acquisition operations keep the nodes\<close>

definition keeps_nodes :: "'os others \<Rightarrow> bool" where
  "keeps_nodes others \<longleftrightarrow> (\<forall>n s. same_nodes (fst s) (fst (others n s)))"

lemma keeps_nodes_rest:
  assumes "keeps_nodes others"
  shows "same_nodes (fst s) (fst (time_sleep d others n s))" "same_nodes (fst s) (fst (event_wait d others n s))"
proof -
  show "same_nodes (fst s) (fst (time_sleep d others n s))"
    using assms unfolding keeps_nodes_def time_sleep_fst by blast
  have "same_nodes (fst s) (fst (others n ((fst s)\<lparr>np_event := False\<rparr>, snd s)))"
    using assms [unfolded keeps_nodes_def, THEN spec, THEN spec, of "((fst s)\<lparr>np_event := False\<rparr>, snd s)" n]
    by (simp add: same_nodes_def)
  then show "same_nodes (fst s) (fst (event_wait d others n s))"
    using event_wait_fst [of d others n "fst s" "snd s"] by simp
qed

lemma same_nodes_trans: "same_nodes a b \<Longrightarrow> same_nodes b c \<Longrightarrow> same_nodes a c"
  by (simp add: same_nodes_def)

text \<open>A loop whose turns and pauses keep the nodes decides in a turn on a pool with these nodes.\<close>

lemma poll_nodes:
  assumes "poll att expired rest n s = Some (r, t)"
    and turn: "\<And>u r u'. same_nodes (pool s) (pool u) \<Longrightarrow> att u = (r, u') \<Longrightarrow> same_nodes (pool u) (pool u')"
    and pause: "\<And>n u. same_nodes (pool u) (pool (rest n u))"
  shows "\<exists>u. same_nodes (pool s) (pool u) \<and> att u = (r, t)"
proof -
  have "\<exists>u. same_nodes (pool s) (pool u) \<and> att u = (r, t) \<and> (r = None \<longrightarrow> expired t)"
  proof (rule poll_result [OF assms(1), where I = "\<lambda>u. same_nodes (pool s) (pool u)"])
    fix n u u' assume "same_nodes (pool s) (pool u)" "att u = (None, u')"
    with turn [OF this] pause [of u' n] show "same_nodes (pool s) (pool (rest n u'))" by (metis same_nodes_trans)
  qed simp
  then show ?thesis by blast
qed

lemma slot_turn_nodes:
  assumes "acquire_slot_round fl tid req u = (r, u')"
  shows "same_nodes (fst u) (fst u') \<and> (\<forall>slot. r = Some (Inr slot) \<longrightarrow> slots_of (fst u) [slot])"
  using slot_round_nodes [of fl tid req "fst u" "snd u" r "fst u'" "snd u'"] assms by simp

lemma acquire_slot_nodes:
  assumes "acquire_slot others fl req wait tid (np, w) = Some (Inr slot, s')" and keep: "keeps_nodes others"
  shows "slots_of np [slot]"
proof -
  obtain r where ret: "poll (acquire_slot_round fl tid req) (past (w_clock w + wait)) (time_sleep (1 / 2) others) 0 (np, w)
      = Some (r, s')" and "r = Some (Inr slot)"
    using assms(1) by (auto simp: acquire_slot_def decided_def split: if_splits option.splits)
  have "\<exists>u. same_nodes (fst (np, w)) (fst u) \<and> acquire_slot_round fl tid req u = (r, s')"
    by (rule poll_nodes [OF ret]) (use slot_turn_nodes keeps_nodes_rest(1) [OF keep] in blast)+
  then obtain u where u: "same_nodes np (fst u)" "acquire_slot_round fl tid req u = (r, s')" by auto
  from slot_turn_nodes [OF u(2)] \<open>r = Some (Inr slot)\<close> same_nodes_slots [OF u(1)] show ?thesis by simp
qed

lemma candidate_subset: "set (candidate_specs np label) \<subseteq> set (np_specs np)"
  by (auto simp: candidate_specs_def split: option.splits)

lemma slots_candidates_nodes:
  assumes "slots_round fl tid req cnt (candidate_specs (fst u) label) u = (r, u')"
  shows "same_nodes (fst u) (fst u') \<and>
    (\<forall>m. r = Some (Inr m) \<longrightarrow> slots_of (fst u) (ms_slots m) \<and> ms_spec m \<in> set (np_specs (fst u)))"
  using slots_round_nodes [of fl tid req cnt "candidate_specs (fst u) label" "fst u" "snd u" r "fst u'" "snd u'"]
    assms candidate_subset by simp

lemma acquire_slots_nodes:
  assumes "acquire_slots others fl cnt label req wait tid (np, w) = Some (q, np', w')" and keep: "keeps_nodes others"
  shows "same_nodes np np' \<and> (\<forall>m. q = Inr m \<longrightarrow> slots_of np (ms_slots m) \<and> ms_spec m \<in> set (np_specs np))"
proof (cases "has_vram_capacity np req cnt label")
  case False
  with assms(1) show ?thesis by (auto simp: acquire_slots_def)
next
  case True
  let ?att = "\<lambda>s. slots_round fl tid req cnt (candidate_specs (fst s) label) s"
  obtain r w1 w2 where ret: "poll ?att (past (w_clock w + wait)) (time_sleep (1 / 2) others) 0 (np, w1) = Some (r, np', w2)"
    and q: "q = fst (decided (r, np', w2))"
    using assms(1) True
    by (auto simp: acquire_slots_def Let_def finally_deregister_def decided_def split: if_splits option.splits prod.splits)
  have "\<exists>u. same_nodes (fst (np, w1)) (fst u) \<and> ?att u = (r, np', w2)"
    by (rule poll_nodes [OF ret]) (use slots_candidates_nodes keeps_nodes_rest(1) [OF keep] in blast)+
  then obtain u where u: "same_nodes np (fst u)" "?att u = (r, np', w2)" by auto
  have specs: "np_specs (fst u) = np_specs np" using u(1) by (simp add: same_nodes_def)
  have "same_nodes np np'" using slots_candidates_nodes [OF u(2)] same_nodes_trans [OF u(1)] by simp
  moreover have "slots_of np (ms_slots m) \<and> ms_spec m \<in> set (np_specs np)" if "q = Inr m" for m
  proof -
    have "r = Some (Inr m)" using q that by (simp add: decided_def split: option.splits)
    with slots_candidates_nodes [OF u(2)] same_nodes_slots [OF u(1)] specs show ?thesis by simp
  qed
  ultimately show ?thesis by blast
qed

lemma multi_node_loop_nodes:
  "multi_node_loop others fl per_node req wait tid specs result s = Some (Inr multis, s') \<Longrightarrow> keeps_nodes others \<Longrightarrow>
     \<forall>m \<in> set result. slots_of (fst s) (ms_slots m) \<and> ms_spec m \<in> set (np_specs (fst s)) \<Longrightarrow>
     \<forall>m \<in> set multis. slots_of (fst s) (ms_slots m) \<and> ms_spec m \<in> set (np_specs (fst s))"
proof (induction specs arbitrary: result s)
  case (Cons spec specs)
  obtain cnt where cnt: "(if wants_all per_node then Inr (int (pool_size (fst s) (ns_label spec))) else py_int per_node) = Inr cnt"
    using Cons.prems(1) by (auto split: sum.splits)
  obtain m s1 where acq: "acquire_slots others fl cnt (Some (ns_label spec)) req wait tid s = Some (Inr m, s1)"
    and rec: "multi_node_loop others fl per_node req wait tid specs (result @ [m]) s1 = Some (Inr multis, s')"
    using Cons.prems(1) cnt by (auto split: option.splits sum.splits)
  note n = acquire_slots_nodes [OF _ Cons.prems(2), of fl cnt "Some (ns_label spec)" req wait tid "fst s" "snd s" "Inr m" "fst s1" "snd s1"]
  from n acq have same: "same_nodes (fst s) (fst s1)" by simp
  from n acq Cons.prems(3) have "\<forall>m \<in> set (result @ [m]). slots_of (fst s1) (ms_slots m) \<and> ms_spec m \<in> set (np_specs (fst s1))"
    using same_nodes_slots [OF same] same by (auto simp: same_nodes_def)
  from Cons.IH [OF rec Cons.prems(2) this] same_nodes_slots [OF same] same show ?case by (simp add: same_nodes_def)
qed auto

lemma owner_in_specs: "owner_of np P = Some spec \<Longrightarrow> spec \<in> set (np_specs np)"
  by (auto simp: owner_of_def find_Some_iff)

lemma acquire_specific_slot_nodes:
  assumes "acquire_specific_slot others fl i wait tid (np, w) = Some (Inr slot, s')" and keep: "keeps_nodes others"
  shows "slots_of np [slot]"
proof -
  obtain spec where spec: "owner_of np (owns_index i) = Some spec"
    using assms(1) by (auto simp: acquire_specific_slot_def split: option.splits)
  then obtain r st w1 where ret: "poll (specific_round fl tid spec i) (specific_expired (w_clock w + wait)) (specific_rest others) 0
      ((np, w1), False) = Some (r, st)" and r: "r = Some (Inr slot)"
    using assms(1) by (auto simp: acquire_specific_slot_def Let_def finally_deregister_def decided_def split: option.splits prod.splits)
  have turn: "same_nodes (fst (fst u)) (fst (fst u')) \<and> (\<forall>slot. q = Some (Inr slot) \<longrightarrow> slots_of (fst (fst u)) [slot])"
    if "same_nodes np (fst (fst u))" "specific_round fl tid spec i u = (q, u')" for u q u'
    using specific_round_nodes [of fl tid spec i "fst (fst u)" "snd (fst u)" "snd u" q "fst (fst u')" "snd (fst u')" "snd u'"]
      that owner_in_specs [OF spec] by (simp add: same_nodes_def)
  have rest: "same_nodes (fst (fst u)) (fst (fst (specific_rest others n u)))" for n u
    using keeps_nodes_rest [OF keep] by (cases u) (simp add: specific_rest_def)
  have "\<exists>u. same_nodes (fst (fst ((np, w1), False))) (fst (fst u)) \<and> specific_round fl tid spec i u = (r, st)"
    by (rule poll_nodes [OF ret, where pool = "\<lambda>u. fst (fst u)"]) (use turn rest in auto)
  then obtain u where u: "same_nodes np (fst (fst u))" "specific_round fl tid spec i u = (r, st)" by auto
  from turn [OF u] r same_nodes_slots [OF u(1)] show ?thesis by simp
qed

lemma acquire_specific_slots_nodes:
  assumes "acquire_specific_slots others fl is wait tid (np, w) = Some (Inr m, s')" and keep: "keeps_nodes others"
  shows "slots_of np (ms_slots m) \<and> ms_spec m \<in> set (np_specs np)"
proof -
  obtain spec where spec: "owner_of np (\<lambda>a. \<forall>i \<in> set is. owns_index i a) = Some spec"
    using assms(1) by (auto simp: acquire_specific_slots_def split: option.splits)
  then obtain r t w1 where ret: "poll (try_acquire_index_set fl tid spec is) (past (w_clock w + wait)) (event_wait (1 / 2) others) 0
      (np, w1) = Some (r, t)" and r: "r = Some (Inr m)"
    using assms(1) by (auto simp: acquire_specific_slots_def Let_def finally_deregister_def decided_def split: option.splits prod.splits)
  have turn: "same_nodes (fst u) (fst u') \<and> (\<forall>m. q = Some (Inr m) \<longrightarrow> slots_of (fst u) (ms_slots m) \<and> ms_spec m \<in> set (np_specs (fst u)))"
    if "same_nodes np (fst u)" "try_acquire_index_set fl tid spec is u = (q, u')" for u q u'
    using index_round_nodes [of fl tid spec "is" "fst u" "snd u" q "fst u'" "snd u'"] that owner_in_specs [OF spec]
    by (simp add: same_nodes_def)
  have "\<exists>u. same_nodes (fst (np, w1)) (fst u) \<and> try_acquire_index_set fl tid spec is u = (r, t)"
    by (rule poll_nodes [OF ret]) (use turn keeps_nodes_rest(2) [OF keep] in auto)
  then obtain u where u: "same_nodes np (fst u)" "try_acquire_index_set fl tid spec is u = (r, t)" by auto
  have "np_specs (fst u) = np_specs np" using u(1) by (simp add: same_nodes_def)
  with turn [OF u] r same_nodes_slots [OF u(1)] show ?thesis by simp
qed

subsection \<open>Fixtures that cannot make an executor\<close>

text \<open>The action ends in the same way whatever the test is, and it ends with an exception if it ends: the test is not run.\<close>

definition never_runs :: "(('os, 'm) test \<Rightarrow> (unit, ('os, 'm) fx) act) \<Rightarrow> ('os, 'm) fx \<Rightarrow> bool" where
  "never_runs fixture s \<longleftrightarrow>
     (\<forall>test test'. fixture test s = fixture test' s) \<and>
     (\<forall>test r s'. fixture test s = Some (r, s') \<longrightarrow> (\<exists>e. r = Inl e))"

lemma never_runs_raise [simp]: "never_runs (\<lambda>_. act_raise e) s"
  by (simp add: never_runs_def act_raise_def)

lemma never_runs_cong: "never_runs f s \<Longrightarrow> (\<And>test. g test s = f test s) \<Longrightarrow> never_runs g s"
  by (simp add: never_runs_def)

lemma never_runs_bind:
  assumes "\<And>a s'. f s = Some (Inr a, s') \<Longrightarrow> never_runs (k a) s'"
  shows "never_runs (\<lambda>test. act_bind f (\<lambda>a. k a test)) s"
proof (cases "f s")
  case None
  then show ?thesis by (simp add: never_runs_def act_bind_def)
next
  case (Some p)
  obtain r t where p: "p = (r, t)" by (cases p)
  show ?thesis
  proof (cases r)
    case (Inl e)
    with Some p show ?thesis by (simp add: never_runs_def act_bind_def)
  next
    case (Inr a)
    with Some p have "act_bind f (\<lambda>a. k a test) s = k a test t" for test by (simp add: act_bind_def)
    with assms [of a t] Some p Inr show ?thesis by (simp add: never_runs_def)
  qed
qed

lemma never_runs_lift: "(\<And>a. v = Inr a \<Longrightarrow> never_runs (k a) s) \<Longrightarrow> never_runs (\<lambda>test. act_bind (act_lift v) (\<lambda>a. k a test)) s"
  by (rule never_runs_bind) (cases v; simp add: act_lift_def act_raise_def act_return_def)

lemma failed_setup:
  assumes mk: "\<And>m ss. m \<in> set multis \<Longrightarrow> \<exists>e. fst (mk m ss) = Inl e" and ne: "multis = [] \<Longrightarrow> mn"
    and "hold_setup E opts fs ctx mn co mk multis x = Some (r, l, x')"
  shows "\<exists>e. r = Inl e"
proof (cases "setup_monitoring E opts fs ctx multis mn x")
  case (Some p)
  obtain q ss m where p: "p = (q, ss, m)" by (metis prod.exhaust)
  show ?thesis
  proof (cases multis)
    case Nil
    with ne Some p assms(3) show ?thesis
      by (cases q) (auto simp: hold_setup_def act_return_def new_group_def split: option.splits)
  next
    case (Cons multi ms)
    obtain e ss' where "mk multi ss = (Inl e, ss')" using mk [of multi ss] Cons by (cases "mk multi ss") auto
    with Some p Cons assms(3) show ?thesis
      by (cases q) (auto simp: hold_setup_def make_one_def act_bind_def split: option.splits)
  qed
qed (use assms(3) in \<open>simp add: hold_setup_def\<close>)

lemma act_finally_raises:
  assumes "body t = Some (Inl e, t1)" and "act_finally body fin t = Some (r, t')"
  shows "\<exists>e. r = Inl e"
proof -
  obtain q :: "py_error + unit" where "r = (case q of Inl e \<Rightarrow> Inl e | Inr _ \<Rightarrow> Inl e)"
    using assms by (auto simp: act_finally_def)
  then show ?thesis by (cases q) auto
qed

lemma hold_never_runs:
  assumes "\<And>m ss. m \<in> set multis \<Longrightarrow> \<exists>e. fst (mk m ss) = Inl e" and "multis = [] \<Longrightarrow> mn"
  shows "never_runs (hold_and_yield E opts fs ctx mn co mk multis) s"
proof -
  obtain p x where s: "s = (p, x)" by (cases s)
  show ?thesis
  proof (cases "hold_setup E opts fs ctx mn co mk multis x")
    case None
    then show ?thesis by (simp add: never_runs_def s hold_and_yield_def)
  next
    case (Some q)
    obtain r l x' where q: "q = (r, l, x')" by (cases q)
    from failed_setup [OF assms Some [unfolded q]] obtain e where "r = Inl e" by blast
    with Some q have hold: "hold_and_yield E opts fs ctx mn co mk multis test s = act_finally (\<lambda>s. Some (Inl e, s))
        (act_finally (on_rest (hold_teardown E opts ctx multis l)) (release_groups E multis)) (p, x')" for test
      by (simp add: s hold_and_yield_def)
    show ?thesis unfolding never_runs_def hold
      using act_finally_raises [where body = "\<lambda>s. Some (Inl e, s)" and t = "(p, x')", OF refl] by blast
  qed
qed

text \<open>A pool without sessions whose nodes are all remote.\<close>

definition all_remote :: "('os, 'm) fenv \<Rightarrow> node_pool \<Rightarrow> bool" where
  "all_remote E np \<longleftrightarrow> np_ssh np = [] \<and> (\<forall>spec \<in> set (np_specs np). \<not> is_local (fe_hostname E) spec)"

lemma no_session_single:
  assumes "all_remote E np" and "slots_of np [slot]"
  shows "\<exists>e. fst (single_maker E slot m ss) = Inl e"
  using assms by (simp add: all_remote_def slots_of_def single_maker_def slot_make_executor_def bind_session_def Let_def)

lemma no_session_group:
  assumes "all_remote E np" and "slots_of np (ms_slots m)" and "ms_spec m \<in> set (np_specs np)"
  shows "\<exists>e. fst (group_maker E m ss) = Inl e"
  using assms
  by (auto simp: all_remote_def slots_of_def group_maker_def multi_make_executor_def bind_session_def Let_def split: list.splits)

lemma on_pool_Inr: "on_pool f (p, x) = Some (Inr a, s') \<Longrightarrow> \<exists>p'. f p = Some (Inr a, p')"
  by (auto simp: on_pool_def)

lemma skip_Inr [simp]:
  "skip_runtime_error r = Inr a \<longleftrightarrow> r = Inr a" "skip_value_error r = Inr a \<longleftrightarrow> r = Inr a"
  by (auto simp: skip_runtime_error_def skip_value_error_def split: sum.splits py_error.splits)

lemma single_path_never_runs:
  assumes keep: "keeps_nodes (fe_others E)" and remote: "all_remote E np"
  shows "never_runs (single_path E opts fs ctx co) ((np, w), x)"
  unfolding single_path_def
proof (rule never_runs_bind)
  fix slot s' assume "acquire_single E opts ctx ((np, w), x) = Some (Inr slot, s')"
  from on_pool_Inr [OF this [unfolded acquire_single_def]] obtain p' where "map_option (\<lambda>(r, p). (case r of
        Inl RuntimeError \<Rightarrow> Inl (if total_gpu_slots (fst p) = 0 then PytestFail else PytestSkip) | _ \<Rightarrow> r, p))
      (acquire_slot (fe_others E) (fe_fl E) (tc_vram ctx) (fo_acquire_timeout opts) (tc_name ctx) (np, w)) = Some (Inr slot, p')" ..
  then obtain r where "acquire_slot (fe_others E) (fe_fl E) (tc_vram ctx) (fo_acquire_timeout opts) (tc_name ctx) (np, w) = Some (r, p')"
    and r: "(case r of Inl RuntimeError \<Rightarrow> Inl (if total_gpu_slots (fst p') = 0 then PytestFail else PytestSkip) | _ \<Rightarrow> r) = Inr slot"
    by auto
  moreover have "r = Inr slot" using r by (cases r) (simp_all split: py_error.splits)
  ultimately have "slots_of np [slot]" using acquire_slot_nodes [OF _ keep] by blast
  then show "never_runs (hold_and_yield E opts fs ctx False co (single_maker E slot)
      [\<lparr>ms_slots = [slot], ms_spec = sl_spec slot\<rparr>]) s'"
    by (intro hold_never_runs no_session_single [OF remote]) simp_all
qed

lemma group_hold_never_runs:
  assumes "all_remote E np" and "slots_of np (ms_slots m) \<and> ms_spec m \<in> set (np_specs np)"
  shows "never_runs (hold_and_yield E opts fs ctx mn co (group_maker E) [m]) s"
proof (rule hold_never_runs)
  fix m' ss assume "m' \<in> set [m]"
  with no_session_group [OF assms(1)] assms(2) show "\<exists>e. fst (group_maker E m' ss) = Inl e" by simp
qed simp

lemma multi_gpu_path_never_runs:
  assumes keep: "keeps_nodes (fe_others E)" and remote: "all_remote E np"
  shows "never_runs (multi_gpu_path E opts fs ctx co) ((np, w), x)"
proof -
  have "never_runs (\<lambda>test. act_bind (act_lift (gpu_count_from_marker (tc_gpu_count ctx) 2))
       (\<lambda>v. act_bind (acquire_multi_gpu E opts ctx (resolve_gpu_count v (int (max_gpus_per_node np)) 2))
          (\<lambda>multi. hold_and_yield E opts fs ctx False co (group_maker E) [multi] test))) ((np, w), x)"
  proof (rule never_runs_lift, rule never_runs_bind)
    fix v m s' assume "acquire_multi_gpu E opts ctx (resolve_gpu_count v (int (max_gpus_per_node np)) 2) ((np, w), x) = Some (Inr m, s')"
    from on_pool_Inr [OF this [unfolded acquire_multi_gpu_def]] obtain p' where
      "map_option (map_prod skip_runtime_error id) (acquire_slots (fe_others E) (fe_fl E)
        (resolve_gpu_count v (int (max_gpus_per_node np)) 2) None (tc_vram ctx) (fo_acquire_timeout opts) (tc_name ctx) (np, w))
        = Some (Inr m, p')" ..
    then obtain np' w' where "acquire_slots (fe_others E) (fe_fl E) (resolve_gpu_count v (int (max_gpus_per_node np)) 2) None
        (tc_vram ctx) (fo_acquire_timeout opts) (tc_name ctx) (np, w) = Some (Inr m, np', w')" by auto
    from acquire_slots_nodes [OF this keep] show "never_runs (hold_and_yield E opts fs ctx False co (group_maker E) [m]) s'"
      by (intro group_hold_never_runs [OF remote]) simp
  qed
  then show ?thesis by (simp add: never_runs_def multi_gpu_path_def)
qed

lemma multi_node_path_never_runs:
  assumes keep: "keeps_nodes (fe_others E)" and remote: "all_remote E np"
  shows "never_runs (multi_node_path E opts fs ctx vram co) ((np, w), x)"
  unfolding multi_node_path_def
proof (rule never_runs_bind)
  fix multis s' assume acq: "acquire_nodes E opts ctx vram ((np, w), x) = Some (Inr multis, s')"
  obtain v where v: "gpu_count_from_marker (tc_gpu_count ctx) 1 = Inr v"
    using acq by (cases "gpu_count_from_marker (tc_gpu_count ctx) 1") (auto simp: acquire_nodes_def act_bind_def act_lift_def act_raise_def)
  with acq have "on_pool (\<lambda>p. map_option (map_prod skip_runtime_error id) (acquire_multi_node (fe_others E) (fe_fl E) (count_val v) vram
      (fo_acquire_timeout opts) (tc_name ctx) p)) ((np, w), x) = Some (Inr multis, s')"
    by (simp add: acquire_nodes_def act_bind_def act_lift_def act_return_def)
  from on_pool_Inr [OF this] obtain s1 where "acquire_multi_node (fe_others E) (fe_fl E) (count_val v) vram
      (fo_acquire_timeout opts) (tc_name ctx) (np, w) = Some (Inr multis, s1)" by auto
  from multi_node_loop_nodes [OF this [unfolded acquire_multi_node_def] keep]
  have "\<forall>m \<in> set multis. slots_of np (ms_slots m) \<and> ms_spec m \<in> set (np_specs np)" by simp
  then show "never_runs (hold_and_yield E opts fs ctx True co (group_maker E) multis) s'"
    by (intro hold_never_runs no_session_group [OF remote]) simp_all
qed

lemma acquire_pinned_nodes:
  assumes keep: "keeps_nodes (fe_others E)" and acq: "acquire_pinned E opts ctx vals ((np, w), x) = Some (Inr m, s')"
  shows "slots_of np (ms_slots m) \<and> ms_spec m \<in> set (np_specs np)"
proof -
  obtain js where js: "mapM index_of_val vals = Inr js"
    using acq by (cases "mapM index_of_val vals") (auto simp: acquire_pinned_def act_raise_def)
  show ?thesis
  proof (cases "\<exists>i. js = [i]")
    case True
    then obtain i where i: "js = [i]" ..
    with acq js have "on_pool (\<lambda>p. map_option (map_prod (skip_value_error \<circ> map_sum id (\<lambda>slot. \<lparr>ms_slots = [slot], ms_spec = sl_spec slot\<rparr>)) id)
        (acquire_specific_slot (fe_others E) (fe_fl E) i (fo_acquire_timeout opts) (tc_name ctx) p)) ((np, w), x) = Some (Inr m, s')"
      by (simp add: acquire_pinned_def)
    from on_pool_Inr [OF this] obtain r s1 where
      r: "acquire_specific_slot (fe_others E) (fe_fl E) i (fo_acquire_timeout opts) (tc_name ctx) (np, w) = Some (r, s1)"
      "map_sum id (\<lambda>slot. \<lparr>ms_slots = [slot], ms_spec = sl_spec slot\<rparr>) r = Inr m" by auto
    then obtain slot where "r = Inr slot" "m = \<lparr>ms_slots = [slot], ms_spec = sl_spec slot\<rparr>" by (cases r) auto
    with acquire_specific_slot_nodes [OF _ keep] r(1) show ?thesis by (auto simp: slots_of_def)
  next
    case False
    with acq js have "on_pool (\<lambda>p. map_option (map_prod skip_value_error id)
        (acquire_specific_slots (fe_others E) (fe_fl E) js (fo_acquire_timeout opts) (tc_name ctx) p)) ((np, w), x) = Some (Inr m, s')"
      by (auto simp: acquire_pinned_def split: list.splits)
    from on_pool_Inr [OF this] obtain s1 where
      "acquire_specific_slots (fe_others E) (fe_fl E) js (fo_acquire_timeout opts) (tc_name ctx) (np, w) = Some (Inr m, s1)" by auto
    from acquire_specific_slots_nodes [OF this keep] show ?thesis .
  qed
qed

lemma pinned_path_never_runs:
  assumes keep: "keeps_nodes (fe_others E)" and remote: "all_remote E np"
  shows "never_runs (pinned_path E opts fs ctx co raw) ((np, w), x)"
proof (cases "is_int_inst raw")
  case True
  then show ?thesis by (simp add: never_runs_def pinned_path_def act_raise_def)
next
  case False
  have "never_runs (\<lambda>test. act_bind (act_lift (py_list raw)) (\<lambda>vals. act_bind (acquire_pinned E opts ctx vals)
      (\<lambda>multi. hold_and_yield E opts fs ctx False co (group_maker E) [multi] test))) ((np, w), x)"
    by (rule never_runs_lift, rule never_runs_bind)
      (rule group_hold_never_runs [OF remote], rule acquire_pinned_nodes [OF keep])
  with False show ?thesis by (simp add: never_runs_def pinned_path_def)
qed



end
