(* ===== verification/ManualAlloc.thy ===== *)
theory ManualAlloc
  imports WorkerPool
begin

text \<open>
  \<open>_ManualGpuAllocator\<close> of \<open>framework/plugins/remote_node_plugin.py\<close> and its fixture: a test acquires GPUs by index
  and releases them itself. A \<open>NodeExecutorGroup\<close> is compared by identity, so every group has a number.
\<close>

type_synonym exec_group = "nat \<times> executor list"

record manual_allocator =
  ma_held :: "(node_slot \<times> exec_group) list"
  ma_next :: nat

definition new_manual :: manual_allocator where
  "new_manual = \<lparr>ma_held = [], ma_next = 0\<rparr>"

type_synonym ('os, 'm) mfx = "manual_allocator \<times> ('os, 'm) fx"

definition available_gpus :: "bool \<Rightarrow> node_pool \<Rightarrow> gpu_info list" where
  "available_gpus no_gpu np =
     (if no_gpu then [\<lparr>gi_index = 0, gi_arch = PStr ''gfx942'', gi_vram_mb = 32768, gi_numa_node = 0\<rparr>,
                      \<lparr>gi_index = 1, gi_arch = PStr ''gfx942'', gi_vram_mb = 32768, gi_numa_node = 0\<rparr>]
      else concat (map (\<lambda>(_, a). ga_pool a) (np_allocs np)))"

text \<open>\<open>pool\<close>: the session has a pool; without one the attribute access on \<open>None\<close> raises.\<close>

definition manual_acquire ::
  "('os, 'm) fenv \<Rightarrow> fixture_options \<Rightarrow> test_request \<Rightarrow> bool \<Rightarrow> int \<Rightarrow> string \<Rightarrow> (exec_group, ('os, 'm) mfx) act" where
  "manual_acquire E opts rq pool i test_id s =
     (case s of (ma, p, ss, m) \<Rightarrow>
        if fo_no_gpu opts then Some (Inr (ma_next ma, [DryRunX]), ma\<lparr>ma_next := Suc (ma_next ma)\<rparr>, p, ss, m)
        else if \<not> pool then Some (Inl AttributeError, s)
        else
          let effective_id = (if test_id = [] then rq_name rq else test_id) in
          case acquire_specific_slot (fe_others E) (fe_fl E) i (fo_acquire_timeout opts) effective_id p of
            None \<Rightarrow> None
          | Some (Inl e, p) \<Rightarrow> Some (Inl (if e \<in> {RuntimeError, ValueError} then PytestSkip else e), ma, p, ss, m)
          | Some (Inr slot, p) \<Rightarrow>
              if \<not> fe_truncate_ok E then Some (Inl OSError, ma, p, ss, m)
              else case slot_make_executor (fe_hostname E) (fe_log_ok E) slot ss of
                     (Inl e, ss) \<Rightarrow> Some (Inl e, ma, p, ss, m)
                   | (Inr ex, ss) \<Rightarrow>
                       let grp = (ma_next ma, [ex])
                       in Some (Inr grp, ma\<lparr>ma_held := ma_held ma @ [(slot, grp)], ma_next := Suc (ma_next ma)\<rparr>, p, ss, m))"

definition release_held :: "('os, 'm) fenv \<Rightarrow> node_slot \<times> exec_group \<Rightarrow> ('os, 'm) fx \<Rightarrow> ('os, 'm) fx" where
  "release_held E h s =
     (case h of (slot, _, execs) \<Rightarrow>
        case s of (p, ss, m) \<Rightarrow> (snd (pool_release (fe_fl E) [slot] p), ss, fe_close_logger E (hd execs) m))"

definition manual_release :: "('os, 'm) fenv \<Rightarrow> fixture_options \<Rightarrow> exec_group \<Rightarrow> (unit, ('os, 'm) mfx) act" where
  "manual_release E opts grp s =
     (case s of (ma, x) \<Rightarrow>
        if fo_no_gpu opts then Some (Inr (), s)
        else case find (\<lambda>(_, g). fst g = fst grp) (ma_held ma) of
               None \<Rightarrow> Some (Inr (), s)
             | Some h \<Rightarrow> Some (Inr (), ma\<lparr>ma_held := remove1 h (ma_held ma)\<rparr>, release_held E h x))"

definition manual_pin ::
  "('os, 'm) fenv \<Rightarrow> fixture_options \<Rightarrow> test_request \<Rightarrow> bool \<Rightarrow> int \<Rightarrow> string \<Rightarrow> (exec_group \<Rightarrow> ('a, ('os, 'm) mfx) act) \<Rightarrow> ('a, ('os, 'm) mfx) act" where
  "manual_pin E opts rq pool i test_id body =
     act_bind (manual_acquire E opts rq pool i test_id) (\<lambda>grp. act_finally (body grp) (manual_release E opts grp))"

definition manual_cleanup :: "('os, 'm) fenv \<Rightarrow> (unit, ('os, 'm) mfx) act" where
  "manual_cleanup E s =
     (case s of (ma, x) \<Rightarrow>
        if ma_held ma = [] then Some (Inr (), s)
        else Some (Inl PytestFail, ma\<lparr>ma_held := []\<rparr>, fold (release_held E) (ma_held ma) x))"

text \<open>The fixture: the test works on the allocator, then leaked slots are released and reported.\<close>

definition manual_gpu_allocator ::
  "('os, 'm) fenv \<Rightarrow> (('os, 'm) mfx \<Rightarrow> ('os, 'm) mfx option) \<Rightarrow> (unit, ('os, 'm) fx) act" where
  "manual_gpu_allocator E test x =
     (case test (new_manual, x) of
        None \<Rightarrow> None
      | Some s \<Rightarrow> map_option (\<lambda>(r, _, x). (r, x)) (manual_cleanup E s))"

text \<open>\<open>cmake_executor\<close>: the session of the first remote node.\<close>

definition cmake_executor :: "node_pool option \<Rightarrow> ssh_session option" where
  "cmake_executor pool =
     (case pool of
        None \<Rightarrow> None
      | Some np \<Rightarrow>
          (case find (\<lambda>spec. map_of (np_ssh np) (ns_label spec) \<noteq> None) (np_specs np) of
             None \<Rightarrow> None
           | Some spec \<Rightarrow> map_of (np_ssh np) (ns_label spec)))"

subsection \<open>The held list\<close>

lemma release_held_gives_back:
  assumes "filelock_ok (fe_fl E) held" and "slot_ok (fst h)"
  shows "gives_back held [fst h] (fst x) (fst (release_held E h x))"
proof -
  obtain slot n execs p ss m where eq: "h = (slot, n, execs)" "x = (p, ss, m)" by (metis prod.exhaust)
  have "gives_back held [slot] p (snd (release_slots (fe_fl E) [slot] p))"
    using release_slots_gives_back [OF assms(1), of "[slot]" p] assms(2) eq by simp
  then show ?thesis by (auto simp: eq release_held_def pool_release_def intro: gives_back_event split: prod.splits)
qed

lemma release_all_held:
  assumes "filelock_ok (fe_fl E) held"
  shows "\<forall>h \<in> set hs. slot_ok (fst h) \<Longrightarrow> gives_back held (map fst hs) (fst x) (fst (fold (release_held E) hs x))"
proof (induction hs arbitrary: x)
  case (Cons h hs)
  have "gives_back held ([fst h] @ map fst hs) (fst x) (fst (fold (release_held E) hs (release_held E h x)))"
    using release_held_gives_back [OF assms] Cons by (blast intro: gives_back_trans list.set_intros)
  then show ?case by simp
qed (simp add: gives_back_Nil)

text \<open>Every slot the allocator lists is one it holds, and groups have different numbers.\<close>

definition manual_inv :: "manual_allocator \<Rightarrow> bool" where
  "manual_inv ma \<longleftrightarrow> (\<forall>h \<in> set (ma_held ma). slot_ok (fst h) \<and> fst (snd h) < ma_next ma) \<and> distinct (map (fst \<circ> snd) (ma_held ma))"

lemma specific_round_slot:
  assumes "filelock_ok fl held" and "specific_round fl tid spec i st = (Some (Inr slot), st')"
  shows "slot_ok slot \<and> w_held held (snd (fst st')) (slot_path slot)"
proof -
  obtain np w b where st: "st = ((np, w), b)" by (metis prod.exhaust)
  from assms(2) st obtain a g a' lk w' where al: "get_alloc np (ns_label spec) = Some a" "allocate_specific_now i a = Inr (g, a')"
    "lock_acquire fl (np_pid np) 0 tid (new_lock (ns_label spec) i) w = (Inr lk, w')"
    and res: "slot = make_slot np spec g lk" "st' = ((set_alloc (ns_label spec) a' np, w'), False)"
    by (auto simp: specific_round_def Let_def split: option.splits sum.splits prod.splits py_error.splits)
  have "gi_index g = i" using al(2) by (auto simp: allocate_specific_now_def find_Some_iff split: option.splits if_splits)
  with lock_acquire_Inr [OF assms(1) al(3)] res show ?thesis by (auto simp: slot_ok_def slot_path_def)
qed

lemma acquire_specific_slot_granted:
  assumes ok: "filelock_ok fl held" and call: "acquire_specific_slot others fl i wait tid p = Some (Inr slot, p')"
  shows "slot_ok slot \<and> w_held held (snd p') (slot_path slot)"
proof -
  obtain np w where p: "p = (np, w)" by (cases p)
  from call p obtain spec req w1 r st where
    loop: "poll (specific_round fl tid spec i) (specific_expired (w_clock w + wait)) (specific_rest others) 0 ((np, w1), False) = Some (r, st)"
    and res: "finally_deregister fl [(ns_label spec, req)] (decided (r, fst st)) = (Inr slot, p')"
    by (auto simp: acquire_specific_slot_def Let_def split: option.splits prod.splits)
  from poll_result [OF loop, where I = "\<lambda>_. True"] obtain u where "specific_round fl tid spec i u = (r, st)" by auto
  moreover have r: "r = Some (Inr slot)" and p': "p' = (fst (fst st), deregister_all fl [(ns_label spec, req)] (snd (fst st)))"
    using res by (auto simp: finally_deregister_def decided_def split: option.splits prod.splits)
  ultimately have s: "slot_ok slot" "w_held held (snd (fst st)) (slot_path slot)" using specific_round_slot [OF ok] by blast+
  with deregister_all_same [OF ok, of "snd (fst st)" "[(ns_label spec, req)]"] p' slot_ok_path [OF s(1)] show ?thesis
    by (simp add: gpu_locks_same_def)
qed

lemma manual_inv_snoc:
  assumes "manual_inv ma" and "slot_ok slot"
  shows "manual_inv (ma\<lparr>ma_held := ma_held ma @ [(slot, ma_next ma, execs)], ma_next := Suc (ma_next ma)\<rparr>)"
  using assms by (fastforce simp: manual_inv_def)

lemma manual_acquire_inv:
  assumes "filelock_ok (fe_fl E) held" and "manual_inv ma" and "manual_acquire E opts rq pool i tid (ma, x) = Some (r, ma', x')"
  shows "manual_inv ma'"
proof -
  obtain p ss m where x: "x = (p, ss, m)" by (metis prod.exhaust)
  let ?id = "if tid = [] then rq_name rq else tid"
  have next_inv: "manual_inv (ma\<lparr>ma_next := Suc (ma_next ma)\<rparr>)" using assms(2) by (fastforce simp: manual_inv_def)
  show ?thesis
  proof (cases "\<not> fo_no_gpu opts \<and> pool")
    case False
    with assms(2,3) next_inv show ?thesis by (auto simp: x manual_acquire_def split: if_splits)
  next
    case True
    then obtain q p1 where acq: "acquire_specific_slot (fe_others E) (fe_fl E) i (fo_acquire_timeout opts) ?id p = Some (q, p1)"
      using assms(3) by (auto simp: x manual_acquire_def Let_def split: option.splits)
    show ?thesis
    proof (cases q)
      case (Inl e)
      with True acq assms(2,3) show ?thesis by (auto simp: x manual_acquire_def Let_def)
    next
      case (Inr slot)
      with acquire_specific_slot_granted [OF assms(1)] acq have "slot_ok slot" by blast
      with Inr True acq assms(2,3) manual_inv_snoc [OF assms(2)] show ?thesis
        by (auto simp: x manual_acquire_def Let_def split: if_splits sum.splits prod.splits)
    qed
  qed
qed

lemma manual_release_inv:
  assumes "manual_inv ma" and "manual_release E opts g (ma, x) = Some (r, ma', x')"
  shows "manual_inv ma'"
proof -
  have "distinct (map f (remove1 h xs))" if "distinct (map f xs)" for f :: "node_slot \<times> exec_group \<Rightarrow> nat" and h xs
    using that
  proof (induction xs)
    case (Cons y ys)
    moreover have "f ` set (remove1 h ys) \<subseteq> f ` set ys" using set_remove1_subset by (rule image_mono)
    ultimately show ?case by auto
  qed simp
  moreover have "set (remove1 h (ma_held ma)) \<subseteq> set (ma_held ma)" for h by (rule set_remove1_subset)
  ultimately have "manual_inv (ma\<lparr>ma_held := remove1 h (ma_held ma)\<rparr>)" for h
    using assms(1) unfolding manual_inv_def by (simp add: subset_eq)
  with assms show ?thesis by (auto simp: manual_release_def split: if_splits option.splits)
qed

text \<open>
  C15. The manual allocator keeps its books. Acquiring and releasing keep the invariant that every listed slot is a
  locked slot of the pool and that the listed groups are distinct, and cleaning up at the end of the test releases every
  slot still listed, empties the list and fails the test exactly if there was one.
\<close>

theorem manual_cleanup_releases:
  assumes ok: "filelock_ok (fe_fl E) held" and inv: "manual_inv ma"
  shows "(\<forall>opts rq pool i tid x r ma' x'. manual_acquire E opts rq pool i tid (ma, x) = Some (r, ma', x') \<longrightarrow> manual_inv ma') \<and>
    (\<forall>opts g x r ma' x'. manual_release E opts g (ma, x) = Some (r, ma', x') \<longrightarrow> manual_inv ma') \<and>
    (\<exists>x'. manual_cleanup E (ma, x) = Some (if ma_held ma = [] then Inr () else Inl PytestFail, ma\<lparr>ma_held := []\<rparr>, x') \<and>
       gives_back held (map fst (ma_held ma)) (fst x) (fst x'))"
proof (intro conjI)
  show "\<forall>opts rq pool i tid x r ma' x'. manual_acquire E opts rq pool i tid (ma, x) = Some (r, ma', x') \<longrightarrow> manual_inv ma'"
    using manual_acquire_inv [OF ok inv] by blast
  show "\<forall>opts g x r ma' x'. manual_release E opts g (ma, x) = Some (r, ma', x') \<longrightarrow> manual_inv ma'"
    using manual_release_inv [OF inv] by blast
  have "\<forall>h \<in> set (ma_held ma). slot_ok (fst h)" using inv by (simp add: manual_inv_def)
  from release_all_held [OF ok this, of x]
  show "\<exists>x'. manual_cleanup E (ma, x) = Some (if ma_held ma = [] then Inr () else Inl PytestFail, ma\<lparr>ma_held := []\<rparr>, x') \<and>
      gives_back held (map fst (ma_held ma)) (fst x) (fst x')"
    by (cases "ma_held ma = []") (auto simp: manual_cleanup_def)
qed

theorem manual_cleanup_releases_witness:
  "\<exists>x'. manual_cleanup demo_fenv (\<lparr>ma_held = [(held_slot, 0, [DryRunX])], ma_next = 1\<rparr>,
       (demo_pool demo_nodes, demo_world {lock_path ''a'' 0}), demo_sessions, 0) = Some (Inl PytestFail, \<lparr>ma_held = [], ma_next = 1\<rparr>, x') \<and>
     lock_path ''a'' 0 \<notin> w_os (snd (fst x'))"
proof -
  let ?ma = "\<lparr>ma_held = [(held_slot, 0, [DryRunX])], ma_next = 1\<rparr>"
  have "slot_ok held_slot" "slot_path held_slot = lock_path ''a'' 0" by (simp_all add: held_slot_def slot_ok_def slot_path_def)
  moreover have "filelock_ok (fe_fl demo_fenv) (\<lambda>s p. p \<in> s)" using table_locks_ok by (simp add: demo_fenv_def)
  ultimately show ?thesis
    using manual_cleanup_releases [of demo_fenv "\<lambda>s p. p \<in> s" ?ma "((demo_pool demo_nodes, demo_world {lock_path ''a'' 0}), demo_sessions, 0)"]
    by (auto simp: manual_inv_def gives_back_def fun_eq_iff)
qed

text \<open>
  A slot that the manual allocator has acquired is lost when making its executor raises, as it always does for a
  remote node on a worker: the slot is not listed yet, so the call raises with the lock of the GPU held, the test goes on as if
  it had nothing, and cleaning up releases and reports nothing.
\<close>

theorem manual_acquire_leaks:
  assumes ok: "filelock_ok (fe_fl E) held" and "\<not> fo_no_gpu opts" and "fe_truncate_ok E" and "tid \<noteq> []"
    and acq: "acquire_specific_slot (fe_others E) (fe_fl E) i (fo_acquire_timeout opts) tid p = Some (Inr slot, p1)"
    and make: "slot_make_executor (fe_hostname E) (fe_log_ok E) slot ss = (Inl e, ss1)"
  shows "manual_acquire E opts rq True i tid (new_manual, p, ss, m) = Some (Inl e, new_manual, p1, ss1, m) \<and>
    manual_cleanup E (new_manual, p1, ss1, m) = Some (Inr (), new_manual, p1, ss1, m) \<and>
    w_held held (snd p1) (slot_path slot)"
  using assms acquire_specific_slot_granted [OF ok acq]
  by (simp add: manual_acquire_def manual_cleanup_def Let_def new_manual_def)

theorem manual_acquire_leaks_witness:
  "\<exists>slot p1. acquire_specific_slot idle table_locks 0 30 ''t'' (demo_pool demo_nodes, demo_world {}) = Some (Inr slot, p1) \<and>
     manual_acquire demo_fenv demo_options demo_request True 0 ''t'' (new_manual, (demo_pool demo_nodes, demo_world {}), Map.empty, 0)
       = Some (Inl AttributeError, new_manual, p1, Map.empty, 0) \<and>
     manual_cleanup demo_fenv (new_manual, p1, Map.empty, 0) = Some (Inr (), new_manual, p1, Map.empty, 0) \<and>
     slot_path slot \<in> w_os (snd p1)"
proof -
  have "case acquire_specific_slot idle table_locks 0 30 ''t'' (demo_pool demo_nodes, demo_world {}) of
      Some (Inr slot, s) \<Rightarrow> \<not> is_local None (sl_spec slot) | _ \<Rightarrow> False" by code_simp
  then obtain slot p1 where acq: "acquire_specific_slot idle table_locks 0 30 ''t'' (demo_pool demo_nodes, demo_world {}) = Some (Inr slot, p1)"
    and remote: "\<not> is_local None (sl_spec slot)" by (auto dest!: granted_case)
  have env: "fe_others demo_fenv = idle" "fe_fl demo_fenv = table_locks" "fe_hostname demo_fenv = None" "fe_log_ok demo_fenv" "fe_truncate_ok demo_fenv"
    "\<not> fo_no_gpu demo_options" "fo_acquire_timeout demo_options = 30" by (simp_all add: demo_fenv_def demo_options_def)
  have make: "slot_make_executor None True slot Map.empty = (Inl AttributeError, Map.empty)"
    using remote by (simp add: slot_make_executor_def bind_session_def Let_def)
  from manual_acquire_leaks [of demo_fenv "\<lambda>s p. p \<in> s" demo_options "''t''" 0 "(demo_pool demo_nodes, demo_world {})" slot p1 Map.empty
      AttributeError Map.empty demo_request 0] table_locks_ok acq make env
  show ?thesis by auto
qed

end
