(* ===== verification/GhaApi.thy ===== *)
theory GhaApi
  imports PyVal Shell Workspace
begin

text \<open>
  \<open>build_tools/github_actions/github_actions_api.py\<close>: the client of the GitHub REST API with its cached choice of
  an authentication method, the queries built on it, and the workflow commands that append to the files GitHub
  Actions names in the environment. The \<open>gh\<close> tool, \<open>urlopen\<close>, \<open>json.loads\<close> and \<open>base64\<close> are parameters; a file
  is its contents, empty when it does not exist.
\<close>

subsection \<open>Workflow commands\<close>

type_synonym files = "string \<Rightarrow> string"
type_synonym getenv = "string \<Rightarrow> string option"

text \<open>\<open>open(path, "a")\<close> and \<open>write\<close>; \<open>can\<close> says which paths can be opened.\<close>

definition append_file :: "(string \<Rightarrow> bool) \<Rightarrow> string \<Rightarrow> string \<Rightarrow> files \<Rightarrow> py_error + files" where
  "append_file can path s fs = (if can path then Inr (fs(path := fs path @ s)) else Inl OSError)"

definition gha_append :: "getenv \<Rightarrow> (string \<Rightarrow> bool) \<Rightarrow> string \<Rightarrow> string \<Rightarrow> files \<Rightarrow> py_error + files" where
  "gha_append getenv can var s fs =
     (case getenv var of
        None \<Rightarrow> Inr fs
      | Some path \<Rightarrow> if path = [] then Inr fs else append_file can path s fs)"

definition gha_add_to_path :: "getenv \<Rightarrow> (string \<Rightarrow> bool) \<Rightarrow> string \<Rightarrow> files \<Rightarrow> py_error + files" where
  "gha_add_to_path getenv can new_path fs = gha_append getenv can ''GITHUB_PATH'' new_path fs"

text \<open>A value is a text or a \<open>Path\<close>; both print alike, but \<open>json.dumps\<close> does not take a \<open>Path\<close>.\<close>

datatype gha_value = Text string | PathValue string

fun value_str :: "gha_value \<Rightarrow> string" where
  "value_str (Text s) = s"
| "value_str (PathValue p) = p"

fun is_text :: "gha_value \<Rightarrow> bool" where
  "is_text (Text _) = True"
| "is_text (PathValue _) = False"

definition var_lines :: "(string \<times> gha_value) list \<Rightarrow> string" where
  "var_lines vars = concat (map (\<lambda>(k, v). k @ ''='' @ value_str v @ [newline]) vars)"

definition gha_set_env :: "getenv \<Rightarrow> (string \<Rightarrow> bool) \<Rightarrow> (string \<times> gha_value) list \<Rightarrow> files \<Rightarrow> py_error + files" where
  "gha_set_env getenv can vars fs = gha_append getenv can ''GITHUB_ENV'' (var_lines vars) fs"

definition gha_set_output :: "getenv \<Rightarrow> (string \<Rightarrow> bool) \<Rightarrow> (string \<times> gha_value) list \<Rightarrow> files \<Rightarrow> py_error + files" where
  "gha_set_output getenv can vars fs =
     (if list_all (\<lambda>(_, v). is_text v) vars then gha_append getenv can ''GITHUB_OUTPUT'' (var_lines vars) fs else Inl TypeError)"

definition gha_append_step_summary :: "getenv \<Rightarrow> (string \<Rightarrow> bool) \<Rightarrow> string \<Rightarrow> files \<Rightarrow> py_error + files" where
  "gha_append_step_summary getenv can summary fs = gha_append getenv can ''GITHUB_STEP_SUMMARY'' (summary @ [newline, newline]) fs"

text \<open>\<open>read\<close> is \<open>None\<close> when the file cannot be opened, \<open>loads\<close> is \<open>None\<close> for the \<open>ValueError\<close> of a text that is not JSON.\<close>

definition gha_load_github_event :: "getenv \<Rightarrow> (string \<Rightarrow> string option) \<Rightarrow> (string \<Rightarrow> pyval option) \<Rightarrow> py_error + pyval" where
  "gha_load_github_event getenv read loads =
     (case getenv ''GITHUB_EVENT_PATH'' of
        None \<Rightarrow> Inl KeyError
      | Some path \<Rightarrow>
          (case read path of
             None \<Rightarrow> Inl FileNotFoundError
           | Some s \<Rightarrow> (case loads s of None \<Rightarrow> Inl ValueError | Some v \<Rightarrow> Inr v)))"

text \<open>
  The documented single-line format of the files: every line is a name, \<open>=\<close> and a value; a line with neither \<open>=\<close>
  nor the start of a multi-line value is an error.
\<close>

definition parse_line :: "string \<Rightarrow> (string \<times> string) option" where
  "parse_line l = (case split1 CHR ''='' l of (k, Some v) \<Rightarrow> Some (k, v) | (_, None) \<Rightarrow> None)"

fun parse_lines :: "string list \<Rightarrow> (string \<times> string) list option" where
  "parse_lines [] = Some []"
| "parse_lines (l # ls) =
     (if l = [] then parse_lines ls
      else case parse_line l of
             None \<Rightarrow> None
           | Some kv \<Rightarrow> map_option (Cons kv) (parse_lines ls))"

definition read_vars :: "string \<Rightarrow> (string \<times> string) list option" where
  "read_vars s = parse_lines (split_on newline s)"

subsection \<open>Conversions\<close>

definition true_words :: "string list" where
  "true_words = [''1'', ''true'', ''t'', ''yes'', ''y'', ''on'', ''enable'', ''enabled'', ''found'']"

definition false_words :: "string list" where
  "false_words = [''0'', ''false'', ''f'', ''no'', ''n'', ''off'', ''disable'', ''disabled'', ''notfound'', ''none'', ''null'',
     ''nil'', ''undefined'', ''n/a'']"

definition str2bool :: "pyval \<Rightarrow> py_error + bool" where
  "str2bool value =
     (if \<not> truthy value then Inr False
      else case value of
             PStr s \<Rightarrow>
               let w = py_lower (py_strip s)
               in if w \<in> set true_words then Inr True else if w \<in> set false_words then Inr False else Inl ValueError
           | _ \<Rightarrow> Inl ValueError)"

text \<open>The pattern \<open>^\s*Name:\s+(gfx[0-9a-z]+)$\<close> without regard to case; the architecture when it matches.\<close>

definition arch_char :: "char \<Rightarrow> bool" where
  "arch_char c \<longleftrightarrow> is_digit (lower_char c) \<or> CHR ''a'' \<le> lower_char c \<and> lower_char c \<le> CHR ''z''"

definition arch_of_line :: "string \<Rightarrow> string option" where
  "arch_of_line l =
     (let s = dropWhile is_space l
      in if startswith (py_lower s) ''name:''
         then let r = drop 5 s; v = dropWhile is_space r
              in if r \<noteq> [] \<and> is_space (hd r) \<and> startswith (py_lower v) ''gfx'' \<and> drop 3 v \<noteq> [] \<and> list_all arch_char (drop 3 v)
                 then Some v else None
         else None)"

definition get_visible_gpu_count :: "string \<Rightarrow> nat" where
  "get_visible_gpu_count out = length (filter (\<lambda>l. arch_of_line (py_strip l) \<noteq> None) (splitlines out))"

text \<open>With \<open>check=True\<close> a failing \<open>rocminfo\<close> raises \<open>CalledProcessError\<close>; no match raises \<open>RuntimeError\<close>.\<close>

datatype rocminfo_error = RocminfoFailed | NoArchitecture

definition get_first_gpu_architecture :: "int \<Rightarrow> string \<Rightarrow> rocminfo_error + string" where
  "get_first_gpu_architecture rc out =
     (if rc \<noteq> 0 then Inl RocminfoFailed
      else case List.find (\<lambda>l. arch_of_line (py_strip l) \<noteq> None) (splitlines out) of
             None \<Rightarrow> Inl NoArchitecture
           | Some l \<Rightarrow> Inr (py_lower (the (arch_of_line (py_strip l)))))"

definition is_asan :: "getenv \<Rightarrow> bool" where
  "is_asan getenv = contains_str ''asan'' (case getenv ''ARTIFACT_GROUP'' of None \<Rightarrow> [] | Some s \<Rightarrow> s)"

subsection \<open>The client\<close>

datatype auth_method = GITHUB_TOKEN | GH_CLI | UNAUTHENTICATED

record github_api =
  gh_method :: "auth_method option"
  gh_token :: "string option"
  gh_cli :: "string option"

definition new_github_api :: github_api where
  "new_github_api = \<lparr>gh_method = None, gh_token = None, gh_cli = None\<rparr>"

text \<open>What a run of the \<open>gh\<close> tool and a request can come to. A body is \<open>None\<close> when it is not UTF-8.\<close>

datatype cli_outcome = CliTimeout | CliOSError | CliDone int string
datatype http_outcome = HttpOk "string option" | HttpError int string | NetworkError | HttpTimeout

record api_host =
  ah_getenv :: getenv
  ah_which :: "string \<Rightarrow> string option"
  ah_auth_status :: "string \<Rightarrow> cli_outcome"
  ah_gh_api :: "string \<Rightarrow> string \<Rightarrow> cli_outcome"
  ah_urlopen :: "string \<Rightarrow> (string \<times> string) list \<Rightarrow> http_outcome"
  ah_loads :: "string \<Rightarrow> pyval option"

definition detect_auth_method :: "api_host \<Rightarrow> github_api \<Rightarrow> auth_method \<times> github_api" where
  "detect_auth_method h api =
     (let token = (case ah_getenv h ''GITHUB_TOKEN'' of None \<Rightarrow> [] | Some t \<Rightarrow> t)
      in if token \<noteq> [] then (GITHUB_TOKEN, api\<lparr>gh_token := Some token\<rparr>)
         else case ah_which h ''gh'' of
                None \<Rightarrow> (UNAUTHENTICATED, api)
              | Some path \<Rightarrow>
                  (case ah_auth_status h path of
                     CliDone rc _ \<Rightarrow> if rc = 0 then (GH_CLI, api\<lparr>gh_cli := Some path\<rparr>) else (UNAUTHENTICATED, api)
                   | _ \<Rightarrow> (UNAUTHENTICATED, api)))"

definition get_auth_method :: "api_host \<Rightarrow> github_api \<Rightarrow> auth_method \<times> github_api" where
  "get_auth_method h api =
     (case gh_method api of
        Some m \<Rightarrow> (m, api)
      | None \<Rightarrow> (case detect_auth_method h api of (m, api') \<Rightarrow> (m, api'\<lparr>gh_method := Some m\<rparr>)))"

definition is_authenticated :: "api_host \<Rightarrow> github_api \<Rightarrow> bool \<times> github_api" where
  "is_authenticated h api = (case get_auth_method h api of (m, api') \<Rightarrow> (m \<noteq> UNAUTHENTICATED, api'))"

definition get_request_headers :: "api_host \<Rightarrow> github_api \<Rightarrow> (string \<times> string) list \<times> github_api" where
  "get_request_headers h api =
     (case get_auth_method h api of (m, api') \<Rightarrow>
        ([(''Accept'', ''application/vnd.github+json''), (''X-GitHub-Api-Version'', ''2022-11-28'')] @
           (if m = GITHUB_TOKEN
            then [(''Authorization'', ''Bearer '' @ (case gh_token api' of None \<Rightarrow> ''None'' | Some t \<Rightarrow> t))] else []),
         api'))"

text \<open>
  The failures that \<open>GitHubAPIError\<close> reports, by its message, and the exceptions that get past it: the assertion on the
  path of the tool and the \<open>UnicodeDecodeError\<close> (a \<open>ValueError\<close>) of a body that is not UTF-8.
\<close>

datatype api_failure =
    CliTimedOut | CliNotStarted | CliFailed | CliEmpty | BadJson
  | RateLimited | Forbidden | NotFound | HttpStatus int | Network | TimedOut
  | UnexpectedContents | NotBase64 | NotDecodable

datatype api_error = GitHubAPIError api_failure | Raised py_error | AssertionFailed

definition api_path :: "string \<Rightarrow> string" where
  "api_path url = (let p = ''https://api.github.com'' in if startswith url p then drop (length p) url else url)"

definition send_request_via_gh_cli :: "api_host \<Rightarrow> github_api \<Rightarrow> string \<Rightarrow> api_error + pyval" where
  "send_request_via_gh_cli h api url =
     (case gh_cli api of
        None \<Rightarrow> Inl AssertionFailed
      | Some path \<Rightarrow>
          (case ah_gh_api h path (api_path url) of
             CliTimeout \<Rightarrow> Inl (GitHubAPIError CliTimedOut)
           | CliOSError \<Rightarrow> Inl (GitHubAPIError CliNotStarted)
           | CliDone rc out \<Rightarrow>
               if rc \<noteq> 0 then Inl (GitHubAPIError CliFailed)
               else if out = [] then Inl (GitHubAPIError CliEmpty)
               else case ah_loads h out of None \<Rightarrow> Inl (GitHubAPIError BadJson) | Some v \<Rightarrow> Inr v))"

definition send_request_via_rest_api :: "api_host \<Rightarrow> github_api \<Rightarrow> string \<Rightarrow> (api_error + pyval) \<times> github_api" where
  "send_request_via_rest_api h api url =
     (case get_request_headers h api of (headers, api') \<Rightarrow>
        (case ah_urlopen h url headers of
           HttpError code body \<Rightarrow>
             Inl (GitHubAPIError
               (if code = 403 then if contains_str ''rate limit'' (py_lower body) then RateLimited else Forbidden
                else if code = 404 then NotFound else HttpStatus code))
         | NetworkError \<Rightarrow> Inl (GitHubAPIError Network)
         | HttpTimeout \<Rightarrow> Inl (GitHubAPIError TimedOut)
         | HttpOk None \<Rightarrow> Inl (Raised ValueError)
         | HttpOk (Some body) \<Rightarrow> (case ah_loads h body of None \<Rightarrow> Inl (GitHubAPIError BadJson) | Some v \<Rightarrow> Inr v),
         api'))"

definition send_request :: "api_host \<Rightarrow> string \<Rightarrow> github_api \<Rightarrow> (api_error + pyval) \<times> github_api" where
  "send_request h url api =
     (case get_auth_method h api of (m, api') \<Rightarrow>
        if m = GH_CLI then (send_request_via_gh_cli h api' url, api') else send_request_via_rest_api h api' url)"

subsection \<open>Queries\<close>

text \<open>\<open>urllib.parse.quote\<close> on ASCII: letters, digits, \<open>_.-~\<close> and the safe characters stay, others become \<open>%XX\<close>.\<close>

definition hex_digit :: "nat \<Rightarrow> char" where
  "hex_digit n = (if n < 10 then digit_char n else char_of (55 + n))"

definition url_safe :: "char \<Rightarrow> bool" where
  "url_safe c \<longleftrightarrow> is_digit c \<or> c \<in> set ''_.-~'' \<or>
     (let n = of_char c :: nat in 65 \<le> n \<and> n \<le> 90 \<or> 97 \<le> n \<and> n \<le> 122)"

definition quote_char :: "string \<Rightarrow> char \<Rightarrow> string" where
  "quote_char safe c =
     (if url_safe c \<or> c \<in> set safe then [c]
      else [CHR 0x25, hex_digit (of_char c div 16), hex_digit (of_char c mod 16)])"

definition url_quote :: "string \<Rightarrow> string \<Rightarrow> string" where
  "url_quote safe s = concat (map (quote_char safe) s)"

definition api_repos :: string where
  "api_repos = ''https://api.github.com/repos/''"

type_synonym sender = "string \<Rightarrow> api_error + pyval"

definition gha_query_workflow_run_by_id :: "sender \<Rightarrow> string \<Rightarrow> string \<Rightarrow> api_error + pyval" where
  "gha_query_workflow_run_by_id send repo run_id = send (api_repos @ repo @ ''/actions/runs/'' @ run_id)"

text \<open>\<open>v[0]\<close> of a list or a text; a dictionary has no key \<open>0\<close>.\<close>

fun first_item :: "pyval \<Rightarrow> py_error + pyval" where
  "first_item (PList (v # _)) = Inr v"
| "first_item (PStr (c # _)) = Inr (PStr [c])"
| "first_item (PDict _) = Inl KeyError"
| "first_item (PList []) = Inl IndexError"
| "first_item (PStr []) = Inl IndexError"
| "first_item _ = Inl TypeError"

text \<open>\<open>v[k]\<close> for a text \<open>k\<close>.\<close>

fun key_item :: "string \<Rightarrow> pyval \<Rightarrow> py_error + pyval" where
  "key_item k (PDict d) = (case map_of d k of None \<Rightarrow> Inl KeyError | Some v \<Rightarrow> Inr v)"
| "key_item k _ = Inl TypeError"

definition raised :: "py_error + 'a \<Rightarrow> api_error + 'a" where
  "raised r = map_sum Raised id r"

definition gha_query_last_successful_workflow_run :: "sender \<Rightarrow> string \<Rightarrow> string \<Rightarrow> string \<Rightarrow> api_error + pyval option" where
  "gha_query_last_successful_workflow_run send repo workflow branch =
     (case send (api_repos @ repo @ ''/actions/workflows/'' @ workflow @ ''/runs?status=success&branch='' @ branch @
                 ''&per_page=100&sort=created&direction=desc'') of
        Inl e \<Rightarrow> Inl e
      | Inr response \<Rightarrow>
          if \<not> truthy response then Inr None
          else raised (case py_get response ''workflow_runs'' PNone of
                 Inl e \<Rightarrow> Inl e
               | Inr runs \<Rightarrow> if truthy runs then map_sum id Some (first_item runs) else Inr None))"

definition gha_query_recent_branch_commits :: "sender \<Rightarrow> string \<Rightarrow> string \<Rightarrow> int \<Rightarrow> api_error + pyval list" where
  "gha_query_recent_branch_commits send repo branch max_count =
     (case send (api_repos @ repo @ ''/commits?sha='' @ branch @ ''&per_page='' @ show_int max_count) of
        Inl e \<Rightarrow> Inl e
      | Inr response \<Rightarrow>
          raised (case py_list response of Inl e \<Rightarrow> Inl e | Inr commits \<Rightarrow> mapM (key_item ''sha'') commits))"

definition gha_resolve_git_ref :: "sender \<Rightarrow> string \<Rightarrow> string \<Rightarrow> api_error + pyval" where
  "gha_resolve_git_ref send repo ref =
     (case send (api_repos @ repo @ ''/commits/'' @ url_quote [] ref) of
        Inl e \<Rightarrow> Inl e
      | Inr response \<Rightarrow> raised (key_item ''sha'' response))"

text \<open>\<open>b64\<close> is \<open>None\<close> for the \<open>binascii.Error\<close> of a text that is not base64.\<close>

definition gha_fetch_file_contents :: "sender \<Rightarrow> (string \<Rightarrow> string option) \<Rightarrow> string \<Rightarrow> string \<Rightarrow> string \<Rightarrow> api_error + string" where
  "gha_fetch_file_contents send b64 repo path ref =
     (case send (api_repos @ repo @ ''/contents/'' @ url_quote ''/'' path @ ''?ref='' @ url_quote [] ref) of
        Inl e \<Rightarrow> Inl e
      | Inr (PDict d) \<Rightarrow>
          if map_of d ''type'' \<noteq> Some (PStr ''file'') then Inl (GitHubAPIError UnexpectedContents)
          else if map_of d ''encoding'' \<noteq> Some (PStr ''base64'') then Inl (GitHubAPIError NotBase64)
          else (case map_of d ''content'' of
                  Some (PStr s) \<Rightarrow> (case b64 s of None \<Rightarrow> Inl (GitHubAPIError NotDecodable) | Some bytes \<Rightarrow> Inr bytes)
                | _ \<Rightarrow> Inl (GitHubAPIError NotBase64))
      | Inr _ \<Rightarrow> Inl (GitHubAPIError UnexpectedContents))"

text \<open>\<open>decode\<close> is \<open>None\<close> for a \<open>UnicodeDecodeError\<close>.\<close>

definition gha_fetch_text_file_contents ::
    "sender \<Rightarrow> (string \<Rightarrow> string option) \<Rightarrow> (string \<Rightarrow> string option) \<Rightarrow> string \<Rightarrow> string \<Rightarrow> string \<Rightarrow> api_error + string" where
  "gha_fetch_text_file_contents send b64 decode repo path ref =
     (case gha_fetch_file_contents send b64 repo path ref of
        Inl e \<Rightarrow> Inl e
      | Inr bytes \<Rightarrow> (case decode bytes of None \<Rightarrow> Inl (GitHubAPIError NotDecodable) | Some s \<Rightarrow> Inr s))"

subsection \<open>The files of the workflow commands\<close>

lemma read_vars_append: "read_vars (a @ newline # b) =
    (case read_vars a of None \<Rightarrow> None | Some xs \<Rightarrow> map_option (\<lambda>ys. xs @ ys) (read_vars b))"
proof -
  have "parse_lines (ls @ ms) = (case parse_lines ls of None \<Rightarrow> None | Some xs \<Rightarrow> map_option (\<lambda>ys. xs @ ys) (parse_lines ms))" for ls ms
  proof (induction ls)
    case Nil
    show ?case by (cases "parse_lines ms") simp_all
  next
    case (Cons l ls)
    then show ?case by (cases "parse_lines ms") (auto split: option.splits)
  qed
  then show ?thesis unfolding read_vars_def split_on_append_sep .
qed

lemma read_vars_Nil [simp]: "read_vars [] = Some []"
  by (simp add: read_vars_def)

text \<open>A name has no \<open>=\<close>, and neither name nor value has a line break.\<close>

definition one_line :: "string \<times> gha_value \<Rightarrow> bool" where
  "one_line kv \<longleftrightarrow> CHR ''='' \<notin> set (fst kv) \<and> newline \<notin> set (fst kv) \<and> newline \<notin> set (value_str (snd kv))"

lemma read_vars_line:
  assumes "one_line (k, v)"
  shows "read_vars (k @ ''='' @ value_str v) = Some [(k, value_str v)]"
proof -
  have "newline \<notin> set (k @ ''='' @ value_str v)" using assms by (simp add: one_line_def)
  then show ?thesis
    using assms by (simp add: read_vars_def split_on_single parse_line_def split1_append one_line_def)
qed

lemma read_var_lines:
  "list_all one_line vars \<Longrightarrow> read_vars (var_lines vars) = Some (map (\<lambda>(k, v). (k, value_str v)) vars)"
proof (induction vars)
  case (Cons kv vars)
  obtain k v where kv: "kv = (k, v)" by (cases kv)
  have "var_lines (kv # vars) = (k @ ''='' @ value_str v) @ newline # var_lines vars" by (simp add: var_lines_def kv)
  with Cons kv show ?case by (simp only: read_vars_append) (simp add: read_vars_line [simplified])
qed (simp add: var_lines_def)

text \<open>What is in a file made of whole lines stays readable when lines are added.\<close>

lemma read_vars_whole:
  assumes "s = [] \<or> last s = newline" and "read_vars s = Some xs"
  shows "read_vars (s @ t) = map_option (\<lambda>ys. xs @ ys) (read_vars t)"
proof (cases "s = []")
  case True
  with assms show ?thesis by (simp add: option.map_ident)
next
  case False
  with assms(1) have "s = butlast s @ [newline]" by (metis append_butlast_last_id)
  then obtain r where r: "s = r @ [newline]" ..
  with assms(2) read_vars_append [of r "[]"] have "read_vars r = Some xs" by (auto split: option.splits)
  then show ?thesis using read_vars_append [of r t] by (simp add: r)
qed

text \<open>
  Outputs arrive: when the output file is set and can be opened, names have no \<open>=\<close> and nothing has a line break, the
  variables of one call are read back as they were given, after those of earlier calls; no other file changes.
\<close>

theorem outputs_round_trip:
  assumes "getenv ''GITHUB_OUTPUT'' = Some p" and "p \<noteq> []" and "can p"
    and "list_all one_line vars" and "list_all (\<lambda>(_, v). is_text v) vars"
    and "fs p = [] \<or> last (fs p) = newline" and "read_vars (fs p) = Some earlier"
  shows "\<exists>fs'. gha_set_output getenv can vars fs = Inr fs' \<and>
    read_vars (fs' p) = Some (earlier @ map (\<lambda>(k, v). (k, value_str v)) vars) \<and>
    (fs' p = [] \<or> last (fs' p) = newline) \<and> (\<forall>q. q \<noteq> p \<longrightarrow> fs' q = fs q)"
proof -
  have "var_lines vars = [] \<or> last (var_lines vars) = newline"
    by (induction vars rule: rev_induct) (auto simp: var_lines_def case_prod_beta)
  then have "fs p @ var_lines vars = [] \<or> last (fs p @ var_lines vars) = newline"
    using assms(6) by (auto simp: last_append)
  then show ?thesis
    using assms read_vars_whole [OF assms(6,7), of "var_lines vars"]
    by (simp add: gha_set_output_def gha_append_def append_file_def read_var_lines)
qed

definition demo_getenv :: getenv where
  "demo_getenv = map_of [(''GITHUB_OUTPUT'', ''/tmp/out''), (''GITHUB_PATH'', ''/tmp/path'')]"

theorem outputs_round_trip_witness:
  "\<exists>fs'. gha_set_output demo_getenv (\<lambda>_. True) [(''has_tests'', Text ''true'')] (\<lambda>_. []) = Inr fs' \<and>
     read_vars (fs' ''/tmp/out'') = Some [(''has_tests'', ''true'')]"
  using outputs_round_trip [of demo_getenv "''/tmp/out''" "\<lambda>_. True" "[(''has_tests'', Text ''true'')]" "\<lambda>_. []" "[]"]
  by (auto simp: demo_getenv_def one_line_def)

text \<open>
  A value of several lines is not readable: from its second line on it is taken for further variables, and a line without
  \<open>=\<close> makes the whole file unreadable, whatever was written before and is written after it.
\<close>

theorem multi_line_output_breaks:
  assumes "newline \<notin> set second" and "second \<noteq> []" and "CHR ''='' \<notin> set second"
  shows "read_vars (earlier @ var_lines [(k, Text (first @ newline # second))] @ later) = None"
proof -
  have s: "earlier @ var_lines [(k, Text (first @ newline # second))] @ later
      = (earlier @ k @ ''='' @ first) @ newline # (second @ newline # later)" by (simp add: var_lines_def)
  have "read_vars second = None"
    using assms by (simp add: read_vars_def split_on_single parse_line_def split1_notin)
  then have "read_vars (second @ newline # later) = None" by (simp add: read_vars_append)
  then show ?thesis unfolding s read_vars_append [of "earlier @ k @ ''='' @ first"] by (auto split: option.splits)
qed

theorem multi_line_output_breaks_witness:
  "read_vars (var_lines [(''non_sarif_paths'', Text (''a.csv'' @ newline # ''a.json''))]) = None"
  using multi_line_output_breaks [of "''a.json''" "[]" "''non_sarif_paths''" "''a.csv''" "[]"] by simp

text \<open>
  Two calls of \<open>gha_add_to_path\<close> do not add two entries: no line break is written, so the file has the two paths as one
  line.
\<close>

theorem added_paths_merge:
  assumes "getenv ''GITHUB_PATH'' = Some p" and "p \<noteq> []" and "can p" and "fs p = []"
    and "newline \<notin> set a" and "newline \<notin> set b"
  shows "\<exists>fs1 fs2. gha_add_to_path getenv can a fs = Inr fs1 \<and> gha_add_to_path getenv can b fs1 = Inr fs2 \<and>
    split_on newline (fs2 p) = [a @ b]"
  using assms by (simp add: gha_add_to_path_def gha_append_def append_file_def split_on_single)

theorem added_paths_merge_witness:
  "\<exists>fs1 fs2. gha_add_to_path demo_getenv (\<lambda>_. True) ''/opt/a'' (\<lambda>_. []) = Inr fs1 \<and>
     gha_add_to_path demo_getenv (\<lambda>_. True) ''/opt/b'' fs1 = Inr fs2 \<and> split_on newline (fs2 ''/tmp/path'') = [''/opt/a/opt/b'']"
  using added_paths_merge [of demo_getenv "''/tmp/path''" "\<lambda>_. True" "\<lambda>_. []" "''/opt/a''" "''/opt/b''"]
  by (simp add: demo_getenv_def)

subsection \<open>Facts on the client\<close>

text \<open>A client that has chosen a method has what the method needs.\<close>

definition api_ok :: "github_api \<Rightarrow> bool" where
  "api_ok api \<longleftrightarrow>
     (case gh_method api of
        Some GITHUB_TOKEN \<Rightarrow> (\<exists>t. gh_token api = Some t \<and> t \<noteq> [])
      | Some GH_CLI \<Rightarrow> gh_cli api \<noteq> None
      | _ \<Rightarrow> True)"

lemma new_github_api_ok: "api_ok new_github_api"
  by (simp add: api_ok_def new_github_api_def)

lemma api_ok_cli: "api_ok api \<Longrightarrow> gh_method api = Some GH_CLI \<Longrightarrow> gh_cli api \<noteq> None"
  by (simp add: api_ok_def)

lemma get_auth_method_ok:
  assumes "api_ok api" and "get_auth_method h api = (m, api')"
  shows "api_ok api' \<and> gh_method api' = Some m \<and> get_auth_method h' api' = (m, api')"
  using assms
  by (auto simp: get_auth_method_def detect_auth_method_def api_ok_def Let_def
      split: option.splits if_splits cli_outcome.splits auth_method.splits)

text \<open>
  A request never trips over the client's own state and reports failures as \<open>GitHubAPIError\<close>, with one exception: a body
  that is not UTF-8 lets the decoding error through. The choice of the authentication method is made by the first request
  and kept for the life of the client, whatever the environment is later; a token is sent exactly when one was found.
\<close>

theorem send_request_contract:
  assumes "api_ok api" and "send_request h url api = (r, api')"
  shows "api_ok api' \<and> (\<forall>h'. \<exists>m. get_auth_method h' api' = (m, api')) \<and>
    (case r of
       Inr v \<Rightarrow> True
     | Inl (GitHubAPIError f) \<Rightarrow> True
     | Inl AssertionFailed \<Rightarrow> False
     | Inl (Raised e) \<Rightarrow> e = ValueError \<and> gh_method api' \<noteq> Some GH_CLI \<and>
         (\<exists>hs. ah_urlopen h url hs = HttpOk None \<and> (''Authorization'' \<in> fst ` set hs \<longleftrightarrow> gh_method api' = Some GITHUB_TOKEN)))"
proof -
  obtain m api1 where m: "get_auth_method h api = (m, api1)" by (cases "get_auth_method h api")
  note ok = get_auth_method_ok [OF assms(1) m]
  have cli: "gh_cli api1 \<noteq> None" if "m = GH_CLI" using ok [of h] that api_ok_cli by blast
  show ?thesis
  proof (cases "m = GH_CLI")
    case True
    then have "r = send_request_via_gh_cli h api1 url" "api' = api1" using assms(2) m by (auto simp: send_request_def)
    moreover obtain p where "gh_cli api1 = Some p" using cli True by blast
    ultimately show ?thesis using ok by (auto simp: send_request_via_gh_cli_def split: cli_outcome.splits option.splits if_splits)
  next
    case False
    then have r: "(r, api') = send_request_via_rest_api h api1 url" using assms(2) m by (simp add: send_request_def)
    obtain hs where hs: "get_request_headers h api1 = (hs, api1)" "''Authorization'' \<in> fst ` set hs \<longleftrightarrow> m = GITHUB_TOKEN"
      using ok [of h] by (auto simp: get_request_headers_def)
    then have "api' = api1" "r = Inl (Raised e) \<Longrightarrow> e = ValueError \<and> ah_urlopen h url hs = HttpOk None" "r \<noteq> Inl AssertionFailed" for e
      using r by (auto simp: send_request_via_rest_api_def split: http_outcome.splits option.splits)
    note rest = this
    have kept: "api_ok api1" "gh_method api1 = Some m" "\<forall>h'. \<exists>m. get_auth_method h' api1 = (m, api1)" using ok by blast+
    show ?thesis
    proof (cases r)
      case (Inl e)
      then show ?thesis using rest kept hs(2) False by (cases e) auto
    qed (use rest kept in simp)
  qed
qed

definition demo_api_host :: api_host where
  "demo_api_host = \<lparr>ah_getenv = (\<lambda>_. None), ah_which = (\<lambda>_. None), ah_auth_status = (\<lambda>_. CliOSError),
     ah_gh_api = (\<lambda>_ _. CliOSError), ah_urlopen = (\<lambda>_ _. HttpOk None), ah_loads = (\<lambda>_. None)\<rparr>"

theorem send_request_contract_witness:
  "\<exists>api'. send_request demo_api_host api_repos new_github_api = (Inl (Raised ValueError), api') \<and> gh_method api' \<noteq> Some GH_CLI"
proof -
  obtain r api' where r: "send_request demo_api_host api_repos new_github_api = (r, api')" by fastforce
  have "r = Inl (Raised ValueError)"
    using r by (simp add: send_request_def send_request_via_rest_api_def get_request_headers_def get_auth_method_def
        detect_auth_method_def demo_api_host_def new_github_api_def)
  with r send_request_contract [OF new_github_api_ok r] show ?thesis by simp
qed

subsection \<open>Quoting in a URL\<close>

definition hex_val :: "char \<Rightarrow> nat" where
  "hex_val c = (if is_digit c then digit_val c else of_char c - 55)"

fun url_unquote :: "string \<Rightarrow> string" where
  "url_unquote (p # a # b # s) =
     (if p = CHR 0x25 then char_of (16 * hex_val a + hex_val b) # url_unquote s else p # url_unquote (a # b # s))"
| "url_unquote s = s"

lemma hex_val_digit: "n < 16 \<Longrightarrow> hex_val (hex_digit n) = n"
  by (cases "n < 10") (auto simp: hex_val_def hex_digit_def digit_val_char, simp add: is_digit_def)

lemma url_unquote_plain: "c \<noteq> CHR 0x25 \<Longrightarrow> url_unquote (c # s) = c # url_unquote s"
  by (cases s rule: url_unquote.cases; cases s) auto

lemma percent_not_safe: "\<not> url_safe CHR 0x25"
  by (simp add: url_safe_def is_digit_def)

text \<open>
  A reference or path put into a URL comes out of it again, and the URL has no character but the unreserved ones, the
  percent sign and those declared safe, so neither \<open>?\<close> nor \<open>#\<close> nor \<open>/\<close> of a branch name changes its meaning.
\<close>

theorem url_quote_round_trip:
  assumes "CHR 0x25 \<notin> set safe"
  shows "url_unquote (url_quote safe s) = s \<and> (\<forall>c. c \<in> set (url_quote safe s) \<longrightarrow> url_safe c \<or> c = CHR 0x25 \<or> c \<in> set safe)"
proof
  show "url_unquote (url_quote safe s) = s"
  proof (induction s)
    case (Cons c s)
    have "of_char c div 16 < (16 :: nat)" using nat_of_char_less_256 [of c] by linarith
    moreover have "of_char c mod 16 < (16 :: nat)" by simp
    ultimately have "char_of (16 * hex_val (hex_digit (of_char c div 16)) + hex_val (hex_digit (of_char c mod 16))) = c"
      by (simp add: hex_val_digit)
    moreover have "c \<noteq> CHR 0x25" if "url_safe c \<or> c \<in> set safe" using that assms percent_not_safe by blast
    ultimately show ?case
      using Cons url_unquote_plain [of c] by (auto simp: url_quote_def quote_char_def)
  qed (simp add: url_quote_def)
  have "url_safe (hex_digit n)" if "n < 16" for n
    using that by (auto simp: hex_digit_def url_safe_def Let_def)
  then show "\<forall>c. c \<in> set (url_quote safe s) \<longrightarrow> url_safe c \<or> c = CHR 0x25 \<or> c \<in> set safe"
    by (auto simp: url_quote_def quote_char_def div_less_iff_less_mult split: if_splits)
qed

theorem url_quote_round_trip_witness: "url_unquote (url_quote [] ''users/a b'') = ''users/a b''"
  using url_quote_round_trip [of "[]" "''users/a b''"] by simp

text \<open>The two readers of \<open>rocminfo\<close> agree: there is a first architecture exactly when the count is positive.\<close>

lemma first_architecture_iff: "(\<exists>a. get_first_gpu_architecture 0 out = Inr a) \<longleftrightarrow> 0 < get_visible_gpu_count out"
proof -
  have "List.find P xs \<noteq> None \<longleftrightarrow> filter P xs \<noteq> []" for P and xs :: "string list" by (induction xs) auto
  from this [of "\<lambda>l. arch_of_line (py_strip l) \<noteq> None" "splitlines out"] show ?thesis
    by (auto simp: get_first_gpu_architecture_def get_visible_gpu_count_def split: option.split)
qed

end
