(* ===== verification/ChangedTests.thy ===== *)
theory ChangedTests
  imports GhaApi Taxonomy
begin

text \<open>
  \<open>build_tools/github_actions/detect_changed_tests.py\<close>: which tests a pull request has to run, from the list of its
  changed files; and the fetch depth of \<open>compute_pr_depth.py\<close>. The names of the test files of a directory and the
  output of \<open>git diff\<close> are parameters.
\<close>

subsection \<open>Paths\<close>

text \<open>\<open>PurePosixPath(s).parts\<close>, and \<open>suffix\<close> of a name.\<close>

definition posix_parts :: "string \<Rightarrow> string list" where
  "posix_parts s = (if slashes s = [] then [] else [slashes s]) @ path_parts s"

definition name_suffix :: "string \<Rightarrow> string" where
  "name_suffix name =
     (case split1 CHR ''.'' (rev name) of
        (r, Some q) \<Rightarrow> if q \<noteq> [] \<and> r \<noteq> [] then CHR ''.'' # rev r else []
      | (_, None) \<Rightarrow> [])"

definition all_e2e_dirs :: "string list" where
  "all_e2e_dirs = sort (map (\<lambda>(k, _). k @ ''/'') category_profiles)"

definition cmake_dirs :: "string list" where
  "cmake_dirs = [''tests/e2e/compiler/'', ''tests/e2e/hipblaslt/'', ''tests/e2e/hwq_heuristic/'', ''tests/e2e/rocprim/'',
     ''tests/e2e/rocm_libs/'', ''tests/e2e/hpc/quda/'', ''tests/e2e/recovery/criu/'']"

definition critical_fw_dirs :: "string list" where
  "critical_fw_dirs = [''framework/executors'', ''framework/builder'', ''framework/common'', ''framework/plugins'', ''framework/nodes'']"

subsection \<open>Helpers\<close>

text \<open>The pattern \<open>^\+\s{4}"(tests/e2e/[^"]+)"\s*:\s*\[\<close>: the key when the line matches.\<close>

definition profile_key :: "string \<Rightarrow> string option" where
  "profile_key l =
     (let body = drop 6 l; k = takeWhile (\<lambda>c. c \<noteq> dquote) body; r = dropWhile (\<lambda>c. c \<noteq> dquote) body;
          r2 = dropWhile is_space (drop 1 r); r3 = dropWhile is_space (drop 1 r2)
      in if startswith l ''+'' \<and> length (take 4 (drop 1 l)) = 4 \<and> list_all is_space (take 4 (drop 1 l)) \<and>
            startswith (drop 5 l) [dquote] \<and> startswith k ''tests/e2e/'' \<and> length k > length ''tests/e2e/'' \<and>
            r \<noteq> [] \<and> startswith r2 '':'' \<and> startswith r3 ''[''
         then Some k else None)"

definition parse_taxonomy_diff :: "string \<Rightarrow> string list" where
  "parse_taxonomy_diff diff = map (\<lambda>k. k @ ''/'') (List.map_filter profile_key (splitlines diff))"

text \<open>\<open>tests_in d\<close>: the names in directory \<open>d\<close> that match \<open>test_*.py\<close>.\<close>

definition smoke_paths :: "(string \<Rightarrow> string list) \<Rightarrow> string list" where
  "smoke_paths tests_in =
     List.map_filter (\<lambda>area. case sort (tests_in area) of [] \<Rightarrow> None | f # _ \<Rightarrow> Some (area @ ''/'' @ f))
       (sort (map fst category_profiles))"

definition e2e_area :: "string \<Rightarrow> string option" where
  "e2e_area path =
     (case posix_parts path of
        t # e # rest \<Rightarrow>
          if rest = [] \<or> t \<noteq> ''tests'' \<or> e \<noteq> ''e2e'' \<or> butlast rest = [] then None
          else Some (''tests/e2e/'' @ join_with ''/'' (butlast rest))
      | _ \<Rightarrow> None)"

definition is_test_file :: "string \<Rightarrow> bool" where
  "is_test_file path \<longleftrightarrow> startswith (path_name path) ''test_'' \<and> name_suffix (path_name path) = ''.py''"

definition is_conftest :: "string \<Rightarrow> bool" where
  "is_conftest path \<longleftrightarrow> path_name path = ''conftest.py''"

definition is_workload_or_src :: "string \<Rightarrow> bool" where
  "is_workload_or_src path \<longleftrightarrow> startswith (path_name path) ''_'' \<or> ''src'' \<in> set (posix_parts path)"

definition classify_e2e_path :: "string \<Rightarrow> string \<Rightarrow> string option" where
  "classify_e2e_path path raw =
     (case e2e_area path of
        None \<Rightarrow> None
      | Some area \<Rightarrow>
          if is_test_file path then Some (py_strip raw)
          else if is_conftest path \<or> is_workload_or_src path \<or> name_suffix (path_name path) = ''.py'' \<or>
                  name_suffix (path_name path) \<in> set [''.cpp'', ''.hip'', ''.h'', ''.hpp'', ''.cu'', ''.cmake''] \<or>
                  path_name path = ''CMakeLists.txt''
          then Some (area @ ''/'') else None)"

definition is_global_conftest :: "string \<Rightarrow> bool" where
  "is_global_conftest path \<longleftrightarrow>
     (let parts = posix_parts path
      in path_name path = ''conftest.py'' \<and>
         (length parts = 1 \<or> (length parts = 2 \<and> parts ! 0 = ''tests'') \<or>
          (length parts = 3 \<and> parts ! 0 = ''tests'' \<and> parts ! 1 = ''e2e'')))"

subsection \<open>The classification of the changed files\<close>

text \<open>The result is the pair the source returns and the two sets it updates in place.\<close>

definition classify_single_file ::
    "string \<Rightarrow> bool \<Rightarrow> string set \<Rightarrow> string set \<Rightarrow> (bool \<times> bool) \<times> string set \<times> string set" where
  "classify_single_file raw critical_fw_hit other_fw_files impacted =
     (let path = py_strip raw; parts = posix_parts path
      in if parts = [] then ((False, critical_fw_hit), other_fw_files, impacted)
         else if parts ! 0 = ''framework'' then
           (let fw_subdir = (if length parts > 1 then ''framework/'' @ parts ! 1 else ''framework'')
            in if fw_subdir \<in> set critical_fw_dirs then ((False, True), other_fw_files, impacted)
               else ((False, critical_fw_hit), insert (py_strip raw) other_fw_files, impacted))
         else if is_global_conftest path then ((True, critical_fw_hit), other_fw_files, impacted)
         else if length parts \<ge> 2 \<and> parts ! 0 = ''tests'' \<and> parts ! 1 = ''common'' then
           (if path_name path = ''_cmake_build.py'' then ((False, critical_fw_hit), other_fw_files, impacted \<union> set cmake_dirs)
            else ((True, critical_fw_hit), other_fw_files, impacted))
         else if parts ! 0 \<noteq> ''tests'' \<or> (length parts > 1 \<and> parts ! 1 \<noteq> ''e2e'') then
           ((False, critical_fw_hit), other_fw_files, impacted)
         else case classify_e2e_path path raw of
                None \<Rightarrow> ((False, critical_fw_hit), other_fw_files, impacted)
              | Some p \<Rightarrow> ((False, critical_fw_hit), other_fw_files, insert p impacted))"

definition taxonomy_path :: string where
  "taxonomy_path = ''framework/markers/taxonomy.py''"

definition resolve_framework_impacted :: "(string \<Rightarrow> string list) \<Rightarrow> string option \<Rightarrow> string set \<Rightarrow> string set" where
  "resolve_framework_impacted tests_in taxonomy_diff other_fw_files =
     (let new_dirs = (if taxonomy_path \<in> other_fw_files
                      then case taxonomy_diff of None \<Rightarrow> [] | Some d \<Rightarrow> parse_taxonomy_diff d else []);
          remaining = (if new_dirs \<noteq> [] then other_fw_files - {taxonomy_path} else other_fw_files)
      in set new_dirs \<union> (if remaining = {} then {} else set (smoke_paths tests_in)))"

definition deduplicate :: "string set \<Rightarrow> string list" where
  "deduplicate impacted =
     (let dirs = {p \<in> impacted. endswith p ''/''}; files = {p \<in> impacted. \<not> endswith p ''/''};
          filtered = {f \<in> files. \<not> (\<exists>d \<in> dirs. startswith f d)}
      in sorted_list_of_set (dirs \<union> filtered))"

text \<open>The loop over the changed files: it stops at the first one that asks for the full suite.\<close>

fun classify_files :: "string list \<Rightarrow> bool \<Rightarrow> string set \<Rightarrow> string set \<Rightarrow> (bool \<times> bool) \<times> string set \<times> string set" where
  "classify_files [] critical others impacted = ((False, critical), others, impacted)"
| "classify_files (raw # raws) critical others impacted =
     (case classify_single_file raw critical others impacted of
        ((triggered, critical'), others', impacted') \<Rightarrow>
          if triggered then ((True, critical'), others', impacted') else classify_files raws critical' others' impacted')"

definition detect_impacted_paths :: "(string \<Rightarrow> string list) \<Rightarrow> string option \<Rightarrow> string list \<Rightarrow> string list" where
  "detect_impacted_paths tests_in taxonomy_diff changed_files =
     (case classify_files changed_files False {} {} of
        ((full_suite, critical_fw_hit), other_fw_files, impacted) \<Rightarrow>
          let full = (full_suite \<or> critical_fw_hit);
              impacted' = (if \<not> critical_fw_hit \<and> other_fw_files \<noteq> {} \<and> \<not> full_suite
                           then impacted \<union> resolve_framework_impacted tests_in taxonomy_diff other_fw_files else impacted)
          in if full then sort all_e2e_dirs else deduplicate impacted')"

text \<open>
  \<open>main\<close>, up to the console output: the variables it sets. \<open>git\<close> is the output of \<open>git diff\<close> between two commits for
  the taxonomy.
\<close>

definition env_get :: "getenv \<Rightarrow> string \<Rightarrow> string \<Rightarrow> string" where
  "env_get getenv var dflt = (case getenv var of None \<Rightarrow> dflt | Some s \<Rightarrow> s)"

definition changed_tests_main ::
    "getenv \<Rightarrow> (string \<Rightarrow> string \<Rightarrow> py_error + string) \<Rightarrow> (string \<Rightarrow> string list) \<Rightarrow> py_error + (string \<times> gha_value) list" where
  "changed_tests_main getenv git tests_in =
     (let changed_files = filter (\<lambda>l. py_strip l \<noteq> []) (splitlines (py_strip (env_get getenv ''CHANGED_FILES'' [])));
          none = [(''test_paths'', Text []), (''has_tests'', Text ''false'')]
      in if changed_files = [] then Inr none
         else
           let fw_files = filter (\<lambda>f. startswith f ''framework/'') (map py_strip changed_files);
               base_sha = py_strip (env_get getenv ''BASE_SHA'' []); head_sha = py_strip (env_get getenv ''HEAD_SHA'' ''HEAD'');
               diff = (if taxonomy_path \<in> set fw_files \<and> base_sha \<noteq> [] then map_sum id Some (git base_sha head_sha) else Inr None)
           in case diff of
                Inl e \<Rightarrow> Inl e
              | Inr taxonomy_diff \<Rightarrow>
                  let paths = detect_impacted_paths tests_in taxonomy_diff changed_files
                  in Inr (if paths = [] then none
                          else [(''test_paths'', Text (join_with '' '' paths)), (''has_tests'', Text ''true'')]))"

text \<open>\<open>compute_fetch_depth\<close>; \<open>isinstance(v, int)\<close> holds of booleans too.\<close>

definition compute_fetch_depth :: "pyval \<Rightarrow> py_error + string" where
  "compute_fetch_depth payload =
     map_sum id
       (\<lambda>pr. case pr of
          PDict d \<Rightarrow>
            (case map_of d ''commits'' of
               Some (PInt n) \<Rightarrow> if n \<le> 0 then ''0'' else show_int (n + 1)
             | Some (PBool b) \<Rightarrow> if b then ''2'' else ''0''
             | _ \<Rightarrow> ''0'')
        | _ \<Rightarrow> ''0'')
       (py_get payload ''pull_request'' PNone)"

subsection \<open>What is selected\<close>

text \<open>What one file asks for by itself.\<close>

definition triggers :: "string \<Rightarrow> bool" where
  "triggers raw = fst (fst (classify_single_file raw False {} {}))"

definition critical :: "string \<Rightarrow> bool" where
  "critical raw = snd (fst (classify_single_file raw False {} {}))"

definition fw_files_of :: "string \<Rightarrow> string set" where
  "fw_files_of raw = fst (snd (classify_single_file raw False {} {}))"

definition picks :: "string \<Rightarrow> string set" where
  "picks raw = snd (snd (classify_single_file raw False {} {}))"

lemmas verdict_defs = triggers_def critical_def fw_files_of_def picks_def

lemma classify_single_file_split:
  "classify_single_file raw c others impacted =
     ((triggers raw, c \<or> critical raw), others \<union> fw_files_of raw, impacted \<union> picks raw)"
  by (auto simp: verdict_defs classify_single_file_def Let_def split: option.split)

lemma finite_picks [simp]: "finite (picks raw)" "finite (fw_files_of raw)"
  by (auto simp: verdict_defs classify_single_file_def Let_def split: option.split)

text \<open>
  The specification: a set of changed files selects the full suite when one of them asks for it or is in a critical
  directory of the framework, and otherwise what its members pick and what the other framework files stand for.
\<close>

definition selection :: "(string \<Rightarrow> string list) \<Rightarrow> string option \<Rightarrow> string set \<Rightarrow> string list" where
  "selection tests_in taxonomy_diff changed =
     (if \<exists>raw \<in> changed. triggers raw \<or> critical raw then all_e2e_dirs
      else let others = (\<Union>raw \<in> changed. fw_files_of raw)
           in deduplicate ((\<Union>raw \<in> changed. picks raw) \<union>
                (if others = {} then {} else resolve_framework_impacted tests_in taxonomy_diff others)))"

lemma classify_files_result:
  assumes "classify_files raws c others impacted = ((full, c'), others', impacted')"
  shows "(full \<longleftrightarrow> (\<exists>raw \<in> set raws. triggers raw)) \<and>
    (\<not> full \<longrightarrow> (c' \<longleftrightarrow> c \<or> (\<exists>raw \<in> set raws. critical raw)) \<and>
       others' = others \<union> (\<Union>raw \<in> set raws. fw_files_of raw) \<and> impacted' = impacted \<union> (\<Union>raw \<in> set raws. picks raw))"
  using assms
proof (induction raws arbitrary: c others impacted)
  case (Cons raw raws)
  show ?case
  proof (cases "triggers raw")
    case True
    with Cons.prems show ?thesis by (auto simp: classify_single_file_split)
  next
    case False
    with Cons.prems have "classify_files raws (c \<or> critical raw) (others \<union> fw_files_of raw) (impacted \<union> picks raw)
        = ((full, c'), others', impacted')" by (simp add: classify_single_file_split)
    from Cons.IH [OF this] False show ?thesis by auto
  qed
qed simp

text \<open>
  The loop with its early exit implements the specification: the selection depends only on which files have
  changed, not on their order or on how often a file is listed.
\<close>

theorem detect_impacted_selection:
  "detect_impacted_paths tests_in taxonomy_diff changed_files = selection tests_in taxonomy_diff (set changed_files)"
proof -
  obtain full c others impacted where
    r: "classify_files changed_files False {} {} = ((full, c), others, impacted)" by (metis prod.exhaust)
  have "sort all_e2e_dirs = all_e2e_dirs" by (simp add: all_e2e_dirs_def sorted_sort_id)
  with classify_files_result [OF r] r show ?thesis
    by (cases full; cases c) (auto simp: detect_impacted_paths_def selection_def Let_def)
qed

lemma endswith_slash: "endswith (k @ ''/'') ''/''"
  by (simp add: endswith_def)

text \<open>A path is covered by a list of paths when it is one of them or lies below one that is a directory.\<close>

definition covered :: "string \<Rightarrow> string list \<Rightarrow> bool" where
  "covered p ps \<longleftrightarrow> (\<exists>q \<in> set ps. p = q \<or> (endswith q ''/'' \<and> startswith p q))"

lemma deduplicate_set: "finite S \<Longrightarrow> set (deduplicate S) =
    {p \<in> S. endswith p ''/'' \<or> \<not> (\<exists>d \<in> S. endswith d ''/'' \<and> startswith p d)}"
  by (auto simp: deduplicate_def Let_def)

lemma deduplicate_dir: "endswith d ''/'' \<Longrightarrow> deduplicate {d} = [d]"
proof -
  assume "endswith d ''/''"
  then have "{p \<in> {d}. endswith p ''/''} \<union> {f \<in> {p \<in> {d}. \<not> endswith p ''/''}. \<not> (\<exists>d \<in> {p \<in> {d}. endswith p ''/''}. startswith f d)} = {d}"
    by auto
  then show ?thesis unfolding deduplicate_def Let_def by simp
qed

lemma deduplicate_covers:
  assumes "finite S" and "p \<in> S"
  shows "covered p (deduplicate S)"
  using assms unfolding covered_def deduplicate_set [OF assms(1)] by blast

text \<open>
  The list handed to pytest is sorted, has no entry twice, keeps every directory and drops exactly the files that lie
  in one of the directories; every impacted path is still covered.
\<close>

theorem deduplicate_correct:
  assumes "finite S"
  shows "sorted (deduplicate S) \<and> distinct (deduplicate S) \<and> set (deduplicate S) \<subseteq> S \<and>
    (\<forall>p. p \<in> S \<longrightarrow> covered p (deduplicate S)) \<and>
    (\<forall>p q. p \<in> set (deduplicate S) \<longrightarrow> q \<in> set (deduplicate S) \<longrightarrow> \<not> endswith p ''/'' \<longrightarrow> endswith q ''/'' \<longrightarrow> \<not> startswith p q)"
  using deduplicate_covers [OF assms] deduplicate_set [OF assms] by (auto simp: deduplicate_def Let_def)

theorem deduplicate_correct_witness:
  "covered ''a/test_x.py'' (deduplicate {''a/'', ''a/test_x.py''}) \<and> ''a/test_x.py'' \<notin> set (deduplicate {''a/'', ''a/test_x.py''})"
proof -
  let ?S = "{''a/'', ''a/test_x.py''}"
  have "''a/'' \<in> set (deduplicate ?S)"
    by (subst deduplicate_set) (simp_all add: endswith_def)
  moreover have "\<not> endswith ''a/test_x.py'' ''/''" "endswith ''a/'' ''/''" "startswith ''a/test_x.py'' ''a/''"
    by (simp_all add: endswith_def startswith_def)
  ultimately show ?thesis using deduplicate_correct [of ?S] by blast
qed

lemma test_file_picked:
  assumes "e2e_area (py_strip raw) = Some area" and "is_test_file (py_strip raw)"
  shows "picks raw = {py_strip raw} \<and> \<not> triggers raw \<and> \<not> critical raw"
proof -
  have conf: "\<not> is_global_conftest (py_strip raw)" using assms(2)
    by (auto simp: is_global_conftest_def is_test_file_def startswith_def Let_def)
  obtain rest where parts: "posix_parts (py_strip raw) = ''tests'' # ''e2e'' # rest"
    using assms(1) by (auto simp: e2e_area_def split: list.splits if_splits)
  have "classify_e2e_path (py_strip raw) raw = Some (py_strip raw)" using assms by (simp add: classify_e2e_path_def)
  then show ?thesis using conf by (simp add: verdict_defs classify_single_file_def Let_def parts)
qed

lemma finite_selected:
  "finite ((\<Union>raw \<in> set raws. picks raw) \<union> (if others = {} then {} else resolve_framework_impacted tests_in taxonomy_diff others))"
proof -
  have "finite (set xs \<union> (if b then {} else set ys))" for xs ys :: "string list" and b by simp
  then have "finite (resolve_framework_impacted tests_in taxonomy_diff others)"
    unfolding resolve_framework_impacted_def Let_def .
  then show ?thesis by (auto split: if_split)
qed

text \<open>
  C29. A changed test is run: whatever else has changed, the selected paths cover every changed test file below
  \<open>tests/e2e\<close> that lies in a directory with a category profile.
\<close>

theorem changed_tests_selected:
  assumes "raw \<in> set changed_files" and "e2e_area (py_strip raw) = Some area" and "is_test_file (py_strip raw)"
    and "k \<in> set (map fst category_profiles)" and "startswith (py_strip raw) (k @ ''/'')"
  shows "covered (py_strip raw) (detect_impacted_paths tests_in taxonomy_diff changed_files)"
proof (cases "\<exists>raw \<in> set changed_files. triggers raw \<or> critical raw")
  case True
  then have "detect_impacted_paths tests_in taxonomy_diff changed_files = all_e2e_dirs"
    by (simp add: detect_impacted_selection selection_def)
  moreover have "k @ ''/'' \<in> set all_e2e_dirs" using assms(4) by (auto simp: all_e2e_dirs_def)
  ultimately show ?thesis using assms(5) endswith_slash [of k] unfolding covered_def by (metis (no_types))
next
  case False
  let ?others = "\<Union>raw \<in> set changed_files. fw_files_of raw"
  let ?S = "(\<Union>raw \<in> set changed_files. picks raw) \<union>
    (if ?others = {} then {} else resolve_framework_impacted tests_in taxonomy_diff ?others)"
  have "py_strip raw \<in> ?S" using test_file_picked [OF assms(2,3)] assms(1) by blast
  then have "covered (py_strip raw) (deduplicate ?S)" by (rule deduplicate_covers [OF finite_selected])
  with False show ?thesis unfolding detect_impacted_selection selection_def Let_def by (simp only: if_False)
qed

theorem changed_tests_selected_witness:
  "covered ''tests/e2e/rccl/test_a.py'' (detect_impacted_paths (\<lambda>_. []) None [''conftest.py'', ''tests/e2e/rccl/test_a.py''])"
proof -
  let ?raw = "''tests/e2e/rccl/test_a.py''"
  have "py_strip ?raw = ?raw" "e2e_area ?raw = Some ''tests/e2e/rccl''" "is_test_file ?raw"
    "''tests/e2e/rccl'' \<in> set (map fst category_profiles)" "startswith ?raw (''tests/e2e/rccl'' @ ''/'')" by code_simp+
  then show ?thesis using changed_tests_selected [of ?raw "[''conftest.py'', ?raw]" "''tests/e2e/rccl''" "''tests/e2e/rccl''"] by simp
qed

subsection \<open>Sources of a test area\<close>

lemma parts_join:
  assumes "cs \<noteq> []" and "list_all good_comp cs"
  shows "posix_parts (join_with ''/'' cs) = cs \<and> path_name (join_with ''/'' cs) = last cs"
proof -
  have sep: "\<forall>c \<in> set cs. CHR ''/'' \<notin> set c" using assms(2) by (auto simp: list_all_iff good_comp_def)
  have keep: "filter (\<lambda>c. c \<noteq> [] \<and> c \<noteq> ''.'') cs = cs"
    using assms(2) by (intro filter_True) (auto simp: list_all_iff good_comp_def)
  obtain c r where cs: "cs = c # r" using assms(1) by (cases cs) auto
  then obtain x c' where c: "c = x # c'" "x \<noteq> CHR ''/''" using assms(2) by (cases c) (auto simp: good_comp_def)
  have "\<not> startswith (join_with ''/'' cs) ''/''" by (cases r) (simp_all add: cs c startswith_def)
  then have "slashes (join_with ''/'' cs) = []" by (auto simp: slashes_def startswith_iff)
  then show ?thesis using split_on_join [OF assms(1) sep] keep assms(1) by (simp add: posix_parts_def path_name_def path_parts_def)
qed

lemma py_strip_ends: "s \<noteq> [] \<Longrightarrow> \<not> is_space (hd s) \<Longrightarrow> \<not> is_space (last s) \<Longrightarrow> py_strip s = s"
proof -
  assume s: "s \<noteq> []" "\<not> is_space (hd s)" "\<not> is_space (last s)"
  have "dropWhile is_space s = s" using s by (cases s) auto
  moreover have "dropWhile is_space (rev s) = rev s" using s by (cases s rule: rev_cases) auto
  ultimately show ?thesis by (simp add: py_strip_def lstrip_by_def rstrip_by_def)
qed

text \<open>
  A changed source of a test area does not run the tests of the area. The directory that is selected is the one the file is
  in, \<open>tests/e2e/<area>/src/\<close>, where the rules of the module promise \<open>tests/e2e/<area>/\<close>; no test file of the
  area itself is covered.
\<close>

theorem source_change_misses_tests:
  assumes "good_comp area" and "good_comp file" and "\<not> is_space (last file)" and "\<not> startswith file ''test_''"
    and "file \<noteq> ''conftest.py''" and "CHR ''/'' \<notin> set test"
  shows "let src = ''tests/e2e/'' @ area @ ''/src/''; ps = detect_impacted_paths tests_in None [src @ file]
    in ps = [src] \<and> \<not> covered (''tests/e2e/'' @ area @ ''/'' @ test) ps"
proof -
  let ?src = "''tests/e2e/'' @ area @ ''/src/''" and ?cs = "[''tests'', ''e2e'', area, ''src'', file]"
  have raw: "?src @ file = join_with ''/'' ?cs" by simp
  have "posix_parts (?src @ file) = ?cs \<and> path_name (?src @ file) = last ?cs"
    unfolding raw by (rule parts_join) (use assms(1,2) in \<open>simp_all add: good_comp_def\<close>)
  then have parts: "posix_parts (?src @ file) = ?cs" "path_name (?src @ file) = file" by simp_all
  have strip: "py_strip (?src @ file) = ?src @ file"
    using assms(2,3) by (intro py_strip_ends) (auto simp: is_space_def good_comp_def)
  have "\<not> is_test_file (?src @ file)" using assms(4) parts by (simp add: is_test_file_def)
  then have "classify_e2e_path (?src @ file) (?src @ file) = Some ?src"
    using parts by (simp add: classify_e2e_path_def e2e_area_def is_workload_or_src_def)
  then have v: "picks (?src @ file) = {?src} \<and> fw_files_of (?src @ file) = {} \<and> \<not> triggers (?src @ file) \<and> \<not> critical (?src @ file)"
    using parts assms(5) unfolding verdict_defs classify_single_file_def strip Let_def by (simp add: is_global_conftest_def Let_def)
  have "deduplicate {?src} = [?src]" using deduplicate_dir [OF endswith_slash, of "''tests/e2e/'' @ area @ ''/src''"] by simp
  moreover have "\<not> startswith (''tests/e2e/'' @ area @ ''/'' @ test) ?src"
  proof
    assume "startswith (''tests/e2e/'' @ area @ ''/'' @ test) ?src"
    then have "startswith test ''src/''" by (auto simp: startswith_iff)
    then show False using assms(6) by (auto simp: startswith_iff)
  qed
  moreover have "''tests/e2e/'' @ area @ ''/'' @ test \<noteq> ?src" using assms(6) by auto
  ultimately show ?thesis using v by (simp add: detect_impacted_selection selection_def covered_def Let_def)
qed

theorem source_change_misses_tests_witness:
  "detect_impacted_paths (\<lambda>_. []) None [''tests/e2e/hipblaslt/src/CMakeLists.txt''] = [''tests/e2e/hipblaslt/src/''] \<and>
   \<not> covered ''tests/e2e/hipblaslt/test_a.py'' [''tests/e2e/hipblaslt/src/'']"
  using source_change_misses_tests [of "''hipblaslt''" "''CMakeLists.txt''" "''test_a.py''" "\<lambda>_. []"]
  by (auto simp: good_comp_def is_space_def startswith_def Let_def)

text \<open>The variables \<open>main\<close> sets agree: there are tests exactly when the list of paths is not empty.\<close>

lemma main_outputs:
  assumes "changed_tests_main getenv git tests_in = Inr vars"
  shows "\<exists>paths. vars = [(''test_paths'', Text (join_with '' '' paths)), (''has_tests'', Text (if paths = [] then ''false'' else ''true''))]"
proof (cases "vars = [(''test_paths'', Text []), (''has_tests'', Text ''false'')]")
  case False
  then obtain paths where "paths \<noteq> []" "vars = [(''test_paths'', Text (join_with '' '' paths)), (''has_tests'', Text ''true'')]"
    using assms unfolding changed_tests_main_def Let_def by (fastforce split: sum.splits if_splits)
  then show ?thesis by auto
qed (auto intro: exI [of _ "[]"])

end
