(* ===== verification/ScanCommon.thy ===== *)
theory ScanCommon
  imports GhaApi
begin

text \<open>
  What the scanner drivers under \<open>scan_tools/github_actions\<close> have in common: report formats, the range of commits of
  the triggering event, the changed files, reports in the job summary, severity counts and the exit code. Each
  script has its own copy of these functions; here they take what differs as arguments. The tools, \<open>git\<close>, the installation
  and the JSON library are parameters; the report files of the working directory are part of the state.
\<close>

subsection \<open>State and environment\<close>

record scan_state =
  ss_files :: "string \<rightharpoonup> string"
  ss_outputs :: "(string \<times> gha_value) list"
  ss_summary :: string

text \<open>
  A tool gets its environment, its arguments and the files, and answers with its exit code and output, \<open>None\<close> when
  it cannot be started. \<open>sh_git\<close> gives the answer to the last of several commands. \<open>sh_inside f d\<close>: file \<open>f\<close> resolves to a path below directory \<open>d\<close>.
\<close>

record scan_host =
  sh_environ :: "(string \<times> string) list"
  sh_is_dir :: "string \<Rightarrow> bool"
  sh_inside :: "string \<Rightarrow> string \<Rightarrow> bool"
  sh_can_write :: "string \<Rightarrow> bool"
  sh_event :: "py_error + pyval"
  sh_git :: "string list list \<Rightarrow> int \<times> string"
  sh_tool :: "(string \<times> string) list \<Rightarrow> string list \<Rightarrow> (string \<rightharpoonup> string) \<Rightarrow> (int \<times> string) option \<times> (string \<rightharpoonup> string)"
  sh_pip :: "string \<Rightarrow> int option"
  sh_beside_python :: "string \<Rightarrow> string option"
  sh_which :: "string \<Rightarrow> string option"
  sh_version :: "string \<Rightarrow> (int \<times> string) option"
  sh_loads :: "string \<Rightarrow> pyval option"
  sh_dumps :: "pyval \<Rightarrow> string"
  sh_str :: "pyval \<Rightarrow> string"

definition sh_getenv :: "scan_host \<Rightarrow> getenv" where
  "sh_getenv h = map_of (sh_environ h)"

text \<open>How a script ends: with an exit code, or with an exception nobody catches, which the interpreter turns into code 1.\<close>

datatype script_end = Exit int | Uncaught py_error

fun exit_code :: "script_end \<Rightarrow> int" where
  "exit_code (Exit n) = n"
| "exit_code (Uncaught _) = 1"

subsection \<open>Report formats\<close>

type_synonym report_target = "string \<times> string"

fun format_targets :: "string \<Rightarrow> (string \<times> string) list \<Rightarrow> string list \<Rightarrow> string list \<Rightarrow> py_error + report_target list" where
  "format_targets stem table seen [] = Inr []"
| "format_targets stem table seen (raw # raws) =
     (let fmt = py_strip raw
      in if fmt = [] \<or> fmt \<in> set seen then format_targets stem table seen raws
         else case map_of table fmt of
                None \<Rightarrow> Inl ValueError
              | Some ext \<Rightarrow> map_sum id (Cons (fmt, stem @ ''.'' @ ext)) (format_targets stem table (fmt # seen) raws))"

definition parse_report_formats :: "string \<Rightarrow> (string \<times> string) list \<Rightarrow> string \<Rightarrow> py_error + report_target list" where
  "parse_report_formats stem table raw =
     (case format_targets stem table [] (split_on CHR '','' raw) of
        Inl e \<Rightarrow> Inl e
      | Inr targets \<Rightarrow> if targets = [] then Inl ValueError else Inr targets)"

definition resolve_config_path :: "string \<Rightarrow> scan_state \<Rightarrow> py_error + string" where
  "resolve_config_path config s = (if ss_files s config = None then Inl FileNotFoundError else Inr config)"

subsection \<open>Reports in the job summary\<close>

text \<open>The longest run of backticks: \<open>cur\<close> is the length of the run that ends here.\<close>

fun longest_run :: "nat \<Rightarrow> string \<Rightarrow> nat" where
  "longest_run cur [] = cur"
| "longest_run cur (c # s) = (if c = CHR 0x60 then longest_run (Suc cur) s else max cur (longest_run 0 s))"

definition md_code_fence :: "string \<Rightarrow> string" where
  "md_code_fence content = replicate (max 3 (longest_run 0 content + 1)) (CHR 0x60)"

definition report_chunk :: "string \<Rightarrow> string \<Rightarrow> string \<Rightarrow> string" where
  "report_chunk title path content =
     (let fence = md_code_fence content
      in ''### '' @ title @ '' report: '' @ [CHR 0x60] @ path @ [CHR 0x60, newline, newline] @ fence @ [newline] @ content @
         [newline] @ fence)"

definition emit_non_sarif_reports :: "string \<Rightarrow> report_target list \<Rightarrow> scan_state \<Rightarrow> scan_state" where
  "emit_non_sarif_reports title non_sarif s =
     (let chunks = List.map_filter (\<lambda>(_, path). map_option (report_chunk title path) (ss_files s path)) non_sarif
      in if chunks = [] then s
         else s\<lparr>ss_summary := ss_summary s @ join_with [newline, newline] chunks @ [newline, newline]\<rparr>)"

subsection \<open>The event and the changed files\<close>

text \<open>\<open>v.get(k) or ""\<close> for a value that must be a text; anything else truthy fails later with a \<open>TypeError\<close>.\<close>

definition text_or_empty :: "pyval \<Rightarrow> py_error + string" where
  "text_or_empty v = (if \<not> truthy v then Inr [] else case v of PStr s \<Rightarrow> Inr s | _ \<Rightarrow> Inl TypeError)"

definition or_dict :: "pyval \<Rightarrow> pyval" where
  "or_dict v = (if truthy v then v else PDict [])"

definition sha_of :: "pyval \<Rightarrow> string \<Rightarrow> py_error + string" where
  "sha_of pr side =
     sum_bind (py_get pr side PNone) (\<lambda>v. sum_bind (py_get (or_dict v) ''sha'' PNone) text_or_empty)"

definition diff_range :: "string \<Rightarrow> pyval \<Rightarrow> py_error + (string \<times> string) option" where
  "diff_range event_name event =
     (if event_name = ''pull_request'' \<or> event_name = ''pull_request_target'' then
        sum_bind (py_get event ''pull_request'' PNone) (\<lambda>pr.
        sum_bind (sha_of (or_dict pr) ''base'') (\<lambda>base.
        sum_bind (sha_of (or_dict pr) ''head'') (\<lambda>head.
          Inr (if base = [] \<or> head = [] then None else Some (base, head)))))
      else if event_name = ''push'' then
        sum_bind (py_get event ''before'' PNone) (\<lambda>b. sum_bind (text_or_empty b) (\<lambda>before.
        sum_bind (py_get event ''after'' PNone) (\<lambda>a. sum_bind (text_or_empty a) (\<lambda>after.
          Inr (if before = [] \<or> after = [] \<or> set before \<subseteq> {CHR ''0''} then None else Some (before, after))))))
      else Inr None)"

definition git_fetch_cmd :: "string \<Rightarrow> string list" where
  "git_fetch_cmd base = [''git'', ''fetch'', ''--no-tags'', ''--depth=1'', ''origin'', base]"

definition git_diff_cmd :: "string \<Rightarrow> string \<Rightarrow> string list" where
  "git_diff_cmd base head = [''git'', ''diff'', ''--name-only'', ''--diff-filter=ACMR'', base @ ''..'' @ head]"

text \<open>\<open>None\<close>: there is no usable range, everything is to be scanned.\<close>

definition determine_changed_files ::
    "scan_host \<Rightarrow> (string \<Rightarrow> bool) \<Rightarrow> string \<Rightarrow> pyval \<Rightarrow> string \<Rightarrow> scan_state \<Rightarrow> py_error + string list option" where
  "determine_changed_files h audited event_name event scan_path s =
     sum_bind (diff_range event_name event) (\<lambda>range.
       case range of
         None \<Rightarrow> Inr None
       | Some (base, head) \<Rightarrow>
           (case sh_git h [git_fetch_cmd base, git_diff_cmd base head] of (rc, out) \<Rightarrow>
              Inr (if rc \<noteq> 0 then None
                   else Some (map as_posix (filter (\<lambda>f. audited f \<and> sh_inside h f scan_path \<and> ss_files s (as_posix f) \<noteq> None)
                          (map py_strip (splitlines out)))))))"

subsection \<open>Glob patterns\<close>

text \<open>\<open>fnmatch.fnmatchcase\<close> for patterns of plain characters, \<open>?\<close> and \<open>*\<close>; a star matches slashes too.\<close>

fun glob :: "string \<Rightarrow> string \<Rightarrow> bool" where
  "glob [] s = (s = [])"
| "glob (p # ps) [] = (p = CHR ''*'' \<and> glob ps [])"
| "glob (p # ps) (c # s) =
     (if p = CHR ''*'' then glob ps (c # s) \<or> glob (p # ps) s
      else (p = CHR ''?'' \<or> p = c) \<and> glob ps s)"

definition is_audited_path :: "string list \<Rightarrow> string \<Rightarrow> bool" where
  "is_audited_path patterns relpath \<longleftrightarrow>
     (\<exists>p \<in> set patterns. glob p relpath \<or> (startswith p ''**/'' \<and> glob (drop 3 p) relpath))"

subsection \<open>Severities\<close>

definition add_count :: "string \<Rightarrow> (string \<times> int) list \<Rightarrow> (string \<times> int) list" where
  "add_count sev counts = AList.update sev ((case map_of counts sev of None \<Rightarrow> 0 | Some n \<Rightarrow> n) + 1) counts"

definition tally :: "string list \<Rightarrow> string list \<Rightarrow> (string \<times> int) list" where
  "tally order sevs = fold add_count sevs (map (\<lambda>sev. (sev, 0)) order)"

definition severity_str :: "scan_host \<Rightarrow> string \<Rightarrow> pyval \<Rightarrow> string" where
  "severity_str h dflt v = py_upper (if truthy v then case v of PStr s \<Rightarrow> s | _ \<Rightarrow> sh_str h v else dflt)"

fun index_of :: "string \<Rightarrow> string list \<Rightarrow> nat option" where
  "index_of x [] = None"
| "index_of x (y # ys) = (if x = y then Some 0 else map_option Suc (index_of x ys))"

text \<open>\<open>sum(counts[sev] for sev in order[order.index(threshold):])\<close>.\<close>

definition count_failing :: "string list \<Rightarrow> string \<Rightarrow> (string \<times> int) list \<Rightarrow> py_error + int" where
  "count_failing order threshold counts =
     (case index_of threshold order of
        None \<Rightarrow> Inl ValueError
      | Some i \<Rightarrow> Inr (sum_list (map (\<lambda>sev. case map_of counts sev of None \<Rightarrow> 0 | Some n \<Rightarrow> n) (drop i order))))"

definition read_json :: "scan_host \<Rightarrow> string \<Rightarrow> scan_state \<Rightarrow> pyval option" where
  "read_json h path s = (case ss_files s path of None \<Rightarrow> None | Some text \<Rightarrow> sh_loads h text)"

subsection \<open>Arguments\<close>

record scan_args =
  sa_mode :: string
  sa_formats :: string
  sa_source :: string
  sa_threshold :: string
  sa_extra :: string

text \<open>
  \<open>argparse\<close>: a value on the command line must be one of the choices, otherwise the script ends with code 2; a default,
  which comes from the environment, is not checked.
\<close>

definition pick_arg :: "scan_host \<Rightarrow> (string \<Rightarrow> string option) \<Rightarrow> string \<Rightarrow> string \<Rightarrow> string \<Rightarrow> string list \<Rightarrow> string option" where
  "pick_arg h cli name var dflt choices =
     (case cli name of
        Some v \<Rightarrow> if choices = [] \<or> v \<in> set choices then Some v else None
      | None \<Rightarrow> Some (case sh_getenv h var of None \<Rightarrow> dflt | Some v \<Rightarrow> v))"

text \<open>The option of a scanner beyond the four all have: name, variable, default and choices.\<close>

definition build_parser ::
    "string \<Rightarrow> string list \<Rightarrow> (string \<times> string \<times> string \<times> string list) option \<Rightarrow> scan_host \<Rightarrow> (string \<Rightarrow> string option) \<Rightarrow> scan_args option" where
  "build_parser prefix order extra h cli =
     (case (pick_arg h cli ''scan-mode'' (prefix @ ''_SCAN_MODE'') ''changed'' [''changed'', ''all''],
            pick_arg h cli ''report-formats'' (prefix @ ''_REPORT_FORMATS'') ''sarif'' [],
            pick_arg h cli ''source-dir'' (prefix @ ''_SOURCE_DIR'') ''.'' [],
            pick_arg h cli ''severity-threshold'' (prefix @ ''_SEVERITY_THRESHOLD'') ''high'' (map py_lower order),
            (case extra of None \<Rightarrow> Some [] | Some (name, var, dflt, choices) \<Rightarrow> pick_arg h cli name var dflt choices)) of
        (Some mode, Some formats, Some source, Some threshold, Some x) \<Rightarrow>
          Some \<lparr>sa_mode = mode, sa_formats = formats, sa_source = source, sa_threshold = threshold, sa_extra = x\<rparr>
      | _ \<Rightarrow> None)"

subsection \<open>A run of the tool for every format\<close>

text \<open>A JSON report of the user serves for the counts, otherwise one more is made.\<close>

definition tally_runs :: "string \<Rightarrow> report_target list \<Rightarrow> string \<times> report_target list" where
  "tally_runs internal targets =
     (case map_of targets ''json'' of
        Some path \<Rightarrow> (path, targets)
      | None \<Rightarrow> (internal, targets @ [(''json'', internal)]))"

fun run_targets :: "(report_target \<Rightarrow> scan_state \<Rightarrow> py_error option \<times> scan_state) \<Rightarrow> report_target list \<Rightarrow> scan_state \<Rightarrow> py_error option \<times> scan_state" where
  "run_targets step [] s = (None, s)"
| "run_targets step (t # ts) s =
     (case step t s of (None, s') \<Rightarrow> run_targets step ts s' | (Some e, s') \<Rightarrow> (Some e, s'))"

text \<open>The two ways to take a tool: from \<open>pip\<close>, next to the interpreter or on the search path.\<close>

definition smoke_test :: "scan_host \<Rightarrow> string \<Rightarrow> py_error + string" where
  "smoke_test h binary = (case sh_version h binary of Some (rc, _) \<Rightarrow> if rc = 0 then Inr binary else Inl RuntimeError | None \<Rightarrow> Inl RuntimeError)"

definition ensure_pip_tool :: "string \<Rightarrow> string \<Rightarrow> scan_host \<Rightarrow> py_error + string" where
  "ensure_pip_tool name spec h =
     (case sh_pip h spec of
        None \<Rightarrow> Inl OSError
      | Some rc \<Rightarrow>
          if rc \<noteq> 0 then Inl RuntimeError
          else case sh_beside_python h name of
                 Some p \<Rightarrow> smoke_test h p
               | None \<Rightarrow> (case sh_which h name of None \<Rightarrow> Inl RuntimeError | Some p \<Rightarrow> smoke_test h p))"

subsection \<open>The driver\<close>

text \<open>The parts in which the three drivers with a severity threshold differ.\<close>

record scanner =
  sn_title :: string
  sn_prefix :: string
  sn_stem :: string
  sn_formats :: "(string \<times> string) list"
  sn_config :: string
  sn_order :: "string list"
  sn_internal :: string
  sn_extra :: "(string \<times> string \<times> string \<times> string list) option"
  sn_check_extra :: "string \<Rightarrow> py_error + string list"
  sn_audited :: "string \<Rightarrow> bool"
  sn_ensure :: "scan_host \<Rightarrow> py_error + string"
  sn_run :: "scan_host \<Rightarrow> string \<Rightarrow> report_target list \<Rightarrow> string \<Rightarrow> string list \<Rightarrow> string list option \<Rightarrow> string \<Rightarrow> scan_state \<Rightarrow>
    (py_error + string) \<times> scan_state"
  sn_tally :: "scan_host \<Rightarrow> string \<Rightarrow> scan_state \<Rightarrow> py_error + (string \<times> int) list"

definition set_output :: "(string \<times> gha_value) list \<Rightarrow> scan_state \<Rightarrow> scan_state" where
  "set_output vars s = s\<lparr>ss_outputs := ss_outputs s @ vars\<rparr>"

definition sarif_path :: "report_target list \<Rightarrow> string" where
  "sarif_path targets = (case map_of targets ''sarif'' of None \<Rightarrow> [] | Some p \<Rightarrow> p)"

definition non_sarif :: "report_target list \<Rightarrow> report_target list" where
  "non_sarif targets = filter (\<lambda>(fmt, _). fmt \<noteq> ''sarif'') targets"

definition path_outputs :: "report_target list \<Rightarrow> (string \<times> gha_value) list" where
  "path_outputs targets =
     [(''sarif_path'', Text (sarif_path targets)),
      (''non_sarif_paths'', Text (join_with [newline] (map snd (non_sarif targets))))]"

text \<open>Installing, scanning and counting; the \<open>finally\<close> clause removes the internal report.\<close>

definition scan_and_count ::
    "scanner \<Rightarrow> scan_host \<Rightarrow> report_target list \<Rightarrow> string \<Rightarrow> string list \<Rightarrow> string list option \<Rightarrow> string \<Rightarrow> scan_state \<Rightarrow>
     (py_error + (string \<times> int) list) \<times> scan_state" where
  "scan_and_count sn h targets config extra files source s =
     (case sn_ensure sn h of
        Inl e \<Rightarrow> (Inl e, s)
      | Inr binary \<Rightarrow>
          (case sn_run sn h binary targets config extra files source s of
             (Inl e, s') \<Rightarrow> (Inl e, s')
           | (Inr tally_path, s') \<Rightarrow> (sn_tally sn h tally_path s', s')))"

definition drop_internal :: "scanner \<Rightarrow> report_target list \<Rightarrow> scan_state \<Rightarrow> scan_state" where
  "drop_internal sn targets s =
     (if map_of targets ''json'' = None then s\<lparr>ss_files := (ss_files s)(sn_internal sn := None)\<rparr> else s)"

definition finish_scan ::
    "scanner \<Rightarrow> scan_args \<Rightarrow> report_target list \<Rightarrow> (py_error + (string \<times> int) list) \<Rightarrow> scan_state \<Rightarrow> script_end \<times> scan_state" where
  "finish_scan sn args targets r s =
     (let emit = emit_non_sarif_reports (sn_title sn) (non_sarif targets); dropped = drop_internal sn targets
      in case r of
           Inl e \<Rightarrow> if e = RuntimeError then (Exit 2, dropped (emit s)) else (Uncaught e, dropped s)
         | Inr counts \<Rightarrow>
             (case count_failing (sn_order sn) (py_upper (sa_threshold args)) counts of
                Inl e \<Rightarrow> (Uncaught e, dropped s)
              | Inr failing \<Rightarrow> (Exit (if failing \<noteq> 0 then 1 else 0), emit (dropped s))))"

text \<open>The first half of \<open>main\<close>: either the script ends here, or it knows what to scan.\<close>

type_synonym scan_plan = "scan_args \<times> report_target list \<times> string \<times> string list \<times> string list option"

definition event_name :: "scan_host \<Rightarrow> string" where
  "event_name h = (case sh_getenv h ''GITHUB_EVENT_NAME'' of None \<Rightarrow> [] | Some n \<Rightarrow> n)"

definition scan_prepare :: "scanner \<Rightarrow> scan_host \<Rightarrow> (string \<Rightarrow> string option) \<Rightarrow> scan_state \<Rightarrow> script_end + scan_plan" where
  "scan_prepare sn h cli s =
     (case build_parser (sn_prefix sn) (sn_order sn) (sn_extra sn) h cli of
        None \<Rightarrow> Inl (Exit 2)
      | Some args \<Rightarrow>
          (case (parse_report_formats (sn_stem sn) (sn_formats sn) (sa_formats args), sn_check_extra sn (sa_extra args)) of
             (Inl _, _) \<Rightarrow> Inl (Exit 1)
           | (_, Inl _) \<Rightarrow> Inl (Exit 1)
           | (Inr targets, Inr extra) \<Rightarrow>
               if \<not> sh_is_dir h (sa_source args) then Inl (Exit 2)
               else
                 (case (resolve_config_path (sn_config sn) s, sh_event h) of
                    (Inl _, _) \<Rightarrow> Inl (Exit 2)
                  | (Inr _, Inl e) \<Rightarrow> Inl (if e \<in> set [FileNotFoundError, KeyError, ValueError, RuntimeError] then Exit 2 else Uncaught e)
                  | (Inr config, Inr event) \<Rightarrow>
                      (case (if sa_mode args = ''all'' then Inr None
                             else determine_changed_files h (sn_audited sn) (event_name h) event (sa_source args) s) of
                         Inl e \<Rightarrow> Inl (Uncaught e)
                       | Inr files \<Rightarrow> Inr (args, targets, config, extra, files)))))"

definition scan_main :: "scanner \<Rightarrow> scan_host \<Rightarrow> (string \<Rightarrow> string option) \<Rightarrow> scan_state \<Rightarrow> script_end \<times> scan_state" where
  "scan_main sn h cli s =
     (case scan_prepare sn h cli s of
        Inl e \<Rightarrow> (e, s)
      | Inr (args, targets, config, extra, files) \<Rightarrow>
          if files = Some [] then (Exit 0, set_output [(''sarif_path'', Text []), (''non_sarif_paths'', Text [])] s)
          else
            (case scan_and_count sn h targets config extra files (sa_source args) (set_output (path_outputs targets) s) of
               (r, s') \<Rightarrow> finish_scan sn args targets r s'))"

subsection \<open>Fences\<close>

lemma longest_run_ge: "cur \<le> longest_run cur s"
proof (induction s arbitrary: cur)
  case (Cons c s)
  from Cons.IH [of "Suc cur"] show ?case by simp
qed simp

lemma longest_run_mono: "a \<le> b \<Longrightarrow> longest_run a s \<le> longest_run b s"
  by (induction s arbitrary: a b) auto

lemma longest_run_replicate: "n + cur \<le> longest_run cur (replicate n (CHR 0x60) @ s)"
proof (induction n arbitrary: cur)
  case (Suc n)
  from Suc.IH [of "Suc cur"] show ?case by simp
qed (simp add: longest_run_ge)

lemma contains_run: "contains_str (replicate n (CHR 0x60)) s \<Longrightarrow> n \<le> longest_run 0 s"
proof (induction s)
  case (Cons c s)
  show ?case
  proof (cases "startswith (c # s) (replicate n (CHR 0x60))")
    case True
    then obtain r where "c # s = replicate n (CHR 0x60) @ r" by (auto simp: startswith_iff)
    then show ?thesis using longest_run_replicate [of n 0 r] by simp
  next
    case False
    with Cons have "n \<le> longest_run 0 s" by simp
    also have "\<dots> \<le> longest_run 0 (c # s)" using longest_run_mono [of 0 "Suc 0" s] by simp
    finally show ?thesis .
  qed
qed simp

text \<open>
  C32. A report cannot break out of its code block: the fence has at least three backticks and does not occur in the
  report, whatever the report contains.
\<close>

theorem fence_not_in_report: "3 \<le> length (md_code_fence content) \<and> \<not> contains_str (md_code_fence content) content"
  using contains_run [of "max 3 (longest_run 0 content + 1)" content] by (auto simp: md_code_fence_def)

subsection \<open>Targets\<close>

lemma format_targets_ok:
  "format_targets stem table seen raws = Inr ts \<Longrightarrow>
     distinct (map fst ts) \<and> set (map fst ts) \<inter> set seen = {} \<and>
     (\<forall>fmt path. (fmt, path) \<in> set ts \<longrightarrow> (\<exists>ext. map_of table fmt = Some ext \<and> path = stem @ ''.'' @ ext))"
proof (induction raws arbitrary: seen ts)
  case (Cons raw raws)
  show ?case
  proof (cases "py_strip raw = [] \<or> py_strip raw \<in> set seen")
    case True
    with Cons show ?thesis by simp
  next
    case False
    with Cons.prems obtain ext ts' where ext: "map_of table (py_strip raw) = Some ext"
      and rest: "format_targets stem table (py_strip raw # seen) raws = Inr ts'"
      and ts: "ts = (py_strip raw, stem @ ''.'' @ ext) # ts'" by (auto simp: Let_def split: option.splits)
    from Cons.IH [OF rest] show ?thesis using ext False unfolding ts by auto
  qed
qed simp

lemma parse_report_formats_ok:
  assumes "parse_report_formats stem table raw = Inr ts"
  shows "ts \<noteq> [] \<and> distinct (map fst ts) \<and> (\<forall>fmt path. (fmt, path) \<in> set ts \<longrightarrow> (\<exists>ext. map_of table fmt = Some ext \<and> path = stem @ ''.'' @ ext))"
  using assms format_targets_ok [of stem table "[]" "split_on CHR '','' raw" ts]
  by (auto simp: parse_report_formats_def split: sum.splits if_splits)

text \<open>A table of formats in which no two formats have the same extension gives every report a file of its own.\<close>

locale report_table =
  fixes table :: "(string \<times> string) list"
  assumes extensions: "distinct (map snd table)"
begin

lemma extension_of_one: "map_of table a = Some ext \<Longrightarrow> map_of table b = Some ext \<Longrightarrow> a = b"
  using extensions
proof (induction table)
  case (Cons kv table)
  then show ?case by (cases kv) (auto split: if_splits dest!: map_of_SomeD simp: image_iff)
qed simp

lemma report_paths_distinct:
  assumes "parse_report_formats stem table raw = Inr ts"
  shows "distinct (map snd ts)"
proof -
  note ok = parse_report_formats_ok [OF assms]
  have "inj_on snd (set ts)"
  proof (rule inj_onI)
    fix x y assume xy: "x \<in> set ts" "y \<in> set ts" "snd x = snd y"
    have "\<exists>ext. map_of table (fst z) = Some ext \<and> snd z = stem @ ''.'' @ ext" if "z \<in> set ts" for z
      using ok that by (cases z) simp
    from this [OF xy(1)] this [OF xy(2)] have "map_of table (fst x) = map_of table (fst y)" "map_of table (fst x) \<noteq> None"
      using xy(3) by auto
    then have "fst x = fst y" using extension_of_one by (metis not_None_eq)
    with xy(3) show "x = y" by (simp add: prod_eq_iff)
  qed
  with ok show ?thesis by (simp add: distinct_map)
qed

end

subsection \<open>Counting\<close>

text \<open>In a scale of severities without repetition, the sum of the counts from a level on is the number of findings at or above it.\<close>

lemma map_of_tally:
  "map_of (fold add_count sevs counts) sev =
     (case map_of counts sev of
        Some n \<Rightarrow> Some (n + int (length (filter (\<lambda>x. x = sev) sevs)))
      | None \<Rightarrow> if sev \<in> set sevs then Some (int (length (filter (\<lambda>x. x = sev) sevs))) else None)"
  by (induction sevs arbitrary: counts) (auto simp: add_count_def split: option.splits)

locale severity_scale =
  fixes order :: "string list"
  assumes levels: "distinct order"
begin

lemma tally_level: "sev \<in> set order \<Longrightarrow> map_of (tally order sevs) sev = Some (int (length (filter (\<lambda>x. x = sev) sevs)))"
proof -
  assume "sev \<in> set order"
  then have "map_of (map (\<lambda>sev. (sev, 0 :: int)) order) sev = Some 0" by (induction order) auto
  then show ?thesis by (simp add: tally_def map_of_tally)
qed

lemma sum_levels:
  "distinct levels \<Longrightarrow> sum_list (map (\<lambda>sev. int (length (filter (\<lambda>x. x = sev) sevs))) levels) = int (length (filter (\<lambda>x. x \<in> set levels) sevs))"
proof (induction levels)
  case (Cons l levels)
  have "length (filter (\<lambda>x. x = l) sevs) + length (filter (\<lambda>x. x \<in> set levels) sevs) = length (filter (\<lambda>x. x = l \<or> x \<in> set levels) sevs)"
    using Cons.prems by (induction sevs) auto
  with Cons show ?case by simp
qed simp

lemma failing_is_number_above:
  assumes "index_of threshold order = Some i"
  shows "count_failing order threshold (tally order sevs) = Inr (int (length (filter (\<lambda>x. x \<in> set (drop i order)) sevs)))"
proof -
  have "map (\<lambda>sev. case map_of (tally order sevs) sev of None \<Rightarrow> 0 | Some n \<Rightarrow> n) (drop i order)
      = map (\<lambda>sev. int (length (filter (\<lambda>x. x = sev) sevs))) (drop i order)"
    by (rule map_cong) (auto simp: tally_level dest: in_set_dropD)
  then show ?thesis using sum_levels [of "drop i order" sevs] levels
    unfolding count_failing_def assms by (metis distinct_drop option.simps(5))
qed

lemma no_failing_iff:
  assumes "index_of threshold order = Some i"
  shows "count_failing order threshold (tally order sevs) = Inr 0 \<longleftrightarrow> set sevs \<inter> set (drop i order) = {}"
  by (auto simp: failing_is_number_above [OF assms] filter_empty_conv disjoint_iff)

end

lemma index_of_None [simp]: "index_of x ys = None \<longleftrightarrow> x \<notin> set ys"
  by (induction ys) auto

subsection \<open>Patterns\<close>

lemma glob_star: "glob ps s \<Longrightarrow> glob (CHR ''*'' # ps) (a @ s)"
proof (induction a)
  case Nil
  then show ?case by (cases s) auto
qed simp

lemma glob_literal: "list_all (\<lambda>c. c \<noteq> CHR ''*'') ps \<Longrightarrow> glob ps ps"
  by (induction ps) auto

text \<open>A file name that is listed for every directory is audited at the top of the tree and at any depth.\<close>

lemma audited_anywhere:
  assumes "''**/'' @ name \<in> set patterns" and "list_all (\<lambda>c. c \<noteq> CHR ''*'') name"
  shows "is_audited_path patterns name \<and> is_audited_path patterns (dir @ ''/'' @ name)"
proof -
  have "glob (''/'' @ name) (''/'' @ name)" using assms(2) by (intro glob_literal) simp
  then have "glob (CHR ''*'' # ''/'' @ name) ([] @ ''/'' @ name)" by (rule glob_star)
  then have "glob (CHR ''*'' # CHR ''*'' # ''/'' @ name) (dir @ ''/'' @ name)" using glob_star [of "CHR ''*'' # ''/'' @ name" "''/'' @ name" dir] by simp
  then show ?thesis using assms glob_literal [OF assms(2)] by (auto simp: is_audited_path_def startswith_def intro!: bexI [of _ "''**/'' @ name"])
qed

end
