(* ===== verification/Scanners.thy ===== *)
theory Scanners
  imports ScanCommon
begin

text \<open>
  The scanner drivers with a severity threshold, \<open>bandit.py\<close>, \<open>zizmor.py\<close> and \<open>trivy.py\<close> under
  \<open>scan_tools/github_actions\<close>: their tables, how they install and run their tool, the enrichment of SARIF reports and
  the severities they read from a JSON report.
\<close>

subsection \<open>Enrichment of SARIF\<close>

text \<open>A result is given its \<open>properties\<close>; \<open>f\<close> changes them and says whether it added a score.\<close>

fun enrich_result :: "((string \<times> pyval) list \<Rightarrow> (string \<times> pyval) list \<times> nat) \<Rightarrow> pyval \<Rightarrow> pyval \<times> nat" where
  "enrich_result f (PDict d) =
     (case f (case map_of d ''properties'' of Some (PDict p) \<Rightarrow> p | _ \<Rightarrow> []) of
        (p, n) \<Rightarrow> (PDict (AList.update ''properties'' (PDict p) d), n))"
| "enrich_result f v = (v, 0)"

fun enrich_list :: "(pyval \<Rightarrow> py_error + pyval \<times> nat) \<Rightarrow> pyval list \<Rightarrow> py_error + pyval list \<times> nat" where
  "enrich_list f [] = Inr ([], 0)"
| "enrich_list f (v # vs) =
     (case f v of
        Inl e \<Rightarrow> Inl e
      | Inr (v', n) \<Rightarrow> map_sum id (\<lambda>(vs', k). (v' # vs', n + k)) (enrich_list f vs))"

text \<open>The loop over \<open>d.get(k) or []\<close>: the items of a list are changed in place, other iterables have no dictionaries.\<close>

definition enrich_entry :: "string \<Rightarrow> (pyval \<Rightarrow> py_error + pyval \<times> nat) \<Rightarrow> (string \<times> pyval) list \<Rightarrow> py_error + (string \<times> pyval) list \<times> nat" where
  "enrich_entry k f d =
     (case map_of d k of
        Some (PList vs) \<Rightarrow> map_sum id (\<lambda>(vs', n). (AList.update k (PList vs') d, n)) (enrich_list f vs)
      | Some v \<Rightarrow> if truthy v \<and> py_list v = Inl TypeError then Inl TypeError else Inr (d, 0)
      | None \<Rightarrow> Inr (d, 0))"

fun enrich_run :: "((string \<times> pyval) list \<Rightarrow> (string \<times> pyval) list \<times> nat) \<Rightarrow> pyval \<Rightarrow> py_error + pyval \<times> nat" where
  "enrich_run f (PDict d) = map_sum id (\<lambda>(d', n). (PDict d', n)) (enrich_entry ''results'' (\<lambda>v. Inr (enrich_result f v)) d)"
| "enrich_run f v = Inr (v, 0)"

definition enrich_doc :: "((string \<times> pyval) list \<Rightarrow> (string \<times> pyval) list \<times> nat) \<Rightarrow> (string \<times> pyval) list \<Rightarrow> py_error + (string \<times> pyval) list \<times> nat" where
  "enrich_doc f d = enrich_entry ''runs'' (enrich_run f) d"

definition enrich_sarif ::
    "scan_host \<Rightarrow> ((string \<times> pyval) list \<Rightarrow> (string \<times> pyval) list \<times> nat) \<Rightarrow> string \<Rightarrow> scan_state \<Rightarrow> py_error option \<times> scan_state" where
  "enrich_sarif h f path s =
     (case read_json h path s of
        Some (PDict d) \<Rightarrow>
          (case enrich_doc f d of
             Inl e \<Rightarrow> (Some e, s)
           | Inr (d', n) \<Rightarrow>
               (None, if n = 0 \<or> \<not> sh_can_write h path then s
                      else s\<lparr>ss_files := (ss_files s)(path \<mapsto> sh_dumps h (PDict d'))\<rparr>))
      | _ \<Rightarrow> (None, s))"

definition enrich_step ::
    "scan_host \<Rightarrow> ((string \<times> pyval) list \<Rightarrow> (string \<times> pyval) list \<times> nat) \<Rightarrow> report_target \<Rightarrow> scan_state \<Rightarrow> py_error option \<times> scan_state" where
  "enrich_step h f t s = (if fst t = ''sarif'' \<and> ss_files s (snd t) \<noteq> None then enrich_sarif h f (snd t) s else (None, s))"

definition score :: "(string \<times> string) list \<Rightarrow> string \<Rightarrow> (string \<times> pyval) list \<Rightarrow> (string \<times> pyval) list \<times> nat" where
  "score table sev p =
     (case map_of table sev of
        None \<Rightarrow> (p, 0)
      | Some v \<Rightarrow> (AList.update ''security-severity'' (PStr v) p, 1))"

definition prop_or_none :: "(string \<times> pyval) list \<Rightarrow> string \<Rightarrow> pyval" where
  "prop_or_none p k = (case map_of p k of None \<Rightarrow> PNone | Some v \<Rightarrow> v)"

subsection \<open>Bandit\<close>

definition bandit_formats :: "(string \<times> string) list" where
  "bandit_formats = [(''sarif'', ''sarif''), (''json'', ''json''), (''csv'', ''csv''), (''html'', ''html''), (''xml'', ''xml''),
     (''yaml'', ''yaml''), (''txt'', ''txt'')]"

definition bandit_order :: "string list" where
  "bandit_order = [''LOW'', ''MEDIUM'', ''HIGH'']"

definition bandit_security_severity :: "(string \<times> string) list" where
  "bandit_security_severity = [(''HIGH'', ''8.5''), (''MEDIUM'', ''5.0''), (''LOW'', ''1.0'')]"

definition bandit_python_file :: "string \<Rightarrow> bool" where
  "bandit_python_file f \<longleftrightarrow> endswith f ''.py'' \<or> endswith f ''.pyw''"

definition ensure_bandit :: "scan_host \<Rightarrow> py_error + string" where
  "ensure_bandit h = ensure_pip_tool ''bandit'' ''bandit[sarif]==1.9.4'' h"

definition bandit_props :: "scan_host \<Rightarrow> (string \<times> pyval) list \<Rightarrow> (string \<times> pyval) list \<times> nat" where
  "bandit_props h p =
     (if prop_or_none p ''security-severity'' \<noteq> PNone then (p, 0)
      else score bandit_security_severity (severity_str h [] (prop_or_none p ''issue_severity'')) p)"

definition bandit_args :: "string \<Rightarrow> string \<Rightarrow> string list option \<Rightarrow> string \<Rightarrow> string list" where
  "bandit_args binary config files scan_path =
     [binary, ''--severity-level'', ''low'', ''--configfile'', config] @
     (case files of None \<Rightarrow> [''--recursive'', as_posix scan_path] | Some fs \<Rightarrow> fs)"

definition bandit_step :: "scan_host \<Rightarrow> string list \<Rightarrow> report_target \<Rightarrow> scan_state \<Rightarrow> py_error option \<times> scan_state" where
  "bandit_step h args t s =
     (case sh_tool h (sh_environ h) (args @ [''--format'', fst t, ''--output'', snd t]) (ss_files s) of
        (None, fs) \<Rightarrow> (Some OSError, s\<lparr>ss_files := fs\<rparr>)
      | (Some (rc, _), fs) \<Rightarrow> (if rc = 0 \<or> rc = 1 then None else Some RuntimeError, s\<lparr>ss_files := fs\<rparr>))"

definition run_bandit ::
    "scan_host \<Rightarrow> string \<Rightarrow> report_target list \<Rightarrow> string \<Rightarrow> string list \<Rightarrow> string list option \<Rightarrow> string \<Rightarrow> scan_state \<Rightarrow>
     (py_error + string) \<times> scan_state" where
  "run_bandit h binary targets config extra files scan_path s =
     (case tally_runs ''bandit-tally.json'' targets of (tally_path, runs) \<Rightarrow>
        (case run_targets (bandit_step h (bandit_args binary config files scan_path)) runs s of
           (Some e, s') \<Rightarrow> (Inl e, s')
         | (None, s') \<Rightarrow>
             (case run_targets (enrich_step h (bandit_props h)) targets s' of
                (Some e, s'') \<Rightarrow> (Inl e, s'')
              | (None, s'') \<Rightarrow> (Inr tally_path, s''))))"

text \<open>The severities of the findings of a report; an entry of \<open>results\<close> that is no dictionary is not expected.\<close>

fun bandit_severities :: "scan_host \<Rightarrow> pyval \<Rightarrow> py_error + string list" where
  "bandit_severities h (PDict d) =
     (let v = prop_or_none d ''results''
      in sum_bind (if truthy v then py_list v else Inr [])
           (mapM (\<lambda>issue. map_sum id (severity_str h ''UNDEFINED'') (py_get issue ''issue_severity'' PNone))))"
| "bandit_severities h _ = Inl RuntimeError"

definition tally_report ::
    "(scan_host \<Rightarrow> pyval \<Rightarrow> py_error + string list) \<Rightarrow> string list \<Rightarrow> scan_host \<Rightarrow> string \<Rightarrow> scan_state \<Rightarrow> py_error + (string \<times> int) list" where
  "tally_report severities order h path s =
     (case read_json h path s of
        None \<Rightarrow> Inl RuntimeError
      | Some data \<Rightarrow> map_sum id (tally order) (severities h data))"

definition bandit_tally :: "scan_host \<Rightarrow> string \<Rightarrow> scan_state \<Rightarrow> py_error + (string \<times> int) list" where
  "bandit_tally = tally_report bandit_severities bandit_order"

definition bandit :: scanner where
  "bandit = \<lparr>sn_title = ''Bandit'', sn_prefix = ''BANDIT'', sn_stem = ''bandit-report'', sn_formats = bandit_formats,
     sn_config = ''bandit.yaml'', sn_order = bandit_order, sn_internal = ''bandit-tally.json'', sn_extra = None,
     sn_check_extra = (\<lambda>_. Inr []), sn_audited = bandit_python_file, sn_ensure = ensure_bandit, sn_run = run_bandit,
     sn_tally = bandit_tally\<rparr>"

definition bandit_main :: "scan_host \<Rightarrow> (string \<Rightarrow> string option) \<Rightarrow> scan_state \<Rightarrow> script_end \<times> scan_state" where
  "bandit_main = scan_main bandit"

subsection \<open>Zizmor\<close>

definition zizmor_formats :: "(string \<times> string) list" where
  "zizmor_formats = [(''sarif'', ''sarif''), (''json'', ''json''), (''plain'', ''txt''), (''github'', ''txt'')]"

definition zizmor_order :: "string list" where
  "zizmor_order = [''INFORMATIONAL'', ''LOW'', ''MEDIUM'', ''HIGH'']"

definition zizmor_patterns :: "string list" where
  "zizmor_patterns = [''.github/workflows/*.yml'', ''.github/workflows/*.yaml'', ''.github/dependabot.yml'', ''.github/dependabot.yaml'',
     ''**/action.yml'', ''**/action.yaml'', ''action.yml'', ''action.yaml'']"

definition zizmor_security_severity :: "(string \<times> string) list" where
  "zizmor_security_severity = [(''HIGH'', ''8.5''), (''MEDIUM'', ''5.0''), (''LOW'', ''1.0''), (''INFORMATIONAL'', ''0.3'')]"

definition ensure_zizmor :: "scan_host \<Rightarrow> py_error + string" where
  "ensure_zizmor h = ensure_pip_tool ''zizmor'' ''zizmor==1.24.1'' h"

text \<open>An existing score is replaced.\<close>

definition zizmor_props :: "scan_host \<Rightarrow> (string \<times> pyval) list \<Rightarrow> (string \<times> pyval) list \<times> nat" where
  "zizmor_props h p = score zizmor_security_severity (severity_str h [] (prop_or_none p ''zizmor/severity'')) p"

definition zizmor_args :: "string \<Rightarrow> string \<Rightarrow> string \<Rightarrow> string list option \<Rightarrow> string \<Rightarrow> string list" where
  "zizmor_args binary persona config files scan_path =
     [binary, ''--no-exit-codes'', ''--persona'', persona, ''--quiet'', ''--config'', config] @
     (case files of None \<Rightarrow> [as_posix scan_path] | Some fs \<Rightarrow> fs)"

text \<open>The tool prints its report; the driver writes it to the file.\<close>

definition zizmor_step :: "scan_host \<Rightarrow> string list \<Rightarrow> report_target \<Rightarrow> scan_state \<Rightarrow> py_error option \<times> scan_state" where
  "zizmor_step h args t s =
     (case sh_tool h (sh_environ h) (args @ [''--format'', fst t]) (ss_files s) of
        (None, fs) \<Rightarrow> (Some RuntimeError, s\<lparr>ss_files := fs\<rparr>)
      | (Some (rc, out), fs) \<Rightarrow>
          if rc \<noteq> 0 \<or> \<not> sh_can_write h (snd t) then (Some RuntimeError, s\<lparr>ss_files := fs\<rparr>)
          else (None, s\<lparr>ss_files := fs(snd t \<mapsto> out)\<rparr>))"

definition run_zizmor ::
    "scan_host \<Rightarrow> string \<Rightarrow> report_target list \<Rightarrow> string \<Rightarrow> string list \<Rightarrow> string list option \<Rightarrow> string \<Rightarrow> scan_state \<Rightarrow>
     (py_error + string) \<times> scan_state" where
  "run_zizmor h binary targets config extra files scan_path s =
     (case tally_runs ''zizmor-tally.json'' targets of (tally_path, runs) \<Rightarrow>
        (case run_targets (zizmor_step h (zizmor_args binary (concat extra) config files scan_path)) runs s of
           (Some e, s') \<Rightarrow> (Inl e, s')
         | (None, s') \<Rightarrow>
             (case run_targets (enrich_step h (zizmor_props h)) targets s' of
                (Some e, s'') \<Rightarrow> (Inl e, s'')
              | (None, s'') \<Rightarrow> (Inr tally_path, s''))))"

fun zizmor_severity :: "scan_host \<Rightarrow> pyval \<Rightarrow> py_error + string list" where
  "zizmor_severity h (PDict d) =
     map_sum id (\<lambda>v. [severity_str h ''UNKNOWN'' v]) (py_get (or_dict (prop_or_none d ''determinations'')) ''severity'' PNone)"
| "zizmor_severity h _ = Inr []"

fun zizmor_severities :: "scan_host \<Rightarrow> pyval \<Rightarrow> py_error + string list" where
  "zizmor_severities h (PList issues) = map_sum id concat (mapM (zizmor_severity h) issues)"
| "zizmor_severities h _ = Inl RuntimeError"

definition zizmor_tally :: "scan_host \<Rightarrow> string \<Rightarrow> scan_state \<Rightarrow> py_error + (string \<times> int) list" where
  "zizmor_tally = tally_report zizmor_severities zizmor_order"

definition zizmor :: scanner where
  "zizmor = \<lparr>sn_title = ''Zizmor'', sn_prefix = ''ZIZMOR'', sn_stem = ''zizmor-report'', sn_formats = zizmor_formats,
     sn_config = ''zizmor.yml'', sn_order = zizmor_order, sn_internal = ''zizmor-tally.json'',
     sn_extra = Some (''persona'', ''ZIZMOR_PERSONA'', ''regular'', [''regular'', ''pedantic'', ''auditor'']),
     sn_check_extra = (\<lambda>persona. Inr [persona]), sn_audited = (\<lambda>f. f \<noteq> [] \<and> is_audited_path zizmor_patterns f), sn_ensure = ensure_zizmor,
     sn_run = run_zizmor, sn_tally = zizmor_tally\<rparr>"

definition zizmor_main :: "scan_host \<Rightarrow> (string \<Rightarrow> string option) \<Rightarrow> scan_state \<Rightarrow> script_end \<times> scan_state" where
  "zizmor_main = scan_main zizmor"

subsection \<open>Trivy\<close>

definition trivy_formats :: "(string \<times> string) list" where
  "trivy_formats = [(''sarif'', ''sarif''), (''json'', ''json''), (''table'', ''txt''), (''cyclonedx'', ''cdx.json''),
     (''spdx-json'', ''spdx.json''), (''github'', ''github.json'')]"

definition trivy_order :: "string list" where
  "trivy_order = [''LOW'', ''MEDIUM'', ''HIGH'', ''CRITICAL'']"

definition supported_scanners :: "string list" where
  "supported_scanners = [''vuln'', ''misconfig'', ''secret'', ''license'']"

definition trivy_patterns :: "string list" where
  "trivy_patterns = [
     ''**/pyproject.toml'', ''pyproject.toml'', ''**/requirements*.txt'', ''requirements*.txt'', ''**/Pipfile'',
      ''**/Pipfile.lock'', ''**/poetry.lock'', ''**/setup.py'', ''**/setup.cfg'', ''**/package.json'',
      ''**/package-lock.json'', ''**/yarn.lock'', ''**/pnpm-lock.yaml'', ''**/npm-shrinkwrap.json'', ''**/Cargo.toml'',
      ''**/Cargo.lock'', ''**/go.mod'', ''**/go.sum'', ''**/pom.xml'', ''**/build.gradle'', ''**/build.gradle.kts'',
      ''**/gradle.lockfile'', ''**/*.csproj'', ''**/packages.config'', ''**/packages.lock.json'', ''**/Gemfile'',
      ''**/Gemfile.lock'', ''**/*.gemspec'', ''**/composer.json'', ''**/composer.lock'', ''**/Dockerfile'',
      ''**/Dockerfile.*'', ''**/*.dockerfile'', ''**/Containerfile'', ''**/Containerfile.*'', ''**/*.tf'',
      ''**/*.tfvars'', ''**/*.tf.json'', ''trivy.yaml'', ''trivy.yml'']"

fun scanner_names :: "string list \<Rightarrow> string list \<Rightarrow> py_error + string list" where
  "scanner_names seen [] = Inr []"
| "scanner_names seen (raw # raws) =
     (let x = py_lower (py_strip raw)
      in if x = [] \<or> x \<in> set seen then scanner_names seen raws
         else if x \<notin> set supported_scanners then Inl ValueError
         else map_sum id (Cons x) (scanner_names (x # seen) raws))"

definition parse_scanners :: "string \<Rightarrow> py_error + string list" where
  "parse_scanners raw =
     (case scanner_names [] (split_on CHR '','' raw) of
        Inl e \<Rightarrow> Inl e
      | Inr xs \<Rightarrow> if xs = [] then Inl ValueError else Inr xs)"

definition trivy_release_url :: string where
  "trivy_release_url = ''https://github.com/aquasecurity/trivy/releases/download/v0.70.0/trivy_0.70.0_Linux-64bit.tar.gz''"

text \<open>
  The binary is taken from the cache when it is there; otherwise the archive is fetched (\<open>None\<close>: the connection failed)
  and unpacked, which fails when it has no such member and says otherwise whether a regular file came out.
\<close>

record trivy_source =
  ts_tmpdir :: string
  ts_cached :: bool
  ts_fetch :: "string \<Rightarrow> string option"
  ts_extract :: "string \<Rightarrow> py_error + bool"

definition trivy_binary :: "trivy_source \<Rightarrow> scan_host \<Rightarrow> string" where
  "trivy_binary ts h =
     path_div (case sh_getenv h ''RUNNER_TEMP'' of None \<Rightarrow> ts_tmpdir ts | Some d \<Rightarrow> if d = [] then ts_tmpdir ts else d)
       ''trivy-0.70.0/trivy''"

definition ensure_trivy :: "trivy_source \<Rightarrow> scan_host \<Rightarrow> py_error + string" where
  "ensure_trivy ts h =
     (if ts_cached ts then Inr (trivy_binary ts h)
      else case ts_fetch ts trivy_release_url of
             None \<Rightarrow> Inl OSError
           | Some tarball \<Rightarrow>
               (case ts_extract ts tarball of
                  Inl e \<Rightarrow> Inl e
                | Inr is_file \<Rightarrow> if is_file then smoke_test h (trivy_binary ts h) else Inl RuntimeError))"

definition trivy_subprocess_env :: "scan_host \<Rightarrow> (string \<times> string) list" where
  "trivy_subprocess_env h = filter (\<lambda>(k, _). \<not> startswith k ''TRIVY_'') (sh_environ h)"

definition trivy_args :: "string \<Rightarrow> string list \<Rightarrow> string \<Rightarrow> string list" where
  "trivy_args binary scanners config =
     [binary, ''fs'', ''--severity'', join_with '','' trivy_order, ''--scanners'', join_with '','' scanners, ''--exit-code'', ''0'',
      ''--config'', config, ''--quiet'']"

definition trivy_step :: "scan_host \<Rightarrow> string list \<Rightarrow> string \<Rightarrow> report_target \<Rightarrow> scan_state \<Rightarrow> py_error option \<times> scan_state" where
  "trivy_step h args scan_path t s =
     (case sh_tool h (trivy_subprocess_env h) (args @ [''--format'', fst t, ''--output'', snd t, as_posix scan_path]) (ss_files s) of
        (None, fs) \<Rightarrow> (Some RuntimeError, s\<lparr>ss_files := fs\<rparr>)
      | (Some (rc, _), fs) \<Rightarrow> (if rc = 0 then None else Some RuntimeError, s\<lparr>ss_files := fs\<rparr>))"

text \<open>The changed files are not passed on: the whole tree is scanned.\<close>

definition run_trivy ::
    "scan_host \<Rightarrow> string \<Rightarrow> report_target list \<Rightarrow> string \<Rightarrow> string list \<Rightarrow> string list option \<Rightarrow> string \<Rightarrow> scan_state \<Rightarrow>
     (py_error + string) \<times> scan_state" where
  "run_trivy h binary targets config scanners files scan_path s =
     (case tally_runs ''trivy-tally.json'' targets of (tally_path, runs) \<Rightarrow>
        (case run_targets (trivy_step h (trivy_args binary scanners config) scan_path) runs s of
           (Some e, s') \<Rightarrow> (Inl e, s')
         | (None, s') \<Rightarrow> (Inr tally_path, s')))"

fun trivy_finding :: "scan_host \<Rightarrow> pyval \<Rightarrow> string list" where
  "trivy_finding h (PDict d) = [severity_str h ''UNKNOWN'' (prop_or_none d ''Severity'')]"
| "trivy_finding h _ = []"

definition trivy_group :: "scan_host \<Rightarrow> pyval \<Rightarrow> py_error + string list" where
  "trivy_group h v = map_sum id (\<lambda>fs. concat (map (trivy_finding h) fs)) (if truthy v then py_list v else Inr [])"

fun trivy_result :: "scan_host \<Rightarrow> pyval \<Rightarrow> py_error + string list" where
  "trivy_result h (PDict d) =
     map_sum id concat (mapM (\<lambda>k. trivy_group h (prop_or_none d k)) [''Vulnerabilities'', ''Misconfigurations'', ''Secrets'', ''Licenses''])"
| "trivy_result h _ = Inr []"

fun trivy_severities :: "scan_host \<Rightarrow> pyval \<Rightarrow> py_error + string list" where
  "trivy_severities h (PDict d) =
     (let v = prop_or_none d ''Results''
      in sum_bind (if truthy v then py_list v else Inr []) (\<lambda>rs. map_sum id concat (mapM (trivy_result h) rs)))"
| "trivy_severities h _ = Inl RuntimeError"

definition trivy_tally :: "scan_host \<Rightarrow> string \<Rightarrow> scan_state \<Rightarrow> py_error + (string \<times> int) list" where
  "trivy_tally = tally_report trivy_severities trivy_order"

definition trivy :: "trivy_source \<Rightarrow> scanner" where
  "trivy ts = \<lparr>sn_title = ''Trivy'', sn_prefix = ''TRIVY'', sn_stem = ''trivy-report'', sn_formats = trivy_formats,
     sn_config = ''trivy.yaml'', sn_order = trivy_order, sn_internal = ''trivy-tally.json'',
     sn_extra = Some (''scanners'', ''TRIVY_SCANNERS'', ''misconfig,vuln'', []), sn_check_extra = parse_scanners,
     sn_audited = (\<lambda>f. f \<noteq> [] \<and> is_audited_path trivy_patterns f), sn_ensure = ensure_trivy ts, sn_run = run_trivy, sn_tally = trivy_tally\<rparr>"

definition trivy_main :: "trivy_source \<Rightarrow> scan_host \<Rightarrow> (string \<Rightarrow> string option) \<Rightarrow> scan_state \<Rightarrow> script_end \<times> scan_state" where
  "trivy_main ts = scan_main (trivy ts)"

subsection \<open>Tables and scales\<close>

interpretation bandit_table: report_table bandit_formats
  by unfold_locales (simp add: bandit_formats_def)

interpretation trivy_table: report_table trivy_formats
  by unfold_locales (simp add: trivy_formats_def)

text \<open>A driver whose counts come from the severities of one JSON report on a scale without repetition.\<close>

locale graded_scanner = severity_scale "sn_order sn" for sn :: scanner +
  fixes severities :: "scan_host \<Rightarrow> pyval \<Rightarrow> py_error + string list"
  assumes graded: "sn_tally sn = tally_report severities (sn_order sn)"
begin

lemma tally_severities:
  "sn_tally sn h path s = Inr counts \<longleftrightarrow>
     (\<exists>data sevs. read_json h path s = Some data \<and> severities h data = Inr sevs \<and> counts = tally (sn_order sn) sevs)"
  by (auto simp: graded tally_report_def split: option.splits)

lemma pass_reads_report:
  assumes "fst (finish_scan sn args targets r s) = Exit 0" and "r = sn_tally sn h path s1"
  shows "\<exists>data sevs i. read_json h path s1 = Some data \<and> severities h data = Inr sevs \<and>
    index_of (py_upper (sa_threshold args)) (sn_order sn) = Some i \<and> set sevs \<inter> set (drop i (sn_order sn)) = {}"
proof -
  obtain counts where r: "r = Inr counts" and zero: "count_failing (sn_order sn) (py_upper (sa_threshold args)) counts = Inr 0"
    using assms(1) by (auto simp: finish_scan_def Let_def split: sum.splits if_splits)
  then obtain i where i: "index_of (py_upper (sa_threshold args)) (sn_order sn) = Some i"
    by (auto simp: count_failing_def split: option.splits)
  from r assms(2) obtain data sevs where d: "read_json h path s1 = Some data" "severities h data = Inr sevs" "counts = tally (sn_order sn) sevs"
    using tally_severities [of h path s1 counts] by auto
  with zero no_failing_iff [OF i] i show ?thesis by blast
qed

lemma report_decides:
  assumes "read_json h path s1 = Some data" and "severities h data = Inr sevs"
    and "index_of (py_upper (sa_threshold args)) (sn_order sn) = Some i"
  shows "fst (finish_scan sn args targets (sn_tally sn h path s1) s) = Exit (if set sevs \<inter> set (drop i (sn_order sn)) = {} then 0 else 1)"
proof -
  have "sn_tally sn h path s1 = Inr (tally (sn_order sn) sevs)" using tally_severities [of h path s1] assms(1,2) by auto
  then show ?thesis using failing_is_number_above [OF assms(3), of sevs]
    by (auto simp: finish_scan_def Let_def filter_empty_conv disjoint_iff)
qed

end

interpretation bandit_grades: graded_scanner bandit bandit_severities
  by unfold_locales (simp_all add: bandit_def bandit_order_def bandit_tally_def)

interpretation zizmor_grades: graded_scanner zizmor zizmor_severities
  by unfold_locales (simp_all add: zizmor_def zizmor_order_def zizmor_tally_def)

interpretation trivy_grades: graded_scanner "trivy ts" trivy_severities for ts
  by unfold_locales (simp_all add: trivy_def trivy_order_def trivy_tally_def)

definition graded_drivers :: "trivy_source \<Rightarrow> (scanner \<times> (scan_host \<Rightarrow> pyval \<Rightarrow> py_error + string list)) set" where
  "graded_drivers ts = {(bandit, bandit_severities), (zizmor, zizmor_severities), (trivy ts, trivy_severities)}"

lemma graded_driver: "(sn, severities) \<in> graded_drivers ts \<Longrightarrow> graded_scanner sn severities"
  using bandit_grades.graded_scanner_axioms zizmor_grades.graded_scanner_axioms trivy_grades.graded_scanner_axioms
  by (auto simp: graded_drivers_def)

lemma scan_prepare_not_clean: "scan_prepare sn h cli s = Inl e \<Longrightarrow> e \<noteq> Exit 0"
  by (auto simp: scan_prepare_def split: option.splits sum.splits if_splits)

end
