(* ===== verification/ScanProps.thy ===== *)
theory ScanProps
  imports Scanners
begin

text \<open>
  Theorems about the scanner drivers: the enrichment of SARIF reports, and the places where a driver's exit code or
  outputs do not say what its documentation promises.
\<close>

subsection \<open>A concrete host\<close>

text \<open>The tool writes the text \<open>report\<close> to the file named last; \<open>loads\<close> knows one text.\<close>

definition finding :: "string \<Rightarrow> pyval" where
  "finding sev = PDict [(''issue_severity'', PStr sev)]"

definition demo_scan_host :: "(string \<times> string) list \<Rightarrow> string list \<Rightarrow> scan_host" where
  "demo_scan_host environ sevs =
     \<lparr>sh_environ = environ, sh_is_dir = (\<lambda>d. d = ''.''), sh_inside = (\<lambda>_ _. True), sh_can_write = (\<lambda>_. True),
      sh_event = Inr (PDict []), sh_git = (\<lambda>_. (0, [])),
      sh_tool = (\<lambda>env args fs. (Some (0, last args), fs(last args \<mapsto> ''report''))), sh_pip = (\<lambda>_. Some 0),
      sh_beside_python = (\<lambda>name. Some name), sh_which = (\<lambda>_. None), sh_version = (\<lambda>_. Some (0, [])),
      sh_loads = (\<lambda>t. if t = ''report'' then Some (PDict [(''results'', PList (map finding sevs))]) else None),
      sh_dumps = (\<lambda>_. ''enriched''), sh_str = (\<lambda>_. [])\<rparr>"

definition demo_scan_state :: scan_state where
  "demo_scan_state = \<lparr>ss_files = [''bandit.yaml'' \<mapsto> [], ''trivy.yaml'' \<mapsto> []], ss_outputs = [], ss_summary = []\<rparr>"

definition scan_all :: "(string \<times> string) list" where
  "scan_all = [(''BANDIT_SCAN_MODE'', ''all'')]"

definition demo_trivy :: trivy_source where
  "demo_trivy = \<lparr>ts_tmpdir = ''/tmp'', ts_cached = False, ts_fetch = (\<lambda>_. None), ts_extract = (\<lambda>_. Inl KeyError)\<rparr>"

subsection \<open>The gate\<close>



text \<open>
  The gate decides by the report: when the scan succeeds and its report can be read, the exit code is 1 exactly when there
  is a finding at or above the threshold. What lies below it, or on no level of the scale, does not matter.
\<close>

theorem scan_gate_decides:
  assumes "(sn, severities) \<in> graded_drivers ts"
    and "scan_prepare sn h cli s = Inr (args, targets, config, extra, files)" and "files \<noteq> Some []" and "sn_ensure sn h = Inr binary"
    and "sn_run sn h binary targets config extra files (sa_source args) (set_output (path_outputs targets) s) = (Inr path, s1)"
    and "read_json h path s1 = Some data" and "severities h data = Inr sevs"
    and "index_of (py_upper (sa_threshold args)) (sn_order sn) = Some i"
  shows "fst (scan_main sn h cli s) = Exit (if set sevs \<inter> set (drop i (sn_order sn)) = {} then 0 else 1)"
  using assms(2-5) graded_scanner.report_decides [OF graded_driver [OF assms(1)] assms(6-8), of targets s1]
  by (simp add: scan_main_def scan_and_count_def)

theorem scan_gate_decides_witness:
  "fst (scan_main bandit (demo_scan_host scan_all [''LOW'', ''high'']) (\<lambda>_. None) demo_scan_state) = Exit 1"
proof -
  let ?h = "demo_scan_host scan_all [''LOW'', ''high'']"
  let ?args = "\<lparr>sa_mode = ''all'', sa_formats = ''sarif'', sa_source = ''.'', sa_threshold = ''high'', sa_extra = []\<rparr>"
  let ?targets = "[(''sarif'', ''bandit-report.sarif'')]"
  let ?run = "sn_run bandit ?h ''bandit'' ?targets ''bandit.yaml'' [] None ''.'' (set_output (path_outputs ?targets) demo_scan_state)"
  have prep: "scan_prepare bandit ?h (\<lambda>_. None) demo_scan_state = Inr (?args, ?targets, ''bandit.yaml'', [], None)" by code_simp
  have ens: "sn_ensure bandit ?h = Inr ''bandit''" by code_simp
  have "fst ?run = Inr ''bandit-tally.json''" by code_simp
  then have run: "?run = (Inr ''bandit-tally.json'', snd ?run)" by (metis prod.collapse)
  have data: "read_json ?h ''bandit-tally.json'' (snd ?run) = Some (PDict [(''results'', PList (map finding [''LOW'', ''high'']))])" by code_simp
  have sevs: "bandit_severities ?h (PDict [(''results'', PList (map finding [''LOW'', ''high'']))]) = Inr [''LOW'', ''HIGH'']" by code_simp
  have i: "index_of (py_upper (sa_threshold ?args)) (sn_order bandit) = Some 2" by code_simp
  have hit: "set [''LOW'', ''HIGH''] \<inter> set (drop 2 (sn_order bandit)) \<noteq> {}" by (simp add: bandit_def bandit_order_def)
  have "(bandit, bandit_severities) \<in> graded_drivers demo_trivy" by (simp add: graded_drivers_def)
  from scan_gate_decides [OF this prep _ ens _ data sevs i] run hit show ?thesis by simp
qed

subsection \<open>Enrichment\<close>

text \<open>A change of properties that is settled after one application settles the whole document.\<close>

lemma enrich_list_settled:
  assumes "\<And>v v' n. f v = Inr (v', n) \<Longrightarrow> \<exists>m. f v' = Inr (v', m)"
  shows "enrich_list f vs = Inr (vs', n) \<Longrightarrow> \<exists>m. enrich_list f vs' = Inr (vs', m)"
proof (induction vs arbitrary: vs' n)
  case (Cons v vs)
  then obtain v1 k vs1 m where v: "f v = Inr (v1, k)" "enrich_list f vs = Inr (vs1, m)" "vs' = v1 # vs1"
    by (auto split: sum.splits prod.splits)
  from assms [OF v(1)] Cons.IH [OF v(2)] v(3) show ?case by auto
qed simp

lemma enrich_entry_settled:
  assumes "\<And>v v' n. f v = Inr (v', n) \<Longrightarrow> \<exists>m. f v' = Inr (v', m)" and "enrich_entry k f d = Inr (d', n)"
  shows "\<exists>m. enrich_entry k f d' = Inr (d', m)"
proof (cases "\<exists>vs. map_of d k = Some (PList vs)")
  case True
  then obtain vs vs' where vs: "enrich_list f vs = Inr (vs', n)" "d' = AList.update k (PList vs') d"
    using assms(2) by (auto simp: enrich_entry_def)
  have "\<exists>m. enrich_list f vs' = Inr (vs', m)" by (rule enrich_list_settled [OF _ vs(1)]) (rule assms(1))
  with vs(2) show ?thesis by (auto simp: enrich_entry_def update_update)
next
  case False
  then have "d' = d" using assms(2) by (auto simp: enrich_entry_def split: option.splits pyval.splits if_splits)
  with assms(2) show ?thesis by blast
qed

lemma enrich_doc_settled:
  assumes "\<And>p. fst (f (fst (f p))) = fst (f p)" and "enrich_doc f d = Inr (d', n)"
  shows "\<exists>m. enrich_doc f d' = Inr (d', m)"
proof -
  have result: "\<exists>m. enrich_result f v' = (v', m)" if v: "enrich_result f v = (v', n)" for v v' n
  proof (cases v)
    case (PDict e)
    obtain p k where p: "f (case map_of e ''properties'' of Some (PDict p) \<Rightarrow> p | _ \<Rightarrow> []) = (p, k)" by fastforce
    with v PDict have v': "v' = PDict (AList.update ''properties'' (PDict p) e)" by simp
    have "fst (f p) = p" using assms(1) p by (metis fst_conv)
    then obtain m where "f p = (p, m)" by (metis prod.collapse)
    then show ?thesis by (simp add: v' update_update)
  qed (use v in auto)
  have run: "\<exists>m. enrich_run f v' = Inr (v', m)" if v: "enrich_run f v = Inr (v', n)" for v v' n
  proof (cases v)
    case (PDict e)
    then obtain e' where e: "enrich_entry ''results'' (\<lambda>v. Inr (enrich_result f v)) e = Inr (e', n)" "v' = PDict e'" using v by auto
    have "\<exists>m. enrich_entry ''results'' (\<lambda>v. Inr (enrich_result f v)) e' = Inr (e', m)"
      by (rule enrich_entry_settled [OF _ e(1)]) (use result in blast)
    then show ?thesis by (auto simp: e(2))
  qed (use v in auto)
  show ?thesis using assms(2) enrich_entry_settled [of "enrich_run f" "''runs''" d d' n] run unfolding enrich_doc_def by blast
qed

lemma score_settled: "fst (score table sev (fst (score table sev p))) = fst (score table sev p)"
  by (cases "map_of table sev") (simp_all add: score_def update_update)

lemma score_keeps: "k \<noteq> ''security-severity'' \<Longrightarrow> prop_or_none (fst (score table sev p)) k = prop_or_none p k"
  by (cases "map_of table sev") (simp_all add: score_def prop_or_none_def)

lemma bandit_props_settled: "fst (bandit_props h (fst (bandit_props h p))) = fst (bandit_props h p)"
  by (auto simp: bandit_props_def score_keeps score_settled)

lemma zizmor_props_settled: "fst (zizmor_props h (fst (zizmor_props h p))) = fst (zizmor_props h p)"
  by (simp add: zizmor_props_def score_keeps score_settled)

text \<open>
  Enriching a SARIF report twice is the same as enriching it once, with the scores of bandit and with those of
  zizmor. Bandit's keeps every score that is already there, and both leave all other properties of a result alone.
\<close>

theorem enrich_idempotent:
  assumes "f \<in> {bandit_props h, zizmor_props h}" and "enrich_doc f d = Inr (d', n)"
  shows "(\<exists>m. enrich_doc f d' = Inr (d', m)) \<and>
    (\<forall>p k. k \<noteq> ''security-severity'' \<longrightarrow> prop_or_none (fst (f p)) k = prop_or_none p k) \<and>
    (\<forall>p. prop_or_none p ''security-severity'' \<noteq> PNone \<longrightarrow> fst (bandit_props h p) = p)"
proof -
  have "fst (f (fst (f p))) = fst (f p)" for p using assms(1) bandit_props_settled zizmor_props_settled by fastforce
  from enrich_doc_settled [OF this assms(2)] have "\<exists>m. enrich_doc f d' = Inr (d', m)" .
  moreover have "\<forall>p k. k \<noteq> ''security-severity'' \<longrightarrow> prop_or_none (fst (f p)) k = prop_or_none p k"
    using assms(1) by (auto simp: bandit_props_def zizmor_props_def score_keeps)
  ultimately show ?thesis by (auto simp: bandit_props_def)
qed

definition demo_sarif :: "(string \<times> pyval) list" where
  "demo_sarif = [(''runs'', PList [PDict [(''results'', PList [PDict [(''properties'', finding ''HIGH'')]])]])]"

theorem enrich_idempotent_witness:
  "\<exists>d' m. enrich_doc (bandit_props (demo_scan_host [] [])) demo_sarif = Inr (d', 1) \<and>
     enrich_doc (bandit_props (demo_scan_host [] [])) d' = Inr (d', m)"
proof -
  let ?f = "bandit_props (demo_scan_host [] [])"
  have "case enrich_doc ?f demo_sarif of Inr (d', n) \<Rightarrow> n = 1 | Inl _ \<Rightarrow> False" by code_simp
  then obtain d' where d: "enrich_doc ?f demo_sarif = Inr (d', 1)" by (auto split: sum.splits prod.splits)
  with enrich_idempotent [OF _ d, of "demo_scan_host [] []"] show ?thesis by blast
qed

subsection \<open>Where the exit code misleads\<close>

text \<open>
  A threshold from the environment is not checked against the choices. When it is not a level of the scale, the driver
  installs and runs the tool, and then ends with an uncaught \<open>ValueError\<close>, that is with code 1, the code of findings,
  whatever the report says.
\<close>

theorem unchecked_threshold:
  assumes "sh_getenv h ''BANDIT_SEVERITY_THRESHOLD'' = Some t" and "py_upper t \<notin> set bandit_order"
  shows "\<exists>args. build_parser (sn_prefix bandit) (sn_order bandit) (sn_extra bandit) h (\<lambda>_. None) = Some args \<and>
    (\<forall>targets counts s. fst (finish_scan bandit args targets (Inr counts) s) = Uncaught ValueError \<and>
       exit_code (fst (finish_scan bandit args targets (Inr counts) s)) = 1)"
proof -
  obtain args where args: "build_parser (sn_prefix bandit) (sn_order bandit) (sn_extra bandit) h (\<lambda>_. None) = Some args" "sa_threshold args = t"
    using assms(1) by (simp add: build_parser_def pick_arg_def bandit_def)
  have "count_failing (sn_order bandit) (py_upper (sa_threshold args)) counts = Inl ValueError" for counts
    using assms(2) args(2) index_of_None [of "py_upper t" bandit_order]
    by (simp add: count_failing_def bandit_def del: index_of_None)
  then have "fst (finish_scan bandit args targets (Inr counts) s) = Uncaught ValueError" for targets counts s
    by (simp add: finish_scan_def Let_def)
  with args(1) show ?thesis by auto
qed

theorem unchecked_threshold_witness:
  "exit_code (fst (scan_main bandit (demo_scan_host (scan_all @ [(''BANDIT_SEVERITY_THRESHOLD'', ''critical'')]) []) (\<lambda>_. None) demo_scan_state)) = 1 \<and>
   (\<exists>args. build_parser (sn_prefix bandit) (sn_order bandit) (sn_extra bandit) (demo_scan_host [(''BANDIT_SEVERITY_THRESHOLD'', ''critical'')] []) (\<lambda>_. None)
      = Some args)"
proof -
  let ?h = "demo_scan_host [(''BANDIT_SEVERITY_THRESHOLD'', ''critical'')] []"
  have "sh_getenv ?h ''BANDIT_SEVERITY_THRESHOLD'' = Some ''critical''" "py_upper ''critical'' \<notin> set bandit_order" by code_simp+
  from unchecked_threshold [OF this]
  have "\<exists>args. build_parser (sn_prefix bandit) (sn_order bandit) (sn_extra bandit) ?h (\<lambda>_. None) = Some args" by blast
  moreover have "exit_code (fst (scan_main bandit (demo_scan_host (scan_all @ [(''BANDIT_SEVERITY_THRESHOLD'', ''critical'')]) []) (\<lambda>_. None) demo_scan_state)) = 1"
    by code_simp
  ultimately show ?thesis by blast
qed

lemma trivy_fields:
  "sn_prefix (trivy ts) = ''TRIVY''" "sn_order (trivy ts) = trivy_order" "sn_extra (trivy ts) = Some (''scanners'', ''TRIVY_SCANNERS'', ''misconfig,vuln'', [])"
  "sn_stem (trivy ts) = ''trivy-report''" "sn_formats (trivy ts) = trivy_formats" "sn_check_extra (trivy ts) = parse_scanners"
  "sn_config (trivy ts) = ''trivy.yaml''" "sn_audited (trivy ts) = (\<lambda>f. f \<noteq> [] \<and> is_audited_path trivy_patterns f)"
  by (simp_all add: trivy_def)

text \<open>
  A failed download is reported like findings. When trivy is not cached and its archive cannot be fetched, a run either
  does not need it (its end does not depend on the source at all) or ends with an uncaught exception, code 1, where
  the documentation has code 2 for runtime errors.
\<close>

theorem download_failure_looks_like_findings:
  assumes "\<not> ts_cached ts" and "ts_fetch ts trivy_release_url = None"
  shows "(\<forall>ts'. trivy_main ts' h cli s = trivy_main ts h cli s) \<or>
    (fst (trivy_main ts h cli s) = Uncaught OSError \<and> exit_code (fst (trivy_main ts h cli s)) = 1)"
proof -
  have same: "scan_prepare (trivy ts') = scan_prepare (trivy ts)" for ts'
    by (intro ext) (simp only: scan_prepare_def trivy_fields)
  have ens: "sn_ensure (trivy ts) h = Inl OSError" using assms by (simp add: trivy_def ensure_trivy_def)
  show ?thesis
  proof (cases "scan_prepare (trivy ts) h cli s")
    case (Inl e)
    then have "scan_prepare (trivy ts') h cli s = Inl e" for ts' using same [of ts'] by metis
    then have "trivy_main ts' h cli s = (e, s)" for ts' by (simp add: trivy_main_def scan_main_def)
    then show ?thesis by simp
  next
    case (Inr plan)
    obtain args targets config extra files where plan: "plan = (args, targets, config, extra, files)" by (metis prod.exhaust)
    show ?thesis
    proof (cases "files = Some []")
      case True
      have "scan_prepare (trivy ts') h cli s = Inr plan" for ts' using Inr same [of ts'] by metis
      then have "trivy_main ts' h cli s = (Exit 0, set_output [(''sarif_path'', Text []), (''non_sarif_paths'', Text [])] s)" for ts'
        using plan True by (simp add: trivy_main_def scan_main_def)
      then show ?thesis by simp
    next
      case False
      then show ?thesis using Inr plan ens by (simp add: trivy_main_def scan_main_def scan_and_count_def finish_scan_def Let_def)
    qed
  qed
qed

theorem download_failure_looks_like_findings_witness:
  "fst (trivy_main demo_trivy (demo_scan_host [(''TRIVY_SCAN_MODE'', ''all'')] []) (\<lambda>_. None) demo_scan_state) = Uncaught OSError \<and>
   trivy_main (demo_trivy\<lparr>ts_cached := True\<rparr>) (demo_scan_host [(''TRIVY_SCAN_MODE'', ''all'')] []) (\<lambda>_. None) demo_scan_state
     \<noteq> trivy_main demo_trivy (demo_scan_host [(''TRIVY_SCAN_MODE'', ''all'')] []) (\<lambda>_. None) demo_scan_state"
proof -
  let ?run = "\<lambda>ts. trivy_main ts (demo_scan_host [(''TRIVY_SCAN_MODE'', ''all'')] []) (\<lambda>_. None) demo_scan_state"
  have "fst (?run (demo_trivy\<lparr>ts_cached := True\<rparr>)) = Exit 2" by code_simp
  moreover have "\<not> ts_cached demo_trivy" "ts_fetch demo_trivy trivy_release_url = None" by (simp_all add: demo_trivy_def)
  moreover have "fst (?run demo_trivy) = Uncaught OSError" by code_simp
  ultimately show ?thesis
    using download_failure_looks_like_findings [of demo_trivy "demo_scan_host [(''TRIVY_SCAN_MODE'', ''all'')] []" "\<lambda>_. None" demo_scan_state]
    by (metis script_end.distinct(1))
qed

subsection \<open>Several reports\<close>

lemma join_snoc: "ws \<noteq> [] \<Longrightarrow> join_with sep (ws @ [w]) = join_with sep ws @ sep @ w"
proof (induction ws)
  case (Cons v ws)
  then show ?case by (cases ws) auto
qed simp

text \<open>
  With two or more reports that are not SARIF the outputs of a step cannot be read: their paths are joined by line
  breaks in a single-line assignment. The same holds for the three drivers, whose report names have neither \<open>=\<close> nor
  line breaks.
\<close>

theorem several_reports_break_outputs:
  assumes "(sn, severities) \<in> graded_drivers ts" and "parse_report_formats (sn_stem sn) (sn_formats sn) raw = Inr targets"
    and "2 \<le> length (non_sarif targets)"
  shows "read_vars (earlier @ var_lines (path_outputs targets) @ later) = None"
proof -
  obtain ws w where ws: "map snd (non_sarif targets) = ws @ [w]" "length ws + 1 = length (non_sarif targets)"
    using assms(3) by (metis Suc_eq_plus1 length_append_singleton length_map list.size(3) not_numeral_le_zero rev_exhaust)
  then have ws_ne: "ws \<noteq> []" using assms(3) by auto
  have "w \<in> set (map snd (non_sarif targets))" by (simp add: ws(1))
  then have "w \<in> set (map snd targets)" by (auto simp: non_sarif_def)
  then obtain fmt where "(fmt, w) \<in> set targets" by auto
  with parse_report_formats_ok [OF assms(2)] obtain ext where w: "map_of (sn_formats sn) fmt = Some ext" "w = sn_stem sn @ ''.'' @ ext"
    by blast
  have "ext \<in> snd ` set (sn_formats sn)" using w(1) by (metis image_eqI map_of_SomeD snd_conv)
  then have w_ok: "newline \<notin> set w" "w \<noteq> []" "CHR ''='' \<notin> set w"
    using assms(1) unfolding w(2)
    by (auto simp: graded_drivers_def bandit_def zizmor_def trivy_def bandit_formats_def zizmor_formats_def trivy_formats_def)
  have "var_lines (path_outputs targets) = var_lines [(''sarif_path'', Text (sarif_path targets))] @
      var_lines [(''non_sarif_paths'', Text (join_with [newline] ws @ newline # w))]"
    using ws(1) ws_ne by (simp add: path_outputs_def var_lines_def join_snoc)
  with multi_line_output_breaks [OF w_ok, of "earlier @ var_lines [(''sarif_path'', Text (sarif_path targets))]" "''non_sarif_paths''"
      "join_with [newline] ws" later]
  show ?thesis by simp
qed

theorem several_reports_break_outputs_witness:
  "\<exists>targets. parse_report_formats (sn_stem bandit) (sn_formats bandit) ''json, csv'' = Inr targets \<and> read_vars (var_lines (path_outputs targets)) = None"
proof -
  have p: "parse_report_formats (sn_stem bandit) (sn_formats bandit) ''json, csv'' = Inr [(''json'', ''bandit-report.json''), (''csv'', ''bandit-report.csv'')]"
    by code_simp
  have "(bandit, bandit_severities) \<in> graded_drivers demo_trivy" by (simp add: graded_drivers_def)
  from several_reports_break_outputs [OF this p, of "[]" "[]"] p show ?thesis by (simp add: non_sarif_def)
qed

text \<open>
  Reports have files of their own, with one exception: every accepted list of formats gives distinct paths for bandit and
  trivy, but zizmor's formats \<open>plain\<close> and \<open>github\<close> share a path, so that one report overwrites the other.
\<close>

theorem report_paths_distinct_but_zizmor:
  "(\<forall>raw targets. parse_report_formats stem bandit_formats raw = Inr targets \<longrightarrow> distinct (map snd targets)) \<and>
   (\<forall>raw targets. parse_report_formats stem trivy_formats raw = Inr targets \<longrightarrow> distinct (map snd targets)) \<and>
   parse_report_formats ''zizmor-report'' zizmor_formats ''plain,github'' =
     Inr [(''plain'', ''zizmor-report.txt''), (''github'', ''zizmor-report.txt'')]"
proof -
  have "parse_report_formats ''zizmor-report'' zizmor_formats ''plain,github'' =
     Inr [(''plain'', ''zizmor-report.txt''), (''github'', ''zizmor-report.txt'')]" by code_simp
  then show ?thesis using bandit_table.report_paths_distinct trivy_table.report_paths_distinct by blast
qed

theorem report_paths_distinct_but_zizmor_witness:
  "distinct (map snd [(''json'', ''r.json''), (''csv'', ''r.csv'')])"
proof -
  have "parse_report_formats ''r'' bandit_formats ''json,csv'' = Inr [(''json'', ''r.json''), (''csv'', ''r.csv'')]" by code_simp
  then show ?thesis using report_paths_distinct_but_zizmor [of "''r''"] by blast
qed

end
