(* ===== verification/Gitleaks.thy ===== *)
theory Gitleaks
  imports ScanProps
begin

text \<open>
  \<open>scan_tools/github_actions/gitleaks.py\<close>: the download and verification of the tool, the range of commits to scan, the
  enrichment of its SARIF report and the exit code.
\<close>

subsection \<open>The tool\<close>

definition gitleaks_formats :: "(string \<times> string) list" where
  "gitleaks_formats = [(''sarif'', ''sarif''), (''json'', ''json''), (''csv'', ''csv''), (''junit'', ''xml'')]"

definition gitleaks_version :: string where
  "gitleaks_version = ''8.30.1''"

definition gitleaks_sha256 :: string where
  "gitleaks_sha256 = ''551f6fc83ea457d62a0d98237cbad105af8d557003051f41f3e7ca7b3f2470eb''"

definition max_tarball_bytes :: int where
  "max_tarball_bytes = 100 * 1024 * 1024"

text \<open>
  \<open>gs_chunks\<close>: the pieces in which the archive arrives, an empty one at its end, or \<open>None\<close> when the connection
  fails.
\<close>

record gitleaks_source =
  gs_tmpdir :: string
  gs_cached :: bool
  gs_chunks :: "string list option"
  gs_sha256 :: "string \<Rightarrow> string"
  gs_extract :: "string \<Rightarrow> py_error + bool"

fun read_chunks :: "int \<Rightarrow> string list \<Rightarrow> py_error + string" where
  "read_chunks written [] = Inr []"
| "read_chunks written (chunk # chunks) =
     (if chunk = [] then Inr []
      else if written + int (length chunk) > max_tarball_bytes then Inl RuntimeError
      else map_sum id (\<lambda>rest. chunk @ rest) (read_chunks (written + int (length chunk)) chunks))"

definition gitleaks_binary :: "gitleaks_source \<Rightarrow> scan_host \<Rightarrow> string" where
  "gitleaks_binary gs h =
     path_div (case sh_getenv h ''RUNNER_TEMP'' of None \<Rightarrow> gs_tmpdir gs | Some d \<Rightarrow> if d = [] then gs_tmpdir gs else d)
       (''gitleaks-'' @ gitleaks_version @ ''/gitleaks'')"

definition check_version :: "gitleaks_source \<Rightarrow> scan_host \<Rightarrow> py_error + string" where
  "check_version gs h =
     (case sh_version h (gitleaks_binary gs h) of
        None \<Rightarrow> Inl RuntimeError
      | Some (rc, out) \<Rightarrow>
          if rc = 0 \<and> lstrip_chars ''v'' (py_strip out) = gitleaks_version then Inr (gitleaks_binary gs h) else Inl RuntimeError)"

definition get_gitleaks_binary :: "gitleaks_source \<Rightarrow> scan_host \<Rightarrow> py_error + string" where
  "get_gitleaks_binary gs h =
     (if gs_cached gs then Inr (gitleaks_binary gs h)
      else case gs_chunks gs of
             None \<Rightarrow> Inl OSError
           | Some chunks \<Rightarrow>
               sum_bind (read_chunks 0 chunks) (\<lambda>tarball.
                 if gs_sha256 gs tarball \<noteq> gitleaks_sha256 then Inl RuntimeError
                 else sum_bind (gs_extract gs tarball) (\<lambda>is_file. if is_file then check_version gs h else Inl RuntimeError)))"

subsection \<open>The range of commits\<close>

definition Z40 :: string where
  "Z40 = replicate 40 CHR ''0''"

definition str_val :: "scan_host \<Rightarrow> pyval \<Rightarrow> string" where
  "str_val h v = (case v of PStr s \<Rightarrow> s | _ \<Rightarrow> sh_str h v)"

definition as_text :: "pyval \<Rightarrow> py_error + string" where
  "as_text v = (case v of PStr s \<Rightarrow> Inr s | _ \<Rightarrow> Inl TypeError)"

definition rev_parse_cmd :: "string \<Rightarrow> string list" where
  "rev_parse_cmd base = [''git'', ''rev-parse'', ''--verify'', base @ ''^{commit}'']"

definition determine_log_opts :: "scan_host \<Rightarrow> string \<Rightarrow> string \<Rightarrow> pyval \<Rightarrow> py_error + string" where
  "determine_log_opts h scan_mode name event =
     (if scan_mode = ''all'' then Inr []
      else if name = ''pull_request_target'' then Inl ValueError
      else if name = ''pull_request'' then
        sum_bind (key_item ''pull_request'' event) (\<lambda>pr.
        sum_bind (sum_bind (key_item ''base'' pr) (key_item ''sha'')) (\<lambda>b.
        sum_bind (sum_bind (key_item ''head'' pr) (key_item ''sha'')) (\<lambda>head.
        sum_bind (as_text b) (\<lambda>base.
          if fst (sh_git h [git_fetch_cmd base, rev_parse_cmd base]) \<noteq> 0 then Inl RuntimeError
          else Inr (base @ ''..'' @ str_val h head)))))
      else if name = ''push'' then
        sum_bind (key_item ''before'' event) (\<lambda>before.
        sum_bind (key_item ''after'' event) (\<lambda>after.
          Inr (if before = PStr Z40 then [] else str_val h before @ ''..'' @ str_val h after)))
      else Inl ValueError)"

subsection \<open>Enrichment\<close>

text \<open>A result gets a level and a score where it has none; the number counts the values set.\<close>

definition leak_props :: "pyval \<Rightarrow> py_error + pyval \<times> nat" where
  "leak_props props =
     (case props of
        PDict p \<Rightarrow>
          Inr (if prop_or_none p ''security-severity'' = PNone
               then (PDict (AList.update ''security-severity'' (PStr ''8.5'') p), 1) else (props, 0))
      | _ \<Rightarrow> Inl ValueError)"

fun leak_result :: "pyval \<Rightarrow> py_error + pyval \<times> nat" where
  "leak_result (PDict d) =
     (let (d1, n) = (if prop_or_none d ''level'' = PNone then (AList.update ''level'' (PStr ''error'') d, 1) else (d, 0))
      in map_sum id (\<lambda>(props, m). (PDict (AList.update ''properties'' props d1), n + m))
           (leak_props (case map_of d1 ''properties'' of None \<Rightarrow> PDict [] | Some p \<Rightarrow> p)))"
| "leak_result _ = Inl ValueError"

definition leak_entry :: "string \<Rightarrow> (pyval \<Rightarrow> py_error + pyval \<times> nat) \<Rightarrow> (string \<times> pyval) list \<Rightarrow> py_error + (string \<times> pyval) list \<times> nat" where
  "leak_entry k f d =
     (case map_of d k of
        None \<Rightarrow> Inr (d, 0)
      | Some (PList vs) \<Rightarrow> map_sum id (\<lambda>(vs', n). (AList.update k (PList vs') d, n)) (enrich_list f vs)
      | Some _ \<Rightarrow> Inl ValueError)"

fun leak_run :: "pyval \<Rightarrow> py_error + pyval \<times> nat" where
  "leak_run (PDict d) = map_sum id (\<lambda>(d', n). (PDict d', n)) (leak_entry ''results'' leak_result d)"
| "leak_run _ = Inl ValueError"

fun leak_doc :: "pyval \<Rightarrow> py_error + pyval \<times> nat" where
  "leak_doc (PDict d) =
     (if map_of d ''runs'' = None \<or> map_of d ''runs'' = Some (PList []) then Inl ValueError
      else map_sum id (\<lambda>(d', n). (PDict d', n)) (leak_entry ''runs'' leak_run d))"
| "leak_doc _ = Inl AttributeError"

definition enrich_leaks :: "scan_host \<Rightarrow> string \<Rightarrow> scan_state \<Rightarrow> py_error option \<times> scan_state" where
  "enrich_leaks h path s =
     (case read_json h path s of
        None \<Rightarrow> (Some ValueError, s)
      | Some data \<Rightarrow>
          (case leak_doc data of
             Inl e \<Rightarrow> (Some e, s)
           | Inr (data', n) \<Rightarrow>
               if n = 0 then (None, s)
               else if sh_can_write h path then (None, s\<lparr>ss_files := (ss_files s)(path \<mapsto> sh_dumps h data')\<rparr>)
               else (Some RuntimeError, s)))"

subsection \<open>The driver\<close>

definition gitleaks_args :: "string \<Rightarrow> string \<Rightarrow> string \<Rightarrow> string \<Rightarrow> string list" where
  "gitleaks_args binary config log_opts source =
     [binary, ''detect'', ''--source'', as_posix source, ''--redact'', ''--verbose'', ''--no-banner'', ''--exit-code'', ''1'', ''--config'', config] @
     (if log_opts = [] then [] else [''--log-opts='' @ log_opts])"

text \<open>One run for every format; the result says whether one of them found leaks.\<close>

fun run_gitleaks :: "scan_host \<Rightarrow> string list \<Rightarrow> report_target list \<Rightarrow> bool \<Rightarrow> scan_state \<Rightarrow> (py_error + bool) \<times> scan_state" where
  "run_gitleaks h args [] leaks s = (Inr leaks, s)"
| "run_gitleaks h args (t # ts) leaks s =
     (case sh_tool h (sh_environ h) (args @ [''--report-format'', fst t, ''--report-path'', snd t]) (ss_files s) of
        (None, fs) \<Rightarrow> (Inl OSError, s\<lparr>ss_files := fs\<rparr>)
      | (Some (rc, _), fs) \<Rightarrow>
          if rc \<noteq> 0 \<and> rc \<noteq> 1 \<or> fs (snd t) = None then (Inl RuntimeError, s\<lparr>ss_files := fs\<rparr>)
          else
            (case (if fst t = ''sarif'' then enrich_leaks h (snd t) (s\<lparr>ss_files := fs\<rparr>) else (None, s\<lparr>ss_files := fs\<rparr>)) of
               (Some e, s') \<Rightarrow> (Inl e, s')
             | (None, s') \<Rightarrow> run_gitleaks h args ts (leaks \<or> rc = 1) s'))"

definition gitleaks_main :: "gitleaks_source \<Rightarrow> scan_host \<Rightarrow> (string \<Rightarrow> string option) \<Rightarrow> scan_state \<Rightarrow> script_end \<times> scan_state" where
  "gitleaks_main gs h cli s =
     (case (pick_arg h cli ''scan-mode'' ''GITLEAKS_SCAN_MODE'' ''changed'' [''changed'', ''all''],
            pick_arg h cli ''report-formats'' ''GITLEAKS_REPORT_FORMATS'' ''sarif'' [],
            pick_arg h cli ''source-dir'' ''GITLEAKS_SOURCE_DIR'' ''.'' []) of
        (Some mode, Some formats, Some source) \<Rightarrow>
          (case parse_report_formats ''gitleaks-report'' gitleaks_formats formats of
             Inl _ \<Rightarrow> (Exit 1, s)
           | Inr targets \<Rightarrow>
               if \<not> sh_is_dir h source then (Exit 2, s)
               else
                 (case sum_bind (resolve_config_path ''gitleaks.toml'' s) (\<lambda>config. sum_bind (sh_event h) (\<lambda>event.
                         map_sum id (Pair config) (determine_log_opts h mode (event_name h) event))) of
                    Inl e \<Rightarrow> (if e \<in> set [FileNotFoundError, KeyError, ValueError, RuntimeError] then Exit 2 else Uncaught e, s)
                  | Inr (config, log_opts) \<Rightarrow>
                      let s1 = set_output (path_outputs targets) s; emit = emit_non_sarif_reports ''Gitleaks'' (non_sarif targets)
                      in case (case get_gitleaks_binary gs h of
                                 Inl e \<Rightarrow> (Inl e, s1)
                               | Inr binary \<Rightarrow> run_gitleaks h (gitleaks_args binary config log_opts source) targets False s1) of
                           (Inl e, s2) \<Rightarrow> if e = RuntimeError then (Exit 2, emit s2) else (Uncaught e, s2)
                         | (Inr leaks, s2) \<Rightarrow> (Exit (if leaks then 1 else 0), emit s2)))
      | _ \<Rightarrow> (Exit 2, s))"

subsection \<open>What is shown\<close>

interpretation gitleaks_table: report_table gitleaks_formats
  by unfold_locales (simp add: gitleaks_formats_def)

lemma read_chunks_ok:
  "read_chunks written chunks = Inr tarball \<Longrightarrow> written \<le> max_tarball_bytes \<Longrightarrow>
     \<exists>n. tarball = concat (take n chunks) \<and> written + int (length tarball) \<le> max_tarball_bytes"
proof (induction chunks arbitrary: written tarball)
  case (Cons c chunks)
  show ?case
  proof (cases "c = []")
    case True
    with Cons.prems show ?thesis by (auto intro: exI [of _ 0])
  next
    case False
    with Cons.prems obtain rest where rest: "read_chunks (written + int (length c)) chunks = Inr rest" "tarball = c @ rest"
      and cap: "written + int (length c) \<le> max_tarball_bytes" by (auto split: if_splits)
    from Cons.IH [OF rest(1) cap] obtain n where "rest = concat (take n chunks)" "written + int (length c) + int (length rest) \<le> max_tarball_bytes"
      by blast
    with rest(2) show ?thesis by (intro exI [of _ "Suc n"]) auto
  qed
qed (auto intro: exI [of _ 0])

text \<open>
  A freshly installed gitleaks is the pinned one: the archive was at most 100 MiB, had the pinned digest and the binary
  reports the pinned version. A cached binary is returned without any of these checks, whatever it is.
\<close>

theorem gitleaks_binary_verified:
  assumes "get_gitleaks_binary gs h = Inr binary"
  shows "binary = gitleaks_binary gs h \<and>
    (gs_cached gs \<or>
     (\<exists>chunks n out. gs_chunks gs = Some chunks \<and> int (length (concat (take n chunks))) \<le> max_tarball_bytes \<and>
        gs_sha256 gs (concat (take n chunks)) = gitleaks_sha256 \<and> sh_version h binary = Some (0, out) \<and>
        lstrip_chars ''v'' (py_strip out) = gitleaks_version)) \<and>
    (\<forall>gs'. gs_cached gs' \<longrightarrow> (\<exists>b. get_gitleaks_binary gs' h = Inr b))"
proof (cases "gs_cached gs")
  case True
  with assms show ?thesis by (auto simp: get_gitleaks_binary_def)
next
  case False
  with assms obtain chunks tarball where c: "gs_chunks gs = Some chunks" "read_chunks 0 chunks = Inr tarball"
    "gs_sha256 gs tarball = gitleaks_sha256" "check_version gs h = Inr binary"
    by (auto simp: get_gitleaks_binary_def sum_bind_Inr split: option.splits if_splits)
  have "0 \<le> max_tarball_bytes" by (simp add: max_tarball_bytes_def)
  from read_chunks_ok [OF c(2) this] obtain n where "tarball = concat (take n chunks)" "int (length tarball) \<le> max_tarball_bytes" by auto
  with c show ?thesis by (auto simp: check_version_def get_gitleaks_binary_def split: option.splits if_splits)
qed

definition demo_gitleaks :: gitleaks_source where
  "demo_gitleaks = \<lparr>gs_tmpdir = ''/tmp'', gs_cached = False, gs_chunks = Some [''abc'', []], gs_sha256 = (\<lambda>_. gitleaks_sha256),
     gs_extract = (\<lambda>_. Inr True)\<rparr>"

definition demo_leak_host :: "int \<Rightarrow> pyval \<Rightarrow> scan_host" where
  "demo_leak_host rc sarif = (demo_scan_host [(''GITLEAKS_SCAN_MODE'', ''all'')] [])
     \<lparr>sh_tool := (\<lambda>env args fs. (Some (rc, []), fs(last args \<mapsto> ''report''))), sh_version := (\<lambda>_. Some (0, ''v8.30.1'')),
      sh_loads := (\<lambda>_. Some sarif)\<rparr>"

definition demo_leak_state :: scan_state where
  "demo_leak_state = \<lparr>ss_files = [''gitleaks.toml'' \<mapsto> []], ss_outputs = [], ss_summary = []\<rparr>"

theorem gitleaks_binary_verified_witness:
  "\<exists>binary chunks n. get_gitleaks_binary demo_gitleaks (demo_leak_host 0 PNone) = Inr binary \<and>
     gs_chunks demo_gitleaks = Some chunks \<and> gs_sha256 demo_gitleaks (concat (take n chunks)) = gitleaks_sha256"
proof -
  have "case get_gitleaks_binary demo_gitleaks (demo_leak_host 0 PNone) of Inr _ \<Rightarrow> True | Inl _ \<Rightarrow> False" by code_simp
  then obtain b where b: "get_gitleaks_binary demo_gitleaks (demo_leak_host 0 PNone) = Inr b" by (auto split: sum.splits)
  have "\<not> gs_cached demo_gitleaks" by (simp add: demo_gitleaks_def)
  with gitleaks_binary_verified [OF b] b show ?thesis by blast
qed

text \<open>Every run for a format is recorded by its exit code.\<close>

lemma run_gitleaks_clean:
  "run_gitleaks h args ts leaks s = (Inr False, s') \<Longrightarrow>
     \<not> leaks \<and> (\<forall>t \<in> set ts. \<exists>fs out fs'. sh_tool h (sh_environ h) (args @ [''--report-format'', fst t, ''--report-path'', snd t]) fs
        = (Some (0, out), fs') \<and> fs' (snd t) \<noteq> None)"
proof (induction ts arbitrary: leaks s)
  case (Cons t ts)
  obtain o1 fs where tool: "sh_tool h (sh_environ h) (args @ [''--report-format'', fst t, ''--report-path'', snd t]) (ss_files s) = (o1, fs)"
    by fastforce
  with Cons.prems obtain rc out where rc: "o1 = Some (rc, out)" "rc = 0 \<or> rc = 1" "fs (snd t) \<noteq> None"
    by (cases o1) (auto split: if_splits)
  obtain e s1 where e: "(if fst t = ''sarif'' then enrich_leaks h (snd t) (s\<lparr>ss_files := fs\<rparr>) else (None, s\<lparr>ss_files := fs\<rparr>)) = (e, s1)"
    by fastforce
  with Cons.prems tool rc have "e = None" "run_gitleaks h args ts (leaks \<or> rc = 1) s1 = (Inr False, s')"
    by (auto split: option.splits)
  from Cons.IH [OF this(2)] tool rc show ?case by auto
qed simp



text \<open>
  A SARIF report that is not as expected looks like a leak: the \<open>ValueError\<close> of the enrichment is not caught by \<open>main\<close>, so
  a clean scan whose report has, for instance, no runs ends with code 1, the code of leaks, not with the documented 2.
\<close>

theorem bad_sarif_looks_like_leak:
  assumes "read_json h (snd t) (s\<lparr>ss_files := fs\<rparr>) = Some data" and "leak_doc data = Inl ValueError" and "fst t = ''sarif''"
    and "sh_tool h (sh_environ h) (args @ [''--report-format'', fst t, ''--report-path'', snd t]) (ss_files s) = (Some (0, out), fs)"
    and "fs (snd t) \<noteq> None"
  shows "run_gitleaks h args (t # ts) leaks s = (Inl ValueError, s\<lparr>ss_files := fs\<rparr>) \<and> exit_code (Uncaught ValueError) = 1"
  using assms by (auto simp: enrich_leaks_def)

theorem bad_sarif_looks_like_leak_witness:
  "run_gitleaks (demo_leak_host 0 (PDict [])) [] [(''sarif'', ''r.sarif'')] False demo_leak_state
     = (Inl ValueError, demo_leak_state\<lparr>ss_files := (ss_files demo_leak_state)(''r.sarif'' \<mapsto> ''report'')\<rparr>) \<and>
   fst (gitleaks_main demo_gitleaks (demo_leak_host 0 (PDict [])) (\<lambda>_. None) demo_leak_state) = Uncaught ValueError"
proof -
  have "fst (gitleaks_main demo_gitleaks (demo_leak_host 0 (PDict [])) (\<lambda>_. None) demo_leak_state) = Uncaught ValueError" by code_simp
  then show ?thesis
    using bad_sarif_looks_like_leak [of "demo_leak_host 0 (PDict [])" "(''sarif'', ''r.sarif'')"
        "(ss_files demo_leak_state)(''r.sarif'' \<mapsto> ''report'')" demo_leak_state "PDict []" "[]" "[]" "[]" False]
    by (simp add: read_json_def demo_leak_host_def)
qed

text \<open>After an enrichment every result has a level and a score, and what it had is kept.\<close>

definition scored :: "pyval \<Rightarrow> bool" where
  "scored v \<longleftrightarrow> (\<exists>d p. v = PDict d \<and> prop_or_none d ''level'' \<noteq> PNone \<and> map_of d ''properties'' = Some (PDict p) \<and>
     prop_or_none p ''security-severity'' \<noteq> PNone)"

lemma leak_result_scored: "leak_result v = Inr (v', n) \<Longrightarrow> scored v'"
proof -
  assume r: "leak_result v = Inr (v', n)"
  then obtain d where v: "v = PDict d" by (cases v) auto
  define d1 where "d1 = (if prop_or_none d ''level'' = PNone then AList.update ''level'' (PStr ''error'') d else d)"
  have level: "prop_or_none d1 ''level'' \<noteq> PNone" by (simp add: d1_def prop_or_none_def)
  from r obtain props m where props: "leak_props (case map_of d1 ''properties'' of None \<Rightarrow> PDict [] | Some p \<Rightarrow> p) = Inr (props, m)"
    and v': "v' = PDict (AList.update ''properties'' props d1)" by (auto simp: v d1_def Let_def split: if_splits)
  have "\<exists>p. props = PDict p \<and> prop_or_none p ''security-severity'' \<noteq> PNone" if "leak_props q = Inr (props, m)" for q
    using that by (cases q) (auto simp: leak_props_def prop_or_none_def split: if_splits)
  with props obtain p where p: "props = PDict p" "prop_or_none p ''security-severity'' \<noteq> PNone" by blast
  have "prop_or_none (AList.update ''properties'' props d1) ''level'' = prop_or_none d1 ''level''" by (simp add: prop_or_none_def)
  with level p v' show ?thesis by (simp add: scored_def)
qed

lemma enrich_list_all: "enrich_list f vs = Inr (vs', n) \<Longrightarrow> (\<And>v v' n. f v = Inr (v', n) \<Longrightarrow> P v') \<Longrightarrow> list_all P vs'"
  by (induction vs arbitrary: vs' n) (auto split: sum.splits prod.splits)

theorem leaks_all_scored:
  assumes "leak_doc data = Inr (data', n)"
  shows "\<exists>d runs. data' = PDict d \<and> map_of d ''runs'' = Some (PList runs) \<and>
    list_all (\<lambda>run. \<exists>e. run = PDict e \<and> (case map_of e ''results'' of None \<Rightarrow> True | Some (PList rs) \<Rightarrow> list_all scored rs | _ \<Rightarrow> False)) runs"
proof -
  let ?ok = "\<lambda>run. \<exists>e. run = PDict e \<and> (case map_of e ''results'' of None \<Rightarrow> True | Some (PList rs) \<Rightarrow> list_all scored rs | _ \<Rightarrow> False)"
  have run: "?ok run'" if "leak_run run = Inr (run', k)" for run run' k
    using that enrich_list_all [OF _ leak_result_scored] by (cases run) (auto simp: leak_entry_def split: option.splits pyval.splits)
  obtain d where d: "data = PDict d" using assms by (cases data) auto
  then obtain vs vs' where "enrich_list leak_run vs = Inr (vs', n)" "data' = PDict (AList.update ''runs'' (PList vs') d)"
    using assms by (auto simp: leak_entry_def split: if_splits option.splits pyval.splits)
  moreover from this(1) have "list_all ?ok vs'" by (rule enrich_list_all) (rule run)
  ultimately show ?thesis by simp
qed

theorem leaks_all_scored_witness:
  "\<exists>d runs. leak_doc (PDict [(''runs'', PList [PDict [(''results'', PList [PDict []])]])]) = Inr (PDict d, 2) \<and> map_of d ''runs'' = Some (PList runs)"
proof -
  let ?doc = "PDict [(''runs'', PList [PDict [(''results'', PList [PDict []])]])]"
  have "case leak_doc ?doc of Inr (d, n) \<Rightarrow> n = 2 | Inl _ \<Rightarrow> False" by code_simp
  then obtain d' where d: "leak_doc ?doc = Inr (d', 2)" by (auto split: sum.splits prod.splits)
  from leaks_all_scored [OF d] d show ?thesis by blast
qed

end
