(* ===== verification/Reports.thy ===== *)
theory Reports
  imports PyVal
begin

text \<open>
  The readers of \<open>framework/results/backends/clickhouse.py\<close>: the test plan, the counts of a platform and the
  JSON reports of pytest, as they are read before anything is sent to ClickHouse. \<open>json.loads\<close> and \<open>json.dumps\<close>,
  \<open>str\<close> and \<open>float\<close> on values without a simple text and the files found below a directory are arguments.
\<close>

record report_host =
  rh_loads :: "string \<Rightarrow> pyval option"
  rh_dumps :: "pyval \<Rightarrow> string"
  rh_repr :: "pyval \<Rightarrow> string"
  rh_float :: "string \<Rightarrow> rat option"

text \<open>A file that \<open>rglob\<close> found: its path, the parts of the path below the searched directory, its parent, its text.\<close>

record found_file =
  ff_path :: string
  ff_parts :: "string list"
  ff_parent :: string
  ff_text :: "py_error + string"

record target_config =
  tg_name :: string
  tg_runs_on :: string
  tg_artifact_group :: string
  tg_gpu_arch :: string
  tg_tests_filters :: string
  tg_target_available :: bool

record platform_counts =
  pc_platform :: string
  pc_passed :: int
  pc_skipped :: int
  pc_failed :: int
  pc_error :: int
  pc_total :: int

record test_case_result =
  tr_nodeid :: string
  tr_test_file :: string
  tr_test_class :: string
  tr_test_name :: string
  tr_outcome :: string
  tr_duration_secs :: rat
  tr_phase :: string
  tr_error_type :: string
  tr_error_message :: string
  tr_hw_marker :: string
  tr_ci_marker :: string
  tr_layer_marker :: string
  tr_runtime_marker :: string
  tr_markers_raw :: string

subsection \<open>Values and names\<close>

definition env_bool :: "(string \<Rightarrow> string option) \<Rightarrow> string \<Rightarrow> bool \<Rightarrow> bool" where
  "env_bool getenv name dflt =
     (case getenv name of
        None \<Rightarrow> dflt
      | Some value \<Rightarrow> py_lower (py_strip value) \<in> set [''1'', ''true'', ''yes'', ''on''])"

text \<open>\<open>str(v)\<close>; the texts of floats, lists and dictionaries are an argument.\<close>

fun py_str :: "report_host \<Rightarrow> pyval \<Rightarrow> string" where
  "py_str h (PStr s) = s"
| "py_str h (PInt i) = show_int i"
| "py_str h (PBool b) = (if b then ''True'' else ''False'')"
| "py_str h PNone = ''None''"
| "py_str h v = rh_repr h v"

definition int_or_zero :: "pyval \<Rightarrow> int" where
  "int_or_zero value = (case py_int value of Inl _ \<Rightarrow> 0 | Inr i \<Rightarrow> i)"

definition str_or_empty :: "report_host \<Rightarrow> pyval \<Rightarrow> string" where
  "str_or_empty h value = (if value = PNone then [] else py_str h value)"

text \<open>\<open>a or b\<close>\<close>

definition py_or :: "pyval \<Rightarrow> pyval \<Rightarrow> pyval" where
  "py_or a b = (if truthy a then a else b)"

text \<open>\<open>[A-Za-z_][A-Za-z0-9_]*\<close>\<close>

definition ident_start :: "char \<Rightarrow> bool" where
  "ident_start c \<longleftrightarrow> c = CHR ''_'' \<or> (let n = (of_char c :: nat) in (65 \<le> n \<and> n \<le> 90) \<or> (97 \<le> n \<and> n \<le> 122))"

definition is_ident :: "string \<Rightarrow> bool" where
  "is_ident s \<longleftrightarrow> s \<noteq> [] \<and> ident_start (hd s) \<and> list_all (\<lambda>c. ident_start c \<or> is_digit c) s"

text \<open>An identifier has no dot, so the pattern is one identifier or two with a dot between them.\<close>

definition validate_clickhouse_table_name :: "string \<Rightarrow> py_error + string" where
  "validate_clickhouse_table_name table =
     (case split_on CHR ''.'' table of
        [t] \<Rightarrow> if is_ident t then Inr table else Inl ValueError
      | [db, t] \<Rightarrow> if is_ident db \<and> is_ident t then Inr table else Inl ValueError
      | _ \<Rightarrow> Inl ValueError)"

subsection \<open>The test plan\<close>

text \<open>The sections of \<open>testplan.ini\<close> with the values \<open>configparser\<close> has for their options; \<open>None\<close> without a file.\<close>

type_synonym ini = "(string \<times> (string \<times> string) list) list"

definition ini_get :: "(string \<times> string) list \<Rightarrow> string \<Rightarrow> string \<Rightarrow> string" where
  "ini_get options name fallback = (case map_of options name of None \<Rightarrow> fallback | Some v \<Rightarrow> v)"

definition target_of_section :: "string \<times> (string \<times> string) list \<Rightarrow> string \<times> target_config" where
  "target_of_section sec =
     (fst sec,
      \<lparr>tg_name = fst sec, tg_runs_on = ini_get (snd sec) ''runs_on'' [], tg_artifact_group = ini_get (snd sec) ''artifact_group'' [],
       tg_gpu_arch = ini_get (snd sec) ''gpu_arch'' [], tg_tests_filters = ini_get (snd sec) ''tests_filters'' [],
       tg_target_available = (py_lower (py_strip (ini_get (snd sec) ''target_available'' ''true'')) \<noteq> ''false'')\<rparr>)"

definition load_testplan :: "(py_error + ini) option \<Rightarrow> py_error + (string \<times> target_config) list" where
  "load_testplan file =
     (case file of
        None \<Rightarrow> Inr []
      | Some (Inl e) \<Rightarrow> Inl e
      | Some (Inr sections) \<Rightarrow> Inr (map target_of_section sections))"

definition resolve_target :: "string \<Rightarrow> (string \<times> target_config) list \<Rightarrow> target_config option" where
  "resolve_target platform targets =
     (case map_of targets platform of
        Some t \<Rightarrow> Some t
      | None \<Rightarrow>
          min_by (\<lambda>t. - int (length (tg_name t)))
            (map snd (filter (\<lambda>(name, t). startswith platform name) targets)))"

subsection \<open>Counts\<close>

definition parse_counts :: "report_host \<Rightarrow> pyval \<Rightarrow> string \<Rightarrow> py_error + platform_counts" where
  "parse_counts h payload fallback_platform =
     sum_bind (py_get payload ''platform'' PNone) (\<lambda>platform.
     sum_bind (mapM (\<lambda>k. py_get payload k PNone) [''passed'', ''skipped'', ''failed'', ''error'', ''total'']) (\<lambda>ns.
       Inr \<lparr>pc_platform = py_str h (py_or platform (PStr fallback_platform)),
            pc_passed = int_or_zero (ns ! 0), pc_skipped = int_or_zero (ns ! 1), pc_failed = int_or_zero (ns ! 2),
            pc_error = int_or_zero (ns ! 3), pc_total = int_or_zero (ns ! 4)\<rparr>))"

definition load_json :: "report_host \<Rightarrow> found_file \<Rightarrow> py_error + pyval" where
  "load_json h f = sum_bind (ff_text f) (\<lambda>t. case rh_loads h t of None \<Rightarrow> Inl ValueError | Some v \<Rightarrow> Inr v)"

definition artifact_of :: "found_file \<Rightarrow> string" where
  "artifact_of f = (case ff_parts f of [] \<Rightarrow> ff_parent f | p # _ \<Rightarrow> p)"

type_synonym counts_row = "platform_counts \<times> string \<times> string"

definition read_local_counts :: "report_host \<Rightarrow> found_file list \<Rightarrow> py_error + counts_row list" where
  "read_local_counts h files =
     mapM (\<lambda>f. sum_bind (load_json h f) (\<lambda>payload.
               sum_bind (parse_counts h payload (artifact_of f)) (\<lambda>counts. Inr (counts, artifact_of f, ff_path f)))) files"

subsection \<open>Markers and node identifiers\<close>

text \<open>\<open>\w\<close> on code points below 256.\<close>

definition is_word :: "char \<Rightarrow> bool" where
  "is_word c \<longleftrightarrow> ident_start c \<or> is_digit c \<or>
     (let n = (of_char c :: nat)
      in n \<in> {170, 178, 179, 181, 185, 186, 188, 189, 190} \<or> (192 \<le> n \<and> n \<noteq> 215 \<and> n \<noteq> 247))"

text \<open>The pattern ends in \<open>$\<close>, which also matches before a final line end.\<close>

definition marker_of :: "string \<Rightarrow> (string \<times> string) option" where
  "marker_of key =
     (case split1 CHR ''.'' key of
        (kind, Some rest) \<Rightarrow>
          (let val = (if rest \<noteq> [] \<and> last rest = char_of (10 :: nat) then butlast rest else rest)
           in if kind \<in> set [''hw'', ''ci'', ''layer'', ''runtime''] \<and> val \<noteq> [] \<and> list_all is_word val
              then Some (kind, val) else None)
      | _ \<Rightarrow> None)"

type_synonym marker_values = "(string \<times> string \<times> string \<times> string) \<times> string list"

fun marker_step :: "string \<Rightarrow> marker_values \<Rightarrow> marker_values" where
  "marker_step key ((hw, ci, layer, runtime), all_markers) =
     (case marker_of key of
        None \<Rightarrow> ((hw, ci, layer, runtime), all_markers)
      | Some (kind, val) \<Rightarrow>
          ((if kind = ''hw'' \<and> hw = [] then (val, ci, layer, runtime)
            else if kind = ''ci'' \<and> ci = [] then (hw, val, layer, runtime)
            else if kind = ''layer'' \<and> layer = [] then (hw, ci, val, runtime)
            else if kind = ''runtime'' \<and> runtime = [] then (hw, ci, layer, val)
            else (hw, ci, layer, runtime)),
           all_markers @ [key]))"

definition extract_marker_dims :: "report_host \<Rightarrow> string list \<Rightarrow> (string \<times> string \<times> string \<times> string) \<times> string" where
  "extract_marker_dims h keywords =
     (case fold marker_step keywords (([], [], [], []), []) of
        (dims, all_markers) \<Rightarrow> (dims, rh_dumps h (PList (map PStr (sort all_markers)))))"

text \<open>\<open>s.split(sep)\<close> for a separator that is not empty.\<close>

fun split_str :: "string \<Rightarrow> string \<Rightarrow> string list" where
  "split_str sep [] = [[]]"
| "split_str sep (c # s) =
     (if sep \<noteq> [] \<and> startswith (c # s) sep then [] # split_str sep (drop (length sep - 1) s)
      else case split_str sep s of [] \<Rightarrow> [[c]] | p # ps \<Rightarrow> (c # p) # ps)"

definition parse_nodeid :: "string \<Rightarrow> string \<times> string \<times> string" where
  "parse_nodeid nodeid =
     (case split_str ''::'' nodeid of
        [] \<Rightarrow> (nodeid, [], [])
      | [test_file] \<Rightarrow> (test_file, [], [])
      | [test_file, name] \<Rightarrow> (test_file, [], name)
      | test_file # cls # names \<Rightarrow> (test_file, cls, join_with ''::'' names))"

subsection \<open>Failures\<close>

definition error_msg_limit :: nat where
  "error_msg_limit = 500"

definition e_lines :: "string \<Rightarrow> string list" where
  "e_lines longrepr =
     map (drop 2) (filter (\<lambda>l. startswith l ''E '') (map (lstrip_by is_space) (splitlines longrepr)))"

text \<open>The exception type before the first colon of the last line that starts with \<open>E\<close>.\<close>

definition error_type_of :: "string \<Rightarrow> string" where
  "error_type_of longrepr =
     (case rev (e_lines longrepr) of
        [] \<Rightarrow> []
      | line # _ \<Rightarrow>
          (case split1 CHR '':'' line of
             (before, Some _) \<Rightarrow> if before \<noteq> [] \<and> is_ident (py_strip before) then py_strip before else []
           | _ \<Rightarrow> []))"

fun phase_failure :: "report_host \<Rightarrow> pyval \<Rightarrow> (string \<times> string) option" where
  "phase_failure h (PDict d) =
     (let longrepr = py_or (case map_of d ''longrepr'' of None \<Rightarrow> PNone | Some v \<Rightarrow> v) (PStr []);
          crash = py_or (case map_of d ''crash'' of None \<Rightarrow> PNone | Some v \<Rightarrow> v) (PDict [])
      in if \<not> truthy longrepr \<and> \<not> truthy crash then None
         else case crash of
                PDict c \<Rightarrow>
                  Some (py_str h (py_or (case map_of c ''typename'' of None \<Rightarrow> PNone | Some v \<Rightarrow> v) (PStr [])),
                        take error_msg_limit (py_str h (py_or (case map_of c ''message'' of None \<Rightarrow> PNone | Some v \<Rightarrow> v) longrepr)))
              | _ \<Rightarrow> Some (error_type_of (py_str h longrepr), take error_msg_limit (py_str h longrepr)))"
| "phase_failure h _ = None"

fun first_failure :: "report_host \<Rightarrow> (string \<times> pyval) list \<Rightarrow> string list \<Rightarrow> string \<times> string \<times> string" where
  "first_failure h test [] = ([], [], [])"
| "first_failure h test (phase # phases) =
     (case phase_failure h (case map_of test phase of None \<Rightarrow> PNone | Some v \<Rightarrow> v) of
        None \<Rightarrow> first_failure h test phases
      | Some (error_type, error_message) \<Rightarrow> (phase, error_type, error_message))"

definition extract_failure :: "report_host \<Rightarrow> (string \<times> pyval) list \<Rightarrow> string \<times> string \<times> string" where
  "extract_failure h test = first_failure h test [''call'', ''setup'', ''teardown'']"

subsection \<open>Reports\<close>

text \<open>\<open>round(x, 4)\<close>: to the nearest multiple of a ten-thousandth, to the even one in the middle.\<close>

definition round_half_even :: "rat \<Rightarrow> int" where
  "round_half_even x =
     (let n = \<lfloor>x\<rfloor>; d = x - of_int n
      in if d < 1 / 2 then n else if d > 1 / 2 then n + 1 else if even n then n else n + 1)"

definition round4 :: "rat \<Rightarrow> rat" where
  "round4 x = of_int (round_half_even (x * 10000)) / 10000"

definition phase_duration :: "report_host \<Rightarrow> (string \<times> pyval) list \<Rightarrow> string \<Rightarrow> py_error + rat" where
  "phase_duration h test phase =
     (case map_of test phase of
        Some (PDict d) \<Rightarrow>
          py_float (rh_float h) (py_or (case map_of d ''duration'' of None \<Rightarrow> PNone | Some v \<Rightarrow> v) (PFloat 0))
      | _ \<Rightarrow> Inr 0)"

text \<open>The keys of the dictionary, or the entries of the list with repetitions removed.\<close>

definition keyword_list :: "pyval \<Rightarrow> py_error + string list" where
  "keyword_list v =
     (if \<not> truthy v then Inr []
      else sum_bind (py_list v) (\<lambda>ks.
             map_sum id (\<lambda>ss. rev (remdups (rev ss))) (mapM (\<lambda>k. case k of PStr s \<Rightarrow> Inr s | _ \<Rightarrow> Inl TypeError) ks)))"

definition outcome_of :: "report_host \<Rightarrow> pyval \<Rightarrow> string" where
  "outcome_of h v =
     (let outcome = py_lower (py_str h v)
      in if outcome \<in> set [''passed'', ''failed'', ''error'', ''skipped''] then outcome else ''error'')"

fun parse_test :: "report_host \<Rightarrow> pyval \<Rightarrow> py_error + test_case_result" where
  "parse_test h (PDict test) =
     (let get = (\<lambda>k dflt. case map_of test k of None \<Rightarrow> dflt | Some v \<Rightarrow> v);
          nodeid = py_str h (get ''nodeid'' (PStr []));
          outcome = outcome_of h (get ''outcome'' (PStr ''unknown''))
      in sum_bind (mapM (phase_duration h test) [''setup'', ''call'', ''teardown'']) (\<lambda>durations.
         sum_bind (keyword_list (get ''keywords'' PNone)) (\<lambda>keywords.
           case (parse_nodeid nodeid,
                 if outcome \<in> set [''failed'', ''error''] then extract_failure h test else ([], [], []),
                 extract_marker_dims h keywords) of
             ((test_file, test_class, test_name), (phase, error_type, error_message), (hw, ci, layer, runtime), markers_raw) \<Rightarrow>
               Inr \<lparr>tr_nodeid = nodeid, tr_test_file = test_file, tr_test_class = test_class, tr_test_name = test_name,
                    tr_outcome = outcome, tr_duration_secs = round4 (sum_list durations), tr_phase = phase,
                    tr_error_type = error_type, tr_error_message = error_message, tr_hw_marker = hw, tr_ci_marker = ci,
                    tr_layer_marker = layer, tr_runtime_marker = runtime, tr_markers_raw = markers_raw\<rparr>)))"
| "parse_test h _ = Inl AttributeError"

definition parse_json_report :: "report_host \<Rightarrow> found_file \<Rightarrow> py_error + test_case_result list" where
  "parse_json_report h f =
     sum_bind (load_json h f) (\<lambda>data.
     sum_bind (py_get data ''tests'' (PList [])) (\<lambda>tests.
     sum_bind (py_list tests) (mapM (parse_test h))))"

definition report_prefix :: string where
  "report_prefix = ''test-report-''"

definition report_platform :: "found_file \<Rightarrow> string" where
  "report_platform f =
     (let d = artifact_of f in if startswith d report_prefix then drop (length report_prefix) d else d)"

text \<open>A report that cannot be parsed is left out with a warning.\<close>

fun read_local_reports :: "report_host \<Rightarrow> found_file list \<Rightarrow> (string \<times> test_case_result list) list" where
  "read_local_reports h [] = []"
| "read_local_reports h (f # fs) =
     (case parse_json_report h f of
        Inl _ \<Rightarrow> read_local_reports h fs
      | Inr cases \<Rightarrow> (report_platform f, cases) # read_local_reports h fs)"

subsection \<open>Names\<close>

lemma validate_parts:
  assumes "validate_clickhouse_table_name table = Inr t"
  shows "t = table \<and> (\<exists>a b. list_all is_ident (split_on CHR ''.'' table) \<and>
      (split_on CHR ''.'' table = [a] \<or> split_on CHR ''.'' table = [a, b]))"
proof -
  obtain a ps where "split_on CHR ''.'' table = a # ps" using split_on_nonempty by (metis list.exhaust)
  moreover then have "ps = [] \<or> (\<exists>b. ps = [b])"
    using assms by (cases ps; cases "tl ps") (simp_all add: validate_clickhouse_table_name_def)
  ultimately show ?thesis using assms by (auto simp: validate_clickhouse_table_name_def split: if_splits)
qed

text \<open>
  A table name that passes the check can be put into a statement as it is: it consists of letters, digits,
  underscores and at most one dot, and no part of it is empty or starts with a digit.
\<close>

theorem table_name_safe:
  assumes "validate_clickhouse_table_name table = Inr t"
  shows "t = table \<and> table \<noteq> [] \<and> list_all (\<lambda>c. ident_start c \<or> is_digit c \<or> c = CHR ''.'') table \<and>
    length (filter (\<lambda>c. c = CHR ''.'') table) \<le> 1 \<and> list_all is_ident (split_on CHR ''.'' table)"
proof -
  have "\<not> (ident_start CHR ''.'' \<or> is_digit CHR ''.'')" by (simp add: ident_start_def is_digit_def)
  then have dots: "filter (\<lambda>c. c = CHR ''.'') s = []" if "is_ident s" for s
    using that unfolding is_ident_def list_all_iff filter_empty_conv by blast
  from validate_parts [OF assms] obtain a b where ps: "t = table" "list_all is_ident (split_on CHR ''.'' table)"
      "split_on CHR ''.'' table = [a] \<or> split_on CHR ''.'' table = [a, b]" by blast
  then have t: "(table = a \<and> is_ident a) \<or> (table = a @ CHR ''.'' # b \<and> is_ident a \<and> is_ident b)"
    using join_split_on [of "CHR ''.''" table] by auto
  have word: "list_all (\<lambda>c. ident_start c \<or> is_digit c \<or> c = CHR ''.'') s \<and> s \<noteq> []" if "is_ident s" for s
    using that unfolding is_ident_def list_all_iff by blast
  show ?thesis using t ps(1,2) word [of a] word [of b] dots [of a] dots [of b] by (elim disjE) simp_all
qed

theorem table_name_safe_witness:
  "validate_clickhouse_table_name ''results.nightly'' = Inr ''results.nightly'' \<and>
   list_all is_ident (split_on CHR ''.'' ''results.nightly'')"
proof -
  have v: "validate_clickhouse_table_name ''results.nightly'' = Inr ''results.nightly''" by code_simp
  from table_name_safe [OF v] v show ?thesis by blast
qed

text \<open>
  A platform is matched with the target of its name, and otherwise with the target whose name is the longest
  prefix of the platform's; without such a target there is none.
\<close>

theorem resolve_target_longest:
  assumes "\<And>name t. (name, t) \<in> set targets \<Longrightarrow> tg_name t = name"
  shows "(resolve_target platform targets = None \<longleftrightarrow> \<not> (\<exists>(name, t) \<in> set targets. startswith platform name)) \<and>
    (\<forall>t. resolve_target platform targets = Some t \<longrightarrow>
       (tg_name t, t) \<in> set targets \<and> startswith platform (tg_name t) \<and>
       (\<forall>(name, u) \<in> set targets. startswith platform name \<longrightarrow> length name \<le> length (tg_name t)))"
proof -
  let ?ms = "map snd (filter (\<lambda>(name, t). startswith platform name) targets)"
  have longest: "length name \<le> length platform" if "startswith platform name" for name
    using that by (auto simp: startswith_iff)
  have self: "startswith platform platform" by (simp add: startswith_iff)
  show ?thesis
  proof (cases "map_of targets platform")
    case None
    then have r: "resolve_target platform targets = min_by (\<lambda>t. - int (length (tg_name t))) ?ms" by (simp add: resolve_target_def)
    have "?ms = [] \<longleftrightarrow> \<not> (\<exists>(name, t) \<in> set targets. startswith platform name)" by (auto simp: filter_empty_conv)
    moreover have "(tg_name t, t) \<in> set targets \<and> startswith platform (tg_name t) \<and>
       (\<forall>(name, u) \<in> set targets. startswith platform name \<longrightarrow> length name \<le> length (tg_name t))"
      if t: "min_by (\<lambda>t. - int (length (tg_name t))) ?ms = Some t" for t
      using min_by_in [OF t] min_by_least [OF t] assms by fastforce
    ultimately show ?thesis unfolding r by auto
  next
    case (Some t)
    then have "(platform, t) \<in> set targets" by (rule map_of_SomeD)
    with Some assms self longest show ?thesis by (auto simp: resolve_target_def)
  qed
qed

lemma load_testplan_names: "load_testplan file = Inr targets \<Longrightarrow> (name, t) \<in> set targets \<Longrightarrow> tg_name t = name"
  by (auto simp: load_testplan_def target_of_section_def split: option.splits sum.splits)

theorem resolve_target_longest_witness:
  "\<exists>targets t. load_testplan (Some (Inr [(''linux'', []), (''linux-gfx942'', [])])) = Inr targets \<and>
     resolve_target ''linux-gfx942-8gpu'' targets = Some t \<and> tg_name t = ''linux-gfx942'' \<and>
     startswith ''linux-gfx942-8gpu'' (tg_name t)"
proof -
  obtain targets where ts: "load_testplan (Some (Inr [(''linux'', []), (''linux-gfx942'', [])])) = Inr targets"
    by (simp add: load_testplan_def)
  moreover have "case load_testplan (Some (Inr [(''linux'', []), (''linux-gfx942'', [])])) of Inl _ \<Rightarrow> False
      | Inr ts \<Rightarrow> map_option tg_name (resolve_target ''linux-gfx942-8gpu'' ts) = Some ''linux-gfx942''" by code_simp
  ultimately obtain t where "resolve_target ''linux-gfx942-8gpu'' targets = Some t" "tg_name t = ''linux-gfx942''" by auto
  with ts resolve_target_longest [of targets "''linux-gfx942-8gpu''", OF load_testplan_names [OF ts]] show ?thesis by blast
qed

subsection \<open>Node identifiers\<close>

lemma split_str_nonempty [simp]: "split_str sep s \<noteq> []"
  by (cases s) (auto split: list.splits)

lemma join_split_str: "join_with sep (split_str sep s) = s"
proof (induction sep s rule: split_str.induct)
  case (2 sep c s)
  show ?case
  proof (cases "sep \<noteq> [] \<and> startswith (c # s) sep")
    case True
    then obtain x sep' r where sep: "sep = x # sep'" "c # s = sep @ r" by (cases sep) (auto simp: startswith_iff)
    then have "drop (length sep - 1) s = r" by simp
    with 2(1) [OF True] True sep show ?thesis by (cases "split_str sep r") auto
  next
    case False
    with 2(2) [OF False] show ?thesis
      by (cases "split_str sep s"; cases "tl (split_str sep s)") (auto split: list.splits)
  qed
qed simp

lemma split_str_none: "\<not> contains_str sep s \<Longrightarrow> split_str sep s = [s]"
  by (induction s) (auto split: list.splits)

lemma split_str_head:
  assumes "CHR '':'' \<notin> set a"
  shows "split_str ''::'' (a @ ''::'' @ s) = a # split_str ''::'' s"
  using assms by (induction a) (auto simp: startswith_def)

text \<open>
  A node identifier of one of the documented shapes comes apart into the file, the class and the name it was
  put together from, and every name comes out with its parameters.
\<close>

theorem nodeid_round_trip:
  assumes "CHR '':'' \<notin> set file" and "CHR '':'' \<notin> set cls"
  shows "parse_nodeid (file @ ''::'' @ cls @ ''::'' @ name) = (file, cls, name) \<and>
    (\<not> contains_str ''::'' name \<longrightarrow> parse_nodeid (file @ ''::'' @ name) = (file, [], name)) \<and> parse_nodeid file = (file, [], [])"
proof -
  have "\<not> contains_str ''::'' s" if "CHR '':'' \<notin> set s" for s
    using that by (induction s) (auto simp: startswith_def)
  with assms(1) have "\<not> contains_str ''::'' file" by blast
  then have "parse_nodeid file = (file, [], [])" by (simp add: parse_nodeid_def split_str_none)
  moreover have "parse_nodeid (file @ ''::'' @ cls @ ''::'' @ name) = (file, cls, name)"
    using join_split_str [of "''::''" name] unfolding parse_nodeid_def split_str_head [OF assms(1)] split_str_head [OF assms(2)]
    by (cases "split_str ''::'' name") auto
  moreover have "parse_nodeid (file @ ''::'' @ name) = (file, [], name)" if "\<not> contains_str ''::'' name"
    unfolding parse_nodeid_def split_str_head [OF assms(1)] split_str_none [OF that] by simp
  ultimately show ?thesis by blast
qed

theorem nodeid_round_trip_witness:
  "parse_nodeid ''t.py::C::test_a[x::y]'' = (''t.py'', ''C'', ''test_a[x::y]'') \<and> parse_nodeid ''t.py::test_a[x]'' = (''t.py'', [], ''test_a[x]'')"
  using nodeid_round_trip [of "''t.py''" "''C''" "''test_a[x::y]''"] nodeid_round_trip [of "''t.py''" "''C''" "''test_a[x]''"]
  by (simp add: startswith_def)

text \<open>
  A parameter with two colons in a test function outside a class is cut there: what stands before them is stored as
  the class and what stands after them as the name.
\<close>

theorem nodeid_parameter_cut:
  assumes "CHR '':'' \<notin> set file" and "CHR '':'' \<notin> set func" and "CHR '':'' \<notin> set p"
  shows "parse_nodeid (file @ ''::'' @ func @ ''['' @ p @ ''::'' @ q @ '']'') = (file, func @ ''['' @ p, q @ '']'')"
proof -
  have "split_str ''::'' (file @ ''::'' @ (func @ ''['' @ p) @ ''::'' @ q @ '']'') = file # (func @ ''['' @ p) # split_str ''::'' (q @ '']'')"
    using assms by (subst split_str_head; (subst split_str_head)?) auto
  then show ?thesis using join_split_str [of "''::''" "q @ '']''"] unfolding parse_nodeid_def
    by (cases "split_str ''::'' (q @ '']'')") auto
qed

theorem nodeid_parameter_cut_witness:
  "parse_nodeid ''t.py::test_a[std::sort]'' = (''t.py'', ''test_a[std'', ''sort]'')"
  using nodeid_parameter_cut [of "''t.py''" "''test_a''" "''std''" "''sort''"] by simp

subsection \<open>Reports\<close>

definition case_ok :: "test_case_result \<Rightarrow> bool" where
  "case_ok c \<longleftrightarrow> tr_outcome c \<in> {''passed'', ''failed'', ''error'', ''skipped''} \<and>
     length (tr_error_message c) \<le> error_msg_limit \<and> tr_phase c \<in> {[], ''call'', ''setup'', ''teardown''} \<and>
     (tr_phase c = [] \<longrightarrow> tr_error_type c = [] \<and> tr_error_message c = []) \<and>
     (tr_outcome c \<in> {''passed'', ''skipped''} \<longrightarrow> tr_phase c = []) \<and>
     parse_nodeid (tr_nodeid c) = (tr_test_file c, tr_test_class c, tr_test_name c)"

lemma phase_failure_bound: "phase_failure h v = Some (t, m) \<Longrightarrow> length m \<le> error_msg_limit"
  by (cases v) (auto simp: Let_def split: if_splits pyval.splits)

lemma first_failure_ok:
  assumes "first_failure h test phases = (phase, t, m)" and "[] \<notin> set phases"
  shows "length m \<le> error_msg_limit \<and> phase \<in> insert [] (set phases) \<and> (phase = [] \<longrightarrow> t = [] \<and> m = [])"
  using assms
proof (induction phases)
  case (Cons p phases)
  show ?case
  proof (cases "phase_failure h (case map_of test p of None \<Rightarrow> PNone | Some v \<Rightarrow> v)")
    case None
    with Cons show ?thesis by auto
  next
    case (Some f)
    then obtain t' m' where f: "f = (t', m')" by fastforce
    with Some phase_failure_bound [of h _ t' m'] Cons.prems show ?thesis by auto
  qed
qed simp

lemma outcome_of_values: "outcome_of h v \<in> {''passed'', ''failed'', ''error'', ''skipped''}"
  by (simp add: outcome_of_def Let_def)

lemma parse_test_ok:
  assumes "parse_test h v = Inr c"
  shows "case_ok c"
proof (cases v)
  case (PDict test)
  define nodeid where "nodeid = py_str h (case map_of test ''nodeid'' of None \<Rightarrow> PStr [] | Some v \<Rightarrow> v)"
  define outcome where "outcome = outcome_of h (case map_of test ''outcome'' of None \<Rightarrow> PStr ''unknown'' | Some v \<Rightarrow> v)"
  obtain path cls name where n: "parse_nodeid nodeid = (path, cls, name)" by (metis prod.exhaust)
  obtain phase t m where f: "(if outcome \<in> set [''failed'', ''error''] then extract_failure h test else ([], [], [])) = (phase, t, m)"
    by (metis prod.exhaust)
  have "parse_test h (PDict test) = Inr c" using assms by (simp only: PDict)
  from this [unfolded parse_test.simps Let_def, folded nodeid_def outcome_def, unfolded f n sum_bind_Inr]
  obtain ds ks where "(case extract_marker_dims h ks of ((hw, ci, layer, runtime), markers_raw) \<Rightarrow>
      Inr \<lparr>tr_nodeid = nodeid, tr_test_file = path, tr_test_class = cls, tr_test_name = name, tr_outcome = outcome,
        tr_duration_secs = round4 (sum_list ds), tr_phase = phase, tr_error_type = t, tr_error_message = m, tr_hw_marker = hw,
        tr_ci_marker = ci, tr_layer_marker = layer, tr_runtime_marker = runtime, tr_markers_raw = markers_raw\<rparr>) = (Inr c :: py_error + _)"
    by auto
  then have c: "tr_nodeid c = nodeid" "tr_outcome c = outcome" "tr_phase c = phase" "tr_error_type c = t"
      "tr_error_message c = m" "tr_test_file c = path" "tr_test_class c = cls" "tr_test_name c = name"
    by (auto split: prod.splits)
  have "length m \<le> error_msg_limit \<and> phase \<in> {[], ''call'', ''setup'', ''teardown''} \<and> (phase = [] \<longrightarrow> t = [] \<and> m = [])"
    using f first_failure_ok [of h test "[''call'', ''setup'', ''teardown'']" phase t m]
    by (cases "outcome \<in> set [''failed'', ''error'']") (auto simp: extract_failure_def)
  moreover have "outcome \<in> {''passed'', ''skipped''} \<longrightarrow> phase = []" using f by (auto split: if_splits)
  ultimately show ?thesis using n outcome_of_values [of h] unfolding case_ok_def c outcome_def [symmetric]
    by (metis outcome_def)
qed (use assms in simp_all)

text \<open>
  Every test of a report becomes one case, in the report's order, and every case is well formed: one of four
  outcomes, at most 500 characters of message, no failure details on a test that passed or was skipped, and a
  phase whenever there are details.
\<close>

theorem report_cases_ok:
  assumes "parse_json_report h f = Inr cases"
  shows "\<exists>d tests. load_json h f = Inr (PDict d) \<and> py_list (case map_of d ''tests'' of None \<Rightarrow> PList [] | Some v \<Rightarrow> v) = Inr tests \<and>
    length cases = length tests \<and> list_all2 (\<lambda>v c. parse_test h v = Inr c \<and> case_ok c) tests cases"
proof -
  obtain data tests where d: "load_json h f = Inr data" "sum_bind (py_get data ''tests'' (PList [])) py_list = Inr tests"
      "mapM (parse_test h) tests = Inr cases"
    using assms unfolding parse_json_report_def sum_bind_Inr by blast
  then obtain e where e: "data = PDict e" by (cases data) auto
  have "list_all2 (\<lambda>v c. parse_test h v = Inr c \<and> case_ok c) tests cases"
    using mapM_Inr_length [OF d(3)] mapM_Inr_nth [OF d(3)] parse_test_ok by (auto simp: list_all2_conv_all_nth)
  with d e mapM_Inr_length [OF d(3)] show ?thesis by auto
qed

definition demo_report_host :: report_host where
  "demo_report_host = \<lparr>rh_loads = (\<lambda>t. if t = ''report'' then
       Some (PDict [(''tests'', PList [PDict [(''nodeid'', PStr ''t.py::test_a''), (''outcome'', PStr ''failed''),
         (''call'', PDict [(''duration'', PFloat (1 / 2)), (''longrepr'', PStr ''E ValueError: no'')])]])]) else None),
     rh_dumps = (\<lambda>_. ''[]''), rh_repr = (\<lambda>_. []), rh_float = (\<lambda>_. None)\<rparr>"

definition demo_report :: found_file where
  "demo_report = \<lparr>ff_path = ''all/test-report-linux/test_report.json'', ff_parts = [''test-report-linux'', ''test_report.json''],
     ff_parent = ''test-report-linux'', ff_text = Inr ''report''\<rparr>"

theorem report_cases_ok_witness:
  "\<exists>c. parse_json_report demo_report_host demo_report = Inr [c] \<and> case_ok c \<and> tr_phase c = ''call''"
proof -
  have "case parse_json_report demo_report_host demo_report of Inr [c] \<Rightarrow> tr_phase c = ''call'' | _ \<Rightarrow> False" by code_simp
  then obtain c where c: "parse_json_report demo_report_host demo_report = Inr [c]" "tr_phase c = ''call''"
    by (auto split: sum.splits list.splits)
  with report_cases_ok [OF c(1)] show ?thesis by (auto simp: list_all2_Cons2)
qed

text \<open>
  The exception type of a failure without crash data is never found: the search of the traceback for it is
  reached only with crash data that is not a dictionary.
\<close>

theorem plain_failure_untyped:
  assumes "map_of d ''longrepr'' = Some (PStr longrepr)" and "longrepr \<noteq> []" and "map_of d ''crash'' = None"
  shows "phase_failure h (PDict d) = Some ([], take error_msg_limit longrepr)"
  using assms by (simp add: py_or_def)

theorem plain_failure_untyped_witness:
  "phase_failure demo_report_host (PDict [(''longrepr'', PStr ''E ValueError: no'')]) = Some ([], take error_msg_limit ''E ValueError: no'') \<and>
   error_type_of ''E ValueError: no'' = ''ValueError''"
proof -
  have "error_type_of ''E ValueError: no'' = ''ValueError''" by code_simp
  then show ?thesis using plain_failure_untyped [of "[(''longrepr'', PStr ''E ValueError: no'')]" "''E ValueError: no''" demo_report_host] by simp
qed

end
