(* ===== verification/Results.thy ===== *)
theory Results
  imports Reports
begin

text \<open>
  The second half of \<open>framework/results/backends/clickhouse.py\<close>: the connection parameters, the queries of the GitHub
  API, the rows of the results table and the script that inserts them. The web, the ClickHouse client, the
  parser of timestamps and the clock are arguments; statements are values of \<open>ch_op\<close>, and a run of the script
  returns the list of the statements the client has carried out.
\<close>

subsection \<open>The host\<close>

record client_args =
  ca_host :: string
  ca_port :: int
  ca_username :: string
  ca_password :: string
  ca_database :: string
  ca_secure :: bool
  ca_verify :: bool
  ca_connect_timeout :: int
  ca_send_receive_timeout :: int
  ca_ca_cert :: "string option"

datatype tls = NoVerification | SystemDefault | CaFile string

datatype cell = CNone | CStr string | CInt int | CFloat rat | CTime int

datatype column_type = Text_Column | UInt64 | UInt32 | Nullable_UInt64 | DateTime64 | Nullable_DateTime64 | Float32

datatype ch_op =
    CreateTable string "(string \<times> column_type) list"
  | DropTable string
  | Insert string "string list" "cell list list"

record results_host =
  rs_report :: report_host
  rs_getenv :: "string \<Rightarrow> string option"
  rs_certifi :: "string option"
  rs_web :: "(string \<times> string) list \<Rightarrow> tls \<Rightarrow> string \<Rightarrow> py_error + string"
  rs_fromiso :: "string \<Rightarrow> py_error + int"
  rs_now :: int
  rs_dash :: string
  rs_connect :: "client_args \<Rightarrow> py_error option"
  rs_client :: "ch_op \<Rightarrow> py_error option"

subsection \<open>The connection\<close>

definition require_env :: "results_host \<Rightarrow> string \<Rightarrow> py_error + string" where
  "require_env h name =
     (let value = py_strip (case rs_getenv h name of None \<Rightarrow> [] | Some v \<Rightarrow> v)
      in if value = [] then Inl RuntimeError else Inr value)"

definition env_int :: "results_host \<Rightarrow> string \<Rightarrow> string \<Rightarrow> py_error + int" where
  "env_int h name dflt = py_int (PStr (case rs_getenv h name of None \<Rightarrow> dflt | Some v \<Rightarrow> v))"

definition client_parameters :: "results_host \<Rightarrow> py_error + client_args" where
  "client_parameters h =
     (let verify_ssl = env_bool (rs_getenv h) ''CLICKHOUSE_VERIFY_SSL'' True;
          ca_cert = (case rs_getenv h ''CLICKHOUSE_CA_CERT'' of
                       Some c \<Rightarrow> Some c
                     | None \<Rightarrow> if verify_ssl then rs_certifi h else None)
      in sum_bind (require_env h ''CLICKHOUSE_HOST'') (\<lambda>host_name.
         sum_bind (env_int h ''CLICKHOUSE_PORT'' ''8443'') (\<lambda>port.
         sum_bind (require_env h ''CLICKHOUSE_USERNAME'') (\<lambda>username.
         sum_bind (require_env h ''CLICKHOUSE_PASSWORD'') (\<lambda>password.
         sum_bind (require_env h ''CLICKHOUSE_DATABASE'') (\<lambda>database.
         sum_bind (env_int h ''CLICKHOUSE_CONNECT_TIMEOUT'' ''10'') (\<lambda>connect.
         sum_bind (env_int h ''CLICKHOUSE_SEND_RECEIVE_TIMEOUT'' ''30'') (\<lambda>send.
           Inr \<lparr>ca_host = host_name, ca_port = port, ca_username = username, ca_password = password, ca_database = database,
                ca_secure = env_bool (rs_getenv h) ''CLICKHOUSE_SECURE'' True, ca_verify = verify_ssl,
                ca_connect_timeout = connect, ca_send_receive_timeout = send,
                ca_ca_cert = (if ca_cert = Some [] then None else ca_cert)\<rparr>))))))))"

definition build_client :: "results_host \<Rightarrow> py_error + client_args" where
  "build_client h =
     sum_bind (client_parameters h) (\<lambda>args. case rs_connect h args of None \<Rightarrow> Inr args | Some e \<Rightarrow> Inl e)"

subsection \<open>The GitHub API\<close>

definition github_headers :: "results_host \<Rightarrow> (string \<times> string) list" where
  "github_headers h =
     [(''Accept'', ''application/vnd.github+json''), (''X-GitHub-Api-Version'', ''2022-11-28''),
      (''User-Agent'', ''rocmtests-nightly-clickhouse-ingest'')] @
     (case rs_getenv h ''GITHUB_TOKEN'' of
        Some token \<Rightarrow> if token = [] then [] else [(''Authorization'', ''Bearer '' @ token)]
      | None \<Rightarrow> [])"

definition ssl_context :: "results_host \<Rightarrow> tls" where
  "ssl_context h =
     (if \<not> env_bool (rs_getenv h) ''GITHUB_VERIFY_SSL'' True then NoVerification
      else case rs_certifi h of None \<Rightarrow> SystemDefault | Some ca \<Rightarrow> CaFile ca)"

definition fetch_json :: "results_host \<Rightarrow> string \<Rightarrow> py_error + (string \<times> pyval) list" where
  "fetch_json h url =
     sum_bind (rs_web h (github_headers h) (ssl_context h) url) (\<lambda>body.
       case rh_loads (rs_report h) body of
         None \<Rightarrow> Inl ValueError
       | Some (PDict d) \<Rightarrow> Inr d
       | Some _ \<Rightarrow> Inl RuntimeError)"

definition page_url :: "string \<Rightarrow> nat \<Rightarrow> string" where
  "page_url url page = url @ (if CHR ''?'' \<in> set url then ''&'' else ''?'') @ ''per_page=100&page='' @ show_nat page"

text \<open>The loop over the pages; \<open>None\<close> when every page is full for ever.\<close>

partial_function (option) pages_from ::
    "(string \<Rightarrow> py_error + (string \<times> pyval) list) \<Rightarrow> string \<Rightarrow> string \<Rightarrow> nat \<Rightarrow> pyval list \<Rightarrow> (py_error + pyval list) option" where
  "pages_from fetch url key page items =
     (case fetch (page_url url page) of
        Inl e \<Rightarrow> Some (Inl e)
      | Inr data \<Rightarrow>
          (case py_list (case map_of data key of None \<Rightarrow> PList [] | Some v \<Rightarrow> v) of
             Inl e \<Rightarrow> Some (Inl e)
           | Inr batch \<Rightarrow>
               if length batch < 100 then Some (Inr (items @ batch))
               else pages_from fetch url key (Suc page) (items @ batch)))"

definition paged_github_items :: "results_host \<Rightarrow> string \<Rightarrow> string \<Rightarrow> (py_error + pyval list) option" where
  "paged_github_items h url key = pages_from (fetch_json h) url key 1 []"

definition run_api_url :: "string \<Rightarrow> int \<Rightarrow> string" where
  "run_api_url repo run_id = ''https://api.github.com/repos/'' @ repo @ ''/actions/runs/'' @ show_int run_id"

definition fetch_run_metadata :: "results_host \<Rightarrow> string \<Rightarrow> int \<Rightarrow> py_error + (string \<times> pyval) list" where
  "fetch_run_metadata h repo run_id = fetch_json h (run_api_url repo run_id)"

definition fetch_workflow_jobs :: "results_host \<Rightarrow> string \<Rightarrow> int \<Rightarrow> (py_error + pyval list) option" where
  "fetch_workflow_jobs h repo run_id =
     map_option (\<lambda>r. case r of
         Inl e \<Rightarrow> if e \<in> set [HTTPError, URLError, TimeoutError] then Inr [] else Inl e
       | Inr jobs \<Rightarrow> Inr jobs)
       (paged_github_items h (run_api_url repo run_id @ ''/jobs'') ''jobs'')"

subsection \<open>Job names\<close>

definition job_name :: "results_host \<Rightarrow> pyval \<Rightarrow> py_error + string" where
  "job_name h job = map_sum id (str_or_empty (rs_report h)) (py_get job ''name'' PNone)"

definition summary_title :: string where
  "summary_title = ''Nightly Test Summary''"

text \<open>The pattern at one place of the name: the title, space, a dash, space, digits.\<close>

definition source_id_at :: "string \<Rightarrow> string \<Rightarrow> int option" where
  "source_id_at dash s =
     (let r = drop (length summary_title) s;
          d = dropWhile is_space r;
          q = drop (length dash) d;
          n = dropWhile is_space q;
          digits = takeWhile is_digit n
      in if startswith s summary_title \<and> d \<noteq> r \<and> startswith d dash \<and> n \<noteq> q \<and> digits \<noteq> []
         then Some (int (digits_val digits)) else None)"

fun search_source_id :: "string \<Rightarrow> string \<Rightarrow> int option" where
  "search_source_id dash [] = source_id_at dash []"
| "search_source_id dash (c # s) =
     (case source_id_at dash (c # s) of Some i \<Rightarrow> Some i | None \<Rightarrow> search_source_id dash s)"

fun fetch_artifact_source_run_id :: "results_host \<Rightarrow> pyval list \<Rightarrow> py_error + int option" where
  "fetch_artifact_source_run_id h [] = Inr None"
| "fetch_artifact_source_run_id h (job # jobs) =
     (case job_name h job of
        Inl e \<Rightarrow> Inl e
      | Inr name \<Rightarrow>
          (case search_source_id (rs_dash h) name of
             Some i \<Rightarrow> Inr (Some i)
           | None \<Rightarrow> fetch_artifact_source_run_id h jobs))"

record platform_job_metadata =
  pj_url :: string
  pj_status :: string
  pj_conclusion :: string

definition e2e_suffix :: string where
  "e2e_suffix = '' / e2e tests''"

fun platform_jobs_from ::
    "results_host \<Rightarrow> pyval list \<Rightarrow> (string \<times> platform_job_metadata) list \<Rightarrow> py_error + (string \<times> platform_job_metadata) list" where
  "platform_jobs_from h [] acc = Inr acc"
| "platform_jobs_from h (job # jobs) acc =
     (case job_name h job of
        Inl e \<Rightarrow> Inl e
      | Inr name \<Rightarrow>
          if \<not> endswith name e2e_suffix then platform_jobs_from h jobs acc
          else
            (let get = (\<lambda>k. case py_get job k PNone of Inl _ \<Rightarrow> PNone | Inr v \<Rightarrow> v); show = str_or_empty (rs_report h)
             in platform_jobs_from h jobs
                  (dict_set (take (length name - length e2e_suffix) name)
                     \<lparr>pj_url = show (py_or (get ''html_url'') (get ''url'')), pj_status = show (get ''status''),
                      pj_conclusion = show (get ''conclusion'')\<rparr> acc)))"

definition build_platform_job_metadata :: "results_host \<Rightarrow> pyval list \<Rightarrow> py_error + (string \<times> platform_job_metadata) list" where
  "build_platform_job_metadata h jobs = platform_jobs_from h jobs []"

subsection \<open>The table\<close>

definition columns :: "string list" where
  "columns =
     [''row_type'', ''run_id'', ''platform'', ''gpu_arch'', ''head_branch'', ''head_sha'', ''time_started'', ''run_url'',
      ''repository'', ''workflow_name'', ''run_number'', ''run_attempt'',
      ''source_repo'', ''artifact_source'', ''artifact_source_run_id'', ''artifact_source_url'', ''event'', ''status'',
      ''conclusion'', ''time_updated'', ''target_name'', ''runs_on'', ''artifact_group'', ''tests_filters'', ''artifact_name'',
      ''artifact_url'', ''tests_pass'', ''tests_fail'', ''tests_error'', ''tests_skip'', ''total_test_count'',
      ''result_status'', ''raw_counts_json'',
      ''nodeid'', ''test_file'', ''test_class'', ''test_name'', ''outcome'', ''duration_secs'', ''phase'', ''error_type'',
      ''error_message'', ''hw_marker'', ''ci_marker'', ''layer_marker'', ''runtime_marker'', ''markers_raw'']"

definition table_schema :: "(string \<times> column_type) list" where
  "table_schema =
     [(''row_type'', Text_Column), (''run_id'', UInt64), (''platform'', Text_Column), (''gpu_arch'', Text_Column),
      (''head_branch'', Text_Column), (''head_sha'', Text_Column), (''time_started'', DateTime64), (''run_url'', Text_Column),
      (''repository'', Text_Column), (''workflow_name'', Text_Column), (''run_number'', UInt64), (''run_attempt'', UInt32),
      (''source_repo'', Text_Column), (''artifact_source'', Text_Column), (''artifact_source_run_id'', Nullable_UInt64),
      (''artifact_source_url'', Text_Column), (''event'', Text_Column), (''status'', Text_Column), (''conclusion'', Text_Column),
      (''time_updated'', Nullable_DateTime64), (''target_name'', Text_Column), (''runs_on'', Text_Column),
      (''artifact_group'', Text_Column), (''tests_filters'', Text_Column), (''artifact_name'', Text_Column),
      (''artifact_url'', Text_Column), (''tests_pass'', UInt32), (''tests_fail'', UInt32), (''tests_error'', UInt32),
      (''tests_skip'', UInt32), (''total_test_count'', UInt32), (''result_status'', Text_Column), (''raw_counts_json'', Text_Column),
      (''nodeid'', Text_Column), (''test_file'', Text_Column), (''test_class'', Text_Column), (''test_name'', Text_Column),
      (''outcome'', Text_Column), (''duration_secs'', Float32), (''phase'', Text_Column), (''error_type'', Text_Column),
      (''error_message'', Text_Column), (''hw_marker'', Text_Column), (''ci_marker'', Text_Column), (''layer_marker'', Text_Column),
      (''runtime_marker'', Text_Column), (''markers_raw'', Text_Column), (''inserted_at'', DateTime64)]"

definition column_index :: "string \<Rightarrow> nat option" where
  "column_index = map_of (zip columns [0..<length columns])"

fun fill_row :: "cell list \<Rightarrow> (string \<times> cell) list \<Rightarrow> py_error + cell list" where
  "fill_row row [] = Inr row"
| "fill_row row ((col, val) # vals) =
     (case column_index col of None \<Rightarrow> Inl KeyError | Some i \<Rightarrow> fill_row (row[i := val]) vals)"

definition run_op :: "results_host \<Rightarrow> ch_op \<Rightarrow> ch_op list \<Rightarrow> (py_error + unit) \<times> ch_op list" where
  "run_op h op ops = (case rs_client h op of Some e \<Rightarrow> (Inl e, ops) | None \<Rightarrow> (Inr (), ops @ [op]))"

definition create_table :: "results_host \<Rightarrow> string \<Rightarrow> ch_op list \<Rightarrow> (py_error + unit) \<times> ch_op list" where
  "create_table h table ops =
     (case validate_clickhouse_table_name table of
        Inl e \<Rightarrow> (Inl e, ops)
      | Inr t \<Rightarrow> run_op h (CreateTable t table_schema) ops)"

definition drop_and_create_table :: "results_host \<Rightarrow> string \<Rightarrow> ch_op list \<Rightarrow> (py_error + unit) \<times> ch_op list" where
  "drop_and_create_table h table ops =
     (case validate_clickhouse_table_name table of
        Inl e \<Rightarrow> (Inl e, ops)
      | Inr t \<Rightarrow>
          (case run_op h (DropTable t) ops of
             (Inl e, ops') \<Rightarrow> (Inl e, ops')
           | (Inr _, ops') \<Rightarrow> create_table h t ops'))"

definition insert_rows :: "results_host \<Rightarrow> string \<Rightarrow> string list \<Rightarrow> cell list list \<Rightarrow> ch_op list \<Rightarrow> (py_error + unit) \<times> ch_op list" where
  "insert_rows h table cols rows ops =
     (if rows = [] then (Inl RuntimeError, ops)
      else case validate_clickhouse_table_name table of
             Inl e \<Rightarrow> (Inl e, ops)
           | Inr t \<Rightarrow> run_op h (Insert t cols rows) ops)"

subsection \<open>Rows\<close>

text \<open>\<open>run_metadata.get(k)\<close>, and timestamps, in which every \<open>Z\<close> is replaced by the offset of UTC.\<close>

definition meta_get :: "(string \<times> pyval) list \<Rightarrow> string \<Rightarrow> pyval" where
  "meta_get meta k = (case map_of meta k of None \<Rightarrow> PNone | Some v \<Rightarrow> v)"

fun parse_iso_datetime :: "results_host \<Rightarrow> pyval \<Rightarrow> py_error + int option" where
  "parse_iso_datetime h (PStr s) =
     (if s = [] then Inr None
      else map_sum id Some (rs_fromiso h (concat (map (\<lambda>c. if c = CHR ''Z'' then ''+00:00'' else [c]) s))))"
| "parse_iso_datetime h v = (if truthy v then Inl AttributeError else Inr None)"

definition meta_run_id :: "(string \<times> pyval) list \<Rightarrow> py_error + int" where
  "meta_run_id meta = (case map_of meta ''id'' of None \<Rightarrow> Inl KeyError | Some v \<Rightarrow> py_int v)"

record shared_values =
  sv_run_id :: int
  sv_run_url :: string
  sv_time_started :: int
  sv_workflow_name :: string
  sv_run_number :: int
  sv_run_attempt :: int
  sv_head_branch :: string
  sv_head_sha :: string
  sv_gpu_arch :: string

definition run_page_url :: "string \<Rightarrow> int \<Rightarrow> string" where
  "run_page_url repo run_id = ''https://github.com/'' @ repo @ ''/actions/runs/'' @ show_int run_id"

definition time_started_of :: "results_host \<Rightarrow> (string \<times> pyval) list \<Rightarrow> py_error + int" where
  "time_started_of h meta =
     sum_bind (parse_iso_datetime h (meta_get meta ''run_started_at'')) (\<lambda>started.
       case started of
         Some t \<Rightarrow> Inr t
       | None \<Rightarrow>
           sum_bind (parse_iso_datetime h (meta_get meta ''created_at'')) (\<lambda>created.
             case created of Some t \<Rightarrow> Inr t | None \<Rightarrow> Inr (rs_now h)))"

definition shared_run_values ::
    "results_host \<Rightarrow> (string \<times> pyval) list \<Rightarrow> string \<Rightarrow> target_config option \<Rightarrow> py_error + shared_values" where
  "shared_run_values h meta github_repo target =
     (let show = (\<lambda>k. str_or_empty (rs_report h) (meta_get meta k))
      in sum_bind (meta_run_id meta) (\<lambda>run_id.
         sum_bind (time_started_of h meta) (\<lambda>started.
           Inr \<lparr>sv_run_id = run_id,
                sv_run_url = str_or_empty (rs_report h) (py_or (meta_get meta ''html_url'') (PStr (run_page_url github_repo run_id))),
                sv_time_started = started, sv_workflow_name = show ''name'',
                sv_run_number = int_or_zero (meta_get meta ''run_number''), sv_run_attempt = int_or_zero (meta_get meta ''run_attempt''),
                sv_head_branch = show ''head_branch'', sv_head_sha = show ''head_sha'',
                sv_gpu_arch = (case target of None \<Rightarrow> [] | Some t \<Rightarrow> tg_gpu_arch t)\<rparr>)))"

text \<open>What all rows of one run have in common.\<close>

record run_context =
  rc_github_repo :: string
  rc_source_repo :: string
  rc_artifact_source :: string
  rc_meta :: "(string \<times> pyval) list"
  rc_source_run_id :: "int option"
  rc_targets :: "(string \<times> target_config) list"
  rc_jobs :: "(string \<times> platform_job_metadata) list"

definition source_url_of :: "run_context \<Rightarrow> string" where
  "source_url_of ctx =
     (case rc_source_run_id ctx of
        Some i \<Rightarrow> if i = 0 then [] else run_page_url (rc_source_repo ctx) i
      | None \<Rightarrow> [])"

definition opt_cell :: "(int \<Rightarrow> cell) \<Rightarrow> int option \<Rightarrow> cell" where
  "opt_cell f x = (case x of None \<Rightarrow> CNone | Some i \<Rightarrow> f i)"

definition target_text :: "(target_config \<Rightarrow> string) \<Rightarrow> string \<Rightarrow> target_config option \<Rightarrow> cell" where
  "target_text f dflt target = CStr (case target of None \<Rightarrow> dflt | Some t \<Rightarrow> f t)"

definition job_text :: "(platform_job_metadata \<Rightarrow> string) \<Rightarrow> platform_job_metadata option \<Rightarrow> cell" where
  "job_text f job = CStr (case job of None \<Rightarrow> [] | Some j \<Rightarrow> f j)"

definition job_url_or :: "string \<Rightarrow> platform_job_metadata option \<Rightarrow> cell" where
  "job_url_or dflt job = CStr (case job of None \<Rightarrow> dflt | Some j \<Rightarrow> if pj_url j = [] then dflt else pj_url j)"

text \<open>The columns from \<open>head_branch\<close> to \<open>tests_filters\<close>, which both kinds of rows fill in the same way.\<close>

definition run_values ::
    "results_host \<Rightarrow> run_context \<Rightarrow> shared_values \<Rightarrow> string \<Rightarrow> target_config option \<Rightarrow> platform_job_metadata option \<Rightarrow> int option \<Rightarrow>
     (string \<times> cell) list" where
  "run_values h ctx shared platform target job updated =
     [(''head_branch'', CStr (sv_head_branch shared)), (''head_sha'', CStr (sv_head_sha shared)),
      (''time_started'', CTime (sv_time_started shared)), (''run_url'', CStr (sv_run_url shared)),
      (''repository'', CStr (rc_github_repo ctx)), (''workflow_name'', CStr (sv_workflow_name shared)),
      (''run_number'', CInt (sv_run_number shared)), (''run_attempt'', CInt (sv_run_attempt shared)),
      (''source_repo'', CStr (rc_source_repo ctx)), (''artifact_source'', CStr (rc_artifact_source ctx)),
      (''artifact_source_run_id'', opt_cell CInt (rc_source_run_id ctx)), (''artifact_source_url'', CStr (source_url_of ctx)),
      (''event'', CStr (str_or_empty (rs_report h) (meta_get (rc_meta ctx) ''event''))),
      (''status'', job_text pj_status job), (''conclusion'', job_text pj_conclusion job),
      (''time_updated'', opt_cell CTime updated), (''target_name'', target_text tg_name platform target),
      (''runs_on'', target_text tg_runs_on [] target), (''artifact_group'', target_text tg_artifact_group [] target),
      (''tests_filters'', target_text tg_tests_filters [] target)]"

definition result_status :: "int \<Rightarrow> int \<Rightarrow> int \<Rightarrow> string" where
  "result_status failed error tests = (if failed = 0 \<and> error = 0 \<and> tests > 0 then ''passed'' else ''failed'')"

definition counts_json :: "results_host \<Rightarrow> platform_counts \<Rightarrow> string" where
  "counts_json h c =
     rh_dumps (rs_report h) (PDict [(''error'', PInt (pc_error c)), (''failed'', PInt (pc_failed c)), (''passed'', PInt (pc_passed c)),
       (''platform'', PStr (pc_platform c)), (''skipped'', PInt (pc_skipped c)), (''total'', PInt (pc_total c))])"

definition summary_values ::
    "results_host \<Rightarrow> run_context \<Rightarrow> shared_values \<Rightarrow> counts_row \<Rightarrow> int option \<Rightarrow> (string \<times> cell) list" where
  "summary_values h ctx shared row updated =
     (case row of
        (c, artifact_name, counts_path) \<Rightarrow>
          (let target = resolve_target (pc_platform c) (rc_targets ctx); job = map_of (rc_jobs ctx) (pc_platform c)
           in [(''row_type'', CStr ''summary''), (''run_id'', CInt (sv_run_id shared)), (''platform'', CStr (pc_platform c)),
               (''gpu_arch'', target_text tg_gpu_arch [] target)] @
              run_values h ctx shared (pc_platform c) target job updated @
              [(''artifact_name'', CStr artifact_name), (''artifact_url'', job_url_or counts_path job),
               (''tests_pass'', CInt (pc_passed c)), (''tests_fail'', CInt (pc_failed c)), (''tests_error'', CInt (pc_error c)),
               (''tests_skip'', CInt (pc_skipped c)), (''total_test_count'', CInt (pc_total c)),
               (''result_status'', CStr (result_status (pc_failed c) (pc_error c) (pc_total c))),
               (''raw_counts_json'', CStr (counts_json h c)),
               (''nodeid'', CStr []), (''test_file'', CStr []), (''test_class'', CStr []), (''test_name'', CStr []),
               (''outcome'', CStr []), (''duration_secs'', CFloat 0), (''phase'', CStr []), (''error_type'', CStr []),
               (''error_message'', CStr []), (''hw_marker'', CStr []), (''ci_marker'', CStr []), (''layer_marker'', CStr []),
               (''runtime_marker'', CStr []), (''markers_raw'', CStr ''[]'')]))"

definition empty_row :: "cell list" where
  "empty_row = replicate (length columns) CNone"

definition summary_row :: "results_host \<Rightarrow> run_context \<Rightarrow> shared_values \<Rightarrow> counts_row \<Rightarrow> py_error + cell list" where
  "summary_row h ctx shared row =
     sum_bind (parse_iso_datetime h (meta_get (rc_meta ctx) ''updated_at''))
       (\<lambda>updated. fill_row empty_row (summary_values h ctx shared row updated))"

fun cell_int :: "cell \<Rightarrow> int" where
  "cell_int (CInt i) = i"
| "cell_int _ = 0"

definition column_of :: "string \<Rightarrow> cell list \<Rightarrow> cell" where
  "column_of col row = (case column_index col of None \<Rightarrow> CNone | Some i \<Rightarrow> row ! i)"

definition sum_column :: "cell list list \<Rightarrow> string \<Rightarrow> int" where
  "sum_column rows col = sum_list (map (\<lambda>r. cell_int (column_of col r)) rows)"

definition total_json :: "results_host \<Rightarrow> cell list list \<Rightarrow> string" where
  "total_json h rows =
     rh_dumps (rs_report h) (PDict [(''error'', PInt (sum_column rows ''tests_error'')), (''failed'', PInt (sum_column rows ''tests_fail'')),
       (''passed'', PInt (sum_column rows ''tests_pass'')), (''platforms'', PInt (int (length rows))),
       (''skipped'', PInt (sum_column rows ''tests_skip'')), (''source'', PStr ''computed_from_platform_counts''),
       (''total'', PInt (sum_column rows ''total_test_count''))])"

definition total_values :: "results_host \<Rightarrow> string \<Rightarrow> cell list list \<Rightarrow> (string \<times> cell) list" where
  "total_values h run_url rows =
     (let fail = sum_column rows ''tests_fail''; error = sum_column rows ''tests_error''; tests = sum_column rows ''total_test_count''
      in [(''platform'', CStr ''TOTAL''), (''gpu_arch'', CStr ''all''), (''target_name'', CStr ''TOTAL''), (''runs_on'', CStr []),
          (''artifact_group'', CStr ''all''), (''tests_filters'', CStr []), (''artifact_name'', CStr ''computed-total''),
          (''artifact_url'', CStr run_url), (''status'', CStr []), (''conclusion'', CStr []),
          (''tests_pass'', CInt (sum_column rows ''tests_pass'')), (''tests_fail'', CInt fail), (''tests_error'', CInt error),
          (''tests_skip'', CInt (sum_column rows ''tests_skip'')), (''total_test_count'', CInt tests),
          (''result_status'', CStr (result_status fail error tests)), (''raw_counts_json'', CStr (total_json h rows))])"

definition build_summary_insert_rows :: "results_host \<Rightarrow> run_context \<Rightarrow> counts_row list \<Rightarrow> bool \<Rightarrow> py_error + cell list list" where
  "build_summary_insert_rows h ctx counts_rows include_total_row =
     sum_bind (shared_run_values h (rc_meta ctx) (rc_github_repo ctx) None) (\<lambda>shared.
     sum_bind (mapM (summary_row h ctx shared) counts_rows) (\<lambda>rows.
       if include_total_row \<and> rows \<noteq> []
       then map_sum id (\<lambda>t. rows @ [t]) (fill_row (hd rows) (total_values h (sv_run_url shared) rows))
       else Inr rows))"

definition case_values ::
    "results_host \<Rightarrow> run_context \<Rightarrow> shared_values \<Rightarrow> int \<Rightarrow> string \<Rightarrow> test_case_result \<Rightarrow> target_config option \<Rightarrow>
     platform_job_metadata option \<Rightarrow> int option \<Rightarrow> (string \<times> cell) list" where
  "case_values h ctx shared run_id platform c target job updated =
     [(''row_type'', CStr ''case''), (''run_id'', CInt run_id), (''platform'', CStr platform), (''gpu_arch'', CStr (sv_gpu_arch shared))] @
     run_values h ctx shared platform target job updated @
     [(''artifact_name'', CStr []), (''artifact_url'', job_url_or (sv_run_url shared) job),
      (''tests_pass'', CInt 0), (''tests_fail'', CInt 0), (''tests_error'', CInt 0), (''tests_skip'', CInt 0),
      (''total_test_count'', CInt 0), (''result_status'', CStr []), (''raw_counts_json'', CStr []),
      (''nodeid'', CStr (tr_nodeid c)), (''test_file'', CStr (tr_test_file c)), (''test_class'', CStr (tr_test_class c)),
      (''test_name'', CStr (tr_test_name c)), (''outcome'', CStr (tr_outcome c)), (''duration_secs'', CFloat (tr_duration_secs c)),
      (''phase'', CStr (tr_phase c)), (''error_type'', CStr (tr_error_type c)), (''error_message'', CStr (tr_error_message c)),
      (''hw_marker'', CStr (tr_hw_marker c)), (''ci_marker'', CStr (tr_ci_marker c)), (''layer_marker'', CStr (tr_layer_marker c)),
      (''runtime_marker'', CStr (tr_runtime_marker c)), (''markers_raw'', CStr (tr_markers_raw c))]"

definition build_case_insert_rows ::
    "results_host \<Rightarrow> run_context \<Rightarrow> int \<Rightarrow> string \<Rightarrow> test_case_result list \<Rightarrow> target_config option \<Rightarrow> platform_job_metadata option \<Rightarrow>
     py_error + cell list list" where
  "build_case_insert_rows h ctx run_id platform cases target job =
     sum_bind (shared_run_values h (rc_meta ctx) (rc_github_repo ctx) target) (\<lambda>shared.
       mapM (\<lambda>c. sum_bind (parse_iso_datetime h (meta_get (rc_meta ctx) ''updated_at''))
                   (\<lambda>updated. fill_row empty_row (case_values h ctx shared run_id platform c target job updated))) cases)"

text \<open>Platforms without cases and platforms whose rows cannot be built are passed over.\<close>

fun all_case_rows :: "results_host \<Rightarrow> run_context \<Rightarrow> int \<Rightarrow> (string \<times> test_case_result list) list \<Rightarrow> cell list list" where
  "all_case_rows h ctx run_id [] = []"
| "all_case_rows h ctx run_id ((platform, cases) # rest) =
     (if cases = [] then all_case_rows h ctx run_id rest
      else
        (case build_case_insert_rows h ctx run_id platform cases (resolve_target platform (rc_targets ctx)) (map_of (rc_jobs ctx) platform) of
           Inl _ \<Rightarrow> all_case_rows h ctx run_id rest
         | Inr rows \<Rightarrow> rows @ all_case_rows h ctx run_id rest))"

definition insert_case_rows ::
    "results_host \<Rightarrow> string \<Rightarrow> run_context \<Rightarrow> int \<Rightarrow> (string \<times> test_case_result list) list \<Rightarrow> ch_op list \<Rightarrow>
     (py_error + unit) \<times> ch_op list" where
  "insert_case_rows h table ctx run_id platform_cases ops =
     (let rows = all_case_rows h ctx run_id platform_cases
      in if rows = [] then (Inr (), ops) else insert_rows h table columns rows ops)"

subsection \<open>The script\<close>

record results_args =
  ra_run_id :: int
  ra_github_repo :: string
  ra_source_repo :: string
  ra_artifact_source :: string
  ra_table :: string
  ra_testplan :: "(py_error + ini) option"
  ra_counts :: "found_file list"
  ra_reports :: "found_file list option"
  ra_create_table :: bool
  ra_recreate_table :: bool
  ra_no_total_row :: bool

definition prepare_table :: "results_host \<Rightarrow> results_args \<Rightarrow> ch_op list \<Rightarrow> (py_error + unit) \<times> ch_op list" where
  "prepare_table h args ops =
     (if ra_recreate_table args then drop_and_create_table h (ra_table args) ops
      else if ra_create_table args then create_table h (ra_table args) ops else (Inr (), ops))"

definition and_then :: "(py_error + unit) \<times> ch_op list \<Rightarrow> (ch_op list \<Rightarrow> (py_error + unit) \<times> ch_op list) \<Rightarrow> (py_error + unit) \<times> ch_op list" where
  "and_then r f = (case r of (Inl e, ops) \<Rightarrow> (Inl e, ops) | (Inr _, ops) \<Rightarrow> f ops)"

definition insert_reports :: "results_host \<Rightarrow> results_args \<Rightarrow> run_context \<Rightarrow> int \<Rightarrow> ch_op list \<Rightarrow> (py_error + unit) \<times> ch_op list" where
  "insert_reports h args ctx run_id ops =
     (case ra_reports args of
        None \<Rightarrow> (Inr (), ops)
      | Some files \<Rightarrow>
          (let platform_cases = read_local_reports (rs_report h) files
           in if platform_cases = [] then (Inr (), ops)
              else insert_case_rows h (ra_table args) ctx run_id platform_cases ops))"

text \<open>From the answers of GitHub to the statements.\<close>

definition plan_rows ::
    "results_host \<Rightarrow> results_args \<Rightarrow> (string \<times> target_config) list \<Rightarrow> counts_row list \<Rightarrow> (string \<times> pyval) list \<Rightarrow> pyval list \<Rightarrow>
     py_error + (run_context \<times> int \<times> cell list list)" where
  "plan_rows h args targets counts meta jobs =
     sum_bind (fetch_artifact_source_run_id h jobs) (\<lambda>source_run_id.
     sum_bind (build_platform_job_metadata h jobs) (\<lambda>platform_jobs.
     sum_bind (meta_run_id meta) (\<lambda>run_id.
       let ctx = \<lparr>rc_github_repo = ra_github_repo args, rc_source_repo = ra_source_repo args,
                  rc_artifact_source = ra_artifact_source args, rc_meta = meta, rc_source_run_id = source_run_id,
                  rc_targets = targets, rc_jobs = platform_jobs\<rparr>
       in sum_bind (build_summary_insert_rows h ctx counts (\<not> ra_no_total_row args)) (\<lambda>rows.
          sum_bind (build_client h) (\<lambda>_. Inr (ctx, run_id, rows))))))"

definition store :: "results_host \<Rightarrow> results_args \<Rightarrow> run_context \<Rightarrow> int \<Rightarrow> cell list list \<Rightarrow> ch_op list \<Rightarrow> (py_error + unit) \<times> ch_op list" where
  "store h args ctx run_id rows ops =
     and_then (and_then (prepare_table h args ops) (insert_rows h (ra_table args) columns rows)) (insert_reports h args ctx run_id)"

definition ingest :: "results_host \<Rightarrow> results_args \<Rightarrow> ((py_error + unit) \<times> ch_op list) option" where
  "ingest h args =
     (case sum_bind (load_testplan (ra_testplan args)) (\<lambda>targets.
           sum_bind (read_local_counts (rs_report h) (ra_counts args)) (\<lambda>counts.
           map_sum id (\<lambda>meta. (targets, counts, meta)) (fetch_run_metadata h (ra_github_repo args) (ra_run_id args)))) of
        Inl e \<Rightarrow> Some (Inl e, [])
      | Inr (targets, counts, meta) \<Rightarrow>
          map_option (\<lambda>r. case sum_bind r (plan_rows h args targets counts meta) of
              Inl e \<Rightarrow> (Inl e, [])
            | Inr (ctx, run_id, rows) \<Rightarrow> store h args ctx run_id rows [])
            (fetch_workflow_jobs h (ra_github_repo args) (ra_run_id args)))"

definition caught_errors :: "py_error list" where
  "caught_errors = [OSError, FileNotFoundError, ValueError, RuntimeError, KeyError, HTTPError, URLError, TimeoutError]"

definition results_main :: "results_host \<Rightarrow> results_args \<Rightarrow> ((py_error + bool) \<times> ch_op list) option" where
  "results_main h args =
     map_option (\<lambda>(r, ops). (case r of
         Inl e \<Rightarrow> if e \<in> set caught_errors then Inr False else Inl e
       | Inr _ \<Rightarrow> Inr True, ops)) (ingest h args)"

end
