(* ===== verification/ResultProps.thy ===== *)
theory ResultProps
  imports Results
begin

text \<open>
  Theorems about the ingestion of results: pagination collects everything, rows have the shape of the table,
  the \<open>TOTAL\<close> row adds up, and a run that reports success has stored every count and every readable case.
\<close>

subsection \<open>Pages\<close>

lemma pages_from_complete:
  assumes pages: "\<And>page. \<exists>d. fetch (page_url url (Suc page)) = Inr d \<and>
      map_of d key = Some (PList (take 100 (drop (100 * page) xs)))"
    and "100 * page \<le> length xs"
  shows "pages_from fetch url key (Suc page) (take (100 * page) xs) = Some (Inr xs)"
  using assms(2)
proof (induction "length xs - 100 * page" arbitrary: page rule: less_induct)
  case less
  obtain d where d: "fetch (page_url url (Suc page)) = Inr d" "map_of d key = Some (PList (take 100 (drop (100 * page) xs)))"
    using pages by blast
  let ?batch = "take 100 (drop (100 * page) xs)"
  have app: "take (100 * page) xs @ ?batch = take (100 * Suc page) xs"
    by (simp flip: take_add add: add.commute)
  show ?case
  proof (cases "length ?batch < 100")
    case True
    then have "take (100 * Suc page) xs = xs" by simp
    with True d app show ?thesis by (subst pages_from.simps) (simp del: length_take)
  next
    case False
    then have "100 * Suc page \<le> length xs" by simp
    from less(1) [OF _ this] have "pages_from fetch url key (Suc (Suc page)) (take (100 * Suc page) xs) = Some (Inr xs)"
      using \<open>100 * Suc page \<le> length xs\<close> by simp
    with False d app show ?thesis by (subst pages_from.simps) (simp del: length_take)
  qed
qed

text \<open>
  Pagination ends and loses nothing: when the service answers page \<open>n\<close> with the \<open>n\<close>-th hundred of its items, the
  loop returns all of them in order, also when the last page is full or there is none.
\<close>

theorem paged_items_complete:
  assumes "\<And>page. \<exists>d. fetch_json h (page_url url (Suc page)) = Inr d \<and>
      map_of d key = Some (PList (take 100 (drop (100 * page) xs)))"
  shows "paged_github_items h url key = Some (Inr xs)"
  using pages_from_complete [of "fetch_json h" url key xs 0] assms by (simp add: paged_github_items_def)

definition demo_page_items :: "pyval list" where
  "demo_page_items = replicate 130 PNone"

definition demo_pages :: "string \<Rightarrow> pyval option" where
  "demo_pages t = Some (PDict [(''jobs'', PList (if t = page_url ''u'' 1 then take 100 demo_page_items
     else if t = page_url ''u'' 2 then drop 100 demo_page_items else []))])"

definition demo_results_host :: "report_host \<Rightarrow> results_host" where
  "demo_results_host rh = \<lparr>rs_report = rh, rs_getenv = (\<lambda>name. Some (''v'')), rs_certifi = None,
     rs_web = (\<lambda>_ _ url. Inr url), rs_fromiso = (\<lambda>_. Inr 0), rs_now = 0, rs_dash = ''-'', rs_connect = (\<lambda>_. None),
     rs_client = (\<lambda>_. None)\<rparr>"

lemma page_url_inject [simp]: "page_url url m = page_url url n \<longleftrightarrow> m = n"
  by (simp add: page_url_def)

theorem paged_items_complete_witness:
  "paged_github_items (demo_results_host (demo_report_host\<lparr>rh_loads := demo_pages\<rparr>)) ''u'' ''jobs'' = Some (Inr demo_page_items) \<and>
   length demo_page_items = 130"
proof -
  let ?h = "demo_results_host (demo_report_host\<lparr>rh_loads := demo_pages\<rparr>)"
  have "fetch_json ?h (page_url ''u'' (Suc page)) = Inr [(''jobs'', PList (take 100 (drop (100 * page) demo_page_items)))]" for page
  proof (cases page)
    case 0
    then show ?thesis by (simp add: fetch_json_def demo_results_host_def demo_pages_def)
  next
    case (Suc n)
    then show ?thesis
      by (cases n) (simp_all add: fetch_json_def demo_results_host_def demo_pages_def demo_page_items_def numeral_2_eq_2)
  qed
  then have "paged_github_items ?h ''u'' ''jobs'' = Some (Inr demo_page_items)" by (intro paged_items_complete) simp
  then show ?thesis by (simp add: demo_page_items_def)
qed

subsection \<open>Rows\<close>

lemma distinct_columns [simp]: "distinct columns"
  by code_simp

lemma schema_columns: "map fst table_schema = columns @ [''inserted_at'']"
  by (simp add: table_schema_def columns_def)

lemma column_index_nth: "i < length columns \<Longrightarrow> column_index (columns ! i) = Some i"
  by (simp add: column_index_def map_of_zip_nth)

lemma column_index_Some: "column_index col = Some i \<Longrightarrow> i < length columns \<and> columns ! i = col"
  by (auto simp: column_index_def dest!: map_of_SomeD simp: set_zip)

lemma fill_row_from:
  assumes "map fst vals = drop k columns" and "length row = length columns"
  shows "fill_row row vals = Inr (take k row @ map snd vals)"
  using assms
proof (induction vals arbitrary: k row)
  case Nil
  then show ?case by simp
next
  case (Cons v vals)
  obtain col val where v: "v = (col, val)" by fastforce
  have k: "k < length columns" using Cons.prems(1) by (metis drop_all list.distinct(1) list.simps(9) not_less)
  then have d: "drop k columns = columns ! k # drop (Suc k) columns" by (rule Cons_nth_drop_Suc [symmetric])
  with Cons.prems v have "col = columns ! k" "map fst vals = drop (Suc k) columns" by auto
  with Cons.IH [of "Suc k" "row[k := val]"] Cons.prems(2) k v show ?case
    by (simp add: column_index_nth take_Suc_conv_app_nth)
qed

lemma fill_row_all: "map fst vals = columns \<Longrightarrow> fill_row empty_row vals = Inr (map snd vals)"
  using fill_row_from [of vals 0 empty_row] by (simp add: empty_row_def)

lemma fill_row_nth:
  assumes "fst ` set vals \<subseteq> set columns" and "distinct (map fst vals)" and "length row = length columns"
  shows "\<exists>row'. fill_row row vals = Inr row' \<and> length row' = length columns \<and>
    (\<forall>i < length columns. row' ! i = (case map_of vals (columns ! i) of None \<Rightarrow> row ! i | Some v \<Rightarrow> v))"
  using assms
proof (induction vals arbitrary: row)
  case (Cons v vals)
  obtain col val where v: "v = (col, val)" by fastforce
  with Cons.prems(1) obtain k where k: "k < length columns" "columns ! k = col" by (auto simp: in_set_conv_nth)
  then have idx: "column_index col = Some k" using column_index_nth by blast
  from Cons.IH [of "row[k := val]"] Cons.prems obtain row' where row': "fill_row (row[k := val]) vals = Inr row'"
      "length row' = length columns"
      "\<forall>i < length columns. row' ! i = (case map_of vals (columns ! i) of None \<Rightarrow> (row[k := val]) ! i | Some v \<Rightarrow> v)" by auto
  have none: "map_of vals col = None" using Cons.prems(2) v by (auto simp: map_of_eq_None_iff)
  have same: "columns ! i \<noteq> col" if "i < length columns" "i \<noteq> k" for i
    using that k distinct_columns nth_eq_iff_index_eq by blast
  have "row' ! i = (case map_of (v # vals) (columns ! i) of None \<Rightarrow> row ! i | Some v \<Rightarrow> v)" if "i < length columns" for i
    using that row'(3) v k none same [OF that] Cons.prems(3)
    by (cases "i = k") (simp_all split: option.split)
  then show ?case using row'(1,2) v idx by auto
qed simp

lemma column_of_values:
  assumes "map fst vals = columns" and "map_of vals col = Some v"
  shows "column_of col (map snd vals) = v"
proof -
  obtain i where i: "i < length vals" "vals ! i = (col, v)" using map_of_SomeD [OF assms(2)] by (auto simp: in_set_conv_nth)
  then have "columns ! i = col" using assms(1) by (metis fst_conv nth_map)
  with i assms(1) have "column_index col = Some i" using column_index_nth [of i] by (metis length_map)
  with i show ?thesis by (simp add: column_of_def)
qed

lemma summary_values_columns: "map fst (summary_values h ctx shared row updated) = columns"
  by (cases row) (simp add: summary_values_def run_values_def columns_def Let_def)

lemma case_values_columns: "map fst (case_values h ctx shared run_id platform c target job updated) = columns"
  by (simp add: case_values_def run_values_def columns_def)

lemma summary_row_eq:
  "summary_row h ctx shared row =
     map_sum id (\<lambda>u. map snd (summary_values h ctx shared row u)) (parse_iso_datetime h (meta_get (rc_meta ctx) ''updated_at''))"
  by (cases "parse_iso_datetime h (meta_get (rc_meta ctx) ''updated_at'')")
     (simp_all add: summary_row_def fill_row_all summary_values_columns)

lemma total_values_columns:
  "fst ` set (total_values h url rows) \<subseteq> set columns \<and> distinct (map fst (total_values h url rows))"
  by (simp add: total_values_def columns_def Let_def)


subsection \<open>The kinds of cells\<close>

fun fits_column :: "column_type \<Rightarrow> cell \<Rightarrow> bool" where
  "fits_column Text_Column (CStr _) = True"
| "fits_column UInt64 (CInt _) = True"
| "fits_column UInt32 (CInt _) = True"
| "fits_column Nullable_UInt64 (CInt _) = True"
| "fits_column Nullable_UInt64 CNone = True"
| "fits_column DateTime64 (CTime _) = True"
| "fits_column Nullable_DateTime64 (CTime _) = True"
| "fits_column Nullable_DateTime64 CNone = True"
| "fits_column Float32 (CFloat _) = True"
| "fits_column _ _ = False"

definition fits_table :: "cell list \<Rightarrow> bool" where
  "fits_table row \<longleftrightarrow> length row = length columns \<and>
     (\<forall>i < length columns. fits_column (snd (table_schema ! i)) (row ! i))"

lemma fits_table_list: "fits_table row \<longleftrightarrow> list_all2 fits_column (map snd (butlast table_schema)) row"
proof -
  have "length table_schema = Suc (length columns)" using arg_cong [OF schema_columns, of length] by simp
  then show ?thesis by (auto simp: fits_table_def list_all2_conv_all_nth nth_butlast)
qed

lemma opt_cell_fits [simp]:
  "fits_column Nullable_UInt64 (opt_cell CInt x)" "fits_column Nullable_DateTime64 (opt_cell CTime x)"
  by (simp_all add: opt_cell_def split: option.split)

lemma summary_values_fit: "fits_table (map snd (summary_values h ctx shared row updated))"
  by (cases row)
     (simp add: fits_table_list table_schema_def summary_values_def run_values_def Let_def target_text_def job_text_def job_url_or_def)

lemma case_values_fit: "fits_table (map snd (case_values h ctx shared run_id platform c target job updated))"
  by (simp add: fits_table_list table_schema_def case_values_def run_values_def target_text_def job_text_def job_url_or_def)

lemma total_values_fit:
  "list_all (\<lambda>(col, v). case map_of table_schema col of None \<Rightarrow> False | Some t \<Rightarrow> fits_column t v) (total_values h url rows)"
  by (simp add: total_values_def table_schema_def Let_def)

lemma schema_nth: "i < length columns \<Longrightarrow> map_of table_schema (columns ! i) = Some (snd (table_schema ! i))"
proof -
  assume i: "i < length columns"
  have len: "i < length table_schema" using i arg_cong [OF schema_columns, of length] by simp
  have "distinct (map fst table_schema)" unfolding schema_columns by (simp add: columns_def)
  moreover have "fst (table_schema ! i) = columns ! i"
    using i len arg_cong [OF schema_columns, of "\<lambda>xs. xs ! i"] by (simp add: nth_append)
  ultimately show ?thesis using nth_mem [OF len] by (metis map_of_eq_Some_iff prod.collapse)
qed

lemma total_row_ok:
  assumes "fits_table row"
  shows "\<exists>t. fill_row row (total_values h url rows) = Inr t \<and> fits_table t \<and>
    (\<forall>col v. map_of (total_values h url rows) col = Some v \<longrightarrow> column_of col t = v) \<and>
    (\<forall>col. map_of (total_values h url rows) col = None \<longrightarrow> column_of col t = column_of col row)"
proof -
  let ?vals = "total_values h url rows"
  obtain t where t: "fill_row row ?vals = Inr t" "length t = length columns"
      "\<forall>i < length columns. t ! i = (case map_of ?vals (columns ! i) of None \<Rightarrow> row ! i | Some v \<Rightarrow> v)"
    using fill_row_nth [of ?vals row] total_values_columns assms unfolding fits_table_def by blast
  have "fits_column (snd (table_schema ! i)) (t ! i)" if i: "i < length columns" for i
  proof (cases "map_of ?vals (columns ! i)")
    case None
    with t(3) i assms show ?thesis by (simp add: fits_table_def)
  next
    case (Some v)
    then have "(columns ! i, v) \<in> set ?vals" by (rule map_of_SomeD)
    then have "fits_column (snd (table_schema ! i)) v" using total_values_fit [of h url rows] schema_nth [OF i] by (auto simp: list_all_iff)
    with Some t(3) i show ?thesis by simp
  qed
  with t(2) have "fits_table t" by (simp add: fits_table_def)
  moreover have "column_of col t = (case map_of ?vals col of None \<Rightarrow> column_of col row | Some v \<Rightarrow> v)" for col
  proof (cases "column_index col")
    case None
    then have "col \<notin> set columns" using column_index_nth by (auto simp: in_set_conv_nth)
    then have "map_of ?vals col = None" using total_values_columns [of h url rows] by (auto simp: map_of_eq_None_iff)
    with None show ?thesis by (simp add: column_of_def)
  next
    case (Some i)
    with column_index_Some [OF Some] t(3) show ?thesis by (auto simp: column_of_def split: option.split)
  qed
  ultimately show ?thesis using t(1) by auto
qed

lemma summary_rows_eq:
  assumes "build_summary_insert_rows h ctx counts_rows tot = Inr rows"
  obtains shared prows where "shared_run_values h (rc_meta ctx) (rc_github_repo ctx) None = Inr shared"
    and "list_all fits_table prows"
    and "list_all2 (\<lambda>cr row. summary_row h ctx shared cr = Inr row) counts_rows prows"
    and "if tot \<and> prows \<noteq> [] then \<exists>t. fill_row (hd prows) (total_values h (sv_run_url shared) prows) = Inr t \<and> rows = prows @ [t]
     else rows = prows"
proof -
  obtain shared prows where s: "shared_run_values h (rc_meta ctx) (rc_github_repo ctx) None = Inr shared"
      "mapM (summary_row h ctx shared) counts_rows = Inr prows"
      "(if tot \<and> prows \<noteq> [] then map_sum id (\<lambda>t. prows @ [t]) (fill_row (hd prows) (total_values h (sv_run_url shared) prows)) else Inr prows) = Inr rows"
    using assms unfolding build_summary_insert_rows_def sum_bind_Inr by blast
  have "list_all fits_table prows"
    using mapM_Inr_preimage [OF s(2)] summary_values_fit by (fastforce simp: summary_row_eq list_all_iff)
  moreover have "list_all2 (\<lambda>cr row. summary_row h ctx shared cr = Inr row) counts_rows prows"
    using mapM_Inr_length [OF s(2)] mapM_Inr_nth [OF s(2)] by (simp add: list_all2_conv_all_nth)
  moreover have "if tot \<and> prows \<noteq> [] then \<exists>t. fill_row (hd prows) (total_values h (sv_run_url shared) prows) = Inr t \<and> rows = prows @ [t]
      else rows = prows" using s(3) by (auto split: if_splits)
  ultimately show thesis by (rule that [OF s(1)])
qed

text \<open>Building the rows fails only on the metadata of the run.\<close>

lemma summary_rows_total:
  assumes "shared_run_values h (rc_meta ctx) (rc_github_repo ctx) None = Inr shared"
    and "parse_iso_datetime h (meta_get (rc_meta ctx) ''updated_at'') = Inr updated"
  shows "\<exists>rows. build_summary_insert_rows h ctx counts_rows tot = Inr rows \<and> (rows = [] \<longleftrightarrow> counts_rows = [])"
proof -
  define row where "row cr = map snd (summary_values h ctx shared cr updated)" for cr
  have rows: "mapM (summary_row h ctx shared) crs = Inr (map row crs)" for crs
    by (induction crs) (simp_all add: summary_row_eq assms(2) row_def)
  show ?thesis
  proof (cases counts_rows)
    case Nil
    then show ?thesis by (simp add: build_summary_insert_rows_def assms(1))
  next
    case (Cons cr crs)
    have "fits_table (row cr)" unfolding row_def by (rule summary_values_fit)
    from total_row_ok [OF this] obtain t where "fill_row (row cr) (total_values h (sv_run_url shared) (map row counts_rows)) = Inr t" by blast
    with Cons show ?thesis unfolding build_summary_insert_rows_def assms(1) sum_bind_simps rows by simp
  qed
qed

subsection \<open>The total\<close>

lemma summary_row_column:
  assumes "summary_row h ctx shared (c, a, p) = Inr row"
  shows "column_of ''platform'' row = CStr (pc_platform c) \<and> column_of ''tests_pass'' row = CInt (pc_passed c) \<and>
    column_of ''tests_fail'' row = CInt (pc_failed c) \<and> column_of ''tests_error'' row = CInt (pc_error c) \<and>
    column_of ''tests_skip'' row = CInt (pc_skipped c) \<and> column_of ''total_test_count'' row = CInt (pc_total c) \<and>
    column_of ''result_status'' row = CStr (result_status (pc_failed c) (pc_error c) (pc_total c))"
proof -
  from assms obtain u where row: "row = map snd (summary_values h ctx shared (c, a, p) u)" by (auto simp: summary_row_eq)
  have "column_of col row = v" if "map_of (summary_values h ctx shared (c, a, p) u) col = Some v" for col v
    unfolding row using summary_values_columns that by (rule column_of_values)
  then show ?thesis by (simp add: summary_values_def run_values_def Let_def)
qed

lemma sum_columns:
  assumes "list_all2 (\<lambda>cr row. summary_row h ctx shared cr = Inr row) counts_rows rows"
  shows "sum_column rows ''tests_pass'' = sum_list (map (pc_passed \<circ> fst) counts_rows) \<and>
    sum_column rows ''tests_fail'' = sum_list (map (pc_failed \<circ> fst) counts_rows) \<and>
    sum_column rows ''tests_error'' = sum_list (map (pc_error \<circ> fst) counts_rows) \<and>
    sum_column rows ''tests_skip'' = sum_list (map (pc_skipped \<circ> fst) counts_rows) \<and>
    sum_column rows ''total_test_count'' = sum_list (map (pc_total \<circ> fst) counts_rows)"
  using assms
proof (induction rule: list_all2_induct)
  case (Cons cr crs row rows)
  obtain c a p where cr: "cr = (c, a, p)" by (metis prod.exhaust)
  with Cons summary_row_column [of h ctx shared c a p row] show ?case by (simp add: sum_column_def)
qed (simp add: sum_column_def)

text \<open>
  The last row of a summary with a total adds up the others: its counts are the sums of the counts of all platforms,
  it says \<open>passed\<close> exactly when nothing failed anywhere and some test ran, and what it does not replace it takes
  over from the first platform.
\<close>

theorem total_row_adds_up:
  assumes "build_summary_insert_rows h ctx counts_rows True = Inr rows" and "counts_rows \<noteq> []"
  shows "length rows = Suc (length counts_rows) \<and> column_of ''platform'' (last rows) = CStr ''TOTAL'' \<and>
    column_of ''tests_pass'' (last rows) = CInt (sum_list (map (pc_passed \<circ> fst) counts_rows)) \<and>
    column_of ''tests_fail'' (last rows) = CInt (sum_list (map (pc_failed \<circ> fst) counts_rows)) \<and>
    column_of ''tests_error'' (last rows) = CInt (sum_list (map (pc_error \<circ> fst) counts_rows)) \<and>
    column_of ''tests_skip'' (last rows) = CInt (sum_list (map (pc_skipped \<circ> fst) counts_rows)) \<and>
    column_of ''total_test_count'' (last rows) = CInt (sum_list (map (pc_total \<circ> fst) counts_rows)) \<and>
    column_of ''result_status'' (last rows) = CStr (result_status (sum_list (map (pc_failed \<circ> fst) counts_rows))
      (sum_list (map (pc_error \<circ> fst) counts_rows)) (sum_list (map (pc_total \<circ> fst) counts_rows))) \<and>
    column_of ''run_id'' (last rows) = column_of ''run_id'' (hd rows)"
proof -
  obtain shared prows where q: "shared_run_values h (rc_meta ctx) (rc_github_repo ctx) None = Inr shared"
      "list_all fits_table prows" "list_all2 (\<lambda>cr row. summary_row h ctx shared cr = Inr row) counts_rows prows"
      "if True \<and> prows \<noteq> [] then \<exists>t. fill_row (hd prows) (total_values h (sv_run_url shared) prows) = Inr t \<and> rows = prows @ [t] else rows = prows"
    by (rule summary_rows_eq [OF assms(1)])
  moreover have "prows \<noteq> []" using q(3) assms(2) by auto
  ultimately obtain t where p: "list_all fits_table prows"
      "list_all2 (\<lambda>cr row. summary_row h ctx shared cr = Inr row) counts_rows prows" "prows \<noteq> []"
      "fill_row (hd prows) (total_values h (sv_run_url shared) prows) = Inr t" "rows = prows @ [t]" by auto
  let ?vals = "total_values h (sv_run_url shared) prows"
  have "fits_table (hd prows)" using p(1,3) by (simp add: list_all_iff)
  from total_row_ok [OF this, of h "sv_run_url shared" prows] p(4) have
    c: "\<And>col v. map_of ?vals col = Some v \<Longrightarrow> column_of col t = v" "\<And>col. map_of ?vals col = None \<Longrightarrow> column_of col t = column_of col (hd prows)"
    by auto
  have "map_of ?vals ''run_id'' = None" by (simp add: total_values_def Let_def)
  moreover have "length prows = length counts_rows" using p(2) by (simp add: list_all2_lengthD)
  ultimately show ?thesis
    using p(3,5) c(2) [of "''run_id''"] sum_columns [OF p(2)] by (simp add: c(1) total_values_def Let_def)
qed


definition demo_counts :: "string \<Rightarrow> int \<Rightarrow> platform_counts" where
  "demo_counts platform n = \<lparr>pc_platform = platform, pc_passed = n, pc_skipped = 0, pc_failed = 0, pc_error = 0, pc_total = n\<rparr>"

definition demo_run_ctx :: run_context where
  "demo_run_ctx = \<lparr>rc_github_repo = ''o/r'', rc_source_repo = ''o/s'', rc_artifact_source = ''w'', rc_meta = [(''id'', PInt 7)],
     rc_source_run_id = None, rc_targets = [], rc_jobs = []\<rparr>"

lemma demo_summary:
  "\<exists>rows. build_summary_insert_rows (demo_results_host demo_report_host) demo_run_ctx
     [(demo_counts ''a'' 3, ''x'', ''p''), (demo_counts ''b'' 0, ''y'', ''q'')] True = Inr rows"
proof -
  have "case build_summary_insert_rows (demo_results_host demo_report_host) demo_run_ctx
     [(demo_counts ''a'' 3, ''x'', ''p''), (demo_counts ''b'' 0, ''y'', ''q'')] True of Inl _ \<Rightarrow> False | Inr _ \<Rightarrow> True" by code_simp
  then show ?thesis by (auto split: sum.splits)
qed

theorem total_row_adds_up_witness:
  "\<exists>rows. build_summary_insert_rows (demo_results_host demo_report_host) demo_run_ctx
     [(demo_counts ''a'' 3, ''x'', ''p''), (demo_counts ''b'' 0, ''y'', ''q'')] True = Inr rows \<and>
     length rows = 3 \<and> column_of ''tests_pass'' (last rows) = CInt 3"
proof -
  obtain rows where rows: "build_summary_insert_rows (demo_results_host demo_report_host) demo_run_ctx
     [(demo_counts ''a'' 3, ''x'', ''p''), (demo_counts ''b'' 0, ''y'', ''q'')] True = Inr rows" using demo_summary by blast
  from total_row_adds_up [OF rows] rows show ?thesis by (auto simp: demo_counts_def)
qed

text \<open>
  A platform on which no test ran is marked \<open>failed\<close>, and still the total says \<open>passed\<close> as soon as the other platforms
  have run tests and nothing failed.
\<close>

theorem total_passes_over_empty_platform:
  assumes "shared_run_values h (rc_meta ctx) (rc_github_repo ctx) None = Inr shared"
    and "parse_iso_datetime h (meta_get (rc_meta ctx) ''updated_at'') = Inr updated"
    and "pc_failed c = 0" and "pc_error c = 0" and "pc_total c > 0" and "pc_failed d = 0" and "pc_error d = 0" and "pc_total d = 0"
  shows "\<exists>row_c row_d t. build_summary_insert_rows h ctx [(c, a, p), (d, b, q)] True = Inr [row_c, row_d, t] \<and>
    column_of ''result_status'' row_d = CStr ''failed'' \<and> column_of ''result_status'' t = CStr ''passed''"
proof -
  let ?crs = "[(c, a, p), (d, b, q)]"
  define row where "row cr = map snd (summary_values h ctx shared cr updated)" for cr
  have rows: "summary_row h ctx shared cr = Inr (row cr)" for cr by (simp add: summary_row_eq assms(2) row_def)
  have "fits_table (row (c, a, p))" unfolding row_def by (rule summary_values_fit)
  from total_row_ok [OF this] obtain t where t: "fill_row (row (c, a, p)) (total_values h (sv_run_url shared) [row (c, a, p), row (d, b, q)]) = Inr t"
      "\<forall>col v. map_of (total_values h (sv_run_url shared) [row (c, a, p), row (d, b, q)]) col = Some v \<longrightarrow> column_of col t = v"
    by blast
  have build: "build_summary_insert_rows h ctx ?crs True = Inr [row (c, a, p), row (d, b, q), t]"
    using t(1) by (simp add: build_summary_insert_rows_def assms(1) rows)
  have "list_all2 (\<lambda>cr row. summary_row h ctx shared cr = Inr row) ?crs [row (c, a, p), row (d, b, q)]" by (simp add: rows)
  from sum_columns [OF this] t(2) have "column_of ''result_status'' t = CStr ''passed''"
    by (simp add: total_values_def Let_def result_status_def assms)
  with build summary_row_column [OF rows, of d b q] assms show ?thesis by (auto simp: result_status_def)
qed

theorem total_passes_over_empty_platform_witness:
  "\<exists>row_c row_d t. build_summary_insert_rows (demo_results_host demo_report_host) demo_run_ctx
      [(demo_counts ''a'' 3, ''x'', ''p''), (demo_counts ''b'' 0, ''y'', ''q'')] True = Inr [row_c, row_d, t] \<and>
    column_of ''result_status'' row_d = CStr ''failed'' \<and> column_of ''result_status'' t = CStr ''passed''"
proof -
  have "case shared_run_values (demo_results_host demo_report_host) (rc_meta demo_run_ctx) (rc_github_repo demo_run_ctx) None of Inl _ \<Rightarrow> False | Inr _ \<Rightarrow> True"
    by code_simp
  then obtain shared where s: "shared_run_values (demo_results_host demo_report_host) (rc_meta demo_run_ctx) (rc_github_repo demo_run_ctx) None = Inr shared"
    by (auto split: sum.splits)
  have "parse_iso_datetime (demo_results_host demo_report_host) (meta_get (rc_meta demo_run_ctx) ''updated_at'') = Inr None" by code_simp
  from total_passes_over_empty_platform [OF s this] show ?thesis by (simp add: demo_counts_def)
qed


subsection \<open>The statements of a run\<close>

lemma validate_same: "validate_clickhouse_table_name table = Inr t \<Longrightarrow> t = table"
  by (rule conjunct1 [OF validate_parts])

lemma case_row_eq:
  "sum_bind (parse_iso_datetime h v) (\<lambda>updated. fill_row empty_row (case_values h ctx shared run_id platform c target job updated)) =
   map_sum id (\<lambda>u. map snd (case_values h ctx shared run_id platform c target job u)) (parse_iso_datetime h v)"
  by (cases "parse_iso_datetime h v") (simp_all add: fill_row_all case_values_columns)

lemma case_rows_fit:
  "build_case_insert_rows h ctx run_id platform cases target job = Inr rows \<Longrightarrow> row \<in> set rows \<Longrightarrow> fits_table row"
  unfolding build_case_insert_rows_def case_row_eq sum_bind_Inr
  using case_values_fit by (fastforce dest: mapM_Inr_preimage)

lemma all_case_rows_fit: "row \<in> set (all_case_rows h ctx run_id pcs) \<Longrightarrow> fits_table row"
  by (induction h ctx run_id pcs rule: all_case_rows.induct) (auto split: if_splits sum.splits dest: case_rows_fit)

lemma summary_rows_fit:
  assumes "build_summary_insert_rows h ctx counts_rows tot = Inr rows" and "row \<in> set rows"
  shows "fits_table row"
proof -
  obtain shared prows where p: "shared_run_values h (rc_meta ctx) (rc_github_repo ctx) None = Inr shared"
      "list_all fits_table prows" "list_all2 (\<lambda>cr row. summary_row h ctx shared cr = Inr row) counts_rows prows"
      "if tot \<and> prows \<noteq> [] then \<exists>t. fill_row (hd prows) (total_values h (sv_run_url shared) prows) = Inr t \<and> rows = prows @ [t] else rows = prows"
    by (rule summary_rows_eq [OF assms(1)])
  show ?thesis
  proof (cases "tot \<and> prows \<noteq> []")
    case True
    then have "fits_table (hd prows)" using p(2) by (simp add: list_all_iff)
    from total_row_ok [OF this, of h "sv_run_url shared" prows] True p(2,4) assms(2) show ?thesis by (auto simp: list_all_iff)
  qed (use p(2,4) assms(2) in \<open>auto simp: list_all_iff\<close>)
qed

definition statement_ok :: "results_args \<Rightarrow> ch_op \<Rightarrow> bool" where
  "statement_ok args op \<longleftrightarrow> validate_clickhouse_table_name (ra_table args) = Inr (ra_table args) \<and>
     (case op of
        Insert t cols rows \<Rightarrow> t = ra_table args \<and> cols = columns \<and> rows \<noteq> [] \<and> list_all fits_table rows
      | CreateTable t schema \<Rightarrow> t = ra_table args \<and> schema = table_schema \<and> (ra_create_table args \<or> ra_recreate_table args)
      | DropTable t \<Rightarrow> t = ra_table args \<and> ra_recreate_table args)"

lemma run_op_set: "set (snd (run_op h op ops)) \<subseteq> insert op (set ops)"
  by (auto simp: run_op_def split: option.split)

lemma insert_rows_ok:
  assumes "list_all (statement_ok args) ops" and "list_all fits_table rows"
  shows "list_all (statement_ok args) (snd (insert_rows h (ra_table args) columns rows ops))"
proof (cases "validate_clickhouse_table_name (ra_table args)")
  case (Inr t)
  with validate_same [OF Inr] assms show ?thesis
    using run_op_set [of h "Insert (ra_table args) columns rows" ops] by (auto simp: insert_rows_def statement_ok_def list_all_iff)
qed (use assms in \<open>simp add: insert_rows_def\<close>)

lemma prepare_table_ok: "list_all (statement_ok args) (snd (prepare_table h args []))"
proof (cases "validate_clickhouse_table_name (ra_table args)")
  case (Inr t)
  with validate_same [OF Inr] show ?thesis
    by (auto simp: prepare_table_def drop_and_create_table_def create_table_def statement_ok_def run_op_def
        split: option.split prod.split sum.split)
qed (simp add: prepare_table_def drop_and_create_table_def create_table_def)

lemma and_then_ok:
  "list_all P (snd r) \<Longrightarrow> (\<And>ops. list_all P ops \<Longrightarrow> list_all P (snd (f ops))) \<Longrightarrow> list_all P (snd (and_then r f))"
  by (auto simp: and_then_def split: prod.split sum.split)

lemma insert_reports_ok: "list_all (statement_ok args) ops \<Longrightarrow> list_all (statement_ok args) (snd (insert_reports h args ctx run_id ops))"
proof (cases "ra_reports args")
  case (Some files)
  assume "list_all (statement_ok args) ops"
  moreover have "list_all fits_table (all_case_rows h ctx run_id (read_local_reports (rs_report h) files))"
    using all_case_rows_fit by (auto simp: list_all_iff)
  ultimately show ?thesis using Some by (simp add: insert_reports_def insert_case_rows_def Let_def insert_rows_ok)
qed (simp add: insert_reports_def)

lemma store_ok: "list_all fits_table rows \<Longrightarrow> list_all (statement_ok args) (snd (store h args ctx run_id rows []))"
  unfolding store_def by (intro and_then_ok prepare_table_ok insert_rows_ok insert_reports_ok)

lemma ingest_cases:
  assumes "ingest h args = Some (r, ops)"
  obtains (failed) e where "r = Inl e" "ops = []"
  | (stored) targets counts meta jobs ctx run_id rows where
      "load_testplan (ra_testplan args) = Inr targets" "read_local_counts (rs_report h) (ra_counts args) = Inr counts"
      "plan_rows h args targets counts meta jobs = Inr (ctx, run_id, rows)" "store h args ctx run_id rows [] = (r, ops)"
proof -
  let ?first = "sum_bind (load_testplan (ra_testplan args)) (\<lambda>targets.
    sum_bind (read_local_counts (rs_report h) (ra_counts args)) (\<lambda>counts.
    map_sum id (\<lambda>meta. (targets, counts, meta)) (fetch_run_metadata h (ra_github_repo args) (ra_run_id args))))"
  show thesis
  proof (cases ?first)
    case (Inl e)
    with assms show ?thesis by (intro failed [of e]) (simp_all add: ingest_def)
  next
    case (Inr x)
    obtain targets counts meta where x: "x = (targets, counts, meta)" by (metis prod.exhaust)
    with Inr have read: "load_testplan (ra_testplan args) = Inr targets" "read_local_counts (rs_report h) (ra_counts args) = Inr counts"
      unfolding sum_bind_Inr by auto
    from assms Inr x obtain jr where "(case sum_bind jr (plan_rows h args targets counts meta) of
        Inl e \<Rightarrow> (Inl e, []) | Inr (ctx, run_id, rows) \<Rightarrow> store h args ctx run_id rows []) = (r, ops)"
      by (auto simp: ingest_def)
    with read show ?thesis
      by (cases "sum_bind jr (plan_rows h args targets counts meta)") (auto simp: sum_bind_Inr intro: failed stored)
  qed
qed

text \<open>
  C34. However a run of the script ends, every statement it has sent is about the table it was given, whose name is
  an identifier, and every inserted row has one cell for each column of the schema, of the kind of the column, with
  no value missing but in the two nullable columns. The table is dropped only on request.
\<close>

theorem statements_fit_table:
  assumes "results_main h args = Some (r, ops)" and "op \<in> set ops"
  shows "statement_ok args op"
proof -
  have plan: "list_all fits_table rows" if "plan_rows h args targets counts meta jobs = Inr (ctx, run_id, rows)" for targets counts meta jobs ctx run_id rows
    using that summary_rows_fit unfolding plan_rows_def sum_bind_Inr Let_def by (fastforce simp: list_all_iff)
  from assms(1) obtain r' where "ingest h args = Some (r', ops)" by (auto simp: results_main_def)
  then have "list_all (statement_ok args) ops"
  proof (cases rule: ingest_cases)
    case (stored targets counts meta jobs ctx run_id rows)
    with store_ok [OF plan [OF stored(3)], of args h ctx run_id] show ?thesis by simp
  qed simp
  with assms(2) show ?thesis by (simp add: list_all_iff)
qed


definition demo_getenv_ch :: "string \<Rightarrow> string option" where
  "demo_getenv_ch name = (if name \<in> set [''CLICKHOUSE_HOST'', ''CLICKHOUSE_USERNAME'', ''CLICKHOUSE_PASSWORD'', ''CLICKHOUSE_DATABASE''] then Some ''x'' else None)"

text \<open>A host that answers every query with the run itself; its report is \<open>demo_report\<close>.\<close>

definition demo_loads :: "string \<Rightarrow> pyval option" where
  "demo_loads t = (if t = ''web'' then Some (PDict [(''id'', PInt 7)])
     else if t = ''counts'' then Some (PDict [(''platform'', PStr ''linux''), (''failed'', PInt 1), (''total'', PInt 1)])
     else rh_loads demo_report_host t)"

definition demo_run_host :: results_host where
  "demo_run_host = (demo_results_host (demo_report_host\<lparr>rh_loads := demo_loads\<rparr>))
     \<lparr>rs_getenv := demo_getenv_ch, rs_web := (\<lambda>_ _ _. Inr ''web'')\<rparr>"

definition demo_args :: results_args where
  "demo_args = \<lparr>ra_run_id = 7, ra_github_repo = ''o/r'', ra_source_repo = ''o/s'', ra_artifact_source = ''w'', ra_table = ''t'',
     ra_testplan = None, ra_counts = [demo_report\<lparr>ff_text := Inr ''counts''\<rparr>], ra_reports = Some [demo_report], ra_create_table = True,
     ra_recreate_table = False, ra_no_total_row = False\<rparr>"

lemma pages_one:
  assumes "fetch (page_url url page) = Inr d" and "py_list (case map_of d key of None \<Rightarrow> PList [] | Some v \<Rightarrow> v) = Inr batch" and "length batch < 100"
  shows "pages_from fetch url key page items = Some (Inr (items @ batch))"
  using assms by (subst pages_from.simps) simp

lemma demo_jobs: "fetch_workflow_jobs demo_run_host ''o/r'' 7 = Some (Inr [])"
proof -
  have "pages_from (fetch_json demo_run_host) u ''jobs'' 1 [] = Some (Inr ([] @ []))" for u
    by (rule pages_one [where d = "[(''id'', PInt 7)]"])
       (simp_all add: fetch_json_def demo_run_host_def demo_results_host_def demo_loads_def)
  then show ?thesis by (simp add: fetch_workflow_jobs_def paged_github_items_def)
qed

text \<open>
  The script succeeds when its inputs can be read, the metadata are complete, the table name is valid and the
  client accepts the statements; an answer about the jobs is not needed.
\<close>

lemma run_succeeds:
  assumes "load_testplan (ra_testplan args) = Inr targets" and "read_local_counts (rs_report h) (ra_counts args) = Inr counts"
    and "counts \<noteq> []" and "fetch_run_metadata h (ra_github_repo args) (ra_run_id args) = Inr meta"
    and "fetch_workflow_jobs h (ra_github_repo args) (ra_run_id args) = Some (Inr [])"
    and "shared_run_values h meta (ra_github_repo args) None = Inr shared"
    and "parse_iso_datetime h (meta_get meta ''updated_at'') = Inr updated"
    and "build_client h = Inr client" and "validate_clickhouse_table_name (ra_table args) = Inr (ra_table args)"
    and "rs_client h = (\<lambda>_. None)"
  shows "\<exists>ops. results_main h args = Some (Inr True, ops)"
proof -
  obtain run_id where run_id: "meta_run_id meta = Inr run_id" using assms(6) by (auto simp: shared_run_values_def Let_def sum_bind_Inr)
  let ?ctx = "\<lparr>rc_github_repo = ra_github_repo args, rc_source_repo = ra_source_repo args, rc_artifact_source = ra_artifact_source args,
    rc_meta = meta, rc_source_run_id = None, rc_targets = targets, rc_jobs = []\<rparr>"
  obtain rows where rows: "build_summary_insert_rows h ?ctx counts (\<not> ra_no_total_row args) = Inr rows" "rows \<noteq> []"
    using summary_rows_total [of h ?ctx shared updated counts] assms(3,6,7) by auto
  then have "plan_rows h args targets counts meta [] = Inr (?ctx, run_id, rows)"
    by (simp add: plan_rows_def build_platform_job_metadata_def run_id assms(8) Let_def)
  moreover have "\<exists>ops. store h args ?ctx run_id rows [] = (Inr (), ops)"
    using rows(2) assms(9,10)
    by (auto simp: store_def and_then_def prepare_table_def drop_and_create_table_def create_table_def insert_rows_def run_op_def
        insert_reports_def insert_case_rows_def Let_def split: option.split)
  ultimately show ?thesis by (auto simp: results_main_def ingest_def assms(1,2,4,5))
qed

lemma demo_main: "\<exists>ops. results_main demo_run_host demo_args = Some (Inr True, ops)"
proof -
  have args: "ra_github_repo demo_args = ''o/r''" "ra_run_id demo_args = 7" "ra_testplan demo_args = None" "ra_table demo_args = ''t''"
    by (simp_all add: demo_args_def)
  have shared: "\<exists>s. shared_run_values demo_run_host [(''id'', PInt 7)] ''o/r'' None = Inr s"
    by (simp add: shared_run_values_def meta_run_id_def time_started_of_def meta_get_def Let_def)
  have counts: "\<exists>c. read_local_counts (rs_report demo_run_host) (ra_counts demo_args) = Inr [c]"
    by (simp add: read_local_counts_def load_json_def parse_counts_def demo_args_def demo_run_host_def demo_results_host_def demo_loads_def)
  have meta: "fetch_run_metadata demo_run_host ''o/r'' 7 = Inr [(''id'', PInt 7)]"
    by (simp add: fetch_run_metadata_def fetch_json_def demo_run_host_def demo_results_host_def demo_loads_def)
  have client: "case build_client demo_run_host of Inr _ \<Rightarrow> True | Inl _ \<Rightarrow> False" by code_simp
  have "validate_clickhouse_table_name ''t'' = Inr ''t''" by code_simp
  moreover have "rs_client demo_run_host = (\<lambda>_. None)" by (simp add: demo_run_host_def demo_results_host_def)
  moreover have "parse_iso_datetime demo_run_host (meta_get [(''id'', PInt 7)] ''updated_at'') = Inr None" by (simp add: meta_get_def)
  ultimately show ?thesis
    using run_succeeds [of demo_args "[]" demo_run_host] counts shared meta client demo_jobs
    by (auto simp: args load_testplan_def split: sum.splits)
qed

theorem statements_fit_table_witness:
  "\<exists>ops. results_main demo_run_host demo_args = Some (Inr True, ops) \<and> list_all (statement_ok demo_args) ops"
proof -
  obtain ops where ops: "results_main demo_run_host demo_args = Some (Inr True, ops)" using demo_main by blast
  from statements_fit_table [OF ops] ops show ?thesis by (auto simp: list_all_iff)
qed

subsection \<open>What a successful run has stored\<close>

lemma shared_other_target:
  "shared_run_values h meta repo None = Inr shared \<Longrightarrow> \<exists>shared'. shared_run_values h meta repo target = Inr shared'"
  by (auto simp: shared_run_values_def Let_def sum_bind_Inr)

lemma mapM_map: "(\<And>x. x \<in> set xs \<Longrightarrow> f x = Inr (g x)) \<Longrightarrow> mapM f xs = Inr (map g xs)"
  by (induction xs) simp_all

lemma case_rows_total:
  assumes "shared_run_values h (rc_meta ctx) (rc_github_repo ctx) None = Inr shared"
    and "parse_iso_datetime h (meta_get (rc_meta ctx) ''updated_at'') = Inr updated"
  shows "\<exists>shared'. build_case_insert_rows h ctx run_id platform cases target job =
    Inr (map (\<lambda>c. map snd (case_values h ctx shared' run_id platform c target job updated)) cases)"
proof -
  obtain shared' where "shared_run_values h (rc_meta ctx) (rc_github_repo ctx) target = Inr shared'"
    using shared_other_target [OF assms(1)] by blast
  then show ?thesis unfolding build_case_insert_rows_def case_row_eq by (auto simp: assms(2) mapM_map)
qed

lemma case_row_columns:
  assumes "row = map snd (case_values h ctx shared run_id platform c target job updated)"
  shows "column_of ''platform'' row = CStr platform \<and> column_of ''nodeid'' row = CStr (tr_nodeid c) \<and> column_of ''outcome'' row = CStr (tr_outcome c)"
proof -
  have "column_of col row = v" if "map_of (case_values h ctx shared run_id platform c target job updated) col = Some v" for col v
    unfolding assms using case_values_columns that by (rule column_of_values)
  then show ?thesis by (simp add: case_values_def run_values_def)
qed

text \<open>Platform, node identifier and outcome of every case, in the order of the reports.\<close>

definition flat_cases :: "(string \<times> test_case_result list) list \<Rightarrow> (cell \<times> cell \<times> cell) list" where
  "flat_cases pcs = concat (map (\<lambda>(platform, cases). map (\<lambda>c. (CStr platform, CStr (tr_nodeid c), CStr (tr_outcome c))) cases) pcs)"

definition row_key :: "cell list \<Rightarrow> cell \<times> cell \<times> cell" where
  "row_key row = (column_of ''platform'' row, column_of ''nodeid'' row, column_of ''outcome'' row)"

lemma all_case_rows_keys:
  assumes "shared_run_values h (rc_meta ctx) (rc_github_repo ctx) None = Inr shared"
    and "parse_iso_datetime h (meta_get (rc_meta ctx) ''updated_at'') = Inr updated"
  shows "map row_key (all_case_rows h ctx run_id pcs) = flat_cases pcs"
proof (induction pcs)
  case (Cons pc pcs)
  obtain platform cases where pc: "pc = (platform, cases)" by fastforce
  let ?target = "resolve_target platform (rc_targets ctx)" and ?job = "map_of (rc_jobs ctx) platform"
  obtain shared' where b: "build_case_insert_rows h ctx run_id platform cases ?target ?job =
      Inr (map (\<lambda>c. map snd (case_values h ctx shared' run_id platform c ?target ?job updated)) cases)"
    using case_rows_total [OF assms] by blast
  with Cons pc show ?case by (simp add: flat_cases_def row_key_def case_row_columns [OF refl])
qed (simp add: flat_cases_def)

text \<open>
  C33. A run that reports success has stored everything: after the statements that prepare the table it has inserted one
  summary row for each counts file and, unless it was told not to, the total, and then one row for every test of
  every report that could be read, under the platform of the report.
\<close>

theorem successful_run_complete:
  assumes "results_main h args = Some (Inr True, ops)"
  shows "\<exists>ddl summary case_rows. ops = ddl @ [Insert (ra_table args) columns summary] @
      (if case_rows = [] then [] else [Insert (ra_table args) columns case_rows]) \<and>
    length summary = length (ra_counts args) + (if ra_no_total_row args then 0 else 1) \<and>
    map row_key case_rows = flat_cases (read_local_reports (rs_report h) (case ra_reports args of None \<Rightarrow> [] | Some files \<Rightarrow> files))"
proof -
  from assms obtain r where r: "ingest h args = Some (r, ops)"
      "(case r of Inl e \<Rightarrow> if e \<in> set caught_errors then Inr False else Inl e | Inr _ \<Rightarrow> Inr True) = (Inr True :: py_error + bool)"
    by (auto simp: results_main_def)
  then obtain u where "ingest h args = Some (Inr u, ops)" by (cases r) (auto split: if_splits)
  then show ?thesis
  proof (cases rule: ingest_cases)
    case (stored targets counts meta jobs ctx run_id rows)
    from stored(3) have build: "build_summary_insert_rows h ctx counts (\<not> ra_no_total_row args) = Inr rows"
      unfolding plan_rows_def sum_bind_Inr Let_def by auto
    obtain ddl where ddl: "prepare_table h args [] = (Inr (), ddl)"
        "and_then (insert_rows h (ra_table args) columns rows ddl) (insert_reports h args ctx run_id) = (Inr u, ops)"
      using stored(4) by (cases "prepare_table h args []"; cases "fst (prepare_table h args [])") (auto simp: store_def and_then_def)
    then have ins: "insert_rows h (ra_table args) columns rows ddl = (Inr (), ddl @ [Insert (ra_table args) columns rows])" "rows \<noteq> []"
        "validate_clickhouse_table_name (ra_table args) = Inr (ra_table args)"
      by (auto simp: insert_rows_def and_then_def run_op_def split: if_splits sum.splits option.splits dest!: validate_same)
    obtain shared prows where shared: "shared_run_values h (rc_meta ctx) (rc_github_repo ctx) None = Inr shared"
        "list_all fits_table prows" "list_all2 (\<lambda>cr row. summary_row h ctx shared cr = Inr row) counts prows"
        "if \<not> ra_no_total_row args \<and> prows \<noteq> [] then \<exists>t. fill_row (hd prows) (total_values h (sv_run_url shared) prows) = Inr t \<and> rows = prows @ [t] else rows = prows"
      by (rule summary_rows_eq [OF build])
    then have "prows \<noteq> []" using ins(2) by auto
    with shared(3) obtain updated where upd: "parse_iso_datetime h (meta_get (rc_meta ctx) ''updated_at'') = Inr updated"
      by (cases prows) (auto simp: list_all2_Cons2 summary_row_eq)
    have "length counts = length (ra_counts args)" using stored(2) by (auto simp: read_local_counts_def mapM_Inr_length)
    then have len: "length rows = length (ra_counts args) + (if ra_no_total_row args then 0 else 1)"
      using shared(3,4) \<open>prows \<noteq> []\<close> by (auto dest!: list_all2_lengthD)
    let ?cases = "all_case_rows h ctx run_id (read_local_reports (rs_report h) (case ra_reports args of None \<Rightarrow> [] | Some files \<Rightarrow> files))"
    have "insert_reports h args ctx run_id (ddl @ [Insert (ra_table args) columns rows]) = (Inr u, ops)"
      using ddl(2) ins(1) by (simp add: and_then_def)
    then have "ops = ddl @ [Insert (ra_table args) columns rows] @ (if ?cases = [] then [] else [Insert (ra_table args) columns ?cases])"
      using ins(3) by (auto simp: insert_reports_def insert_case_rows_def insert_rows_def run_op_def Let_def split: option.splits if_splits)
    with len all_case_rows_keys [OF shared(1) upd] show ?thesis by blast
  qed simp
qed

theorem successful_run_complete_witness:
  "\<exists>ddl summary case_rows. results_main demo_run_host demo_args =
      Some (Inr True, ddl @ [Insert ''t'' columns summary] @ (if case_rows = [] then [] else [Insert ''t'' columns case_rows])) \<and>
    length summary = 2 \<and> map row_key case_rows = [(CStr ''linux'', CStr ''t.py::test_a'', CStr ''failed'')]"
proof -
  obtain ops where ops: "results_main demo_run_host demo_args = Some (Inr True, ops)" using demo_main by blast
  have "flat_cases (read_local_reports (rs_report demo_run_host) [demo_report]) = [(CStr ''linux'', CStr ''t.py::test_a'', CStr ''failed'')]"
    by code_simp
  moreover have "ra_table demo_args = ''t''" "length (ra_counts demo_args) = 1" "ra_no_total_row demo_args = False"
      "ra_reports demo_args = Some [demo_report]" by (simp_all add: demo_args_def)
  ultimately show ?thesis using successful_run_complete [OF ops] ops by (simp only: option.case if_False) force
qed

end
