(* ===== verification/StepSummary.thy ===== *)
theory StepSummary
  imports Reports
begin

text \<open>
  \<open>.github/scripts/write_step_summary.py\<close>: the Markdown tables of the step summary, for one platform and for the
  whole nightly run. A counts file holds integers, the name of the platform and a mark for a runner that was not
  acquired in time. The characters of the texts that are no code points below 256 are arguments (\<open>glyphs\<close>).
\<close>

record counts_file =
  cf_platform :: "string option"
  cf_counts :: "(string \<times> int) list"
  cf_runner_timeout :: bool

record glyphs =
  gl_passed :: string
  gl_failed :: string
  gl_timeout :: string
  gl_skipped :: string
  gl_dash :: string
  gl_arrow :: string

definition count_item :: "counts_file \<Rightarrow> string \<Rightarrow> py_error + int" where
  "count_item r k = (case map_of (cf_counts r) k of None \<Rightarrow> Inl KeyError | Some n \<Rightarrow> Inr n)"

definition count_get :: "counts_file \<Rightarrow> string \<Rightarrow> int" where
  "count_get r k = (case map_of (cf_counts r) k of None \<Rightarrow> 0 | Some n \<Rightarrow> n)"

definition platform_item :: "counts_file \<Rightarrow> py_error + string" where
  "platform_item r = (case cf_platform r of None \<Rightarrow> Inl KeyError | Some p \<Rightarrow> Inr p)"

subsection \<open>Rows\<close>

definition bold_cell :: "string \<Rightarrow> string" where
  "bold_cell c = ''**'' @ c @ ''**''"

definition markdown_table_row :: "string list \<Rightarrow> bool \<Rightarrow> string" where
  "markdown_table_row cells is_bold = ''| '' @ join_with '' | '' (if is_bold then map bold_cell cells else cells) @ '' |''"

definition table_header :: "bool \<Rightarrow> string list" where
  "table_header has_skip =
     (if has_skip
      then [''| Platform | Tests Run | Pass | Skip | Fail | Error | Status |'', ''|---|--:|--:|--:|--:|--:|---|'']
      else [''| Platform | Tests Run | Pass | Fail | Error | Status |'', ''|---|--:|--:|--:|--:|---|''])"

definition result_cells :: "glyphs \<Rightarrow> counts_file \<Rightarrow> bool \<Rightarrow> py_error + string list" where
  "result_cells g r has_skip =
     sum_bind (count_item r ''failed'') (\<lambda>failed.
     sum_bind (if failed = 0 then count_item r ''error'' else Inr 0) (\<lambda>error0.
       let ok = (failed = 0 \<and> error0 = 0 \<and> count_get r ''total'' > 0)
       in sum_bind (platform_item r) (\<lambda>platform.
          sum_bind (count_item r ''total'') (\<lambda>n.
          sum_bind (count_item r ''passed'') (\<lambda>passed.
          sum_bind (count_item r ''error'') (\<lambda>error.
            Inr ([platform, show_int n, show_int passed] @ (if has_skip then [show_int (count_get r ''skipped'')] else []) @
                 [show_int failed, show_int error, if ok then gl_passed g else gl_failed g])))))))"

definition result_row :: "glyphs \<Rightarrow> counts_file \<Rightarrow> bool \<Rightarrow> py_error + string" where
  "result_row g r has_skip = map_sum id (\<lambda>cells. markdown_table_row cells False) (result_cells g r has_skip)"

definition dash_row :: "glyphs \<Rightarrow> string \<Rightarrow> string \<Rightarrow> bool \<Rightarrow> string" where
  "dash_row g name status has_skip =
     markdown_table_row ([name] @ replicate (if has_skip then 5 else 4) (gl_dash g) @ [status]) False"

definition timeout_row :: "glyphs \<Rightarrow> counts_file \<Rightarrow> bool \<Rightarrow> py_error + string" where
  "timeout_row g r has_skip = map_sum id (\<lambda>p. dash_row g p (gl_timeout g) has_skip) (platform_item r)"

definition skipped_platform_row :: "glyphs \<Rightarrow> string \<Rightarrow> bool \<Rightarrow> string" where
  "skipped_platform_row g name has_skip = dash_row g name (gl_skipped g) has_skip"

record totals =
  to_run :: int
  to_pass :: int
  to_skip :: int
  to_fail :: int
  to_err :: int

definition total_row :: "totals \<Rightarrow> bool \<Rightarrow> string" where
  "total_row t has_skip =
     ''| '' @ join_with '' | '' (map bold_cell ([''TOTAL'', show_int (to_run t), show_int (to_pass t)] @
        (if has_skip then [show_int (to_skip t)] else []) @ [show_int (to_fail t), show_int (to_err t)])) @ '' | |''"

subsection \<open>The summaries\<close>

definition env_or :: "(string \<Rightarrow> string option) \<Rightarrow> string \<Rightarrow> string \<Rightarrow> string" where
  "env_or getenv k dflt = (case getenv k of None \<Rightarrow> dflt | Some v \<Rightarrow> v)"

text \<open>\<open>None\<close> when there is no counts file: the script ends without a summary.\<close>

definition write_platform_summary ::
    "glyphs \<Rightarrow> (string \<Rightarrow> string option) \<Rightarrow> (py_error + counts_file) option \<Rightarrow> string option \<Rightarrow> py_error + string list option" where
  "write_platform_summary g getenv counts md =
     (case counts of
        None \<Rightarrow> Inr None
      | Some (Inl e) \<Rightarrow> Inl e
      | Some (Inr r) \<Rightarrow>
          (let platform = (case cf_platform r of None \<Rightarrow> env_or getenv ''PLATFORM_NAME'' ''unknown'' | Some p \<Rightarrow> p);
               has_skip = (count_get r ''skipped'' > 0); url = py_strip (env_or getenv ''ARTIFACT_URL'' [])
           in map_sum id (\<lambda>row. Some (
                [''## Test summary - '' @ platform, []] @ table_header has_skip @ [row, [], ''---'', []] @
                (case md of
                   Some report \<Rightarrow> [''<details open><summary>Full Test Report for '' @ platform @ ''</summary>'', [], report, [], ''</details>'']
                 | None \<Rightarrow> [''_No summary file generated._'']) @
                [[], [],
                 (if url = [] then ''### '' @ gl_arrow g @ '' Download test report '' @ gl_dash g @ '' '' @ platform
                  else ''### '' @ gl_arrow g @ '' [Download test report '' @ gl_dash g @ '' '' @ platform @ ''](''  @ url @ '')''),
                 [], ''> Zip archive '' @ gl_dash g @ '' extract `nightly_report.html` and open locally.'']))
              (result_row g r has_skip)))"

definition add_totals :: "counts_file \<Rightarrow> totals \<Rightarrow> py_error + totals" where
  "add_totals r t =
     sum_bind (count_item r ''total'') (\<lambda>n.
     sum_bind (count_item r ''passed'') (\<lambda>passed.
     sum_bind (count_item r ''failed'') (\<lambda>failed.
     sum_bind (count_item r ''error'') (\<lambda>error.
       Inr \<lparr>to_run = to_run t + n, to_pass = to_pass t + passed, to_skip = to_skip t + count_get r ''skipped'',
            to_fail = to_fail t + failed, to_err = to_err t + error\<rparr>))))"

fun platform_rows :: "glyphs \<Rightarrow> bool \<Rightarrow> counts_file list \<Rightarrow> totals \<Rightarrow> py_error + (string list \<times> totals)" where
  "platform_rows g has_skip [] t = Inr ([], t)"
| "platform_rows g has_skip (r # rs) t =
     (if cf_runner_timeout r
      then sum_bind (timeout_row g r has_skip) (\<lambda>row. map_sum id (\<lambda>(rows, t'). (row # rows, t')) (platform_rows g has_skip rs t))
      else sum_bind (result_row g r has_skip) (\<lambda>row.
           sum_bind (add_totals r t) (\<lambda>t1. map_sum id (\<lambda>(rows, t'). (row # rows, t')) (platform_rows g has_skip rs t1))))"

definition no_totals :: totals where
  "no_totals = \<lparr>to_run = 0, to_pass = 0, to_skip = 0, to_fail = 0, to_err = 0\<rparr>"

text \<open>Counts files that cannot be read are left out.\<close>

definition readable :: "(py_error + counts_file) list \<Rightarrow> counts_file list" where
  "readable files = concat (map (\<lambda>f. case f of Inl _ \<Rightarrow> [] | Inr r \<Rightarrow> [r]) files)"

definition any_skipped :: "counts_file list \<Rightarrow> bool" where
  "any_skipped rows \<longleftrightarrow> list_ex (\<lambda>r. count_get r ''skipped'' > 0) rows"

definition write_aggregate_summary ::
    "glyphs \<Rightarrow> (string \<Rightarrow> string option) \<Rightarrow> (string \<Rightarrow> py_error + string list) \<Rightarrow> (py_error + counts_file) list \<Rightarrow> py_error + string list" where
  "write_aggregate_summary g getenv loads_names files =
     (let raw = py_strip (env_or getenv ''SKIPPED_TARGETS'' []); rows = readable files; has_skip = any_skipped rows
      in sum_bind (if raw = [] then Inr [] else loads_names raw) (\<lambda>skipped_names.
         map_sum id (\<lambda>(lines, t).
             [''## Nightly Results '' @ gl_dash g @ '' '' @ env_or getenv ''RUN_ID'' ''unknown'' @ '' '' @ gl_dash g @ '' All Platforms'', []] @
             table_header has_skip @ lines @ map (\<lambda>n. skipped_platform_row g n has_skip) skipped_names @
             (if rows \<noteq> [] then [total_row t has_skip] else [''_No platform results collected._'']) @ [[]])
           (platform_rows g has_skip rows no_totals)))"

subsection \<open>Tables\<close>

definition pipes :: "string \<Rightarrow> nat" where
  "pipes s = length (filter (\<lambda>c. c = CHR ''|'') s)"

lemma pipes_append [simp]: "pipes (a @ b) = pipes a + pipes b"
  by (simp add: pipes_def)

lemma pipes_simps [simp]: "pipes [] = 0" "pipes (c # s) = (if c = CHR ''|'' then 1 else 0) + pipes s"
  by (simp_all add: pipes_def)

lemma pipes_none: "CHR ''|'' \<notin> set s \<Longrightarrow> pipes s = 0"
  by (auto simp: pipes_def filter_empty_conv)

lemma pipes_show_int [simp]: "pipes (show_int i) = 0"
proof (rule pipes_none)
  show "CHR ''|'' \<notin> set (show_int i)" using show_int_chars [of "CHR ''|''" i] by (auto simp: is_digit_def)
qed

lemma pipes_bold [simp]: "pipes (bold_cell c) = pipes c"
  by (simp add: bold_cell_def)

lemma pipes_join: "cells \<noteq> [] \<Longrightarrow> pipes (join_with '' | '' cells) = sum_list (map pipes cells) + (length cells - 1)"
proof (induction cells)
  case (Cons c cells)
  then show ?case by (cases cells) simp_all
qed simp

lemma pipes_row: "cells \<noteq> [] \<Longrightarrow> list_all (\<lambda>c. pipes c = 0) cells \<Longrightarrow> pipes (markdown_table_row cells False) = Suc (length cells)"
proof -
  assume c: "cells \<noteq> []" "list_all (\<lambda>c. pipes c = 0) cells"
  have "sum_list (map pipes cells) = 0" using c(2) by (induction cells) auto
  with c(1) have "pipes (join_with '' | '' cells) = length cells - 1" by (simp add: pipes_join)
  with c(1) show ?thesis by (cases cells) (simp_all add: markdown_table_row_def)
qed

definition width :: "bool \<Rightarrow> nat" where
  "width has_skip = (if has_skip then 8 else 7)"

definition plain_glyphs :: "glyphs \<Rightarrow> bool" where
  "plain_glyphs g \<longleftrightarrow> pipes (gl_passed g) = 0 \<and> pipes (gl_failed g) = 0 \<and> pipes (gl_timeout g) = 0 \<and> pipes (gl_skipped g) = 0 \<and> pipes (gl_dash g) = 0"

definition plain_name :: "counts_file \<Rightarrow> bool" where
  "plain_name r \<longleftrightarrow> (case cf_platform r of None \<Rightarrow> True | Some p \<Rightarrow> pipes p = 0)"

lemma header_width: "row \<in> set (table_header has_skip) \<Longrightarrow> pipes row = width has_skip"
  by (auto simp: table_header_def width_def)

lemma dash_row_width: "pipes name = 0 \<Longrightarrow> pipes status = 0 \<Longrightarrow> pipes (gl_dash g) = 0 \<Longrightarrow> pipes (dash_row g name status has_skip) = width has_skip"
  by (simp add: dash_row_def pipes_row width_def list_all_iff)

lemma total_row_width: "pipes (total_row t has_skip) = width has_skip"
  by (simp add: total_row_def width_def)

lemma result_row_width:
  assumes "result_row g r has_skip = Inr row" and "plain_glyphs g" and "plain_name r"
  shows "pipes row = width has_skip"
proof -
  obtain p n passed failed error ok where row: "cf_platform r = Some p" "row = markdown_table_row ([p, show_int n, show_int passed] @
      (if has_skip then [show_int (count_get r ''skipped'')] else []) @ [show_int failed, show_int error, if ok then gl_passed g else gl_failed g]) False"
    using assms(1) unfolding result_row_def result_cells_def platform_item_def Let_def
    by (auto simp: sum_bind_Inr split: option.splits)
  then have "pipes p = 0" using assms(3) by (simp add: plain_name_def)
  with row(2) assms(2) show ?thesis by (simp add: pipes_row plain_glyphs_def width_def)
qed

lemma timeout_row_width:
  assumes "timeout_row g r has_skip = Inr row" and "plain_glyphs g" and "plain_name r"
  shows "pipes row = width has_skip"
  using assms by (auto simp: timeout_row_def platform_item_def plain_name_def plain_glyphs_def dash_row_width split: option.splits)

definition counted :: "counts_file list \<Rightarrow> string \<Rightarrow> int" where
  "counted rows k = sum_list (map (\<lambda>r. count_get r k) (filter (\<lambda>r. \<not> cf_runner_timeout r) rows))"

lemma count_item_get: "count_item r k = Inr n \<Longrightarrow> count_get r k = n"
  by (auto simp: count_item_def count_get_def split: option.splits)

lemma add_totals_Inr:
  "add_totals r t = Inr t' \<Longrightarrow> t' = \<lparr>to_run = to_run t + count_get r ''total'', to_pass = to_pass t + count_get r ''passed'',
     to_skip = to_skip t + count_get r ''skipped'', to_fail = to_fail t + count_get r ''failed'', to_err = to_err t + count_get r ''error''\<rparr>"
  by (auto simp: add_totals_def sum_bind_Inr dest!: count_item_get)

lemma platform_rows_result:
  assumes "platform_rows g has_skip rows t = Inr (lines, t')" and "plain_glyphs g" and "list_all plain_name rows"
  shows "length lines = length rows \<and> list_all (\<lambda>l. pipes l = width has_skip) lines \<and>
    t' = \<lparr>to_run = to_run t + counted rows ''total'', to_pass = to_pass t + counted rows ''passed'',
      to_skip = to_skip t + counted rows ''skipped'', to_fail = to_fail t + counted rows ''failed'', to_err = to_err t + counted rows ''error''\<rparr>"
  using assms
proof (induction rows arbitrary: t lines)
  case (Cons r rows)
  show ?case
  proof (cases "cf_runner_timeout r")
    case True
    with Cons.prems(1) obtain row ls where row: "timeout_row g r has_skip = Inr row" "platform_rows g has_skip rows t = Inr (ls, t')" "lines = row # ls"
      by (auto simp: sum_bind_Inr)
    with timeout_row_width [OF row(1)] Cons.IH [OF row(2)] Cons.prems(2,3) True show ?thesis by (simp add: counted_def)
  next
    case False
    with Cons.prems(1) obtain row t1 ls where row: "result_row g r has_skip = Inr row" "add_totals r t = Inr t1"
        "platform_rows g has_skip rows t1 = Inr (ls, t')" "lines = row # ls"
      by (auto simp: sum_bind_Inr)
    with result_row_width [OF row(1)] Cons.IH [OF row(3)] Cons.prems(2,3) False show ?thesis
      by (simp add: counted_def add_totals_Inr [OF row(2)] algebra_simps)
  qed
qed (simp add: counted_def)

text \<open>
  The table of a nightly run has one row for every counts file that can be read and one for every skipped platform, all
  rows have as many cells as the header, and the last row adds up the counts of the platforms whose runner was
  acquired.
\<close>

theorem aggregate_table:
  assumes "write_aggregate_summary g getenv loads_names files = Inr lines" and "plain_glyphs g" and "list_all plain_name (readable files)"
    and "readable files \<noteq> []"
    and "(if py_strip (env_or getenv ''SKIPPED_TARGETS'' []) = [] then Inr [] else loads_names (py_strip (env_or getenv ''SKIPPED_TARGETS'' []))) = (Inr names :: py_error + string list)"
    and "list_all (\<lambda>n. pipes n = 0) names"
  shows "\<exists>title rows. lines = [title, []] @ rows @ [[]] \<and> length rows = 2 + length (readable files) + length names + 1 \<and>
    list_all (\<lambda>row. pipes row = width (any_skipped (readable files))) rows \<and>
    last rows = total_row \<lparr>to_run = counted (readable files) ''total'', to_pass = counted (readable files) ''passed'',
      to_skip = counted (readable files) ''skipped'', to_fail = counted (readable files) ''failed'', to_err = counted (readable files) ''error''\<rparr>
      (any_skipped (readable files))"
proof -
  let ?rows = "readable files" and ?skip = "any_skipped (readable files)"
  obtain ls t where ls: "platform_rows g ?skip ?rows no_totals = Inr (ls, t)" and lines: "\<exists>title. lines = [title, []] @ (table_header ?skip @ ls @
      map (\<lambda>n. skipped_platform_row g n ?skip) names @ [total_row t ?skip]) @ [[]]"
    using assms(1,4) unfolding write_aggregate_summary_def Let_def assms(5) by auto
  from platform_rows_result [OF ls assms(2,3)] have r: "length ls = length ?rows" "list_all (\<lambda>l. pipes l = width ?skip) ls"
      "t = \<lparr>to_run = counted ?rows ''total'', to_pass = counted ?rows ''passed'', to_skip = counted ?rows ''skipped'',
        to_fail = counted ?rows ''failed'', to_err = counted ?rows ''error''\<rparr>" by (simp_all add: no_totals_def)
  have "list_all (\<lambda>l. pipes l = width ?skip) (map (\<lambda>n. skipped_platform_row g n ?skip) names)"
    using assms(2,6) by (auto simp: list_all_iff skipped_platform_row_def plain_glyphs_def dash_row_width)
  moreover have "list_all (\<lambda>l. pipes l = width ?skip) (table_header ?skip)" using header_width by (auto simp: list_all_iff)
  moreover have "length (table_header ?skip) = 2" by (simp add: table_header_def)
  ultimately have "length (table_header ?skip @ ls @ map (\<lambda>n. skipped_platform_row g n ?skip) names @ [total_row t ?skip]) = 2 + length ?rows + length names + 1"
      "list_all (\<lambda>row. pipes row = width ?skip) (table_header ?skip @ ls @ map (\<lambda>n. skipped_platform_row g n ?skip) names @ [total_row t ?skip])"
    using r(1,2) total_row_width by simp_all
  with lines r(3) show ?thesis by (metis last_appendR last_snoc append.assoc)
qed

definition demo_glyphs :: glyphs where
  "demo_glyphs = \<lparr>gl_passed = ''Passed'', gl_failed = ''Failed'', gl_timeout = ''Runner timeout'', gl_skipped = ''Skipped'', gl_dash = ''-'', gl_arrow = []\<rparr>"

definition demo_counts_file :: "string \<Rightarrow> int \<Rightarrow> counts_file" where
  "demo_counts_file p n = \<lparr>cf_platform = Some p, cf_counts = [(''passed'', n), (''failed'', 1), (''error'', 0), (''total'', n + 1)], cf_runner_timeout = False\<rparr>"

theorem aggregate_table_witness:
  "\<exists>lines title rows. write_aggregate_summary demo_glyphs (\<lambda>_. None) (\<lambda>_. Inr []) [Inr (demo_counts_file ''a'' 3), Inl ValueError, Inr (demo_counts_file ''b'' 4)] = Inr lines \<and>
     lines = [title, []] @ rows @ [[]] \<and> length rows = 5 \<and> last rows = ''| **TOTAL** | **9** | **7** | **2** | **0** | |''"
proof -
  let ?files = "[Inr (demo_counts_file ''a'' 3), Inl ValueError, Inr (demo_counts_file ''b'' 4)]"
  have rd: "readable ?files = [demo_counts_file ''a'' 3, demo_counts_file ''b'' 4]" by (simp add: readable_def)
  have "case write_aggregate_summary demo_glyphs (\<lambda>_. None) (\<lambda>_. Inr []) ?files of Inl _ \<Rightarrow> False | Inr _ \<Rightarrow> True" by code_simp
  then obtain lines where lines: "write_aggregate_summary demo_glyphs (\<lambda>_. None) (\<lambda>_. Inr []) ?files = Inr lines" by (auto split: sum.splits)
  have "plain_glyphs demo_glyphs" by code_simp
  moreover have "list_all plain_name (readable ?files)" unfolding rd by code_simp
  moreover have "(if py_strip (env_or (\<lambda>_. None) ''SKIPPED_TARGETS'' []) = [] then Inr [] else (\<lambda>_. Inr []) (py_strip (env_or (\<lambda>_. None) ''SKIPPED_TARGETS'' []))) = (Inr [] :: py_error + string list)"
    by simp
  moreover have "total_row \<lparr>to_run = counted (readable ?files) ''total'', to_pass = counted (readable ?files) ''passed'',
      to_skip = counted (readable ?files) ''skipped'', to_fail = counted (readable ?files) ''failed'', to_err = counted (readable ?files) ''error''\<rparr>
      (any_skipped (readable ?files)) = ''| **TOTAL** | **9** | **7** | **2** | **0** | |''" unfolding rd by code_simp
  ultimately show ?thesis using aggregate_table [OF lines, of "[]"] lines unfolding rd by auto
qed

text \<open>
  The name of the platform from the environment is no fallback: without a name in the counts file the summary of a
  platform raises a \<open>KeyError\<close>.
\<close>

theorem platform_name_required:
  assumes "cf_platform r = None" and "count_item r ''failed'' = Inr failed" and "count_item r ''error'' = Inr error"
  shows "write_platform_summary g getenv (Some (Inr r)) md = Inl KeyError"
  using assms by (simp add: write_platform_summary_def result_row_def result_cells_def platform_item_def Let_def)

theorem platform_name_required_witness:
  "write_platform_summary demo_glyphs (\<lambda>_. Some ''linux'') (Some (Inr ((demo_counts_file ''a'' 3)\<lparr>cf_platform := None\<rparr>))) None = Inl KeyError"
  using platform_name_required [of "(demo_counts_file ''a'' 3)\<lparr>cf_platform := None\<rparr>" 1 0]
  by (simp add: count_item_def demo_counts_file_def)

end
