(* ===== verification/Runners.thy ===== *)
theory Runners
  imports Reports
begin

text \<open>
  The scripts under \<open>.github/scripts\<close> that decide on which platforms the nightly tests run:
  \<open>build_test_matrix.py\<close>, \<open>check_runners.py\<close>, \<open>queue_guard.py\<close> and \<open>resolve_rockrel_run_id.py\<close>. The answers of an API
  endpoint are a finite list of pages, after which it answers with an empty one; \<open>json.dumps\<close>, the parser of timestamps
  and the clock are arguments. A script returns the lines it appends to \<open>GITHUB_OUTPUT\<close>.
\<close>

type_synonym target = "(string \<times> string) list"

definition dict_or :: "target \<Rightarrow> string \<Rightarrow> string \<Rightarrow> string" where
  "dict_or t k dflt = (case map_of t k of None \<Rightarrow> dflt | Some v \<Rightarrow> v)"

definition key_error :: "target \<Rightarrow> string \<Rightarrow> py_error + string" where
  "key_error t k = (case map_of t k of None \<Rightarrow> Inl KeyError | Some v \<Rightarrow> Inr v)"

definition target_disabled :: "target \<Rightarrow> bool" where
  "target_disabled t \<longleftrightarrow> py_lower (py_strip (dict_or t ''target_available'' ''true'')) = ''false''"

subsection \<open>The matrix\<close>

text \<open>\<open>{"name": section, **items}\<close>: an option called \<open>name\<close> replaces the name of the section.\<close>

definition matrix_entry :: "string \<times> (string \<times> string) list \<Rightarrow> target" where
  "matrix_entry sec = fold (\<lambda>(k, v) d. dict_set k v d) (snd sec) [(''name'', fst sec)]"

definition all_targets :: "ini \<Rightarrow> target list" where
  "all_targets conf = map matrix_entry conf"

definition matrix_skipped :: "ini \<Rightarrow> string list" where
  "matrix_skipped conf = map fst (filter (\<lambda>sec. target_disabled (matrix_entry sec)) conf)"

text \<open>The two lines both scripts write.\<close>

definition target_lines :: "(target list \<Rightarrow> string) \<Rightarrow> (string list \<Rightarrow> string) \<Rightarrow> target list \<Rightarrow> string list \<Rightarrow> string list" where
  "target_lines dumps dumps_names targets skipped =
     [''targets='' @ dumps targets, ''skipped_targets='' @ dumps_names skipped]"

definition build_test_matrix :: "(target list \<Rightarrow> string) \<Rightarrow> (string list \<Rightarrow> string) \<Rightarrow> ini \<Rightarrow> string list" where
  "build_test_matrix dumps dumps_names conf = target_lines dumps dumps_names (all_targets conf) (matrix_skipped conf)"

subsection \<open>Registered runners\<close>

definition is_arc :: "string \<Rightarrow> bool" where
  "is_arc label \<longleftrightarrow> contains_str ''ossci'' (py_lower label)"

text \<open>
  The names of the labels of one runner that is online or in use. Only a text can be among the wanted labels; a
  name that cannot be hashed raises.
\<close>

definition label_name :: "pyval \<Rightarrow> py_error + string list" where
  "label_name lbl =
     (case lbl of
        PDict d \<Rightarrow>
          (case map_of d ''name'' of
             None \<Rightarrow> Inl KeyError
           | Some (PStr s) \<Rightarrow> Inr [s]
           | Some (PList _) \<Rightarrow> Inl TypeError
           | Some (PDict _) \<Rightarrow> Inl TypeError
           | Some _ \<Rightarrow> Inr [])
      | _ \<Rightarrow> Inl TypeError)"

definition runner_labels :: "pyval \<Rightarrow> py_error + string list" where
  "runner_labels r =
     sum_bind (py_get r ''status'' PNone) (\<lambda>status.
       if status = PStr ''online'' \<or> status = PStr ''in_use''
       then sum_bind (py_get r ''labels'' (PList [])) (\<lambda>v. sum_bind (py_list v) (\<lambda>ls. map_sum id concat (mapM label_name ls)))
       else Inr [])"

definition page_labels :: "pyval list \<Rightarrow> py_error + string list" where
  "page_labels runners = map_sum id concat (mapM runner_labels runners)"

fun scan_pages :: "string set \<Rightarrow> (py_error + pyval) list \<Rightarrow> string set \<Rightarrow> py_error + string set" where
  "scan_pages wanted [] found = Inr found"
| "scan_pages wanted (Inl e # answers) found = (if e \<in> set [HTTPError, URLError] then Inr found else Inl e)"
| "scan_pages wanted (Inr data # answers) found =
     sum_bind (py_get data ''runners'' (PList [])) (\<lambda>v.
       if \<not> truthy v then Inr found
       else sum_bind (py_list v) (\<lambda>runners.
            sum_bind (page_labels runners) (\<lambda>labels.
              let found' = found \<union> (set labels \<inter> wanted)
              in if length runners < 100 \<or> wanted \<subseteq> found' then Inr found' else scan_pages wanted answers found')))"

fun scan_endpoints :: "string set \<Rightarrow> (py_error + pyval) list list \<Rightarrow> string set \<Rightarrow> py_error + string set" where
  "scan_endpoints wanted [] found = Inr found"
| "scan_endpoints wanted (e # es) found =
     (if wanted \<subseteq> found then Inr found
      else sum_bind (scan_pages wanted e found) (scan_endpoints wanted es))"

definition get_registered_labels :: "(py_error + pyval) list list \<Rightarrow> string set \<Rightarrow> py_error + string set" where
  "get_registered_labels endpoints wanted = scan_endpoints wanted endpoints {}"

subsection \<open>Classification and polling\<close>

fun classify_targets :: "target list \<Rightarrow> (string \<times> bool) list \<Rightarrow> target list \<Rightarrow> py_error + ((string \<times> bool) list \<times> target list)" where
  "classify_targets [] resolved to_poll = Inr (resolved, to_poll)"
| "classify_targets (t # ts) resolved to_poll =
     (let label = dict_or t ''runs_on'' []
      in if target_disabled t then sum_bind (key_error t ''name'') (\<lambda>n. classify_targets ts (dict_set n False resolved) to_poll)
         else if is_arc label \<or> label = [] then
           sum_bind (key_error t ''name'') (\<lambda>n. classify_targets ts (dict_set n True resolved) to_poll)
         else classify_targets ts resolved (to_poll @ [t]))"

record runner_poll =
  rp_clock :: rat
  rp_attempt :: nat
  rp_pending :: "target list"
  rp_wanted :: "string set"
  rp_resolved :: "(string \<times> bool) list"

text \<open>
  What an attempt sees: the endpoints as they answer at this attempt, and how long the answers take.
\<close>

record runner_api =
  ra_endpoints :: "nat \<Rightarrow> (py_error + pyval) list list"
  ra_duration :: "nat \<Rightarrow> rat"

fun settle :: "string set \<Rightarrow> target list \<Rightarrow> target list \<Rightarrow> string set \<Rightarrow> (string \<times> bool) list \<Rightarrow>
    py_error + (target list \<times> string set \<times> (string \<times> bool) list)" where
  "settle registered [] pending wanted resolved = Inr (pending, wanted, resolved)"
| "settle registered (t # ts) pending wanted resolved =
     (let label = dict_or t ''runs_on'' []
      in sum_bind (key_error t ''name'') (\<lambda>n.
           if label \<in> registered then settle registered ts pending (wanted - {label}) (dict_set n True resolved)
           else settle registered ts (pending @ [t]) wanted resolved))"

text \<open>One turn of the loop; \<open>time.sleep\<close> raises a \<open>ValueError\<close> when the interval is negative.\<close>

definition poll_runners :: "runner_api \<Rightarrow> rat \<Rightarrow> rat \<Rightarrow> runner_poll \<Rightarrow> (py_error + unit) option \<times> runner_poll" where
  "poll_runners api interval deadline s =
     (let s' = s\<lparr>rp_attempt := Suc (rp_attempt s), rp_clock := rp_clock s + max 0 (ra_duration api (rp_attempt s))\<rparr>
      in case sum_bind (get_registered_labels (ra_endpoints api (rp_attempt s)) (rp_wanted s)) (\<lambda>registered.
                settle registered (rp_pending s) [] (rp_wanted s) (rp_resolved s)) of
           Inl e \<Rightarrow> (Some (Inl e), s')
         | Inr (pending, wanted, resolved) \<Rightarrow>
             (if pending = [] then Some (Inr ())
              else if interval < 0 \<and> rp_clock s' < deadline then Some (Inl ValueError) else None,
              s'\<lparr>rp_pending := pending, rp_wanted := wanted, rp_resolved := resolved\<rparr>))"

definition sleep_runners :: "rat \<Rightarrow> rat \<Rightarrow> nat \<Rightarrow> runner_poll \<Rightarrow> runner_poll" where
  "sleep_runners interval deadline n s = s\<lparr>rp_clock := rp_clock s + min interval (deadline - rp_clock s)\<rparr>"

definition skip_pending :: "runner_poll \<Rightarrow> (string \<times> bool) list" where
  "skip_pending s = fold (\<lambda>t r. dict_set (dict_or t ''name'' []) False r) (rp_pending s) (rp_resolved s)"

text \<open>The loop; the names of pending targets have been read by then.\<close>

definition resolve_pending :: "runner_api \<Rightarrow> rat \<Rightarrow> rat \<Rightarrow> rat \<Rightarrow> (string \<times> bool) list \<Rightarrow> target list \<Rightarrow>
    ((py_error + (string \<times> bool) list) \<times> nat) option" where
  "resolve_pending api max_wait interval now resolved to_poll =
     (if to_poll = [] then Some (Inr resolved, 0)
      else
        map_option (\<lambda>(r, s). (case r of Some (Inl e) \<Rightarrow> Inl e | Some (Inr _) \<Rightarrow> Inr (rp_resolved s) | None \<Rightarrow> Inr (skip_pending s), rp_attempt s))
          (poll (poll_runners api interval (now + max_wait)) (\<lambda>s. now + max_wait \<le> rp_clock s) (sleep_runners interval (now + max_wait)) 0
             \<lparr>rp_clock = now, rp_attempt = 0, rp_pending = to_poll, rp_wanted = (\<lambda>t. dict_or t ''runs_on'' []) ` set to_poll,
              rp_resolved = resolved\<rparr>))"

definition target_available :: "(string \<times> bool) list \<Rightarrow> string \<Rightarrow> bool" where
  "target_available resolved n = (case map_of resolved n of None \<Rightarrow> True | Some b \<Rightarrow> b)"

definition bool_text :: "bool \<Rightarrow> string" where
  "bool_text b = (if b then ''true'' else ''false'')"

fun update_targets :: "(string \<times> bool) list \<Rightarrow> target list \<Rightarrow> py_error + (target list \<times> string list)" where
  "update_targets resolved [] = Inr ([], [])"
| "update_targets resolved (t # ts) =
     sum_bind (key_error t ''name'') (\<lambda>n.
     sum_bind (update_targets resolved ts) (\<lambda>(updated, skipped).
       let avail = target_available resolved n
       in Inr (dict_set ''target_available'' (bool_text avail) t # updated, if avail then skipped else n # skipped)))"

definition check_runners :: "runner_api \<Rightarrow> rat \<Rightarrow> rat \<Rightarrow> rat \<Rightarrow> target list \<Rightarrow> ((py_error + (target list \<times> string list)) \<times> nat) option" where
  "check_runners api max_wait interval now targets =
     (case classify_targets targets [] [] of
        Inl e \<Rightarrow> Some (Inl e, 0)
      | Inr (resolved, to_poll) \<Rightarrow>
          map_option (\<lambda>(r, n). (sum_bind r (\<lambda>resolved. update_targets resolved targets), n))
            (resolve_pending api max_wait interval now resolved to_poll))"

subsection \<open>The queue guard\<close>

definition queue_guard :: "(string \<Rightarrow> string option) \<Rightarrow> (string \<Rightarrow> py_error + rat) \<Rightarrow> (rat \<Rightarrow> string) \<Rightarrow> rat \<Rightarrow> py_error + (string \<times> string) list" where
  "queue_guard getenv fromiso show_secs now =
     (let get = (\<lambda>k dflt. case getenv k of None \<Rightarrow> dflt | Some v \<Rightarrow> v); queued_at = py_strip (get ''WORKFLOW_QUEUED_AT'' [])
      in sum_bind (py_int (PStr (get ''MAX_QUEUE_WAIT_SECS'' ''900''))) (\<lambda>max_wait.
           if queued_at = [] then Inr [(''proceed'', ''true'')]
           else sum_bind (fromiso (concat (map (\<lambda>c. if c = CHR ''Z'' then ''+00:00'' else [c]) queued_at))) (\<lambda>triggered.
                  let waited = now - triggered
                  in if waited > of_int max_wait
                     then Inr [(''proceed'', ''false''),
                               (''skip_reason'', ''runner not acquired within '' @ show_int (max_wait div 60) @ ''min (waited '' @ show_secs waited @ ''s)'')]
                     else Inr [(''proceed'', ''true'')])))"

subsection \<open>The artifact source\<close>

datatype stop = SysExit | StopRaised py_error

text \<open>\<open>str.isdigit\<close>, which accepts the superscript digits as well.\<close>

definition str_isdigit :: "string \<Rightarrow> bool" where
  "str_isdigit s \<longleftrightarrow> s \<noteq> [] \<and> list_all (\<lambda>c. is_digit c \<or> (of_char c :: nat) \<in> {178, 179, 185}) s"

definition source_runs_url :: "string \<Rightarrow> string \<Rightarrow> string" where
  "source_runs_url repo source = ''https://api.github.com/repos/'' @ repo @ ''/actions/workflows/'' @ source @
     ''/runs?status=success&event=schedule&branch=main&per_page=1''"

definition resolve_rockrel_run_id :: "report_host \<Rightarrow> (string \<Rightarrow> string option) \<Rightarrow> (string \<Rightarrow> py_error + pyval) \<Rightarrow> stop + string" where
  "resolve_rockrel_run_id h getenv web =
     (case (getenv ''SOURCE_REPO'', getenv ''ARTIFACT_SOURCE'') of
        (Some repo, Some raw) \<Rightarrow>
          (let source = py_strip raw
           in if str_isdigit source then Inr source
              else if getenv ''GITHUB_TOKEN'' = None then Inl (StopRaised KeyError)
              else
                (case web (source_runs_url repo source) of
                   Inl e \<Rightarrow> Inl (if e \<in> set [HTTPError, URLError] then SysExit else StopRaised e)
                 | Inr data \<Rightarrow>
                     (case py_get data ''workflow_runs'' PNone of
                        Inl e \<Rightarrow> Inl (StopRaised e)
                      | Inr runs \<Rightarrow>
                          if \<not> truthy runs then Inl SysExit
                          else
                            (case runs of
                               PList (PDict r # _) \<Rightarrow>
                                 (case map_of r ''id'' of None \<Rightarrow> Inl (StopRaised KeyError) | Some v \<Rightarrow> Inr (py_str h v))
                             | PDict _ \<Rightarrow> Inl (StopRaised KeyError)
                             | _ \<Rightarrow> Inl (StopRaised TypeError)))))
      | _ \<Rightarrow> Inl (StopRaised KeyError))"

subsection \<open>Early stopping\<close>

text \<open>All labels an endpoint reports up to its first short, empty or failing page, wanted or not.\<close>

fun reported_labels :: "(py_error + pyval) list \<Rightarrow> py_error + string set" where
  "reported_labels [] = Inr {}"
| "reported_labels (Inl e # answers) = (if e \<in> set [HTTPError, URLError] then Inr {} else Inl e)"
| "reported_labels (Inr data # answers) =
     sum_bind (py_get data ''runners'' (PList [])) (\<lambda>v.
       if \<not> truthy v then Inr {}
       else sum_bind (py_list v) (\<lambda>runners.
            sum_bind (page_labels runners) (\<lambda>labels.
              if length runners < 100 then Inr (set labels) else map_sum id (\<lambda>s. set labels \<union> s) (reported_labels answers))))"

lemma scan_pages_reported:
  assumes "reported_labels answers = Inr labels"
  shows "scan_pages wanted answers found = Inr (found \<union> (labels \<inter> wanted)) \<or>
    (\<exists>found'. scan_pages wanted answers found = Inr found' \<and> wanted \<subseteq> found' \<and> found' \<subseteq> found \<union> (labels \<inter> wanted))"
  using assms
proof (induction answers arbitrary: found labels rule: reported_labels.induct)
  case (3 data answers)
  then obtain v where v: "py_get data ''runners'' (PList []) = Inr v" by (auto simp: sum_bind_Inr)
  show ?case
  proof (cases "truthy v")
    case False
    with 3 v show ?thesis by simp
  next
    case True
    with 3 v obtain rs ls where rs: "py_list v = Inr rs" "page_labels rs = Inr ls"
        "(if length rs < 100 then Inr (set ls) else map_sum id (\<lambda>s. set ls \<union> s) (reported_labels answers)) = Inr labels"
      by (auto simp: sum_bind_Inr)
    let ?found = "found \<union> (set ls \<inter> wanted)"
    show ?thesis
    proof (cases "length rs < 100 \<or> wanted \<subseteq> ?found")
      case True
      then have "scan_pages wanted (Inr data # answers) found = Inr ?found" using v rs \<open>truthy v\<close> by (simp add: Let_def)
      moreover have "set ls \<subseteq> labels" using rs(3) by (auto split: if_splits)
      ultimately show ?thesis using True rs(3) by (cases "length rs < 100") auto
    next
      case False
      then obtain l where l: "reported_labels answers = Inr l" "labels = set ls \<union> l" using rs(3) by auto
      have "scan_pages wanted (Inr data # answers) found = scan_pages wanted answers ?found"
        using False v rs \<open>truthy v\<close> by (simp add: Let_def)
      moreover have "scan_pages wanted answers ?found = Inr (?found \<union> (l \<inter> wanted)) \<or>
          (\<exists>found'. scan_pages wanted answers ?found = Inr found' \<and> wanted \<subseteq> found' \<and> found' \<subseteq> ?found \<union> (l \<inter> wanted))"
        using "3.IH" [OF _ _ l(1)] False \<open>truthy v\<close> by blast
      ultimately show ?thesis unfolding l(2) by (elim disjE exE conjE) (auto simp: Int_Un_distrib2 Un_assoc)
    qed
  qed
qed (auto split: if_splits)

lemma scan_endpoints_reported:
  assumes "mapM reported_labels endpoints = Inr ls" and "found \<subseteq> wanted"
  shows "scan_endpoints wanted endpoints found = Inr (found \<union> (\<Union>(set ls) \<inter> wanted))"
  using assms
proof (induction endpoints arbitrary: found ls)
  case (Cons e es)
  then obtain l ls' where ls: "reported_labels e = Inr l" "mapM reported_labels es = Inr ls'" "ls = l # ls'" by (auto split: sum.splits)
  show ?case
  proof (cases "wanted \<subseteq> found")
    case True
    with Cons.prems(2) show ?thesis by auto
  next
    case False
    obtain found' where f: "scan_pages wanted e found = Inr found'"
        "found' = found \<union> (l \<inter> wanted) \<or> (wanted \<subseteq> found' \<and> found' \<subseteq> found \<union> (l \<inter> wanted))"
      using scan_pages_reported [OF ls(1), of wanted found] by blast
    then have "found' \<subseteq> wanted" using Cons.prems(2) by blast
    from Cons.IH [OF ls(2) this] f False ls(3) Cons.prems(2) show ?thesis by auto
  qed
qed simp

lemma registered_labels_reported:
  "mapM reported_labels endpoints = Inr ls \<Longrightarrow> get_registered_labels endpoints wanted = Inr (wanted \<inter> \<Union>(set ls))"
  using scan_endpoints_reported [of endpoints ls "{}" wanted] by (auto simp: get_registered_labels_def)

text \<open>
  Stopping early loses no label: whatever pages are left out once all wanted labels are found, the answer is
  the set of wanted labels that some runner of some endpoint carries.
\<close>

theorem registered_labels_exact:
  assumes "mapM reported_labels endpoints = Inr ls"
  shows "get_registered_labels endpoints wanted = Inr (wanted \<inter> \<Union>(set ls))"
  using assms by (rule registered_labels_reported)

definition demo_runner :: "string \<Rightarrow> pyval" where
  "demo_runner label = PDict [(''status'', PStr ''online''), (''labels'', PList [PDict [(''name'', PStr label)]])]"

definition demo_page :: "string list \<Rightarrow> py_error + pyval" where
  "demo_page labels = Inr (PDict [(''runners'', PList (map demo_runner labels))])"

lemma demo_reported: "labels \<noteq> [] \<Longrightarrow> length labels < 100 \<Longrightarrow> reported_labels [demo_page labels] = Inr (set labels)"
proof -
  assume l: "labels \<noteq> []" "length labels < 100"
  have "mapM runner_labels (map demo_runner ls) = Inr (map (\<lambda>l. [l]) ls)" for ls
    by (induction ls) (simp_all add: runner_labels_def demo_runner_def label_name_def)
  then have "page_labels (map demo_runner labels) = Inr labels" by (simp add: page_labels_def)
  with l show ?thesis by (simp add: demo_page_def)
qed

theorem registered_labels_exact_witness:
  "get_registered_labels [[Inl HTTPError], [demo_page [''gfx942'', ''gfx1201'']]] {''gfx942'', ''gfx90a''} = Inr {''gfx942''}"
proof -
  have "mapM reported_labels [[Inl HTTPError], [demo_page [''gfx942'', ''gfx1201'']]] = Inr [{}, {''gfx942'', ''gfx1201''}]"
    using demo_reported [of "[''gfx942'', ''gfx1201'']"] by (simp del: reported_labels.simps(3))
  from registered_labels_exact [OF this, of "{''gfx942'', ''gfx90a''}"] show ?thesis by auto
qed

subsection \<open>The loop ends\<close>

locale runner_polling =
  fixes api :: runner_api and interval deadline :: rat
  assumes interval_pos: "0 < interval"
begin

lemma poll_clock: "rp_clock s \<le> rp_clock (snd (poll_runners api interval deadline s))"
  by (simp add: poll_runners_def Let_def split: sum.split prod.split)

lemma sleep_clock: "min (rp_clock s + interval) deadline \<le> rp_clock (sleep_runners interval deadline n s)"
  by (simp add: sleep_runners_def)

end

sublocale runner_polling \<subseteq> polling "poll_runners api interval deadline" rp_clock deadline "sleep_runners interval deadline" interval
  using interval_pos poll_clock sleep_clock by unfold_locales

context runner_polling
begin

lemma loop_returns:
  "\<exists>r t. poll (poll_runners api interval deadline) (\<lambda>s. deadline \<le> rp_clock s) (sleep_runners interval deadline) n s = Some (r, t)"
  using returns by blast

end

text \<open>The default interval of the script.\<close>

interpretation nightly: runner_polling api 15 deadline for api deadline
  by unfold_locales simp

lemma check_runners_returns:
  assumes "0 < interval"
  shows "\<exists>r n. check_runners api max_wait interval now targets = Some (r, n)"
proof -
  have "runner_polling interval" using assms by unfold_locales
  from runner_polling.loop_returns [OF this] show ?thesis
    by (fastforce simp: check_runners_def resolve_pending_def split: sum.split prod.split)
qed

subsection \<open>What is decided\<close>

definition label_of :: "target \<Rightarrow> string" where
  "label_of t = dict_or t ''runs_on'' []"

definition name_of :: "target \<Rightarrow> string" where
  "name_of t = dict_or t ''name'' []"

definition named :: "target \<Rightarrow> bool" where
  "named t \<longleftrightarrow> map_of t ''name'' \<noteq> None"

definition polled :: "target \<Rightarrow> bool" where
  "polled t \<longleftrightarrow> \<not> target_disabled t \<and> \<not> is_arc (label_of t) \<and> label_of t \<noteq> []"

lemma key_name [simp]: "named t \<Longrightarrow> key_error t ''name'' = Inr (name_of t)"
  by (auto simp: named_def key_error_def name_of_def dict_or_def)

lemma classify_targets_result:
  assumes "list_all named ts" and "distinct (map name_of ts)"
  shows "\<exists>res'. classify_targets ts res pend = Inr (res', pend @ filter polled ts) \<and>
    (\<forall>t. t \<in> set ts \<longrightarrow> \<not> polled t \<longrightarrow> map_of res' (name_of t) = Some (\<not> target_disabled t)) \<and>
    (\<forall>n. n \<notin> name_of ` {t \<in> set ts. \<not> polled t} \<longrightarrow> map_of res' n = map_of res n)"
  using assms
proof (induction ts arbitrary: res pend)
  case (Cons t ts)
  show ?case
  proof (cases "polled t")
    case True
    then have "classify_targets (t # ts) res pend = classify_targets ts res (pend @ [t])"
      by (simp add: polled_def label_of_def Let_def)
    moreover have "{u \<in> set (t # ts). \<not> polled u} = {u \<in> set ts. \<not> polled u}" using True by auto
    ultimately show ?thesis using Cons.IH [of res "pend @ [t]"] Cons.prems True by (simp del: classify_targets.simps)
  next
    case False
    then have "classify_targets (t # ts) res pend = classify_targets ts (dict_set (name_of t) (\<not> target_disabled t) res) pend"
      using Cons.prems by (auto simp: polled_def label_of_def Let_def)
    moreover obtain res' where "classify_targets ts (dict_set (name_of t) (\<not> target_disabled t) res) pend = Inr (res', pend @ filter polled ts)"
        "\<forall>u. u \<in> set ts \<longrightarrow> \<not> polled u \<longrightarrow> map_of res' (name_of u) = Some (\<not> target_disabled u)"
        "\<forall>n. n \<notin> name_of ` {t \<in> set ts. \<not> polled t} \<longrightarrow> map_of res' n = map_of (dict_set (name_of t) (\<not> target_disabled t) res) n"
      using Cons.IH [of "dict_set (name_of t) (\<not> target_disabled t) res" pend] Cons.prems by auto
    moreover have "name_of t \<notin> name_of ` {u \<in> set ts. \<not> polled u}" using Cons.prems(2) by auto
    moreover have "{u \<in> set (t # ts). \<not> polled u} = insert t {u \<in> set ts. \<not> polled u}" using False by auto
    ultimately show ?thesis using False by (intro exI [of _ res']) (simp del: classify_targets.simps)
  qed
qed simp

lemma settle_result:
  assumes "list_all named ts"
  shows "\<exists>res'. settle reg ts pend wanted res =
      Inr (pend @ filter (\<lambda>t. label_of t \<notin> reg) ts, wanted - (label_of ` set ts \<inter> reg), res') \<and>
    (\<forall>n. map_of res' n = (if \<exists>t \<in> set ts. label_of t \<in> reg \<and> name_of t = n then Some True else map_of res n))"
  using assms
proof (induction ts arbitrary: pend wanted res)
  case (Cons t ts)
  show ?case
  proof (cases "label_of t \<in> reg")
    case True
    then have "settle reg (t # ts) pend wanted res = settle reg ts pend (wanted - {label_of t}) (dict_set (name_of t) True res)"
      using Cons.prems by (simp add: label_of_def Let_def)
    moreover have "wanted - {label_of t} - (label_of ` set ts \<inter> reg) = wanted - (label_of ` set (t # ts) \<inter> reg)" using True by auto
    ultimately show ?thesis
      using Cons.IH [of pend "wanted - {label_of t}" "dict_set (name_of t) True res"] Cons.prems True by auto
  next
    case False
    then have "settle reg (t # ts) pend wanted res = settle reg ts (pend @ [t]) wanted res"
      using Cons.prems by (simp add: label_of_def Let_def)
    with Cons.IH [of "pend @ [t]" wanted res] Cons.prems False show ?thesis by auto
  qed
qed simp

text \<open>The loop's state after \<open>k\<close> attempts, when attempt \<open>k\<close> sees the labels \<open>R k\<close>.\<close>

definition unseen :: "(nat \<Rightarrow> string set) \<Rightarrow> nat \<Rightarrow> target \<Rightarrow> bool" where
  "unseen R n t \<longleftrightarrow> (\<forall>k < n. label_of t \<notin> R k)"

definition poll_inv :: "(nat \<Rightarrow> string set) \<Rightarrow> target list \<Rightarrow> (string \<times> bool) list \<Rightarrow> runner_poll \<Rightarrow> bool" where
  "poll_inv R to_poll base s \<longleftrightarrow>
     rp_pending s = filter (unseen R (rp_attempt s)) to_poll \<and> rp_wanted s = label_of ` set (rp_pending s) \<and>
     (\<forall>n. map_of (rp_resolved s) n =
        (if \<exists>t \<in> set to_poll. \<not> unseen R (rp_attempt s) t \<and> name_of t = n then Some True else map_of base n))"

lemma poll_runners_inv:
  assumes "poll_inv R to_poll base s" and "list_all named to_poll" and "0 \<le> interval"
    and "\<And>k wanted. get_registered_labels (ra_endpoints api k) wanted = Inr (wanted \<inter> R k)"
    and "poll_runners api interval deadline s = (r, s')"
  shows "poll_inv R to_poll base s' \<and> r = (if rp_pending s' = [] then Some (Inr ()) else None)"
proof -
  let ?n = "rp_attempt s" and ?reg = "rp_wanted s \<inter> R (rp_attempt s)"
  have named: "list_all named (rp_pending s)" using assms(1,2) by (auto simp: poll_inv_def list_all_iff)
  obtain res' where res: "settle ?reg (rp_pending s) [] (rp_wanted s) (rp_resolved s) =
      Inr (filter (\<lambda>t. label_of t \<notin> ?reg) (rp_pending s), rp_wanted s - (label_of ` set (rp_pending s) \<inter> ?reg), res')"
      "\<forall>n. map_of res' n = (if \<exists>t \<in> set (rp_pending s). label_of t \<in> ?reg \<and> name_of t = n then Some True else map_of (rp_resolved s) n)"
    using settle_result [OF named, of ?reg "[]" "rp_wanted s" "rp_resolved s"] by auto
  have Suc: "unseen R (Suc ?n) t \<longleftrightarrow> unseen R ?n t \<and> label_of t \<notin> R ?n" for t by (auto simp: unseen_def less_Suc_eq)
  have in_reg: "label_of t \<in> ?reg \<longleftrightarrow> label_of t \<in> R ?n" if "t \<in> set (rp_pending s)" for t
    using that assms(1) by (auto simp: poll_inv_def)
  have pend: "filter (\<lambda>t. label_of t \<notin> ?reg) (rp_pending s) = filter (unseen R (Suc ?n)) to_poll"
  proof -
    have "filter (\<lambda>t. label_of t \<notin> ?reg) (rp_pending s) = filter (\<lambda>t. label_of t \<notin> R ?n) (rp_pending s)"
      using in_reg by (intro filter_cong) simp_all
    also have "\<dots> = filter (\<lambda>t. label_of t \<notin> R ?n) (filter (unseen R ?n) to_poll)" using assms(1) by (simp add: poll_inv_def)
    finally show ?thesis unfolding filter_filter by (simp only: Suc cong: filter_cong)
  qed
  have map': "map_of res' n = (if \<exists>t \<in> set to_poll. \<not> unseen R (Suc ?n) t \<and> name_of t = n then Some True else map_of base n)" for n
    using res(2) in_reg assms(1) unfolding poll_inv_def Suc by (auto split: if_splits)
  define P where "P = filter (unseen R (Suc ?n)) to_poll"
  have "rp_wanted s - (label_of ` set (rp_pending s) \<inter> ?reg) = label_of ` set P"
    unfolding P_def pend [symmetric] using assms(1) in_reg by (auto simp: poll_inv_def)
  with res(1) pend have "settle ?reg (rp_pending s) [] (rp_wanted s) (rp_resolved s) = Inr (P, label_of ` set P, res')" by (simp add: P_def)
  with assms(3,5) have "r = (if P = [] then Some (Inr ()) else None) \<and> rp_pending s' = P \<and> rp_wanted s' = label_of ` set P \<and>
      rp_resolved s' = res' \<and> rp_attempt s' = Suc ?n"
    by (auto simp: poll_runners_def assms(4) Let_def)
  with map' show ?thesis by (simp add: poll_inv_def P_def)
qed

lemma skip_pending_map:
  "map_of (fold (\<lambda>t r. dict_set (dict_or t ''name'' []) False r) ts res) n =
     (if n \<in> name_of ` set ts then Some False else map_of res n)"
  by (induction ts arbitrary: res) (auto simp: name_of_def)

lemma resolve_pending_result:
  assumes "list_all named to_poll" and "0 < interval"
    and "\<And>k wanted. get_registered_labels (ra_endpoints api k) wanted = Inr (wanted \<inter> R k)"
    and "resolve_pending api max_wait interval now base to_poll = Some (r, n)"
  shows "(to_poll \<noteq> [] \<longrightarrow> 0 < n) \<and> (\<exists>res. r = Inr res \<and> (\<forall>m. map_of res m =
      (if \<exists>t \<in> set to_poll. unseen R n t \<and> name_of t = m then Some False
       else if \<exists>t \<in> set to_poll. name_of t = m then Some True else map_of base m)))"
proof (cases "to_poll = []")
  case True
  with assms(4) show ?thesis by (auto simp: resolve_pending_def)
next
  case False
  let ?att = "poll_runners api interval (now + max_wait)"
  let ?s = "\<lparr>rp_clock = now, rp_attempt = 0, rp_pending = to_poll, rp_wanted = (\<lambda>t. dict_or t ''runs_on'' []) ` set to_poll, rp_resolved = base\<rparr>"
  obtain q t where t: "poll ?att (\<lambda>s. now + max_wait \<le> rp_clock s) (sleep_runners interval (now + max_wait)) 0 ?s = Some (q, t)"
      "r = (case q of Some (Inl e) \<Rightarrow> Inl e | Some (Inr _) \<Rightarrow> Inr (rp_resolved t) | None \<Rightarrow> Inr (skip_pending t))" "n = rp_attempt t"
    using assms(4) False by (auto simp: resolve_pending_def)
  have "filter (unseen R 0) to_poll = to_poll" by (simp add: unseen_def)
  then have "poll_inv R to_poll base ?s" by (simp add: poll_inv_def unseen_def label_of_def)
  then have "\<exists>u. poll_inv R to_poll base u \<and> ?att u = (q, t) \<and> (q = None \<longrightarrow> now + max_wait \<le> rp_clock t)"
  proof (rule poll_result [OF t(1)])
    fix k u u' assume u: "poll_inv R to_poll base u" "?att u = (None, u')"
    have "poll_inv R to_poll base u'" using poll_runners_inv [OF u(1) assms(1) _ assms(3) u(2)] assms(2) by simp
    then show "poll_inv R to_poll base (sleep_runners interval (now + max_wait) k u')" by (simp add: poll_inv_def sleep_runners_def)
  qed
  then obtain u where u: "poll_inv R to_poll base u" "?att u = (q, t)" by blast
  then have pos: "0 < n" using t(3) by (auto simp: poll_runners_def Let_def split: sum.splits prod.splits)
  have inv: "poll_inv R to_poll base t" "q = (if rp_pending t = [] then Some (Inr ()) else None)"
    using poll_runners_inv [OF u(1) assms(1) _ assms(3) u(2)] assms(2) by simp_all
  have pend: "x \<in> set (rp_pending t) \<longleftrightarrow> x \<in> set to_poll \<and> unseen R n x" for x using inv(1) t(3) by (auto simp: poll_inv_def)
  have res: "map_of (rp_resolved t) m = (if \<exists>t \<in> set to_poll. \<not> unseen R n t \<and> name_of t = m then Some True else map_of base m)" for m
    using inv(1) t(3) by (simp add: poll_inv_def)
  show ?thesis
  proof (cases "rp_pending t = []")
    case True
    then have "\<not> (x \<in> set to_poll \<and> unseen R n x)" for x using pend [of x] by simp
    then show ?thesis using True t(2) inv(2) res pos by auto
  next
    case False
    then have "r = Inr (skip_pending t)" using t(2) inv(2) by simp
    moreover have "map_of (skip_pending t) m = (if \<exists>t \<in> set to_poll. unseen R n t \<and> name_of t = m then Some False
        else if \<exists>t \<in> set to_poll. name_of t = m then Some True else map_of base m)" for m
    proof -
      have "m \<in> name_of ` set (rp_pending t) \<longleftrightarrow> (\<exists>t \<in> set to_poll. unseen R n t \<and> name_of t = m)" using pend by (auto simp: image_iff)
      then show ?thesis unfolding skip_pending_def skip_pending_map res by auto
    qed
    ultimately show ?thesis using pos by blast
  qed
qed

lemma update_targets_result:
  "list_all named ts \<Longrightarrow> update_targets resolved ts =
     Inr (map (\<lambda>t. dict_set ''target_available'' (bool_text (target_available resolved (name_of t))) t) ts,
          map name_of (filter (\<lambda>t. \<not> target_available resolved (name_of t)) ts))"
  by (induction ts) (simp_all add: Let_def)


definition demo_target :: "string \<Rightarrow> string \<Rightarrow> string \<Rightarrow> target" where
  "demo_target name label avail = [(''name'', name), (''runs_on'', label), (''target_available'', avail)]"

definition demo_targets :: "target list" where
  "demo_targets = [demo_target ''a'' ''gfx942'' ''true'', demo_target ''b'' ''gfx90a'' ''true'', demo_target ''c'' ''gfx942'' ''False '',
     demo_target ''d'' ''linux-OSSCI-8'' ''true'']"

definition demo_runner_api :: runner_api where
  "demo_runner_api = \<lparr>ra_endpoints = (\<lambda>_. [[Inl HTTPError], [demo_page [''gfx942'']]]), ra_duration = (\<lambda>_. 1)\<rparr>"


end
