(* ===== verification/RocmLibs.thy ===== *)
theory RocmLibs
  imports AmdSmi SshStream Runners
begin

text \<open>
  The wrappers under \<open>framework/rocm/libs\<close> besides \<open>amd_smi.py\<close>: \<open>gtest.py\<close> (commands and summaries of GoogleTest binaries),
  \<open>rccl.py\<close> (bandwidth tests), \<open>hip.py\<close> (versions and devices) and \<open>stack.py\<close>. An executor is its \<open>run\<close> method.
\<close>

type_synonym 't timed_runner = "string \<Rightarrow> rat \<Rightarrow> (execution_result, 't) act"

subsection \<open>Patterns\<close>

text \<open>
  The regular expressions of \<open>gtest.py\<close> as lists of items. No item can take a character with which the rest of the
  pattern could begin, so the greedy reading is the only one; letters are compared without their case.
\<close>

datatype pat = Lit string | Many "char \<Rightarrow> bool" | Some_of "char \<Rightarrow> bool" | Opt char | Number

fun match_pat :: "pat list \<Rightarrow> nat \<Rightarrow> string \<Rightarrow> nat option" where
  "match_pat [] n s = Some n"
| "match_pat (Lit l # ps) n s = (if startswith (py_lower s) (py_lower l) then match_pat ps n (drop (length l) s) else None)"
| "match_pat (Many P # ps) n s = match_pat ps n (dropWhile P s)"
| "match_pat (Some_of P # ps) n s = (if takeWhile P s = [] then None else match_pat ps n (dropWhile P s))"
| "match_pat (Opt c # ps) n s =
     match_pat ps n (case s of [] \<Rightarrow> [] | d # t \<Rightarrow> if lower_char d = c then t else d # t)"
| "match_pat (Number # ps) n s =
     (if takeWhile is_digit s = [] then None else match_pat ps (digits_val (takeWhile is_digit s)) (dropWhile is_digit s))"

fun search_pat :: "pat list \<Rightarrow> string \<Rightarrow> nat option" where
  "search_pat p [] = match_pat p 0 []"
| "search_pat p (c # s) = (case match_pat p 0 (c # s) of Some n \<Rightarrow> Some n | None \<Rightarrow> search_pat p s)"

definition ran_pat :: "pat list" where
  "ran_pat = [Lit ''['', Some_of (\<lambda>c. c = CHR ''=''), Lit '']'', Some_of is_space, Number, Some_of is_space, Lit ''test'', Opt CHR ''s'',
     Some_of is_space, Lit ''from'', Some_of is_space, Some_of is_digit, Some_of is_space, Lit ''test'', Some_of is_space,
     Lit ''suite'', Opt CHR ''s'', Some_of is_space, Lit ''ran'']"

definition verdict_pat :: "string \<Rightarrow> pat list" where
  "verdict_pat word = [Lit ''['', Many is_space, Lit word, Many is_space, Lit '']'', Some_of is_space, Number, Some_of is_space, Lit ''test'']"

subsection \<open>GoogleTest\<close>

record gtest_summary =
  gs_total :: nat
  gs_passed :: nat
  gs_failed :: nat

definition found_or_zero :: "nat option \<Rightarrow> nat" where
  "found_or_zero r = (case r of None \<Rightarrow> 0 | Some n \<Rightarrow> n)"

definition parse_gtest_summary :: "string \<Rightarrow> gtest_summary" where
  "parse_gtest_summary out =
     \<lparr>gs_total = found_or_zero (search_pat ran_pat out), gs_passed = found_or_zero (search_pat (verdict_pat ''PASSED'') out),
      gs_failed = found_or_zero (search_pat (verdict_pat ''FAILED'') out)\<rparr>"

definition crash_markers :: "string list" where
  "crash_markers = [''segmentation fault'', ''core dumped'', ''terminate called'', ''aborted'']"

definition has_crash_marker :: "string \<Rightarrow> bool" where
  "has_crash_marker out \<longleftrightarrow> list_ex (\<lambda>m. contains_str m (py_lower out)) crash_markers"

definition gtest_shard_env :: "int \<Rightarrow> int \<Rightarrow> py_error + env" where
  "gtest_shard_env shard_index total_shards =
     (if total_shards \<le> 1 then Inr []
      else if \<not> (0 \<le> shard_index \<and> shard_index < total_shards) then Inl ValueError
      else Inr [(''GTEST_TOTAL_SHARDS'', show_int total_shards), (''GTEST_SHARD_INDEX'', show_int shard_index)])"

record gtest_options =
  go_filter :: "string option"
  go_shard_index :: "int option"
  go_total_shards :: "int option"
  go_env :: env
  go_extra_args :: string
  go_cwd :: "string option"
  go_omp_num_threads :: "string option"

definition merge_env :: "env \<Rightarrow> env \<Rightarrow> env" where
  "merge_env new old = fold (\<lambda>(k, v) d. dict_set k v d) new old"

definition gtest_env :: "gtest_options \<Rightarrow> py_error + env" where
  "gtest_env o1 =
     map_sum id (\<lambda>shard. merge_env (case go_omp_num_threads o1 of None \<Rightarrow> [] | Some n \<Rightarrow> [(''OMP_NUM_THREADS'', n)])
                   (merge_env shard (go_env o1)))
       (case (go_shard_index o1, go_total_shards o1) of
          (Some i, Some n) \<Rightarrow> gtest_shard_env i n
        | _ \<Rightarrow> Inr [])"

definition env_prefix :: "env \<Rightarrow> string" where
  "env_prefix vars = ''env '' @ join_with '' '' (map (\<lambda>(k, v). k @ ''='' @ shlex_quote v) vars)"

definition text_given :: "string option \<Rightarrow> bool" where
  "text_given t \<longleftrightarrow> t \<noteq> None \<and> t \<noteq> Some []"

definition build_gtest_command :: "string \<Rightarrow> gtest_options \<Rightarrow> py_error + string" where
  "build_gtest_command binary o1 =
     map_sum id (\<lambda>merged.
         let core = binary @ (if text_given (go_filter o1) then '' --gtest_filter='' @ shlex_quote (the (go_filter o1)) else []) @
                    (if go_extra_args o1 = [] then [] else '' '' @ go_extra_args o1);
             core = (if merged = [] then core else env_prefix (sort_key fst merged) @ '' '' @ core)
         in if text_given (go_cwd o1) then ''cd '' @ shlex_quote (the (go_cwd o1)) @ '' && '' @ core else core)
       (gtest_env o1)"

record gtest_result =
  gr_ok :: bool
  gr_exit_code :: int
  gr_summary :: gtest_summary
  gr_shard_index :: "int option"
  gr_total_shards :: "int option"
  gr_raw_output :: string

definition combined_output :: "execution_result \<Rightarrow> string" where
  "combined_output r = join_with [newline] (filter (\<lambda>p. p \<noteq> []) [er_stdout r, er_stderr r])"

definition gtest_outcome :: "gtest_options \<Rightarrow> execution_result \<Rightarrow> gtest_result" where
  "gtest_outcome o1 r =
     (let out = combined_output r; parsed = parse_gtest_summary out;
          shards = (case go_total_shards o1 of Some n \<Rightarrow> if n > 1 then Some n else None | None \<Rightarrow> None)
      in \<lparr>gr_ok = (er_ok r \<and> gs_failed parsed = 0 \<and> \<not> has_crash_marker out), gr_exit_code = er_exit_code r, gr_summary = parsed,
          gr_shard_index = (if shards \<noteq> None then go_shard_index o1 else None), gr_total_shards = shards, gr_raw_output = out\<rparr>)"

definition run_gtest :: "'t timed_runner \<Rightarrow> string \<Rightarrow> gtest_options \<Rightarrow> rat \<Rightarrow> (gtest_result, 't) act" where
  "run_gtest run binary o1 timeout =
     act_bind (act_lift (build_gtest_command binary o1)) (\<lambda>cmd.
     act_bind (run cmd timeout) (\<lambda>r. act_return (gtest_outcome o1 r)))"

subsection \<open>RCCL\<close>

record rccl_result =
  rr_operation :: string
  rr_size_mb :: int
  rr_n_gpus :: int
  rr_bandwidth_gbps :: rat
  rr_latency_us :: rat
  rr_passed :: bool
  rr_raw_output :: string

text \<open>
  The lines from the last to the first. A latency that was read stays when the bandwidth of its line cannot be read.
\<close>

fun rccl_scan :: "(string \<Rightarrow> rat option) \<Rightarrow> string list \<Rightarrow> rat \<Rightarrow> rat \<times> rat" where
  "rccl_scan fl [] latency = (latency, 0)"
| "rccl_scan fl (l # ls) latency =
     (let line = py_strip l; parts = py_split line
      in if line = [] \<or> startswith line ''#'' \<or> length parts < 8 then rccl_scan fl ls latency
         else case fl (parts ! 5) of
                None \<Rightarrow> rccl_scan fl ls latency
              | Some t \<Rightarrow> (case fl (parts ! 7) of None \<Rightarrow> rccl_scan fl ls t | Some bw \<Rightarrow> (t, bw)))"

definition parse_rccl_output :: "(string \<Rightarrow> rat option) \<Rightarrow> string \<Rightarrow> int \<Rightarrow> int \<Rightarrow> string \<Rightarrow> bool \<Rightarrow> rccl_result" where
  "parse_rccl_output fl operation size_mb n_gpus out ok =
     (case rccl_scan fl (rev (splitlines out)) 0 of
        (latency, bw) \<Rightarrow>
          \<lparr>rr_operation = operation, rr_size_mb = size_mb, rr_n_gpus = n_gpus, rr_bandwidth_gbps = bw, rr_latency_us = latency,
           rr_passed = (ok \<and> bw > 0), rr_raw_output = out\<rparr>)"

definition failure_markers :: "string list" where
  "failure_markers = [''aborted'', ''test failure'', ''segmentation fault'', ''out of memory'']"

definition correctness_ok :: "rccl_result \<Rightarrow> bool" where
  "correctness_ok r \<longleftrightarrow>
     \<not> list_ex (\<lambda>m. contains_str m (py_lower (rr_raw_output r))) failure_markers \<and>
     \<not> contains_str ''FAILED'' (rr_raw_output r) \<and> contains_str ''OK'' (rr_raw_output r)"

definition perf_command :: "string \<Rightarrow> int \<Rightarrow> string \<Rightarrow> env \<Rightarrow> string \<Rightarrow> string" where
  "perf_command binary n_gpus extra_args vars launcher =
     (if vars = [] then [] else env_prefix vars @ '' '') @ (if launcher = [] then [] else launcher @ '' '') @
     binary @ '' -g '' @ show_int n_gpus @ (if extra_args = [] then [] else '' '' @ extra_args)"

definition run_perf ::
    "'t timed_runner \<Rightarrow> (string \<Rightarrow> rat option) \<Rightarrow> string \<Rightarrow> int \<Rightarrow> string \<Rightarrow> env \<Rightarrow> string \<Rightarrow> string \<Rightarrow> int \<Rightarrow> rat \<Rightarrow> (rccl_result, 't) act" where
  "run_perf run fl binary n_gpus extra_args vars launcher operation size_mb timeout =
     act_bind (run (perf_command binary n_gpus extra_args vars launcher) timeout)
       (\<lambda>r. act_return (parse_rccl_output fl operation size_mb n_gpus (er_stdout r) (er_ok r)))"

definition size_args :: "int \<Rightarrow> string" where
  "size_args size_mb = (let b = show_int (size_mb * 1024 * 1024) in ''-b '' @ b @ '' -e '' @ b @ '' -f 2'')"

definition run_allreduce :: "'t timed_runner \<Rightarrow> (string \<Rightarrow> rat option) \<Rightarrow> int \<Rightarrow> int \<Rightarrow> int \<Rightarrow> int \<Rightarrow> (rccl_result, 't) act" where
  "run_allreduce run fl size_mb n_gpus n_warmup n_iters =
     run_perf run fl ''all_reduce_perf'' n_gpus (size_args size_mb @ '' -w '' @ show_int n_warmup @ '' -n '' @ show_int n_iters) [] []
       ''allreduce'' size_mb 120"

definition run_broadcast :: "'t timed_runner \<Rightarrow> (string \<Rightarrow> rat option) \<Rightarrow> int \<Rightarrow> int \<Rightarrow> (rccl_result, 't) act" where
  "run_broadcast run fl size_mb n_gpus = run_perf run fl ''broadcast_perf'' n_gpus (size_args size_mb) [] [] ''broadcast'' size_mb 120"

definition run_allgather :: "'t timed_runner \<Rightarrow> (string \<Rightarrow> rat option) \<Rightarrow> int \<Rightarrow> int \<Rightarrow> (rccl_result, 't) act" where
  "run_allgather run fl size_mb n_gpus = run_perf run fl ''all_gather_perf'' n_gpus (size_args size_mb) [] [] ''allgather'' size_mb 120"

definition python_cmd :: "string \<Rightarrow> string" where
  "python_cmd script = ''python3 -c '' @ [dquote] @ script @ [dquote]"

definition quoted_word :: "string \<Rightarrow> string" where
  "quoted_word s = [squote] @ s @ [squote]"

definition check_script :: string where
  "check_script = ''import ctypes, ctypes.util; lib = ctypes.util.find_library('' @ quoted_word ''rccl'' @ ''); print('' @
     quoted_word ''RCCL_FOUND'' @ '' if lib else '' @ quoted_word ''RCCL_MISSING'' @ '')''"

definition check_rccl_available :: "'t runner \<Rightarrow> (bool, 't) act" where
  "check_rccl_available run =
     act_bind (run (python_cmd check_script)) (\<lambda>r. act_return (er_ok r \<and> contains_str ''RCCL_FOUND'' (er_stdout r)))"

definition text_of_run :: "execution_result \<Rightarrow> string option" where
  "text_of_run r = (if er_ok r \<and> py_strip (er_stdout r) \<noteq> [] then Some (py_strip (er_stdout r)) else None)"

definition version_script :: string where
  "version_script = ''import ctypes, ctypes.util; lib = ctypes.util.find_library('' @ quoted_word ''rccl'' @
     ''); rccl = ctypes.CDLL(lib) if lib else None; ver = ctypes.c_int(0); rccl.ncclGetVersion(ctypes.byref(ver)) if rccl else None; '' @
     ''v = ver.value; print(f'' @ quoted_word ''{v//10000}.{(v//100)%100}.{v%100}'' @ '') if v else print('' @ quoted_word [] @ '')''"

definition rccl_version :: "'t runner \<Rightarrow> (string option, 't) act" where
  "rccl_version run = act_bind (run (python_cmd version_script)) (\<lambda>r. act_return (text_of_run r))"

subsection \<open>HIP\<close>

text \<open>The first of several commands that answers with text, as the two loops over the flags of \<open>hipconfig\<close> run them.\<close>

fun first_answer :: "'t runner \<Rightarrow> string list \<Rightarrow> (string option, 't) act" where
  "first_answer run [] = act_return None"
| "first_answer run (f # fs) =
     act_bind (run (''hipconfig '' @ f @ '' 2>/dev/null''))
       (\<lambda>r. case text_of_run r of Some t \<Rightarrow> act_return (Some t) | None \<Rightarrow> first_answer run fs)"

definition hip_version :: "'t runner \<Rightarrow> (string option, 't) act" where
  "hip_version run =
     act_bind (first_answer run [''--version'', ''-v'', ''--full''])
       (\<lambda>t. act_return (map_option (\<lambda>v. splitlines v ! 0) t))"

definition rocm_path :: "'t runner \<Rightarrow> (string option, 't) act" where
  "rocm_path run = first_answer run [''--rocmpath'', ''--path'']"

definition device_count_script :: string where
  "device_count_script = ''import ctypes, ctypes.util, json; lib = ctypes.util.find_library('' @ quoted_word ''amdhip64'' @
     ''); hip = ctypes.CDLL(lib) if lib else None; c = ctypes.c_int(0); '' @
     ''hip.hipGetDeviceCount(ctypes.byref(c)) if hip else None; print(c.value)''"

definition read_device_count :: "execution_result \<Rightarrow> py_error + int" where
  "read_device_count r =
     (let t = py_strip (er_stdout r)
      in if er_ok r \<and> str_isdigit t then (case int_of_str t of None \<Rightarrow> Inl ValueError | Some n \<Rightarrow> Inr n) else Inr 0)"

definition get_device_count :: "'t runner \<Rightarrow> (int, 't) act" where
  "get_device_count run = act_bind (run (python_cmd device_count_script)) (\<lambda>r. act_lift (read_device_count r))"

text \<open>The command of \<open>get_device_arch\<close> has four backslashes before the \<open>d\<close> of its pattern: \<open>repr\<close> doubles the two of the script.\<close>

definition arch_script :: string where
  "arch_script = ''import subprocess, re; r = subprocess.run(['' @ quoted_word ''hipconfig'' @ '', '' @ quoted_word ''--current-platform'' @
     ''], capture_output=True, text=True); m = re.search(r'' @ quoted_word (''gfx'' @ replicate 4 (CHR 0x5C) @ ''d+[a-z]?'') @
     '', r.stdout + r.stderr); print(m.group(0) if m else '' @ quoted_word ''unknown'' @ '')''"

definition get_device_arch :: "'t runner \<Rightarrow> (string, 't) act" where
  "get_device_arch run =
     act_bind (run (python_cmd arch_script))
       (\<lambda>r. act_return (case text_of_run r of None \<Rightarrow> ''unknown'' | Some t \<Rightarrow> last (splitlines t)))"

text \<open>The two patterns for versions: digits, a dot, digits and any further digits and dots; or digits and dots from a digit on.\<close>

definition digit_or_dot :: "char \<Rightarrow> bool" where
  "digit_or_dot c \<longleftrightarrow> is_digit c \<or> c = CHR ''.''"

fun find_version :: "string \<Rightarrow> string option" where
  "find_version [] = None"
| "find_version (c # s) =
     (case dropWhile is_digit (c # s) of
        d # e # _ \<Rightarrow> if is_digit c \<and> d = CHR ''.'' \<and> is_digit e then Some (takeWhile digit_or_dot (c # s)) else find_version s
      | _ \<Rightarrow> find_version s)"

fun find_driver_version :: "string \<Rightarrow> string option" where
  "find_driver_version [] = None"
| "find_driver_version (c # s) =
     (if is_digit c \<and> takeWhile digit_or_dot s \<noteq> [] then Some (c # takeWhile digit_or_dot s) else find_driver_version s)"

definition version_of_run :: "execution_result \<Rightarrow> string option" where
  "version_of_run r = (if text_of_run r = None then None else find_version (er_stdout r))"

definition version_file_cmd :: string where
  "version_file_cmd = ''cat /opt/rocm/.info/version 2>/dev/null''"

definition rocminfo_cmd :: string where
  "rocminfo_cmd = ''rocminfo 2>/dev/null | grep -i '' @ quoted_word ''ROCm Runtime Version''"

definition detect_rocm_version :: "'t runner \<Rightarrow> (string option, 't) act" where
  "detect_rocm_version run =
     act_bind (run version_file_cmd) (\<lambda>r. case text_of_run r of Some t \<Rightarrow> act_return (Some t) | None \<Rightarrow>
     act_bind (run rocminfo_cmd) (\<lambda>r. case version_of_run r of Some v \<Rightarrow> act_return (Some v) | None \<Rightarrow>
     act_bind (run ''hipconfig --version 2>/dev/null'') (\<lambda>r. act_return (version_of_run r))))"

text \<open>\<open>pytest.fail\<close> raises; its exception is \<open>PytestFail\<close>.\<close>

definition parse_release :: "string \<Rightarrow> (int \<times> int) option" where
  "parse_release v =
     (case split_on (CHR ''.'') v of
        a # b # _ \<Rightarrow> (case (int_of_str a, int_of_str b) of (Some x, Some y) \<Rightarrow> Some (x, y) | _ \<Rightarrow> None)
      | [a] \<Rightarrow> map_option (\<lambda>x. (x, 0)) (int_of_str a)
      | [] \<Rightarrow> None)"

definition release_ok :: "int \<Rightarrow> int \<Rightarrow> string option \<Rightarrow> bool" where
  "release_ok major minor version =
     (case Option.bind version parse_release of
        None \<Rightarrow> False
      | Some (x, y) \<Rightarrow> \<not> (x < major \<or> (x = major \<and> y < minor)))"

definition require_rocm_version :: "'t runner \<Rightarrow> int \<Rightarrow> int \<Rightarrow> (unit, 't) act" where
  "require_rocm_version run major minor =
     act_bind (detect_rocm_version run)
       (\<lambda>version. if release_ok major minor version then act_return () else act_raise PytestFail)"

subsection \<open>The stack\<close>

record rocm_stack_summary =
  st_rocm_version :: "string option"
  st_hip_version :: "string option"
  st_driver_version :: "string option"
  st_driver_loaded :: bool
  st_device_count :: int

definition get_rocm_version :: "'t runner \<Rightarrow> (string option, 't) act" where
  "get_rocm_version run =
     act_bind (run version_file_cmd) (\<lambda>r. case text_of_run r of Some t \<Rightarrow> act_return (Some t) | None \<Rightarrow>
     act_bind (run rocminfo_cmd) (\<lambda>r. case version_of_run r of Some v \<Rightarrow> act_return (Some v) | None \<Rightarrow>
     act_bind (run ''hipconfig --version 2>/dev/null'') (\<lambda>r. act_return (version_of_run r))))"

definition is_driver_loaded :: "'t runner \<Rightarrow> (bool, 't) act" where
  "is_driver_loaded run =
     act_bind (run ''lsmod 2>/dev/null | grep -c amdgpu'')
       (\<lambda>r. act_return (er_ok r \<and> (case int_of_str (er_stdout r) of None \<Rightarrow> False | Some n \<Rightarrow> n > 0)))"

definition get_driver_version :: "'t runner \<Rightarrow> (string option, 't) act" where
  "get_driver_version run =
     act_bind (run (''cat /sys/module/amdgpu/version 2>/dev/null || modinfo amdgpu 2>/dev/null | grep '' @ quoted_word ''^version:''))
       (\<lambda>r. act_return (map_option (\<lambda>t. case find_driver_version (er_stdout r) of Some v \<Rightarrow> v | None \<Rightarrow> t) (text_of_run r)))"

definition stack_summary :: "'t runner \<Rightarrow> (rocm_stack_summary, 't) act" where
  "stack_summary run =
     act_bind (get_rocm_version run) (\<lambda>rocm.
     act_bind (hip_version run) (\<lambda>hip.
     act_bind (get_driver_version run) (\<lambda>driver.
     act_bind (is_driver_loaded run) (\<lambda>loaded.
     act_bind (get_device_count run) (\<lambda>n.
     act_return \<lparr>st_rocm_version = rocm, st_hip_version = hip, st_driver_version = driver, st_driver_loaded = loaded, st_device_count = n\<rparr>)))))"

subsection \<open>What a shell reads of a GoogleTest command\<close>

lemma sh_read_assignment:
  assumes "list_all shlex_safe k"
  shows "sh_read Bare None (k @ ''='' @ shlex_quote v @ '' '' @ s) = map_option ((#) (k @ ''='' @ v)) (sh_read Bare None s)"
proof -
  have "list_all shlex_safe (k @ ''='')" using assms by (simp add: shlex_safe_def)
  then have "sh_read Bare None ((k @ ''='') @ shlex_quote v @ '' '' @ s) = sh_read Bare (Some (k @ ''='')) (shlex_quote v @ '' '' @ s)"
    by (subst sh_read_safe) simp_all
  then show ?thesis by (simp add: sh_read_quote)
qed

lemma sh_read_assignments:
  assumes "list_all (\<lambda>(k, v). list_all shlex_safe k) vars" "vars \<noteq> []"
  shows "sh_read Bare None (join_with '' '' (map (\<lambda>(k, v). k @ ''='' @ shlex_quote v) vars) @ '' '' @ s) =
    map_option (\<lambda>ws. map (\<lambda>(k, v). k @ ''='' @ v) vars @ ws) (sh_read Bare None s)"
  using assms
proof (induction vars)
  case (Cons kv vars)
  obtain k v where kv: "kv = (k, v)" by (cases kv)
  show ?case
  proof (cases "vars = []")
    case True
    with Cons.prems kv show ?thesis by (simp add: sh_read_assignment [simplified])
  next
    case False
    let ?rest = "join_with '' '' (map (\<lambda>(k, v). k @ ''='' @ shlex_quote v) vars) @ '' '' @ s"
    have "list_all shlex_safe k" "list_all (\<lambda>(k, v). list_all shlex_safe k) vars" using Cons.prems(1) kv by simp_all
    from sh_read_assignment [OF this(1), of v ?rest] Cons.IH [OF this(2) False] False kv show ?thesis
      by (cases vars) (simp_all add: option.map_comp comp_def)
  qed
qed simp

lemma sh_read_env_prefix:
  assumes "list_all (\<lambda>(k, v). list_all shlex_safe k) vars" "vars \<noteq> []"
  shows "sh_read Bare None (env_prefix vars @ '' '' @ s) =
    map_option (\<lambda>ws. ''env'' # map (\<lambda>(k, v). k @ ''='' @ v) vars @ ws) (sh_read Bare None s)"
proof -
  have "list_all shlex_safe ''env''" by (simp add: shlex_safe_def)
  from sh_read_letters [OF this] sh_read_assignments [OF assms, of s] show ?thesis
    by (simp add: env_prefix_def option.map_comp comp_def)
qed

definition filter_words :: "string option \<Rightarrow> string list" where
  "filter_words f = (if text_given f then [''--gtest_filter='' @ the f] else [])"

lemma sh_read_core:
  assumes "list_all shlex_safe binary" "binary \<noteq> []"
  shows "sh_read Bare None (binary @ (if text_given f then '' --gtest_filter='' @ shlex_quote (the f) else [])) =
    Some (binary # filter_words f)"
proof (cases "text_given f")
  case True
  have "list_all shlex_safe ''--gtest_filter=''" by (simp add: shlex_safe_def)
  then have "sh_read Bare None (''--gtest_filter='' @ shlex_quote (the f)) = sh_read Bare (Some ''--gtest_filter='') (shlex_quote (the f) @ [])"
    by (subst sh_read_safe) simp_all
  also have "\<dots> = Some [''--gtest_filter='' @ the f]" by (subst sh_read_quote) simp
  finally show ?thesis using True sh_read_letters [OF assms, of "''--gtest_filter='' @ shlex_quote (the f)"]
    by (simp add: filter_words_def)
next
  case False
  then show ?thesis using sh_read_safe [OF assms, of None "[]"] by (simp add: filter_words_def)
qed

text \<open>
  The shell reads back what \<open>build_gtest_command\<close> was given: the program \<open>env\<close> with one word for every variable of the
  merged environment, sorted by name, then the binary and the filter as one word each, whatever characters the values
  and the filter have.
\<close>

theorem gtest_command_read:
  assumes "list_all shlex_safe binary" "binary \<noteq> []" "go_extra_args o1 = []" "\<not> text_given (go_cwd o1)"
    "gtest_env o1 = Inr merged" "list_all (\<lambda>(k, v). list_all shlex_safe k) merged" "build_gtest_command binary o1 = Inr cmd"
  shows "sh_words cmd = Some ((if merged = [] then [] else ''env'' # map (\<lambda>(k, v). k @ ''='' @ v) (sort_key fst merged)) @
    binary # filter_words (go_filter o1))"
proof -
  let ?core = "binary @ (if text_given (go_filter o1) then '' --gtest_filter='' @ shlex_quote (the (go_filter o1)) else [])"
  have cmd: "cmd = (if merged = [] then ?core else env_prefix (sort_key fst merged) @ '' '' @ ?core)"
    using assms(3,4,5,7) by (simp add: build_gtest_command_def Let_def)
  have "list_all (\<lambda>(k, v). list_all shlex_safe k) (sort_key fst merged)" using assms(6) by (simp add: list_all_iff)
  moreover have "merged \<noteq> [] \<Longrightarrow> sort_key fst merged \<noteq> []" by (metis length_0_conv length_sort)
  ultimately show ?thesis
    using cmd sh_read_core [OF assms(1,2), of "go_filter o1"] sh_read_env_prefix [of "sort_key fst merged" ?core]
    by (simp add: sh_words_def)
qed

lemma gtest_command_read_witness:
  "sh_words (''env OMP_NUM_THREADS=4 bin/t --gtest_filter='' @ [squote] @ ''A*'' @ [squote]) = Some [''env'', ''OMP_NUM_THREADS=4'', ''bin/t'', ''--gtest_filter=A*'']"
  using gtest_command_read [of "''bin/t''"
      "\<lparr>go_filter = Some ''A*'', go_shard_index = Some 0, go_total_shards = Some 1, go_env = [], go_extra_args = [], go_cwd = None,
        go_omp_num_threads = Some ''4''\<rparr>" "[(''OMP_NUM_THREADS'', ''4'')]"]
  by (simp add: gtest_env_def gtest_shard_env_def merge_env_def build_gtest_command_def env_prefix_def text_given_def filter_words_def
      shlex_quote_def quote_body_def shlex_safe_def Let_def)

subsection \<open>Summaries\<close>

lemma lower_char_bracket: "lower_char c = CHR ''['' \<longleftrightarrow> c = CHR ''[''"
proof (cases "65 \<le> (of_char c :: nat) \<and> (of_char c :: nat) \<le> 90")
  case True
  then have "(of_char (lower_char c) :: nat) = of_char c + 32" by (simp add: lower_char_def)
  moreover have "(of_char (CHR ''['') :: nat) = 91" by simp
  ultimately have "lower_char c \<noteq> CHR ''[''" using True by auto
  then show ?thesis using True by auto
next
  case False
  then have "lower_char c = c" unfolding lower_char_def Let_def by (simp only: if_False)
  then show ?thesis by simp
qed

lemma search_pat_skip:
  assumes "CHR ''['' \<notin> set xs"
  shows "search_pat (Lit ''['' # ps) (xs @ s) = search_pat (Lit ''['' # ps) s"
  using assms
proof (induction xs)
  case (Cons c xs)
  have "lower_char c \<noteq> CHR ''[''" using Cons.prems lower_char_bracket [of c] by auto
  with Cons show ?case using lower_char_bracket [of "CHR ''[''"] by (simp add: startswith_def py_lower_def)
qed simp

definition step_line :: "bool \<times> string \<Rightarrow> string" where
  "step_line s = (if fst s then ''[ RUN      ] '' else ''[       OK ] '') @ snd s @ [newline]"

definition summary_text :: "nat \<Rightarrow> nat \<Rightarrow> nat \<Rightarrow> nat \<Rightarrow> string" where
  "summary_text n_ran suites passed failed =
     ''[==========] '' @ show_nat n_ran @ '' tests from '' @ show_nat suites @ '' test suites ran.'' @ [newline] @
     ''[  PASSED  ] '' @ show_nat passed @ '' tests.'' @ [newline] @ ''[  FAILED  ] '' @ show_nat failed @ '' tests, listed below:'' @ [newline]"

lemmas pat_eval = ran_pat_def verdict_pat_def startswith_def py_lower_def lower_char_def is_space_def is_digit_def

lemma search_pat_step: "search_pat p (c # s) = (case match_pat p 0 (c # s) of Some n \<Rightarrow> Some n | None \<Rightarrow> search_pat p s)"
  by simp

lemma search_step_line:
  assumes "CHR ''['' \<notin> set (snd st)" "p \<in> {ran_pat, verdict_pat ''PASSED'', verdict_pat ''FAILED''}"
  shows "search_pat p (step_line st @ s) = search_pat p s"
proof -
  obtain ps where p: "p = Lit ''['' # ps" using assms(2) by (auto simp: ran_pat_def verdict_pat_def)
  define rest where "rest = tl (step_line st)"
  have line: "step_line st = CHR ''['' # rest" "CHR ''['' \<notin> set rest"
    using assms(1) by (simp_all add: step_line_def rest_def)
  have "match_pat p 0 (step_line st @ s) = None"
    using assms(2) by (cases "fst st") (auto simp: step_line_def pat_eval)
  then show ?thesis using search_pat_skip [OF line(2), of ps s] line(1) p by simp
qed

lemma search_step_lines:
  assumes "list_all (\<lambda>st. CHR ''['' \<notin> set (snd st)) steps" "p \<in> {ran_pat, verdict_pat ''PASSED'', verdict_pat ''FAILED''}"
  shows "search_pat p (concat (map step_line steps) @ s) = search_pat p s"
  using assms by (induction steps) (simp_all add: search_step_line)

lemma takeWhile_digits:
  "\<not> is_digit c \<Longrightarrow> takeWhile is_digit (show_nat n @ c # s) = show_nat n"
  "\<not> is_digit c \<Longrightarrow> dropWhile is_digit (show_nat n @ c # s) = c # s"
  using show_nat_digits by (simp_all add: takeWhile_append dropWhile_append)

lemma show_nat_head: "\<not> is_space (hd (show_nat n))"
  using show_nat_digits [of "hd (show_nat n)" n] by (metis hd_in_set is_digit_not_space show_nat_nonempty)

lemma no_bracket_show_nat: "CHR ''['' \<notin> set (show_nat n)"
  using show_nat_digits [of "CHR ''[''" n] by (auto simp: is_digit_def)

lemma space_before_digits: "takeWhile is_space (show_nat n @ s) = []" "dropWhile is_space (show_nat n @ s) = show_nat n @ s"
proof -
  obtain c r where c: "show_nat n = c # r" by (metis list.exhaust show_nat_nonempty)
  then have "\<not> is_space c" using show_nat_head [of n] by simp
  with c show "takeWhile is_space (show_nat n @ s) = []" "dropWhile is_space (show_nat n @ s) = show_nat n @ s" by simp_all
qed

lemmas summary_eval = takeWhile_digits space_before_digits search_pat_step

lemma ran_found: "search_pat ran_pat (summary_text n m p f) = Some n"
  unfolding summary_text_def
  by (simp add: summary_eval ran_pat_def startswith_def py_lower_def lower_char_def is_space_def is_digit_def)

lemma verdicts_found:
  "search_pat (verdict_pat ''PASSED'') (summary_text n m p f) = Some p"
  "search_pat (verdict_pat ''FAILED'') (summary_text n m p f) = Some f"
proof -
  let ?ran = "''==========] '' @ show_nat n @ '' tests from '' @ show_nat m @ '' test suites ran.'' @ [newline]"
  let ?passed = "''  PASSED  ] '' @ show_nat p @ '' tests.'' @ [newline]"
  let ?failed = "''  FAILED  ] '' @ show_nat f @ '' tests, listed below:'' @ [newline]"
  have whole: "summary_text n m p f = CHR ''['' # ?ran @ CHR ''['' # ?passed @ CHR ''['' # ?failed" by (simp add: summary_text_def)
  have quiet: "CHR ''['' \<notin> set ?ran" "CHR ''['' \<notin> set ?passed" using no_bracket_show_nat by simp_all
  have skip: "search_pat (verdict_pat w) (?ran @ s) = search_pat (verdict_pat w) s"
    "search_pat (verdict_pat w) (?passed @ s) = search_pat (verdict_pat w) s" for w s
    unfolding verdict_pat_def by (rule search_pat_skip [OF quiet(1)]) (rule search_pat_skip [OF quiet(2)])
  note eval = summary_eval(1-4) verdict_pat_def startswith_def py_lower_def lower_char_def is_space_def is_digit_def
  have ran: "match_pat (verdict_pat w) 0 (CHR ''['' # ?ran @ s) = None" if "w \<in> {''PASSED'', ''FAILED''}" for w s
    using that by (auto simp: eval)
  have passed: "match_pat (verdict_pat ''PASSED'') 0 (CHR ''['' # ?passed @ s) = Some p"
    "match_pat (verdict_pat ''FAILED'') 0 (CHR ''['' # ?passed @ s) = None" for s
    by (simp_all add: eval)
  have failed: "match_pat (verdict_pat ''FAILED'') 0 (CHR ''['' # ?failed) = Some f" by (simp add: eval)
  show "search_pat (verdict_pat ''PASSED'') (summary_text n m p f) = Some p"
    by (simp only: whole search_pat_step ran insertI1 option.simps skip passed)
  show "search_pat (verdict_pat ''FAILED'') (summary_text n m p f) = Some f"
    by (simp only: whole search_pat_step ran insertI1 insertI2 option.simps skip passed failed)
qed

text \<open>
  The summary GoogleTest prints after any number of progress lines is read back: the number of tests that ran, that passed
  and that failed.
\<close>

theorem gtest_summary_round_trip:
  assumes "list_all (\<lambda>st. CHR ''['' \<notin> set (snd st)) steps"
  shows "parse_gtest_summary (concat (map step_line steps) @ summary_text n m p f) =
    \<lparr>gs_total = n, gs_passed = p, gs_failed = f\<rparr>"
proof -
  have "search_pat q (concat (map step_line steps) @ summary_text n m p f) = search_pat q (summary_text n m p f)"
    if "q \<in> {ran_pat, verdict_pat ''PASSED'', verdict_pat ''FAILED''}" for q
    using search_step_lines [OF assms that] .
  then show ?thesis by (simp add: parse_gtest_summary_def found_or_zero_def ran_found verdicts_found)
qed

lemma gtest_summary_round_trip_witness:
  "parse_gtest_summary (step_line (True, ''Add.One'') @ step_line (False, ''Add.One'') @ summary_text 5 2 4 1) =
    \<lparr>gs_total = 5, gs_passed = 4, gs_failed = 1\<rparr>"
  using gtest_summary_round_trip [of "[(True, ''Add.One''), (False, ''Add.One'')]" 5 2 4 1] by simp

subsection \<open>Bandwidth lines\<close>

definition no_data :: "string \<Rightarrow> bool" where
  "no_data l \<longleftrightarrow> py_strip l = [] \<or> startswith (py_strip l) ''#'' \<or> length (py_split (py_strip l)) < 8"

lemma rccl_scan_skip: "list_all no_data ls \<Longrightarrow> rccl_scan fl (ls @ r) latency = rccl_scan fl r latency"
  by (induction ls) (simp_all add: no_data_def Let_def)

text \<open>
  The numbers of a run of \<open>rccl-tests\<close> are those of the last line that has data: the sixth and the eighth column. The run
  passes exactly when the command succeeded and the bandwidth is positive.
\<close>

theorem rccl_last_line:
  assumes "splitlines out = before @ l # after" "list_all no_data after" "\<not> no_data l"
    "fl (py_split (py_strip l) ! 5) = Some t" "fl (py_split (py_strip l) ! 7) = Some bw"
  shows "rr_latency_us (parse_rccl_output fl operation size_mb n_gpus out ok) = t \<and>
    rr_bandwidth_gbps (parse_rccl_output fl operation size_mb n_gpus out ok) = bw \<and>
    (rr_passed (parse_rccl_output fl operation size_mb n_gpus out ok) \<longleftrightarrow> ok \<and> bw > 0)"
proof -
  have "list_all no_data (rev after)" using assms(2) by (simp add: list_all_iff)
  then have "rccl_scan fl (rev (splitlines out)) 0 = rccl_scan fl (l # rev before) 0"
    unfolding assms(1) using rccl_scan_skip [of "rev after" fl "l # rev before" 0] by simp
  also have "\<dots> = (t, bw)" using assms(3-5) by (simp add: no_data_def Let_def)
  finally show ?thesis by (simp add: parse_rccl_output_def)
qed

lemma rccl_last_line_witness:
  "rr_bandwidth_gbps (parse_rccl_output (map_option of_int \<circ> int_of_str) ''allreduce'' 1 2 (''8 2 f s 0 5 9 7'' @ [newline] @ ''# end'') True) = 7"
proof -
  have "splitlines (''8 2 f s 0 5 9 7'' @ [newline] @ ''# end'') = [] @ ''8 2 f s 0 5 9 7'' # [''# end'']" by code_simp
  moreover have "list_all no_data [''# end'']" "\<not> no_data ''8 2 f s 0 5 9 7''" by code_simp+
  moreover have "py_split (py_strip ''8 2 f s 0 5 9 7'') = [''8'', ''2'', ''f'', ''s'', ''0'', ''5'', ''9'', ''7'']" by code_simp
  moreover have "int_of_str ''5'' = Some 5" "int_of_str ''7'' = Some 7" by code_simp+
  ultimately show ?thesis
    using rccl_last_line [of "''8 2 f s 0 5 9 7'' @ [newline] @ ''# end''" "[]" "''8 2 f s 0 5 9 7''" "[''# end'']"
        "map_option of_int \<circ> int_of_str" 5 7 "''allreduce''" 1 2 True]
    by simp
qed

text \<open>
  \<open>correctness_ok\<close> reads only the output: a command that exits with an error after its first row has been checked counts
  as correct.
\<close>

theorem correctness_blind_to_exit:
  "\<exists>r. \<not> er_ok r \<and> correctness_ok (parse_rccl_output fl operation size_mb n_gpus (er_stdout r) (er_ok r))"
proof
  let ?r = "\<lparr>er_exit_code = 1, er_stdout = ''0 OK'', er_stderr = [], er_duration = 1\<rparr>"
  have "\<not> er_ok ?r" by (simp add: er_ok_def)
  moreover have "\<not> list_ex (\<lambda>m. contains_str m (py_lower ''0 OK'')) failure_markers" "\<not> contains_str ''FAILED'' ''0 OK''" "contains_str ''OK'' ''0 OK''"
    by code_simp+
  ultimately show "\<not> er_ok ?r \<and> correctness_ok (parse_rccl_output fl operation size_mb n_gpus (er_stdout ?r) (er_ok ?r))"
    by (simp add: correctness_ok_def parse_rccl_output_def split: prod.splits)
qed

subsection \<open>Releases\<close>

lemma parse_release_dotted:
  assumes "rest = [] \<or> (\<exists>r. rest = CHR ''.'' # r)"
  shows "parse_release (show_nat x @ CHR ''.'' # show_nat y @ rest) = Some (int x, int y)"
proof -
  have dot: "CHR ''.'' \<notin> set (show_nat n)" for n using show_nat_digits [of "CHR ''.''" n] by (auto simp: is_digit_def)
  have int: "int_of_str (show_nat n) = Some (int n)" for n using int_of_str_show_int [of "int n"] by (simp add: show_int_def)
  note sep = split_on_append_sep [of "CHR ''.''"] split_on_single [OF dot]
  obtain ws where "split_on (CHR ''.'') (show_nat y @ rest) = show_nat y # ws" using assms sep by auto
  then have "split_on (CHR ''.'') (show_nat x @ CHR ''.'' # show_nat y @ rest) = show_nat x # show_nat y # ws" using sep by simp
  then show ?thesis using int by (simp add: parse_release_def)
qed

text \<open>
  \<open>require_rocm_version\<close> lets a test go on exactly when the release in the version file is the required one or later, by
  major and then by minor number; otherwise the test fails.
\<close>

theorem release_required:
  assumes "run version_file_cmd t = Some (Inr r, t')" "er_ok r" "py_strip (er_stdout r) = show_nat x @ CHR ''.'' # show_nat y @ rest"
    "rest = [] \<or> (\<exists>q. rest = CHR ''.'' # q)"
  shows "require_rocm_version run major minor t =
    Some (if major < int x \<or> (major = int x \<and> minor \<le> int y) then Inr () else Inl PytestFail, t')"
proof -
  let ?v = "show_nat x @ CHR ''.'' # show_nat y @ rest"
  have "text_of_run r = Some ?v" using assms(2,3) by (simp add: text_of_run_def)
  then have "detect_rocm_version run t = Some (Inr (Some ?v), t')"
    using assms(1) by (simp add: detect_rocm_version_def act_bind_def act_return_def)
  moreover have "release_ok major minor (Some ?v) \<longleftrightarrow> major < int x \<or> (major = int x \<and> minor \<le> int y)"
    using parse_release_dotted [OF assms(4)] by (auto simp: release_ok_def)
  ultimately show ?thesis by (simp add: require_rocm_version_def act_bind_def act_return_def act_raise_def)
qed

lemma release_required_witness:
  "require_rocm_version (\<lambda>cmd t. Some (Inr \<lparr>er_exit_code = 0, er_stdout = ''6.3.0'', er_stderr = [], er_duration = 1\<rparr>, t)) 6 4 () =
    Some (Inl PytestFail, ())"
proof -
  have "py_strip ''6.3.0'' = show_nat 6 @ CHR ''.'' # show_nat 3 @ ''.0''" by code_simp
  then show ?thesis
    using release_required [of "\<lambda>cmd t. Some (Inr \<lparr>er_exit_code = 0, er_stdout = ''6.3.0'', er_stderr = [], er_duration = 1\<rparr>, t)" "()" _ "()" 6 3 "''.0''" 6 4]
    by (simp add: er_ok_def)
qed

end
