(* ===== verification/Builder.thy ===== *)
theory Builder
  imports RocmLibs Fixtures
begin

text \<open>
  \<open>framework/builder/binary_builder.py\<close>, first part: the class \<open>BinaryBuilder\<close>, which compiles one test binary under a
  file lock and two time limits, and the helpers it shares with the builds of whole projects. The host and a remote
  executor are records of functions.
\<close>

subsection \<open>The host and the remote executor\<close>

datatype flock = Locked | Busy | Flock_failed

text \<open>
  What the module takes from \<open>os\<close>, \<open>shutil\<close>, \<open>subprocess\<close>, \<open>fcntl\<close> and \<open>time\<close>. \<open>bh_flock\<close> is the non-blocking request of an
  exclusive lock: \<open>Busy\<close> is the error \<open>EACCES\<close> or \<open>EAGAIN\<close>. \<open>bh_run\<close> is \<open>subprocess.run\<close> with its working directory,
  environment and time limit, \<open>bh_shell\<close> the same for a shell command.
\<close>

record 't build_host =
  bh_clock :: "'t \<Rightarrow> rat"
  bh_sleep :: "rat \<Rightarrow> 't \<Rightarrow> 't"
  bh_open_lock :: "string \<Rightarrow> (unit, 't) act"
  bh_flock :: "string \<Rightarrow> 't \<Rightarrow> flock \<times> 't"
  bh_unlock :: "string \<Rightarrow> 't \<Rightarrow> 't"
  bh_environ :: env
  bh_cpu_count :: "int option"
  bh_tempdir :: string
  bh_abspath :: "string \<Rightarrow> string"
  bh_resolve :: "string \<Rightarrow> string"
  bh_makedirs :: "string \<Rightarrow> (unit, 't) act"
  bh_rmtree :: "string \<Rightarrow> 't \<Rightarrow> 't"
  bh_exists :: "string \<Rightarrow> 't \<Rightarrow> bool"
  bh_isfile :: "string \<Rightarrow> 't \<Rightarrow> bool"
  bh_isdir :: "string \<Rightarrow> 't \<Rightarrow> bool"
  bh_executable :: "string \<Rightarrow> 't \<Rightarrow> bool"
  bh_getmtime :: "string \<Rightarrow> 't \<Rightarrow> py_error + rat"
  bh_read_text :: "string \<Rightarrow> (string, 't) act"
  bh_write_text :: "string \<Rightarrow> string \<Rightarrow> (unit, 't) act"
  bh_which :: "string \<Rightarrow> 't \<Rightarrow> string option"
  bh_glob :: "string \<Rightarrow> 't \<Rightarrow> string list"
  bh_run :: "string list \<Rightarrow> string option \<Rightarrow> env \<Rightarrow> rat option \<Rightarrow> (execution_result, 't) act"
  bh_shell :: "string \<Rightarrow> rat \<Rightarrow> (execution_result, 't) act"

text \<open>
  A remote executor: \<open>run\<close> with its time limit, environment and streaming, and the operations of the workspace. The two
  flags say whether the executor has the methods that \<open>hasattr\<close> asks for.
\<close>

record 't remote_executor =
  re_run :: "string \<Rightarrow> rat option \<Rightarrow> env \<Rightarrow> bool \<Rightarrow> (execution_result, 't) act"
  re_has_root :: bool
  re_has_workspace :: bool
  re_root :: "(string, 't) act"
  re_workspace_path_for :: "string \<Rightarrow> string \<Rightarrow> (string, 't) act"
  re_remote_path_for :: "string \<Rightarrow> (string, 't) act"
  re_upload_tree :: "string \<Rightarrow> (string, 't) act"

definition re_sh :: "'t remote_executor \<Rightarrow> string \<Rightarrow> rat \<Rightarrow> (execution_result, 't) act" where
  "re_sh re cmd timeout = re_run re cmd (Some timeout) [] False"

definition shlex_join :: "string list \<Rightarrow> string" where
  "shlex_join ws = join_with '' '' (map shlex_quote ws)"

definition act_get :: "('t \<Rightarrow> 'a) \<Rightarrow> ('a, 't) act" where
  "act_get f t = Some (Inr (f t), t)"

definition act_do :: "('t \<Rightarrow> 't) \<Rightarrow> (unit, 't) act" where
  "act_do f t = Some (Inr (), f t)"

definition act_when :: "bool \<Rightarrow> (unit, 't) act \<Rightarrow> (unit, 't) act" where
  "act_when b m = (if b then m else act_return ())"

definition act_require :: "bool \<Rightarrow> py_error \<Rightarrow> (unit, 't) act" where
  "act_require b e = (if b then act_return () else act_raise e)"

subsection \<open>The build lock\<close>

text \<open>
  The loop around \<open>flock\<close>: try, give up at the deadline, otherwise sleep five seconds.
\<close>

definition try_flock :: "'t build_host \<Rightarrow> string \<Rightarrow> 't \<Rightarrow> (py_error + unit) option \<times> 't" where
  "try_flock h path t =
     (case bh_flock h path t of
        (Locked, t) \<Rightarrow> (Some (Inr ()), t)
      | (Flock_failed, t) \<Rightarrow> (Some (Inl OSError), t)
      | (Busy, t) \<Rightarrow> (None, t))"

definition wait_flock :: "'t build_host \<Rightarrow> string \<Rightarrow> rat \<Rightarrow> (unit, 't) act" where
  "wait_flock h path timeout t =
     (let deadline = bh_clock h t + timeout
      in map_option (\<lambda>(r, t). (case r of None \<Rightarrow> Inl TimeoutError | Some r \<Rightarrow> r, t))
           (poll (try_flock h path) (\<lambda>t. deadline \<le> bh_clock h t) (\<lambda>_. bh_sleep h 5) 0 t))"

definition with_flock :: "'t build_host \<Rightarrow> string \<Rightarrow> rat \<Rightarrow> ('a, 't) act \<Rightarrow> ('a, 't) act" where
  "with_flock h path timeout body =
     act_bind (bh_open_lock h path) (\<lambda>_.
     act_bind (wait_flock h path timeout) (\<lambda>_.
     act_finally body (act_do (bh_unlock h path))))"

subsection \<open>The command and its environment\<close>

definition gpu_env_keys :: "string list" where
  "gpu_env_keys = [''HIP_VISIBLE_DEVICES'', ''ROCR_VISIBLE_DEVICES'', ''GPU_DEVICE_ORDINAL'', ''CUDA_VISIBLE_DEVICES'', ''ROCM_VISIBLE_DEVICES'']"

definition compiler_env :: "env \<Rightarrow> env" where
  "compiler_env environ = filter (\<lambda>(k, v). k \<notin> set gpu_env_keys) environ"

record compile_options =
  co_hipcc :: "string option"
  co_rocm_dir :: "string option"
  co_std :: string
  co_opt :: string
  co_arch :: "string option"
  co_include_dirs :: "string list"
  co_extra_flags :: "string list"
  co_timeout :: "rat option"
  co_inactivity_timeout :: rat
  co_log_path :: "string option"

definition resolved_hipcc :: "string option \<Rightarrow> string option \<Rightarrow> py_error + string" where
  "resolved_hipcc hipcc rocm_dir =
     (case (hipcc, rocm_dir) of
        (None, None) \<Rightarrow> Inl ValueError
      | (Some p, Some d) \<Rightarrow> Inl ValueError
      | (None, Some d) \<Rightarrow> Inr (path_join (path_join d ''bin'') ''hipcc'')
      | (Some [], None) \<Rightarrow> Inl TypeError
      | (Some p, None) \<Rightarrow> Inr p)"

definition build_cmd :: "compile_options \<Rightarrow> string list \<Rightarrow> string \<Rightarrow> string \<Rightarrow> py_error + string list" where
  "build_cmd o1 include_dirs src output =
     map_sum id (\<lambda>p. [p, src, ''-std='' @ co_std o1, co_opt o1] @ concat (map (\<lambda>d. [''-I'', d]) include_dirs) @
         (if text_given (co_arch o1) then [''--offload-arch='' @ the (co_arch o1)] else []) @ co_extra_flags o1 @ [''-o'', output])
       (resolved_hipcc (co_hipcc o1) (co_rocm_dir o1))"

definition is_up_to_date :: "'t build_host \<Rightarrow> string \<Rightarrow> string \<Rightarrow> (bool, 't) act" where
  "is_up_to_date h src binary t =
     (if \<not> bh_isfile h binary t then Some (Inr False, t)
      else case (bh_getmtime h binary t, bh_getmtime h src t) of
             (Inl e, _) \<Rightarrow> Some (Inl e, t)
           | (_, Inl e) \<Rightarrow> Some (Inl e, t)
           | (Inr b, Inr s) \<Rightarrow> Some (Inr (b > s), t))"

subsection \<open>Running the compiler\<close>

text \<open>\<open>_graceful_kill\<close>: here a signal to a process that is gone is not caught.\<close>

definition builder_kill :: "('s, 'b) process_api \<Rightarrow> 's \<Rightarrow> (py_error + unit) \<times> 's" where
  "builder_kill api s =
     (case pa_terminate api s of
        (False, s) \<Rightarrow> (Inl OSError, s)
      | (True, s) \<Rightarrow>
          (case pa_wait_for api 30 s of
             (Some rc, s) \<Rightarrow> (Inr (), s)
           | (None, s) \<Rightarrow> (Inr (), snd (pa_wait api (pa_kill api s)))))"

text \<open>
  The loop of \<open>_stream_compile\<close> over the merged output. The second component is the time of the last output: a chunk
  arrived exactly when the buffer has grown.
\<close>

definition merged_console :: "stream \<Rightarrow> stream option" where
  "merged_console c = Some Out"

definition read_output_chunk ::
  "('s, 'b) process_api \<Rightarrow> bool \<Rightarrow> ('s, 'b, 'b list) streaming \<times> rat \<Rightarrow> bool \<times> ('s, 'b, 'b list) streaming \<times> rat" where
  "read_output_chunk api log_fh w =
     (case pump api (\<lambda>chunk buf. buf @ chunk) merged_console log_fh Out (fst w) of
        (ok, st) \<Rightarrow> (ok, st, if st_buf st Out = st_buf (fst w) Out then snd w else pa_clock api (st_os st)))"

definition kill_for_timeout ::
  "('s, 'b) process_api \<Rightarrow> ('s, 'b, 'b list) streaming \<times> rat \<Rightarrow> (py_error + unit) option \<times> ('s, 'b, 'b list) streaming \<times> rat" where
  "kill_for_timeout api w =
     (case builder_kill api (st_os (fst w)) of
        (r, s) \<Rightarrow> (Some (case r of Inl e \<Rightarrow> Inl e | Inr _ \<Rightarrow> Inl TimeoutError), (fst w)\<lparr>st_os := s\<rparr>, snd w))"

definition select_wait :: "rat option \<Rightarrow> rat \<Rightarrow> rat \<Rightarrow> rat \<Rightarrow> rat" where
  "select_wait timeout inactivity elapsed since_last =
     max (case timeout of
            None \<Rightarrow> min 5 (inactivity - since_last)
          | Some limit \<Rightarrow> min (min 5 (inactivity - since_last)) (limit - elapsed)) (1 / 10)"

definition selected :: "('s, 'b) process_api \<Rightarrow> bool \<Rightarrow> rat \<Rightarrow> ('s, 'b, 'b list) streaming \<times> rat \<Rightarrow> bool \<times> ('s, 'b, 'b list) streaming \<times> rat" where
  "selected api log_fh d w =
     (case pa_select api d (st_os (fst w)) of
        (ready, s) \<Rightarrow> if ready Out then read_output_chunk api log_fh ((fst w)\<lparr>st_os := s\<rparr>, snd w) else (True, (fst w)\<lparr>st_os := s\<rparr>, snd w))"

definition compile_turn ::
  "('s, 'b) process_api \<Rightarrow> rat option \<Rightarrow> rat \<Rightarrow> bool \<Rightarrow> rat
     \<Rightarrow> ('s, 'b, 'b list) streaming \<times> rat \<Rightarrow> (py_error + unit) option \<times> ('s, 'b, 'b list) streaming \<times> rat" where
  "compile_turn api timeout inactivity log_fh t0 w =
     (let now = pa_clock api (st_os (fst w)); elapsed = now - t0; since_last = now - snd w
      in if (case timeout of None \<Rightarrow> False | Some limit \<Rightarrow> elapsed \<ge> limit) then kill_for_timeout api w
         else if since_last \<ge> inactivity then kill_for_timeout api w
         else
           (case selected api log_fh (select_wait timeout inactivity elapsed since_last) w of
              (False, w) \<Rightarrow> (Some (Inl OSError), w)
            | (True, w) \<Rightarrow>
                if pa_poll api (st_os (fst w)) \<noteq> None
                then (case read_output_chunk api log_fh w of (ok, w) \<Rightarrow> (Some (if ok then Inr () else Inl OSError), w))
                else (None, w)))"

definition stream_compile ::
  "('s, 'b) process_api \<Rightarrow> (string list \<Rightarrow> env \<Rightarrow> 's \<Rightarrow> bool \<times> 's) \<Rightarrow> string list \<Rightarrow> env \<Rightarrow> rat option \<Rightarrow> rat \<Rightarrow> string option
     \<Rightarrow> (unit, 's \<times> 'b sinks) act" where
  "stream_compile api popen cmd environ timeout inactivity log_path w =
     (case popen cmd environ (fst w) of
        (False, s) \<Rightarrow> Some (Inl OSError, s, snd w)
      | (True, s) \<Rightarrow>
          let t0 = pa_clock api s
          in (case open_log api log_path s of
                (Inl e, s) \<Rightarrow> Some (Inl e, s, snd w)
              | (Inr log_fh, s) \<Rightarrow>
                  map_option
                    (\<lambda>(r, st, last_output). case r of
                       Some (Inl e) \<Rightarrow> (Inl e, st_os st, st_sinks st)
                     | _ \<Rightarrow>
                         (case pa_wait api (st_os st) of
                            (rc, s) \<Rightarrow> (if rc = 0 then Inr () else Inl AssertionError, s, st_sinks st)))
                    (poll (compile_turn api timeout inactivity log_fh t0) (\<lambda>_. False) (\<lambda>_ w. w) 0
                       (\<lparr>st_os = s, st_buf = (\<lambda>_. []), st_sinks = (if log_fh then (snd w)\<lparr>sk_log := []\<rparr> else snd w)\<rparr>, t0))))"

subsection \<open>Compiling\<close>

definition os_dirname :: "string \<Rightarrow> string" where
  "os_dirname p =
     (let front = rev (dropWhile (\<lambda>c. c \<noteq> CHR ''/'') (rev p))
      in if list_all (\<lambda>c. c = CHR ''/'') front then front else rstrip_slash front)"

definition os_basename :: "string \<Rightarrow> string" where
  "os_basename p = rev (takeWhile (\<lambda>c. c \<noteq> CHR ''/'') (rev p))"

definition write_build_skip_log :: "'t build_host \<Rightarrow> string \<Rightarrow> string \<Rightarrow> string \<Rightarrow> string \<Rightarrow> (unit, 't) act" where
  "write_build_skip_log h ts log_path src binary =
     act_bind (bh_makedirs h (path_parent log_path)) (\<lambda>_.
       bh_write_text h log_path (''['' @ ts @ ''] BinaryBuilder: binary is up-to-date, skipped recompilation'' @ [newline] @
         ''  Source: '' @ src @ [newline] @ ''  Binary: '' @ binary @ [newline]))"

definition compile_body ::
  "('s \<times> 'b sinks) build_host \<Rightarrow> ('s, 'b) process_api \<Rightarrow> (string list \<Rightarrow> env \<Rightarrow> 's \<Rightarrow> bool \<times> 's) \<Rightarrow> string \<Rightarrow> string \<Rightarrow> string
     \<Rightarrow> compile_options \<Rightarrow> (string, 's \<times> 'b sinks) act" where
  "compile_body h api popen ts src output o1 =
     act_bind (is_up_to_date h src output) (\<lambda>current.
          if current
          then act_bind (act_when (text_given (co_log_path o1)) (write_build_skip_log h ts (the (co_log_path o1)) src output))
                 (\<lambda>_. act_return output)
          else act_bind (act_lift (build_cmd o1 (co_include_dirs o1) src output)) (\<lambda>cmd.
               act_bind (stream_compile api popen cmd (compiler_env (bh_environ h)) (co_timeout o1) (co_inactivity_timeout o1) (co_log_path o1))
                 (\<lambda>_. act_return output)))"

definition compile_local ::
  "('s \<times> 'b sinks) build_host \<Rightarrow> ('s, 'b) process_api \<Rightarrow> (string list \<Rightarrow> env \<Rightarrow> 's \<Rightarrow> bool \<times> 's) \<Rightarrow> string \<Rightarrow> string \<Rightarrow> string
     \<Rightarrow> compile_options \<Rightarrow> (string, 's \<times> 'b sinks) act" where
  "compile_local h api popen ts src output o1 =
     act_bind (bh_makedirs h (os_dirname (bh_abspath h output))) (\<lambda>_.
     with_flock h (output @ ''.lock'') (case co_timeout o1 of None \<Rightarrow> 7200 | Some limit \<Rightarrow> limit)
       (compile_body h api popen ts src output o1))"

definition under_rocm :: "string option \<Rightarrow> string \<Rightarrow> bool" where
  "under_rocm rocm_dir p =
     (text_given rocm_dir \<and>
       (let d = normpath (the rocm_dir) in normpath p = d \<or> startswith (normpath p) (rstrip_slash d @ ''/'')))"

definition remote_include :: "'t build_host \<Rightarrow> 't remote_executor \<Rightarrow> string option \<Rightarrow> string \<Rightarrow> (string, 't) act" where
  "remote_include h re rocm_dir p =
     act_bind (re_root re) (\<lambda>ws.
       if startswith p ws \<or> under_rocm rocm_dir p then act_return p else re_upload_tree re (bh_abspath h p))"

definition remote_source :: "'t build_host \<Rightarrow> 't remote_executor \<Rightarrow> string \<Rightarrow> (string, 't) act" where
  "remote_source h re src =
     act_bind (re_root re) (\<lambda>ws.
       if startswith src ws then act_return src
       else act_bind (re_upload_tree re (os_dirname (bh_abspath h src)))
              (\<lambda>d. act_return (path_join d (os_basename (bh_abspath h src)))))"

definition remote_compile :: "'t build_host \<Rightarrow> 't remote_executor \<Rightarrow> string \<Rightarrow> string \<Rightarrow> compile_options \<Rightarrow> (string, 't) act" where
  "remote_compile h re src output o1 =
     act_bind (remote_source h re src) (\<lambda>remote_src.
     act_bind (re_workspace_path_for re (bh_abspath h output) ''work'') (\<lambda>remote_output.
     act_bind (act_map (remote_include h re (co_rocm_dir o1)) (co_include_dirs o1)) (\<lambda>include_dirs.
     act_bind (re_run re (''mkdir -p '' @ shlex_quote (os_dirname remote_output)) None [] False) (\<lambda>mk.
     act_bind (act_require (er_ok mk) RuntimeError) (\<lambda>_.
     act_bind (act_lift (build_cmd o1 include_dirs remote_src remote_output)) (\<lambda>cmd.
     act_bind (re_run re (shlex_join cmd) (co_timeout o1) [] False) (\<lambda>r.
     act_bind (act_require (er_ok r) AssertionError) (\<lambda>_. act_return remote_output))))))))"

definition compile ::
  "('s \<times> 'b sinks) build_host \<Rightarrow> ('s, 'b) process_api \<Rightarrow> (string list \<Rightarrow> env \<Rightarrow> 's \<Rightarrow> bool \<times> 's) \<Rightarrow> string
     \<Rightarrow> ('s \<times> 'b sinks) remote_executor option \<Rightarrow> string \<Rightarrow> string \<Rightarrow> compile_options \<Rightarrow> (string, 's \<times> 'b sinks) act" where
  "compile h api popen ts remote src output o1 =
     (case remote of Some re \<Rightarrow> remote_compile h re src output o1 | None \<Rightarrow> compile_local h api popen ts src output o1)"

definition find_rocm_clangpp :: "'t build_host \<Rightarrow> string \<Rightarrow> 't \<Rightarrow> string option" where
  "find_rocm_clangpp h d t =
     find (\<lambda>p. bh_exists h p t) (map (foldl path_div d) [[''lib'', ''llvm'', ''bin'', ''clang++''], [''llvm'', ''bin'', ''clang++''], [''bin'', ''amdclang++'']])"

text \<open>
  \<open>resolve_parallel_jobs\<close>: every exception on the way of the remote query leads to the default.
\<close>

definition cpu_count_or :: "'t build_host \<Rightarrow> int" where
  "cpu_count_or h = (case bh_cpu_count h of None \<Rightarrow> 4 | Some n \<Rightarrow> if n = 0 then 4 else n)"

definition jobs_of_answer :: "py_error + execution_result \<Rightarrow> int" where
  "jobs_of_answer r =
     (case r of
        Inl e \<Rightarrow> 4
      | Inr a \<Rightarrow> let t = py_strip (er_stdout a)
                in if er_ok a \<and> str_isdigit t then (case int_of_str t of None \<Rightarrow> 4 | Some n \<Rightarrow> max 1 n) else 4)"

definition resolve_parallel_jobs :: "'t build_host \<Rightarrow> int option \<Rightarrow> 't remote_executor option \<Rightarrow> (int, 't) act" where
  "resolve_parallel_jobs h parallel_jobs remote t =
     (if parallel_jobs \<noteq> None \<and> the parallel_jobs > 0 then Some (Inr (the parallel_jobs), t)
      else case remote of
             Some re \<Rightarrow> map_option (\<lambda>(r, t). (Inr (jobs_of_answer r), t)) (re_sh re ''nproc'' 30 t)
           | None \<Rightarrow> Some (Inr (cpu_count_or h), t))"

subsection \<open>The compiler's loop\<close>

lemma builder_kill_got: "pipes_ok api got \<Longrightarrow> got c (snd (builder_kill api s)) = got c s"
  unfolding pipes_ok_def builder_kill_def by (auto split: prod.split bool.split option.split) (metis snd_conv)+

lemma builder_kill_clock: "clock_ok api tick \<Longrightarrow> pa_clock api s \<le> pa_clock api (snd (builder_kill api s))"
  unfolding clock_ok_def builder_kill_def
  by (auto split: prod.split bool.split option.split) (metis snd_conv order_trans)+

lemma builder_kill_ends: "process_ok api \<Longrightarrow> pa_poll api (snd (builder_kill api s)) \<noteq> None"
  unfolding process_ok_def builder_kill_def
  by (auto split: prod.split bool.split option.split) (metis fst_conv snd_conv option.distinct(1))+

lemma builder_kill_error: "fst (builder_kill api s) = Inl e \<Longrightarrow> e = OSError"
  by (auto simp: builder_kill_def split: prod.splits bool.splits option.splits)

text \<open>
  What the loop keeps: the buffer is what the pipe gave, and the console and the log have got the same bytes.
\<close>

definition compile_inv :: "(stream \<Rightarrow> 's \<Rightarrow> 'b list) \<Rightarrow> bool \<Rightarrow> 'b sinks \<Rightarrow> ('s, 'b, 'b list) streaming \<times> rat \<Rightarrow> bool" where
  "compile_inv got log_fh k w \<longleftrightarrow>
     st_buf (fst w) Out = got Out (st_os (fst w)) \<and> sk_console_out (st_sinks (fst w)) = sk_console_out k @ st_buf (fst w) Out \<and>
     (log_fh \<longrightarrow> sk_log (st_sinks (fst w)) = st_buf (fst w) Out)"

lemma read_chunk_inv:
  assumes "pipes_ok api got" "compile_inv got log_fh k w"
  shows "compile_inv got log_fh k (snd (read_output_chunk api log_fh w))"
proof -
  obtain r s where read: "pa_read api Out (st_os (fst w)) = (r, s)" by (cases "pa_read api Out (st_os (fst w))")
  have "got c (snd (pa_read api Out (st_os (fst w)))) =
      got c (st_os (fst w)) @ (if c = Out then case fst (pa_read api Out (st_os (fst w))) of None \<Rightarrow> [] | Some xs \<Rightarrow> xs else [])" for c
    using assms(1) unfolding pipes_ok_def by blast
  from this [of Out] have "got Out s = got Out (st_os (fst w)) @ (case r of None \<Rightarrow> [] | Some xs \<Rightarrow> xs)" by (simp add: read)
  then show ?thesis
    using assms(2) by (cases r)
      (simp_all add: read read_output_chunk_def pump_def compile_inv_def merged_console_def bg_pipe_write_def console_write_def Let_def)
qed

lemma read_chunk_os: "st_os (fst (snd (read_output_chunk api log_fh w))) = st_os (snd (pump api (\<lambda>chunk buf. buf @ chunk) merged_console log_fh Out (fst w)))"
  by (simp add: read_output_chunk_def split: prod.split)

lemma read_chunk_clock: "clock_ok api tick \<Longrightarrow> pa_clock api (st_os (fst w)) \<le> pa_clock api (st_os (fst (snd (read_output_chunk api log_fh w))))"
  unfolding read_chunk_os by (rule pump_clock)

lemma read_chunk_ended:
  "process_ok api \<Longrightarrow> pa_poll api (st_os (fst w)) = Some rc \<Longrightarrow> pa_poll api (st_os (fst (snd (read_output_chunk api log_fh w)))) = Some rc"
  unfolding read_chunk_os by (rule pump_ended)

lemma kill_inv: "pipes_ok api got \<Longrightarrow> compile_inv got log_fh k w \<Longrightarrow> compile_inv got log_fh k (snd (kill_for_timeout api w))"
  using builder_kill_got [of api got Out "st_os (fst w)"]
  by (auto simp: kill_for_timeout_def compile_inv_def split: prod.splits)

text \<open>The two ways of one turn: over a time limit, or a \<open>select\<close> with the reads that follow it.\<close>

definition over_limit :: "('s, 'b) process_api \<Rightarrow> rat option \<Rightarrow> rat \<Rightarrow> rat \<Rightarrow> ('s, 'b, 'b list) streaming \<times> rat \<Rightarrow> bool" where
  "over_limit api timeout inactivity t0 w \<longleftrightarrow>
     (\<exists>limit. timeout = Some limit \<and> t0 + limit \<le> pa_clock api (st_os (fst w))) \<or> snd w + inactivity \<le> pa_clock api (st_os (fst w))"

lemma compile_turn_late: "over_limit api timeout inactivity t0 w \<Longrightarrow> compile_turn api timeout inactivity log_fh t0 w = kill_for_timeout api w"
  by (auto simp: over_limit_def compile_turn_def Let_def algebra_simps split: option.splits)

lemma compile_turn_early:
  assumes "\<not> over_limit api timeout inactivity t0 w"
  obtains d where "compile_turn api timeout inactivity log_fh t0 w =
    (case selected api log_fh d w of
       (False, w) \<Rightarrow> (Some (Inl OSError), w)
     | (True, w) \<Rightarrow> if pa_poll api (st_os (fst w)) \<noteq> None
          then (case read_output_chunk api log_fh w of (ok, w) \<Rightarrow> (Some (if ok then Inr () else Inl OSError), w)) else (None, w))"
proof -
  let ?now = "pa_clock api (st_os (fst w))"
  have "\<not> (case timeout of None \<Rightarrow> False | Some limit \<Rightarrow> ?now - t0 \<ge> limit)" "\<not> ?now - snd w \<ge> inactivity"
    using assms by (auto simp: over_limit_def algebra_simps split: option.splits)
  then show ?thesis
    using that [of "select_wait timeout inactivity (?now - t0) (?now - snd w)"]
    by (simp add: compile_turn_def Let_def)
qed

lemma selected_clock: "clock_ok api tick \<Longrightarrow> pa_clock api (st_os (fst w)) + tick \<le> pa_clock api (st_os (fst (snd (selected api log_fh d w))))"
proof -
  assume clk: "clock_ok api tick"
  obtain ready s where sel: "pa_select api d (st_os (fst w)) = (ready, s)" by (cases "pa_select api d (st_os (fst w))")
  have "pa_clock api (st_os (fst w)) + tick \<le> pa_clock api s" using clk sel unfolding clock_ok_def by (metis snd_conv)
  then show ?thesis
    using read_chunk_clock [OF clk, of "((fst w)\<lparr>st_os := s\<rparr>, snd w)" log_fh] sel by (simp add: selected_def)
qed

lemma selected_inv:
  assumes "pipes_ok api got" "compile_inv got log_fh k w"
  shows "compile_inv got log_fh k (snd (selected api log_fh d w))"
proof -
  obtain ready s where sel: "pa_select api d (st_os (fst w)) = (ready, s)" by (cases "pa_select api d (st_os (fst w))")
  have "got Out s = got Out (st_os (fst w))" using assms(1) sel unfolding pipes_ok_def by (metis snd_conv)
  then have "compile_inv got log_fh k ((fst w)\<lparr>st_os := s\<rparr>, snd w)" using assms(2) by (simp add: compile_inv_def)
  then show ?thesis using read_chunk_inv [OF assms(1), of log_fh k "((fst w)\<lparr>st_os := s\<rparr>, snd w)"] sel by (simp add: selected_def)
qed

lemma kill_clock: "clock_ok api tick \<Longrightarrow> pa_clock api (st_os (fst w)) \<le> pa_clock api (st_os (fst (snd (kill_for_timeout api w))))"
  using builder_kill_clock [of api tick "st_os (fst w)"] by (auto simp: kill_for_timeout_def split: prod.split)

lemma kill_decides:
  assumes "kill_for_timeout api w = (r, w')"
  shows "r = Some (Inl OSError) \<or> r = Some (Inl TimeoutError)"
  using assms builder_kill_error [of api "st_os (fst w)"]
  by (cases "fst (builder_kill api (st_os (fst w)))") (auto simp: kill_for_timeout_def split: prod.splits)

lemma kill_ends: "process_ok api \<Longrightarrow> pa_poll api (st_os (fst (snd (kill_for_timeout api w)))) \<noteq> None"
  using builder_kill_ends [of api "st_os (fst w)"] by (auto simp: kill_for_timeout_def split: prod.splits)

text \<open>The start of the compiler is not later than the last output, nor than the present.\<close>

definition since_start :: "('s, 'b) process_api \<Rightarrow> rat \<Rightarrow> ('s, 'b, 'b list) streaming \<times> rat \<Rightarrow> bool" where
  "since_start api t0 w \<longleftrightarrow> t0 \<le> snd w \<and> t0 \<le> pa_clock api (st_os (fst w))"

lemma read_chunk_since:
  assumes "clock_ok api tick" "since_start api t0 w"
  shows "since_start api t0 (snd (read_output_chunk api log_fh w))"
proof -
  have "t0 \<le> pa_clock api (st_os (fst (snd (read_output_chunk api log_fh w))))"
    using read_chunk_clock [OF assms(1), of w log_fh] assms(2) by (auto simp: since_start_def)
  then show ?thesis using assms(2) by (auto simp: since_start_def read_output_chunk_def split: prod.splits)
qed

lemma selected_since:
  assumes "clock_ok api tick" "since_start api t0 w"
  shows "since_start api t0 (snd (selected api log_fh d w))"
proof -
  obtain ready s where sel: "pa_select api d (st_os (fst w)) = (ready, s)" by (cases "pa_select api d (st_os (fst w))")
  have "0 < tick" "pa_clock api (st_os (fst w)) + tick \<le> pa_clock api s"
    using assms(1) sel unfolding clock_ok_def by (simp, metis snd_conv)
  then have "since_start api t0 ((fst w)\<lparr>st_os := s\<rparr>, snd w)" using assms(2) by (simp add: since_start_def)
  then show ?thesis using read_chunk_since [OF assms(1), of t0 "((fst w)\<lparr>st_os := s\<rparr>, snd w)" log_fh] sel by (simp add: selected_def)
qed

lemma compile_turn_again:
  assumes "compile_turn api timeout inactivity log_fh t0 w = (None, w')"
  obtains d where "w' = snd (selected api log_fh d w)"
proof (cases "over_limit api timeout inactivity t0 w")
  case True
  then have "kill_for_timeout api w = (None, w')" using assms by (simp add: compile_turn_late)
  then show thesis using kill_decides by blast
next
  case False
  obtain d where "compile_turn api timeout inactivity log_fh t0 w =
    (case selected api log_fh d w of
       (False, w) \<Rightarrow> (Some (Inl OSError), w)
     | (True, w) \<Rightarrow> if pa_poll api (st_os (fst w)) \<noteq> None
          then (case read_output_chunk api log_fh w of (ok, w) \<Rightarrow> (Some (if ok then Inr () else Inl OSError), w)) else (None, w))"
    using False by (rule compile_turn_early)
  then show thesis using assms that [of d] by (auto split: prod.splits bool.splits if_splits)
qed

text \<open>What the last turn has seen: an emptied pipe, an expired limit, or the call that failed.\<close>

lemma read_chunk_fails: "read_output_chunk api log_fh w = (False, w') \<Longrightarrow> \<exists>x. pa_read api Out x = (None, st_os (fst w'))"
  using pump_fails [of api "\<lambda>chunk buf. buf @ chunk" merged_console log_fh Out "fst w" "fst w'"]
  by (auto simp: read_output_chunk_def split: prod.splits)

lemma selected_fails: "selected api log_fh d w = (False, w') \<Longrightarrow> \<exists>x. pa_read api Out x = (None, st_os (fst w'))"
  by (auto simp: selected_def split: prod.splits if_splits dest: read_chunk_fails)

lemma kill_fails: "kill_for_timeout api w = (Some (Inl OSError), w') \<Longrightarrow> pa_terminate api (st_os (fst w)) = (False, st_os (fst w'))"
  by (auto simp: kill_for_timeout_def builder_kill_def split: prod.splits bool.splits option.splits)

lemma compile_turn_os_error:
  assumes "compile_turn api timeout inactivity log_fh t0 w = (Some (Inl OSError), w')"
  shows "\<exists>x. pa_read api Out x = (None, st_os (fst w')) \<or> pa_terminate api x = (False, st_os (fst w'))"
proof (cases "over_limit api timeout inactivity t0 w")
  case True
  then show ?thesis using assms kill_fails by (fastforce simp: compile_turn_late)
next
  case False
  obtain d where "compile_turn api timeout inactivity log_fh t0 w =
    (case selected api log_fh d w of
       (False, w) \<Rightarrow> (Some (Inl OSError), w)
     | (True, w) \<Rightarrow> if pa_poll api (st_os (fst w)) \<noteq> None
          then (case read_output_chunk api log_fh w of (ok, w) \<Rightarrow> (Some (if ok then Inr () else Inl OSError), w)) else (None, w))"
    using False by (rule compile_turn_early)
  then have "selected api log_fh d w = (False, w') \<or> (\<exists>w1. read_output_chunk api log_fh w1 = (False, w'))"
    using assms by (auto split: prod.splits bool.splits if_splits)
  then have "\<exists>x. pa_read api Out x = (None, st_os (fst w'))" using selected_fails read_chunk_fails by metis
  then show ?thesis by blast
qed

lemma compile_turn_timeout:
  assumes clk: "clock_ok api tick" and since: "since_start api t0 w"
    and turn: "compile_turn api (Some limit) inactivity log_fh t0 w = (Some (Inl TimeoutError), w')"
  shows "t0 + min limit inactivity \<le> pa_clock api (st_os (fst w'))"
proof -
  have "over_limit api (Some limit) inactivity t0 w"
  proof (rule ccontr)
    assume early: "\<not> over_limit api (Some limit) inactivity t0 w"
    obtain d where "compile_turn api (Some limit) inactivity log_fh t0 w =
      (case selected api log_fh d w of
         (False, w) \<Rightarrow> (Some (Inl OSError), w)
       | (True, w) \<Rightarrow> if pa_poll api (st_os (fst w)) \<noteq> None
            then (case read_output_chunk api log_fh w of (ok, w) \<Rightarrow> (Some (if ok then Inr () else Inl OSError), w)) else (None, w))"
      using early by (rule compile_turn_early)
    then show False using turn by (auto split: prod.splits bool.splits if_splits)
  qed
  moreover have "kill_for_timeout api w = (Some (Inl TimeoutError), w')"
    using compile_turn_late [OF calculation, of log_fh] turn by simp
  ultimately show ?thesis
    using kill_clock [OF clk, of w] since by (auto simp: over_limit_def since_start_def min_def)
qed

lemma compile_turn_drained:
  assumes drain: "drains api unread" and turn: "compile_turn api timeout inactivity log_fh t0 w = (Some (Inr ()), w')"
  shows "unread Out (st_os (fst w')) = []"
proof -
  obtain w1 where "pa_poll api (st_os (fst w1)) \<noteq> None" "read_output_chunk api log_fh w1 = (True, w')"
    using turn
    by (auto simp: compile_turn_def kill_for_timeout_def Let_def split: if_splits option.splits prod.splits bool.splits sum.splits)
  then show ?thesis
    using pump_drains(1) [OF drain, of "fst w1" "\<lambda>chunk buf. buf @ chunk" merged_console log_fh Out "fst w'"]
    by (auto simp: read_output_chunk_def split: prod.splits)
qed

lemma compile_turn_cases:
  assumes proc: "process_ok api" and pipes: "pipes_ok api got" and inv: "compile_inv got log_fh k w"
    and turn: "compile_turn api timeout inactivity log_fh t0 w = (r, w')"
  shows "compile_inv got log_fh k w' \<and> (r = Some (Inr ()) \<longrightarrow> pa_poll api (st_os (fst w')) \<noteq> None) \<and>
    (r = Some (Inl TimeoutError) \<longrightarrow> pa_poll api (st_os (fst w')) \<noteq> None) \<and> (\<forall>e. r = Some (Inl e) \<longrightarrow> e = OSError \<or> e = TimeoutError)"
proof (cases "over_limit api timeout inactivity t0 w")
  case True
  then have kill: "kill_for_timeout api w = (r, w')" using turn compile_turn_late by metis
  from kill_inv [OF pipes inv] kill_ends [OF proc, of w] kill_decides [OF kill] kill show ?thesis by auto
next
  case False
  obtain d where d: "compile_turn api timeout inactivity log_fh t0 w =
    (case selected api log_fh d w of
       (False, w) \<Rightarrow> (Some (Inl OSError), w)
     | (True, w) \<Rightarrow> if pa_poll api (st_os (fst w)) \<noteq> None
          then (case read_output_chunk api log_fh w of (ok, w) \<Rightarrow> (Some (if ok then Inr () else Inl OSError), w)) else (None, w))"
    using False by (rule compile_turn_early)
  obtain ok w1 where sel: "selected api log_fh d w = (ok, w1)" by (cases "selected api log_fh d w")
  obtain ok' w2 where rd: "read_output_chunk api log_fh w1 = (ok', w2)" by (cases "read_output_chunk api log_fh w1")
  have i1: "compile_inv got log_fh k w1" using selected_inv [OF pipes inv, of d] sel by simp
  then have i2: "compile_inv got log_fh k w2" using read_chunk_inv [OF pipes i1] rd by simp
  have e: "pa_poll api (st_os (fst w2)) \<noteq> None" if "pa_poll api (st_os (fst w1)) \<noteq> None"
    using that read_chunk_ended [OF proc, of w1 _ log_fh] rd by auto
  have "(r, w') = (if \<not> ok then (Some (Inl OSError), w1)
      else if pa_poll api (st_os (fst w1)) \<noteq> None then (Some (if ok' then Inr () else Inl OSError), w2) else (None, w1))"
    using turn [symmetric] d sel rd by (cases ok) simp_all
  then show ?thesis using i1 i2 e by (auto split: if_splits)
qed

sublocale timed_processes \<subseteq> compiler: ticking "compile_turn api (Some limit) inactivity log_fh t0" "\<lambda>w. pa_clock api (st_os (fst w))" "t0 + limit" tick
  for limit inactivity log_fh t0
proof
  show "0 < tick" using clock_runs by (simp add: clock_ok_def)
  show "fst (compile_turn api (Some limit) inactivity log_fh t0 w) \<noteq> None" if "t0 + limit \<le> pa_clock api (st_os (fst w))" for w
  proof -
    have "over_limit api (Some limit) inactivity t0 w" using that by (simp add: over_limit_def)
    then show ?thesis using kill_decides [of api w] by (cases "kill_for_timeout api w") (auto simp: compile_turn_late)
  qed
  fix w w' assume turn: "compile_turn api (Some limit) inactivity log_fh t0 w = (None, w')"
  then have early: "\<not> over_limit api (Some limit) inactivity t0 w" using kill_decides [of api w None] compile_turn_late by fastforce
  obtain d where "compile_turn api (Some limit) inactivity log_fh t0 w =
    (case selected api log_fh d w of
       (False, w) \<Rightarrow> (Some (Inl OSError), w)
     | (True, w) \<Rightarrow> if pa_poll api (st_os (fst w)) \<noteq> None
          then (case read_output_chunk api log_fh w of (ok, w) \<Rightarrow> (Some (if ok then Inr () else Inl OSError), w)) else (None, w))"
    using early by (rule compile_turn_early)
  then have "w' = snd (selected api log_fh d w)" using turn by (auto split: prod.splits bool.splits if_splits)
  then show "pa_clock api (st_os (fst w)) + tick \<le> pa_clock api (st_os (fst w'))" using selected_clock [OF clock_runs, of w log_fh d] by simp
qed

context timed_processes
begin

lemma compiler_decides: "\<exists>r t. poll (compile_turn api (Some limit) inactivity log_fh t0) (\<lambda>_. False) (\<lambda>_ w. w) n w = Some (Some r, t)"
  by (rule compiler.decides)

end

definition popen_ok :: "(stream \<Rightarrow> 's \<Rightarrow> 'b list) \<Rightarrow> (string list \<Rightarrow> env \<Rightarrow> 's \<Rightarrow> bool \<times> 's) \<Rightarrow> bool" where
  "popen_ok got popen \<longleftrightarrow> (\<forall>cmd environ s. fst (popen cmd environ s) \<longrightarrow> got Out (snd (popen cmd environ s)) = [])"

text \<open>
  Everything the compiler wrote is on the console, after what was there, and is the content of the log file. How a run
  of the compiler that started in \<open>u\<close> may end in \<open>v\<close>.
\<close>

definition copied ::
  "(stream \<Rightarrow> 's \<Rightarrow> 'b list) \<Rightarrow> (stream \<Rightarrow> 's \<Rightarrow> 'b list) \<Rightarrow> string option \<Rightarrow> 'b sinks \<Rightarrow> 's \<times> 'b sinks \<Rightarrow> bool" where
  "copied got unread log_path k w \<longleftrightarrow>
     (let written = got Out (fst w) @ unread Out (fst w)
      in sk_console_out (snd w) = sk_console_out k @ written \<and> (text_given log_path \<longrightarrow> sk_log (snd w) = written))"

definition compiler_ends ::
  "('s, 'b) process_api \<Rightarrow> (stream \<Rightarrow> 's \<Rightarrow> 'b list) \<Rightarrow> (stream \<Rightarrow> 's \<Rightarrow> 'b list) \<Rightarrow> bool \<times> 's \<Rightarrow> rat \<Rightarrow> string option
     \<Rightarrow> 's \<times> 'b sinks \<Rightarrow> py_error option \<Rightarrow> 's \<times> 'b sinks \<Rightarrow> bool" where
  "compiler_ends api got unread started limit log_path u failure v \<longleftrightarrow>
     (case failure of
        None \<Rightarrow> pa_poll api (fst v) = Some 0 \<and> copied got unread log_path (snd u) v
      | Some AssertionError \<Rightarrow> pa_poll api (fst v) \<notin> {None, Some 0} \<and> copied got unread log_path (snd u) v
      | Some TimeoutError \<Rightarrow> pa_poll api (fst v) \<noteq> None \<and> pa_clock api (snd started) + limit \<le> pa_clock api (fst v)
      | Some OSError \<Rightarrow> started = (False, fst v) \<or> fst started \<and> open_log api log_path (snd started) = (Inl OSError, fst v) \<or>
          (\<exists>x. pa_read api Out x = (None, fst v) \<or> pa_terminate api x = (False, fst v))
      | Some _ \<Rightarrow> False)"

lemma open_log_given: "fst (open_log api log_path s) = Inr b \<Longrightarrow> b = text_given log_path"
  by (auto simp: open_log_def text_given_def split: option.splits list.splits prod.splits if_splits)

lemma stream_compile_decides:
  assumes proc: "process_ok api" and pipes: "pipes_ok api got" and clk: "clock_ok api tick" and drain: "drains api unread"
    and start: "popen_ok got popen"
  obtains r w' where "stream_compile api popen cmd environ (Some limit) inactivity log_path w = Some (r, w')"
    "compiler_ends api got unread (popen cmd environ (fst w)) (min limit inactivity) log_path w (case r of Inl e \<Rightarrow> Some e | Inr _ \<Rightarrow> None) w'"
proof -
  obtain started s1 where popen: "popen cmd environ (fst w) = (started, s1)" by (cases "popen cmd environ (fst w)")
  obtain r0 s2 where lg: "open_log api log_path s1 = (r0, s2)" by (cases "open_log api log_path s1")
  show thesis
  proof (cases "started \<and> (\<exists>h. r0 = Inr h)")
    case False
    then show thesis using popen lg open_log_error [of api log_path s1] that
      by (cases started; cases r0) (auto simp: stream_compile_def compiler_ends_def Let_def)
  next
    case True
    then obtain b where b: "started" "r0 = Inr b" by blast
    have given: "b = text_given log_path" using open_log_given [of api log_path s1] lg b by simp
    let ?k = "if b then (snd w)\<lparr>sk_log := []\<rparr> else snd w"
    let ?t0 = "pa_clock api s1"
    let ?w0 = "(\<lparr>st_os = s2, st_buf = (\<lambda>_. []), st_sinks = ?k\<rparr>, ?t0)"
    let ?turn = "compile_turn api (Some limit) inactivity b ?t0"
    let ?I = "\<lambda>u. compile_inv got b (snd w) u \<and> since_start api ?t0 u"
    have "\<exists>r t. poll ?turn (\<lambda>_. False) (\<lambda>_ w. w) 0 ?w0 = Some (Some r, t)"
      by (rule timed_processes.compiler_decides [OF timed_processes.intro [OF clk]])
    then obtain r w1 where ret: "poll ?turn (\<lambda>_. False) (\<lambda>_ w. w) 0 ?w0 = Some (Some r, w1)" by blast
    have "got Out s2 = []"
      using start popen b(1) open_log_got [OF pipes, of Out log_path s1] lg unfolding popen_ok_def by (metis fst_conv snd_conv)
    then have init: "?I ?w0"
      using open_log_clock [OF clk, of s1 log_path] lg by (simp add: compile_inv_def since_start_def)
    have keep: "?I x'" if "?I x" "?turn x = (None, x')" for x x'
      using that compile_turn_cases [OF proc pipes, of b "snd w" x] selected_since [OF clk, of ?t0 x b]
      by (metis compile_turn_again)
    obtain u where u: "compile_inv got b (snd w) u" "since_start api ?t0 u" "?turn u = (Some r, w1)"
      using poll_result [OF ret, where I = ?I] init keep by blast
    note c = compile_turn_cases [OF proc pipes u(1,3)]
    obtain rc s3 where wt: "pa_wait api (st_os (fst w1)) = (rc, s3)" by (cases "pa_wait api (st_os (fst w1))")
    have ended: "pa_poll api s3 = Some rc" "got Out s3 = got Out (st_os (fst w1))"
      using proc pipes wt unfolding process_ok_def pipes_ok_def by (metis fst_conv snd_conv)+
    have cp: "copied got unread log_path (snd w) (s3, st_sinks (fst w1))" if "r = Inr ()"
    proof -
      have "unread Out s3 = []"
        using compile_turn_drained [OF drain, of "Some limit" inactivity b ?t0 u w1] u(3) c that drain wt
        unfolding drains_def by (metis snd_conv)
      then show ?thesis using c ended(2) given by (simp add: copied_def compile_inv_def)
    qed
    have res: "stream_compile api popen cmd environ (Some limit) inactivity log_path w =
      Some (case r of Inl e \<Rightarrow> (Inl e, st_os (fst w1), st_sinks (fst w1)) | Inr _ \<Rightarrow> (if rc = 0 then Inr () else Inl AssertionError, s3, st_sinks (fst w1)))"
      using popen lg b ret wt by (cases w1; cases r) (simp_all add: stream_compile_def Let_def)
    show thesis
    proof (cases r)
      case (Inl e)
      then have "e = OSError \<or> e = TimeoutError" using c by simp
      then have "compiler_ends api got unread (popen cmd environ (fst w)) (min limit inactivity) log_path w (Some e) (st_os (fst w1), st_sinks (fst w1))"
        using c Inl u(3) popen compile_turn_os_error [of api "Some limit" inactivity b ?t0 u w1]
          compile_turn_timeout [OF clk u(2), of limit inactivity b w1]
        by (auto simp: compiler_ends_def)
      then show thesis using res Inl that by simp
    next
      case (Inr x)
      then show thesis using res cp ended(1) that by (cases "rc = 0") (auto simp: compiler_ends_def)
    qed
  qed
qed

subsection \<open>The lock and the whole compilation\<close>

text \<open>The clock of the host, and the calls of the host that return.\<close>

definition lock_ok :: "'t build_host \<Rightarrow> bool" where
  "lock_ok h \<longleftrightarrow> (\<forall>p t. bh_clock h t \<le> bh_clock h (snd (bh_flock h p t))) \<and> (\<forall>d t. bh_clock h t + d \<le> bh_clock h (bh_sleep h d t))"

definition files_ok :: "'t build_host \<Rightarrow> bool" where
  "files_ok h \<longleftrightarrow> (\<forall>p t. bh_makedirs h p t \<noteq> None) \<and> (\<forall>p t. bh_open_lock h p t \<noteq> None) \<and> (\<forall>p x t. bh_write_text h p x t \<noteq> None)"

lemma flock_polling: "lock_ok h \<Longrightarrow> polling (try_flock h path) (bh_clock h) deadline (\<lambda>_. bh_sleep h 5) 5"
proof
  assume ok: "lock_ok h"
  show "(0 :: rat) < 5" by simp
  show "bh_clock h s \<le> bh_clock h (snd (try_flock h path s))" for s
    using ok unfolding lock_ok_def try_flock_def by (auto split: prod.split flock.split) (metis snd_conv)+
  show "min (bh_clock h s + 5) deadline \<le> bh_clock h (bh_sleep h 5 s)" for s using ok by (simp add: lock_ok_def min.coboundedI1)
qed

lemma wait_flock_decides:
  assumes "lock_ok h"
  obtains r t' where "wait_flock h path timeout t = Some (r, t')" "r = Inr () \<Longrightarrow> \<exists>u. bh_flock h path u = (Locked, t')"
    "\<And>e. r = Inl e \<Longrightarrow> e = TimeoutError \<and> bh_clock h t + timeout \<le> bh_clock h t' \<or> e = OSError \<and> (\<exists>u. bh_flock h path u = (Flock_failed, t'))"
proof -
  let ?d = "bh_clock h t + timeout"
  let ?loop = "poll (try_flock h path) (\<lambda>t. ?d \<le> bh_clock h t) (\<lambda>_. bh_sleep h 5) 0 t"
  obtain q t' where ret: "?loop = Some (q, t')" using polling.returns [OF flock_polling [OF assms]] by blast
  obtain u where u: "try_flock h path u = (q, t')" "q = None \<longrightarrow> ?d \<le> bh_clock h t'"
    using poll_result [OF ret, where I = "\<lambda>_. True"] by blast
  have q: "q = None \<or> q = Some (Inr ()) \<and> bh_flock h path u = (Locked, t') \<or> q = Some (Inl OSError) \<and> bh_flock h path u = (Flock_failed, t')"
    using u(1) by (auto simp: try_flock_def split: prod.splits flock.splits)
  have "wait_flock h path timeout t = Some (case q of None \<Rightarrow> Inl TimeoutError | Some r \<Rightarrow> r, t')"
    using ret by (simp add: wait_flock_def Let_def)
  then show thesis using that u(2) q by (cases q) auto
qed

text \<open>How the lock is refused, and how it is taken, from the state in which its file is opened.\<close>

definition lock_refused :: "'t build_host \<Rightarrow> string \<Rightarrow> rat \<Rightarrow> 't \<Rightarrow> py_error \<Rightarrow> 't \<Rightarrow> bool" where
  "lock_refused h path timeout t e t' \<longleftrightarrow>
     bh_open_lock h path t = Some (Inl e, t') \<or>
     (\<exists>t0. bh_open_lock h path t = Some (Inr (), t0) \<and> wait_flock h path timeout t0 = Some (Inl e, t') \<and>
        (e = TimeoutError \<and> bh_clock h t0 + timeout \<le> bh_clock h t' \<or> e = OSError \<and> (\<exists>u. bh_flock h path u = (Flock_failed, t'))))"

definition lock_taken :: "'t build_host \<Rightarrow> string \<Rightarrow> rat \<Rightarrow> 't \<Rightarrow> 't \<Rightarrow> bool" where
  "lock_taken h path timeout t u \<longleftrightarrow>
     (\<exists>t0 x. bh_open_lock h path t = Some (Inr (), t0) \<and> wait_flock h path timeout t0 = Some (Inr (), u) \<and> bh_flock h path x = (Locked, u))"

lemma with_flock_decides:
  assumes lock: "lock_ok h" and opens: "bh_open_lock h path t \<noteq> None" and body: "\<And>u. body u \<noteq> None"
  obtains (failed) e t' where "with_flock h path timeout body t = Some (Inl e, t')" "lock_refused h path timeout t e t'"
  | (locked) r u v where "with_flock h path timeout body t = Some (r, bh_unlock h path v)" "lock_taken h path timeout t u" "body u = Some (r, v)"
proof -
  obtain r0 t0 where o0: "bh_open_lock h path t = Some (r0, t0)" using opens by auto
  show thesis
  proof (cases r0)
    case (Inl e)
    then show thesis using failed o0 by (simp add: with_flock_def act_bind_def lock_refused_def)
  next
    case (Inr x)
    obtain r1 t1 where w: "wait_flock h path timeout t0 = Some (r1, t1)" "r1 = Inr () \<Longrightarrow> \<exists>u. bh_flock h path u = (Locked, t1)"
      "\<And>e. r1 = Inl e \<Longrightarrow> e = TimeoutError \<and> bh_clock h t0 + timeout \<le> bh_clock h t1 \<or> e = OSError \<and> (\<exists>u. bh_flock h path u = (Flock_failed, t1))"
      using wait_flock_decides [OF lock, of path timeout t0] by metis
    obtain r v where b: "body t1 = Some (r, v)" using body [of t1] by auto
    show thesis
    proof (cases r1)
      case e: (Inl e)
      then have "lock_refused h path timeout t e t1" using o0 Inr w by (auto simp: lock_refused_def)
      then show thesis using failed o0 Inr w(1) e by (simp add: with_flock_def act_bind_def)
    next
      case y: (Inr y)
      then have "lock_taken h path timeout t t1" using o0 Inr w by (auto simp: lock_taken_def)
      then show thesis using locked [OF _ _ b] o0 Inr w(1) y b by (simp add: with_flock_def act_bind_def act_finally_def act_do_def)
    qed
  qed
qed

lemma skip_log_returns:
  assumes "files_ok h"
  shows "write_build_skip_log h ts log_path src binary t \<noteq> None"
proof -
  obtain r t' where "bh_makedirs h (path_parent log_path) t = Some (r, t')" using assms unfolding files_ok_def by fastforce
  then show ?thesis using assms unfolding files_ok_def write_build_skip_log_def act_bind_def by (cases r) simp_all
qed

text \<open>
  What happens under the lock: the binary is current, and at most the log entry about it can fail; or its age, or the command
  line, cannot be had; or the compiler is run, and ends as \<open>compiler_ends\<close> says.
\<close>

definition body_ends ::
  "('s \<times> 'b sinks) build_host \<Rightarrow> ('s, 'b) process_api \<Rightarrow> (stream \<Rightarrow> 's \<Rightarrow> 'b list) \<Rightarrow> (stream \<Rightarrow> 's \<Rightarrow> 'b list) \<Rightarrow>
     (string list \<Rightarrow> env \<Rightarrow> 's \<Rightarrow> bool \<times> 's) \<Rightarrow> string \<Rightarrow> string \<Rightarrow> string \<Rightarrow> compile_options \<Rightarrow> rat
     \<Rightarrow> 's \<times> 'b sinks \<Rightarrow> py_error option \<Rightarrow> 's \<times> 'b sinks \<Rightarrow> bool" where
  "body_ends h api got unread popen ts src output o1 limit u failure v \<longleftrightarrow>
     bh_isfile h output u \<and> (\<exists>b s. bh_getmtime h output u = Inr b \<and> bh_getmtime h src u = Inr s \<and> s < b) \<and>
       (failure = None \<or> text_given (co_log_path o1) \<and>
          (\<exists>e. failure = Some e \<and> write_build_skip_log h ts (the (co_log_path o1)) src output u = Some (Inl e, v))) \<or>
     bh_isfile h output u \<and> v = u \<and> (\<exists>e. failure = Some e \<and> (bh_getmtime h output u = Inl e \<or> bh_getmtime h src u = Inl e)) \<or>
     (\<not> bh_isfile h output u \<or> (\<exists>b s. bh_getmtime h output u = Inr b \<and> bh_getmtime h src u = Inr s \<and> b \<le> s)) \<and>
       (case build_cmd o1 (co_include_dirs o1) src output of
          Inl e \<Rightarrow> failure = Some e \<and> v = u
        | Inr cmd \<Rightarrow> compiler_ends api got unread (popen cmd (compiler_env (bh_environ h)) (fst u)) limit (co_log_path o1) u failure v)"

abbreviation failure_of :: "py_error + 'a \<Rightarrow> py_error option" where
  "failure_of r \<equiv> (case r of Inl e \<Rightarrow> Some e | Inr _ \<Rightarrow> None)"

lemma compile_body_decides:
  assumes proc: "process_ok api" and pipes: "pipes_ok api got" and clk: "clock_ok api tick" and drain: "drains api unread"
    and start: "popen_ok got popen" and files: "files_ok h" and limit: "co_timeout o1 = Some limit"
  obtains r v where "compile_body h api popen ts src output o1 u = Some (r, v)" "\<forall>p. r = Inr p \<longrightarrow> p = output"
    "body_ends h api got unread popen ts src output o1 (min limit (co_inactivity_timeout o1)) u (failure_of r) v"
proof -
  obtain c where c: "is_up_to_date h src output u = Some (c, u)"
  proof -
    have "\<exists>c. is_up_to_date h src output u = Some (c, u)" by (simp add: is_up_to_date_def split: sum.split)
    then show thesis using that by blast
  qed
  consider (fail) e where "c = Inl e" | (current) "c = Inr True" | (compile) "c = Inr False" by (cases c) auto
  then show thesis
  proof cases
    case fail
    then show thesis using that [of "Inl e" u] c
      by (auto simp: compile_body_def act_bind_def body_ends_def is_up_to_date_def split: if_splits sum.splits)
  next
    case current
    obtain r v where sk: "act_when (text_given (co_log_path o1)) (write_build_skip_log h ts (the (co_log_path o1)) src output) u = Some (r, v)"
      using skip_log_returns [OF files, of ts "the (co_log_path o1)" src "output" u] that
      by (cases "text_given (co_log_path o1)") (auto simp: act_when_def act_return_def)
    have "body_ends h api got unread popen ts src output o1 (min limit (co_inactivity_timeout o1)) u (failure_of r) v"
      using c current sk by (auto simp: body_ends_def is_up_to_date_def act_when_def act_return_def split: if_splits sum.splits)
    then show thesis using that c current sk by (cases r) (auto simp: compile_body_def act_bind_def act_return_def)
  next
    case compile
    then have stale: "\<not> bh_isfile h output u \<or> (\<exists>b s. bh_getmtime h output u = Inr b \<and> bh_getmtime h src u = Inr s \<and> b \<le> s)"
      using c by (auto simp: is_up_to_date_def split: if_splits sum.splits)
    show thesis
    proof (cases "build_cmd o1 (co_include_dirs o1) src output")
      case (Inl e)
      then show thesis using that [of "Inl e" u] c compile stale
        by (simp add: compile_body_def act_bind_def act_lift_def act_raise_def body_ends_def)
    next
      case (Inr cmd)
      obtain r v where run: "stream_compile api popen cmd (compiler_env (bh_environ h)) (Some limit) (co_inactivity_timeout o1) (co_log_path o1) u = Some (r, v)"
        and res: "compiler_ends api got unread (popen cmd (compiler_env (bh_environ h)) (fst u)) (min limit (co_inactivity_timeout o1))
          (co_log_path o1) u (failure_of r) v"
        by (rule stream_compile_decides [OF proc pipes clk drain start])
      have "body_ends h api got unread popen ts src output o1 (min limit (co_inactivity_timeout o1)) u (failure_of r) v"
        using stale Inr res by (simp add: body_ends_def)
      then show thesis
        using that c compile Inr run limit
        by (cases r) (auto simp: compile_body_def act_bind_def act_lift_def act_return_def)
    qed
  qed
qed

lemma compile_body_returns:
  assumes "process_ok api" "pipes_ok api got" "clock_ok api tick" "drains api unread" "popen_ok got popen" "files_ok h" "co_timeout o1 = Some limit"
  shows "compile_body h api popen ts src output o1 u \<noteq> None"
proof -
  obtain r v where "compile_body h api popen ts src output o1 u = Some (r, v)" by (rule compile_body_decides [OF assms])
  then show ?thesis by simp
qed

text \<open>
  C36. \<open>BinaryBuilder.compile\<close> on the local host, with a wall-clock limit (its default is 7200 seconds), always returns.
  Either the output directory cannot be made, or the lock file cannot be opened, or the lock is not had: \<open>flock\<close> failed, or
  the limit had passed. Otherwise the lock is taken, and it is released as the last step whatever happens under it.
  Under it, the call returns the path of the binary only when the binary is newer than the source, or when the
  compiler has ended with exit code 0; then the console has got everything the compiler wrote, and it is the content of
  the log. The same holds of an \<open>AssertionError\<close>, with an exit code other than 0. A \<open>TimeoutError\<close> is raised after the smaller of the
  limit and the inactivity limit at the earliest, with the compiler dead; an \<open>OSError\<close> only when the compiler did not start, its log could
  not be opened, its pipe could not be read or it could not be signalled. There are no other exceptions than those of the
  file times, of the log entry for a current binary, and of an ambiguous compiler path.
\<close>

theorem compile_decides:
  assumes "process_ok api" "pipes_ok api got" "clock_ok api tick" "drains api unread" "popen_ok got popen" "lock_ok h" "files_ok h"
    and "co_timeout o1 = Some limit"
  shows "\<exists>r w'. compile h api popen ts None src output o1 w = Some (r, w') \<and> (\<forall>p. r = Inr p \<longrightarrow> p = output) \<and>
    (case bh_makedirs h (os_dirname (bh_abspath h output)) w of
       None \<Rightarrow> False
     | Some (Inl e, t) \<Rightarrow> r = Inl e \<and> w' = t
     | Some (Inr _, t) \<Rightarrow>
         (\<exists>e. r = Inl e \<and> lock_refused h (output @ ''.lock'') limit t e w') \<or>
         (\<exists>u v. lock_taken h (output @ ''.lock'') limit t u \<and> w' = bh_unlock h (output @ ''.lock'') v \<and>
            body_ends h api got unread popen ts src output o1 (min limit (co_inactivity_timeout o1)) u (failure_of r) v))"
proof -
  let ?body = "compile_body h api popen ts src output o1"
  note body = compile_body_returns [OF assms(1-5,7,8)]
  have "bh_makedirs h (os_dirname (bh_abspath h output)) w \<noteq> None" using assms(7) unfolding files_ok_def by blast
  then obtain r0 t0 where mk: "bh_makedirs h (os_dirname (bh_abspath h output)) w = Some (r0, t0)"
    by (cases "bh_makedirs h (os_dirname (bh_abspath h output)) w") auto
  have opens: "bh_open_lock h (output @ ''.lock'') t0 \<noteq> None" using assms(7) unfolding files_ok_def by blast
  have run: "compile h api popen ts None src output o1 w =
    (case r0 of Inl e \<Rightarrow> Some (Inl e, t0) | Inr _ \<Rightarrow> with_flock h (output @ ''.lock'') limit ?body t0)"
    using mk assms(8) by (cases r0) (simp_all add: compile_def compile_local_def act_bind_def)
  show ?thesis
  proof (cases r0)
    case (Inl e)
    then show ?thesis using run mk by simp
  next
    case (Inr x)
    show ?thesis
    proof (rule with_flock_decides [OF assms(6) opens body, of limit])
      fix r u v
      assume locked: "with_flock h (output @ ''.lock'') limit ?body t0 = Some (r, bh_unlock h (output @ ''.lock'') v)"
        "lock_taken h (output @ ''.lock'') limit t0 u" "?body u = Some (r, v)"
      obtain r' v' where b: "?body u = Some (r', v')" "\<forall>p. r' = Inr p \<longrightarrow> p = output"
        "body_ends h api got unread popen ts src output o1 (min limit (co_inactivity_timeout o1)) u (failure_of r') v'"
        by (rule compile_body_decides [OF assms(1-5,7,8)])
      have same: "r' = r" "v' = v" using locked(3) b(1) by simp_all
      have "compile h api popen ts None src output o1 w = Some (r, bh_unlock h (output @ ''.lock'') v)" using run Inr locked(1) by simp
      then show ?thesis using mk Inr locked(2) b(2,3) unfolding same by (auto simp del: split_paired_Ex)
    next
      fix e t' assume "with_flock h (output @ ''.lock'') limit ?body t0 = Some (Inl e, t')" "lock_refused h (output @ ''.lock'') limit t0 e t'"
      then show ?thesis using run mk Inr by (auto simp del: split_paired_Ex)
    qed
  qed
qed

definition demo_host :: "(demo_process \<times> char sinks) build_host" where
  "demo_host = \<lparr>bh_clock = dp_clock \<circ> fst, bh_sleep = (\<lambda>d (s, k). (s\<lparr>dp_clock := dp_clock s + d\<rparr>, k)), bh_open_lock = (\<lambda>_. act_return ()),
     bh_flock = (\<lambda>_ t. (Locked, t)), bh_unlock = (\<lambda>_ t. t), bh_environ = [(''HIP_VISIBLE_DEVICES'', ''3'')], bh_cpu_count = Some 8, bh_tempdir = ''/tmp'',
     bh_abspath = path_join ''/home/w'', bh_resolve = path_join ''/home/w'', bh_makedirs = (\<lambda>_. act_return ()), bh_rmtree = (\<lambda>_ t. t),
     bh_exists = (\<lambda>_ _. True), bh_isfile = (\<lambda>p _. p = ''out/k''), bh_isdir = (\<lambda>_ _. True), bh_executable = (\<lambda>_ _. False),
     bh_getmtime = (\<lambda>p _. Inr (if p = ''out/k'' then 2 else 1)), bh_read_text = (\<lambda>_. act_return []), bh_write_text = (\<lambda>_ _. act_return ()),
     bh_which = (\<lambda>_ _. None), bh_glob = (\<lambda>_ _. []), bh_run = (\<lambda>_ _ _ _. act_raise OSError), bh_shell = (\<lambda>_ _. act_raise OSError)\<rparr>"

definition demo_options :: compile_options where
  "demo_options = \<lparr>co_hipcc = None, co_rocm_dir = Some ''/opt/rocm'', co_std = ''c++17'', co_opt = ''-O2'', co_arch = None, co_include_dirs = [],
     co_extra_flags = [], co_timeout = Some 60, co_inactivity_timeout = 10, co_log_path = None\<rparr>"

definition demo_popen :: "string list \<Rightarrow> env \<Rightarrow> demo_process \<Rightarrow> bool \<times> demo_process" where
  "demo_popen cmd environ s = (True, s\<lparr>dp_pending := [], dp_got := [], dp_exit := None\<rparr>)"

lemma demo_host_ok: "lock_ok demo_host" "files_ok demo_host" "popen_ok demo_got demo_popen"
  by (simp_all add: lock_ok_def files_ok_def popen_ok_def demo_host_def demo_popen_def demo_got_def act_return_def)

definition demo_compile_start :: "demo_process \<times> char sinks" where
  "demo_compile_start = (demo_start, no_sinks\<lparr>sk_console_out := ''$ ''\<rparr>)"

lemma compile_decides_witness:
  "\<exists>u v. lock_taken demo_host ''out/j.lock'' 60 demo_compile_start u \<and>
     compile demo_host demo_api demo_popen ''12:00'' None ''j.cpp'' ''out/j'' demo_options demo_compile_start = Some (Inl AssertionError, v) \<and>
     pa_poll demo_api (fst v) = Some 3 \<and> copied demo_got demo_unread None (snd u) v"
proof -
  let ?run = "compile demo_host demo_api demo_popen ''12:00'' None ''j.cpp'' ''out/j'' demo_options demo_compile_start"
  have "map_option (\<lambda>(r, s, k). (r, dp_exit s)) ?run = Some (Inl AssertionError, Some 3)" by code_simp
  then obtain v where run: "?run = Some (Inl AssertionError, v)" "dp_exit (fst v) = Some 3" by (cases ?run) auto
  have limit: "co_timeout demo_options = Some 60" by (simp add: demo_options_def)
  have host: "bh_makedirs demo_host p w = Some (Inr (), w)" "bh_open_lock demo_host p w = Some (Inr (), w)" "bh_unlock demo_host p w = w"
    "\<not> bh_isfile demo_host ''out/j'' w" for p w
    by (simp_all add: demo_host_def act_return_def)
  have opts: "co_log_path demo_options = None" by (simp add: demo_options_def)
  obtain cmd where cmd: "build_cmd demo_options (co_include_dirs demo_options) ''j.cpp'' ''out/j'' = Inr cmd"
    by (simp add: demo_options_def build_cmd_def resolved_hipcc_def)
  have "\<exists>u. lock_taken demo_host ''out/j.lock'' 60 demo_compile_start u \<and> copied demo_got demo_unread None (snd u) v"
    using compile_decides [OF demo_api_ok demo_drains demo_host_ok(3,1,2) limit, of "''12:00''" "''j.cpp''" "''out/j''" demo_compile_start]
    by (auto simp: run host opts cmd lock_refused_def body_ends_def compiler_ends_def)
  then show ?thesis using run by (auto simp: demo_api_def)
qed

end
