(* ===== verification/ExtBuild.thy ===== *)
theory ExtBuild
  imports Builder
begin

text \<open>
  \<open>framework/builder/binary_builder.py\<close>, second part: CMake projects, MPI, external checkouts, \<open>make\<close> and autotools builds, on
  the local host or on a remote one, and the fingerprints that decide whether a build can be reused.
\<close>

text \<open>\<open>hashlib.sha256(...).hexdigest()\<close>, \<open>json.dumps\<close> and \<open>json.loads\<close>, which is \<open>None\<close> for its \<open>ValueError\<close>.\<close>

record codec =
  cd_sha256 :: "string \<Rightarrow> string"
  cd_dumps :: "pyval \<Rightarrow> string"
  cd_loads :: "string \<Rightarrow> pyval option"

subsection \<open>Remote paths and files\<close>

definition remote_abspath :: "'t remote_executor \<Rightarrow> string \<Rightarrow> string \<Rightarrow> (string, 't) act" where
  "remote_abspath re path category =
     act_bind (if re_has_root re then act_bind (re_root re) (\<lambda>ws. act_return (startswith path ws)) else act_return False) (\<lambda>managed.
       if managed then act_return path
       else if re_has_workspace re then re_workspace_path_for re path category
       else if startswith path ''/'' then act_return path
       else act_bind (re_sh re ''echo $HOME'' 10) (\<lambda>r.
         act_return (py_strip (er_stdout r) @ ''/'' @ remote_workspace_dir @ ''/'' @ category_root category @ ''/'' @ path)))"

definition abspath_for :: "'t build_host \<Rightarrow> 't remote_executor option \<Rightarrow> string \<Rightarrow> (string, 't) act" where
  "abspath_for h remote path =
     (case remote of Some re \<Rightarrow> remote_abspath re (as_posix path) ''work'' | None \<Rightarrow> act_return (bh_resolve h path))"

definition remote_test :: "'t remote_executor \<Rightarrow> string \<Rightarrow> string \<Rightarrow> rat \<Rightarrow> (bool, 't) act" where
  "remote_test re flag path timeout = act_bind (re_sh re (''test '' @ flag @ '' '' @ shlex_quote path) timeout) (\<lambda>r. act_return (er_ok r))"

definition path_is_file :: "'t build_host \<Rightarrow> 't remote_executor option \<Rightarrow> string \<Rightarrow> (bool, 't) act" where
  "path_is_file h remote path =
     (case remote of Some re \<Rightarrow> remote_test re ''-f'' path 30 | None \<Rightarrow> act_get (bh_isfile h path))"

definition build_artifact_exists :: "'t build_host \<Rightarrow> 't remote_executor option \<Rightarrow> string \<Rightarrow> string \<Rightarrow> (bool, 't) act" where
  "build_artifact_exists h remote build_dir artifact =
     (case remote of
        Some re \<Rightarrow> act_bind (remote_abspath re build_dir ''work'') (\<lambda>d. remote_test re ''-f'' (path_div d artifact) 15)
      | None \<Rightarrow> act_get (bh_exists h (path_div build_dir artifact)))"

definition wipe_build_dir :: "'t build_host \<Rightarrow> 't remote_executor option \<Rightarrow> string \<Rightarrow> (unit, 't) act" where
  "wipe_build_dir h remote build_dir =
     (case remote of
        Some re \<Rightarrow> act_bind (remote_abspath re build_dir ''work'') (\<lambda>d. act_bind (re_sh re (''rm -rf '' @ shlex_quote d) 120) (\<lambda>_. act_return ()))
      | None \<Rightarrow> act_do (bh_rmtree h build_dir))"

definition require_gpu_arch :: "string option \<Rightarrow> py_error + unit" where
  "require_gpu_arch gpu_arch = (if gpu_arch = None then Inl PytestFail else Inr ())"

definition assert_binary_exists :: "'t build_host \<Rightarrow> 't remote_executor option \<Rightarrow> string \<Rightarrow> (string, 't) act" where
  "assert_binary_exists h remote path =
     act_bind (case remote of Some re \<Rightarrow> remote_test re ''-f'' path 15 | None \<Rightarrow> act_get (bh_isfile h path))
       (\<lambda>found. act_bind (act_require found AssertionError) (\<lambda>_. act_return path))"

subsection \<open>CMake\<close>

record cmake_options =
  cm_gpu_arch :: "string option"
  cm_gpu_arch_var :: string
  cm_compiler_args :: "string list"
  cm_extra_cmake_args :: "string list"
  cm_sync_dirs :: "string list"
  cm_parallel_jobs :: "int option"
  cm_target :: "string option"
  cm_tolerate :: bool
  cm_build_artifact :: "string option"

definition cmake_paths :: "'t build_host \<Rightarrow> 't remote_executor option \<Rightarrow> string \<Rightarrow> string \<Rightarrow> string list \<Rightarrow> (string \<times> string, 't) act" where
  "cmake_paths h remote src build_dir sync_dirs =
     (case remote of
        None \<Rightarrow> act_return (bh_resolve h src, as_posix (bh_abspath h build_dir))
      | Some re \<Rightarrow>
          if sync_dirs = [] then act_bind (remote_abspath re (as_posix build_dir) ''work'') (\<lambda>b. act_return (src, as_posix b))
          else act_bind (re_remote_path_for re (bh_abspath h src)) (\<lambda>s.
               act_bind (re_root re) (\<lambda>ws.
               act_bind (if startswith build_dir ws then act_return build_dir else re_remote_path_for re (bh_abspath h build_dir))
                 (\<lambda>b. act_return (s, as_posix b)))))"

definition configure_cmd :: "cmake_options \<Rightarrow> string \<Rightarrow> string \<Rightarrow> string \<Rightarrow> string list" where
  "configure_cmd o1 src build rocm =
     [''cmake'', ''-S'', src, ''-B'', build, ''-DROCM_PATH='' @ rocm, ''-DCMAKE_PREFIX_PATH='' @ rocm] @ cm_compiler_args o1 @
     (if text_given (cm_gpu_arch o1) then [''-D'' @ cm_gpu_arch_var o1 @ ''='' @ the (cm_gpu_arch o1)] else []) @ cm_extra_cmake_args o1"

definition cmake_build_cmd :: "cmake_options \<Rightarrow> string \<Rightarrow> int \<Rightarrow> string list" where
  "cmake_build_cmd o1 build jobs =
     [''cmake'', ''--build'', build, ''--parallel'', show_int jobs] @ (case cm_target o1 of None \<Rightarrow> [] | Some t \<Rightarrow> [''--target'', t]) @
     (if cm_tolerate o1 then [''--'', ''-k''] else [])"

definition cmake_cache_mismatch :: "string \<Rightarrow> bool" where
  "cmake_cache_mismatch out \<longleftrightarrow>
     contains_str ''you have changed variables that require your cache to be deleted'' (py_lower out) \<or>
     contains_str ''cmakecache.txt'' (py_lower out) \<and> contains_str ''different'' (py_lower out)"

definition stale_cache :: "execution_result \<Rightarrow> bool" where
  "stale_cache r = cmake_cache_mismatch (er_stdout r @ [newline] @ er_stderr r)"

text \<open>
  Configuring, with one retry in an empty directory when CMake says that its cache is stale, and building, where a failure
  may be tolerated when the sentinel was built. \<open>err\<close> is the exception of the side the build runs on.
\<close>

definition cmake_configure :: "(execution_result, 't) act \<Rightarrow> (unit, 't) act \<Rightarrow> py_error \<Rightarrow> (unit, 't) act" where
  "cmake_configure configure clean err =
     act_bind configure (\<lambda>r.
       if er_ok r then act_return ()
       else if stale_cache r then act_bind clean (\<lambda>_. act_bind configure (\<lambda>r. act_require (er_ok r) err))
       else act_raise err)"

definition cmake_compile :: "(execution_result, 't) act \<Rightarrow> (string \<Rightarrow> (bool, 't) act) \<Rightarrow> cmake_options \<Rightarrow> py_error \<Rightarrow> (unit, 't) act" where
  "cmake_compile build artifact o1 err =
     act_bind build (\<lambda>r.
       if er_ok r then act_return ()
       else if cm_tolerate o1 \<and> cm_build_artifact o1 \<noteq> None
       then act_bind (artifact (the (cm_build_artifact o1))) (\<lambda>found. act_require found err)
       else act_raise err)"

definition upload_all :: "'t remote_executor \<Rightarrow> string list \<Rightarrow> (unit, 't) act" where
  "upload_all re ds = act_bind (act_map (re_upload_tree re) ds) (\<lambda>_. act_return ())"

definition cmake_remote :: "'t build_host \<Rightarrow> 't remote_executor \<Rightarrow> cmake_options \<Rightarrow> string \<Rightarrow> string list \<Rightarrow> string list \<Rightarrow> string \<Rightarrow> (unit, 't) act" where
  "cmake_remote h re o1 rocm configure build_command build =
     act_bind (upload_all re (cm_sync_dirs o1)) (\<lambda>_.
     act_bind (re_run re (''mkdir -p '' @ shlex_quote build) None [] False) (\<lambda>mk.
     act_bind (act_require (er_ok mk) RuntimeError) (\<lambda>_.
     act_bind (cmake_configure (re_run re (shlex_join configure) (Some 600) [(''ROCM_PATH'', rocm)] False)
         (act_bind (re_run re (''rm -rf '' @ shlex_quote build @ '' && mkdir -p '' @ shlex_quote build) None [] False) (\<lambda>_. act_return ()))
         RuntimeError) (\<lambda>_.
     cmake_compile (re_run re (shlex_join build_command) (Some 7200) [] True) (build_artifact_exists h (Some re) build) o1 RuntimeError))))"

definition cmake_local :: "'t build_host \<Rightarrow> cmake_options \<Rightarrow> string \<Rightarrow> string list \<Rightarrow> string list \<Rightarrow> string \<Rightarrow> (unit, 't) act" where
  "cmake_local h o1 rocm configure build_command build =
     (let environ = dict_set ''ROCM_PATH'' rocm (bh_environ h)
      in act_bind (bh_makedirs h build) (\<lambda>_.
         act_bind (cmake_configure (bh_run h configure None environ None)
             (act_bind (act_do (bh_rmtree h build)) (\<lambda>_. bh_makedirs h build)) AssertionError) (\<lambda>_.
         cmake_compile (bh_run h build_command None environ (Some 7200)) (build_artifact_exists h None build) o1 AssertionError)))"

definition cmake_build :: "'t build_host \<Rightarrow> 't remote_executor option \<Rightarrow> string \<Rightarrow> string \<Rightarrow> string \<Rightarrow> cmake_options \<Rightarrow> (string, 't) act" where
  "cmake_build h remote src build_dir rocm o1 =
     act_bind (cmake_paths h remote src build_dir (cm_sync_dirs o1)) (\<lambda>(src_path, build).
     act_bind (resolve_parallel_jobs h (cm_parallel_jobs o1) remote) (\<lambda>jobs.
     act_bind
       (case remote of
          Some re \<Rightarrow> cmake_remote h re o1 rocm (configure_cmd o1 src_path build rocm) (cmake_build_cmd o1 build jobs) build
        | None \<Rightarrow> cmake_local h o1 rocm (configure_cmd o1 src_path build rocm) (cmake_build_cmd o1 build jobs) build)
       (\<lambda>_. act_return build)))"

subsection \<open>MPI\<close>

definition known_mpi_prefixes :: "(string \<times> string \<times> string) list" where
  "known_mpi_prefixes =
     [(''/usr/lib64/openmpi/bin/mpirun'', ''/usr/include/openmpi-x86_64'', ''/usr/lib64/openmpi/lib''),
      (''/usr/lib64/mpi/gcc/openmpi2/bin/mpirun'', ''/usr/lib64/mpi/gcc/openmpi2/include'', ''/usr/lib64/mpi/gcc/openmpi2/lib64'')]"

record mpi_runtime =
  mr_launcher :: string
  mr_env :: env

definition mpi_env :: "string \<Rightarrow> string \<Rightarrow> string \<Rightarrow> env" where
  "mpi_env home include_dir libs =
     [(''MPI_HOME'', home), (''C_INCLUDE_PATH'', include_dir), (''CPLUS_INCLUDE_PATH'', include_dir), (''LD_LIBRARY_PATH'', libs)]"

definition mpi_env_for_launcher :: "string \<Rightarrow> env" where
  "mpi_env_for_launcher launcher =
     (let home = path_parent (path_parent launcher)
      in case map_of known_mpi_prefixes launcher of
           Some (include_dir, lib) \<Rightarrow> mpi_env home include_dir lib
         | None \<Rightarrow>
             if path_name launcher = ''mpirun'' \<and> path_name (path_parent launcher) = ''bin''
             then mpi_env home (path_div home ''include'') (path_div home ''lib'' @ '':'' @ path_div home ''lib64'')
             else [])"

definition mpi_at :: "string \<Rightarrow> mpi_runtime" where
  "mpi_at launcher = \<lparr>mr_launcher = launcher, mr_env = mpi_env_for_launcher launcher\<rparr>"

fun probe_launchers :: "(string \<Rightarrow> (bool, 't) act) \<Rightarrow> string list \<Rightarrow> (mpi_runtime option, 't) act" where
  "probe_launchers probe [] = act_return None"
| "probe_launchers probe (l # ls) =
     act_bind (probe l) (\<lambda>found. if found then act_return (Some (mpi_at l)) else probe_launchers probe ls)"

definition detect_mpi_runtime :: "'t build_host \<Rightarrow> 't remote_executor option \<Rightarrow> (mpi_runtime option, 't) act" where
  "detect_mpi_runtime h remote =
     (case remote of
        Some re \<Rightarrow>
          act_bind (re_sh re ''command -v mpirun'' 15) (\<lambda>r.
            case text_of_run r of
              Some l \<Rightarrow> act_return (Some (mpi_at l))
            | None \<Rightarrow> probe_launchers (\<lambda>l. remote_test re ''-x'' l 15) (map fst known_mpi_prefixes))
      | None \<Rightarrow>
          act_bind (act_get (bh_which h ''mpirun'')) (\<lambda>l.
            if text_given l then act_return (Some (mpi_at (the l)))
            else probe_launchers (\<lambda>l. act_get (bh_executable h l)) (map fst known_mpi_prefixes)))"

definition openmpi_url :: "string \<Rightarrow> string" where
  "openmpi_url version = ''https://download.open-mpi.org/release/open-mpi/v'' @ join_with ''.'' (take 2 (split_on (CHR ''.'') version)) @
     ''/openmpi-'' @ version @ ''.tar.gz''"

text \<open>The script of a remote build, with its paths as they are, and of a local one, with its paths quoted.\<close>

definition openmpi_remote_script :: "string \<Rightarrow> string \<Rightarrow> string \<Rightarrow> string \<Rightarrow> string \<Rightarrow> string \<Rightarrow> string" where
  "openmpi_remote_script version sha ws src install tarball =
     ''rm -rf '' @ src @ '' '' @ ws @ ''/openmpi-'' @ version @ '' && mkdir -p '' @ ws @ '' '' @ install @
     '' && curl -fsSL '' @ openmpi_url version @ '' -o '' @ tarball @
     (if sha = [] then [] else '' && echo '' @ quoted_word (sha @ ''  '' @ tarball) @ '' | sha256sum -c -'') @
     '' && tar -xzf '' @ tarball @ '' -C '' @ ws @ '' && mv '' @ ws @ ''/openmpi-'' @ version @ '' '' @ src @ '' && cd '' @ src @
     '' && ./configure --prefix='' @ install @ '' --with-hwloc=internal --disable-mpi-fortran && make -j$(nproc) && make install''"

definition openmpi_local_script :: "string \<Rightarrow> string \<Rightarrow> string \<Rightarrow> string \<Rightarrow> string \<Rightarrow> string \<Rightarrow> int \<Rightarrow> string" where
  "openmpi_local_script version sha ws src install tarball jobs =
     ''curl -fsSL '' @ shlex_quote (openmpi_url version) @ '' -o '' @ shlex_quote tarball @
     (if sha = [] then [] else '' && echo '' @ shlex_quote (sha @ ''  '' @ tarball) @ '' | sha256sum -c -'') @
     '' && tar -xzf '' @ shlex_quote tarball @ '' -C '' @ shlex_quote ws @ '' && mv '' @ shlex_quote (path_div ws (''openmpi-'' @ version)) @ '' '' @
     shlex_quote src @ '' && cd '' @ shlex_quote src @ '' && ./configure --prefix='' @ shlex_quote install @
     '' --with-hwloc=internal --disable-mpi-fortran && make -j'' @ show_int jobs @ '' && make install''"

definition openmpi_root :: "string \<Rightarrow> string \<Rightarrow> string" where
  "openmpi_root build_dir version = foldl path_div build_dir [''mpi'', ''openmpi-'' @ version]"

definition provision_openmpi_remote :: "'t remote_executor \<Rightarrow> string \<Rightarrow> string \<Rightarrow> string \<Rightarrow> rat \<Rightarrow> (mpi_runtime, 't) act" where
  "provision_openmpi_remote re build_dir version sha timeout =
     (let ws = openmpi_root build_dir version
      in act_bind (remote_abspath re ws ''work'') (\<lambda>abs_root.
         act_bind (remote_abspath re (path_div ws ''src'') ''work'') (\<lambda>abs_src.
         act_bind (remote_abspath re (path_div ws ''install'') ''work'') (\<lambda>abs_install.
         act_bind (remote_abspath re (path_div ws (''openmpi-'' @ version @ ''.tar.gz'')) ''work'') (\<lambda>abs_tarball.
         let launcher = abs_install @ ''/bin/mpirun''
         in act_bind (re_sh re (''test -x '' @ launcher) 15) (\<lambda>there.
            if er_ok there then act_return (mpi_at launcher)
            else act_bind (re_run re (''bash -c '' @ [dquote] @ openmpi_remote_script version sha abs_root abs_src abs_install abs_tarball @ [dquote])
                             (Some timeout) [] True)
                   (\<lambda>r. act_bind (act_require (er_ok r) RuntimeError) (\<lambda>_. act_return (mpi_at launcher)))))))))"

definition provision_openmpi_local :: "'t build_host \<Rightarrow> string \<Rightarrow> string \<Rightarrow> string \<Rightarrow> rat \<Rightarrow> (mpi_runtime, 't) act" where
  "provision_openmpi_local h build_dir version sha timeout =
     (let ws = bh_resolve h (openmpi_root build_dir version);
          src = bh_resolve h (path_div (openmpi_root build_dir version) ''src'');
          install = bh_resolve h (path_div (openmpi_root build_dir version) ''install'');
          tarball = bh_resolve h (path_div (openmpi_root build_dir version) (''openmpi-'' @ version @ ''.tar.gz''));
          launcher = path_div (path_div install ''bin'') ''mpirun''
      in act_bind (act_get (bh_executable h launcher)) (\<lambda>there.
           if there then act_return (mpi_at launcher)
           else act_bind (bh_makedirs h ws) (\<lambda>_.
                act_bind (act_do (bh_rmtree h src)) (\<lambda>_.
                act_bind (act_do (bh_rmtree h (path_div ws (''openmpi-'' @ version)))) (\<lambda>_.
                act_bind (bh_shell h (openmpi_local_script version sha ws src install tarball (cpu_count_or h)) timeout) (\<lambda>r.
                act_bind (act_require (er_ok r) RuntimeError) (\<lambda>_.
                act_bind (act_get (bh_executable h launcher)) (\<lambda>there.
                act_bind (act_require there RuntimeError) (\<lambda>_. act_return (mpi_at launcher))))))))))"

definition provision_openmpi_runtime :: "'t build_host \<Rightarrow> 't remote_executor option \<Rightarrow> string \<Rightarrow> string \<Rightarrow> string \<Rightarrow> rat \<Rightarrow> (mpi_runtime, 't) act" where
  "provision_openmpi_runtime h remote =
     (case remote of Some re \<Rightarrow> provision_openmpi_remote re | None \<Rightarrow> provision_openmpi_local h)"

subsection \<open>Checkouts\<close>

definition external_lock_path :: "'t build_host \<Rightarrow> codec \<Rightarrow> string \<Rightarrow> string" where
  "external_lock_path h cd key = path_join (bh_tempdir h) (''rocm-test-extbuild-'' @ take 16 (cd_sha256 cd key) @ ''.lock'')"

definition external_build_lock :: "'t build_host \<Rightarrow> codec \<Rightarrow> string \<Rightarrow> rat \<Rightarrow> ('a, 't) act \<Rightarrow> ('a, 't) act" where
  "external_build_lock h cd key timeout body = with_flock h (external_lock_path h cd key) timeout body"

text \<open>Up to \<open>n\<close> attempts; after each failure the remains are removed and the process sleeps.\<close>

fun clone_attempts :: "(execution_result, 't) act \<Rightarrow> (unit, 't) act \<Rightarrow> (unit, 't) act \<Rightarrow> nat \<Rightarrow> (unit, 't) act" where
  "clone_attempts clone clean pause 0 = act_raise RuntimeError"
| "clone_attempts clone clean pause (Suc n) =
     act_bind clone (\<lambda>r. if er_ok r then act_return ()
       else act_bind clean (\<lambda>_. act_bind pause (\<lambda>_. clone_attempts clone clean pause n)))"

text \<open>
  The steps under the lock, the same on both sides: is there a checkout, clone, set the sparse subtree, check out the
  reference, look for the subtree. \<open>set_err\<close> and \<open>ref_err\<close> are the exceptions of the side.
\<close>

definition checkout_steps ::
  "(bool, 't) act \<Rightarrow> (unit, 't) act \<Rightarrow> (string \<Rightarrow> (execution_result, 't) act) \<Rightarrow> (string \<Rightarrow> (execution_result, 't) act) \<Rightarrow> (string \<Rightarrow> (bool, 't) act)
     \<Rightarrow> py_error \<Rightarrow> string option \<Rightarrow> string option \<Rightarrow> (unit, 't) act" where
  "checkout_steps present clone set_sparse checkout has_subtree err ref sparse =
     act_bind present (\<lambda>p.
     act_bind (if p then act_return () else clone) (\<lambda>_.
     act_bind (if text_given sparse then act_bind (set_sparse (the sparse)) (\<lambda>r. act_require (er_ok r) err) else act_return ()) (\<lambda>_.
     act_bind (if text_given ref then act_bind (checkout (the ref)) (\<lambda>r. act_require (er_ok r) err) else act_return ()) (\<lambda>_.
     if text_given sparse then act_bind (has_subtree (the sparse)) (\<lambda>b. act_require b AssertionError) else act_return ()))))"

definition clone_dest :: "'t remote_executor \<Rightarrow> string \<Rightarrow> (string, 't) act" where
  "clone_dest re repo_dir =
     (if startswith repo_dir ''/''
      then act_bind (re_root re) (\<lambda>ws.
        if startswith repo_dir ws then act_return repo_dir
        else if re_has_workspace re then re_workspace_path_for re repo_dir ''external''
        else remote_abspath re repo_dir ''external'')
      else remote_abspath re repo_dir ''external'')"

definition clone_flags :: "string option \<Rightarrow> string list" where
  "clone_flags sparse = (if text_given sparse then [''--filter=blob:none'', ''--sparse'', ''--no-checkout''] else [])"

definition clone_repo_remote :: "'t build_host \<Rightarrow> codec \<Rightarrow> 't remote_executor \<Rightarrow> string \<Rightarrow> string \<Rightarrow> string option \<Rightarrow> rat \<Rightarrow> string option \<Rightarrow> (string, 't) act" where
  "clone_repo_remote h cd re url repo_dir ref timeout sparse =
     act_bind (clone_dest re repo_dir) (\<lambda>dest.
     act_bind (external_build_lock h cd repo_dir 7200
       (checkout_steps
          (act_bind (re_sh re (''test -d '' @ dest @ ''/.git'') 30) (\<lambda>r. act_return (er_ok r)))
          (act_bind (re_sh re (''mkdir -p '' @ shlex_quote (path_parent dest)) 30) (\<lambda>_.
             clone_attempts (re_sh re (join_with '' '' ([''git'', ''clone''] @ clone_flags sparse @ [url, dest])) timeout)
               (act_bind (re_sh re (''rm -rf '' @ dest) 60) (\<lambda>_. act_return ())) (act_do (bh_sleep h 10)) 3))
          (\<lambda>sub. re_sh re (''git -C '' @ dest @ '' sparse-checkout set '' @ sub) timeout)
          (\<lambda>rv. re_sh re (''git -C '' @ dest @ '' checkout '' @ rv) timeout)
          (\<lambda>sub. act_bind (re_sh re (''test -d '' @ dest @ ''/'' @ sub) 15) (\<lambda>r. act_return (er_ok r)))
          RuntimeError ref sparse))
     (\<lambda>_. act_return (if text_given sparse then path_div dest (the sparse) else as_posix dest)))"

definition clone_repo_local :: "'t build_host \<Rightarrow> codec \<Rightarrow> string \<Rightarrow> string \<Rightarrow> string option \<Rightarrow> rat \<Rightarrow> string option \<Rightarrow> (string, 't) act" where
  "clone_repo_local h cd url repo_dir ref timeout sparse =
     (let run = (\<lambda>cmd. bh_run h cmd None (bh_environ h) (Some timeout))
      in act_bind (bh_makedirs h (path_parent repo_dir)) (\<lambda>_.
         act_bind (external_build_lock h cd repo_dir 7200
           (checkout_steps (act_get (bh_isdir h (path_div repo_dir ''.git'')))
              (clone_attempts (run ([''git'', ''clone''] @ clone_flags sparse @ [url, repo_dir])) (act_do (bh_rmtree h repo_dir)) (act_do (bh_sleep h 10)) 3)
              (\<lambda>sub. run [''git'', ''-C'', repo_dir, ''sparse-checkout'', ''set'', sub])
              (\<lambda>rv. run [''git'', ''-C'', repo_dir, ''checkout'', rv])
              (\<lambda>sub. act_get (bh_isdir h (path_div repo_dir sub)))
              AssertionError ref sparse))
         (\<lambda>_. act_return (if text_given sparse then path_div repo_dir (the sparse) else repo_dir))))"

definition clone_repo :: "'t build_host \<Rightarrow> codec \<Rightarrow> 't remote_executor option \<Rightarrow> string \<Rightarrow> string \<Rightarrow> string option \<Rightarrow> rat \<Rightarrow> string option \<Rightarrow> (string, 't) act" where
  "clone_repo h cd remote url dest =
     (case remote of Some re \<Rightarrow> clone_repo_remote h cd re url (as_posix dest) | None \<Rightarrow> clone_repo_local h cd url (as_posix dest))"

definition license_probe :: "string \<Rightarrow> string" where
  "license_probe repo_dir = join_with '' || '' (map (\<lambda>n. ''test -f '' @ repo_dir @ ''/'' @ n) [''LICENSE.txt'', ''LICENSE'', ''LICENSE.md'', ''COPYING''])"

definition assert_license_present :: "'t build_host \<Rightarrow> 't remote_executor option \<Rightarrow> string \<Rightarrow> (string, 't) act" where
  "assert_license_present h remote repo_dir =
     (case remote of
        Some re \<Rightarrow> act_bind (re_sh re (license_probe repo_dir) 15) (\<lambda>r. act_return (if er_ok r then ''LICENSE'' else []))
      | None \<Rightarrow> act_get (\<lambda>t. case bh_glob h (path_join repo_dir ''LICENSE*'') t @ bh_glob h (path_join repo_dir ''*LICENSE*'') t of
                               [] \<Rightarrow> [] | m # _ \<Rightarrow> os_basename m))"

subsection \<open>Make and autotools\<close>

definition env_exports :: "env \<Rightarrow> string" where
  "env_exports vars =
     (if vars = [] then [] else join_with '' '' (map (\<lambda>(k, v). ''export '' @ k @ ''='' @ shlex_quote v @ '';'') vars) @ '' '')"

definition remote_make_cmd :: "env \<Rightarrow> string \<Rightarrow> int \<Rightarrow> string list \<Rightarrow> string" where
  "remote_make_cmd vars repo_dir jobs args =
     ''bash -c '' @ [dquote] @ env_exports vars @ ''cd '' @ repo_dir @ '' && make -j'' @ show_int jobs @ '' '' @ join_with '' '' args @ [dquote]"

definition make_build :: "'t build_host \<Rightarrow> 't remote_executor option \<Rightarrow> string \<Rightarrow> string list \<Rightarrow> env \<Rightarrow> bool \<Rightarrow> rat \<Rightarrow> (unit, 't) act" where
  "make_build h remote repo_dir args vars par timeout =
     (case remote of
        Some re \<Rightarrow>
          act_bind (resolve_parallel_jobs h None (Some re)) (\<lambda>jobs.
          act_bind (re_run re (remote_make_cmd vars repo_dir jobs args) (Some timeout) [] True) (\<lambda>r. act_require (er_ok r) RuntimeError))
      | None \<Rightarrow>
          act_bind (bh_run h ([''make''] @ (if par then [''-j'' @ show_int (cpu_count_or h)] else []) @ args) (Some repo_dir)
                      (merge_env vars (bh_environ h)) (Some timeout))
            (\<lambda>r. act_require (er_ok r) AssertionError))"

text \<open>
  One long step: on the remote host streamed through its executor, locally by \<open>_blocking_stream_run\<close>, which is the
  argument \<open>stream\<close>; \<open>blocking_step\<close> is what the code passes.
\<close>

type_synonym 't stream_runner = "string \<Rightarrow> rat \<Rightarrow> string option \<Rightarrow> (execution_result, 't) act"

definition blocking_step :: "('s, 'b) process_api \<Rightarrow> env \<Rightarrow> ('s \<times> 'b sinks) stream_runner" where
  "blocking_step api environ cmd timeout log_path w = blocking_stream_run api cmd environ None timeout True True log_path (fst w) (snd w)"

definition run_stream_step :: "'t stream_runner \<Rightarrow> 't remote_executor option \<Rightarrow> string \<Rightarrow> rat \<Rightarrow> string option \<Rightarrow> (unit, 't) act" where
  "run_stream_step stream remote cmd timeout log_path =
     act_bind (case remote of Some re \<Rightarrow> re_run re cmd (Some timeout) [] True | None \<Rightarrow> stream cmd timeout log_path)
       (\<lambda>r. act_require (er_ok r) RuntimeError)"

record autotools_options =
  at_configure_script :: string
  at_configure_args :: "string list"
  at_bootstrap_script :: "string option"
  at_env_prefix :: string
  at_make_install :: bool
  at_make_args :: "string list"
  at_jobs :: "int option"
  at_sentinel :: "string option"
  at_log_dir :: "string option"
  at_use_lock :: bool
  at_timeout :: rat

definition autotools_steps :: "autotools_options \<Rightarrow> int \<Rightarrow> string \<Rightarrow> string option \<Rightarrow> (string \<times> string) list" where
  "autotools_steps o1 jobs build source =
     (let env_kw = (if at_env_prefix o1 = [] then [] else ''env '' @ at_env_prefix o1 @ '' ''); cd = ''cd '' @ shlex_quote build @ '' && '' @ env_kw
      in (case source of None \<Rightarrow> [] | Some d \<Rightarrow> [(''bootstrap'', ''cd '' @ shlex_quote d @ '' && '' @ env_kw @ the (at_bootstrap_script o1))]) @
         [(''configure'', ''mkdir -p '' @ shlex_quote build @ '' && '' @ cd @ at_configure_script o1 @ '' '' @ join_with '' '' (at_configure_args o1)),
          (''compile'', cd @ ''make -j'' @ show_int jobs @ '' '' @ join_with '' '' (at_make_args o1))] @
         (if at_make_install o1 then [(''install'', cd @ ''make -j'' @ show_int jobs @ '' install'')] else []))"

definition sentinel_present :: "'t build_host \<Rightarrow> 't remote_executor option \<Rightarrow> autotools_options \<Rightarrow> string \<Rightarrow> (bool, 't) act" where
  "sentinel_present h remote o1 build =
     (case at_sentinel o1 of None \<Rightarrow> act_return False | Some s \<Rightarrow> path_is_file h remote (build @ ''/'' @ s))"

definition step_log :: "'t remote_executor option \<Rightarrow> autotools_options \<Rightarrow> string \<Rightarrow> string option" where
  "step_log remote o1 step =
     (if text_given (at_log_dir o1) \<and> Option.is_none remote then Some (path_join (the (at_log_dir o1)) (''build-'' @ step @ ''.log'')) else None)"

definition autotools_run ::
  "'t build_host \<Rightarrow> 't stream_runner \<Rightarrow> 't remote_executor option \<Rightarrow> autotools_options \<Rightarrow> string \<Rightarrow> (string \<times> string) list \<Rightarrow> (unit, 't) act" where
  "autotools_run h stream remote o1 build steps =
     act_bind (sentinel_present h remote o1 build) (\<lambda>there.
       if there then act_return ()
       else act_bind (act_map (\<lambda>(step, cmd). run_stream_step stream remote
                                (if Option.is_none remote then cmd else ''bash -c '' @ [dquote] @ cmd @ [dquote]) (at_timeout o1) (step_log remote o1 step)) steps)
              (\<lambda>_. act_return ()))"

definition autotools_make ::
  "'t build_host \<Rightarrow> codec \<Rightarrow> 't stream_runner \<Rightarrow> 't remote_executor option \<Rightarrow> string \<Rightarrow> string \<Rightarrow> autotools_options \<Rightarrow> (string, 't) act" where
  "autotools_make h cd stream remote source_dir build_dir o1 =
     act_bind (resolve_parallel_jobs h (at_jobs o1) remote) (\<lambda>jobs.
     act_bind (abspath_for h remote build_dir) (\<lambda>build.
     act_bind (sentinel_present h remote o1 build) (\<lambda>there.
       if there then act_return build
       else act_bind (act_when (text_given (at_log_dir o1)) (bh_makedirs h (the (at_log_dir o1)))) (\<lambda>_.
            act_bind (if text_given (at_bootstrap_script o1) then act_bind (abspath_for h remote source_dir) (\<lambda>d. act_return (Some d)) else act_return None) (\<lambda>source.
            let work = autotools_run h stream remote o1 build (autotools_steps o1 jobs build source)
            in act_bind (if at_use_lock o1 then external_build_lock h cd build (at_timeout o1) work else work) (\<lambda>_. act_return build))))))"

subsection \<open>Fingerprints\<close>

definition compute_fingerprint :: "codec \<Rightarrow> string list \<Rightarrow> string" where
  "compute_fingerprint cd key_inputs = take 16 (cd_sha256 cd (cd_dumps cd (PList (map PStr (sort key_inputs)))))"

text \<open>
  \<open>source_tree_fingerprint\<close> over the resolved paths: a path is a file with its bytes, or a directory with the relative paths
  and bytes of the files below it. The digest is fed piece by piece, which hashes the concatenation.
\<close>

datatype source_root = SourceFile string | SourceDir "(string \<times> string) list"

definition root_files :: "string \<times> source_root \<Rightarrow> (string \<times> string) list" where
  "root_files r = (case snd r of SourceFile bytes \<Rightarrow> [(path_name (fst r), bytes)] | SourceDir files \<Rightarrow> sort_key (path_parts \<circ> fst) files)"

definition file_bytes :: "string \<times> string \<Rightarrow> string" where
  "file_bytes f = fst f @ [CHR 0x00] @ snd f @ [CHR 0x00]"

definition tree_content :: "(string \<times> source_root) list \<Rightarrow> string" where
  "tree_content roots = concat (map file_bytes (concat (map root_files (sort_key (path_parts \<circ> fst) roots))))"

definition source_tree_fingerprint :: "codec \<Rightarrow> (string \<times> source_root) list \<Rightarrow> string" where
  "source_tree_fingerprint cd roots = take 16 (cd_sha256 cd (tree_content roots))"

definition fingerprint_path :: "string \<Rightarrow> string" where
  "fingerprint_path build_dir = path_div build_dir ''.cmake_fingerprint''"

definition remote_fingerprint_path :: "'t remote_executor \<Rightarrow> string \<Rightarrow> (string, 't) act" where
  "remote_fingerprint_path re build_dir =
     act_bind (remote_abspath re build_dir ''work'') (\<lambda>d. act_return (path_div d ''.cmake_fingerprint''))"

definition parse_fingerprint :: "codec \<Rightarrow> string \<Rightarrow> (string \<times> pyval) list option" where
  "parse_fingerprint cd raw =
     (if raw = [] then None
      else case cd_loads cd raw of
             Some (PDict d) \<Rightarrow> if map_of d ''full'' = None \<or> map_of d ''structural'' = None then None else Some d
           | _ \<Rightarrow> None)"

definition read_build_fingerprint :: "'t build_host \<Rightarrow> codec \<Rightarrow> 't remote_executor option \<Rightarrow> string \<Rightarrow> ((string \<times> pyval) list option, 't) act" where
  "read_build_fingerprint h cd remote build_dir =
     act_bind
       (case remote of
          Some re \<Rightarrow>
            act_bind (remote_fingerprint_path re build_dir) (\<lambda>p.
            act_bind (re_sh re (''cat '' @ shlex_quote p) 10) (\<lambda>r. act_return (if er_ok r then py_strip (er_stdout r) else [])))
        | None \<Rightarrow>
            act_bind (act_get (bh_exists h (fingerprint_path build_dir))) (\<lambda>there.
              if there then act_bind (bh_read_text h (fingerprint_path build_dir)) (\<lambda>x. act_return (py_strip x)) else act_return []))
       (\<lambda>raw. act_return (parse_fingerprint cd raw))"

definition fingerprint_text :: "codec \<Rightarrow> string \<Rightarrow> string option \<Rightarrow> string" where
  "fingerprint_text cd full structural =
     cd_dumps cd (PDict [(''structural'', PStr (case structural of None \<Rightarrow> full | Some s \<Rightarrow> s)), (''full'', PStr full)])"

definition write_build_fingerprint :: "'t build_host \<Rightarrow> codec \<Rightarrow> 't remote_executor option \<Rightarrow> string \<Rightarrow> string \<Rightarrow> string option \<Rightarrow> (unit, 't) act" where
  "write_build_fingerprint h cd remote build_dir full structural =
     (case remote of
        Some re \<Rightarrow>
          act_bind (remote_fingerprint_path re build_dir) (\<lambda>p.
          act_bind (re_sh re (''printf %s '' @ shlex_quote (fingerprint_text cd full structural) @ '' > '' @ shlex_quote p) 10) (\<lambda>_. act_return ()))
      | None \<Rightarrow> bh_write_text h (fingerprint_path build_dir) (fingerprint_text cd full structural))"

datatype cache_action = Wipe | Incremental | Skip

definition decide_action :: "(string \<times> pyval) list option \<Rightarrow> string \<Rightarrow> string \<Rightarrow> cache_action" where
  "decide_action stored structural_fp full_fp =
     (case stored of
        None \<Rightarrow> Wipe
      | Some d \<Rightarrow> if map_of d ''structural'' \<noteq> Some (PStr structural_fp) then Wipe
                  else if map_of d ''full'' \<noteq> Some (PStr full_fp) then Incremental else Skip)"

definition build_cache_action :: "'t build_host \<Rightarrow> codec \<Rightarrow> 't remote_executor option \<Rightarrow> string \<Rightarrow> string \<Rightarrow> string \<Rightarrow> (cache_action, 't) act" where
  "build_cache_action h cd remote build_dir structural_fp full_fp =
     act_bind (read_build_fingerprint h cd remote build_dir) (\<lambda>stored. act_return (decide_action stored structural_fp full_fp))"

subsection \<open>Results of composed calls\<close>

lemma act_bind_Inr:
  "act_bind m f t = Some (Inr b, t') \<longleftrightarrow> (\<exists>a u. m t = Some (Inr a, u) \<and> f a u = Some (Inr b, t'))"
  by (auto simp: act_bind_def split: option.split sum.split)

lemma act_basic_Inr:
  "act_return a t = Some (Inr b, t') \<longleftrightarrow> b = a \<and> t' = t"
  "act_get g t = Some (Inr b, t') \<longleftrightarrow> b = g t \<and> t' = t"
  "act_do k t = Some (Inr (), t') \<longleftrightarrow> t' = k t"
  "act_require c e t = Some (Inr (), t') \<longleftrightarrow> c \<and> t' = t"
  "act_raise e t = Some (Inr b, t') \<longleftrightarrow> False"
  by (auto simp: act_return_def act_get_def act_do_def act_require_def act_raise_def)

lemma with_flock_Inr:
  "with_flock h path timeout body t = Some (Inr a, t') \<Longrightarrow> \<exists>u v. body u = Some (Inr a, v) \<and> t' = bh_unlock h path v"
  by (auto simp: with_flock_def act_bind_Inr act_finally_def act_do_def split: option.splits)

subsection \<open>The cache decision\<close>

definition text_files_ok :: "'t build_host \<Rightarrow> bool" where
  "text_files_ok h \<longleftrightarrow>
     (\<forall>p x t t'. bh_write_text h p x t = Some (Inr (), t') \<longrightarrow> bh_exists h p t' \<and> bh_read_text h p t' = Some (Inr x, t'))"

definition fingerprint_dict :: "string \<Rightarrow> string \<Rightarrow> (string \<times> pyval) list" where
  "fingerprint_dict structural full = [(''structural'', PStr structural), (''full'', PStr full)]"

text \<open>What JSON promises for one such dictionary: it is read back, and its text is not empty and has no space around it.\<close>

definition codec_ok :: "codec \<Rightarrow> (string \<times> pyval) list \<Rightarrow> bool" where
  "codec_ok cd d \<longleftrightarrow>
     cd_loads cd (cd_dumps cd (PDict d)) = Some (PDict d) \<and> py_strip (cd_dumps cd (PDict d)) = cd_dumps cd (PDict d) \<and> cd_dumps cd (PDict d) \<noteq> []"

lemma read_written_fingerprint:
  assumes "text_files_ok h" "codec_ok cd (fingerprint_dict structural full)"
    "write_build_fingerprint h cd None build_dir full (Some structural) t = Some (Inr (), t')"
  shows "read_build_fingerprint h cd None build_dir t' = Some (Inr (Some (fingerprint_dict structural full)), t')"
proof -
  let ?x = "cd_dumps cd (PDict (fingerprint_dict structural full))"
  have "bh_write_text h (fingerprint_path build_dir) ?x t = Some (Inr (), t')"
    using assms(3) by (simp add: write_build_fingerprint_def fingerprint_text_def fingerprint_dict_def)
  then have written: "bh_exists h (fingerprint_path build_dir) t'" "bh_read_text h (fingerprint_path build_dir) t' = Some (Inr ?x, t')"
    using assms(1) unfolding text_files_ok_def by blast+
  have "parse_fingerprint cd (py_strip ?x) = Some (fingerprint_dict structural full)"
    using assms(2) by (simp add: codec_ok_def parse_fingerprint_def fingerprint_dict_def)
  then show ?thesis using written by (simp add: read_build_fingerprint_def act_bind_def act_get_def act_return_def)
qed


definition file_host :: "(string \<Rightarrow> string option) build_host" where
  "file_host = \<lparr>bh_clock = (\<lambda>_. 0), bh_sleep = (\<lambda>_ t. t), bh_open_lock = (\<lambda>_. act_return ()), bh_flock = (\<lambda>_ t. (Locked, t)), bh_unlock = (\<lambda>_ t. t),
     bh_environ = [], bh_cpu_count = None, bh_tempdir = ''/tmp'', bh_abspath = id, bh_resolve = id, bh_makedirs = (\<lambda>_. act_return ()),
     bh_rmtree = (\<lambda>_ t. t), bh_exists = (\<lambda>p t. t p \<noteq> None), bh_isfile = (\<lambda>p t. t p \<noteq> None), bh_isdir = (\<lambda>p _. p = ''co/sub''), bh_executable = (\<lambda>_ _. False),
     bh_getmtime = (\<lambda>_ _. Inr 0), bh_read_text = (\<lambda>p t. Some (case t p of None \<Rightarrow> Inl FileNotFoundError | Some x \<Rightarrow> Inr x, t)),
     bh_write_text = (\<lambda>p x t. Some (Inr (), t(p \<mapsto> x))), bh_which = (\<lambda>_ _. None), bh_glob = (\<lambda>_ _. []),
     bh_run = (\<lambda>_ _ _ _. act_return \<lparr>er_exit_code = 0, er_stdout = [], er_stderr = [], er_duration = 1\<rparr>), bh_shell = (\<lambda>_ _. act_raise OSError)\<rparr>"

definition file_codec :: codec where
  "file_codec = \<lparr>cd_sha256 = id,
     cd_dumps = (\<lambda>v. case v of PDict [(_, PStr s), (_, PStr f)] \<Rightarrow> ''{'' @ s @ '','' @ f @ ''}'' | _ \<Rightarrow> []),
     cd_loads = (\<lambda>x. case split_on (CHR '','') (butlast (drop 1 x)) of [s, f] \<Rightarrow> Some (PDict (fingerprint_dict s f)) | _ \<Rightarrow> None)\<rparr>"


subsection \<open>Source digests\<close>

definition no_nul :: "string \<times> string \<Rightarrow> bool" where
  "no_nul f \<longleftrightarrow> CHR 0x00 \<notin> set (fst f) \<and> CHR 0x00 \<notin> set (snd f)"

lemma append_sep_inject:
  assumes "x \<notin> set a" "x \<notin> set b" "a @ x # s = b @ x # t"
  shows "a = b \<and> s = t"
  using assms by (induction a arbitrary: b) (auto simp: Cons_eq_append_conv append_eq_Cons_conv)

lemma file_bytes_inject:
  assumes "list_all no_nul fs" "list_all no_nul gs" "concat (map file_bytes fs) = concat (map file_bytes gs)"
  shows "fs = gs"
  using assms
proof (induction fs arbitrary: gs)
  case Nil
  then show ?case by (cases gs) (simp_all add: file_bytes_def)
next
  case (Cons f fs)
  then obtain g gs' where gs: "gs = g # gs'" by (cases gs) (simp_all add: file_bytes_def)
  have eq: "fst f @ CHR 0x00 # (snd f @ CHR 0x00 # concat (map file_bytes fs)) = fst g @ CHR 0x00 # (snd g @ CHR 0x00 # concat (map file_bytes gs'))"
    using Cons.prems(3) gs by (simp add: file_bytes_def [of f] file_bytes_def [of g])
  have nul: "CHR 0x00 \<notin> set (fst f)" "CHR 0x00 \<notin> set (fst g)" "CHR 0x00 \<notin> set (snd f)" "CHR 0x00 \<notin> set (snd g)"
    using Cons.prems(1,2) gs by (simp_all add: no_nul_def)
  note split1 = append_sep_inject [OF nul(1,2) eq]
  note split2 = append_sep_inject [OF nul(3,4) conjunct2 [OF split1]]
  show ?case using Cons split1 split2 gs by (simp add: prod_eq_iff)
qed

text \<open>
  Two source trees of text files with the same digest hold the same files, unless the shortened hash of the two contents
  collides.
\<close>

theorem source_digest_separates:
  assumes "inj_on (\<lambda>x. take 16 (cd_sha256 cd x)) {tree_content [(p, SourceDir files)], tree_content [(p, SourceDir files')]}"
    "list_all no_nul files" "list_all no_nul files'"
    "source_tree_fingerprint cd [(p, SourceDir files)] = source_tree_fingerprint cd [(p, SourceDir files')]"
  shows "sort_key (path_parts \<circ> fst) files = sort_key (path_parts \<circ> fst) files'"
proof -
  have "list_all no_nul (sort_key (path_parts \<circ> fst) xs)" if "list_all no_nul xs" for xs using that by (simp add: list_all_iff)
  note file_bytes_inject [OF this [OF assms(2)] this [OF assms(3)]]
  moreover have "concat (map file_bytes (sort_key (path_parts \<circ> fst) files)) = concat (map file_bytes (sort_key (path_parts \<circ> fst) files'))"
    using inj_onD [OF assms(1) assms(4) [unfolded source_tree_fingerprint_def]] by (simp add: tree_content_def root_files_def)
  ultimately show ?thesis by blast
qed

lemma source_digest_separates_witness:
  "sort_key (path_parts \<circ> fst) [(''b'', ''y''), (''a'', ''x'')] = sort_key (path_parts \<circ> fst) [(''a'', ''x''), (''b'', ''y'')]"
proof -
  let ?fs = "[(''b'', ''y''), (''a'', ''x'')]" and ?gs = "[(''a'', ''x''), (''b'', ''y'')]"
  have "tree_content [(''p'', SourceDir ?fs)] = tree_content [(''p'', SourceDir ?gs)]" by code_simp
  then show ?thesis
    using source_digest_separates [of file_codec "''p''" ?fs ?gs] by (simp add: no_nul_def source_tree_fingerprint_def)
qed

text \<open>
  A tree with one file and a tree with two files have the same digest for every hash, when the one file contains the
  bytes between the two: the build would be taken for unchanged.
\<close>

theorem source_digest_ambiguous:
  "\<exists>f g g'. g \<noteq> g' \<and> source_tree_fingerprint cd [(p, SourceDir [f])] = source_tree_fingerprint cd [(p, SourceDir [g, g'])]"
proof (intro exI conjI)
  let ?f = "(''a'', ''x'' @ [CHR 0x00] @ ''b'' @ [CHR 0x00] @ ''y'')" and ?g = "(''a'', ''x'')" and ?g' = "(''b'', ''y'')"
  show "?g \<noteq> ?g'" by simp
  have "sort_key (path_parts \<circ> fst) [?g, ?g'] = [?g, ?g']" by code_simp
  then show "source_tree_fingerprint cd [(p, SourceDir [?f])] = source_tree_fingerprint cd [(p, SourceDir [?g, ?g'])]"
    by (simp add: source_tree_fingerprint_def tree_content_def root_files_def file_bytes_def)
qed

subsection \<open>Checkouts and projects\<close>

lemma checkout_steps_Inr:
  assumes "checkout_steps present clone set_sparse checkout has_subtree err ref (Some sub) t = Some (Inr (), t')" "sub \<noteq> []"
  shows "\<exists>u. has_subtree sub u = Some (Inr True, t') \<and>
    (text_given ref \<longrightarrow> (\<exists>v r. checkout (the ref) v = Some (Inr r, u) \<and> er_ok r))"
proof -
  have "text_given (Some sub)" using assms(2) by (simp add: text_given_def)
  then show ?thesis
    using assms(1) by (auto simp: checkout_steps_def act_bind_Inr act_basic_Inr split: if_splits) blast+
qed

text \<open>
  A local checkout of a sparse subtree is returned only when the subtree is there, after the reference was checked out
  without an error, and with the lock of the checkout released last.
\<close>

theorem clone_checked:
  assumes "clone_repo h cd None url dest ref timeout (Some sub) t = Some (Inr p, t')" "sub \<noteq> []"
  shows "p = path_div (as_posix dest) sub \<and>
    (\<exists>v. bh_isdir h p v \<and> t' = bh_unlock h (external_lock_path h cd (as_posix dest)) v \<and>
      (text_given ref \<longrightarrow>
        (\<exists>u r. bh_run h [''git'', ''-C'', as_posix dest, ''checkout'', the ref] None (bh_environ h) (Some timeout) u = Some (Inr r, v) \<and> er_ok r)))"
proof -
  let ?d = "as_posix dest"
  let ?run = "\<lambda>cmd. bh_run h cmd None (bh_environ h) (Some timeout)"
  let ?steps = "checkout_steps (act_get (bh_isdir h (path_div ?d ''.git'')))
    (clone_attempts (?run ([''git'', ''clone''] @ clone_flags (Some sub) @ [url, ?d])) (act_do (bh_rmtree h ?d)) (act_do (bh_sleep h 10)) 3)
    (\<lambda>sub. ?run [''git'', ''-C'', ?d, ''sparse-checkout'', ''set'', sub]) (\<lambda>rv. ?run [''git'', ''-C'', ?d, ''checkout'', rv])
    (\<lambda>sub. act_get (bh_isdir h (path_div ?d sub))) AssertionError ref (Some sub)"
  have "text_given (Some sub)" using assms(2) by (simp add: text_given_def)
  then have whole: "clone_repo h cd None url dest ref timeout (Some sub) =
    act_bind (bh_makedirs h (path_parent ?d)) (\<lambda>_. act_bind (with_flock h (external_lock_path h cd ?d) 7200 ?steps) (\<lambda>_. act_return (path_div ?d sub)))"
    by (simp add: clone_repo_def clone_repo_local_def external_build_lock_def)
  obtain t1 where p: "p = path_div ?d sub" and locked: "with_flock h (external_lock_path h cd ?d) 7200 ?steps t1 = Some (Inr (), t')"
    using assms(1) unfolding whole act_bind_Inr act_basic_Inr by auto
  obtain u v where steps: "?steps u = Some (Inr (), v)" "t' = bh_unlock h (external_lock_path h cd ?d) v"
    using with_flock_Inr [OF locked] by blast
  from checkout_steps_Inr [OF steps(1) assms(2)] show ?thesis
    using p steps(2) by (auto simp: act_basic_Inr)
qed

text \<open>
  A CMake build on the local host succeeds only when the build command exited with 0, or the caller tolerates failures and
  the sentinel file exists after the build.
\<close>

theorem cmake_build_checked:
  assumes "cmake_build h None src build_dir rocm o1 t = Some (Inr b, t')"
  shows "b = as_posix (bh_abspath h build_dir) \<and>
    (\<exists>u r jobs. bh_run h (cmake_build_cmd o1 b jobs) None (dict_set ''ROCM_PATH'' rocm (bh_environ h)) (Some 7200) u = Some (Inr r, t') \<and>
      (er_ok r \<or> cm_tolerate o1 \<and> (\<exists>a. cm_build_artifact o1 = Some a \<and> bh_exists h (path_div b a) t')))"
proof -
  obtain jobs u where b: "b = as_posix (bh_abspath h build_dir)"
    and run: "cmake_compile (bh_run h (cmake_build_cmd o1 b jobs) None (dict_set ''ROCM_PATH'' rocm (bh_environ h)) (Some 7200))
        (build_artifact_exists h None b) o1 AssertionError u = Some (Inr (), t')"
    using assms by (auto simp: cmake_build_def cmake_paths_def cmake_local_def Let_def act_bind_Inr act_basic_Inr)
  from run show ?thesis
    using b by (auto simp: cmake_compile_def act_bind_Inr act_basic_Inr build_artifact_exists_def split: if_splits)
qed

lemma clone_checked_witness:
  "\<exists>t' v. clone_repo file_host file_codec None ''url'' ''co'' (Some ''v1'') 60 (Some ''sub'') Map.empty = Some (Inr ''co/sub'', t') \<and>
    bh_isdir file_host ''co/sub'' v \<and> t' = bh_unlock file_host (external_lock_path file_host file_codec ''co'') v"
proof -
  have "map_option fst (clone_repo file_host file_codec None ''url'' ''co'' (Some ''v1'') 60 (Some ''sub'') Map.empty) = Some (Inr ''co/sub'')" by code_simp
  then obtain t' where run: "clone_repo file_host file_codec None ''url'' ''co'' (Some ''v1'') 60 (Some ''sub'') Map.empty = Some (Inr ''co/sub'', t')" by auto
  have "as_posix ''co'' = ''co''" by code_simp
  with clone_checked [OF run] run show ?thesis by auto
qed

lemma cmake_build_checked_witness:
  "\<exists>t' u r. cmake_build file_host None ''src'' ''b'' ''/opt/rocm''
      \<lparr>cm_gpu_arch = None, cm_gpu_arch_var = ''GPU_ARCH'', cm_compiler_args = [], cm_extra_cmake_args = [], cm_sync_dirs = [], cm_parallel_jobs = Some 2,
       cm_target = None, cm_tolerate = False, cm_build_artifact = None\<rparr> Map.empty = Some (Inr ''b'', t') \<and>
    (\<exists>cmd. bh_run file_host cmd None [(''ROCM_PATH'', ''/opt/rocm'')] (Some 7200) u = Some (Inr r, t')) \<and> er_ok r"
proof -
  let ?o = "\<lparr>cm_gpu_arch = None, cm_gpu_arch_var = ''GPU_ARCH'', cm_compiler_args = [], cm_extra_cmake_args = [], cm_sync_dirs = [], cm_parallel_jobs = Some 2,
       cm_target = None, cm_tolerate = False, cm_build_artifact = None\<rparr>"
  have "map_option fst (cmake_build file_host None ''src'' ''b'' ''/opt/rocm'' ?o Map.empty) = Some (Inr ''b'')" by code_simp
  then obtain t' where run: "cmake_build file_host None ''src'' ''b'' ''/opt/rocm'' ?o Map.empty = Some (Inr ''b'', t')" by auto
  have "dict_set ''ROCM_PATH'' ''/opt/rocm'' (bh_environ file_host) = [(''ROCM_PATH'', ''/opt/rocm'')]" by (simp add: file_host_def)
  with cmake_build_checked [OF run] run show ?thesis by auto
qed

text \<open>
  The command of a remote \<open>make\<close> puts quoted values into a text that it then encloses in double quotes. A value that has
  double quotes itself loses them on the way: the remote shell exports another value, without any error.
\<close>

theorem make_env_loses_quotes:
  "sh_words (remote_make_cmd [(''FLAGS'', ''-DV='' @ [dquote] @ ''1'' @ [dquote])] ''d'' 4 []) =
    Some [''bash'', ''-c'', ''export FLAGS='' @ quoted_word ''-DV=1'' @ ''; cd d && make -j4 '']"
  by code_simp

text \<open>
  A build tree whose sentinel exists is not touched: no step is run, no lock is taken and the state of the host is as before.
\<close>

theorem autotools_skips_built:
  assumes "at_sentinel o1 = Some s" "bh_isfile h (bh_resolve h build_dir @ ''/'' @ s) t"
  shows "autotools_make h cd stream None source_dir build_dir o1 t = Some (Inr (bh_resolve h build_dir), t)"
  using assms
  by (simp add: autotools_make_def act_bind_def resolve_parallel_jobs_def abspath_for_def act_return_def sentinel_present_def path_is_file_def act_get_def)

end
