(* ===== verification/BuildFixtures.thy ===== *)
theory BuildFixtures
  imports ExtBuild
begin

text \<open>
  \<open>framework/plugins/builder_plugin.py\<close>: the fixtures through which tests compile a binary, build a CMake project with the
  cache of \<open>ExtBuild\<close>, and build external projects. The values of the configuration are arguments.
\<close>

record build_session =
  bs_rock_dir :: string
  bs_build_dir :: string
  bs_gpu_arch :: "string option"
  bs_timeout :: "rat option"
  bs_inactivity :: rat
  bs_cmake_dir :: string

subsection \<open>Paths\<close>

fun first_given :: "string option list \<Rightarrow> string option" where
  "first_given [] = None"
| "first_given (x # xs) = (if text_given x then x else first_given xs)"

definition rock_dir :: "(string \<Rightarrow> string) \<Rightarrow> env \<Rightarrow> string option \<Rightarrow> string option \<Rightarrow> py_error + string" where
  "rock_dir realpath environ cli configured =
     (case first_given [cli, map_of environ ''ROCK_DIR'', map_of environ ''ROCM_TEST_THEROCK_ROCK_DIR'', configured] of
        None \<Rightarrow> Inl PytestFail
      | Some p \<Rightarrow> Inr (realpath p))"

definition compiler_build_dir :: "'t build_host \<Rightarrow> string option \<Rightarrow> string \<Rightarrow> (string, 't) act" where
  "compiler_build_dir h cli configured =
     (let path = (if text_given cli then the cli else configured) in act_bind (bh_makedirs h path) (\<lambda>_. act_return path))"

definition ld_path :: "env \<Rightarrow> string \<Rightarrow> env" where
  "ld_path environ rocm =
     [(''LD_LIBRARY_PATH'', rocm @ ''/lib'' @ (if text_given (map_of environ ''LD_LIBRARY_PATH'') then '':'' @ the (map_of environ ''LD_LIBRARY_PATH'') else []))]"

definition arch_lib_path :: "string option \<Rightarrow> string \<Rightarrow> string" where
  "arch_lib_path gpu_arch base = (if text_given gpu_arch then path_div base (the gpu_arch) else as_posix base)"

subsection \<open>One binary\<close>

record binary_request =
  br_include_dirs :: "string list"
  br_extra_flags :: "string list"
  br_std :: string
  br_opt :: string
  br_arch :: "string option"
  br_subdir :: "string option"

definition out_dir :: "build_session \<Rightarrow> binary_request \<Rightarrow> string" where
  "out_dir bs q = (if text_given (br_subdir q) then path_join (bs_build_dir bs) (the (br_subdir q)) else bs_build_dir bs)"

definition binary_options :: "build_session \<Rightarrow> string \<Rightarrow> binary_request \<Rightarrow> compile_options" where
  "binary_options bs name q =
     \<lparr>co_hipcc = None, co_rocm_dir = Some (bs_rock_dir bs), co_std = br_std q, co_opt = br_opt q,
      co_arch = (if br_arch q \<noteq> None then br_arch q else bs_gpu_arch bs), co_include_dirs = br_include_dirs q, co_extra_flags = br_extra_flags q,
      co_timeout = bs_timeout bs, co_inactivity_timeout = bs_inactivity bs, co_log_path = Some (path_join (out_dir bs q) (name @ ''.build.log''))\<rparr>"

definition compile_binary ::
  "('s \<times> 'b sinks) build_host \<Rightarrow> ('s, 'b) process_api \<Rightarrow> (string list \<Rightarrow> env \<Rightarrow> 's \<Rightarrow> bool \<times> 's) \<Rightarrow> string
     \<Rightarrow> ('s \<times> 'b sinks) remote_executor option \<Rightarrow> build_session \<Rightarrow> string \<Rightarrow> string \<Rightarrow> binary_request \<Rightarrow> (string, 's \<times> 'b sinks) act" where
  "compile_binary h api popen ts remote bs src name q =
     act_bind (bh_makedirs h (out_dir bs q)) (\<lambda>_.
       compile h api popen ts remote src (path_join (out_dir bs q) name) (binary_options bs name q))"

subsection \<open>CMake projects\<close>

record cmake_request =
  cq_extra_cmake_args :: "string list"
  cq_gpu_arch_var :: string
  cq_gpu_arch :: "string option"
  cq_sync_dirs :: "string list"
  cq_artifact :: "string option"
  cq_compiler_mode :: string
  cq_target :: "string option"
  cq_tolerate :: bool

definition request_arch :: "build_session \<Rightarrow> cmake_request \<Rightarrow> string option" where
  "request_arch bs q = (if cq_gpu_arch q \<noteq> None then cq_gpu_arch q else bs_gpu_arch bs)"

definition arch_text :: "build_session \<Rightarrow> cmake_request \<Rightarrow> string" where
  "arch_text bs q = (case request_arch bs q of None \<Rightarrow> [] | Some a \<Rightarrow> a)"

definition project_build_dir :: "'t remote_executor option \<Rightarrow> build_session \<Rightarrow> string \<Rightarrow> (string, 't) act" where
  "project_build_dir remote bs subdir =
     (let d = path_div (path_div (bs_build_dir bs) subdir) ''build''
      in case remote of
           Some re \<Rightarrow> act_bind (re_workspace_path_for re d ''work'') (\<lambda>p. act_return (as_posix p))
         | None \<Rightarrow> act_return d)"

definition structural_fp :: "codec \<Rightarrow> build_session \<Rightarrow> string \<Rightarrow> string \<Rightarrow> cmake_request \<Rightarrow> string" where
  "structural_fp cd bs src subdir q = compute_fingerprint cd [bs_rock_dir bs, arch_text bs q, src, subdir]"

definition full_fp :: "codec \<Rightarrow> build_session \<Rightarrow> string \<Rightarrow> string \<Rightarrow> cmake_request \<Rightarrow> string \<Rightarrow> string" where
  "full_fp cd bs src subdir q source_fp =
     compute_fingerprint cd ([bs_rock_dir bs, arch_text bs q, src, subdir, source_fp] @ sort (cq_extra_cmake_args q))"

text \<open>\<open>tree_of\<close> is what is below a source path.\<close>

definition sources_fp :: "'t build_host \<Rightarrow> codec \<Rightarrow> (string \<Rightarrow> 't \<Rightarrow> source_root) \<Rightarrow> string \<Rightarrow> cmake_request \<Rightarrow> 't \<Rightarrow> string" where
  "sources_fp h cd tree_of src q t =
     source_tree_fingerprint cd (map (\<lambda>p. (bh_resolve h p, tree_of (bh_resolve h p) t)) (src # cq_sync_dirs q))"

text \<open>The check of the cache; true when the build can be used as it is.\<close>

definition reuse_build ::
  "'t build_host \<Rightarrow> codec \<Rightarrow> 't remote_executor option \<Rightarrow> build_session \<Rightarrow> string \<Rightarrow> string \<Rightarrow> cmake_request \<Rightarrow> string \<Rightarrow> string \<Rightarrow> (bool, 't) act" where
  "reuse_build h cd remote bs src subdir q source_fp build_dir =
     (case cq_artifact q of
        None \<Rightarrow> act_return False
      | Some a \<Rightarrow>
          act_bind (build_artifact_exists h remote build_dir a) (\<lambda>there.
            if \<not> there then act_return False
            else act_bind (build_cache_action h cd remote build_dir (structural_fp cd bs src subdir q) (full_fp cd bs src subdir q source_fp)) (\<lambda>action.
              case action of
                Skip \<Rightarrow> act_return True
              | Wipe \<Rightarrow> act_bind (wipe_build_dir h remote build_dir) (\<lambda>_. act_return False)
              | Incremental \<Rightarrow> act_return False)))"

definition compiler_args :: "'t build_host \<Rightarrow> bool \<Rightarrow> build_session \<Rightarrow> cmake_request \<Rightarrow> 't \<Rightarrow> py_error + string list" where
  "compiler_args h local bs q t =
     (let mode = cq_compiler_mode q; clangpp = find_rocm_clangpp h (bs_rock_dir bs) t; optional = startswith mode ''optional_''
      in if mode \<notin> set [''auto'', ''cxx_hip'', ''optional_auto'', ''optional_cxx_hip''] then Inr []
         else if local \<and> clangpp = None \<and> \<not> optional then Inl PytestFail
         else if clangpp \<noteq> None \<or> \<not> optional
         then (let path = (case clangpp of Some p \<Rightarrow> p | None \<Rightarrow> foldl path_div (bs_rock_dir bs) [''lib'', ''llvm'', ''bin'', ''clang++''])
               in Inr ((''-DCMAKE_CXX_COMPILER='' @ path) #
                       (if mode \<in> set [''cxx_hip'', ''optional_cxx_hip''] then [''-DCMAKE_HIP_COMPILER='' @ path] else [])))
         else Inr [])"

definition request_options :: "'t build_host \<Rightarrow> bool \<Rightarrow> build_session \<Rightarrow> cmake_request \<Rightarrow> string list \<Rightarrow> string \<Rightarrow> cmake_options" where
  "request_options h local bs q args module_dir =
     \<lparr>cm_gpu_arch = request_arch bs q, cm_gpu_arch_var = cq_gpu_arch_var q, cm_compiler_args = args,
      cm_extra_cmake_args = cq_extra_cmake_args q @ [''-DROCM_TEST_CMAKE_MODULE_DIR='' @ module_dir],
      cm_sync_dirs = (if local then cq_sync_dirs q else map (bh_abspath h) (cq_sync_dirs q) @ [bs_cmake_dir bs]),
      cm_parallel_jobs = None, cm_target = cq_target q, cm_tolerate = cq_tolerate q, cm_build_artifact = cq_artifact q\<rparr>"

definition build_and_record ::
  "'t build_host \<Rightarrow> codec \<Rightarrow> 't remote_executor option \<Rightarrow> build_session \<Rightarrow> string \<Rightarrow> string \<Rightarrow> cmake_request \<Rightarrow> string \<Rightarrow> string \<Rightarrow> (string, 't) act" where
  "build_and_record h cd remote bs src subdir q source_fp build_dir =
     act_bind (\<lambda>t. act_lift (compiler_args h (Option.is_none remote) bs q t) t) (\<lambda>args.
     act_bind (case remote of Some re \<Rightarrow> re_remote_path_for re (bs_cmake_dir bs) | None \<Rightarrow> act_return (bs_cmake_dir bs)) (\<lambda>module_dir.
     act_bind (cmake_build h remote (if Option.is_none remote then bh_resolve h src else src) build_dir (bs_rock_dir bs)
                 (request_options h (Option.is_none remote) bs q args module_dir)) (\<lambda>actual.
     act_bind (if cq_artifact q = None then act_return ()
               else write_build_fingerprint h cd remote actual (full_fp cd bs src subdir q source_fp) (Some (structural_fp cd bs src subdir q)))
       (\<lambda>_. act_return actual))))"

definition cmake_build_dir ::
  "'t build_host \<Rightarrow> codec \<Rightarrow> (string \<Rightarrow> 't \<Rightarrow> source_root) \<Rightarrow> 't remote_executor option \<Rightarrow> build_session \<Rightarrow> string \<Rightarrow> string \<Rightarrow> cmake_request \<Rightarrow> (string, 't) act" where
  "cmake_build_dir h cd tree_of remote bs src subdir q =
     act_bind (project_build_dir remote bs subdir) (\<lambda>build_dir.
     act_bind (act_get (sources_fp h cd tree_of src q)) (\<lambda>source_fp.
     act_bind (reuse_build h cd remote bs src subdir q source_fp build_dir) (\<lambda>reuse.
       if reuse then act_return build_dir
       else build_and_record h cd remote bs src subdir q source_fp build_dir)))"

subsection \<open>External projects\<close>

definition ext_clone_repo ::
  "'t build_host \<Rightarrow> codec \<Rightarrow> 't remote_executor option \<Rightarrow> build_session \<Rightarrow> string \<Rightarrow> string \<Rightarrow> string option \<Rightarrow> rat \<Rightarrow> string option \<Rightarrow> (string, 't) act" where
  "ext_clone_repo h cd remote bs url dest =
     clone_repo h cd remote url (if Option.is_none remote then local_external_clone_dest (bh_resolve h) dest (bs_build_dir bs) else dest)"

definition ext_timeout :: "build_session \<Rightarrow> rat option \<Rightarrow> rat" where
  "ext_timeout bs timeout = (case timeout of Some t \<Rightarrow> t | None \<Rightarrow> the (bs_timeout bs))"

definition ext_make_build :: "'t build_host \<Rightarrow> 't remote_executor option \<Rightarrow> build_session \<Rightarrow> string \<Rightarrow> string list \<Rightarrow> env \<Rightarrow> rat option \<Rightarrow> (unit, 't) act" where
  "ext_make_build h remote bs repo_dir args vars timeout = make_build h remote repo_dir args vars True (ext_timeout bs timeout)"

definition ext_build_lock :: "'t build_host \<Rightarrow> codec \<Rightarrow> build_session \<Rightarrow> string \<Rightarrow> rat option \<Rightarrow> ('a, 't) act \<Rightarrow> ('a, 't) act" where
  "ext_build_lock h cd bs key timeout body = external_build_lock h cd key (ext_timeout bs timeout) body"

definition ext_provision_openmpi :: "'t build_host \<Rightarrow> 't remote_executor option \<Rightarrow> build_session \<Rightarrow> string \<Rightarrow> (mpi_runtime, 't) act" where
  "ext_provision_openmpi h remote bs version = provision_openmpi_runtime h remote (bs_build_dir bs) version [] 3600"

subsection \<open>When a build is reused\<close>

text \<open>
  A local build directory that \<open>abspath\<close> leaves as it is. After a build with a sentinel has succeeded, the same request on
  the same sources returns at once: no command is run and nothing on the host changes.
\<close>

theorem built_project_reused:
  assumes built: "build_and_record h cd None bs src subdir q source_fp build_dir t = Some (Inr b, t')"
    and dir: "build_dir = path_div (path_div (bs_build_dir bs) subdir) ''build''" "as_posix (bh_abspath h build_dir) = build_dir"
    and art: "cq_artifact q = Some a" "bh_exists h (path_div build_dir a) t'"
    and same: "sources_fp h cd tree_of src q t' = source_fp"
    and host: "text_files_ok h" "codec_ok cd (fingerprint_dict (structural_fp cd bs src subdir q) (full_fp cd bs src subdir q source_fp))"
  shows "b = build_dir \<and> cmake_build_dir h cd tree_of None bs src subdir q t' = Some (Inr b, t')"
proof -
  let ?s = "structural_fp cd bs src subdir q" and ?f = "full_fp cd bs src subdir q source_fp"
  obtain args u v where build: "cmake_build h None (bh_resolve h src) build_dir (bs_rock_dir bs) (request_options h True bs q args (bs_cmake_dir bs)) u = Some (Inr b, v)"
    and wr: "write_build_fingerprint h cd None b ?f (Some ?s) v = Some (Inr (), t')"
    using built art(1) by (auto simp: build_and_record_def act_bind_Inr act_basic_Inr)
  have b: "b = build_dir" using build dir(2) by (auto simp: cmake_build_def cmake_paths_def act_bind_Inr act_basic_Inr)
  have "read_build_fingerprint h cd None build_dir t' = Some (Inr (Some (fingerprint_dict ?s ?f)), t')"
    using read_written_fingerprint [OF host] wr b by simp
  then have "build_cache_action h cd None build_dir ?s ?f t' = Some (Inr Skip, t')"
    by (simp add: build_cache_action_def act_bind_def act_return_def decide_action_def fingerprint_dict_def)
  then have "reuse_build h cd None bs src subdir q source_fp build_dir t' = Some (Inr True, t')"
    using art by (simp add: reuse_build_def build_artifact_exists_def act_bind_def act_get_def act_return_def)
  then show ?thesis
    using b same dir(1) by (simp add: cmake_build_dir_def project_build_dir_def act_bind_def act_get_def act_return_def Let_def)
qed

text \<open>
  The fingerprints leave out the target, the compiler mode, the name of the architecture variable and the tolerance: a request
  that differs from an earlier one only in these gets the earlier build, even when its target was never built.
\<close>

theorem reuse_ignores_target:
  assumes "project_build_dir remote bs subdir t = Some (Inr build_dir, u)"
    "reuse_build h cd remote bs src subdir q (sources_fp h cd tree_of src q u) build_dir u = Some (Inr True, t')"
  shows "cmake_build_dir h cd tree_of remote bs src subdir (q\<lparr>cq_target := tg, cq_compiler_mode := mode, cq_gpu_arch_var := var, cq_tolerate := tol\<rparr>) t =
    Some (Inr build_dir, t')"
proof -
  let ?q = "q\<lparr>cq_target := tg, cq_compiler_mode := mode, cq_gpu_arch_var := var, cq_tolerate := tol\<rparr>"
  have src: "sources_fp h cd tree_of src ?q = sources_fp h cd tree_of src q" by (simp add: sources_fp_def fun_eq_iff)
  have fp: "structural_fp cd bs src subdir ?q = structural_fp cd bs src subdir q" "full_fp cd bs src subdir ?q x = full_fp cd bs src subdir q x" for x
    by (simp_all add: structural_fp_def full_fp_def arch_text_def request_arch_def)
  have "reuse_build h cd remote bs src subdir ?q x d = reuse_build h cd remote bs src subdir q x d" for x d
    unfolding reuse_build_def fp by simp
  with src show ?thesis using assms by (simp add: cmake_build_dir_def act_bind_def act_get_def act_return_def)
qed

end
