(* ===== verification/Install.thy ===== *)
theory Install
  imports BuildFixtures
begin

text \<open>
  \<open>framework/plugins/install_plugin.py\<close>: the option \<open>--pre-install\<close>, the check and installation of ROCm and of packages on
  every node, and the decision whether the session may start. The provisioning of a machine learning framework, which is code of
  the test suites, is an argument.
\<close>

subsection \<open>The option\<close>

datatype usage_error = UsageError

datatype 'f install_spec = Rocm string | Pkg "string list" | Pytorch string 'f

text \<open>\<open>parse\<close> is \<open>parse_framework_spec\<close>, \<open>None\<close> for its \<open>ValueError\<close>.\<close>

definition parse_install_spec :: "(string \<Rightarrow> 'f option) \<Rightarrow> string \<Rightarrow> usage_error + 'f install_spec" where
  "parse_install_spec parse arg =
     (case split1 (CHR ''='') arg of
        (_, None) \<Rightarrow> Inl UsageError
      | (k, Some v) \<Rightarrow>
          (let key = py_lower (py_strip k); val = py_strip v
           in if key = ''rocm'' then (if val = [] then Inl UsageError else Inr (Rocm val))
              else if key = ''pkg''
              then (let pkgs = filter (\<lambda>p. p \<noteq> []) (map py_strip (split_on (CHR '','') val)) in if pkgs = [] then Inl UsageError else Inr (Pkg pkgs))
              else if key = ''pytorch'' then (case parse val of None \<Rightarrow> Inl UsageError | Some f \<Rightarrow> Inr (Pytorch val f))
              else Inl UsageError))"

definition parse_install_specs :: "(string \<Rightarrow> 'f option) \<Rightarrow> string list \<Rightarrow> usage_error + 'f install_spec list" where
  "parse_install_specs parse args = mapM (parse_install_spec parse) args"

subsection \<open>One node\<close>

text \<open>The run method of the node's SSH session or, without one, of \<open>CpuExecutor\<close>, is the argument \<open>run\<close>.\<close>

definition rocm_check_cmd :: string where
  "rocm_check_cmd = ''dpkg-query --show --showformat='' @ quoted_word ''${Version}'' @ '' rocm-core 2>/dev/null || rpm -q --queryformat '' @
     quoted_word ''%{VERSION}'' @ '' rocm-core 2>/dev/null || echo '' @ quoted_word []"

text \<open>The pattern \<open>(\d+\.\d+\.\d+)\<close>.\<close>

definition version_prefix :: "string \<Rightarrow> string option" where
  "version_prefix s =
     (let a = takeWhile is_digit s; s1 = dropWhile is_digit s; b = takeWhile is_digit (drop 1 s1); s2 = dropWhile is_digit (drop 1 s1); c = takeWhile is_digit (drop 1 s2)
      in if a \<noteq> [] \<and> take 1 s1 = ''.'' \<and> b \<noteq> [] \<and> take 1 s2 = ''.'' \<and> c \<noteq> [] then Some (a @ ''.'' @ b @ ''.'' @ c) else None)"

fun search_release :: "string \<Rightarrow> string" where
  "search_release [] = []"
| "search_release (c # s) = (case version_prefix (c # s) of Some v \<Rightarrow> v | None \<Rightarrow> search_release s)"

definition by_package_manager :: "string \<Rightarrow> string \<Rightarrow> string" where
  "by_package_manager apt dnf =
     ''bash -c '' @ quoted_word (''if command -v apt-get >/dev/null 2>&1; then   apt-get install -y '' @ apt @ '' 2>&1; '' @
       ''elif command -v dnf >/dev/null 2>&1; then   dnf install -y '' @ dnf @ '' 2>&1; else echo unsupported-distro && exit 1; fi'')"

definition rocm_install_cmd :: "string \<Rightarrow> string" where
  "rocm_install_cmd version =
     by_package_manager (''rocm-core='' @ version @ ''* rocm-dev='' @ version @ ''*'')
       ([dquote] @ ''rocm-core-'' @ version @ [dquote] @ '' '' @ [dquote] @ ''rocm-dev-'' @ version @ [dquote])"

definition install_rocm :: "'t timed_runner \<Rightarrow> string \<Rightarrow> (bool, 't) act" where
  "install_rocm run version =
     act_bind (run rocm_check_cmd 30) (\<lambda>r.
       if search_release (py_strip (er_stdout r)) = version then act_return True
       else act_bind (run (rocm_install_cmd version) 600) (\<lambda>r. act_return (er_ok r)))"

definition pkg_check_cmd :: "string \<Rightarrow> string" where
  "pkg_check_cmd pkg = ''dpkg-query -W '' @ pkg @ '' >/dev/null 2>&1 || rpm -q '' @ pkg @ '' >/dev/null 2>&1''"

definition pkg_install_cmd :: "string list \<Rightarrow> string" where
  "pkg_install_cmd pkgs = by_package_manager (join_with '' '' pkgs) (join_with '' '' pkgs)"

fun missing_pkgs :: "'t timed_runner \<Rightarrow> string list \<Rightarrow> (string list, 't) act" where
  "missing_pkgs run [] = act_return []"
| "missing_pkgs run (p # ps) =
     act_bind (run (pkg_check_cmd p) 15) (\<lambda>r. act_bind (missing_pkgs run ps) (\<lambda>ms. act_return (if er_ok r then ms else p # ms)))"

definition install_pkgs :: "'t timed_runner \<Rightarrow> string list \<Rightarrow> (bool, 't) act" where
  "install_pkgs run pkgs =
     act_bind (missing_pkgs run pkgs) (\<lambda>missing.
       if missing = [] then act_return True else act_bind (run (pkg_install_cmd missing) 300) (\<lambda>r. act_return (er_ok r)))"

definition handle_spec :: "'t timed_runner \<Rightarrow> ('f \<Rightarrow> (bool, 't) act) \<Rightarrow> 'f install_spec \<Rightarrow> (bool \<times> bool, 't) act" where
  "handle_spec run provision spec =
     (case spec of
        Rocm v \<Rightarrow> act_bind (install_rocm run v) (\<lambda>ok. act_return (ok, True))
      | Pkg ps \<Rightarrow> act_bind (install_pkgs run ps) (\<lambda>ok. act_return (ok, True))
      | Pytorch _ f \<Rightarrow> act_bind (provision f) (\<lambda>ok. act_return (ok, False)))"

text \<open>All specifications of a node, in order: did every critical one succeed, and how many others failed.\<close>

fun work_for_node :: "('f install_spec \<Rightarrow> (bool \<times> bool, 't) act) \<Rightarrow> 'f install_spec list \<Rightarrow> (bool \<times> nat, 't) act" where
  "work_for_node handle [] = act_return (True, 0)"
| "work_for_node handle (s # ss) =
     act_bind (handle s) (\<lambda>(ok, critical).
     act_bind (work_for_node handle ss) (\<lambda>(all_ok, nonfatal).
       act_return (all_ok \<and> (ok \<or> \<not> critical), nonfatal + (if \<not> ok \<and> \<not> critical then 1 else 0))))"

subsection \<open>The session\<close>

definition package_summary :: "env \<Rightarrow> string" where
  "package_summary spec =
     join_with '', '' (map (\<lambda>n. n @ ''='' @ the (map_of spec n)) (filter (\<lambda>n. text_given (map_of spec n)) [''torch'', ''torchvision'', ''torchaudio'']))"

definition shared_results_path :: "string \<Rightarrow> string" where
  "shared_results_path artifact_dir = path_div (path_div artifact_dir ''pre-install'') ''framework-provision-results.json''"

definition write_shared_results :: "'t build_host \<Rightarrow> (pyval \<Rightarrow> string) \<Rightarrow> string \<Rightarrow> bool \<Rightarrow> (string \<times> pyval) list \<Rightarrow> (unit, 't) act" where
  "write_shared_results h dumps artifact_dir requested results =
     (let path = shared_results_path artifact_dir
      in act_bind (bh_makedirs h (path_parent path)) (\<lambda>_.
           bh_write_text h path (dumps (PDict [(''framework_preinstall_requested'', PBool requested), (''framework_provision_results'', PDict results)]))))"

text \<open>
  The nodes in the order in which their threads finish; \<open>record\<close> writes the shared results. The session ends when a critical
  specification failed on some node.
\<close>

fun work_on_nodes :: "(string \<Rightarrow> (bool \<times> nat, 't) act) \<Rightarrow> string list \<Rightarrow> (string list, 't) act" where
  "work_on_nodes work [] = act_return []"
| "work_on_nodes work (n # ns) =
     act_bind (work n) (\<lambda>(ok, _). act_bind (work_on_nodes work ns) (\<lambda>failed. act_return (if ok then failed else n # failed)))"

definition run_pre_install :: "(string \<Rightarrow> (bool \<times> nat, 't) act) \<Rightarrow> (unit, 't) act \<Rightarrow> string list \<Rightarrow> (unit, 't) act" where
  "run_pre_install work write_results nodes =
     act_bind (work_on_nodes work nodes) (\<lambda>failed. if failed \<noteq> [] then act_raise PytestExit else write_results)"

definition install_sessionstart ::
  "(string \<Rightarrow> 'f option) \<Rightarrow> string list \<Rightarrow> bool \<Rightarrow> bool \<Rightarrow> bool \<Rightarrow> ('f install_spec list \<Rightarrow> (unit, 't) act) \<Rightarrow> 't \<Rightarrow> (usage_error + (py_error + unit) \<times> 't) option" where
  "install_sessionstart parse args no_gpu worker has_pool start t =
     (if args = [] then Some (Inr (Inr (), t))
      else case parse_install_specs parse args of
             Inl e \<Rightarrow> Some (Inl e)
           | Inr specs \<Rightarrow> if no_gpu \<or> worker \<or> \<not> has_pool then Some (Inr (Inr (), t)) else map_option Inr (start specs t))"

subsection \<open>What is installed\<close>

text \<open>
  What the code relies on of a package manager: a check changes nothing and answers whether the package is installed; an
  installation that succeeds has installed its packages and removed none.
\<close>

definition packages_ok :: "'t timed_runner \<Rightarrow> ('t \<Rightarrow> string set) \<Rightarrow> bool" where
  "packages_ok run inst \<longleftrightarrow>
     (\<forall>p t r t'. run (pkg_check_cmd p) 15 t = Some (Inr r, t') \<longrightarrow> t' = t \<and> (er_ok r \<longleftrightarrow> p \<in> inst t)) \<and>
     (\<forall>ps t r t'. run (pkg_install_cmd ps) 300 t = Some (Inr r, t') \<and> er_ok r \<longrightarrow> inst t \<union> set ps \<subseteq> inst t')"

lemma missing_pkgs_exact:
  assumes "packages_ok run inst" "missing_pkgs run ps t = Some (Inr ms, t')"
  shows "t' = t \<and> ms = filter (\<lambda>p. p \<notin> inst t) ps"
  using assms(2)
proof (induction ps arbitrary: ms t')
  case Nil
  then show ?case by (simp add: act_basic_Inr)
next
  case (Cons p ps)
  then obtain r u ms1 where run: "run (pkg_check_cmd p) 15 t = Some (Inr r, u)" "missing_pkgs run ps u = Some (Inr ms1, t')"
    and ms: "ms = (if er_ok r then ms1 else p # ms1)"
    by (auto simp: act_bind_Inr act_basic_Inr)
  have "u = t" "er_ok r \<longleftrightarrow> p \<in> inst t" using assms(1) run(1) unfolding packages_ok_def by blast+
  with Cons.IH run(2) ms show ?case by auto
qed

text \<open>
  When the installation of packages reports success, all of them are installed and nothing was removed; when all of them
  were installed before, the host is as it was.
\<close>

theorem install_pkgs_installs:
  assumes "packages_ok run inst" "install_pkgs run pkgs t = Some (Inr True, t')"
  shows "inst t \<union> set pkgs \<subseteq> inst t' \<and> (set pkgs \<subseteq> inst t \<longrightarrow> t' = t)"
proof -
  obtain ms u where m: "missing_pkgs run pkgs t = Some (Inr ms, u)"
    and rest: "(if ms = [] then act_return True else act_bind (run (pkg_install_cmd ms) 300) (\<lambda>r. act_return (er_ok r))) u = Some (Inr True, t')"
    using assms(2) by (auto simp: install_pkgs_def act_bind_Inr)
  have ex: "u = t" "ms = filter (\<lambda>p. p \<notin> inst t) pkgs" using missing_pkgs_exact [OF assms(1) m] by simp_all
  show ?thesis
  proof (cases "ms = []")
    case True
    then have "t' = t" "set pkgs \<subseteq> inst t" using rest ex by (auto simp: act_basic_Inr filter_empty_conv)
    then show ?thesis by simp
  next
    case False
    then obtain r where "run (pkg_install_cmd ms) 300 t = Some (Inr r, t')" "er_ok r"
      using rest ex(1) by (auto simp: act_bind_Inr act_basic_Inr)
    then have "inst t \<union> set ms \<subseteq> inst t'" using assms(1) unfolding packages_ok_def by blast
    moreover have "\<not> set pkgs \<subseteq> inst t" using False ex(2) by (auto simp: filter_empty_conv)
    ultimately show ?thesis using ex(2) by auto
  qed
qed

lemma work_on_nodes_failed:
  assumes "work_on_nodes work ns t = Some (Inr failed, t')"
  shows "set failed \<subseteq> set ns \<and> (failed = [] \<longrightarrow> (\<forall>n \<in> set ns. \<exists>u k v. work n u = Some (Inr (True, k), v)))"
  using assms
proof (induction ns arbitrary: t failed)
  case Nil
  then show ?case by (simp add: act_basic_Inr)
next
  case (Cons n ns)
  then obtain ok k u fs where w: "work n t = Some (Inr (ok, k), u)" "work_on_nodes work ns u = Some (Inr fs, t')" "failed = (if ok then fs else n # fs)"
    by (auto simp: act_bind_Inr act_basic_Inr)
  from Cons.IH [OF w(2)] w(1,3) show ?case by (auto split: if_splits)
qed

text \<open>
  The session goes on only when every critical installation succeeded on every node.
\<close>

theorem session_starts_installed:
  assumes "run_pre_install work write_results nodes t = Some (Inr (), t')" "n \<in> set nodes"
  shows "\<exists>u k v. work n u = Some (Inr (True, k), v)"
proof -
  obtain u where "work_on_nodes work nodes t = Some (Inr [], u)"
    using assms(1) by (auto simp: run_pre_install_def act_bind_Inr act_basic_Inr split: if_splits)
  from work_on_nodes_failed [OF this] assms(2) show ?thesis by blast
qed

text \<open>Every specification that is accepted has something to install.\<close>

theorem specs_not_empty:
  assumes "parse_install_specs parse args = Inr specs" "s \<in> set specs"
  shows "s \<noteq> Rocm [] \<and> s \<noteq> Pkg [] \<and> (case s of Pkg ps \<Rightarrow> [] \<notin> set ps | _ \<Rightarrow> True)"
proof -
  have one: "parse_install_spec parse a = Inr s \<Longrightarrow> s \<noteq> Rocm [] \<and> s \<noteq> Pkg [] \<and> (case s of Pkg ps \<Rightarrow> [] \<notin> set ps | _ \<Rightarrow> True)" for a s
    by (auto simp: parse_install_spec_def Let_def split: prod.splits option.splits if_splits)
  have "\<exists>a \<in> set args. parse_install_spec parse a = Inr s"
    using assms unfolding parse_install_specs_def by (induction args arbitrary: specs) (auto split: sum.splits)
  then show ?thesis using one by blast
qed

end
