(* ===== verification/ReportsPlugin.thy ===== *)
theory ReportsPlugin
  imports BuildFixtures Markers
begin

text \<open>
  \<open>framework/plugins/reports_plugin.py\<close>: the session log, the labels and the outcome of a test, the summary at the end of the
  session and the dashboard of the last runs. \<open>allure\<close> and the terminal are outside: labels and lines are values. Durations
  are printed by the argument \<open>fmt\<close>.
\<close>

subsection \<open>The session log\<close>

record session_config =
  sn_session_log :: string
  sn_workerinput :: "env option"
  sn_cli_alluredir :: "string option"
  sn_cfg_allure_dir :: string

definition nonempty_get :: "env \<Rightarrow> string \<Rightarrow> string option" where
  "nonempty_get d k = (case map_of d k of Some (c # s) \<Rightarrow> Some (c # s) | _ \<Rightarrow> None)"

text \<open>The controller creates and truncates the log; a worker takes the path it was sent.\<close>

definition configure_session_log :: "'t build_host \<Rightarrow> session_config \<Rightarrow> (string, 't) act" where
  "configure_session_log h sn =
     (let path = bh_resolve h (sn_session_log sn)
      in case sn_workerinput sn of
           None \<Rightarrow> act_bind (bh_makedirs h (path_parent path)) (\<lambda>_. act_bind (bh_write_text h path []) (\<lambda>_. act_return path))
         | Some d \<Rightarrow> act_return (case nonempty_get d ''_session_log_path'' of Some p \<Rightarrow> p | None \<Rightarrow> path))"

definition configured_allure_dir :: "session_config \<Rightarrow> string" where
  "configured_allure_dir sn = (if text_given (sn_cli_alluredir sn) then the (sn_cli_alluredir sn) else sn_cfg_allure_dir sn)"

definition running_line :: "env \<Rightarrow> string \<Rightarrow> string \<Rightarrow> string" where
  "running_line environ nodeid ts =
     ''[RUNNING '' @ (case map_of environ ''PYTEST_XDIST_WORKER'' of None \<Rightarrow> ''main'' | Some w \<Rightarrow> w) @ ''] '' @ nodeid @ ''  ('' @ ts @ '')''"

text \<open>\<open>_append_session_log\<close>: an \<open>OSError\<close> is ignored. \<open>add_text\<close> opens the file and writes.\<close>

definition append_session_log :: "(string \<Rightarrow> string \<Rightarrow> (unit, 't) act) \<Rightarrow> string option \<Rightarrow> string \<Rightarrow> (unit, 't) act" where
  "append_session_log add_text path msg t =
     (if \<not> text_given path then Some (Inr (), t)
      else map_option (\<lambda>(r, t). (case r of Inl OSError \<Rightarrow> Inr () | r \<Rightarrow> r, t)) (add_text (the path) (msg @ [newline]) t))"

subsection \<open>Labels\<close>

datatype allure_label = Severity string | Feature string | Story string | Epic string | Tag string

definition marker_label :: "string \<Rightarrow> allure_label option" where
  "marker_label name =
     (case split1 (CHR ''.'') name of
        (_, None) \<Rightarrow> None
      | (dm, Some val) \<Rightarrow>
          (case map_of allure_dimension_map dm of
             None \<Rightarrow> None
           | Some kind \<Rightarrow>
               if kind = ''severity'' then Some (Severity (case map_of hw_severity_map val of None \<Rightarrow> ''normal'' | Some s \<Rightarrow> s))
               else if kind = ''feature'' then Some (Feature (dm @ ''.'' @ val))
               else if kind = ''story'' then Some (Story val)
               else if kind = ''epic'' then Some (Epic val)
               else if kind = ''tag'' then Some (Tag (dm @ ''.'' @ val))
               else None))"

definition runtest_labels :: "item \<Rightarrow> allure_label list" where
  "runtest_labels it = List.map_filter (\<lambda>m. marker_label (mk_name m)) (iter_markers it)"

subsection \<open>The status of a test\<close>

datatype phase_outcome = Passed | Failed | Skipped

datatype longrepr = NoRepr | SkipTuple string | ReprText string

record phase_report =
  ph_nodeid :: string
  ph_duration :: "rat option"
  ph_outcome :: phase_outcome
  ph_wasxfail :: bool
  ph_longrepr :: longrepr

definition call_status :: "phase_report \<Rightarrow> string" where
  "call_status rep =
     (if ph_outcome rep = Passed then ''PASSED'' else if ph_wasxfail rep then ''KNOWN_ISSUE''
      else if ph_outcome rep = Skipped then ''SKIPPED'' else ''FAILED'')"

definition execution_status :: "phase_report option \<Rightarrow> phase_report option \<Rightarrow> (string \<times> phase_report) option" where
  "execution_status rep_call rep_setup =
     (case rep_call of
        Some rep \<Rightarrow> Some (call_status rep, rep)
      | None \<Rightarrow> (case rep_setup of
                  Some rep \<Rightarrow> if ph_outcome rep = Failed then Some (''ERROR (setup)'', rep) else None
                | None \<Rightarrow> None))"

definition marker_dims :: "item \<Rightarrow> (string \<times> string) list" where
  "marker_dims it =
     fold (\<lambda>m d. case split1 (CHR ''.'') (mk_name m) of (dm, Some val) \<Rightarrow> dict_set dm val d | (_, None) \<Rightarrow> d) (iter_markers it) []"

definition status_line :: "(rat \<Rightarrow> string) \<Rightarrow> string \<Rightarrow> item \<Rightarrow> rat \<Rightarrow> string" where
  "status_line fmt status it duration =
     ''['' @ status @ '']  '' @ it_nodeid it @ ''  '' @ fmt duration @ ''s'' @
     (if marker_dims it = [] then [] else ''  '' @ join_with ''  '' (map (\<lambda>(k, v). k @ ''='' @ v) (sort_key fst (marker_dims it))))"

text \<open>\<open>str(longrepr)\<close> is the text; for the triple of a skip \<open>show3\<close> prints it. A text of white space has no last line.\<close>

definition longrepr_text :: "(string \<Rightarrow> string) \<Rightarrow> longrepr \<Rightarrow> string option" where
  "longrepr_text show3 r = (case r of NoRepr \<Rightarrow> None | SkipTuple s \<Rightarrow> Some (show3 s) | ReprText [] \<Rightarrow> None | ReprText (c # s) \<Rightarrow> Some (c # s))"

definition last_line :: "string \<Rightarrow> py_error + string" where
  "last_line s = (let ls = splitlines (py_strip s) in if ls = [] then Inl IndexError else Inr (last ls))"

fun expand_newlines :: "string \<Rightarrow> string" where
  "expand_newlines [] = []"
| "expand_newlines [c] = [c]"
| "expand_newlines (c # d # s) = (if c = CHR 0x5C \<and> d = CHR ''n'' then newline # expand_newlines s else c # expand_newlines (d # s))"

definition reason_lines :: "(string \<Rightarrow> string) \<Rightarrow> phase_report \<Rightarrow> py_error + string list" where
  "reason_lines show3 rep =
     (if ph_outcome rep = Passed then Inr []
      else case longrepr_text show3 (ph_longrepr rep) of
             None \<Rightarrow> Inr []
           | Some s \<Rightarrow> map_sum id (\<lambda>l. splitlines (expand_newlines l)) (last_line s))"

definition final_outcome :: "outcome \<Rightarrow> phase_report option \<Rightarrow> outcome" where
  "final_outcome held rep =
     (case rep of
        None \<Rightarrow> held
      | Some r \<Rightarrow> if held \<noteq> PASS then held
                  else if ph_outcome r = Failed then FAIL else if ph_outcome r = Skipped then SKIP else held)"

subsection \<open>The summary\<close>

datatype summary_column = PassCol | FailCol | SkipCol | KnownCol | ErrorCol

record dir_row =
  dr_counts :: "summary_column \<Rightarrow> int"
  dr_duration :: rat

record run_stats =
  rn_passed :: "phase_report list"
  rn_failed :: "phase_report list"
  rn_error :: "phase_report list"
  rn_skipped :: "phase_report list"
  rn_xfailed :: "phase_report list"

definition zero_row :: dir_row where
  "zero_row = \<lparr>dr_counts = (\<lambda>_. 0), dr_duration = 0\<rparr>"

definition report_dir :: "phase_report \<Rightarrow> string" where
  "report_dir r = path_parent (before_colons (ph_nodeid r))"

definition row_of :: "(string \<times> dir_row) list \<Rightarrow> string \<Rightarrow> dir_row" where
  "row_of dirs d = (case map_of dirs d of None \<Rightarrow> zero_row | Some r \<Rightarrow> r)"

definition count_report :: "(phase_report \<Rightarrow> summary_column) \<Rightarrow> phase_report \<Rightarrow> (string \<times> dir_row) list \<Rightarrow> (string \<times> dir_row) list" where
  "count_report col r dirs =
     (let d = report_dir r; row = row_of dirs d
      in dict_set d (row\<lparr>dr_counts := (dr_counts row)(col r := dr_counts row (col r) + 1),
                         dr_duration := dr_duration row + (case ph_duration r of None \<Rightarrow> 0 | Some x \<Rightarrow> x)\<rparr>) dirs)"

definition skip_column :: "phase_report \<Rightarrow> summary_column" where
  "skip_column r = (if ph_wasxfail r then KnownCol else SkipCol)"

definition summary_rows :: "run_stats \<Rightarrow> (string \<times> dir_row) list" where
  "summary_rows st =
     fold (count_report (\<lambda>_. KnownCol)) (rn_xfailed st)
      (fold (count_report skip_column) (rn_skipped st)
        (fold (count_report (\<lambda>_. ErrorCol)) (rn_error st)
          (fold (count_report (\<lambda>_. FailCol)) (rn_failed st) (fold (count_report (\<lambda>_. PassCol)) (rn_passed st) []))))"

definition failed_nodeids :: "run_stats \<Rightarrow> string list" where
  "failed_nodeids st = map ph_nodeid (rn_failed st @ rn_error st)"

definition add_rows :: "dir_row \<Rightarrow> dir_row \<Rightarrow> dir_row" where
  "add_rows a b = \<lparr>dr_counts = (\<lambda>c. dr_counts a c + dr_counts b c), dr_duration = dr_duration a + dr_duration b\<rparr>"

definition summary_totals :: "(string \<times> dir_row) list \<Rightarrow> dir_row" where
  "summary_totals dirs = fold (\<lambda>(d, row) acc. add_rows acc row) (sort_key fst dirs) zero_row"

definition total_tests :: "dir_row \<Rightarrow> int" where
  "total_tests r = sum_list (map (dr_counts r) [PassCol, FailCol, SkipCol, KnownCol, ErrorCol])"

definition trunc_dir :: "string \<Rightarrow> string" where
  "trunc_dir s = (if length s \<le> 45 then s else take 42 s @ ''...'')"

definition col_w :: "(string \<times> dir_row) list \<Rightarrow> summary_column \<Rightarrow> string \<Rightarrow> nat" where
  "col_w dirs c label = max (fold max (map (\<lambda>(d, r). length (show_int (dr_counts r c))) dirs) 0) (length label) + 2"

definition skip_reason :: "(string \<Rightarrow> string) \<Rightarrow> phase_report \<Rightarrow> py_error + string" where
  "skip_reason show3 r =
     (case ph_longrepr r of NoRepr \<Rightarrow> Inr [] | SkipTuple s \<Rightarrow> Inr s | ReprText [] \<Rightarrow> Inr [] | ReprText (c # s) \<Rightarrow> last_line (c # s))"

definition skipped_items :: "(string \<Rightarrow> string) \<Rightarrow> run_stats \<Rightarrow> py_error + (string \<times> string) list" where
  "skipped_items show3 st =
     mapM (\<lambda>r. map_sum id (\<lambda>reason. (ph_nodeid r, reason)) (skip_reason show3 r)) (filter (\<lambda>r. \<not> ph_wasxfail r) (rn_skipped st))"

subsection \<open>The dashboard\<close>

text \<open>The file system as the dashboard uses it: \<open>dh_entries\<close> is \<open>None\<close> for a path that does not exist.\<close>

record 't dashboard_host =
  dh_entries :: "string \<Rightarrow> 't \<Rightarrow> string list option"
  dh_isdir :: "string \<Rightarrow> 't \<Rightarrow> bool"
  dh_copytree :: "string \<Rightarrow> string \<Rightarrow> (unit, 't) act"
  dh_makedirs :: "string \<Rightarrow> (unit, 't) act"
  dh_write_text :: "string \<Rightarrow> string \<Rightarrow> (unit, 't) act"
  dh_run :: "string list \<Rightarrow> rat \<Rightarrow> (execution_result, 't) act"

definition executor_info :: "(pyval \<Rightarrow> string) \<Rightarrow> string \<Rightarrow> string" where
  "executor_info dumps name = dumps (PDict [(''name'', PStr ''rocm-test''), (''type'', PStr ''other''), (''reportName'', PStr name)])"

definition write_executor_info :: "'t dashboard_host \<Rightarrow> (pyval \<Rightarrow> string) \<Rightarrow> string \<Rightarrow> string \<Rightarrow> (unit, 't) act" where
  "write_executor_info h dumps results name =
     act_bind (dh_makedirs h results) (\<lambda>_. dh_write_text h (path_div results ''executor.json'') (executor_info dumps name))"

definition previous_dirs :: "'t dashboard_host \<Rightarrow> string \<Rightarrow> string \<Rightarrow> nat \<Rightarrow> 't \<Rightarrow> string list" where
  "previous_dirs h db archive n t =
     (let ds = sort_key path_parts (filter (\<lambda>p. dh_isdir h p t \<and> p \<noteq> archive) (map (path_div db) (case dh_entries h db t of None \<Rightarrow> [] | Some es \<Rightarrow> es)))
      in drop (length ds - n) ds)"

definition dashboard_cmd :: "string \<Rightarrow> string list \<Rightarrow> string list" where
  "dashboard_cmd results sources = [''allure'', ''generate'', ''--clean'', ''-o'', path_div (path_parent results) ''allure-report''] @ sources"

definition build_allure_dashboard :: "'t dashboard_host \<Rightarrow> string \<Rightarrow> string \<Rightarrow> nat \<Rightarrow> (unit, 't) act" where
  "build_allure_dashboard h ts results n =
     (let db = path_div (path_parent results) ''allure-db''; archive = path_div db ts
      in act_bind (dh_makedirs h db) (\<lambda>_.
         act_bind (act_get (dh_entries h results)) (\<lambda>es.
         act_bind (if es = None \<or> es = Some [] then act_return () else dh_copytree h results archive) (\<lambda>_.
         act_bind (act_get (previous_dirs h db archive n)) (\<lambda>prev.
         act_bind (act_get (\<lambda>t. dh_entries h results t \<noteq> None)) (\<lambda>there.
         let sources = prev @ (if there then [results] else [])
         in if sources = [] then act_return ()
            else (\<lambda>t. map_option (\<lambda>(r, t). (Inr (), t)) (dh_run h (dashboard_cmd results sources) 120 t))))))))"

text \<open>\<open>pytest_sessionfinish\<close>: every exception of the two steps is logged and swallowed.\<close>

definition reports_sessionfinish :: "'t dashboard_host \<Rightarrow> (pyval \<Rightarrow> string) \<Rightarrow> string \<Rightarrow> string \<Rightarrow> string option \<Rightarrow> int \<Rightarrow> 't \<Rightarrow> 't option" where
  "reports_sessionfinish h dumps ts results log_name n t =
     (if \<not> text_given log_name \<and> n \<le> 0 then Some t
      else map_option snd
        (act_bind (act_when (text_given log_name) (write_executor_info h dumps results (the log_name)))
           (\<lambda>_. act_when (n > 0) (build_allure_dashboard h ts results (nat n))) t))"

subsection \<open>The summary counts every report once\<close>

definition column_sum :: "summary_column \<Rightarrow> (string \<times> dir_row) list \<Rightarrow> int" where
  "column_sum c dirs = sum_list (map (\<lambda>(d, r). dr_counts r c) dirs)"

lemma column_sum_Nil [simp]: "column_sum c [] = 0"
  by (simp add: column_sum_def)

lemma column_sum_update:
  "column_sum c (dict_set k v d) = column_sum c d + dr_counts v c - dr_counts (row_of d k) c"
  by (induction d) (auto simp: column_sum_def row_of_def zero_row_def)

lemma count_report_sum: "column_sum c (count_report col r dirs) = column_sum c dirs + (if col r = c then 1 else 0)"
  by (simp add: count_report_def Let_def column_sum_update)

lemma counts_sum: "column_sum c (fold (count_report col) rs dirs) = column_sum c dirs + int (length (filter (\<lambda>r. col r = c) rs))"
  by (induction rs arbitrary: dirs) (simp_all add: count_report_sum)

lemma totals_fold: "dr_counts (fold (\<lambda>(d, row) acc. add_rows acc row) dirs acc) c = dr_counts acc c + column_sum c dirs"
  by (induction dirs arbitrary: acc) (auto simp: column_sum_def add_rows_def)

lemma totals_column: "dr_counts (summary_totals dirs) c = column_sum c dirs"
proof -
  have "mset (map (\<lambda>(d, r). dr_counts r c) (sort_key fst dirs)) = mset (map (\<lambda>(d, r). dr_counts r c) dirs)" by simp
  then have "column_sum c (sort_key fst dirs) = column_sum c dirs" unfolding column_sum_def by (metis sum_mset_sum_list)
  then show ?thesis by (simp add: summary_totals_def totals_fold zero_row_def)
qed

text \<open>
  The last line of the summary counts every report of the five lists exactly once, each in its column: an expected failure
  as a known issue wherever pytest has put it.
\<close>

theorem summary_counts_reports:
  "dr_counts (summary_totals (summary_rows st)) PassCol = int (length (rn_passed st)) \<and>
   dr_counts (summary_totals (summary_rows st)) FailCol = int (length (rn_failed st)) \<and>
   dr_counts (summary_totals (summary_rows st)) ErrorCol = int (length (rn_error st)) \<and>
   dr_counts (summary_totals (summary_rows st)) SkipCol = int (length (filter (\<lambda>r. \<not> ph_wasxfail r) (rn_skipped st))) \<and>
   total_tests (summary_totals (summary_rows st)) =
     int (length (rn_passed st @ rn_failed st @ rn_error st @ rn_skipped st @ rn_xfailed st))"
proof -
  have sk: "filter (\<lambda>r. skip_column r = SkipCol) rs = filter (\<lambda>r. \<not> ph_wasxfail r) rs" "filter (\<lambda>r. skip_column r = KnownCol) rs = filter ph_wasxfail rs"
    "filter (\<lambda>r. skip_column r = PassCol) rs = []" "filter (\<lambda>r. skip_column r = FailCol) rs = []" "filter (\<lambda>r. skip_column r = ErrorCol) rs = []" for rs
    by (induction rs) (auto simp: skip_column_def)
  have split: "length (filter (\<lambda>r. \<not> ph_wasxfail r) rs) + length (filter ph_wasxfail rs) = length rs" for rs
    using sum_length_filter_compl [of ph_wasxfail rs] by simp
  note cols = totals_column summary_rows_def counts_sum sk
  have c: "dr_counts (summary_totals (summary_rows st)) PassCol = int (length (rn_passed st))"
    "dr_counts (summary_totals (summary_rows st)) FailCol = int (length (rn_failed st))"
    "dr_counts (summary_totals (summary_rows st)) ErrorCol = int (length (rn_error st))"
    "dr_counts (summary_totals (summary_rows st)) SkipCol = int (length (filter (\<lambda>r. \<not> ph_wasxfail r) (rn_skipped st)))"
    "dr_counts (summary_totals (summary_rows st)) KnownCol = int (length (filter ph_wasxfail (rn_skipped st))) + int (length (rn_xfailed st))"
    by (simp_all add: cols)
  then show ?thesis using split [of "rn_skipped st"] by (simp add: total_tests_def)
qed

subsection \<open>The runs of a dashboard\<close>

text \<open>
  The dashboard takes at most \<open>n\<close> earlier runs, directories of the archive in their order and never the copy of the
  current run, and of all of them the last ones.
\<close>

theorem dashboard_sources:
  "length (previous_dirs h db archive n t) \<le> n \<and> archive \<notin> set (previous_dirs h db archive n t) \<and>
   sorted (map path_parts (previous_dirs h db archive n t)) \<and> list_all (\<lambda>p. dh_isdir h p t) (previous_dirs h db archive n t)"
proof -
  define ds where "ds = sort_key path_parts (filter (\<lambda>p. dh_isdir h p t \<and> p \<noteq> archive) (map (path_div db) (case dh_entries h db t of None \<Rightarrow> [] | Some es \<Rightarrow> es)))"
  have prev: "previous_dirs h db archive n t = drop (length ds - n) ds" by (simp add: previous_dirs_def ds_def Let_def)
  have sub: "set (drop (length ds - n) ds) \<subseteq> set ds" by (rule set_drop_subset)
  have mem: "p \<in> set ds \<Longrightarrow> dh_isdir h p t \<and> p \<noteq> archive" for p by (simp add: ds_def)
  have "sorted (map path_parts ds)" by (simp add: ds_def)
  then have "sorted (map path_parts (drop (length ds - n) ds))" by (simp add: drop_map [symmetric] sorted_wrt_drop)
  then show ?thesis unfolding prev using sub mem by (auto simp: list_all_iff)
qed

end
