(* ===== verification/Plugins.thy ===== *)
theory Plugins
  imports ReportsPlugin
begin

text \<open>
  The small plugins and the adapters of the operating system: \<open>framework/os_adapter\<close>, \<open>os_plugin.py\<close>, the gate and the
  options of \<open>gpu_plugin.py\<close>, \<open>prereqs_plugin.py\<close>, \<open>artifacts_plugin.py\<close> and \<open>executor_plugin.py\<close> under \<open>framework/plugins\<close>.
\<close>

subsection \<open>Adapters\<close>

datatype os_adapter = LinuxOsAdapter | WindowsOsAdapter

definition os_adapter_factory :: "string \<Rightarrow> py_error + os_adapter" where
  "os_adapter_factory sys_platform =
     (if startswith sys_platform ''linux'' then Inr LinuxOsAdapter else if sys_platform = ''win32'' then Inr WindowsOsAdapter else Inl RuntimeError)"

text \<open>\<open>proc_version\<close> is the text of \<open>/proc/version\<close>, \<open>None\<close> when reading it raises \<open>OSError\<close>.\<close>

definition is_wsl :: "os_adapter \<Rightarrow> string option \<Rightarrow> bool" where
  "is_wsl ad proc_version =
     (case ad of
        WindowsOsAdapter \<Rightarrow> False
      | LinuxOsAdapter \<Rightarrow>
          (case proc_version of None \<Rightarrow> False | Some v \<Rightarrow> contains_str ''microsoft'' (py_lower v) \<or> contains_str ''wsl'' (py_lower v)))"

definition get_platform_name :: "os_adapter \<Rightarrow> string option \<Rightarrow> string" where
  "get_platform_name ad proc_version =
     (case ad of WindowsOsAdapter \<Rightarrow> ''windows'' | LinuxOsAdapter \<Rightarrow> if is_wsl ad proc_version then ''wsl'' else ''linux'')"

text \<open>\<open>subprocess.run\<close> with a list of words and a time limit.\<close>

type_synonym 't word_runner = "string list \<Rightarrow> rat \<Rightarrow> (execution_result, 't) act"

definition load_kernel_module :: "os_adapter \<Rightarrow> 't word_runner \<Rightarrow> string \<Rightarrow> (bool, 't) act" where
  "load_kernel_module ad run kmod =
     (case ad of WindowsOsAdapter \<Rightarrow> act_return True | LinuxOsAdapter \<Rightarrow> act_bind (run [''modprobe'', kmod] 30) (\<lambda>r. act_return (er_ok r)))"

definition unload_kernel_module :: "os_adapter \<Rightarrow> 't word_runner \<Rightarrow> string \<Rightarrow> (bool, 't) act" where
  "unload_kernel_module ad run kmod =
     (case ad of WindowsOsAdapter \<Rightarrow> act_return True | LinuxOsAdapter \<Rightarrow> act_bind (run [''modprobe'', ''-r'', kmod] 30) (\<lambda>r. act_return (er_ok r)))"

definition module_listed :: "string \<Rightarrow> string \<Rightarrow> bool" where
  "module_listed kmod out \<longleftrightarrow> list_ex (\<lambda>l. case py_split l of [] \<Rightarrow> False | w # _ \<Rightarrow> w = kmod) (splitlines out)"

definition is_module_loaded :: "os_adapter \<Rightarrow> 't word_runner \<Rightarrow> string \<Rightarrow> (bool, 't) act" where
  "is_module_loaded ad run kmod =
     (case ad of
        WindowsOsAdapter \<Rightarrow> act_return True
      | LinuxOsAdapter \<Rightarrow> act_bind (run [''lsmod''] 10) (\<lambda>r. act_return (er_ok r \<and> module_listed kmod (er_stdout r))))"

definition linux_gpu_device_paths :: "string list \<Rightarrow> string list" where
  "linux_gpu_device_paths globbed = sort globbed"

definition or_val :: "pyval \<Rightarrow> pyval \<Rightarrow> pyval" where
  "or_val a b = (if truthy a then a else b)"

text \<open>One entry of \<open>amd-smi static\<close>: its path, or none. \<open>str_of\<close> is \<open>str\<close> on values.\<close>

definition windows_device_path :: "(pyval \<Rightarrow> string) \<Rightarrow> pyval \<Rightarrow> py_error + string option" where
  "windows_device_path str_of dev =
     sum_bind (py_get dev ''bdf'' PNone) (\<lambda>bdf.
     sum_bind (if truthy bdf then Inr bdf
               else sum_bind (py_get dev ''pcie_id'' PNone) (\<lambda>pcie.
                      if truthy pcie then Inr pcie
                      else sum_bind (py_get dev ''location'' PNone) (\<lambda>loc. py_get (or_val loc (PDict [])) ''bdf'' PNone))) (\<lambda>bdf.
     if truthy bdf then Inr (Some (str_of bdf))
     else Inr (case dev of PDict d \<Rightarrow> map_option (\<lambda>g. ''GPU:'' @ str_of g) (map_of d ''gpu'') | _ \<Rightarrow> None)))"

definition parse_windows_devices :: "loads \<Rightarrow> (pyval \<Rightarrow> string) \<Rightarrow> string \<Rightarrow> py_error + string list" where
  "parse_windows_devices js str_of out =
     (case js out of
        None \<Rightarrow> Inr []
      | Some data \<Rightarrow>
          (case mapM (windows_device_path str_of) (case data of PList ds \<Rightarrow> ds | v \<Rightarrow> [v]) of
             Inl e \<Rightarrow> if e = AttributeError then Inr [] else Inl e
           | Inr ps \<Rightarrow> Inr (List.map_filter id ps)))"

definition windows_gpu_device_paths :: "'t word_runner \<Rightarrow> loads \<Rightarrow> (pyval \<Rightarrow> string) \<Rightarrow> (string list, 't) act" where
  "windows_gpu_device_paths run js str_of t =
     (case run [''amd-smi'', ''static'', ''--json''] 30 t of
        None \<Rightarrow> None
      | Some (Inl e, t) \<Rightarrow> Some (if e = FileNotFoundError then Inr [] else Inl e, t)
      | Some (Inr r, t) \<Rightarrow> Some (if er_ok r then parse_windows_devices js str_of (er_stdout r) else Inr [], t))"

subsection \<open>Gates at the set-up of a test\<close>

text \<open>\<open>os_plugin.py\<close>: the markers in order; false when the test is skipped.\<close>

fun os_gate :: "string \<Rightarrow> string list \<Rightarrow> bool" where
  "os_gate platform [] = True"
| "os_gate platform (m # ms) =
     (if \<not> startswith m ''os.'' then os_gate platform ms
      else let v = drop 3 m
           in if v = ''both'' then True
              else if v = ''linux'' \<and> platform \<notin> set [''linux'', ''wsl''] then False
              else if v = ''windows'' \<and> platform \<noteq> ''windows'' then False
              else os_gate platform ms)"

definition os_setup :: "string \<Rightarrow> item \<Rightarrow> py_error + unit" where
  "os_setup platform it = (if os_gate platform (map mk_name (iter_markers it)) then Inr () else Inl PytestSkip)"

definition gpu_setup :: "bool \<Rightarrow> item \<Rightarrow> py_error + unit" where
  "gpu_setup no_gpu it =
     (if no_gpu \<and> list_ex (\<lambda>m. mk_name m \<in> set [''hw.gpu'', ''hw.multi_gpu'']) (iter_markers it) then Inl PytestSkip else Inr ())"

subsection \<open>Prerequisites\<close>

definition python_ok :: "int \<Rightarrow> int \<Rightarrow> bool" where
  "python_ok major minor \<longleftrightarrow> major > 3 \<or> major = 3 \<and> minor \<ge> 10"

fun rocm_available :: "'t word_runner \<Rightarrow> string list \<Rightarrow> (bool, 't) act" where
  "rocm_available run [] t = Some (Inr False, t)"
| "rocm_available run (c # cs) t =
     (case run [c, ''--version''] 5 t of
        None \<Rightarrow> None
      | Some (Inl e, t) \<Rightarrow> if e = FileNotFoundError then rocm_available run cs t else Some (Inl e, t)
      | Some (Inr r, t) \<Rightarrow> Some (Inr True, t))"

definition check_rocm_available :: "'t word_runner \<Rightarrow> (bool, 't) act" where
  "check_rocm_available run = rocm_available run [''hipconfig'', ''rocm-smi'', ''amd-smi'']"

text \<open>A check that raises counts as failed.\<close>

fun run_checks :: "(bool, 't) act list \<Rightarrow> (bool list, 't) act" where
  "run_checks [] t = Some (Inr [], t)"
| "run_checks (c # cs) t =
     (case c t of
        None \<Rightarrow> None
      | Some (r, t) \<Rightarrow> act_bind (run_checks cs) (\<lambda>bs. act_return ((case r of Inl e \<Rightarrow> False | Inr b \<Rightarrow> b) # bs)) t)"

definition prereqs :: "bool \<Rightarrow> (bool, 't) act list \<Rightarrow> (bool list, 't) act" where
  "prereqs strict checks =
     act_bind (run_checks checks) (\<lambda>results. if strict \<and> \<not> list_all id results then act_raise PytestExit else act_return results)"

subsection \<open>Artifacts and containers\<close>

definition gpu_state_cmd :: "int option \<Rightarrow> string list" where
  "gpu_state_cmd gpu_index = [''amd-smi'', ''metric''] @ (case gpu_index of None \<Rightarrow> [] | Some i \<Rightarrow> [''--gpu'', show_int i])"

text \<open>No exception of the tool leaves the capture; the text of an exception is \<open>why\<close>. The dash of the message is written as a hyphen.\<close>

definition capture_gpu_state :: "'t word_runner \<Rightarrow> (py_error \<Rightarrow> string) \<Rightarrow> int option \<Rightarrow> 't \<Rightarrow> (string \<times> 't) option" where
  "capture_gpu_state run why gpu_index t =
     map_option (\<lambda>(r, t).
         (case r of
            Inr a \<Rightarrow> if er_stdout a \<noteq> [] then er_stdout a else if er_stderr a \<noteq> [] then er_stderr a else ''(no amd-smi output)''
          | Inl e \<Rightarrow> if e = FileNotFoundError then ''amd-smi not found - GPU state unavailable'' else ''GPU state capture failed: '' @ why e, t))
       (run (gpu_state_cmd gpu_index) 15 t)"

definition artifacts_teardown :: "'t word_runner \<Rightarrow> (py_error \<Rightarrow> string) \<Rightarrow> phase_report option \<Rightarrow> 't \<Rightarrow> (string option \<times> 't) option" where
  "artifacts_teardown run why rep t =
     (case rep of
        Some r \<Rightarrow> if ph_outcome r = Failed then map_option (\<lambda>(x, t). (Some x, t)) (capture_gpu_state run why None t) else Some (None, t)
      | None \<Rightarrow> Some (None, t))"

subsection \<open>What the gates decide\<close>

definition os_allows :: "string \<Rightarrow> string \<Rightarrow> bool" where
  "os_allows platform m \<longleftrightarrow> (m = ''os.linux'' \<longrightarrow> platform \<in> {''linux'', ''wsl''}) \<and> (m = ''os.windows'' \<longrightarrow> platform = ''windows'')"

lemma os_marker_split: "startswith m ''os.'' \<Longrightarrow> m = ''os.'' @ drop 3 m"
  unfolding startswith_def by (metis append_take_drop_id length_Cons list.size(3) numeral_3_eq_3)

lemma os_gate_without_both: "''os.both'' \<notin> set ms \<Longrightarrow> os_gate platform ms \<longleftrightarrow> list_all (os_allows platform) ms"
proof (induction ms)
  case (Cons m ms)
  show ?case
  proof (cases "startswith m ''os.''")
    case True
    note m = os_marker_split [OF True]
    have "drop 3 m \<noteq> ''both''" using m Cons.prems by auto
    moreover have "drop 3 m = ''linux'' \<longleftrightarrow> m = ''os.linux''" "drop 3 m = ''windows'' \<longleftrightarrow> m = ''os.windows''" using m by auto
    ultimately show ?thesis using Cons True by (auto simp: os_allows_def Let_def)
  next
    case False
    then have "m \<noteq> ''os.linux''" "m \<noteq> ''os.windows''" by (auto simp: startswith_def)
    then show ?thesis using Cons False by (simp add: os_allows_def)
  qed
qed simp

text \<open>
  A test that is not marked for both systems runs exactly when every system marker it has, its own or an inherited one, names the
  platform of the session; a test with a marker for Linux and one for Windows runs nowhere.
\<close>

theorem os_setup_decides:
  assumes "''os.both'' \<notin> set (map mk_name (iter_markers it))"
  shows "(os_setup platform it = Inr () \<longleftrightarrow> list_all (os_allows platform) (map mk_name (iter_markers it))) \<and>
    (''os.linux'' \<in> set (map mk_name (iter_markers it)) \<and> ''os.windows'' \<in> set (map mk_name (iter_markers it)) \<longrightarrow> os_setup platform it = Inl PytestSkip)"
  using os_gate_without_both [OF assms, of platform] by (auto simp: os_setup_def list_all_iff os_allows_def)

lemma os_setup_decides_witness:
  "os_setup ''windows'' \<lparr>it_nodeid = ''t'', it_path = ''t.py'', it_own = [\<lparr>mk_name = ''os.windows'', mk_args = []\<rparr>], it_inherited = [\<lparr>mk_name = ''os.linux'', mk_args = []\<rparr>]\<rparr> = Inl PytestSkip"
  using os_setup_decides [of "\<lparr>it_nodeid = ''t'', it_path = ''t.py'', it_own = [\<lparr>mk_name = ''os.windows'', mk_args = []\<rparr>], it_inherited = [\<lparr>mk_name = ''os.linux'', mk_args = []\<rparr>]\<rparr>" "''windows''"]
  by (simp add: iter_markers_def)

lemma run_checks_results:
  "run_checks cs t = Some (Inr bs, t') \<Longrightarrow> length bs = length cs"
proof (induction cs arbitrary: t bs)
  case (Cons c cs)
  obtain r u where "c t = Some (r, u)" using Cons.prems by (cases "c t") auto
  with Cons.prems obtain bs' where "run_checks cs u = Some (Inr bs', t')" "bs = (case r of Inl e \<Rightarrow> False | Inr b \<Rightarrow> b) # bs'"
    by (auto simp: act_bind_Inr act_basic_Inr)
  then show ?case using Cons.IH by simp
qed simp

text \<open>
  With strict prerequisites the session goes on only when every check has passed. There is one result for every check.
\<close>

theorem strict_prereqs_passed:
  assumes "prereqs strict checks t = Some (Inr results, t')"
  shows "length results = length checks \<and> (\<not> strict \<or> list_all id results)"
  using assms run_checks_results by (auto simp: prereqs_def act_bind_Inr act_basic_Inr split: if_splits)

end
