(* ===== verification/Spec2Isabelle.thy ===== *)
theory Spec2Isabelle
  imports Workers PoolTheorems Scheduler Markers Config Drain Workspace ManualAlloc ChangedTests Gitleaks ResultProps StepSummary Install Plugins
begin

text \<open>
  A verification of the core of \<open>rocm-tests\<close>, the pytest framework that runs ROCm tests on a fleet of
  GPU nodes: the management of GPUs, the executors that run commands on them, the fixtures that join the two, the builder
  of test binaries, and the scripts that select tests, scan the sources and store results in continuous integration.
  Paths below are relative to \<open>src/\<close>.

  \<^bold>\<open>The program.\<close> A session loads its configuration and a host file, detects the GPUs of every node and
  builds a \<open>NodePool\<close> with one in-memory allocator per node. The scheduler plugin orders the collected
  tests and puts them into xdist groups. Every xdist worker is a process with a \<open>NodePool\<close> of its own; the
  workers exclude each other from a GPU by file locks under \<open>output/.gpu-locks\<close>, and tell each other
  about waiting multi-GPU requests through a JSON registry in the same directory. A test acquires its slots in
  a fixture (one GPU, several, exact indices, or several nodes), which checks their health, starts monitors and
  containers and makes an executor from them; it runs, the fixture waits for the memory of the GPU to drain and
  releases the slots. An executor runs shell commands on the local machine, over SSH or in a container, to the
  end or in the background. Markers say what a test needs; a linter checks them and a plugin adds the ones a
  directory implies. Test binaries are compiled under file locks, and whole projects are cloned and built, on the local host
  or on the node that runs the test. Around a session stand scripts of the workflows: one maps the changed files of a pull
  request to tests, one waits for runners, four drive security scanners, and one reads the JSON reports of the
  session and inserts them into a ClickHouse table.

  \<^bold>\<open>Theories and sources.\<close>
  \<^item> \<open>Prelude\<close>, \<open>PyStr\<close>, \<open>PyVal\<close>: error values, dictionaries as association lists, polling loops, and what the
    sources use of Python's strings, numbers and dynamic values.
  \<^item> \<open>Detector\<close>: \<open>framework/gpu/detector.py\<close> and two helpers of \<open>framework/rocm/libs/amd_smi.py\<close>; the
    cascade lspci, KFD, amd-smi and the enrichment of its results.
  \<^item> \<open>Allocator\<close>: \<open>framework/gpu/allocator.py\<close>; the set of free GPUs of a node, NUMA-ordered choice, waiting.
  \<^item> \<open>FileLock\<close>: \<open>framework/nodes/gpu_file_lock.py\<close>, and the state all processes share (\<open>world\<close>).
  \<^item> \<open>PendingTracker\<close>: \<open>framework/nodes/pending_tracker.py\<close>; the registry of waiting multi-GPU requests.
  \<^item> \<open>NodeSpec\<close>: \<open>framework/nodes/node_spec.py\<close>; node descriptors and the host file loader.
  \<^item> \<open>NodePool\<close>: \<open>framework/nodes/node_pool.py\<close>; construction, topology, the five acquisition operations and
    release. \<open>PoolProps\<close> and \<open>MultiProps\<close> hold the lemmas on one round and on whole operations, \<open>PoolDemo\<close>
    the concrete fleet of the witnesses, \<open>PoolTheorems\<close> the contracts.
  \<^item> \<open>Workers\<close>: the session as a transition system over many workers; a step is one turn of an acquisition
    loop, a release, activity on the registry, or the death of a worker.
  \<^item> \<open>GpuCount\<close>, \<open>Scheduler\<close>: \<open>framework/markers/gpu_count.py\<close>,
    \<open>framework/scheduling/dynamic_scheduler.py\<close>, \<open>framework/plugins/scheduling_plugin.py\<close>.
  \<^item> \<open>Taxonomy\<close>, \<open>Markers\<close>: \<open>framework/markers/taxonomy.py\<close>, \<open>framework/plugins/markers_plugin.py\<close>,
    \<open>framework/markers/linter.py\<close>.
  \<^item> \<open>Helpers\<close>, \<open>Workspace\<close>: \<open>framework/common/helpers.py\<close>, \<open>framework/common/workspace_layout.py\<close>.
  \<^item> \<open>Drain\<close>: \<open>framework/gpu/drain.py\<close> and \<open>framework/plugins/retry_plugin.py\<close>.
  \<^item> \<open>Config\<close>: \<open>framework/config/loader.py\<close>.
  \<^item> \<open>BackgroundProc\<close>: \<open>framework/executors/background_process.py\<close>; bounded capture, the blocking run, the
    reader thread and the handle of a background process.
  \<^item> \<open>Shell\<close>: \<open>shlex.quote\<close> and the shell's reading of a command line.
  \<^item> \<open>SshStream\<close>, \<open>SshPoll\<close>, \<open>SshExec\<close>, \<open>SshBackground\<close>: \<open>framework/executors/ssh_executor.py\<close>; the live view of
    remote output and its length-prefixed protocol, the shared poller thread as a transition system, connections, remote
    commands and paths, remote background handles.
  \<^item> \<open>Executors\<close>: \<open>local_executor.py\<close>, \<open>cpu_executor.py\<close>, \<open>dry_run_executor.py\<close>, \<open>container_executor.py\<close> under
    \<open>framework/executors\<close>. \<open>ExecGroup\<close>: \<open>executor_factory.py\<close>, \<open>executor_group.py\<close> and the
    \<open>make_executor\<close> methods of \<open>node_pool.py\<close>.
  \<^item> \<open>TestLogger\<close>: \<open>framework/logging/test_logger.py\<close>.
  \<^item> \<open>AmdSmi\<close>, \<open>Monitor\<close>: \<open>framework/rocm/libs/amd_smi.py\<close>, \<open>framework/gpu/monitor.py\<close>,
    \<open>framework/plugins/health_plugin.py\<close>.
  \<^item> \<open>Fixtures\<close>, \<open>WorkerPool\<close>, \<open>ManualAlloc\<close>: \<open>framework/plugins/remote_node_plugin.py\<close>; the fixtures that acquire,
    hold and release slots, the topology that the controller sends to its workers and the session hooks, the
    manual allocator.
  \<^item> \<open>RocmLibs\<close>: \<open>gtest.py\<close>, \<open>rccl.py\<close>, \<open>hip.py\<close> and \<open>stack.py\<close> under \<open>framework/rocm/libs\<close>.
  \<^item> \<open>Builder\<close>, \<open>ExtBuild\<close>: \<open>framework/builder/binary_builder.py\<close>; the compiler under its lock and time limits, and
    CMake, MPI, checkouts, make and autotools builds with their fingerprints. \<open>BuildFixtures\<close>:
    \<open>framework/plugins/builder_plugin.py\<close>, the fixtures through which tests use them.
  \<^item> \<open>ReportsPlugin\<close>, \<open>Install\<close>, \<open>Plugins\<close>: \<open>reports_plugin.py\<close>, \<open>install_plugin.py\<close>, \<open>os_plugin.py\<close>, \<open>gpu_plugin.py\<close>,
    \<open>prereqs_plugin.py\<close> and \<open>artifacts_plugin.py\<close> under \<open>framework/plugins\<close>, and \<open>framework/os_adapter\<close>.
  \<^item> \<open>GhaApi\<close>, \<open>ChangedTests\<close>: \<open>build_tools/github_actions\<close>; the client of the GitHub API, the files of a workflow step,
    the selection of tests from changed files.
  \<^item> \<open>ScanCommon\<close>, \<open>Scanners\<close>, \<open>ScanProps\<close>, \<open>Gitleaks\<close>: \<open>scan_tools/github_actions\<close>; the four drivers of scanners.
  \<^item> \<open>Reports\<close>, \<open>Results\<close>, \<open>ResultProps\<close>: \<open>framework/results/backends/clickhouse.py\<close>; the reports of pytest, the rows
    made of them and the insertion.
  \<^item> \<open>Runners\<close>, \<open>StepSummary\<close>: \<open>.github/scripts\<close>; the matrix of targets, the check of the runners, the summary of a run.

  \<^bold>\<open>Correspondence.\<close> A class is a record, a method a function on it, an exception a value of \<open>py_error\<close> in
  the left half of a sum. A method of \<open>NodePool\<close> maps the pair of the process's pool and the shared world to
  its result and the new pair. Code between two pauses of an operation is one atomic function: in the program the
  file lock itself makes the steps that matter atomic, and the other threads of the process are shut out by
  \<open>_pool_lock\<close>. What the rest of the session does during a pause is the argument \<open>others\<close>, about which a
  theorem assumes at most that it preserves the invariant of the caller's own pool; \<open>Workers\<close> puts the
  turns of all workers into one system. Time is a rational clock that pauses advance. Waiting loops use
  \<open>poll\<close>, a \<open>partial_function\<close> whose value is \<open>None\<close> when the loop does not end; the locale \<open>polling\<close>
  proves that a loop with a deadline and pauses of positive length does end, and it is interpreted on the
  loops of the pool, of the drain checker, of the blocking run, of the remote stream, of the monitor, of the compiler, of the
  build lock and of the check of the runners. No fuel is used anywhere. An SSH session is an object that several slots share: executors refer to it by its key in a table of
  sessions that the operations pass along.

  \<^bold>\<open>What stands outside.\<close> The \<open>filelock\<close> package is a record of two functions with the contract
  \<open>filelock_ok\<close>: a non-blocking attempt succeeds only on a free lock, a timeout means that the lock is held,
  release frees it. Shell commands, sysfs, the search path, \<open>json.loads\<close>, the YAML and TOML parsers and the
  environment are arguments of the definitions that use them. Processes, pipes and threads are records of functions with
  named contracts (\<open>process_ok\<close>, \<open>pipes_ok\<close>, \<open>clock_ok\<close>, \<open>monitor_world_ok\<close>), paramiko's channel and the
  container runtime are functions of the host. The GitHub API, the scanners, git, pip, the ClickHouse client, the
  hash and the JSON encoder of the scripts, and the host and the remote executor of the builder are records of functions in the
  same way (\<open>build_host\<close>, \<open>remote_executor\<close>, \<open>codec\<close>). Python floats are rationals. The locale
  \<open>slot_source\<close> states what a client of an allocator may rely on; it is interpreted on the two ways of
  taking a GPU. \<open>severity_scale\<close>, \<open>graded_scanner\<close> and \<open>report_table\<close> state what the common part of the scanner drivers needs
  of a scanner and are interpreted on the scanners; \<open>background_handle\<close>, \<open>timed_processes\<close> and \<open>monitored_world\<close> do the
  same for handles, processes and the monitor.

  \<^bold>\<open>What is shown.\<close> Two workers never hold the same GPU in any reachable state of a session, and every slot
  a worker holds is backed by its file lock and is not free in its allocator. Each acquisition operation
  returns by its deadline with slots that are locked and taken from the pool, or fails and leaves locks and pool as
  they were; the places where the code falls short of this (a loop that passes its deadline, a request that starves,
  slots that leak) are theorems too. Releasing undoes acquiring. A fixture gives back every slot it holds however
  its set-up, the test or its teardown end, a multi-GPU test leaves the pool as it was, and a worker's pool is a faithful copy
  of the controller's but for the SSH sessions. An executor shows a command exactly the GPUs of its slots. The blocking run,
  the remote stream and the capped monitor always end; captured output is the longest tail that fits, and the live view of a
  remote process does not depend on how its output is cut. Quoted commands and the length-prefixed protocol come apart
  into what was put in. Loggers, containers and background handles restore what they changed. Detection numbers GPUs from 0, whatever the host
  answers. Scheduling is a stable sort and xdist groups keep tests apart that need whole GPUs. The linter
  accepts exactly the files whose markers follow the schema, and the injected markers complete them.
  Configuration values come from the environment, the file and the defaults in this order. Remote paths stay
  below the workspace; artifact names are portable. The drain checker and the retry helper end and report what
  they saw. A changed test file is always among the selected tests. A scanner driver ends with 0 only when the scan ran and
  found nothing at or above the threshold; step outputs are read back as they were written; a report cannot break out of its
  fence. A run of the results script that succeeds has inserted one row for every test case of every report it found, and
  every statement fits the columns of the table. The check of the runners ends and lets a target through
  exactly when its runner was seen online. A compilation ends, releases its lock, and reports success only for a current
  binary or a compiler that exited with 0; a build is reused exactly when its fingerprint is the one that was written. The
  summary of a GoogleTest run is read back, and its command reaches the program word by word. The summary at the end of a
  session counts every report once, a session starts only when its required packages are installed, and a test runs exactly on
  the systems its markers name.

  \<^bold>\<open>What is not modelled.\<close> The SFTP transfer and the keepalive probe of the SSH executor, standard input of
  \<open>run_cmd_get_stdout_stderr\<close>, the attachments to Allure under \<open>framework/reporting\<close>, the provisioning of machine learning
  frameworks (code of the test suites), the registration of command line options, the two fixtures of \<open>session_plugin.py\<close> that
  return the configuration and the run context, and the tests themselves. Console and message texts are left out, as is the
  layout of the printed summary.
\<close>

section \<open>From the host file to the pool\<close>

text \<open>
  C23. Take the nodes of a host file, let their detections finish in any order and give any answer:
  the pool that results satisfies the invariant of the acquisition operations, all its GPUs are free, and every
  allocator belongs to an entry of the host file.
\<close>

theorem session_pool_ready:
  assumes "load_hosts (PDict d) = Inr specs" and "mset order = mset specs"
  shows "let np = detect_all gethostname (detected_gpus gethostname hosts None rock) order
                    (new_pool specs headroom pid)
    in pool_inv np \<and> fst (pool_status np) = snd (pool_status np)
       \<and> fst ` set (np_allocs np) \<subseteq> {k \<in> fst ` set d. startswith k host_prefix}"
proof -
  let ?gpus_of = "detected_gpus gethostname hosts None rock"
  let ?np = "detect_all gethostname ?gpus_of order (new_pool specs headroom pid)"
  have dist: "distinct (map gi_index gs)" if "?gpus_of spec = Inr gs" for spec gs
    using that by (auto simp: detected_gpus_def intro: detect_distinct)
  have "pool_inv ?np" using new_pool_inv dist by (rule detect_all_inv)
  moreover have "all_free (new_pool specs headroom pid)" by (simp add: all_free_def new_pool_def)
  then have "all_free ?np" using dist by (rule detect_all_free)
  moreover have "fst ` set (np_allocs ?np) \<subseteq> ns_label ` set order"
    using detect_all_labels [of gethostname ?gpus_of order "new_pool specs headroom pid"] by (simp add: new_pool_def)
  moreover have "ns_label ` set order = set (filter (\<lambda>k. startswith k host_prefix) (map fst d))"
    using load_hosts_mset [OF assms(1)] assms(2) by (metis list.set_map set_mset_mset)
  ultimately show ?thesis by (simp add: all_free_status Let_def)
qed

text \<open>The host file of the witness of \<open>load_hosts\<close>, with two GPUs per node.\<close>

definition two_gpus :: Detector.host where
  "two_gpus = \<lparr>h_exec = (\<lambda>cmd. if cmd = ''lspci -d 1002: -nn''
       then Some (0, ''03:00.0 Display controller'' @ [char_of (10 :: nat)] @ ''04:00.0 Display controller'') else None),
     h_kfd = None, h_loads = (\<lambda>_. Inl ValueError)\<rparr>"

theorem session_pool_ready_witness:
  "\<exists>specs np. load_hosts (PDict demo_hosts) = Inr specs \<and>
     np = detect_all None (detected_gpus None (\<lambda>_. two_gpus) None None) (rev specs) (new_pool specs 2 1) \<and>
     pool_inv np \<and> pool_status np = (4, 4)"
proof -
  let ?build = "\<lambda>specs. detect_all None (detected_gpus None (\<lambda>_. two_gpus) None None) (rev specs) (new_pool specs 2 1)"
  have "case load_hosts (PDict demo_hosts) of Inr specs \<Rightarrow> snd (pool_status (?build specs)) = 4 | Inl _ \<Rightarrow> False"
    by code_simp
  then obtain specs where specs: "load_hosts (PDict demo_hosts) = Inr specs"
    and four: "snd (pool_status (?build specs)) = 4"
    by (auto split: sum.splits)
  have "pool_inv (?build specs) \<and> pool_status (?build specs) = (4, 4)"
    using session_pool_ready [OF specs, of "rev specs" None "\<lambda>_. two_gpus" None 2 1] four
    by (simp add: Let_def prod_eq_iff)
  with specs show ?thesis by blast
qed

end
